(* ===== verification/Prelude.thy ===== *)
theory Prelude
  imports Main
begin

text \<open>
  The vocabulary every component theory shares: computations that read and write a state and
  stop at the first error (Rust's \<^verbatim>\<open>async fn ... -> Result<T, E>\<close> with \<^verbatim>\<open>?\<close>), the lemmas that
  characterise their successful and failing runs, a calculus for relations that every run of a
  computation respects (invariants and frame conditions are instances of it), and the list
  lemmas behind the table operations.
\<close>

section \<open>Computations with state and errors\<close>

type_synonym ('s, 'e, 'a) exec = "'s \<Rightarrow> ('e + 'a) \<times> 's"

named_theorems exec_simps "runs of the combinators"
named_theorems exec_defs "the definitions of the combinators"
named_theorems steps_intros "relations respected by the operations of the components"

definition ret :: "'a \<Rightarrow> ('s, 'e, 'a) exec" where
  "ret x = (\<lambda>s. (Inr x, s))"

definition throw :: "'e \<Rightarrow> ('s, 'e, 'a) exec" where
  "throw e = (\<lambda>s. (Inl e, s))"

definition bindE :: "('s, 'e, 'a) exec \<Rightarrow> ('a \<Rightarrow> ('s, 'e, 'b) exec) \<Rightarrow> ('s, 'e, 'b) exec" where
  "bindE m f = (\<lambda>s. case m s of (Inl e, s') \<Rightarrow> (Inl e, s') | (Inr x, s') \<Rightarrow> f x s')"

definition seqE :: "('s, 'e, 'a) exec \<Rightarrow> ('s, 'e, 'b) exec \<Rightarrow> ('s, 'e, 'b) exec" where
  "seqE m n = bindE m (\<lambda>_. n)"

definition map_err :: "('e \<Rightarrow> 'f) \<Rightarrow> ('s, 'e, 'a) exec \<Rightarrow> ('s, 'f, 'a) exec" where
  "map_err f m = (\<lambda>s. case m s of (Inl e, s') \<Rightarrow> (Inl (f e), s') | (Inr x, s') \<Rightarrow> (Inr x, s'))"

definition mapE :: "('a \<Rightarrow> 'b) \<Rightarrow> ('s, 'e, 'a) exec \<Rightarrow> ('s, 'e, 'b) exec" where
  "mapE f m = (\<lambda>s. case m s of (Inl e, s') \<Rightarrow> (Inl e, s') | (Inr x, s') \<Rightarrow> (Inr (f x), s'))"

text \<open>\<^verbatim>\<open>match m.await\<close>: the result becomes a value and the computation goes on.\<close>

definition attempt :: "('s, 'e, 'a) exec \<Rightarrow> ('s, 'f, 'e + 'a) exec" where
  "attempt m = (\<lambda>s. case m s of (r, s') \<Rightarrow> (Inr r, s'))"

definition of_result :: "'e + 'a \<Rightarrow> ('s, 'e, 'a) exec" where
  "of_result r = (\<lambda>s. (r, s))"

definition gets :: "('s \<Rightarrow> 'a) \<Rightarrow> ('s, 'e, 'a) exec" where
  "gets f = (\<lambda>s. (Inr (f s), s))"

definition modify :: "('s \<Rightarrow> 's) \<Rightarrow> ('s, 'e, unit) exec" where
  "modify f = (\<lambda>s. (Inr (), f s))"

text \<open>\<^verbatim>\<open>if !b { return Err(e) }\<close>, \<^verbatim>\<open>x.ok_or(e)?\<close> and a conditional statement.\<close>

definition ensure :: "bool \<Rightarrow> 'e \<Rightarrow> ('s, 'e, unit) exec" where
  "ensure b e = (if b then ret () else throw e)"

definition ok_or :: "'a option \<Rightarrow> 'e \<Rightarrow> ('s, 'e, 'a) exec" where
  "ok_or x e = (case x of None \<Rightarrow> throw e | Some v \<Rightarrow> ret v)"

definition whenE :: "bool \<Rightarrow> ('s, 'e, unit) exec \<Rightarrow> ('s, 'e, unit) exec" where
  "whenE b m = (if b then m else ret ())"

text \<open>Errors that are logged and dropped (\<^verbatim>\<open>if let Err(error) = ...\<close>).\<close>

definition ignore_err :: "('s, 'e, 'a) exec \<Rightarrow> ('s, 'f, unit) exec" where
  "ignore_err m = (\<lambda>s. case m s of (_, s') \<Rightarrow> (Inr (), s'))"

text \<open>\<^verbatim>\<open>for x in xs { m(x).await?; }\<close> and \<^verbatim>\<open>iter().map(m).collect::<Result<Vec<_>, _>>()\<close>.\<close>

fun for_each :: "('a \<Rightarrow> ('s, 'e, 'b) exec) \<Rightarrow> 'a list \<Rightarrow> ('s, 'e, unit) exec" where
  "for_each m [] = ret ()"
| "for_each m (x # xs) = seqE (m x) (for_each m xs)"

fun collect_each :: "('a \<Rightarrow> ('s, 'e, 'b) exec) \<Rightarrow> 'a list \<Rightarrow> ('s, 'e, 'b list) exec" where
  "collect_each m [] = ret []"
| "collect_each m (x # xs) =
     bindE (m x) (\<lambda>y. bindE (collect_each m xs) (\<lambda>ys. ret (y # ys)))"

lemmas exec_comb_defs [exec_defs] =
  ret_def throw_def bindE_def seqE_def map_err_def mapE_def attempt_def of_result_def gets_def
  modify_def ensure_def ok_or_def whenE_def ignore_err_def

lemma run_ret [simp, exec_simps]: "ret x s = (Inr x, s)"
  by (simp add: ret_def)

lemma run_throw [simp, exec_simps]: "throw e s = (Inl e, s)"
  by (simp add: throw_def)

lemma run_of_result [simp, exec_simps]: "of_result r s = (r, s)"
  by (simp add: of_result_def)

lemma run_gets [simp, exec_simps]: "gets f s = (Inr (f s), s)"
  by (simp add: gets_def)

lemma run_modify [simp, exec_simps]: "modify f s = (Inr (), f s)"
  by (simp add: modify_def)

lemma run_attempt: "attempt m s = (Inr (fst (m s)), snd (m s))"
  by (simp add: attempt_def split: prod.splits)

lemma run_ignore_err [simp, exec_simps]: "ignore_err m s = (Inr (), snd (m s))"
  by (simp add: ignore_err_def split: prod.splits)

lemma bindE_ok [simp]: "m s = (Inr x, s') \<Longrightarrow> bindE m f s = f x s'"
  by (simp add: bindE_def)

lemma bindE_err [simp]: "m s = (Inl e, s') \<Longrightarrow> bindE m f s = (Inl e, s')"
  by (simp add: bindE_def)

lemma bindE_Inr_iff [exec_simps]:
  "bindE m f s = (Inr y, s'') \<longleftrightarrow> (\<exists>x s'. m s = (Inr x, s') \<and> f x s' = (Inr y, s''))"
  by (auto simp: bindE_def split: prod.splits sum.splits)

lemma bindE_Inl_iff [exec_simps]:
  "bindE m f s = (Inl e, s'') \<longleftrightarrow>
     m s = (Inl e, s'') \<or> (\<exists>x s'. m s = (Inr x, s') \<and> f x s' = (Inl e, s''))"
  by (auto simp: bindE_def split: prod.splits sum.splits)

lemma seqE_Inr_iff [exec_simps]:
  "seqE m n s = (Inr y, s'') \<longleftrightarrow> (\<exists>x s'. m s = (Inr x, s') \<and> n s' = (Inr y, s''))"
  by (simp add: seqE_def bindE_Inr_iff)

lemma seqE_Inl_iff [exec_simps]:
  "seqE m n s = (Inl e, s'') \<longleftrightarrow>
     m s = (Inl e, s'') \<or> (\<exists>x s'. m s = (Inr x, s') \<and> n s' = (Inl e, s''))"
  by (simp add: seqE_def bindE_Inl_iff)

lemma seqE_ok [simp]: "m s = (Inr x, s') \<Longrightarrow> seqE m n s = n s'"
  by (simp add: seqE_def)

lemma seqE_err [simp]: "m s = (Inl e, s') \<Longrightarrow> seqE m n s = (Inl e, s')"
  by (simp add: seqE_def)

lemma map_err_Inr_iff [exec_simps]: "map_err f m s = (Inr x, s') \<longleftrightarrow> m s = (Inr x, s')"
  by (auto simp: map_err_def split: prod.splits sum.splits)

lemma map_err_Inl_iff [exec_simps]:
  "map_err f m s = (Inl e', s') \<longleftrightarrow> (\<exists>e. m s = (Inl e, s') \<and> e' = f e)"
  by (auto simp: map_err_def split: prod.splits sum.splits)

lemma mapE_Inr_iff [exec_simps]:
  "mapE f m s = (Inr y, s') \<longleftrightarrow> (\<exists>x. m s = (Inr x, s') \<and> y = f x)"
  by (auto simp: mapE_def split: prod.splits sum.splits)

lemma mapE_Inl_iff [exec_simps]: "mapE f m s = (Inl e, s') \<longleftrightarrow> m s = (Inl e, s')"
  by (auto simp: mapE_def split: prod.splits sum.splits)

lemma ensure_Inr_iff [exec_simps]: "ensure b e s = (Inr u, s') \<longleftrightarrow> b \<and> s' = s"
  by (auto simp: ensure_def)

lemma ensure_Inl_iff [exec_simps]: "ensure b e s = (Inl e', s') \<longleftrightarrow> \<not> b \<and> e' = e \<and> s' = s"
  by (auto simp: ensure_def)

lemma ok_or_Inr_iff [exec_simps]: "ok_or x e s = (Inr v, s') \<longleftrightarrow> x = Some v \<and> s' = s"
  by (auto simp: ok_or_def split: option.splits)

lemma ok_or_Inl_iff [exec_simps]: "ok_or x e s = (Inl e', s') \<longleftrightarrow> x = None \<and> e' = e \<and> s' = s"
  by (auto simp: ok_or_def split: option.splits)

lemma attempt_Inr_iff [exec_simps]: "attempt m s = (Inr r, s') \<longleftrightarrow> m s = (r, s')"
  by (auto simp: attempt_def split: prod.splits)

lemma attempt_Inl_iff [exec_simps]: "attempt m s = (Inl e, s') \<longleftrightarrow> False"
  by (auto simp: attempt_def split: prod.splits)

lemma ret_Inr_iff [exec_simps]: "ret x s = (Inr y, s') \<longleftrightarrow> y = x \<and> s' = s"
  by auto

lemma whenE_Inr_iff [exec_simps]:
  "whenE b m s = (Inr u, s') \<longleftrightarrow> (if b then m s = (Inr u, s') else s' = s)"
  by (auto simp: whenE_def)

lemma isl_iff: "isl (fst p) \<longleftrightarrow> (\<forall>x w. p \<noteq> (Inr x, w))"
  by (cases p; cases "fst p") auto

lemma case_sum_run:
  "(case v of Inl a \<Rightarrow> f a | Inr b \<Rightarrow> g b) s = y \<longleftrightarrow>
     (\<exists>a. v = Inl a \<and> f a s = y) \<or> (\<exists>b. v = Inr b \<and> g b s = y)"
  by (cases v) auto

lemma case_option_run:
  "(case v of None \<Rightarrow> m | Some a \<Rightarrow> f a) s = y \<longleftrightarrow> (v = None \<and> m s = y) \<or> (\<exists>a. v = Some a \<and> f a s = y)"
  by (cases v) auto

lemma for_each_append:
  "for_each m (xs @ ys) = seqE (for_each m xs) (for_each m ys)"
proof (induction xs)
  case Nil
  show ?case by (rule ext) (simp add: seqE_def)
next
  case (Cons x xs)
  show ?case
    by (rule ext) (simp add: Cons.IH seqE_def bindE_def split: prod.splits sum.splits)
qed

lemma collect_each_length:
  "collect_each m xs s = (Inr ys, s') \<Longrightarrow> length ys = length xs"
  by (induction xs arbitrary: s ys) (auto simp: exec_simps)

section \<open>Relations respected by every run\<close>

text \<open>
  \<open>steps R m\<close>: whatever \<open>m\<close> returns, its final state is related to its initial state by \<open>R\<close>.
  With \<open>R s s' = (I s \<longrightarrow> I s')\<close> it says that \<open>m\<close> keeps the invariant \<open>I\<close>; with
  \<open>R s s' = (f s' = f s)\<close> that \<open>m\<close> does not touch the component \<open>f\<close>.
\<close>

definition steps :: "('s \<Rightarrow> 's \<Rightarrow> bool) \<Rightarrow> ('s, 'e, 'a) exec \<Rightarrow> bool" where
  "steps R m \<longleftrightarrow> (\<forall>s. R s (snd (m s)))"

definition keeping :: "('s \<Rightarrow> bool) \<Rightarrow> 's \<Rightarrow> 's \<Rightarrow> bool" where
  "keeping I s s' \<longleftrightarrow> (I s \<longrightarrow> I s')"

definition fixing :: "('s \<Rightarrow> 'b) \<Rightarrow> 's \<Rightarrow> 's \<Rightarrow> bool" where
  "fixing f s s' \<longleftrightarrow> f s' = f s"

lemma stepsI: "(\<And>s. R s (snd (m s))) \<Longrightarrow> steps R m"
  by (simp add: steps_def)

lemma stepsD: "steps R m \<Longrightarrow> m s = (r, s') \<Longrightarrow> R s s'"
  unfolding steps_def by (metis snd_conv)

text \<open>The calculus holds for every preorder on states.\<close>

locale run_relation =
  fixes R :: "'s \<Rightarrow> 's \<Rightarrow> bool"
  assumes rel_refl: "R s s"
    and rel_trans: "R s t \<Longrightarrow> R t u \<Longrightarrow> R s u"
begin

lemma steps_ret: "steps R (ret x)"
  by (rule stepsI) (simp add: rel_refl)

lemma steps_throw: "steps R (throw e)"
  by (rule stepsI) (simp add: rel_refl)

lemma steps_of_result: "steps R (of_result r)"
  by (rule stepsI) (simp add: rel_refl)

lemma steps_gets: "steps R (gets f)"
  by (rule stepsI) (simp add: rel_refl)

lemma steps_bindE: "steps R m \<Longrightarrow> (\<And>x. steps R (f x)) \<Longrightarrow> steps R (bindE m f)"
  unfolding steps_def bindE_def
  by (auto split: prod.splits sum.splits) (metis rel_trans snd_conv)+

lemma steps_seqE: "steps R m \<Longrightarrow> steps R n \<Longrightarrow> steps R (seqE m n)"
  unfolding seqE_def by (rule steps_bindE)

lemma steps_map_err: "steps R m \<Longrightarrow> steps R (map_err f m)"
  unfolding steps_def map_err_def by (auto split: prod.splits sum.splits) (metis snd_conv)+

lemma steps_mapE: "steps R m \<Longrightarrow> steps R (mapE f m)"
  unfolding steps_def mapE_def by (auto split: prod.splits sum.splits) (metis snd_conv)+

lemma steps_attempt: "steps R m \<Longrightarrow> steps R (attempt m)"
  unfolding steps_def by (simp add: run_attempt)

lemma steps_ignore_err: "steps R m \<Longrightarrow> steps R (ignore_err m)"
  unfolding steps_def by simp

lemma steps_ensure: "steps R (ensure b e)"
  unfolding ensure_def by (simp add: steps_ret steps_throw)

lemma steps_ok_or: "steps R (ok_or x e)"
  unfolding ok_or_def by (simp add: steps_ret steps_throw split: option.split)

lemma steps_whenE: "(b \<Longrightarrow> steps R m) \<Longrightarrow> steps R (whenE b m)"
  unfolding whenE_def by (simp add: steps_ret)

lemma steps_if: "(b \<Longrightarrow> steps R m) \<Longrightarrow> (\<not> b \<Longrightarrow> steps R n) \<Longrightarrow> steps R (if b then m else n)"
  by simp

lemma steps_option:
  "steps R m \<Longrightarrow> (\<And>x. steps R (f x)) \<Longrightarrow> steps R (case v of None \<Rightarrow> m | Some x \<Rightarrow> f x)"
  by (simp split: option.split)

lemma steps_sum:
  "(\<And>x. steps R (f x)) \<Longrightarrow> (\<And>x. steps R (g x)) \<Longrightarrow>
     steps R (case v of Inl x \<Rightarrow> f x | Inr x \<Rightarrow> g x)"
  by (simp split: sum.split)

lemma steps_prod: "(\<And>x y. steps R (f x y)) \<Longrightarrow> steps R (case v of (x, y) \<Rightarrow> f x y)"
  by (simp split: prod.split)

lemma steps_for_each: "(\<And>x. steps R (m x)) \<Longrightarrow> steps R (for_each m xs)"
  by (induction xs) (auto intro: steps_ret steps_seqE)

lemma steps_collect_each: "(\<And>x. steps R (m x)) \<Longrightarrow> steps R (collect_each m xs)"
  by (induction xs) (auto intro!: steps_ret steps_bindE)

lemmas steps_combinators =
  steps_ret steps_throw steps_of_result steps_gets steps_bindE steps_seqE steps_map_err
  steps_mapE steps_attempt steps_ignore_err steps_ensure steps_ok_or steps_whenE steps_if
  steps_option steps_sum steps_prod steps_for_each steps_collect_each

end

text \<open>Invariants and untouched components are preorders, so the calculus applies to them.\<close>

interpretation keep: run_relation "keeping I" for I
  by unfold_locales (auto simp: keeping_def)

interpretation fixed: run_relation "fixing f" for f
  by unfold_locales (auto simp: fixing_def)

declare keep.steps_combinators [steps_intros]
declare fixed.steps_combinators [steps_intros]

lemma keeps_run: "steps (keeping I) m \<Longrightarrow> m s = (r, s') \<Longrightarrow> I s \<Longrightarrow> I s'"
  by (auto dest: stepsD simp: keeping_def)

lemma fixes_run: "steps (fixing f) m \<Longrightarrow> m s = (r, s') \<Longrightarrow> f s' = f s"
  by (auto dest: stepsD simp: fixing_def)

section \<open>Options\<close>

text \<open>\<^verbatim>\<open>Option::is_some_and\<close>, also a comparison with a nullable column, which holds for no null.\<close>

definition is_some_and :: "('a \<Rightarrow> bool) \<Rightarrow> 'a option \<Rightarrow> bool" where
  "is_some_and P x = (case x of None \<Rightarrow> False | Some v \<Rightarrow> P v)"

lemma is_some_and_iff [simp]: "is_some_and P x \<longleftrightarrow> (\<exists>v. x = Some v \<and> P v)"
  by (auto simp: is_some_and_def split: option.split)

section \<open>Tables as lists of rows\<close>

text \<open>\<^verbatim>\<open>UPDATE ... SET g WHERE P\<close>, \<^verbatim>\<open>DELETE ... WHERE P\<close> and the affected-row count.\<close>

definition update_where :: "('r \<Rightarrow> bool) \<Rightarrow> ('r \<Rightarrow> 'r) \<Rightarrow> 'r list \<Rightarrow> 'r list" where
  "update_where P g rows = map (\<lambda>r. if P r then g r else r) rows"

definition delete_where :: "('r \<Rightarrow> bool) \<Rightarrow> 'r list \<Rightarrow> 'r list" where
  "delete_where P rows = filter (\<lambda>r. \<not> P r) rows"

definition rows_affected :: "('r \<Rightarrow> bool) \<Rightarrow> 'r list \<Rightarrow> nat" where
  "rows_affected P rows = length (filter P rows)"

text \<open>\<^verbatim>\<open>fetch_optional\<close>: the first row of the result.\<close>

definition fetch_optional :: "'r list \<Rightarrow> 'r option" where
  "fetch_optional rows = (case rows of [] \<Rightarrow> None | r # _ \<Rightarrow> Some r)"

text \<open>A partial unique index: the non-null keys are pairwise distinct.\<close>

definition unique_some :: "'k option list \<Rightarrow> bool" where
  "unique_some ks \<longleftrightarrow> distinct (List.map_filter (\<lambda>k. k) ks)"

lemma map_update_where [simp]:
  "(\<And>r. P r \<Longrightarrow> f (g r) = f r) \<Longrightarrow> map f (update_where P g rows) = map f rows"
  by (simp add: update_where_def)

lemma length_update_where [simp]: "length (update_where P g rows) = length rows"
  by (simp add: update_where_def)

lemma set_update_where:
  "set (update_where P g rows) = (\<lambda>r. if P r then g r else r) ` set rows"
  by (simp add: update_where_def)

lemma in_update_where: "x \<in> set rows \<Longrightarrow> P x \<Longrightarrow> g x \<in> set (update_where P g rows)"
  by (auto simp: set_update_where)
lemma in_update_whereE:
  assumes "r \<in> set (update_where P g rows)"
  obtains r0 where "r0 \<in> set rows" "P r0" "r = g r0" | "r \<in> set rows" "\<not> P r"
  using assms by (auto simp: set_update_where split: if_splits)

lemma update_where_kept:
  assumes "x \<in> set rows" "\<And>r. P r \<Longrightarrow> f (g r) = f r"
  shows "\<exists>y \<in> set (update_where P g rows). f y = f x"
  using assms by (intro bexI [of _ "if P x then g x else x"]) (simp_all add: set_update_where)

lemma set_delete_where [simp]: "set (delete_where P rows) = {r \<in> set rows. \<not> P r}"
  by (simp add: delete_where_def)

lemma distinct_map_delete_where [simp]:
  "distinct (map f rows) \<Longrightarrow> distinct (map f (delete_where P rows))"
  by (simp add: delete_where_def distinct_map_filter)

lemma find_Some_iff2: "find P xs = Some x \<Longrightarrow> x \<in> set xs \<and> P x"
  by (metis find_Some_iff nth_mem)

lemma find_None_iff2: "find P xs = None \<longleftrightarrow> (\<forall>x \<in> set xs. \<not> P x)"
  by (auto simp: find_None_iff)

lemma find_unique:
  assumes "distinct (map k xs)" "x \<in> set xs" "P x" "\<And>y. P y \<Longrightarrow> k y = k x"
  shows "find P xs = Some x"
proof (cases "find P xs")
  case None
  with assms show ?thesis by (auto simp: find_None_iff)
next
  case (Some y)
  then have "y \<in> set xs" "P y" by (auto dest: find_Some_iff2)
  with assms have "y = x" by (auto simp: distinct_map dest: inj_onD)
  with Some show ?thesis by simp
qed

lemma filter_unique_key:
  "distinct (map k xs) \<Longrightarrow>
     filter (\<lambda>x. k x = a \<and> Q x) xs =
       (case find (\<lambda>x. k x = a) xs of None \<Rightarrow> [] | Some x \<Rightarrow> if Q x then [x] else [])"
proof (induction xs)
  case (Cons x xs)
  show ?case
  proof (cases "k x = a")
    case True
    then have "filter (\<lambda>y. k y = a \<and> Q y) xs = []"
      using Cons.prems by (auto simp: filter_empty_conv) (metis imageI)
    with True show ?thesis by simp
  next
    case False
    with Cons show ?thesis by simp
  qed
qed simp

lemma filter_unique_key0:
  "distinct (map k xs) \<Longrightarrow>
     filter (\<lambda>x. k x = a) xs = (case find (\<lambda>x. k x = a) xs of None \<Rightarrow> [] | Some x \<Rightarrow> [x])"
  using filter_unique_key [where Q = "\<lambda>_. True" and k = k and xs = xs and a = a]
  by (simp split: option.splits)

lemma fetch_optional_simps [simp]:
  "fetch_optional [] = None" "fetch_optional (x # xs) = Some x"
  by (simp_all add: fetch_optional_def)

lemma fetch_optional_in: "fetch_optional xs = Some x \<Longrightarrow> x \<in> set xs"
  by (cases xs) auto

lemma fetch_optional_None_iff: "fetch_optional xs = None \<longleftrightarrow> xs = []"
  by (cases xs) auto

lemma fetch_optional_map [simp]: "fetch_optional (map f xs) = map_option f (fetch_optional xs)"
  by (cases xs) auto

lemma fetch_optional_filter: "fetch_optional (filter P xs) = find P xs"
  by (induction xs) auto

lemma find_key_Some:
  "find (\<lambda>x. k x = a) xs = Some x \<Longrightarrow> x \<in> set xs \<and> k x = a"
  by (rule find_Some_iff2)

lemma find_key_update_where:
  assumes "\<And>x. P x \<Longrightarrow> k (g x) = k x"
  shows "find (\<lambda>x. k x = a) (update_where P g xs) =
     map_option (\<lambda>x. if P x then g x else x) (find (\<lambda>x. k x = a) xs)"
  using assms by (induction xs) (auto simp: update_where_def)

lemma find_key_delete_where:
  "distinct (map k xs) \<Longrightarrow> find (\<lambda>x. k x = a) (delete_where P xs) =
     (case find (\<lambda>x. k x = a) xs of None \<Rightarrow> None | Some x \<Rightarrow> if P x then None else Some x)"
proof (induction xs)
  case (Cons x xs)
  show ?case
  proof (cases "k x = a")
    case True
    with Cons.prems have "find (\<lambda>y. k y = a) (delete_where P xs) = None"
      by (auto simp: find_None_iff2) (metis imageI)
    with True show ?thesis by (simp add: delete_where_def)
  next
    case False
    with Cons show ?thesis by (simp add: delete_where_def)
  qed
qed (simp add: delete_where_def)

lemma find_append: "find P (xs @ ys) = (case find P xs of None \<Rightarrow> find P ys | Some x \<Rightarrow> Some x)"
  by (induction xs) auto

lemma rows_affected_pos: "0 < rows_affected P rows \<longleftrightarrow> (\<exists>r \<in> set rows. P r)"
  by (auto simp: rows_affected_def filter_empty_conv)

lemma rows_affected_zero: "rows_affected P rows = 0 \<longleftrightarrow> (\<forall>r \<in> set rows. \<not> P r)"
  by (auto simp: rows_affected_def filter_empty_conv)

lemma rows_affected_unique:
  assumes "distinct (map k rows)" "\<And>x y. P x \<Longrightarrow> P y \<Longrightarrow> k x = k y"
  shows "rows_affected P rows \<le> 1"
proof -
  have d: "distinct (map k (filter P rows))" using assms(1) by (rule distinct_map_filter)
  have e: "\<forall>x \<in> set (filter P rows). \<forall>y \<in> set (filter P rows). k x = k y"
    using assms(2) by auto
  show ?thesis
  proof (cases "filter P rows")
    case Nil
    then show ?thesis by (simp add: rows_affected_def)
  next
    case (Cons a as)
    show ?thesis
    proof (cases as)
      case Nil
      with Cons show ?thesis by (simp add: rows_affected_def)
    next
      case (Cons b bs)
      with \<open>filter P rows = a # as\<close> d e show ?thesis by auto
    qed
  qed
qed

lemma update_where_none: "(\<And>r. r \<in> set rows \<Longrightarrow> \<not> P r) \<Longrightarrow> update_where P g rows = rows"
  by (simp add: update_where_def map_idI)

lemma unique_some_Nil [simp]: "unique_some []"
  by (simp add: unique_some_def List.map_filter_def)

lemma unique_some_Cons_None [simp]: "unique_some (None # ks) = unique_some ks"
  by (simp add: unique_some_def List.map_filter_def)

lemma unique_some_Cons_Some [simp]:
  "unique_some (Some k # ks) \<longleftrightarrow> Some k \<notin> set ks \<and> unique_some ks"
  by (force simp: unique_some_def List.map_filter_def)

lemma unique_some_snoc_None [simp]: "unique_some (ks @ [None]) = unique_some ks"
  by (simp add: unique_some_def List.map_filter_def)

lemma unique_some_D:
  assumes "unique_some (map f rows)" "distinct rows" "x \<in> set rows" "y \<in> set rows"
    "f x = Some k" "f y = Some k"
  shows "x = y"
  using assms
proof (induction rows)
  case Nil
  then show ?case by simp
next
  case (Cons r rows)
  then show ?case
    by (cases "f r") (auto, (metis image_eqI)+)
qed

end
