(* ===== verification/Rust_Std.thy ===== *)
theory Rust_Std
  imports Prelude "HOL-Library.Word" "HOL-Library.Sublist" "HOL-Library.List_Lexorder"
    "HOL-Library.Char_ord"
begin

text \<open>
  The parts of Rust's standard library the modelled code uses. A \<^verbatim>\<open>String\<close> is the list of the
  bytes of its UTF-8 encoding (\<^typ>\<open>string\<close> is a list of 8-bit characters), so \<^const>\<open>length\<close> is
  Rust's \<^verbatim>\<open>len()\<close>. Instants (\<^verbatim>\<open>DateTime<Utc>\<close>) and durations are integers counting
  nanoseconds.
\<close>

section \<open>Strings\<close>

text \<open>\<^verbatim>\<open>eq_ignore_ascii_case\<close> and \<^verbatim>\<open>to_ascii_lowercase\<close> change the letters A to Z only.\<close>

definition ascii_lower :: "char \<Rightarrow> char" where
  "ascii_lower c =
     (if 65 \<le> (of_char c :: nat) \<and> (of_char c :: nat) \<le> 90 then char_of ((of_char c :: nat) + 32) else c)"

definition to_ascii_lowercase :: "string \<Rightarrow> string" where
  "to_ascii_lowercase s = map ascii_lower s"

definition eq_ignore_ascii_case :: "string \<Rightarrow> string \<Rightarrow> bool" where
  "eq_ignore_ascii_case a b \<longleftrightarrow> to_ascii_lowercase a = to_ascii_lowercase b"

text \<open>
  The UTF-8 encodings of the code points with the Unicode property \<^verbatim>\<open>White_Space\<close>, which
  \<^verbatim>\<open>str::trim\<close> removes: U+0009 to U+000D, U+0020, U+0085, U+00A0, U+1680, U+2000 to U+200A,
  U+2028, U+2029, U+202F, U+205F and U+3000.
\<close>

definition bytes :: "nat list \<Rightarrow> string" where
  "bytes ns = map char_of ns"

definition whitespace_encodings :: "string list" where
  "whitespace_encodings =
     map (\<lambda>n. bytes [n]) [9, 10, 11, 12, 13, 32] @
     [bytes [194, 133], bytes [194, 160], bytes [225, 154, 128]] @
     map (\<lambda>n. bytes [226, 128, n]) [128, 129, 130, 131, 132, 133, 134, 135, 136, 137, 138] @
     [bytes [226, 128, 168], bytes [226, 128, 169], bytes [226, 128, 175],
      bytes [226, 129, 159], bytes [227, 128, 128]]"

fun trim_start_fuel :: "nat \<Rightarrow> string \<Rightarrow> string" where
  "trim_start_fuel 0 s = s"
| "trim_start_fuel (Suc n) s =
     (case find (\<lambda>w. prefix w s) whitespace_encodings of
        None \<Rightarrow> s
      | Some w \<Rightarrow> trim_start_fuel n (drop (length w) s))"

fun trim_end_fuel :: "nat \<Rightarrow> string \<Rightarrow> string" where
  "trim_end_fuel 0 s = s"
| "trim_end_fuel (Suc n) s =
     (case find (\<lambda>w. suffix w s) whitespace_encodings of
        None \<Rightarrow> s
      | Some w \<Rightarrow> trim_end_fuel n (take (length s - length w) s))"

text \<open>
  Every encoding has at least one byte, so a string of \<open>n\<close> bytes loses at most \<open>n\<close> of them:
  \<open>length s\<close> is enough fuel (\<open>trim_start_no_space\<close> below).
\<close>

definition trim_start :: "string \<Rightarrow> string" where
  "trim_start s = trim_start_fuel (length s) s"

definition trim_end :: "string \<Rightarrow> string" where
  "trim_end s = trim_end_fuel (length s) s"

definition trim :: "string \<Rightarrow> string" where
  "trim s = trim_end (trim_start s)"

text \<open>\<^verbatim>\<open>str::chars\<close>: a byte and the continuation bytes (128 to 191) after it form one scalar value.\<close>

definition is_continuation :: "char \<Rightarrow> bool" where
  "is_continuation c \<longleftrightarrow> 128 \<le> (of_char c :: nat) \<and> (of_char c :: nat) < 192"

function utf8_chars :: "string \<Rightarrow> string list" where
  "utf8_chars [] = []"
| "utf8_chars (c # cs) =
     (c # takeWhile is_continuation cs) # utf8_chars (dropWhile is_continuation cs)"
  by pat_completeness auto
termination
  by (relation "measure length") (auto simp: le_imp_less_Suc length_dropWhile_le)

text \<open>\<^verbatim>\<open>str::split_once\<close> on a one-byte pattern, and \<^verbatim>\<open>[String]::join\<close>.\<close>

definition split_once :: "char \<Rightarrow> string \<Rightarrow> (string \<times> string) option" where
  "split_once c s =
     (if c \<in> set s then Some (takeWhile (\<lambda>x. x \<noteq> c) s, tl (dropWhile (\<lambda>x. x \<noteq> c) s)) else None)"

fun join :: "string \<Rightarrow> string list \<Rightarrow> string" where
  "join sep [] = []"
| "join sep [x] = x"
| "join sep (x # y # ys) = x @ sep @ join sep (y # ys)"

section \<open>Time\<close>

type_synonym instant = int
type_synonym duration = int

definition seconds :: "int \<Rightarrow> duration" where
  "seconds n = n * 1000000000"

definition minutes :: "int \<Rightarrow> duration" where
  "minutes n = seconds (60 * n)"

definition hours :: "int \<Rightarrow> duration" where
  "hours n = minutes (60 * n)"

text \<open>\<^verbatim>\<open>Duration::num_seconds\<close> truncates towards zero, \<^verbatim>\<open>DateTime::timestamp\<close> and
  \<^verbatim>\<open>timestamp_micros\<close> round down.\<close>

definition num_seconds :: "duration \<Rightarrow> int" where
  "num_seconds d = sgn d * (\<bar>d\<bar> div 1000000000)"

definition timestamp :: "instant \<Rightarrow> int" where
  "timestamp t = t div 1000000000"

definition timestamp_micros :: "instant \<Rightarrow> int" where
  "timestamp_micros t = t div 1000"

text \<open>Rust's integer division truncates towards zero.\<close>

definition rust_div :: "int \<Rightarrow> int \<Rightarrow> int" where
  "rust_div a b = sgn a * sgn b * (\<bar>a\<bar> div \<bar>b\<bar>)"

text \<open>Decimal rendering of integers, as \<^verbatim>\<open>format!\<close> does it.\<close>

fun nat_digits :: "nat \<Rightarrow> string" where
  "nat_digits n =
     (if n < 10 then [char_of (48 + n)] else nat_digits (n div 10) @ [char_of (48 + n mod 10)])"

definition int_to_string :: "int \<Rightarrow> string" where
  "int_to_string i = (if i < 0 then ''-'' @ nat_digits (nat (- i)) else nat_digits (nat i))"

declare nat_digits.simps [simp del]

section \<open>Evaluation on bytes\<close>

lemma ascii_lower_code [code]:
  "ascii_lower (Char b0 b1 b2 b3 b4 b5 b6 b7) =
     (if b6 \<and> \<not> b5 \<and> \<not> b7 \<and> (b0 \<or> b1 \<or> b2 \<or> b3 \<or> b4) \<and> \<not> (b4 \<and> b3 \<and> (b2 \<or> (b1 \<and> b0)))
      then Char b0 b1 b2 b3 b4 True b6 b7 else Char b0 b1 b2 b3 b4 b5 b6 b7)"
  by (cases b0; cases b1; cases b2; cases b3; cases b4; cases b5; cases b6; cases b7)
    (simp_all add: ascii_lower_def char_of_def bit_iff_odd)

lemma whitespace_encodings_code [code]:
  "whitespace_encodings =
     [[CHR 0x09], [CHR 0x0A], [CHR 0x0B], [CHR 0x0C], [CHR 0x0D], [CHR 0x20],
      [CHR 0xC2, CHR 0x85], [CHR 0xC2, CHR 0xA0], [CHR 0xE1, CHR 0x9A, CHR 0x80],
      [CHR 0xE2, CHR 0x80, CHR 0x80], [CHR 0xE2, CHR 0x80, CHR 0x81], [CHR 0xE2, CHR 0x80, CHR 0x82],
      [CHR 0xE2, CHR 0x80, CHR 0x83], [CHR 0xE2, CHR 0x80, CHR 0x84], [CHR 0xE2, CHR 0x80, CHR 0x85],
      [CHR 0xE2, CHR 0x80, CHR 0x86], [CHR 0xE2, CHR 0x80, CHR 0x87], [CHR 0xE2, CHR 0x80, CHR 0x88],
      [CHR 0xE2, CHR 0x80, CHR 0x89], [CHR 0xE2, CHR 0x80, CHR 0x8A], [CHR 0xE2, CHR 0x80, CHR 0xA8],
      [CHR 0xE2, CHR 0x80, CHR 0xA9], [CHR 0xE2, CHR 0x80, CHR 0xAF], [CHR 0xE2, CHR 0x81, CHR 0x9F],
      [CHR 0xE3, CHR 0x80, CHR 0x80]]"
  by (simp add: whitespace_encodings_def bytes_def char_of_def bit_iff_odd)
lemma is_continuation_code [code]:
  "is_continuation (Char b0 b1 b2 b3 b4 b5 b6 b7) \<longleftrightarrow> b7 \<and> \<not> b6"
  by (cases b0; cases b1; cases b2; cases b3; cases b4; cases b5; cases b6; cases b7)
    (simp_all add: is_continuation_def)

section \<open>Properties\<close>

lemma eq_ignore_ascii_case_refl [simp]: "eq_ignore_ascii_case a a"
  by (simp add: eq_ignore_ascii_case_def)

lemma eq_ignore_ascii_case_sym: "eq_ignore_ascii_case a b \<longleftrightarrow> eq_ignore_ascii_case b a"
  by (auto simp: eq_ignore_ascii_case_def)

lemma eq_ignore_ascii_case_length: "eq_ignore_ascii_case a b \<Longrightarrow> length a = length b"
  unfolding eq_ignore_ascii_case_def to_ascii_lowercase_def by (metis length_map)

lemma whitespace_nonempty: "w \<in> set whitespace_encodings \<Longrightarrow> w \<noteq> []"
  by (auto simp: whitespace_encodings_def bytes_def)

lemma trim_start_fuel_no_space:
  "length s \<le> n \<Longrightarrow> find (\<lambda>w. prefix w (trim_start_fuel n s)) whitespace_encodings = None"
proof (induction n arbitrary: s)
  case 0
  then show ?case by (auto simp: find_None_iff2 dest: whitespace_nonempty)
next
  case (Suc n)
  show ?case
  proof (cases "find (\<lambda>w. prefix w s) whitespace_encodings")
    case None
    then show ?thesis by simp
  next
    case (Some w)
    then have "w \<noteq> []" "prefix w s" by (auto dest: find_Some_iff2 whitespace_nonempty)
    then have "length (drop (length w) s) \<le> n"
      using Suc.prems by (cases w) auto
    with Some Suc.IH show ?thesis by simp
  qed
qed

lemma trim_start_no_space: "find (\<lambda>w. prefix w (trim_start s)) whitespace_encodings = None"
  by (simp add: trim_start_def trim_start_fuel_no_space)

lemma trim_start_fuel_length: "length (trim_start_fuel n s) \<le> length s"
proof (induction n arbitrary: s)
  case (Suc n)
  show ?case
    by (auto split: option.split intro: le_trans [OF Suc.IH])
qed simp

lemma trim_end_fuel_length: "length (trim_end_fuel n s) \<le> length s"
proof (induction n arbitrary: s)
  case (Suc n)
  show ?case
    by (auto split: option.split intro: le_trans [OF Suc.IH])
qed simp

lemma trim_length: "length (trim s) \<le> length s"
  unfolding trim_def trim_end_def trim_start_def
  using trim_end_fuel_length trim_start_fuel_length le_trans by blast

lemma trim_Nil [simp]: "trim [] = []"
  by (simp add: trim_def trim_end_def trim_start_def)

text \<open>A string that begins and ends with visible ASCII bytes is its own trim.\<close>

definition visible :: "char \<Rightarrow> bool" where
  "visible c \<longleftrightarrow> 32 < (of_char c :: nat) \<and> (of_char c :: nat) < 127"

lemma whitespace_ends:
  "w \<in> set whitespace_encodings \<Longrightarrow> \<not> visible (hd w) \<and> \<not> visible (last w)"
  by (auto simp: whitespace_encodings_def bytes_def visible_def)

lemma trim_visible:
  assumes "s \<noteq> []" "visible (hd s)" "visible (last s)"
  shows "trim s = s"
proof -
  have "find (\<lambda>w. prefix w s) whitespace_encodings = None"
    using assms whitespace_nonempty whitespace_ends
    by (auto simp: find_None_iff2 prefix_def) 
  moreover have "find (\<lambda>w. suffix w s) whitespace_encodings = None"
    using assms whitespace_nonempty whitespace_ends
    by (auto simp: find_None_iff2 suffix_def)
  ultimately have "trim_start_fuel n s = s" "trim_end_fuel n s = s" for n
    by (cases n; simp)+
  then show ?thesis by (simp add: trim_def trim_start_def trim_end_def)
qed

lemma concat_utf8_chars: "concat (utf8_chars s) = s"
  by (induction s rule: utf8_chars.induct) auto

lemma split_at_first:
  "c \<in> set s \<Longrightarrow> s = takeWhile (\<lambda>x. x \<noteq> c) s @ c # tl (dropWhile (\<lambda>x. x \<noteq> c) s)"
  by (induction s) auto

lemma split_once_joins:
  assumes "split_once c s = Some (a, b)"
  shows "s = a @ c # b \<and> c \<notin> set a"
proof -
  from assms have "c \<in> set s" "a = takeWhile (\<lambda>x. x \<noteq> c) s" "b = tl (dropWhile (\<lambda>x. x \<noteq> c) s)"
    by (simp_all add: split_once_def split: if_splits)
  with split_at_first [of c s] show ?thesis by (auto dest: set_takeWhileD)
qed

lemma seconds_mono [simp]: "seconds a \<le> seconds b \<longleftrightarrow> a \<le> b"
  by (simp add: seconds_def)

lemma num_seconds_seconds [simp]: "num_seconds (seconds n) = n"
  by (simp add: num_seconds_def seconds_def abs_mult sgn_mult mult_sgn_abs)

lemma rust_div_nonneg: "0 \<le> a \<Longrightarrow> 0 < b \<Longrightarrow> rust_div a b = a div b"
  by (cases "a = 0") (auto simp: rust_div_def)

end
