(* ===== verification/Identity_Domain.thy ===== *)
theory Identity_Domain
  imports Rust_Std
begin

text \<open>
  The data of the Identity module and its pure functions: the entities of
  \<^verbatim>\<open>modules/identity/domain\<close>, the errors of \<^verbatim>\<open>domain_shared\<close> and \<^verbatim>\<open>application/shared\<close>, the
  permission registry and the messages of \<^verbatim>\<open>application_contracts\<close>, the input validation of
  \<^verbatim>\<open>application/identity/validation.rs\<close> and the transactional mails. A UUID is its textual form.
\<close>

type_synonym uuid = string

section \<open>Entities\<close>

record user =
  u_id :: int
  u_pid :: uuid
  u_username :: string
  u_password_hash :: string
  u_created_at :: instant
  u_reset_token :: "string option"
  u_reset_sent_at :: "instant option"
  u_email_verification_token :: "string option"
  u_email_verification_sent_at :: "instant option"
  u_email_verified_at :: "instant option"
  u_magic_link_token :: "string option"
  u_magic_link_expires_at :: "instant option"

record session =
  s_pid :: uuid
  s_token :: string
  s_username :: string
  s_created_at :: instant
  s_expires_at :: instant
  s_max_expires_at :: instant

record two_factor_credential =
  tf_username :: string
  tf_secret :: string
  tf_enabled_at :: "instant option"
  tf_backup_code_hashes :: "string list"

record role =
  r_name :: string
  r_created_at :: instant

record oauth_connection =
  oc_user_id :: int
  oc_provider :: string
  oc_provider_user_id :: string
  oc_email :: string
  oc_created_at :: instant

datatype oauth_flow = Login | Link

definition flow_as_str :: "oauth_flow \<Rightarrow> string" where
  "flow_as_str f = (case f of Login \<Rightarrow> ''login'' | Link \<Rightarrow> ''link'')"

record oauth_state =
  os_state :: string
  os_provider :: string
  os_csrf_token :: string
  os_flow :: oauth_flow
  os_username :: "string option"
  os_created_at :: instant
  os_expires_at :: instant

record pending_oauth_signup =
  ps_token :: string
  ps_provider :: string
  ps_provider_user_id :: string
  ps_email :: string
  ps_created_at :: instant
  ps_expires_at :: instant

datatype oauth_unlink_result = Unlinked | ConnectionNotFound | LastConnection

section \<open>Errors\<close>

datatype domain_error =
    DomValidation string
  | DomConflict string
  | DomNotFound string
  | DomUnauthorized
  | DomForbidden string

datatype application_error_kind =
    KindValidation
  | KindConflict
  | KindNotFound
  | KindUnauthorized
  | KindForbidden
  | KindInfrastructure
  | KindUnexpected

datatype application_error =
    Validation string
  | Conflict string
  | NotFound string
  | Unauthorized
  | Forbidden string
  | Infrastructure string
  | Unexpected string
  | Coded application_error_kind string string

datatype identity_message =
    UsernameRequired
  | PasswordRequiredForNewUsers
  | PasswordRequired
  | UserNotFound
  | UserAlreadyExists
  | RoleNameRequired
  | RoleNotFound
  | SessionExpired
  | ProtectedAdminCannotBeDeleted
  | ProtectedAdminRoleCannotBeDeleted
  | InvalidCredentials
  | PermissionUsers
  | PermissionUsersCreate
  | PermissionUsersUpdate
  | PermissionUsersDelete
  | PermissionAuthorization

fun default_text :: "identity_message \<Rightarrow> string" where
  "default_text UsernameRequired = ''Username is required''"
| "default_text PasswordRequiredForNewUsers = ''Password is required for new users.''"
| "default_text PasswordRequired = ''Password is required.''"
| "default_text UserNotFound = ''User not found''"
| "default_text UserAlreadyExists = ''User already exists''"
| "default_text RoleNameRequired = ''Role name is required''"
| "default_text RoleNotFound = ''Role not found''"
| "default_text SessionExpired = ''Session expired. Please log in again.''"
| "default_text ProtectedAdminCannotBeDeleted = ''Admin user cannot be deleted''"
| "default_text ProtectedAdminRoleCannotBeDeleted = ''Admin role cannot be deleted.''"
| "default_text InvalidCredentials = ''Invalid username or password.''"
| "default_text PermissionUsers = ''View identity users''"
| "default_text PermissionUsersCreate = ''Create identity users''"
| "default_text PermissionUsersUpdate = ''Update identity users''"
| "default_text PermissionUsersDelete = ''Delete identity users''"
| "default_text PermissionAuthorization = ''Manage identity roles and permissions''"

fun localized_error_code :: "identity_message \<Rightarrow> string \<Rightarrow> string" where
  "localized_error_code UsernameRequired _ = ''identity:username_required''"
| "localized_error_code PasswordRequired _ = ''identity:password_required''"
| "localized_error_code PasswordRequiredForNewUsers _ = ''identity:password_required''"
| "localized_error_code UserNotFound _ = ''identity:user_not_found''"
| "localized_error_code UserAlreadyExists _ = ''identity:user_already_exists''"
| "localized_error_code RoleNameRequired _ = ''identity:role_name_required''"
| "localized_error_code RoleNotFound _ = ''identity:role_not_found''"
| "localized_error_code ProtectedAdminCannotBeDeleted _ =
     ''identity:protected_admin_cannot_be_deleted''"
| "localized_error_code ProtectedAdminRoleCannotBeDeleted _ =
     ''identity:protected_admin_role_cannot_be_deleted''"
| "localized_error_code SessionExpired _ = ''auth:session_expired''"
| "localized_error_code InvalidCredentials _ = ''auth:invalid_credentials''"
| "localized_error_code _ fallback = fallback"

definition localized_validation :: "identity_message \<Rightarrow> application_error" where
  "localized_validation k =
     Coded KindValidation (localized_error_code k ''general:validation_error'') (default_text k)"

definition localized_conflict :: "identity_message \<Rightarrow> application_error" where
  "localized_conflict k =
     Coded KindConflict (localized_error_code k ''general:conflict'') (default_text k)"

definition localized_not_found :: "identity_message \<Rightarrow> application_error" where
  "localized_not_found k =
     Coded KindNotFound (localized_error_code k ''general:not_found'') (default_text k)"

definition localized_forbidden :: "identity_message \<Rightarrow> application_error" where
  "localized_forbidden k =
     Coded KindForbidden (localized_error_code k ''general:forbidden'') (default_text k)"

fun error_code :: "application_error \<Rightarrow> string" where
  "error_code (Validation _) = ''general:validation_error''"
| "error_code (Conflict _) = ''general:conflict''"
| "error_code (NotFound _) = ''general:not_found''"
| "error_code Unauthorized = ''auth:unauthorized''"
| "error_code (Forbidden _) = ''general:forbidden''"
| "error_code (Infrastructure _) = ''system:infrastructure_error''"
| "error_code (Unexpected _) = ''system:unexpected_error''"
| "error_code (Coded _ c _) = c"

fun error_kind :: "application_error \<Rightarrow> application_error_kind" where
  "error_kind (Validation _) = KindValidation"
| "error_kind (Conflict _) = KindConflict"
| "error_kind (NotFound _) = KindNotFound"
| "error_kind Unauthorized = KindUnauthorized"
| "error_kind (Forbidden _) = KindForbidden"
| "error_kind (Infrastructure _) = KindInfrastructure"
| "error_kind (Unexpected _) = KindUnexpected"
| "error_kind (Coded k _ _) = k"

fun error_message :: "application_error \<Rightarrow> string" where
  "error_message (Validation m) = m"
| "error_message (Conflict m) = m"
| "error_message (NotFound m) = m"
| "error_message Unauthorized = ''unauthorized''"
| "error_message (Forbidden m) = m"
| "error_message (Infrastructure m) = m"
| "error_message (Unexpected m) = m"
| "error_message (Coded _ _ m) = m"

text \<open>\<^verbatim>\<open>impl From<DomainError> for ApplicationError\<close>.\<close>

fun from_domain_error :: "domain_error \<Rightarrow> application_error" where
  "from_domain_error (DomValidation m) = Validation m"
| "from_domain_error (DomConflict m) = Conflict m"
| "from_domain_error (DomNotFound m) = NotFound m"
| "from_domain_error DomUnauthorized = Unauthorized"
| "from_domain_error (DomForbidden m) = Forbidden m"

section \<open>Permissions and protected names\<close>

type_synonym permission_name = string

definition USERS :: permission_name where "USERS = ''Identity.Users''"
definition USERS_CREATE :: permission_name where "USERS_CREATE = ''Identity.Users.Create''"
definition USERS_UPDATE :: permission_name where "USERS_UPDATE = ''Identity.Users.Update''"
definition USERS_DELETE :: permission_name where "USERS_DELETE = ''Identity.Users.Delete''"
definition AUTHORIZATION :: permission_name where "AUTHORIZATION = ''Identity.Authorization''"

definition all_permissions :: "(permission_name \<times> identity_message) list" where
  "all_permissions =
     [(USERS, PermissionUsers), (USERS_CREATE, PermissionUsersCreate),
      (USERS_UPDATE, PermissionUsersUpdate), (USERS_DELETE, PermissionUsersDelete),
      (AUTHORIZATION, PermissionAuthorization)]"

definition all_names :: "permission_name list" where
  "all_names = map fst all_permissions"

definition from_name :: "string \<Rightarrow> permission_name option" where
  "from_name name = map_option fst (find (\<lambda>d. fst d = name) all_permissions)"

definition DEFAULT_ADMIN_USERNAME :: string where
  "DEFAULT_ADMIN_USERNAME = ''admin@example.com''"

definition DEFAULT_ADMIN_ROLE_NAME :: string where
  "DEFAULT_ADMIN_ROLE_NAME = ''admin''"

definition is_protected_admin_username :: "string \<Rightarrow> bool" where
  "is_protected_admin_username username =
     (let username = trim username
      in eq_ignore_ascii_case username DEFAULT_ADMIN_USERNAME \<or>
         eq_ignore_ascii_case username ''admin'')"

definition is_protected_admin_role :: "string \<Rightarrow> bool" where
  "is_protected_admin_role role_name =
     eq_ignore_ascii_case (trim role_name) DEFAULT_ADMIN_ROLE_NAME"

section \<open>Validation\<close>

definition MAX_USERNAME_LEN :: nat where "MAX_USERNAME_LEN = 64"
definition MAX_PASSWORD_LEN :: nat where "MAX_PASSWORD_LEN = 128"

definition required_username :: "string \<Rightarrow> application_error + unit" where
  "required_username username =
     (let username = trim username
      in if username = [] then Inl (localized_validation UsernameRequired)
         else if length username > MAX_USERNAME_LEN
              then Inl (Validation ''Username must be at most 64 characters'')
         else Inr ())"

definition optional_username :: "string \<Rightarrow> application_error + bool" where
  "optional_username username =
     (if trim username = [] then Inr False
      else case required_username username of Inl e \<Rightarrow> Inl e | Inr _ \<Rightarrow> Inr True)"

definition required_password :: "string \<Rightarrow> application_error + unit" where
  "required_password password =
     (if password = [] then Inl (localized_validation PasswordRequired)
      else if length password > MAX_PASSWORD_LEN
           then Inl (Validation ''Password must be at most 128 characters'')
      else Inr ())"

definition optional_password :: "string option \<Rightarrow> application_error + string option" where
  "optional_password password =
     (case password of
        None \<Rightarrow> Inr None
      | Some value \<Rightarrow>
          (if value = [] then Inr None
           else case required_password value of Inl e \<Rightarrow> Inl e | Inr _ \<Rightarrow> Inr (Some value)))"

definition required_username_password :: "string \<Rightarrow> string \<Rightarrow> application_error + unit" where
  "required_username_password username password =
     (case required_username username of Inl e \<Rightarrow> Inl e | Inr _ \<Rightarrow> required_password password)"

section \<open>Transactional mail\<close>

datatype transactional_mail =
    VerifyEmail string string string
  | ResetPassword string string string
  | MagicLink string string string
  | ConfirmEmailChange string string string

record mail_message =
  mm_to :: string
  mm_subject :: string
  mm_text_body :: string
  mm_html_body :: "string option"

fun recipient :: "transactional_mail \<Rightarrow> string" where
  "recipient (VerifyEmail to _ _) = to"
| "recipient (ResetPassword to _ _) = to"
| "recipient (MagicLink to _ _) = to"
| "recipient (ConfirmEmailChange to _ _) = to"

definition replace_char :: "char \<Rightarrow> string \<Rightarrow> string \<Rightarrow> string" where
  "replace_char c r s = concat (map (\<lambda>x. if x = c then r else [x]) s)"

definition escape_html :: "string \<Rightarrow> string" where
  "escape_html value =
     replace_char CHR 39 ''&#39;''
       (replace_char CHR 34 ''&quot;''
         (replace_char CHR ''>'' ''&gt;''
           (replace_char CHR ''<'' ''&lt;''
             (replace_char CHR ''&'' ''&amp;'' value))))"

fun mail_parts :: "transactional_mail \<Rightarrow> string \<times> string \<times> string \<times> string \<times> string" where
  "mail_parts (VerifyEmail to app url) =
     (to, ''Verify your '' @ app @ '' account'', ''Verify your account'', ''Verify email'', url)"
| "mail_parts (ResetPassword to app url) =
     (to, ''Reset your '' @ app @ '' password'', ''Reset your password'', ''Reset password'', url)"
| "mail_parts (MagicLink to app url) =
     (to, ''Your '' @ app @ '' magic link'', ''Sign in to your account'', ''Sign in'', url)"
| "mail_parts (ConfirmEmailChange to app url) =
     (to, ''Confirm your new '' @ app @ '' email'', ''Confirm your new email address'',
      ''Confirm email'', url)"

definition render :: "transactional_mail \<Rightarrow> mail_message" where
  "render mail =
     (case mail_parts mail of (to, subject, heading, action, url) \<Rightarrow>
        \<lparr>mm_to = to, mm_subject = subject, mm_text_body = heading @ '': '' @ url,
         mm_html_body =
           Some (''<!doctype html><html><body><h1>'' @ heading @ ''</h1><p><a href='' @ [CHR 34] @
                 escape_html url @ [CHR 34] @ ''>'' @ action @ ''</a></p></body></html>'')\<rparr>)"

section \<open>Properties\<close>

lemma set_replace_char:
  "set (replace_char c r s) = (set s - {c}) \<union> (if c \<in> set s then set r else {})"
  by (auto simp: replace_char_def split: if_splits)

lemma escape_html_no_markup:
  "set (escape_html s) \<inter> {CHR ''<'', CHR ''>'', CHR 34, CHR 39} = {}"
  by (auto simp: escape_html_def set_replace_char split: if_splits)

lemma find_fst_Some_iff:
  "map_option fst (find (\<lambda>d. fst d = n) ds) = Some p \<longleftrightarrow> p = n \<and> n \<in> fst ` set ds"
  by (induction ds) auto

lemma from_name_Some_iff: "from_name n = Some p \<longleftrightarrow> p = n \<and> n \<in> set all_names"
  unfolding from_name_def find_fst_Some_iff by (simp add: all_names_def)

lemma from_name_None_iff: "from_name n = None \<longleftrightarrow> n \<notin> set all_names"
  by (force simp: from_name_def all_names_def find_None_iff2)

lemma required_username_ok_iff:
  "required_username n = Inr () \<longleftrightarrow> trim n \<noteq> [] \<and> length (trim n) \<le> 64"
  by (auto simp: required_username_def Let_def MAX_USERNAME_LEN_def)

lemma required_password_ok_iff:
  "required_password p = Inr () \<longleftrightarrow> p \<noteq> [] \<and> length p \<le> 128"
  by (auto simp: required_password_def MAX_PASSWORD_LEN_def)

lemma required_username_password_ok_iff:
  "required_username_password n p = Inr () \<longleftrightarrow>
     required_username n = Inr () \<and> required_password p = Inr ()"
  by (auto simp: required_username_password_def split: sum.splits)

lemma optional_username_true_iff:
  "optional_username n = Inr True \<longleftrightarrow> required_username n = Inr ()"
  by (auto simp: optional_username_def required_username_def Let_def split: sum.splits)

lemma optional_password_some_iff:
  "optional_password p = Inr (Some v) \<longleftrightarrow> p = Some v \<and> required_password v = Inr ()"
  by (auto simp: optional_password_def required_password_def split: option.splits sum.splits if_splits)

lemma protected_admin_names:
  "is_protected_admin_username ''admin@example.com''" "is_protected_admin_username ''admin''"
  "\<not> is_protected_admin_username ''administrator@example.com''"
  by (simp_all add: is_protected_admin_username_def trim_visible visible_def Let_def
      eq_ignore_ascii_case_def to_ascii_lowercase_def ascii_lower_def DEFAULT_ADMIN_USERNAME_def)

end
