(* ===== verification/Store.thy ===== *)
theory Store
  imports Identity_Domain
begin

text \<open>
  The world the Identity module runs in. \<open>env\<close> collects everything the code obtains from outside
  the repository: the clock, fresh UUIDs, failures of the database driver, the texts of driver
  errors, the order in which the database scans rows, password hashing (argon2), HMAC and base64,
  JSON of the token claims, TOTP, SMTP and the OAuth providers. Each reading of such a source advances the tick of the world, so a theorem
  quantified over \<open>env\<close> covers every clock, every choice of UUIDs and every schedule of failures.
  The database is the schema of \<^verbatim>\<open>modules/identity/sqlx/migrations/sqlite\<close> together with the
  outbox, inbox and audit tables of the application template, one list of rows per table in rowid
  order.
\<close>

section \<open>Tables\<close>

record user_row =
  ur_id :: int
  ur_pid :: uuid
  ur_username :: string
  ur_password_hash :: string
  ur_created_at :: instant
  ur_reset_token :: "string option"
  ur_reset_sent_at :: "instant option"
  ur_email_verification_token :: "string option"
  ur_email_verification_sent_at :: "instant option"
  ur_email_verified_at :: "instant option"
  ur_magic_link_token :: "string option"
  ur_magic_link_expires_at :: "instant option"
  ur_deleted_at :: "instant option"
  ur_totp_secret :: "string option"
  ur_totp_enabled_at :: "instant option"
  ur_totp_backup_code_hashes :: "string list"
  ur_totp_login_token :: "string option"
  ur_totp_login_expires_at :: "instant option"
  ur_search_revision :: int
  ur_pending_email :: "string option"
  ur_email_change_token :: "string option"
  ur_email_change_sent_at :: "instant option"
  ur_external_only :: bool

record session_row =
  sr_pid :: uuid
  sr_token :: string
  sr_user_id :: int
  sr_created_at :: instant
  sr_expires_at :: instant
  sr_max_expires_at :: instant

record role_row =
  rr_name :: string
  rr_created_at :: instant
  rr_deleted_at :: "instant option"

record user_role_row =
  url_user_id :: int
  url_role_name :: string
  url_created_at :: instant

record role_permission_row =
  rp_role_name :: string
  rp_permission_name :: permission_name
  rp_created_at :: instant

text \<open>The commands of the search index and the payloads of the outbox, as the values whose JSON
  the code stores.\<close>

record search_document =
  sd_id :: string
  sd_username :: string
  sd_created_at :: instant
  sd_is_verified :: bool
  sd_roles :: "string list"

datatype search_index_command =
    SearchUpsert string "search_document list" "int option"
  | SearchDelete string string "int option"

datatype job_payload =
    MailPayload transactional_mail
  | SearchPayload search_index_command
  | OtherPayload string

record outbox_row =
  ob_id :: uuid
  ob_name :: string
  ob_payload :: job_payload
  ob_idempotency_key :: "string option"
  ob_attempts :: int
  ob_max_attempts :: int
  ob_available_at :: instant
  ob_locked_at :: "instant option"
  ob_lock_owner :: "string option"
  ob_processed_at :: "instant option"
  ob_last_error :: "string option"
  ob_created_at :: instant

record inbox_row =
  ib_consumer :: string
  ib_message_id :: uuid
  ib_processed_at :: instant

text \<open>The JSON values the audit details are built of.\<close>

datatype json_value = JsonBool bool | JsonString string | JsonStrings "string list"

record audit_entry =
  ae_actor :: string
  ae_action :: string
  ae_entity_type :: string
  ae_entity_id :: "string option"
  ae_details :: "(string \<times> json_value) list"

record database =
  db_users :: "user_row list"
  db_users_seq :: int
  db_sessions :: "session_row list"
  db_roles :: "role_row list"
  db_permissions :: "permission_name list"
  db_user_roles :: "user_role_row list"
  db_role_permissions :: "role_permission_row list"
  db_oauth_states :: "oauth_state list"
  db_connections :: "oauth_connection list"
  db_pending_signups :: "pending_oauth_signup list"
  db_outbox :: "outbox_row list"
  db_inbox :: "inbox_row list"
  db_audit_logs :: "(audit_entry \<times> instant) list"

section \<open>Constraints\<close>

datatype violation = UniqueViolation string | ForeignKeyViolation string | CheckViolation string

datatype sqlx_error =
    DriverError string
  | ConstraintViolation violation
  | RowNotFound

text \<open>The first constraint a database breaks, in the order of the tables.\<close>

definition users_violation :: "database \<Rightarrow> violation option" where
  "users_violation d =
     (if \<not> distinct (map ur_id (db_users d)) \<or>
         (\<exists>u \<in> set (db_users d). ur_id u > db_users_seq d) then Some (UniqueViolation ''users.id'')
      else if \<not> distinct (map ur_pid (db_users d)) then Some (UniqueViolation ''users.pid'')
      else if \<not> distinct (map ur_username (db_users d))
           then Some (UniqueViolation ''users.username'')
      else if \<not> unique_some (map ur_email_change_token (db_users d))
           then Some (UniqueViolation ''users.email_change_token'')
      else None)"

definition sessions_violation :: "database \<Rightarrow> violation option" where
  "sessions_violation d =
     (if \<not> distinct (map sr_pid (db_sessions d)) then Some (UniqueViolation ''sessions.pid'')
      else if \<not> distinct (map sr_token (db_sessions d))
           then Some (UniqueViolation ''sessions.token'')
      else if \<not> set (map sr_user_id (db_sessions d)) \<subseteq> set (map ur_id (db_users d))
           then Some (ForeignKeyViolation ''sessions.user_id'')
      else None)"

definition roles_violation :: "database \<Rightarrow> violation option" where
  "roles_violation d =
     (if \<not> distinct (map rr_name (db_roles d)) then Some (UniqueViolation ''roles.name'')
      else if \<not> distinct (db_permissions d) then Some (UniqueViolation ''permissions.name'')
      else None)"

definition user_roles_violation :: "database \<Rightarrow> violation option" where
  "user_roles_violation d =
     (if \<not> distinct (map (\<lambda>r. (url_user_id r, url_role_name r)) (db_user_roles d))
      then Some (UniqueViolation ''user_roles'')
      else if \<not> set (map url_user_id (db_user_roles d)) \<subseteq> set (map ur_id (db_users d))
           then Some (ForeignKeyViolation ''user_roles.user_id'')
      else if \<not> set (map url_role_name (db_user_roles d)) \<subseteq> set (map rr_name (db_roles d))
           then Some (ForeignKeyViolation ''user_roles.role_name'')
      else None)"

definition role_permissions_violation :: "database \<Rightarrow> violation option" where
  "role_permissions_violation d =
     (if \<not> distinct (map (\<lambda>r. (rp_role_name r, rp_permission_name r)) (db_role_permissions d))
      then Some (UniqueViolation ''role_permissions'')
      else if \<not> set (map rp_role_name (db_role_permissions d)) \<subseteq> set (map rr_name (db_roles d))
           then Some (ForeignKeyViolation ''role_permissions.role_name'')
      else if \<not> set (map rp_permission_name (db_role_permissions d)) \<subseteq> set (db_permissions d)
           then Some (ForeignKeyViolation ''role_permissions.permission_name'')
      else None)"

definition oauth_violation :: "database \<Rightarrow> violation option" where
  "oauth_violation d =
     (if \<not> distinct (map os_state (db_oauth_states d))
      then Some (UniqueViolation ''oauth_states.state'')
      else if \<exists>s \<in> set (db_oauth_states d). os_flow s = Link \<and> os_username s = None
           then Some (CheckViolation ''oauth_states'')
      else if \<not> distinct (map (\<lambda>c. (oc_provider c, oc_provider_user_id c)) (db_connections d))
           then Some (UniqueViolation ''user_oauth_connections.provider_user_id'')
      else if \<not> distinct (map (\<lambda>c. (oc_user_id c, oc_provider c)) (db_connections d))
           then Some (UniqueViolation ''user_oauth_connections.user_id'')
      else if \<not> set (map oc_user_id (db_connections d)) \<subseteq> set (map ur_id (db_users d))
           then Some (ForeignKeyViolation ''user_oauth_connections.user_id'')
      else if \<not> distinct (map ps_token (db_pending_signups d))
           then Some (UniqueViolation ''oauth_pending_signups.token'')
      else if \<not> distinct (map (\<lambda>s. (ps_provider s, ps_provider_user_id s)) (db_pending_signups d))
           then Some (UniqueViolation ''oauth_pending_signups.provider_user_id'')
      else None)"

definition outbox_violation :: "database \<Rightarrow> violation option" where
  "outbox_violation d =
     (if \<not> distinct (map ob_id (db_outbox d)) then Some (UniqueViolation ''outbox_messages.id'')
      else if \<not> unique_some
               (map (\<lambda>m. map_option (Pair (ob_name m)) (ob_idempotency_key m)) (db_outbox d))
           then Some (UniqueViolation ''outbox_messages.idempotency_key'')
      else if \<exists>m \<in> set (db_outbox d). ob_attempts m < 0 \<or> ob_max_attempts m \<le> 0
           then Some (CheckViolation ''outbox_messages'')
      else if \<not> distinct (map (\<lambda>m. (ib_consumer m, ib_message_id m)) (db_inbox d))
           then Some (UniqueViolation ''inbox_messages'')
      else if \<not> set (map ib_message_id (db_inbox d)) \<subseteq> set (map ob_id (db_outbox d))
           then Some (ForeignKeyViolation ''inbox_messages.message_id'')
      else None)"

definition or_else :: "'v option \<Rightarrow> 'v option \<Rightarrow> 'v option" where
  "or_else a b = (case a of None \<Rightarrow> b | Some v \<Rightarrow> Some v)"

definition schema_violation :: "database \<Rightarrow> violation option" where
  "schema_violation d =
     or_else (users_violation d) (or_else (sessions_violation d) (or_else (roles_violation d)
       (or_else (user_roles_violation d) (or_else (role_permissions_violation d)
         (or_else (oauth_violation d) (outbox_violation d))))))"

definition schema_ok :: "database \<Rightarrow> bool" where
  "schema_ok d \<longleftrightarrow> schema_violation d = None"

section \<open>Environment and world\<close>

record claims =
  cl_sub :: string
  cl_exp :: int
  cl_iat :: int
  cl_jti :: string

record external_oauth_user =
  ex_provider_user_id :: string
  ex_email :: string

record env =
  env_now :: "nat \<Rightarrow> instant"
  env_uuid :: "nat \<Rightarrow> uuid"
  env_fault :: "nat \<Rightarrow> string option"
  env_error_text :: "sqlx_error \<Rightarrow> string"
  env_to_lowercase :: "string \<Rightarrow> string"
  env_hash_password :: "nat \<Rightarrow> string \<Rightarrow> string + string"
  env_verify_password :: "string \<Rightarrow> string \<Rightarrow> string + bool"
  env_b64_encode :: "string \<Rightarrow> string"
  env_b64_decode :: "string \<Rightarrow> string option"
  env_hmac :: "string \<Rightarrow> string \<Rightarrow> string"
  env_claims_json :: "claims \<Rightarrow> string"
  env_claims_parse :: "string \<Rightarrow> claims option"
  env_totp_secret :: "nat \<Rightarrow> string"
  env_totp_check :: "instant \<Rightarrow> string \<Rightarrow> string \<Rightarrow> string \<Rightarrow> string \<Rightarrow> string + bool"
  env_totp_url :: "string \<Rightarrow> string \<Rightarrow> string \<Rightarrow> string + string"
  env_advisory_lock :: "nat \<Rightarrow> bool"
  env_instant :: "nat \<Rightarrow> instant"
  env_lock_poisoned :: "nat \<Rightarrow> bool"
  env_json_strings :: "string list \<Rightarrow> string"
  env_parse_strings :: "string \<Rightarrow> string list option"
  env_search :: "nat \<Rightarrow> string \<Rightarrow> nat \<Rightarrow> nat \<Rightarrow> string + (string option list \<times> nat)"
  env_parse_uuid :: "string \<Rightarrow> uuid option"
  env_urlencode :: "string \<Rightarrow> string"
  env_oauth_fetch_user :: "nat \<Rightarrow> string \<Rightarrow> string \<Rightarrow> application_error + external_oauth_user"
  env_handle_job :: "nat \<Rightarrow> string \<Rightarrow> job_payload \<Rightarrow> string option"
  env_send_mail :: "nat \<Rightarrow> mail_message \<Rightarrow> string option"
  env_scan :: "nat \<Rightarrow> nat \<Rightarrow> nat"

record world =
  w_tick :: nat
  w_db :: database
  w_cache :: "string \<Rightarrow> (string \<times> instant option) option"
  w_mails :: "mail_message list"
  w_handled :: "(uuid \<times> string) list"

type_synonym ('e, 'a) action = "(world, 'e, 'a) exec"

definition ticked :: "world \<Rightarrow> world" where
  "ticked w = w\<lparr>w_tick := Suc (w_tick w)\<rparr>"

definition utc_now :: "env \<Rightarrow> ('e, instant) action" where
  "utc_now E = (\<lambda>w. (Inr (env_now E (w_tick w)), ticked w))"

definition new_uuid :: "env \<Rightarrow> ('e, uuid) action" where
  "new_uuid E = (\<lambda>w. (Inr (env_uuid E (w_tick w)), ticked w))"

section \<open>Statements and transactions\<close>

text \<open>
  A statement sees the number of its own tick (the server side clock \<^verbatim>\<open>NOW()\<close> and
  \<^verbatim>\<open>gen_random_uuid()\<close> are the sources at that tick) and the database; it fails with the fault the
  environment schedules, or when its result breaks a constraint, and then changes nothing.
\<close>

definition sql :: "env \<Rightarrow> (nat \<Rightarrow> database \<Rightarrow> 'a \<times> database) \<Rightarrow> (sqlx_error, 'a) action" where
  "sql E stmt = (\<lambda>w.
     case env_fault E (w_tick w) of
       Some m \<Rightarrow> (Inl (DriverError m), ticked w)
     | None \<Rightarrow>
         (case stmt (w_tick w) (w_db w) of (x, d) \<Rightarrow>
            (case schema_violation d of
               Some v \<Rightarrow> (Inl (ConstraintViolation v), ticked w)
             | None \<Rightarrow> (Inr x, (ticked w)\<lparr>w_db := d\<rparr>))))"

definition query :: "env \<Rightarrow> (database \<Rightarrow> 'a) \<Rightarrow> (sqlx_error, 'a) action" where
  "query E f = (\<lambda>w.
     case env_fault E (w_tick w) of
       Some m \<Rightarrow> (Inl (DriverError m), ticked w)
     | None \<Rightarrow> (Inr (f (w_db w)), ticked w))"

definition query_at :: "env \<Rightarrow> (nat \<Rightarrow> database \<Rightarrow> 'a) \<Rightarrow> (sqlx_error, 'a) action" where
  "query_at E f = (\<lambda>w. query E (f (w_tick w)) w)"

text \<open>
  SQL leaves the order of rows that \<^verbatim>\<open>ORDER BY\<close> does not separate open, and it may differ from one statement to the
  next. A statement therefore sorts the rows in the order in which it scans them, which \<open>env_scan\<close> chooses: every
  permutation of the rows is the scan of some \<open>env_scan\<close>.
\<close>

definition row_order :: "env \<Rightarrow> nat \<Rightarrow> 'a list \<Rightarrow> 'a list" where
  "row_order E n rows = map snd (sort_key (\<lambda>(i, _). env_scan E n i) (zip [0..<length rows] rows))"

lemma length_row_order [simp]: "length (row_order E n rows) = length rows"
  by (simp add: row_order_def)

lemma set_row_order [simp]: "set (row_order E n rows) = set rows"
proof -
  have "set (row_order E n rows) = snd ` set (zip [0..<length rows] rows)" by (simp add: row_order_def)
  also have "\<dots> = set rows" using map_snd_zip [of "[0..<length rows]" rows] by (metis diff_zero length_upt list.set_map)
  finally show ?thesis .
qed

text \<open>\<^verbatim>\<open>begin\<close> and \<^verbatim>\<open>commit\<close>: a round trip to the driver that may fail.\<close>

definition driver_call :: "env \<Rightarrow> (sqlx_error, unit) action" where
  "driver_call E = query E (\<lambda>_. ())"

text \<open>
  How the body of a transaction ends: \<^verbatim>\<open>commit().await?\<close>, \<^verbatim>\<open>rollback().await?\<close>, or a return that
  drops the transaction, which rolls back too. An error inside the body drops it as well.
\<close>

datatype 'a txn_end = Commit 'a | Rollback 'a | Dropped 'a

definition restore_db :: "world \<Rightarrow> world \<Rightarrow> world" where
  "restore_db w w' = w'\<lparr>w_db := w_db w\<rparr>"

definition transaction ::
    "env \<Rightarrow> (sqlx_error \<Rightarrow> 'e) \<Rightarrow> ('e, 'a txn_end) action \<Rightarrow> ('e, 'a) action" where
  "transaction E conv body = (\<lambda>w.
     case map_err conv (driver_call E) w of
       (Inl e, w1) \<Rightarrow> (Inl e, w1)
     | (Inr _, w1) \<Rightarrow>
         (case body w1 of
            (Inl e, w2) \<Rightarrow> (Inl e, restore_db w w2)
          | (Inr (Dropped x), w2) \<Rightarrow> (Inr x, restore_db w w2)
          | (Inr (Rollback x), w2) \<Rightarrow>
              (case map_err conv (driver_call E) w2 of
                 (Inl e, w3) \<Rightarrow> (Inl e, restore_db w w3)
               | (Inr _, w3) \<Rightarrow> (Inr x, restore_db w w3))
          | (Inr (Commit x), w2) \<Rightarrow>
              (case map_err conv (driver_call E) w2 of
                 (Inl e, w3) \<Rightarrow> (Inl e, restore_db w w3)
               | (Inr _, w3) \<Rightarrow> (Inr x, w3))))"

section \<open>Statements on the users table\<close>

definition user_at :: "database \<Rightarrow> string \<Rightarrow> user_row option" where
  "user_at d username = find (\<lambda>u. ur_username u = username) (db_users d)"

definition active :: "string \<Rightarrow> user_row \<Rightarrow> bool" where
  "active username u \<longleftrightarrow> ur_username u = username \<and> ur_deleted_at u = None"

text \<open>\<^verbatim>\<open>UPDATE users SET g WHERE P\<close>, with the number of affected rows.\<close>

definition update_users ::
    "env \<Rightarrow> (user_row \<Rightarrow> bool) \<Rightarrow> (user_row \<Rightarrow> user_row) \<Rightarrow> (sqlx_error, nat) action" where
  "update_users E P g = sql E (\<lambda>_ d.
     (rows_affected P (db_users d), d\<lparr>db_users := update_where P g (db_users d)\<rparr>))"

text \<open>\<^verbatim>\<open>UPDATE users SET g WHERE P RETURNING ...\<close>: the first updated row.\<close>

definition update_users_returning ::
    "env \<Rightarrow> (user_row \<Rightarrow> bool) \<Rightarrow> (user_row \<Rightarrow> user_row) \<Rightarrow> (sqlx_error, user_row option) action" where
  "update_users_returning E P g = sql E (\<lambda>_ d.
     (map_option g (find P (db_users d)), d\<lparr>db_users := update_where P g (db_users d)\<rparr>))"

definition new_user_row :: "uuid \<Rightarrow> string \<Rightarrow> string \<Rightarrow> instant \<Rightarrow> user_row" where
  "new_user_row pid username password_hash created_at =
     \<lparr>ur_id = 0, ur_pid = pid, ur_username = username, ur_password_hash = password_hash,
      ur_created_at = created_at, ur_reset_token = None, ur_reset_sent_at = None,
      ur_email_verification_token = None, ur_email_verification_sent_at = None,
      ur_email_verified_at = None, ur_magic_link_token = None, ur_magic_link_expires_at = None,
      ur_deleted_at = None, ur_totp_secret = None, ur_totp_enabled_at = None,
      ur_totp_backup_code_hashes = [], ur_totp_login_token = None, ur_totp_login_expires_at = None,
      ur_search_revision = 0, ur_pending_email = None, ur_email_change_token = None,
      ur_email_change_sent_at = None, ur_external_only = False\<rparr>"

definition insert_user_row :: "user_row \<Rightarrow> database \<Rightarrow> user_row \<times> database" where
  "insert_user_row row d =
     (let row = row\<lparr>ur_id := db_users_seq d + 1\<rparr>
      in (row, d\<lparr>db_users := db_users d @ [row], db_users_seq := db_users_seq d + 1\<rparr>))"

text \<open>\<^verbatim>\<open>INSERT ... ON CONFLICT (username) DO NOTHING\<close> and
  \<^verbatim>\<open>... DO UPDATE SET g WHERE users.deleted_at IS NOT NULL\<close>, with the row they return.\<close>

definition insert_user_or_nothing :: "user_row \<Rightarrow> database \<Rightarrow> user_row option \<times> database" where
  "insert_user_or_nothing row d =
     (case user_at d (ur_username row) of
        Some _ \<Rightarrow> (None, d)
      | None \<Rightarrow> (case insert_user_row row d of (r, d') \<Rightarrow> (Some r, d')))"

definition insert_user_or_revive ::
    "user_row \<Rightarrow> (user_row \<Rightarrow> user_row) \<Rightarrow> database \<Rightarrow> user_row option \<times> database" where
  "insert_user_or_revive row g d =
     (case user_at d (ur_username row) of
        Some u \<Rightarrow>
          (if ur_deleted_at u \<noteq> None
           then (Some (g u), d\<lparr>db_users := update_where (\<lambda>v. ur_username v = ur_username row) g (db_users d)\<rparr>)
           else (None, d))
      | None \<Rightarrow> (case insert_user_row row d of (r, d') \<Rightarrow> (Some r, d')))"

text \<open>\<^verbatim>\<open>INSERT INTO user_roles ... ON CONFLICT (user_id, role_name) DO NOTHING\<close>.\<close>

definition add_user_role :: "instant \<Rightarrow> int \<Rightarrow> string \<Rightarrow> database \<Rightarrow> database" where
  "add_user_role now user_id role_name d =
     (if \<exists>r \<in> set (db_user_roles d). url_user_id r = user_id \<and> url_role_name r = role_name then d
      else d\<lparr>db_user_roles := db_user_roles d @
             [\<lparr>url_user_id = user_id, url_role_name = role_name, url_created_at = now\<rparr>]\<rparr>)"

section \<open>Properties\<close>

lemma or_else_None [simp]: "or_else a b = None \<longleftrightarrow> a = None \<and> b = None"
  by (simp add: or_else_def split: option.split)

lemma or_else_eqs [simp]: "or_else None b = b" "or_else (Some v) b = Some v"
  by (simp_all add: or_else_def)

lemma schema_ok_iff:
  "schema_ok d \<longleftrightarrow>
     users_violation d = None \<and> sessions_violation d = None \<and> roles_violation d = None \<and>
     user_roles_violation d = None \<and> role_permissions_violation d = None \<and>
     oauth_violation d = None \<and> outbox_violation d = None"
  by (simp add: schema_ok_def schema_violation_def)

lemma schema_ok_users:
  assumes "schema_ok d"
  shows "distinct (map ur_id (db_users d))" "distinct (map ur_pid (db_users d))"
    "distinct (map ur_username (db_users d))" "distinct (db_users d)"
    "unique_some (map ur_email_change_token (db_users d))"
    "\<And>u. u \<in> set (db_users d) \<Longrightarrow> ur_id u \<le> db_users_seq d"
  using assms
  by (auto simp: distinct_map schema_ok_iff users_violation_def not_less split: if_splits)

lemma schema_ok_sessions:
  assumes "schema_ok d"
  shows "distinct (map sr_token (db_sessions d))" "distinct (map sr_pid (db_sessions d))"
    "\<And>s. s \<in> set (db_sessions d) \<Longrightarrow> \<exists>u \<in> set (db_users d). ur_id u = sr_user_id s"
  using assms by (auto simp: schema_ok_iff sessions_violation_def subset_eq split: if_splits) force

text \<open>Changing one table leaves the constraints of the others alone.\<close>

lemma schema_ok_db_sessions:
  assumes "schema_ok d" "sessions_violation (d\<lparr>db_sessions := ss\<rparr>) = None"
  shows "schema_ok (d\<lparr>db_sessions := ss\<rparr>)"
proof -
  let ?d = "d\<lparr>db_sessions := ss\<rparr>"
  have "users_violation ?d = users_violation d" "roles_violation ?d = roles_violation d"
    "user_roles_violation ?d = user_roles_violation d" "outbox_violation ?d = outbox_violation d"
    "role_permissions_violation ?d = role_permissions_violation d" "oauth_violation ?d = oauth_violation d"
    by (cases d; simp only: users_violation_def roles_violation_def user_roles_violation_def
        outbox_violation_def role_permissions_violation_def oauth_violation_def database.simps)+
  with assms show ?thesis by (simp only: schema_ok_iff)
qed

lemma schema_ok_users_cong:
  assumes "schema_ok d" "map ur_id us = map ur_id (db_users d)" "map ur_pid us = map ur_pid (db_users d)"
    "map ur_username us = map ur_username (db_users d)"
    "unique_some (map ur_email_change_token us)"
  shows "schema_ok (d\<lparr>db_users := us\<rparr>)"
proof -
  let ?d = "d\<lparr>db_users := us\<rparr>"
  have ids: "ur_id ` set us = ur_id ` set (db_users d)"
    using arg_cong [OF assms(2), of set] by simp
  have "users_violation d = None" using assms(1) by (simp add: schema_ok_iff)
  moreover have "(\<exists>u \<in> set us. ur_id u > db_users_seq d) = (\<exists>u \<in> set (db_users d). ur_id u > db_users_seq d)"
    using ids by (metis (mono_tags, lifting) imageE imageI)
  ultimately have "users_violation ?d = None"
    unfolding users_violation_def using assms(2-5) by (simp split: if_splits)
  moreover have tables: "db_users ?d = us" "db_sessions ?d = db_sessions d" "db_roles ?d = db_roles d"
    "db_user_roles ?d = db_user_roles d" "db_oauth_states ?d = db_oauth_states d"
    "db_connections ?d = db_connections d" "db_pending_signups ?d = db_pending_signups d" by simp_all
  have "sessions_violation ?d = sessions_violation d"
    "user_roles_violation ?d = user_roles_violation d" "oauth_violation ?d = oauth_violation d"
    unfolding sessions_violation_def user_roles_violation_def oauth_violation_def tables assms(2)
    by (rule refl)+
  moreover have "roles_violation ?d = roles_violation d" "outbox_violation ?d = outbox_violation d"
    "role_permissions_violation ?d = role_permissions_violation d"
    by (cases d; simp only: roles_violation_def outbox_violation_def role_permissions_violation_def
        database.simps)+
  ultimately show ?thesis using assms(1) by (simp only: schema_ok_iff)
qed

text \<open>Users are identified by each of their unique columns.\<close>

lemma user_by_username:
  "schema_ok d \<Longrightarrow> u \<in> set (db_users d) \<Longrightarrow> v \<in> set (db_users d) \<Longrightarrow>
     ur_username u = ur_username v \<Longrightarrow> u = v"
  by (metis distinct_map inj_onD schema_ok_users(3))

lemma user_by_id:
  "schema_ok d \<Longrightarrow> u \<in> set (db_users d) \<Longrightarrow> v \<in> set (db_users d) \<Longrightarrow> ur_id u = ur_id v \<Longrightarrow> u = v"
  by (metis distinct_map inj_onD schema_ok_users(1))

lemma session_by_token:
  "schema_ok d \<Longrightarrow> s \<in> set (db_sessions d) \<Longrightarrow> t \<in> set (db_sessions d) \<Longrightarrow>
     sr_token s = sr_token t \<Longrightarrow> s = t"
  by (metis distinct_map inj_onD schema_ok_sessions(1))

lemma user_at_mem:
  "schema_ok d \<Longrightarrow> user_at d n = Some u \<longleftrightarrow> u \<in> set (db_users d) \<and> ur_username u = n"
  unfolding user_at_def
  by (auto dest: find_key_Some intro!: find_unique [where k = ur_username] schema_ok_users(3))

lemma find_active:
  assumes "schema_ok d"
  shows "find (\<lambda>u. ur_username u = n \<and> Q u) (db_users d) =
    (case user_at d n of None \<Rightarrow> None | Some u \<Rightarrow> if Q u then Some u else None)"
  unfolding user_at_def fetch_optional_filter [symmetric]
  by (simp add: filter_unique_key filter_unique_key0 schema_ok_users(3) [OF assms]
      split: option.split)

lemma filter_active:
  "schema_ok d \<Longrightarrow> filter (\<lambda>u. ur_username u = n \<and> Q u) (db_users d) =
    (case user_at d n of None \<Rightarrow> [] | Some u \<Rightarrow> if Q u then [u] else [])"
  by (simp add: filter_unique_key schema_ok_users(3) user_at_def)

subsection \<open>Runs of the primitives\<close>

lemma ticked_simps [simp]:
  "w_tick (ticked w) = Suc (w_tick w)" "w_db (ticked w) = w_db w"
  "w_cache (ticked w) = w_cache w" "w_mails (ticked w) = w_mails w" "w_handled (ticked w) = w_handled w"
  by (simp_all add: ticked_def)

lemma restore_db_simps [simp]:
  "w_tick (restore_db w w') = w_tick w'" "w_db (restore_db w w') = w_db w"
  "w_cache (restore_db w w') = w_cache w'" "w_mails (restore_db w w') = w_mails w'"
  "w_handled (restore_db w w') = w_handled w'"
  by (simp_all add: restore_db_def)

lemma utc_now_iff [exec_simps]:
  "utc_now E w = (r, w') \<longleftrightarrow> r = Inr (env_now E (w_tick w)) \<and> w' = ticked w"
  by (auto simp: utc_now_def)

lemma new_uuid_iff [exec_simps]:
  "new_uuid E w = (r, w') \<longleftrightarrow> r = Inr (env_uuid E (w_tick w)) \<and> w' = ticked w"
  by (auto simp: new_uuid_def)

lemma query_Inr_iff [exec_simps]:
  "query E f w = (Inr x, w') \<longleftrightarrow> env_fault E (w_tick w) = None \<and> x = f (w_db w) \<and> w' = ticked w"
  by (auto simp: query_def split: option.splits)

lemma query_Inl_iff [exec_simps]:
  "query E f w = (Inl e, w') \<longleftrightarrow>
     (\<exists>m. env_fault E (w_tick w) = Some m \<and> e = DriverError m \<and> w' = ticked w)"
  by (auto simp: query_def split: option.splits)

lemma query_at_Inr_iff [exec_simps]:
  "query_at E f w = (Inr x, w') \<longleftrightarrow>
     env_fault E (w_tick w) = None \<and> x = f (w_tick w) (w_db w) \<and> w' = ticked w"
  by (simp add: query_at_def query_Inr_iff)

lemma driver_call_Inr_iff [exec_simps]:
  "driver_call E w = (Inr u, w') \<longleftrightarrow> env_fault E (w_tick w) = None \<and> w' = ticked w"
  by (simp add: driver_call_def query_Inr_iff)

lemma sql_Inr_iff [exec_simps]:
  "sql E stmt w = (Inr x, w') \<longleftrightarrow>
     env_fault E (w_tick w) = None \<and>
     (\<exists>d. stmt (w_tick w) (w_db w) = (x, d) \<and> schema_ok d \<and> w' = (ticked w)\<lparr>w_db := d\<rparr>)"
  by (auto simp: sql_def schema_ok_def split: option.splits prod.splits)

lemma sql_Inl_iff [exec_simps]:
  "sql E stmt w = (Inl e, w') \<longleftrightarrow>
     w' = ticked w \<and>
     ((\<exists>m. env_fault E (w_tick w) = Some m \<and> e = DriverError m) \<or>
      (env_fault E (w_tick w) = None \<and>
       (\<exists>v. schema_violation (snd (stmt (w_tick w) (w_db w))) = Some v \<and> e = ConstraintViolation v)))"
  by (auto simp: sql_def split: option.splits prod.splits)

text \<open>A transaction either commits what its body did or leaves the database as it was.\<close>

lemma transaction_Inr_iff:
  "transaction E conv body w = (Inr x, w') \<longleftrightarrow>
     env_fault E (w_tick w) = None \<and>
     ((\<exists>w2. body (ticked w) = (Inr (Commit x), w2) \<and> env_fault E (w_tick w2) = None \<and> w' = ticked w2) \<or>
      (\<exists>w2. body (ticked w) = (Inr (Rollback x), w2) \<and> env_fault E (w_tick w2) = None \<and>
            w' = restore_db w (ticked w2)) \<or>
      (\<exists>w2. body (ticked w) = (Inr (Dropped x), w2) \<and> w' = restore_db w w2))"
  by (auto simp: transaction_def exec_simps driver_call_def query_def map_err_def
      split: prod.splits sum.splits txn_end.splits option.splits)

lemma transaction_atomic: "transaction E conv body w = (Inl e, w') \<Longrightarrow> w_db w' = w_db w"
  by (auto simp: transaction_def driver_call_def query_def map_err_def
      split: prod.splits sum.splits txn_end.splits option.splits)

lemma transaction_commits:
  assumes "transaction E conv body w = (Inr x, w')" "w_db w' \<noteq> w_db w"
  shows "\<exists>w2. body (ticked w) = (Inr (Commit x), w2) \<and> w' = ticked w2"
  using assms by (auto simp: transaction_Inr_iff)

subsection \<open>Relations between databases\<close>

definition db_rel :: "(database \<Rightarrow> database \<Rightarrow> bool) \<Rightarrow> world \<Rightarrow> world \<Rightarrow> bool" where
  "db_rel R w w' \<longleftrightarrow> R (w_db w) (w_db w')"

locale db_relation =
  fixes R :: "database \<Rightarrow> database \<Rightarrow> bool"
  assumes db_refl: "R d d"
    and db_trans: "R a b \<Longrightarrow> R b c \<Longrightarrow> R a c"
begin

lemma db_rel_run_relation: "run_relation (db_rel R)"
  by unfold_locales (auto simp: db_rel_def intro: db_refl db_trans)

lemma steps_utc_now: "steps (db_rel R) (utc_now E)"
  by (rule stepsI) (simp add: utc_now_def db_rel_def db_refl)

lemma steps_new_uuid: "steps (db_rel R) (new_uuid E)"
  by (rule stepsI) (simp add: new_uuid_def db_rel_def db_refl)

lemma steps_query: "steps (db_rel R) (query E f)"
  by (rule stepsI) (simp add: query_def db_rel_def db_refl split: option.split)

lemma steps_query_at: "steps (db_rel R) (query_at E f)"
  using steps_query unfolding query_at_def steps_def by blast

lemma steps_sql:
  "(\<And>n d. schema_ok (snd (stmt n d)) \<Longrightarrow> R d (snd (stmt n d))) \<Longrightarrow> steps (db_rel R) (sql E stmt)"
  by (rule stepsI)
    (auto simp: sql_def db_rel_def db_refl schema_ok_def split: option.split prod.split,
     metis snd_conv)

lemma steps_transaction:
  assumes "steps (db_rel R) body"
  shows "steps (db_rel R) (transaction E conv body)"
proof (rule stepsI)
  fix w
  obtain r w' where run: "transaction E conv body w = (r, w')" by fastforce
  have body: "R (w_db w) (w_db w2)" if "body (ticked w) = (q, w2)" for q w2
    using stepsD [OF assms that] by (simp add: db_rel_def)
  have "R (w_db w) (w_db w')"
  proof (cases r)
    case (Inl e)
    with run show ?thesis by (simp add: transaction_atomic db_refl)
  next
    case (Inr x)
    with run body show ?thesis by (auto simp: transaction_Inr_iff db_refl)
  qed
  with run show "db_rel R w (snd (transaction E conv body w))" by (simp add: db_rel_def)
qed

end

sublocale db_relation \<subseteq> run_relation "db_rel R"
  by (rule db_rel_run_relation)

definition db_inv :: "(database \<Rightarrow> bool) \<Rightarrow> database \<Rightarrow> database \<Rightarrow> bool" where
  "db_inv I d d' \<longleftrightarrow> (I d \<longrightarrow> I d')"

definition db_same :: "(database \<Rightarrow> 'b) \<Rightarrow> database \<Rightarrow> database \<Rightarrow> bool" where
  "db_same f d d' \<longleftrightarrow> f d' = f d"

interpretation inv: db_relation "db_inv I" for I
  by unfold_locales (auto simp: db_inv_def)

interpretation same: db_relation "db_same f" for f
  by unfold_locales (auto simp: db_same_def)

lemmas inv_intros =
  inv.steps_combinators inv.steps_utc_now inv.steps_new_uuid inv.steps_query inv.steps_query_at
  inv.steps_transaction

lemmas same_intros =
  same.steps_combinators same.steps_utc_now same.steps_new_uuid same.steps_query
  same.steps_query_at same.steps_transaction

declare inv_intros [steps_intros] same_intros [steps_intros]

lemma inv_run: "steps (db_rel (db_inv I)) m \<Longrightarrow> m w = (r, w') \<Longrightarrow> I (w_db w) \<Longrightarrow> I (w_db w')"
  by (auto dest: stepsD simp: db_rel_def db_inv_def)

lemma same_run: "steps (db_rel (db_same f)) m \<Longrightarrow> m w = (r, w') \<Longrightarrow> f (w_db w') = f (w_db w)"
  by (auto dest: stepsD simp: db_rel_def db_same_def)

lemma update_users_Inr_iff [exec_simps]:
  "update_users E P g w = (Inr k, w') \<longleftrightarrow>
     env_fault E (w_tick w) = None \<and> k = rows_affected P (db_users (w_db w)) \<and>
     schema_ok ((w_db w)\<lparr>db_users := update_where P g (db_users (w_db w))\<rparr>) \<and>
     w' = (ticked w)\<lparr>w_db := (w_db w)\<lparr>db_users := update_where P g (db_users (w_db w))\<rparr>\<rparr>"
  by (auto simp: update_users_def sql_Inr_iff)

lemma update_users_returning_Inr_iff [exec_simps]:
  "update_users_returning E P g w = (Inr r, w') \<longleftrightarrow>
     env_fault E (w_tick w) = None \<and> r = map_option g (find P (db_users (w_db w))) \<and>
     schema_ok ((w_db w)\<lparr>db_users := update_where P g (db_users (w_db w))\<rparr>) \<and>
     w' = (ticked w)\<lparr>w_db := (w_db w)\<lparr>db_users := update_where P g (db_users (w_db w))\<rparr>\<rparr>"
  by (auto simp: update_users_returning_def sql_Inr_iff)

text \<open>No statement leaves a database that breaks a constraint.\<close>

lemma schema_sql [steps_intros]: "steps (db_rel (db_inv schema_ok)) (sql E stmt)"
  by (rule inv.steps_sql) (simp add: db_inv_def)

lemma schema_update_users [steps_intros]:
  "steps (db_rel (db_inv schema_ok)) (update_users E P g)"
  "steps (db_rel (db_inv schema_ok)) (update_users_returning E P g)"
  unfolding update_users_def update_users_returning_def by (rule schema_sql)+

lemmas schema_intros = inv_intros schema_sql schema_update_users

end
