(* ===== verification/Sample_World.thy ===== *)
theory Sample_World
  imports Store
begin

text \<open>
  A concrete environment and a small database on which the theorems are exercised: a clock that
  counts nanoseconds, distinct UUIDs, a driver that never fails, an escaping that stands for base64
  and a length-prefixed encoding that stands for JSON. The lemmas show that these instances have
  the documented behaviour the code relies on.
\<close>

section \<open>Encodings\<close>

fun escape_dots :: "string \<Rightarrow> string" where
  "escape_dots [] = []"
| "escape_dots (c # cs) =
     (if c = CHR ''.'' then ''!d'' else if c = CHR ''!'' then ''!e'' else [c]) @ escape_dots cs"

fun unescape_dots :: "string \<Rightarrow> string option" where
  "unescape_dots [] = Some []"
| "unescape_dots [c] = (if c = CHR ''!'' then None else Some [c])"
| "unescape_dots (c # d # cs) =
     (if c = CHR ''!''
      then map_option (Cons (if d = CHR ''d'' then CHR ''.'' else CHR ''!'')) (unescape_dots cs)
      else map_option (Cons c) (unescape_dots (d # cs)))"

definition enc_nat :: "nat \<Rightarrow> string" where
  "enc_nat n = replicate n CHR ''x'' @ '',''"

definition dec_nat :: "string \<Rightarrow> (nat \<times> string) option" where
  "dec_nat s =
     (let n = length (takeWhile (\<lambda>c. c = CHR ''x'') s)
      in case drop n s of [] \<Rightarrow> None | _ # rest \<Rightarrow> Some (n, rest))"

definition enc_int :: "int \<Rightarrow> string" where
  "enc_int i = (if i < 0 then CHR ''-'' else CHR ''+'') # enc_nat (nat \<bar>i\<bar>)"

definition dec_int :: "string \<Rightarrow> (int \<times> string) option" where
  "dec_int s = (case s of
     [] \<Rightarrow> None
   | c # cs \<Rightarrow> map_option (\<lambda>(n, rest). (if c = CHR ''-'' then - int n else int n, rest)) (dec_nat cs))"

definition enc_str :: "string \<Rightarrow> string" where
  "enc_str s = enc_nat (length s) @ s"

definition dec_str :: "string \<Rightarrow> (string \<times> string) option" where
  "dec_str s = map_option (\<lambda>(n, rest). (take n rest, drop n rest)) (dec_nat s)"

definition enc_claims :: "claims \<Rightarrow> string" where
  "enc_claims c = enc_str (cl_sub c) @ enc_int (cl_exp c) @ enc_int (cl_iat c) @ enc_str (cl_jti c)"

definition dec_claims :: "string \<Rightarrow> claims option" where
  "dec_claims s =
     Option.bind (dec_str s) (\<lambda>(sub, s1).
     Option.bind (dec_int s1) (\<lambda>(exp, s2).
     Option.bind (dec_int s2) (\<lambda>(iat, s3).
     Option.bind (dec_str s3) (\<lambda>(jti, _).
       Some \<lparr>cl_sub = sub, cl_exp = exp, cl_iat = iat, cl_jti = jti\<rparr>))))"

definition enc_strs :: "string list \<Rightarrow> string" where
  "enc_strs xs = concat (map enc_str xs)"

fun dec_strs :: "nat \<Rightarrow> string \<Rightarrow> string list option" where
  "dec_strs n [] = Some []"
| "dec_strs 0 (c # cs) = None"
| "dec_strs (Suc n) (c # cs) =
     (case dec_str (c # cs) of
        None \<Rightarrow> None | Some (x, rest) \<Rightarrow> map_option (Cons x) (dec_strs n rest))"

lemma unescape_escape: "unescape_dots (escape_dots s) = Some s"
proof (induction s)
  case (Cons c cs)
  then show ?case by (cases "escape_dots cs") auto
qed simp

lemma escape_no_dot: "CHR ''.'' \<notin> set (escape_dots s)"
  by (induction s) auto

lemma dec_enc_nat [simp]: "dec_nat (enc_nat n @ rest) = Some (n, rest)"
proof -
  have "takeWhile (\<lambda>c. c = CHR ''x'') (enc_nat n @ rest) = replicate n CHR ''x''"
    by (induction n) (auto simp: enc_nat_def)
  then show ?thesis by (simp add: dec_nat_def enc_nat_def)
qed

lemma dec_enc_int [simp]: "dec_int (enc_int i @ rest) = Some (i, rest)"
  by (simp add: dec_int_def enc_int_def)

lemma dec_enc_str [simp]: "dec_str (enc_str s @ rest) = Some (s, rest)"
  by (simp add: dec_str_def enc_str_def)

lemma dec_enc_str_end [simp]: "dec_str (enc_str s) = Some (s, [])"
  using dec_enc_str [of s "[]"] by simp

lemma dec_enc_claims: "dec_claims (enc_claims c) = Some c"
  by (simp add: dec_claims_def enc_claims_def)

lemma enc_str_Cons: "\<exists>c cs. enc_str s = c # cs"
  by (cases "enc_str s") (auto simp: enc_str_def enc_nat_def)

lemma dec_enc_strs_fuel: "length xs \<le> n \<Longrightarrow> dec_strs n (enc_strs xs) = Some xs"
proof (induction xs arbitrary: n)
  case Nil
  then show ?case by (simp add: enc_strs_def)
next
  case (Cons x xs)
  then obtain k where k: "n = Suc k" by (cases n) auto
  obtain c cs where c: "enc_str x @ enc_strs xs = c # cs" using enc_str_Cons [of x] by auto
  have "enc_strs (x # xs) = c # cs" using c by (simp add: enc_strs_def)
  moreover have "dec_str (c # cs) = Some (x, enc_strs xs)" using dec_enc_str c by metis
  ultimately show ?case using Cons k by simp
qed

lemma enc_strs_length: "length xs \<le> length (enc_strs xs)"
  by (induction xs) (auto simp: enc_strs_def enc_str_def enc_nat_def)

lemma dec_enc_strs: "dec_strs (length (enc_strs xs)) (enc_strs xs) = Some xs"
  by (rule dec_enc_strs_fuel) (rule enc_strs_length)

section \<open>Environment\<close>

definition sample_env :: env where
  "sample_env =
     \<lparr>env_now = int, env_uuid = (\<lambda>n. enc_nat n), env_fault = (\<lambda>_. None),
      env_error_text = (\<lambda>_. ''database error''), env_to_lowercase = to_ascii_lowercase,
      env_hash_password = (\<lambda>_ p. Inr (CHR ''#'' # p)),
      env_verify_password = (\<lambda>p h. Inr (h = CHR ''#'' # p)),
      env_b64_encode = escape_dots, env_b64_decode = unescape_dots,
      env_hmac = (\<lambda>key text. key @ text),
      env_claims_json = enc_claims, env_claims_parse = dec_claims,
      env_totp_secret = (\<lambda>n. enc_nat n),
      env_totp_check = (\<lambda>_ _ _ _ code. Inr (code = ''123456'')),
      env_totp_url = (\<lambda>secret _ _. Inr secret),
      env_advisory_lock = (\<lambda>_. True), env_instant = int,
      env_lock_poisoned = (\<lambda>_. False), env_json_strings = enc_strs,
      env_parse_strings = (\<lambda>s. dec_strs (length s) s),
      env_search = (\<lambda>_ _ _ _. Inl ''no search''), env_parse_uuid = Some, env_urlencode = (\<lambda>s. s),
      env_oauth_fetch_user = (\<lambda>_ _ code. Inr \<lparr>ex_provider_user_id = code, ex_email = code @ ''@b''\<rparr>),
      env_handle_job = (\<lambda>_ _ _. None), env_send_mail = (\<lambda>_ _. None), env_scan = (\<lambda>_ i. i)\<rparr>"

lemma sample_env_simps [simp]:
  "env_now sample_env n = int n" "env_uuid sample_env n = enc_nat n"
  "env_fault sample_env n = None" "env_lock_poisoned sample_env n = False"
  "env_json_strings sample_env = enc_strs"
  "env_parse_strings sample_env s = dec_strs (length s) s"
  by (simp_all add: sample_env_def)

lemma sample_strings_codec: "env_parse_strings sample_env (env_json_strings sample_env xs) = Some xs"
  by (simp add: dec_enc_strs)

section \<open>Database\<close>

definition empty_db :: database where
  "empty_db =
     \<lparr>db_users = [], db_users_seq = 0, db_sessions = [], db_roles = [], db_permissions = [],
      db_user_roles = [], db_role_permissions = [], db_oauth_states = [], db_connections = [],
      db_pending_signups = [], db_outbox = [], db_inbox = [], db_audit_logs = []\<rparr>"

definition sample_user :: "int \<Rightarrow> string \<Rightarrow> user_row" where
  "sample_user i n = (new_user_row (enc_int i) n (CHR ''#'' # n) 0)\<lparr>ur_id := i\<rparr>"

definition sample_session :: "string \<Rightarrow> int \<Rightarrow> session_row" where
  "sample_session token user_id =
     \<lparr>sr_pid = token, sr_token = token, sr_user_id = user_id, sr_created_at = 0,
      sr_expires_at = seconds 100, sr_max_expires_at = seconds 200\<rparr>"

text \<open>Two users, \<^verbatim>\<open>ann\<close> with the role \<^verbatim>\<open>ops\<close> that may manage users and roles, and \<^verbatim>\<open>bob\<close>.\<close>

definition sample_db :: database where
  "sample_db = empty_db
     \<lparr>db_users := [sample_user 1 ''ann'', sample_user 2 ''bob''], db_users_seq := 2,
      db_roles := [\<lparr>rr_name = ''ops'', rr_created_at = 0, rr_deleted_at = None\<rparr>],
      db_permissions := all_names,
      db_user_roles := [\<lparr>url_user_id = 1, url_role_name = ''ops'', url_created_at = 0\<rparr>],
      db_role_permissions :=
        map (\<lambda>p. \<lparr>rp_role_name = ''ops'', rp_permission_name = p, rp_created_at = 0\<rparr>) all_names\<rparr>"

definition world_of :: "database \<Rightarrow> world" where
  "world_of d = \<lparr>w_tick = 0, w_db = d, w_cache = (\<lambda>_. None), w_mails = [], w_handled = []\<rparr>"

text \<open>One user with a live session.\<close>

definition session_db :: database where
  "session_db = empty_db\<lparr>db_users := [sample_user 1 ''ann''], db_users_seq := 1,
     db_sessions := [sample_session ''t'' 1]\<rparr>"

definition session_world :: world where
  "session_world = world_of session_db"

lemma world_of_simps [simp]:
  "w_tick (world_of d) = 0" "w_db (world_of d) = d" "w_cache (world_of d) k = None"
  by (simp_all add: world_of_def)

lemma run_result: "fst p = r \<Longrightarrow> p = (r, snd p)"
  by (simp add: prod_eq_iff)

lemma run_ok: "\<not> isl (fst p) \<Longrightarrow> \<exists>x. p = (Inr x, snd p)"
  by (cases p; cases "fst p") auto

end
