(* ===== verification/Session_Repository.thy ===== *)
theory Session_Repository
  imports Sample_World
begin

text \<open>
  The session repository (\<^verbatim>\<open>domain/src/identity/sessions\<close>) and its two adapters in
  \<^verbatim>\<open>sqlx/src/identity/sessions/repository.rs\<close>: SQLite reads the clock of the process and binds it,
  Postgres uses \<^verbatim>\<open>NOW()\<close> and generates the session id in the server. The trait is the locale
  \<open>session_store\<close>; its laws are stated on the map from tokens to session rows and both adapters
  interpret it.
\<close>

section \<open>Rows and joins\<close>

definition db_error :: "env \<Rightarrow> sqlx_error \<Rightarrow> domain_error" where
  "db_error E e = DomValidation (env_error_text E e)"

definition to_session :: "session_row \<Rightarrow> user_row \<Rightarrow> session" where
  "to_session s u =
     \<lparr>s_pid = sr_pid s, s_token = sr_token s, s_username = ur_username u,
      s_created_at = sr_created_at s, s_expires_at = sr_expires_at s,
      s_max_expires_at = sr_max_expires_at s\<rparr>"

definition live :: "instant \<Rightarrow> session_row \<Rightarrow> bool" where
  "live now s \<longleftrightarrow> sr_expires_at s > now \<and> sr_max_expires_at s > now"

text \<open>\<^verbatim>\<open>sessions s JOIN users u ON u.id = s.user_id WHERE P s AND Q u\<close>.\<close>

definition session_join ::
    "database \<Rightarrow> (session_row \<Rightarrow> bool) \<Rightarrow> (user_row \<Rightarrow> bool) \<Rightarrow> session list" where
  "session_join d P Q =
     concat (map (\<lambda>s. map (to_session s) (filter (\<lambda>u. ur_id u = sr_user_id s \<and> Q u) (db_users d)))
       (filter P (db_sessions d)))"

section \<open>The SQLite adapter\<close>

definition sqlite_sessions_find_by_token ::
    "env \<Rightarrow> string \<Rightarrow> (domain_error, session option) action" where
  "sqlite_sessions_find_by_token E token =
     bindE (utc_now E) (\<lambda>now.
       map_err (db_error E) (query E (\<lambda>d. fetch_optional
         (session_join d (\<lambda>s. sr_token s = token \<and> live now s) (\<lambda>u. ur_deleted_at u = None)))))"

definition sqlite_sessions_exists :: "env \<Rightarrow> string \<Rightarrow> (domain_error, bool) action" where
  "sqlite_sessions_exists E token =
     bindE (utc_now E) (\<lambda>now.
       map_err (db_error E) (query E (\<lambda>d.
         \<exists>s \<in> set (db_sessions d). sr_token s = token \<and> live now s)))"

definition sqlite_sessions_insert ::
    "env \<Rightarrow> string \<Rightarrow> string \<Rightarrow> instant \<Rightarrow> instant \<Rightarrow> (domain_error, unit) action" where
  "sqlite_sessions_insert E token username expires_at max_expires_at =
     bindE (new_uuid E) (\<lambda>pid. bindE (utc_now E) (\<lambda>now.
       bindE (map_err (db_error E) (sql E (\<lambda>_ d.
         (let rows = map (\<lambda>u. \<lparr>sr_pid = pid, sr_token = token, sr_user_id = ur_id u,
                 sr_created_at = now, sr_expires_at = expires_at, sr_max_expires_at = max_expires_at\<rparr>)
               (filter (\<lambda>u. ur_username u = username \<and> ur_deleted_at u = None) (db_users d))
          in (length rows, d\<lparr>db_sessions := db_sessions d @ rows\<rparr>))))) (\<lambda>affected.
       ensure (affected = 1) (DomNotFound ''User not found''))))"

definition sqlite_sessions_update_token ::
    "env \<Rightarrow> string \<Rightarrow> string \<Rightarrow> instant \<Rightarrow> instant \<Rightarrow> (domain_error, bool) action" where
  "sqlite_sessions_update_token E old_token new_token expires_at max_expires_at =
     bindE (utc_now E) (\<lambda>now.
       map_err (db_error E) (sql E (\<lambda>_ d.
         (let P = (\<lambda>s. sr_token s = old_token \<and> live now s)
          in (rows_affected P (db_sessions d) > 0,
              d\<lparr>db_sessions := update_where P
                 (\<lambda>s. s\<lparr>sr_token := new_token, sr_expires_at := expires_at,
                        sr_max_expires_at := max_expires_at\<rparr>) (db_sessions d)\<rparr>)))))"

definition sqlite_sessions_refresh ::
    "env \<Rightarrow> string \<Rightarrow> instant \<Rightarrow> (domain_error, bool) action" where
  "sqlite_sessions_refresh E token expires_at =
     bindE (utc_now E) (\<lambda>now.
       map_err (db_error E) (sql E (\<lambda>_ d.
         (let P = (\<lambda>s. sr_token s = token \<and> live now s)
          in (rows_affected P (db_sessions d) > 0,
              d\<lparr>db_sessions := update_where P
                 (\<lambda>s. s\<lparr>sr_expires_at := (if expires_at < sr_max_expires_at s then expires_at
                                          else sr_max_expires_at s)\<rparr>) (db_sessions d)\<rparr>)))))"

definition sqlite_sessions_delete :: "env \<Rightarrow> string \<Rightarrow> (domain_error, bool) action" where
  "sqlite_sessions_delete E token =
     map_err (db_error E) (sql E (\<lambda>_ d.
       (rows_affected (\<lambda>s. sr_token s = token) (db_sessions d) > 0,
        d\<lparr>db_sessions := delete_where (\<lambda>s. sr_token s = token) (db_sessions d)\<rparr>)))"

definition sqlite_sessions_list_for_user ::
    "env \<Rightarrow> string \<Rightarrow> (domain_error, session list) action" where
  "sqlite_sessions_list_for_user E username =
     bindE (utc_now E) (\<lambda>now.
       map_err (db_error E) (query_at E (\<lambda>n d.
         sort_key (\<lambda>s. - s_created_at s)
           (row_order E n (session_join d (live now) (\<lambda>u. ur_username u = username))))))"

definition sqlite_sessions_delete_for_user ::
    "env \<Rightarrow> string \<Rightarrow> uuid \<Rightarrow> (domain_error, bool) action" where
  "sqlite_sessions_delete_for_user E username pid =
     map_err (db_error E) (sql E (\<lambda>_ d.
       (let owner = map_option ur_id (find (\<lambda>u. ur_username u = username) (db_users d));
            P = (\<lambda>s. sr_pid s = pid \<and> owner = Some (sr_user_id s))
        in (rows_affected P (db_sessions d) > 0,
            d\<lparr>db_sessions := delete_where P (db_sessions d)\<rparr>))))"

section \<open>The Postgres adapter\<close>

text \<open>
  \<^verbatim>\<open>TIMESTAMPTZ\<close> keeps whole microseconds from the first of January 2000. A bound value loses the rest, rounded
  towards that day, and \<^verbatim>\<open>NOW()\<close> has none. SQLite keeps the text of all nanoseconds.
\<close>

definition PG_EPOCH :: instant where "PG_EPOCH = seconds 946684800"

definition pg_time :: "instant \<Rightarrow> instant" where
  "pg_time t = PG_EPOCH + 1000 * rust_div (t - PG_EPOCH) 1000"

definition pg_now :: "env \<Rightarrow> nat \<Rightarrow> instant" where
  "pg_now E n = pg_time (env_now E n)"

definition pg_user_id_by_username :: "env \<Rightarrow> string \<Rightarrow> (domain_error, int) action" where
  "pg_user_id_by_username E username =
     bindE (map_err (db_error E) (query E (\<lambda>d. map_option ur_id
         (find (\<lambda>u. ur_username u = username \<and> ur_deleted_at u = None) (db_users d))))) (\<lambda>user.
       ok_or user (DomNotFound ''User not found''))"

definition pg_sessions_find_by_token ::
    "env \<Rightarrow> string \<Rightarrow> (domain_error, session option) action" where
  "pg_sessions_find_by_token E token =
     map_err (db_error E) (query_at E (\<lambda>n d. fetch_optional
       (session_join d (\<lambda>s. sr_token s = token \<and> live (pg_now E n) s)
         (\<lambda>u. ur_deleted_at u = None))))"

definition pg_sessions_exists :: "env \<Rightarrow> string \<Rightarrow> (domain_error, bool) action" where
  "pg_sessions_exists E token =
     map_err (db_error E) (query_at E (\<lambda>n d.
       \<exists>s \<in> set (db_sessions d). sr_token s = token \<and> live (pg_now E n) s))"

definition pg_sessions_insert ::
    "env \<Rightarrow> string \<Rightarrow> string \<Rightarrow> instant \<Rightarrow> instant \<Rightarrow> (domain_error, unit) action" where
  "pg_sessions_insert E token username expires_at max_expires_at =
     bindE (pg_user_id_by_username E username) (\<lambda>user_id.
       map_err (db_error E) (sql E (\<lambda>n d.
         ((), d\<lparr>db_sessions := db_sessions d @
            [\<lparr>sr_pid = env_uuid E n, sr_token = token, sr_user_id = user_id,
              sr_created_at = pg_now E n, sr_expires_at = pg_time expires_at,
              sr_max_expires_at = pg_time max_expires_at\<rparr>]\<rparr>))))"

definition pg_sessions_update_token ::
    "env \<Rightarrow> string \<Rightarrow> string \<Rightarrow> instant \<Rightarrow> instant \<Rightarrow> (domain_error, bool) action" where
  "pg_sessions_update_token E old_token new_token expires_at max_expires_at =
     map_err (db_error E) (sql E (\<lambda>n d.
       (let P = (\<lambda>s. sr_token s = old_token \<and> live (pg_now E n) s)
        in (rows_affected P (db_sessions d) > 0,
            d\<lparr>db_sessions := update_where P
               (\<lambda>s. s\<lparr>sr_token := new_token, sr_expires_at := pg_time expires_at,
                      sr_max_expires_at := pg_time max_expires_at\<rparr>) (db_sessions d)\<rparr>))))"

definition pg_sessions_refresh :: "env \<Rightarrow> string \<Rightarrow> instant \<Rightarrow> (domain_error, bool) action" where
  "pg_sessions_refresh E token expires_at =
     map_err (db_error E) (sql E (\<lambda>n d.
       (let P = (\<lambda>s. sr_token s = token \<and> live (pg_now E n) s)
        in (rows_affected P (db_sessions d) > 0,
            d\<lparr>db_sessions := update_where P
               (\<lambda>s. s\<lparr>sr_expires_at := min (pg_time expires_at) (sr_max_expires_at s)\<rparr>) (db_sessions d)\<rparr>))))"

definition pg_sessions_delete :: "env \<Rightarrow> string \<Rightarrow> (domain_error, bool) action" where
  "pg_sessions_delete E token =
     map_err (db_error E) (sql E (\<lambda>_ d.
       (rows_affected (\<lambda>s. sr_token s = token) (db_sessions d) > 0,
        d\<lparr>db_sessions := delete_where (\<lambda>s. sr_token s = token) (db_sessions d)\<rparr>)))"

definition pg_sessions_list_for_user ::
    "env \<Rightarrow> string \<Rightarrow> (domain_error, session list) action" where
  "pg_sessions_list_for_user E username =
     map_err (db_error E) (query_at E (\<lambda>n d.
       sort_key (\<lambda>s. - s_created_at s)
         (row_order E n (session_join d (live (pg_now E n)) (\<lambda>u. ur_username u = username)))))"

definition pg_sessions_delete_for_user ::
    "env \<Rightarrow> string \<Rightarrow> uuid \<Rightarrow> (domain_error, bool) action" where
  "pg_sessions_delete_for_user E username pid =
     map_err (db_error E) (sql E (\<lambda>_ d.
       (let P = (\<lambda>s. sr_pid s = pid \<and>
              (\<exists>u \<in> set (db_users d). ur_id u = sr_user_id s \<and> ur_username u = username))
        in (rows_affected P (db_sessions d) > 0,
            d\<lparr>db_sessions := delete_where P (db_sessions d)\<rparr>))))"

section \<open>The contract\<close>

text \<open>The abstract state of the repository: the session row of each token and its owner.\<close>

definition session_at :: "database \<Rightarrow> string \<Rightarrow> session_row option" where
  "session_at d token = find (\<lambda>s. sr_token s = token) (db_sessions d)"

definition session_owner :: "database \<Rightarrow> session_row \<Rightarrow> user_row option" where
  "session_owner d s = find (\<lambda>u. ur_id u = sr_user_id s) (db_users d)"

definition session_view :: "instant \<Rightarrow> database \<Rightarrow> string \<Rightarrow> session option" where
  "session_view now d token =
     (case session_at d token of
        None \<Rightarrow> None
      | Some s \<Rightarrow>
          (case session_owner d s of
             None \<Rightarrow> None
           | Some u \<Rightarrow> if live now s \<and> ur_deleted_at u = None then Some (to_session s u) else None))"

definition live_at :: "instant \<Rightarrow> database \<Rightarrow> string \<Rightarrow> bool" where
  "live_at now d token \<longleftrightarrow> is_some_and (live now) (session_at d token)"

definition only_sessions :: "database \<Rightarrow> database \<Rightarrow> bool" where
  "only_sessions d d' \<longleftrightarrow> d' = d\<lparr>db_sessions := db_sessions d'\<rparr>"

definition session_inserted ::
    "string \<Rightarrow> string \<Rightarrow> instant \<Rightarrow> instant \<Rightarrow> database \<Rightarrow> database \<Rightarrow> bool" where
  "session_inserted tok n e m d d' \<longleftrightarrow>
     schema_ok d' \<and> only_sessions d d' \<and> session_at d tok = None \<and>
     (\<exists>v s. user_at d n = Some v \<and> ur_deleted_at v = None \<and> sr_token s = tok \<and>
        sr_user_id s = ur_id v \<and> sr_expires_at s = e \<and> sr_max_expires_at s = m \<and>
        session_at d' = (session_at d)(tok \<mapsto> s))"

locale session_store =
  fixes E :: env
    and kept :: "instant \<Rightarrow> instant"
    and find_by_token :: "string \<Rightarrow> (domain_error, session option) action"
    and exists :: "string \<Rightarrow> (domain_error, bool) action"
    and insert :: "string \<Rightarrow> string \<Rightarrow> instant \<Rightarrow> instant \<Rightarrow> (domain_error, unit) action"
    and update_token :: "string \<Rightarrow> string \<Rightarrow> instant \<Rightarrow> instant \<Rightarrow> (domain_error, bool) action"
    and refresh :: "string \<Rightarrow> instant \<Rightarrow> (domain_error, bool) action"
    and delete :: "string \<Rightarrow> (domain_error, bool) action"
    and delete_for_user :: "string \<Rightarrow> uuid \<Rightarrow> (domain_error, bool) action"
  assumes find_law:
      "schema_ok (w_db w) \<Longrightarrow> find_by_token tok w = (Inr r, w') \<Longrightarrow>
         r = session_view (kept (env_now E (w_tick w))) (w_db w) tok \<and> w_db w' = w_db w"
    and exists_law:
      "exists tok w = (Inr b, w') \<Longrightarrow> schema_ok (w_db w) \<Longrightarrow>
         b = live_at (kept (env_now E (w_tick w))) (w_db w) tok \<and> w_db w' = w_db w"
    and insert_law:
      "schema_ok (w_db w) \<Longrightarrow> insert tok n e m w = (Inr u, w') \<Longrightarrow>
         session_inserted tok n (kept e) (kept m) (w_db w) (w_db w')"
    and update_token_law:
      "schema_ok (w_db w) \<Longrightarrow> update_token old new e m w = (Inr b, w') \<Longrightarrow>
         schema_ok (w_db w') \<and> only_sessions (w_db w) (w_db w') \<and>
         b = live_at (kept (env_now E (w_tick w))) (w_db w) old \<and>
         session_at (w_db w') =
           (case session_at (w_db w) old of
              Some s \<Rightarrow>
                (if b then ((session_at (w_db w))(old := None))
                   (new \<mapsto> s\<lparr>sr_token := new, sr_expires_at := kept e, sr_max_expires_at := kept m\<rparr>)
                 else session_at (w_db w))
            | None \<Rightarrow> session_at (w_db w))"
    and refresh_law:
      "schema_ok (w_db w) \<Longrightarrow> refresh tok e w = (Inr b, w') \<Longrightarrow>
         schema_ok (w_db w') \<and> only_sessions (w_db w) (w_db w') \<and>
         b = live_at (kept (env_now E (w_tick w))) (w_db w) tok \<and>
         session_at (w_db w') =
           (case session_at (w_db w) tok of
              Some s \<Rightarrow>
                (if b then (session_at (w_db w))
                   (tok \<mapsto> s\<lparr>sr_expires_at := min (kept e) (sr_max_expires_at s)\<rparr>)
                 else session_at (w_db w))
            | None \<Rightarrow> session_at (w_db w))"
    and delete_law:
      "schema_ok (w_db w) \<Longrightarrow> delete tok w = (Inr b, w') \<Longrightarrow>
         schema_ok (w_db w') \<and> only_sessions (w_db w) (w_db w') \<and>
         b = (session_at (w_db w) tok \<noteq> None) \<and>
         session_at (w_db w') = (session_at (w_db w))(tok := None)"
    and delete_for_user_law:
      "schema_ok (w_db w) \<Longrightarrow> delete_for_user n pid w = (Inr b, w') \<Longrightarrow>
         schema_ok (w_db w') \<and> only_sessions (w_db w) (w_db w') \<and>
         (\<forall>tok s. session_at (w_db w') tok = Some s \<longleftrightarrow>
            session_at (w_db w) tok = Some s \<and>
            \<not> (sr_pid s = pid \<and> (\<exists>u. session_owner (w_db w) s = Some u \<and> ur_username u = n)))"
begin

lemma insert_find:
  assumes ok: "schema_ok (w_db w)" and ins: "insert tok n e m w = (Inr u, w1)"
    and find: "find_by_token tok w1 = (Inr r, w2)"
  shows "(\<exists>x. r = Some x \<and> s_username x = n \<and> s_token x = tok \<and> s_expires_at x = kept e) \<longleftrightarrow>
    kept (env_now E (w_tick w1)) < kept e \<and> kept (env_now E (w_tick w1)) < kept m"
proof -
  from insert_law [OF ok ins] obtain v s where
    ok1: "schema_ok (w_db w1)" and only: "only_sessions (w_db w) (w_db w1)" and
    v: "user_at (w_db w) n = Some v" "ur_deleted_at v = None" and
    s: "sr_user_id s = ur_id v" "sr_expires_at s = kept e" "sr_max_expires_at s = kept m" "sr_token s = tok" and
    at: "session_at (w_db w1) = (session_at (w_db w))(tok \<mapsto> s)"
    unfolding session_inserted_def by blast
  have users: "db_users (w_db w1) = db_users (w_db w)"
    using only unfolding only_sessions_def by (metis database.ext_inject database.surjective
        database.update_convs(3))
  from v have "v \<in> set (db_users (w_db w))" "ur_username v = n"
    by (auto simp: user_at_def dest: find_key_Some)
  moreover have "distinct (map ur_id (db_users (w_db w)))" using ok by (rule schema_ok_users)
  ultimately have "session_owner (w_db w1) s = Some v"
    unfolding session_owner_def users by (intro find_unique [where k = ur_id]) (auto simp: s)
  with find_law [OF ok1 find] at v s \<open>ur_username v = n\<close> show ?thesis
    by (auto simp: session_view_def live_def to_session_def)
qed

lemma delete_find:
  assumes "schema_ok (w_db w)" "delete tok w = (Inr b, w1)"
    "session_at (w_db w2) tok = session_at (w_db w1) tok" "schema_ok (w_db w2)"
    "find_by_token tok w2 = (Inr r, w3)"
  shows "r = None"
  using delete_law [OF assms(1,2)] find_law [OF assms(4,5)] assms(3)
  by (simp add: session_view_def)

lemma update_token_moves:
  assumes "schema_ok (w_db w)" "update_token old new e m w = (Inr True, w1)" "old \<noteq> new"
  shows "session_at (w_db w1) old = None \<and>
    (\<exists>s. session_at (w_db w) old = Some s \<and>
       session_at (w_db w1) new =
         Some (s\<lparr>sr_token := new, sr_expires_at := kept e, sr_max_expires_at := kept m\<rparr>))"
  using update_token_law [OF assms(1,2)] assms(3) by (auto simp: live_at_def)

lemma refresh_capped:
  assumes "schema_ok (w_db w)" "refresh tok e w = (Inr b, w1)"
    "session_at (w_db w1) tok' = Some s'"
  shows "\<exists>s. session_at (w_db w) tok' = Some s \<and> sr_max_expires_at s' = sr_max_expires_at s \<and>
    (sr_expires_at s' = sr_expires_at s \<or> sr_expires_at s' \<le> sr_max_expires_at s')"
  using refresh_law [OF assms(1,2)] assms(3) by (auto split: option.splits if_splits)

end

section \<open>Both adapters keep the contract\<close>

lemma session_join_view:
  assumes ok: "schema_ok d"
  shows "fetch_optional (session_join d (\<lambda>s. sr_token s = tok \<and> live now s)
           (\<lambda>u. ur_deleted_at u = None)) = session_view now d tok"
proof -
  have "distinct (map sr_token (db_sessions d))" "distinct (map ur_id (db_users d))"
    using schema_ok_sessions [OF ok] schema_ok_users [OF ok] by auto
  then show ?thesis
    by (simp add: session_join_def session_view_def session_at_def session_owner_def
        filter_unique_key split: option.split)
qed

lemma only_sessions_upd [simp]: "only_sessions d (d\<lparr>db_sessions := ss\<rparr>)"
  by (simp add: only_sessions_def)

lemma session_at_mem:
  "schema_ok d \<Longrightarrow> session_at d tok = Some s \<longleftrightarrow> s \<in> set (db_sessions d) \<and> sr_token s = tok"
  unfolding session_at_def
  by (auto dest: find_key_Some intro!: find_unique [where k = sr_token] schema_ok_sessions(1))

lemma live_at_iff: "schema_ok d \<Longrightarrow>
    live_at now d tok \<longleftrightarrow> (\<exists>s \<in> set (db_sessions d). sr_token s = tok \<and> live now s)"
  by (auto simp: live_at_def session_at_mem)

lemma session_owner_mem:
  "schema_ok d \<Longrightarrow> session_owner d s = Some u \<longleftrightarrow> u \<in> set (db_users d) \<and> ur_id u = sr_user_id s"
  unfolding session_owner_def
  by (auto dest: find_key_Some intro!: find_unique [where k = ur_id] schema_ok_users(1))

lemma session_at_append:
  assumes "schema_ok (d\<lparr>db_sessions := db_sessions d @ [s]\<rparr>)"
  shows "session_at d (sr_token s) = None"
    "session_at (d\<lparr>db_sessions := db_sessions d @ [s]\<rparr>) = (session_at d)(sr_token s \<mapsto> s)"
proof -
  have "distinct (map sr_token (db_sessions d @ [s]))"
    using schema_ok_sessions(1) [OF assms] by simp
  then show none: "session_at d (sr_token s) = None"
    by (auto simp: session_at_def find_None_iff2) (metis imageI)
  show "session_at (d\<lparr>db_sessions := db_sessions d @ [s]\<rparr>) = (session_at d)(sr_token s \<mapsto> s)"
    using none by (rule_tac ext) (auto simp: session_at_def find_append split: option.split)
qed

lemma session_at_update:
  assumes ok: "schema_ok d" and ok': "schema_ok d'"
    and d': "d' = d\<lparr>db_sessions := update_where (\<lambda>s. sr_token s = old \<and> live now s) g (db_sessions d)\<rparr>"
    and g: "\<And>s. sr_token s = old \<Longrightarrow> sr_token (g s) = new"
  shows "session_at d' =
    (case session_at d old of
       Some s \<Rightarrow> (if live_at now d old then ((session_at d)(old := None))(new \<mapsto> g s) else session_at d)
     | None \<Rightarrow> session_at d)"
proof (cases "live_at now d old")
  case False
  then have "d' = d"
    unfolding d' using live_at_iff [OF ok, of now old] by (subst update_where_none) auto
  with False show ?thesis by (auto split: option.split)
next
  case True
  then obtain s where s: "session_at d old = Some s" "live now s" by (auto simp: live_at_def)
  then have mem: "s \<in> set (db_sessions d)" "sr_token s = old"
    using session_at_mem [OF ok] by auto
  have set': "set (db_sessions d') = {t \<in> set (db_sessions d). sr_token t \<noteq> old} \<union> {g s}"
    using mem s(2) session_by_token [OF ok] unfolding d' by (auto simp: set_update_where)
  have new: "session_at d' new = Some (g s)"
    using set' g [OF mem(2)] by (simp add: session_at_mem [OF ok'])
  have "session_at d' tok = (((session_at d)(old := None))(new \<mapsto> g s)) tok" for tok
  proof (cases "tok = new")
    case False
    then have "session_at d' tok = Some r \<longleftrightarrow> (((session_at d)(old := None))(new \<mapsto> g s)) tok = Some r" for r
      using set' g [OF mem(2)] by (auto simp: session_at_mem [OF ok] session_at_mem [OF ok'])
    then show ?thesis by (metis not_Some_eq)
  qed (simp add: new)
  then show ?thesis using s True by auto
qed

lemma session_at_delete:
  assumes ok: "schema_ok d" and d': "d' = d\<lparr>db_sessions := delete_where P (db_sessions d)\<rparr>"
  shows "session_at d' tok =
    (case session_at d tok of None \<Rightarrow> None | Some s \<Rightarrow> if P s then None else Some s)"
  unfolding d' session_at_def by (simp add: find_key_delete_where schema_ok_sessions(1) [OF ok])

lemma affected_live:
  "schema_ok d \<Longrightarrow> 0 < rows_affected (\<lambda>s. sr_token s = tok \<and> live now s) (db_sessions d) \<longleftrightarrow>
     live_at now d tok"
  by (auto simp: rows_affected_pos live_at_iff)

lemma affected_token:
  "schema_ok d \<Longrightarrow>
     0 < rows_affected (\<lambda>s. sr_token s = tok) (db_sessions d) \<longleftrightarrow> session_at d tok \<noteq> None"
  by (simp add: rows_affected_pos session_at_def find_None_iff2)

text \<open>The effect of each statement on the abstract state, whatever clock the adapter reads.\<close>

lemma inserted_session:
  assumes "user_at d n = Some v" "ur_deleted_at v = None" "schema_ok d'"
    "d' = d\<lparr>db_sessions := db_sessions d @ [s]\<rparr>" "sr_token s = tok" "sr_user_id s = ur_id v"
    "sr_expires_at s = e" "sr_max_expires_at s = m"
  shows "session_inserted tok n e m d d'"
proof -
  have "session_at d tok = None" "session_at d' = (session_at d)(tok \<mapsto> s)"
    using session_at_append [of d s] assms(3,4,5) by auto
  moreover have "only_sessions d d'" by (simp add: assms(4))
  ultimately show ?thesis using assms unfolding session_inserted_def by blast
qed

lemma renewed_session:
  assumes "schema_ok d" "schema_ok d'"
    "d' = d\<lparr>db_sessions := update_where (\<lambda>s. sr_token s = old \<and> live now s)
      (\<lambda>s. s\<lparr>sr_token := new, sr_expires_at := e, sr_max_expires_at := m\<rparr>) (db_sessions d)\<rparr>"
    "b = (0 < rows_affected (\<lambda>s. sr_token s = old \<and> live now s) (db_sessions d))"
  shows "schema_ok d' \<and> only_sessions d d' \<and> b = live_at now d old \<and>
    session_at d' =
      (case session_at d old of
         Some s \<Rightarrow>
           (if b then ((session_at d)(old := None))
              (new \<mapsto> s\<lparr>sr_token := new, sr_expires_at := e, sr_max_expires_at := m\<rparr>)
            else session_at d)
       | None \<Rightarrow> session_at d)"
proof -
  have b: "b = live_at now d old" using assms(4) affected_live [OF assms(1)] by simp
  show ?thesis
    using session_at_update [OF assms(1-3), of new] assms(2) unfolding b
    by (auto simp: assms(3) split: option.splits)
qed

lemma refreshed_session:
  assumes "schema_ok d" "schema_ok d'"
    "d' = d\<lparr>db_sessions := update_where (\<lambda>s. sr_token s = tok \<and> live now s)
      (\<lambda>s. s\<lparr>sr_expires_at := min e (sr_max_expires_at s)\<rparr>) (db_sessions d)\<rparr>"
    "b = (0 < rows_affected (\<lambda>s. sr_token s = tok \<and> live now s) (db_sessions d))"
  shows "schema_ok d' \<and> only_sessions d d' \<and> b = live_at now d tok \<and>
    session_at d' =
      (case session_at d tok of
         Some s \<Rightarrow>
           (if b then (session_at d)(tok \<mapsto> s\<lparr>sr_expires_at := min e (sr_max_expires_at s)\<rparr>)
            else session_at d)
       | None \<Rightarrow> session_at d)"
proof -
  have b: "b = live_at now d tok" using assms(4) affected_live [OF assms(1)] by simp
  show ?thesis
    using session_at_update [OF assms(1-3), of tok] assms(2) unfolding b
    by (auto simp: assms(3) split: option.splits)
qed

lemma deleted_session:
  assumes "schema_ok d" "schema_ok d'"
    "d' = d\<lparr>db_sessions := delete_where (\<lambda>s. sr_token s = tok) (db_sessions d)\<rparr>"
    "b = (0 < rows_affected (\<lambda>s. sr_token s = tok) (db_sessions d))"
  shows "schema_ok d' \<and> only_sessions d d' \<and> b = (session_at d tok \<noteq> None) \<and>
    session_at d' = (session_at d)(tok := None)"
proof -
  have "session_at d' t = ((session_at d)(tok := None)) t" for t
  proof (cases "session_at d t")
    case None
    then show ?thesis by (simp add: session_at_delete [OF assms(1,3)])
  next
    case (Some s)
    then show ?thesis
      using session_at_mem [OF assms(1), of t s] by (simp add: session_at_delete [OF assms(1,3)])
  qed
  moreover have "b = (session_at d tok \<noteq> None)"
    using affected_token [OF assms(1)] assms(4) by simp
  moreover have "only_sessions d d'" by (simp add: assms(3))
  ultimately show ?thesis using assms(2) by (simp add: fun_eq_iff)
qed

lemma revoked_session:
  assumes "schema_ok d" "schema_ok d'"
    "d' = d\<lparr>db_sessions := delete_where P (db_sessions d)\<rparr>"
    "\<And>s. P s \<longleftrightarrow> sr_pid s = pid \<and> (\<exists>u \<in> set (db_users d). ur_id u = sr_user_id s \<and> ur_username u = n)"
  shows "schema_ok d' \<and> only_sessions d d' \<and>
    (\<forall>tok s. session_at d' tok = Some s \<longleftrightarrow> session_at d tok = Some s \<and>
       \<not> (sr_pid s = pid \<and> (\<exists>u. session_owner d s = Some u \<and> ur_username u = n)))"
proof -
  have P: "P s \<longleftrightarrow> sr_pid s = pid \<and> (\<exists>u. session_owner d s = Some u \<and> ur_username u = n)" for s
    unfolding assms(4) session_owner_mem [OF assms(1)] by blast
  have "session_at d' tok = Some s \<longleftrightarrow> session_at d tok = Some s \<and> \<not> P s" for tok s
    unfolding session_at_delete [OF assms(1,3)] by (auto split: option.splits)
  moreover have "only_sessions d d'" by (simp add: assms(3))
  ultimately show ?thesis using assms(2) unfolding P by blast
qed

lemma owner_by_name:
  assumes "schema_ok d"
  shows "map_option ur_id (find (\<lambda>u. ur_username u = n) (db_users d)) = Some i \<longleftrightarrow>
    (\<exists>u \<in> set (db_users d). ur_id u = i \<and> ur_username u = n)"
  using user_at_mem [OF assms, of n] unfolding user_at_def by auto

lemma cap_min: "(if e < m then e else m) = min e (m :: instant)"
  by (simp add: min_def)

interpretation sqlite_sessions: session_store E "\<lambda>t. t"
  "sqlite_sessions_find_by_token E" "sqlite_sessions_exists E" "sqlite_sessions_insert E"
  "sqlite_sessions_update_token E" "sqlite_sessions_refresh E" "sqlite_sessions_delete E"
  "sqlite_sessions_delete_for_user E" for E
proof (unfold_locales, goal_cases find exists insert update refresh delete delete_for)
  case (find w tok r w')
  then show ?case
    by (auto simp: sqlite_sessions_find_by_token_def exec_simps session_join_view)
next
  case (exists tok w b w')
  then show ?case by (auto simp: sqlite_sessions_exists_def exec_simps live_at_iff)
next
  case (insert w tok n e m u w')
  then show ?case
    by (clarsimp simp: sqlite_sessions_insert_def exec_simps Let_def filter_active
        split: option.split_asm if_split_asm)
      (rule inserted_session, assumption+, rule refl, simp_all)
next
  case (update w old new e m b w')
  then show ?case
    by (intro renewed_session) (auto simp: sqlite_sessions_update_token_def exec_simps Let_def)
next
  case (refresh w tok e b w')
  then show ?case
    by (intro refreshed_session)
      (auto simp: sqlite_sessions_refresh_def exec_simps Let_def cap_min)
next
  case (delete w tok b w')
  then show ?case
    by (intro deleted_session) (auto simp: sqlite_sessions_delete_def exec_simps)
next
  case (delete_for w n pid b w')
  then show ?case
    by (intro revoked_session
        [where P = "\<lambda>s. sr_pid s = pid \<and>
           map_option ur_id (find (\<lambda>u. ur_username u = n) (db_users (w_db w))) = Some (sr_user_id s)"])
      (auto simp: sqlite_sessions_delete_for_user_def exec_simps Let_def owner_by_name
        simp del: map_option_eq_Some)
qed

interpretation pg_sessions: session_store E pg_time
  "pg_sessions_find_by_token E" "pg_sessions_exists E" "pg_sessions_insert E"
  "pg_sessions_update_token E" "pg_sessions_refresh E" "pg_sessions_delete E"
  "pg_sessions_delete_for_user E" for E
proof (unfold_locales, goal_cases find exists insert update refresh delete delete_for)
  case (find w tok r w')
  then show ?case by (auto simp: pg_sessions_find_by_token_def pg_now_def exec_simps session_join_view)
next
  case (exists tok w b w')
  then show ?case by (auto simp: pg_sessions_exists_def pg_now_def exec_simps live_at_iff)
next
  case (insert w tok n e m u w')
  then show ?case
    by (clarsimp simp: pg_sessions_insert_def pg_user_id_by_username_def exec_simps find_active
        split: option.splits if_splits)
      (rule inserted_session, assumption+, rule refl, simp_all)
next
  case (update w old new e m b w')
  then show ?case
    by (intro renewed_session) (auto simp: pg_sessions_update_token_def pg_now_def exec_simps Let_def)
next
  case (refresh w tok e b w')
  then show ?case
    by (intro refreshed_session) (auto simp: pg_sessions_refresh_def pg_now_def exec_simps Let_def)
next
  case (delete w tok b w')
  then show ?case
    by (intro deleted_session) (auto simp: pg_sessions_delete_def exec_simps)
next
  case (delete_for w n pid b w')
  then show ?case
    by (intro revoked_session
        [where P = "\<lambda>s. sr_pid s = pid \<and>
           (\<exists>u \<in> set (db_users (w_db w)). ur_id u = sr_user_id s \<and> ur_username u = n)"])
      (auto simp: pg_sessions_delete_for_user_def exec_simps Let_def)
qed

section \<open>Runs\<close>

lemma only_sessions_tables:
  assumes "only_sessions d d'"
  shows "db_users d' = db_users d" "db_roles d' = db_roles d" "db_user_roles d' = db_user_roles d"
    "db_role_permissions d' = db_role_permissions d" "db_connections d' = db_connections d"
    "db_outbox d' = db_outbox d"
proof -
  obtain ss where "d' = d\<lparr>db_sessions := ss\<rparr>" using assms by (auto simp: only_sessions_def)
  then show "db_users d' = db_users d" "db_roles d' = db_roles d" "db_user_roles d' = db_user_roles d"
    "db_role_permissions d' = db_role_permissions d" "db_connections d' = db_connections d"
    "db_outbox d' = db_outbox d" by simp_all
qed

lemma schema_ok_sessions_cong:
  assumes "schema_ok d" "map sr_pid ss = map sr_pid (db_sessions d)"
    "map sr_token ss = map sr_token (db_sessions d)" "map sr_user_id ss = map sr_user_id (db_sessions d)"
  shows "schema_ok (d\<lparr>db_sessions := ss\<rparr>)"
proof (rule schema_ok_db_sessions [OF assms(1)])
  have "sessions_violation (d\<lparr>db_sessions := ss\<rparr>) = sessions_violation d"
    unfolding sessions_violation_def using assms(2-4) by simp
  with assms(1) show "sessions_violation (d\<lparr>db_sessions := ss\<rparr>) = None" by (simp add: schema_ok_iff)
qed

lemma sessions_refresh_total:
  assumes "schema_ok (w_db w)" "\<And>k. env_fault E k = None"
  shows "\<exists>b w'. sqlite_sessions_refresh E tok e w = (Inr b, w')"
proof -
  let ?P = "\<lambda>s. sr_token s = tok \<and> live (env_now E (w_tick w)) s"
  let ?g = "\<lambda>s. s\<lparr>sr_expires_at := (if e < sr_max_expires_at s then e else sr_max_expires_at s)\<rparr>"
  have "schema_ok ((w_db w)\<lparr>db_sessions := update_where ?P ?g (db_sessions (w_db w))\<rparr>)"
    by (rule schema_ok_sessions_cong [OF assms(1)]) simp_all
  with assms(2) show ?thesis
    by (simp add: sqlite_sessions_refresh_def exec_defs utc_now_def sql_def Let_def schema_ok_def)
qed

lemma find_by_token_total:
  assumes "schema_ok (w_db w)" "\<And>k. env_fault E k = None"
  shows "sqlite_sessions_find_by_token E tok w =
    (Inr (session_view (env_now E (w_tick w)) (w_db w) tok), ticked (ticked w))"
  using assms by (simp add: sqlite_sessions_find_by_token_def exec_defs utc_now_def query_def
      session_join_view)

lemma schema_ok_delete_sessions:
  assumes "schema_ok d"
  shows "schema_ok (d\<lparr>db_sessions := delete_where P (db_sessions d)\<rparr>)"
proof (rule schema_ok_db_sessions [OF assms])
  have "sessions_violation d = None" using assms by (simp add: schema_ok_iff)
  then show "sessions_violation (d\<lparr>db_sessions := delete_where P (db_sessions d)\<rparr>) = None"
    by (auto simp: sessions_violation_def split: if_splits)
qed

lemma sessions_delete_total:
  assumes "schema_ok (w_db w)" "\<And>k. env_fault E k = None"
  shows "fst (sqlite_sessions_delete E tok w) = Inr (session_at (w_db w) tok \<noteq> None)"
  using schema_ok_delete_sessions [OF assms(1)] assms affected_token [OF assms(1), of tok]
  by (simp add: sqlite_sessions_delete_def map_err_def sql_def schema_ok_def)

lemma sessions_update_token_total:
  assumes ok: "schema_ok (w_db w)" and faults: "\<And>k. env_fault E k = None"
    and fresh: "session_at (w_db w) new = None"
  shows "fst (sqlite_sessions_update_token E old new e m w) = Inr (live_at (env_now E (w_tick w)) (w_db w) old)"
proof -
  let ?P = "\<lambda>s. sr_token s = old \<and> live (env_now E (w_tick w)) s"
  let ?g = "\<lambda>s. s\<lparr>sr_token := new, sr_expires_at := e, sr_max_expires_at := m\<rparr>"
  let ?ss = "update_where ?P ?g (db_sessions (w_db w))"
  have new: "new \<notin> sr_token ` set (db_sessions (w_db w))"
    using fresh by (auto simp: session_at_def find_None_iff2)
  have "inj_on (\<lambda>s. if ?P s then new else sr_token s) (set (db_sessions (w_db w)))"
    using new session_by_token [OF ok] by (intro inj_onI) (auto split: if_splits)
  then have "distinct (map (\<lambda>s. if ?P s then new else sr_token s) (db_sessions (w_db w)))"
    using schema_ok_sessions(1) [OF ok] by (simp add: distinct_map)
  moreover have "map sr_token ?ss = map (\<lambda>s. if ?P s then new else sr_token s) (db_sessions (w_db w))"
    by (simp add: update_where_def)
  ultimately have dt: "distinct (map sr_token ?ss)" by metis
  have "sessions_violation (w_db w) = None" using ok by (simp add: schema_ok_iff)
  moreover have "map sr_pid ?ss = map sr_pid (db_sessions (w_db w))"
    "map sr_user_id ?ss = map sr_user_id (db_sessions (w_db w))" by simp_all
  ultimately have "sessions_violation ((w_db w)\<lparr>db_sessions := ?ss\<rparr>) = None"
    using dt unfolding sessions_violation_def by (simp split: if_splits)
  then have "schema_ok ((w_db w)\<lparr>db_sessions := ?ss\<rparr>)" by (rule schema_ok_db_sessions [OF ok])
  with faults affected_live [OF ok, of old] show ?thesis
    by (simp add: sqlite_sessions_update_token_def exec_defs utc_now_def sql_def Let_def schema_ok_def)
qed

lemma list_for_user_Inr:
  assumes "schema_ok (w_db w)" "sqlite_sessions_list_for_user E n w = (Inr xs, w')"
  shows "w_db w' = w_db w" "w_tick w' = Suc (Suc (w_tick w))"
    "s \<in> set (db_sessions (w_db w)) \<Longrightarrow> live (env_now E (w_tick w)) s \<Longrightarrow>
     session_owner (w_db w) s = Some v \<Longrightarrow> ur_username v = n \<Longrightarrow> \<exists>x \<in> set xs. s_pid x = sr_pid s"
proof -
  have xs: "set xs = set (session_join (w_db w) (live (env_now E (w_tick w))) (\<lambda>u. ur_username u = n))"
    and w': "w' = ticked (ticked w)"
    using assms(2) by (auto simp: sqlite_sessions_list_for_user_def exec_simps)
  show "w_db w' = w_db w" "w_tick w' = Suc (Suc (w_tick w))" by (simp_all add: w')
  assume s: "s \<in> set (db_sessions (w_db w))" "live (env_now E (w_tick w)) s"
    "session_owner (w_db w) s = Some v" "ur_username v = n"
  then have "v \<in> set (db_users (w_db w))" "ur_id v = sr_user_id s" by (auto simp: session_owner_mem [OF assms(1)])
  with s have "to_session s v \<in> set xs" by (auto simp: xs session_join_def)
  then show "\<exists>x \<in> set xs. s_pid x = sr_pid s" by (rule bexI [rotated]) (simp add: to_session_def)
qed

lemma deleted_user_no_view:
  assumes ok: "schema_ok d" and v: "user_at d n = Some v" "ur_deleted_at v \<noteq> None"
    and view: "session_view t d tok = Some se"
  shows "s_username se \<noteq> n"
proof
  assume n: "s_username se = n"
  from view obtain s u where u: "session_owner d s = Some u" "ur_deleted_at u = None" "ur_username u = n"
    using n by (auto simp: session_view_def to_session_def split: option.splits if_splits)
  then have "user_at d n = Some u" by (simp add: session_owner_mem [OF ok] user_at_mem [OF ok])
  with u(2) v show False by simp
qed

lemma session_inserted_view:
  assumes ok: "schema_ok d" and ins: "session_inserted tok n e m d d'"
  shows "\<exists>v s. user_at d' n = Some v \<and> ur_deleted_at v = None \<and> sr_token s = tok \<and>
    session_view t d' tok = (if t < e \<and> t < m then Some (to_session s v) else None)"
proof -
  from ins obtain v s where
    ok': "schema_ok d'" and only: "only_sessions d d'" and v: "user_at d n = Some v" "ur_deleted_at v = None" and
    s: "sr_token s = tok" "sr_user_id s = ur_id v" "sr_expires_at s = e" "sr_max_expires_at s = m" and
    at: "session_at d' = (session_at d)(tok \<mapsto> s)"
    unfolding session_inserted_def by blast
  have users: "db_users d' = db_users d" using only by (rule only_sessions_tables)
  have "v \<in> set (db_users d')" using v user_at_mem [OF ok] users by simp
  then have "session_owner d' s = Some v" using s session_owner_mem [OF ok'] by simp
  moreover have "user_at d' n = Some v" using v users by (simp add: user_at_def)
  ultimately show ?thesis
    using v s at by (intro exI [of _ v] exI [of _ s]) (auto simp: session_view_def live_def)
qed

section \<open>Properties\<close>

text \<open>C16. After a successful insertion the SQLite adapter finds the token exactly as long as neither
  deadline has passed, and what it finds is the session of that user with that deadline.\<close>

theorem sqlite_session_round_trip:
  assumes "schema_ok (w_db w)" "sqlite_sessions_insert E tok n e m w = (Inr u, w1)"
    and "sqlite_sessions_find_by_token E tok w1 = (Inr r, w2)"
  shows "(\<exists>x. r = Some x \<and> s_username x = n \<and> s_token x = tok \<and> s_expires_at x = e) \<longleftrightarrow>
    env_now E (w_tick w1) < e \<and> env_now E (w_tick w1) < m"
  using assms by (rule sqlite_sessions.insert_find)

theorem sqlite_session_round_trip_witness:
  "let (_, w1) = sqlite_sessions_insert sample_env ''new'' ''ann'' 50 60 session_world;
       (r, _) = sqlite_sessions_find_by_token sample_env ''new'' w1
   in \<exists>x. r = Inr (Some x) \<and> s_username x = ''ann'' \<and> s_token x = ''new'' \<and> s_expires_at x = 50"
proof -
  let ?w1 = "snd (sqlite_sessions_insert sample_env ''new'' ''ann'' 50 60 session_world)"
  have "schema_ok (w_db session_world)" by code_simp
  moreover have "sqlite_sessions_insert sample_env ''new'' ''ann'' 50 60 session_world = (Inr (), ?w1)"
    by (rule run_result) code_simp
  moreover have "\<exists>r. sqlite_sessions_find_by_token sample_env ''new'' ?w1 = (Inr r, ticked (ticked ?w1))"
    by (simp add: sqlite_sessions_find_by_token_def exec_defs utc_now_def query_def)
  moreover have "w_tick ?w1 = 3" by code_simp
  ultimately show ?thesis
    using sqlite_session_round_trip [of session_world sample_env "''new''" "''ann''" 50 60 "()" ?w1]
    by (auto simp: Let_def split: prod.split)
qed

text \<open>What a caller sees of a run: the answer and the tables.\<close>

definition outcome :: "('e, 'a) action \<Rightarrow> world \<Rightarrow> ('e + 'a) \<times> database" where
  "outcome m w = (fst (m w), w_db (snd (m w)))"

lemmas adapter_defs =
  outcome_def exec_defs utc_now_def new_uuid_def query_at_def query_def sql_def Let_def pg_now_def db_error_def

lemma missing_owner:
  assumes ok: "schema_ok (w_db w)" and faults: "\<And>k. env_fault E k = None"
  shows "fst (sqlite_sessions_insert E tok n e m w) = Inl (DomNotFound ''User not found'') \<longleftrightarrow>
      \<not> (\<exists>u \<in> set (db_users (w_db w)). active n u)"
    "fst (pg_sessions_insert E tok n e m w) = Inl (DomNotFound ''User not found'') \<longleftrightarrow>
      \<not> (\<exists>u \<in> set (db_users (w_db w)). active n u)"
proof -
  have eq: "active n = (\<lambda>u. ur_username u = n \<and> ur_deleted_at u = None)" by (auto simp: active_def)
  have len: "length (filter (active n) (db_users (w_db w))) = (if \<exists>u \<in> set (db_users (w_db w)). active n u then 1 else 0)"
    unfolding eq
    by (subst filter_unique_key [where k = ur_username, OF schema_ok_users(3) [OF ok]])
      (auto split: option.split simp: find_None_iff dest: find_key_Some user_by_username [OF ok])
  show "fst (sqlite_sessions_insert E tok n e m w) = Inl (DomNotFound ''User not found'') \<longleftrightarrow>
      \<not> (\<exists>u \<in> set (db_users (w_db w)). active n u)"
    using len faults ok by (auto simp: sqlite_sessions_insert_def adapter_defs eq schema_ok_def split: option.splits if_splits)
  show "fst (pg_sessions_insert E tok n e m w) = Inl (DomNotFound ''User not found'') \<longleftrightarrow>
      \<not> (\<exists>u \<in> set (db_users (w_db w)). active n u)"
    using faults
    by (auto simp: pg_sessions_insert_def pg_user_id_by_username_def adapter_defs eq find_None_iff
        split: option.splits if_splits dest: find_Some_iff2)
qed

text \<open>C15. The two adapters implement one repository up to the resolution of the time: with a driver that does not
  fail, every statement of the Postgres adapter that finds, checks, renews, refreshes or deletes sessions gives the
  answer, error or not, and leaves the tables of the SQLite adapter whose clock and deadlines are rounded to whole
  microseconds, also at the deadlines. Insertions fail for the same missing users, and when both succeed they add a
  session with the same user and deadlines.\<close>
theorem session_adapters_agree:
  assumes ok: "schema_ok (w_db w)" and faults: "\<And>k. env_fault E k = None"
  defines "M \<equiv> E\<lparr>env_now := pg_now E\<rparr>"
  shows "outcome (pg_sessions_find_by_token E tok) w = outcome (sqlite_sessions_find_by_token M tok) w \<and>
    outcome (pg_sessions_exists E tok) w = outcome (sqlite_sessions_exists M tok) w \<and>
    outcome (pg_sessions_update_token E tok new e m) w =
      outcome (sqlite_sessions_update_token M tok new (pg_time e) (pg_time m)) w \<and>
    outcome (pg_sessions_refresh E tok e) w = outcome (sqlite_sessions_refresh M tok (pg_time e)) w \<and>
    outcome (pg_sessions_delete E tok) w = outcome (sqlite_sessions_delete M tok) w \<and>
    outcome (pg_sessions_delete_for_user E n pid) w = outcome (sqlite_sessions_delete_for_user M n pid) w \<and>
    (fst (pg_sessions_insert E tok n e m w) = Inl (DomNotFound ''User not found'') \<longleftrightarrow>
       fst (sqlite_sessions_insert M tok n (pg_time e) (pg_time m) w) = Inl (DomNotFound ''User not found'')) \<and>
    (\<forall>v v' u u'. pg_sessions_insert E tok n e m w = (Inr u, v) \<longrightarrow>
       sqlite_sessions_insert M tok n (pg_time e) (pg_time m) w = (Inr u', v') \<longrightarrow>
       (\<exists>s s'. session_at (w_db v) = (session_at (w_db w))(tok \<mapsto> s) \<and>
          session_at (w_db v') = (session_at (w_db w))(tok \<mapsto> s') \<and> sr_user_id s = sr_user_id s' \<and>
          sr_expires_at s = sr_expires_at s' \<and> sr_max_expires_at s = sr_max_expires_at s'))"
proof -
  have M: "env_fault M k = None" "env_error_text M = env_error_text E" "env_now M k = pg_now E k" for k
    by (simp_all add: M_def faults)
  have "outcome (pg_sessions_find_by_token E tok) w = outcome (sqlite_sessions_find_by_token M tok) w"
    "outcome (pg_sessions_exists E tok) w = outcome (sqlite_sessions_exists M tok) w"
    "outcome (pg_sessions_update_token E tok new e m) w =
      outcome (sqlite_sessions_update_token M tok new (pg_time e) (pg_time m)) w"
    "outcome (pg_sessions_refresh E tok e) w = outcome (sqlite_sessions_refresh M tok (pg_time e)) w"
    "outcome (pg_sessions_delete E tok) w = outcome (sqlite_sessions_delete M tok) w"
    unfolding pg_sessions_find_by_token_def sqlite_sessions_find_by_token_def pg_sessions_exists_def
      sqlite_sessions_exists_def pg_sessions_update_token_def sqlite_sessions_update_token_def
      pg_sessions_refresh_def sqlite_sessions_refresh_def pg_sessions_delete_def sqlite_sessions_delete_def
    by (simp_all add: adapter_defs M faults cap_min split: option.split)
  moreover have "outcome (pg_sessions_delete_for_user E n pid) w = outcome (sqlite_sessions_delete_for_user M n pid) w"
    unfolding pg_sessions_delete_for_user_def sqlite_sessions_delete_for_user_def
    by (simp add: adapter_defs M faults owner_by_name [OF ok] del: map_option_eq_Some split: option.split)
  moreover have "fst (pg_sessions_insert E tok n e m w) = Inl (DomNotFound ''User not found'') \<longleftrightarrow>
       fst (sqlite_sessions_insert M tok n (pg_time e) (pg_time m) w) = Inl (DomNotFound ''User not found'')"
    using missing_owner [OF ok] M(1) faults by blast
  moreover have "\<exists>s s'. session_at (w_db v) = (session_at (w_db w))(tok \<mapsto> s) \<and>
          session_at (w_db v') = (session_at (w_db w))(tok \<mapsto> s') \<and> sr_user_id s = sr_user_id s' \<and>
          sr_expires_at s = sr_expires_at s' \<and> sr_max_expires_at s = sr_max_expires_at s'"
    if "pg_sessions_insert E tok n e m w = (Inr u, v)"
      "sqlite_sessions_insert M tok n (pg_time e) (pg_time m) w = (Inr u', v')" for u u' v v'
    using pg_sessions.insert_law [OF ok that(1)] sqlite_sessions.insert_law [OF ok that(2)]
    unfolding session_inserted_def by (metis option.inject)
  ultimately show ?thesis by blast
qed

theorem session_adapters_agree_witness:
  "fst (pg_sessions_refresh sample_env ''t'' (seconds 300) session_world) = Inr True \<and>
   outcome (pg_sessions_refresh sample_env ''t'' (seconds 300)) session_world =
     outcome (sqlite_sessions_refresh (sample_env\<lparr>env_now := pg_now sample_env\<rparr>) ''t'' (pg_time (seconds 300))) session_world"
proof -
  have ok: "schema_ok (w_db session_world)" by code_simp
  have "fst (pg_sessions_refresh sample_env ''t'' (seconds 300) session_world) = Inr True" by code_simp
  then show ?thesis using session_adapters_agree [OF ok sample_env_simps(3)] by blast
qed

end
