(* ===== verification/User_Repository.thy ===== *)
theory User_Repository
  imports Session_Repository
begin

text \<open>
  The SQLite user repository (\<^verbatim>\<open>sqlx/src/identity/users/sqlite_repository.rs\<close>, \<^verbatim>\<open>queries.rs\<close>).
  Paging is done in \<^verbatim>\<open>u32\<close>, kept here as 32-bit words. The three single-use token columns of a
  user share the operations \<^verbatim>\<open>find_by_token_column\<close> and \<^verbatim>\<open>update_token_fields\<close>; their contract is
  the locale \<open>token_column_store\<close>, interpreted once per column.
\<close>

section \<open>Queries\<close>

definition map_user :: "user_row \<Rightarrow> user" where
  "map_user r =
     \<lparr>u_id = ur_id r, u_pid = ur_pid r, u_username = ur_username r,
      u_password_hash = ur_password_hash r, u_created_at = ur_created_at r,
      u_reset_token = ur_reset_token r, u_reset_sent_at = ur_reset_sent_at r,
      u_email_verification_token = ur_email_verification_token r,
      u_email_verification_sent_at = ur_email_verification_sent_at r,
      u_email_verified_at = ur_email_verified_at r,
      u_magic_link_token = ur_magic_link_token r,
      u_magic_link_expires_at = ur_magic_link_expires_at r\<rparr>"

definition users_id_by_username :: "env \<Rightarrow> string \<Rightarrow> (domain_error, int) action" where
  "users_id_by_username E username =
     bindE (map_err (db_error E) (query E (\<lambda>d.
       map_option ur_id (find (active username) (db_users d))))) (\<lambda>id.
     ok_or id (DomNotFound ''User not found''))"

definition users_find_by_username :: "env \<Rightarrow> string \<Rightarrow> (domain_error, user option) action" where
  "users_find_by_username E username =
     map_err (db_error E) (query E (\<lambda>d. map_option map_user (find (active username) (db_users d))))"

definition users_exists :: "env \<Rightarrow> string \<Rightarrow> (domain_error, bool) action" where
  "users_exists E username =
     map_err (db_error E) (query E (\<lambda>d. \<exists>u \<in> set (db_users d). active username u))"

definition revived :: "string \<Rightarrow> user_row \<Rightarrow> user_row" where
  "revived password_hash u =
     u\<lparr>ur_password_hash := password_hash, ur_reset_token := None, ur_reset_sent_at := None,
       ur_email_verification_token := None, ur_email_verification_sent_at := None,
       ur_email_verified_at := None, ur_magic_link_token := None, ur_magic_link_expires_at := None,
       ur_totp_secret := None, ur_totp_enabled_at := None, ur_totp_backup_code_hashes := [],
       ur_totp_login_token := None, ur_totp_login_expires_at := None, ur_deleted_at := None\<rparr>"

definition users_insert :: "env \<Rightarrow> string \<Rightarrow> string \<Rightarrow> (domain_error, unit) action" where
  "users_insert E username password_hash =
     bindE (new_uuid E) (\<lambda>pid. bindE (utc_now E) (\<lambda>now.
       map_err (db_error E) (sql E (\<lambda>_ d.
         ((), snd (insert_user_or_revive (new_user_row pid username password_hash now)
                     (revived password_hash) d))))))"

section \<open>Listing\<close>

datatype user_order =
    UsernameAsc
  | UsernameDesc
  | CreatedAsc
  | VerifiedAscNullsFirst
  | VerifiedDescNullsLast
  | CreatedDesc

definition user_order_by :: "env \<Rightarrow> string option \<Rightarrow> user_order" where
  "user_order_by E sorting =
     (let s = env_to_lowercase E (trim (case sorting of None \<Rightarrow> [] | Some s \<Rightarrow> s))
      in if s = ''username'' \<or> s = ''username asc'' then UsernameAsc
         else if s = ''username desc'' then UsernameDesc
         else if s = ''created_at asc'' \<or> s = ''created asc'' then CreatedAsc
         else if s = ''verified asc'' \<or> s = ''email_verified_at asc'' then VerifiedAscNullsFirst
         else if s = ''verified desc'' \<or> s = ''email_verified_at desc'' then VerifiedDescNullsLast
         else CreatedDesc)"

definition sort_desc :: "('a \<Rightarrow> 'k::linorder) \<Rightarrow> 'a list \<Rightarrow> 'a list" where
  "sort_desc k xs = rev (sort_key k (rev xs))"

text \<open>NULL sorts before every value (\<^verbatim>\<open>NULLS FIRST\<close> ascending, \<^verbatim>\<open>NULLS LAST\<close> descending).\<close>

definition null_key :: "instant option \<Rightarrow> instant list" where
  "null_key v = (case v of None \<Rightarrow> [] | Some t \<Rightarrow> [t])"

fun order_users :: "user_order \<Rightarrow> user_row list \<Rightarrow> user_row list" where
  "order_users UsernameAsc rows = sort_key ur_username rows"
| "order_users UsernameDesc rows = sort_desc ur_username rows"
| "order_users CreatedAsc rows = sort_key ur_created_at rows"
| "order_users VerifiedAscNullsFirst rows = sort_key (\<lambda>u. null_key (ur_email_verified_at u)) rows"
| "order_users VerifiedDescNullsLast rows = sort_desc (\<lambda>u. null_key (ur_email_verified_at u)) rows"
| "order_users CreatedDesc rows = sort_desc ur_created_at rows"

text \<open>Users that \<^verbatim>\<open>ORDER BY\<close> does not separate, and the rows that have such a twin.\<close>

fun tied :: "user_order \<Rightarrow> user_row \<Rightarrow> user_row \<Rightarrow> bool" where
  "tied UsernameAsc u v \<longleftrightarrow> ur_username u = ur_username v"
| "tied UsernameDesc u v \<longleftrightarrow> ur_username u = ur_username v"
| "tied CreatedAsc u v \<longleftrightarrow> ur_created_at u = ur_created_at v"
| "tied VerifiedAscNullsFirst u v \<longleftrightarrow> ur_email_verified_at u = ur_email_verified_at v"
| "tied VerifiedDescNullsLast u v \<longleftrightarrow> ur_email_verified_at u = ur_email_verified_at v"
| "tied CreatedDesc u v \<longleftrightarrow> ur_created_at u = ur_created_at v"

definition separated :: "user_order \<Rightarrow> user_row list \<Rightarrow> bool" where
  "separated ord rows \<longleftrightarrow> (\<forall>u \<in> set rows. \<forall>v \<in> set rows. tied ord u v \<longrightarrow> u = v)"

text \<open>SQLite's \<^verbatim>\<open>LIKE\<close> on the characters of the pattern and of the value: \<^verbatim>\<open>%\<close> is any sequence,
  \<^verbatim>\<open>_\<close> any character, and ASCII letters match regardless of case.\<close>

fun like_chars :: "string list \<Rightarrow> string list \<Rightarrow> bool" where
  "like_chars [] [] = True"
| "like_chars [] (_ # _) = False"
| "like_chars (p # ps) [] = (p = ''%'' \<and> like_chars ps [])"
| "like_chars (p # ps) (c # cs) =
     (if p = ''%'' then like_chars ps (c # cs) \<or> like_chars (p # ps) cs
      else (p = ''_'' \<or> eq_ignore_ascii_case p c) \<and> like_chars ps cs)"

definition sql_like :: "string \<Rightarrow> string \<Rightarrow> bool" where
  "sql_like pattern v = like_chars (utf8_chars pattern) (utf8_chars v)"

definition search_pattern :: "env \<Rightarrow> string option \<Rightarrow> string option" where
  "search_pattern E search =
     (case search of
        None \<Rightarrow> None
      | Some s \<Rightarrow>
          (let pattern = ''%'' @ env_to_lowercase E (trim s) @ ''%''
           in if pattern = ''%%'' then None else Some pattern))"

definition page_offset :: "32 word \<Rightarrow> 32 word \<Rightarrow> 32 word" where
  "page_offset page page_size = (max page 1 - 1) * page_size"

definition clamp_page_size :: "32 word \<Rightarrow> 32 word" where
  "clamp_page_size n = max 1 (min n 100)"

definition matching_users :: "string option \<Rightarrow> database \<Rightarrow> user_row list" where
  "matching_users pattern d =
     filter (\<lambda>u. ur_deleted_at u = None \<and>
       (case pattern of None \<Rightarrow> True | Some p \<Rightarrow> sql_like p (to_ascii_lowercase (ur_username u))))
       (db_users d)"

definition users_list ::
    "env \<Rightarrow> 32 word \<Rightarrow> 32 word \<Rightarrow> string option \<Rightarrow> string option
      \<Rightarrow> (domain_error, user list \<times> int) action" where
  "users_list E page page_size search sorting =
     (let page_size = clamp_page_size page_size;
          offset = unat (page_offset page page_size);
          limit = unat page_size;
          order = user_order_by E sorting;
          pattern = search_pattern E search
      in bindE (map_err (db_error E) (query_at E (\<lambda>n d.
           map map_user (take limit (drop offset (order_users order (row_order E n (matching_users pattern d)))))))) (\<lambda>items.
         bindE (map_err (db_error E) (query E (\<lambda>d.
           int (length (matching_users pattern d))))) (\<lambda>total.
         ret (items, total))))"

definition users_find_by_pids :: "env \<Rightarrow> uuid list \<Rightarrow> (domain_error, user list) action" where
  "users_find_by_pids E pids =
     (if pids = [] then ret []
      else bindE (map_err (db_error E) (query E (\<lambda>d.
             map map_user (filter (\<lambda>u. ur_deleted_at u = None \<and> ur_pid u \<in> set pids) (db_users d))))) (\<lambda>users.
           ret (List.map_filter (\<lambda>pid. find (\<lambda>u. u_pid u = pid) users) pids)))"

section \<open>Single-use tokens\<close>

datatype token_column = ResetToken | EmailVerificationToken | MagicLinkToken

fun column_token :: "token_column \<Rightarrow> user_row \<Rightarrow> string option" where
  "column_token ResetToken u = ur_reset_token u"
| "column_token EmailVerificationToken u = ur_email_verification_token u"
| "column_token MagicLinkToken u = ur_magic_link_token u"

fun set_column :: "token_column \<Rightarrow> string \<Rightarrow> instant \<Rightarrow> user_row \<Rightarrow> user_row" where
  "set_column ResetToken token time u =
     u\<lparr>ur_reset_token := Some token, ur_reset_sent_at := Some time\<rparr>"
| "set_column EmailVerificationToken token time u =
     u\<lparr>ur_email_verification_token := Some token, ur_email_verification_sent_at := Some time\<rparr>"
| "set_column MagicLinkToken token time u =
     u\<lparr>ur_magic_link_token := Some token, ur_magic_link_expires_at := Some time\<rparr>"

definition find_by_token_column ::
    "env \<Rightarrow> token_column \<Rightarrow> string \<Rightarrow> (domain_error, user option) action" where
  "find_by_token_column E column token =
     map_err (db_error E) (query E (\<lambda>d. map_option map_user
       (find (\<lambda>u. column_token column u = Some token \<and> ur_deleted_at u = None) (db_users d))))"

definition update_token_fields ::
    "env \<Rightarrow> token_column \<Rightarrow> string \<Rightarrow> string \<Rightarrow> instant \<Rightarrow> (domain_error, unit) action" where
  "update_token_fields E column username token time =
     mapE (\<lambda>_. ()) (map_err (db_error E)
       (update_users E (active username) (set_column column token time)))"

definition users_find_by_reset_token :: "env \<Rightarrow> string \<Rightarrow> (domain_error, user option) action" where
  "users_find_by_reset_token E token = find_by_token_column E ResetToken token"

definition users_find_by_email_verification_token ::
    "env \<Rightarrow> string \<Rightarrow> (domain_error, user option) action" where
  "users_find_by_email_verification_token E token =
     find_by_token_column E EmailVerificationToken token"

definition users_find_by_magic_link_token ::
    "env \<Rightarrow> string \<Rightarrow> (domain_error, user option) action" where
  "users_find_by_magic_link_token E token = find_by_token_column E MagicLinkToken token"

definition users_set_email_verification ::
    "env \<Rightarrow> string \<Rightarrow> string \<Rightarrow> instant \<Rightarrow> (domain_error, unit) action" where
  "users_set_email_verification E username token sent_at =
     update_token_fields E EmailVerificationToken username token sent_at"

definition users_set_reset_token ::
    "env \<Rightarrow> string \<Rightarrow> string \<Rightarrow> instant \<Rightarrow> (domain_error, unit) action" where
  "users_set_reset_token E username token sent_at =
     update_token_fields E ResetToken username token sent_at"

definition users_set_magic_link ::
    "env \<Rightarrow> string \<Rightarrow> string \<Rightarrow> instant \<Rightarrow> (domain_error, unit) action" where
  "users_set_magic_link E username token expires_at =
     update_token_fields E MagicLinkToken username token expires_at"

definition users_mark_email_verified ::
    "env \<Rightarrow> string \<Rightarrow> instant \<Rightarrow> (domain_error, unit) action" where
  "users_mark_email_verified E username verified_at =
     mapE (\<lambda>_. ()) (map_err (db_error E) (update_users E (active username)
       (\<lambda>u. u\<lparr>ur_email_verified_at := Some verified_at, ur_email_verification_token := None\<rparr>)))"

definition users_reset_password :: "env \<Rightarrow> string \<Rightarrow> string \<Rightarrow> (domain_error, unit) action" where
  "users_reset_password E username password_hash =
     mapE (\<lambda>_. ()) (map_err (db_error E) (update_users E (active username)
       (\<lambda>u. u\<lparr>ur_password_hash := password_hash, ur_reset_token := None, ur_reset_sent_at := None\<rparr>)))"

definition users_clear_magic_link :: "env \<Rightarrow> string \<Rightarrow> (domain_error, unit) action" where
  "users_clear_magic_link E username =
     mapE (\<lambda>_. ()) (map_err (db_error E) (update_users E (active username)
       (\<lambda>u. u\<lparr>ur_magic_link_token := None, ur_magic_link_expires_at := None\<rparr>)))"

section \<open>Management\<close>

definition users_update_management_fields ::
    "env \<Rightarrow> string \<Rightarrow> string option \<Rightarrow> instant option \<Rightarrow> (domain_error, bool) action" where
  "users_update_management_fields E username password_hash email_verified_at =
     mapE (\<lambda>k. k > 0) (map_err (db_error E)
       (case password_hash of
          Some h \<Rightarrow> update_users E (active username)
            (\<lambda>u. u\<lparr>ur_password_hash := h, ur_email_verified_at := email_verified_at\<rparr>)
        | None \<Rightarrow> update_users E (active username)
            (\<lambda>u. u\<lparr>ur_email_verified_at := email_verified_at\<rparr>)))"

definition active_role :: "database \<Rightarrow> string \<Rightarrow> bool" where
  "active_role d name \<longleftrightarrow> (\<exists>r \<in> set (db_roles d). rr_name r = name \<and> rr_deleted_at r = None)"

definition role_names_of :: "database \<Rightarrow> string \<Rightarrow> string list" where
  "role_names_of d username =
     map url_role_name (filter (\<lambda>ur. active_role d (url_role_name ur) \<and>
       (\<exists>u \<in> set (db_users d). active username u \<and> ur_id u = url_user_id ur)) (db_user_roles d))"

definition users_user_roles :: "env \<Rightarrow> string \<Rightarrow> (domain_error, string list) action" where
  "users_user_roles E username =
     map_err (db_error E) (query E (\<lambda>d. sort (role_names_of d username)))"

definition users_set_user_roles :: "env \<Rightarrow> string \<Rightarrow> string list \<Rightarrow> (domain_error, unit) action" where
  "users_set_user_roles E username roles =
     bindE (users_id_by_username E username) (\<lambda>user_id.
       transaction E (db_error E)
         (seqE (map_err (db_error E) (sql E (\<lambda>_ d.
            ((), d\<lparr>db_user_roles := delete_where (\<lambda>r. url_user_id r = user_id) (db_user_roles d)\<rparr>))))
          (seqE (for_each (\<lambda>role. map_err (db_error E) (sql E (\<lambda>n d.
              ((), add_user_role (env_now E n) user_id role d)))) roles)
            (ret (Commit ())))))"

definition users_delete_user :: "env \<Rightarrow> string \<Rightarrow> (domain_error, bool) action" where
  "users_delete_user E username =
     bindE (utc_now E) (\<lambda>now.
       mapE (\<lambda>k. k > 0) (map_err (db_error E) (update_users E (active username)
         (\<lambda>u. u\<lparr>ur_deleted_at := Some now\<rparr>))))"

section \<open>Properties\<close>

subsection \<open>Searching and paging\<close>

lemma like_percent_all: "like_chars [''%''] cs"
  by (induction cs) auto

lemma like_skip: "like_chars (''%'' # ps) cs \<Longrightarrow> like_chars (''%'' # ps) (as @ cs)"
  by (induction as) auto

lemma like_literal:
  "\<forall>p \<in> set ps. p \<noteq> ''%'' \<Longrightarrow> like_chars rest cs \<Longrightarrow> like_chars (ps @ rest) (ps @ cs)"
  by (induction ps) auto

text \<open>A term without wildcards is found wherever it occurs.\<close>

lemma like_contains:
  assumes "\<forall>p \<in> set ps. p \<noteq> ''%''"
  shows "like_chars (''%'' # ps @ [''%'']) (as @ ps @ bs)"
proof (rule like_skip)
  have "like_chars (ps @ [''%'']) (ps @ bs)"
    using assms like_percent_all by (rule like_literal)
  then show "like_chars (''%'' # ps @ [''%'']) (ps @ bs)"
    by (cases "ps @ bs") auto
qed

lemma unat_page_offset:
  assumes "(unat page - 1) * unat psize < 2 ^ 32"
  shows "unat (page_offset page psize) = (unat page - 1) * unat psize"
proof -
  have "unat (max page 1 - 1) = unat page - 1"
    by (cases "page = 0")
      (auto simp: max_def word_le_nat_alt unat_sub unat_eq_zero not_le unat_gt_0 Suc_le_eq)
  then show ?thesis
    using assms by (simp add: page_offset_def unat_mult_lem [THEN iffD1])
qed

lemma unat_clamp_page_size: "unat (clamp_page_size n) = max 1 (min (unat n) 100)"
  by (auto simp: clamp_page_size_def max_def min_def word_le_nat_alt)

lemma set_sort_desc [simp]: "set (sort_desc k xs) = set xs"
  by (simp add: sort_desc_def)

lemma length_sort_desc [simp]: "length (sort_desc k xs) = length xs"
  by (simp add: sort_desc_def)

lemma set_order_users [simp]: "set (order_users ord rows) = set rows"
  by (cases ord) auto

lemma length_order_users [simp]: "length (order_users ord rows) = length rows"
  by (cases ord) auto

lemma sort_key_unique:
  assumes "distinct xs" "distinct ys" "set xs = set ys" "inj_on f (set xs)"
  shows "sort_key f xs = sort_key f ys"
proof -
  have "map f (sort_key f xs) = map f (sort_key f ys)"
    using assms by (intro sorted_distinct_set_unique) (simp_all add: distinct_map)
  moreover have "inj_on f (set (sort_key f xs) \<union> set (sort_key f ys))" using assms(3,4) by simp
  ultimately show ?thesis by (rule map_inj_on)
qed

lemma sort_desc_unique:
  assumes "distinct xs" "distinct ys" "set xs = set ys" "inj_on f (set xs)"
  shows "sort_desc f xs = sort_desc f ys"
  unfolding sort_desc_def using assms by (intro arg_cong [where f = rev] sort_key_unique) simp_all

text \<open>Rows that the order separates come out in one order, whatever the scan.\<close>

lemma order_users_unique:
  assumes xs: "distinct xs" "distinct ys" "set xs = set ys" and "separated ord xs"
  shows "order_users ord xs = order_users ord ys"
proof -
  have tie: "u = v" if "u \<in> set xs" "v \<in> set xs" "tied ord u v" for u v
    using assms(4) that by (simp add: separated_def)
  note unique = sort_key_unique [OF xs] sort_desc_unique [OF xs]
  show ?thesis
  proof (cases ord)
    case UsernameAsc
    then show ?thesis using tie by (simp, intro unique inj_onI) simp
  next
    case UsernameDesc
    then show ?thesis using tie by (simp, intro unique inj_onI) simp
  next
    case CreatedAsc
    then show ?thesis using tie by (simp, intro unique inj_onI) simp
  next
    case VerifiedAscNullsFirst
    then show ?thesis using tie
      by (simp, intro unique inj_onI) (simp add: null_key_def split: option.splits)
  next
    case VerifiedDescNullsLast
    then show ?thesis using tie
      by (simp, intro unique inj_onI) (simp add: null_key_def split: option.splits)
  next
    case CreatedDesc
    then show ?thesis using tie by (simp, intro unique inj_onI) simp
  qed
qed

lemma distinct_row_order [simp]: "distinct (row_order E n rows) = distinct rows"
  by (metis card_distinct distinct_card length_row_order set_row_order)

lemma users_list_Inr:
  assumes "users_list E page page_size search sorting w = (Inr (items, count), w')"
  shows "w_db w' = w_db w"
    "items = map map_user (take (unat (clamp_page_size page_size))
       (drop (unat (page_offset page (clamp_page_size page_size)))
         (order_users (user_order_by E sorting) (row_order E (w_tick w) (matching_users (search_pattern E search) (w_db w))))))"
    "count = int (length (matching_users (search_pattern E search) (w_db w)))"
  using assms by (auto simp: users_list_def Let_def exec_simps)

text \<open>The pages of a list in order.\<close>

lemma concat_pages:
  assumes "0 < psize"
  shows "concat (map (\<lambda>p. take psize (drop (p * psize) xs)) [0..<n]) = take (n * psize) xs"
proof (induction n)
  case (Suc n)
  have "take (n * psize) xs @ take psize (drop (n * psize) xs) = take (n * psize + psize) xs"
    by (simp add: take_add)
  with Suc show ?case by (simp add: add.commute)
qed simp

subsection \<open>Token columns\<close>

locale token_column_store =
  fixes column :: "user_row \<Rightarrow> string option"
    and find_by :: "string \<Rightarrow> (domain_error, user option) action"
    and set_token :: "string \<Rightarrow> string \<Rightarrow> instant \<Rightarrow> (domain_error, unit) action"
  assumes find_sound:
      "find_by tok w = (Inr (Some x), w') \<Longrightarrow>
         \<exists>u \<in> set (db_users (w_db w)). column u = Some tok \<and> ur_deleted_at u = None \<and> x = map_user u"
    and find_complete:
      "find_by tok w = (Inr None, w') \<Longrightarrow>
         u \<in> set (db_users (w_db w)) \<Longrightarrow> ur_deleted_at u = None \<Longrightarrow> column u \<noteq> Some tok"
    and find_reads: "find_by tok w = (Inr r, w') \<Longrightarrow> w_db w' = w_db w"
    and set_law:
      "set_token n tok t w = (Inr (), w') \<Longrightarrow>
         \<exists>g. (\<forall>u. column (g u) = Some tok \<and> ur_username (g u) = ur_username u \<and>
                  ur_deleted_at (g u) = ur_deleted_at u \<and> ur_id (g u) = ur_id u) \<and>
             w_db w' = (w_db w)\<lparr>db_users := update_where (active n) g (db_users (w_db w))\<rparr>"
begin

text \<open>A token that no other account holds leads back to the account it was issued for.\<close>

lemma issued_token:
  assumes set: "set_token n tok t w = (Inr (), w1)" and find: "find_by tok w1 = (Inr r, w2)"
    and fresh: "\<And>u. u \<in> set (db_users (w_db w)) \<Longrightarrow> column u \<noteq> Some tok"
    and user: "v \<in> set (db_users (w_db w))" "active n v"
  shows "\<exists>x. r = Some x \<and> u_username x = n"
proof -
  from set_law [OF set] obtain g where
    g: "\<And>u. column (g u) = Some tok" "\<And>u. ur_username (g u) = ur_username u"
      "\<And>u. ur_deleted_at (g u) = ur_deleted_at u" and
    d: "w_db w1 = (w_db w)\<lparr>db_users := update_where (active n) g (db_users (w_db w))\<rparr>" by blast
  have "g v \<in> set (db_users (w_db w1))" "ur_deleted_at (g v) = None"
    using user g by (auto simp: d set_update_where active_def)
  then have "r \<noteq> None" using g(1) find_complete [of tok w1 w2 "g v"] find by auto
  then obtain x where x: "r = Some x" by auto
  with find find_sound obtain u where
    u: "u \<in> set (db_users (w_db w1))" "column u = Some tok" "x = map_user u" by blast
  from u(1) have "ur_username u = n"
    using u(2) fresh g(2) by (auto simp: d active_def elim: in_update_whereE)
  with x u(3) show ?thesis by (simp add: map_user_def)
qed

end

lemma column_set_simps [simp]:
  "column_token c (set_column c tok t u) = Some tok"
  "ur_username (set_column c tok t u) = ur_username u"
  "ur_deleted_at (set_column c tok t u) = ur_deleted_at u"
  "ur_id (set_column c tok t u) = ur_id u"
  by (cases c; simp)+

lemma token_column_contract:
  "token_column_store (column_token c) (find_by_token_column E c) (update_token_fields E c)"
proof (unfold_locales, goal_cases sound complete reads set)
  case (sound tok w x w')
  then show ?case
    by (auto simp: find_by_token_column_def exec_simps dest!: sym [of "Some _"] find_Some_iff2)
next
  case (complete tok w w' u)
  then show ?case by (auto simp: find_by_token_column_def exec_simps find_None_iff2)
next
  case (reads tok w r w')
  then show ?case by (auto simp: find_by_token_column_def exec_simps)
next
  case (set n tok t w w')
  then show ?case
    by (intro exI [of _ "set_column c tok t"]) (auto simp: update_token_fields_def exec_simps)
qed

interpretation reset_tokens: token_column_store
  "column_token ResetToken" "users_find_by_reset_token E" "users_set_reset_token E" for E
  unfolding users_find_by_reset_token_def users_set_reset_token_def
  by (rule token_column_contract)

interpretation verification_tokens: token_column_store
  "column_token EmailVerificationToken" "users_find_by_email_verification_token E"
  "users_set_email_verification E" for E
  unfolding users_find_by_email_verification_token_def users_set_email_verification_def
  by (rule token_column_contract)

interpretation magic_links: token_column_store
  "column_token MagicLinkToken" "users_find_by_magic_link_token E" "users_set_magic_link E" for E
  unfolding users_find_by_magic_link_token_def users_set_magic_link_def
  by (rule token_column_contract)

subsection \<open>Spending a token\<close>

text \<open>A column whose token is spent by an update that empties it.\<close>

locale spendable_column = token_column_store +
  fixes spend :: "string \<Rightarrow> 'x \<Rightarrow> (domain_error, unit) action"
  assumes spend_law:
    "spend n x w = (Inr (), w') \<Longrightarrow>
       \<exists>g. (\<forall>u. column (g u) = None) \<and>
           w_db w' = (w_db w)\<lparr>db_users := update_where (active n) g (db_users (w_db w))\<rparr>"
begin

lemma spent_once:
  assumes found: "find_by tok w = (Inr (Some x), w1)" and same: "w_db w2 = w_db w1"
    and spend: "spend (u_username x) y w2 = (Inr (), w3)"
    and unique: "\<And>u v. u \<in> set (db_users (w_db w)) \<Longrightarrow> v \<in> set (db_users (w_db w)) \<Longrightarrow>
      column u = Some tok \<Longrightarrow> column v = Some tok \<Longrightarrow> u = v"
    and later: "db_users (w_db w4) = db_users (w_db w3)" and again: "find_by tok w4 = (Inr r, w5)"
  shows "r = None"
proof (rule ccontr)
  assume "r \<noteq> None"
  then obtain y' where "find_by tok w4 = (Inr (Some y'), w5)" using again by auto
  then obtain v where v: "v \<in> set (db_users (w_db w4))" "column v = Some tok"
    using find_sound by blast
  obtain u where u: "u \<in> set (db_users (w_db w))" "column u = Some tok" "ur_deleted_at u = None" "x = map_user u"
    using find_sound [OF found] by blast
  obtain g where g: "\<And>u. column (g u) = None"
    and d: "w_db w3 = (w_db w2)\<lparr>db_users := update_where (active (u_username x)) g (db_users (w_db w2))\<rparr>"
    using spend_law [OF spend] by blast
  have db: "db_users (w_db w2) = db_users (w_db w)" using same find_reads [OF found] by simp
  from v(1) have "v \<in> set (db_users (w_db w)) \<and> \<not> active (u_username x) v"
    using v(2) g by (auto simp: later d db elim: in_update_whereE)
  moreover have "v = u" using calculation unique v(2) u(1,2) by blast
  ultimately show False using u(3,4) by (simp add: active_def map_user_def)
qed

end

interpretation reset_spending: spendable_column
  "column_token ResetToken" "users_find_by_reset_token E" "users_set_reset_token E" "users_reset_password E" for E
proof unfold_locales
  fix n x w w'
  assume "users_reset_password E n x w = (Inr (), w')"
  then show "\<exists>g. (\<forall>u. column_token ResetToken (g u) = None) \<and>
      w_db w' = (w_db w)\<lparr>db_users := update_where (active n) g (db_users (w_db w))\<rparr>"
    by (intro exI [of _ "\<lambda>u. u\<lparr>ur_password_hash := x, ur_reset_token := None, ur_reset_sent_at := None\<rparr>"])
      (auto simp: users_reset_password_def exec_simps)
qed

interpretation magic_link_spending: spendable_column
  "column_token MagicLinkToken" "users_find_by_magic_link_token E" "users_set_magic_link E"
  "\<lambda>n (_::unit). users_clear_magic_link E n" for E
proof unfold_locales
  fix n x w w'
  assume "users_clear_magic_link E n w = (Inr (), w')"
  then show "\<exists>g. (\<forall>u. column_token MagicLinkToken (g u) = None) \<and>
      w_db w' = (w_db w)\<lparr>db_users := update_where (active n) g (db_users (w_db w))\<rparr>"
    by (intro exI [of _ "\<lambda>u. u\<lparr>ur_magic_link_token := None, ur_magic_link_expires_at := None\<rparr>"])
      (auto simp: users_clear_magic_link_def exec_simps)
qed

lemma user_at_active_update:
  assumes "user_at d n = Some u" "ur_deleted_at u = None" "\<And>u. ur_username (g u) = ur_username u"
  shows "user_at (d\<lparr>db_users := update_where (active n) g (db_users d)\<rparr>) n = Some (g u)"
proof -
  have "ur_username u = n" using assms(1) by (auto simp: user_at_def dest: find_key_Some)
  with assms show ?thesis by (simp add: user_at_def find_key_update_where active_def)
qed

end
