(* ===== verification/Managed_User_Writer.thy ===== *)
theory Managed_User_Writer
  imports User_Repository
begin

text \<open>
  The transactional writer of managed users
  (\<^verbatim>\<open>sqlx/src/identity/users/sqlite_managed_writer.rs\<close>): every operation changes the users table
  and enqueues its mail and search commands in the outbox in one transaction.
\<close>

section \<open>The outbox\<close>

definition SEND_MAIL_JOB :: string where "SEND_MAIL_JOB = ''mail.send.v1''"
definition SEARCH_INDEX_JOB :: string where "SEARCH_INDEX_JOB = ''search.index.v1''"
definition USER_INDEX :: string where "USER_INDEX = ''identity_users''"

definition db_failure :: "env \<Rightarrow> sqlx_error \<Rightarrow> application_error" where
  "db_failure E e = Infrastructure (env_error_text E e)"

text \<open>
  \<^verbatim>\<open>INSERT INTO outbox_messages ... ON CONFLICT (name, idempotency_key) DO UPDATE SET name = name\<close>
  keeps the row that is there.
\<close>

definition outbox_key :: "outbox_row \<Rightarrow> (string \<times> string) option" where
  "outbox_key m = map_option (Pair (ob_name m)) (ob_idempotency_key m)"

definition outbox_insert :: "outbox_row \<Rightarrow> database \<Rightarrow> database" where
  "outbox_insert m d =
     (if outbox_key m \<noteq> None \<and> (\<exists>r \<in> set (db_outbox d). outbox_key r = outbox_key m) then d
      else d\<lparr>db_outbox := db_outbox d @ [m]\<rparr>)"

definition enqueue_outbox ::
    "env \<Rightarrow> string \<Rightarrow> job_payload \<Rightarrow> string option \<Rightarrow> (application_error, unit) action" where
  "enqueue_outbox E name payload idempotency_key =
     bindE (utc_now E) (\<lambda>now. bindE (new_uuid E) (\<lambda>id.
       map_err (db_failure E) (sql E (\<lambda>_ d.
         ((), outbox_insert
            \<lparr>ob_id = id, ob_name = name, ob_payload = payload, ob_idempotency_key = idempotency_key,
             ob_attempts = 0, ob_max_attempts = 5, ob_available_at = now, ob_locked_at = None,
             ob_lock_owner = None, ob_processed_at = None, ob_last_error = None,
             ob_created_at = now\<rparr> d)))))"

definition mail_key :: "string \<Rightarrow> string \<Rightarrow> instant \<Rightarrow> string" where
  "mail_key purpose username time =
     ''mail:'' @ purpose @ '':'' @ username @ '':'' @ int_to_string (timestamp_micros time)"

definition enqueue_mail ::
    "env \<Rightarrow> transactional_mail \<Rightarrow> string \<Rightarrow> string \<Rightarrow> instant \<Rightarrow> (application_error, unit) action" where
  "enqueue_mail E mail purpose username time =
     enqueue_outbox E SEND_MAIL_JOB (MailPayload mail)
       (Some (mail_key purpose username time))"

definition enqueue_search ::
    "env \<Rightarrow> search_index_command \<Rightarrow> uuid \<Rightarrow> int \<Rightarrow> (application_error, unit) action" where
  "enqueue_search E command pid revision =
     enqueue_outbox E SEARCH_INDEX_JOB (SearchPayload command)
       (Some (USER_INDEX @ '':'' @ pid @ '':'' @ int_to_string revision))"

definition enqueue_user_upsert ::
    "env \<Rightarrow> uuid \<Rightarrow> string \<Rightarrow> instant \<Rightarrow> bool \<Rightarrow> string list \<Rightarrow> int \<Rightarrow> (application_error, unit) action" where
  "enqueue_user_upsert E pid username created_at is_verified roles revision =
     enqueue_search E
       (SearchUpsert USER_INDEX
          [\<lparr>sd_id = pid, sd_username = username, sd_created_at = created_at,
            sd_is_verified = is_verified, sd_roles = roles\<rparr>] (Some revision)) pid revision"

definition enqueue_upsert ::
    "env \<Rightarrow> user \<Rightarrow> string list \<Rightarrow> int \<Rightarrow> (application_error, unit) action" where
  "enqueue_upsert E user roles revision =
     enqueue_user_upsert E (u_pid user) (u_username user) (u_created_at user)
       (u_email_verified_at user \<noteq> None) roles revision"

section \<open>Helpers inside a transaction\<close>

definition fetch_user :: "env \<Rightarrow> string \<Rightarrow> (application_error, user option) action" where
  "fetch_user E username =
     map_err (db_failure E) (query E (\<lambda>d. map_option map_user (find (active username) (db_users d))))"

definition fetch_roles :: "env \<Rightarrow> int \<Rightarrow> (application_error, string list) action" where
  "fetch_roles E user_id =
     map_err (db_failure E) (query E (\<lambda>d.
       sort (map url_role_name (filter (\<lambda>r. url_user_id r = user_id) (db_user_roles d)))))"

definition set_roles :: "env \<Rightarrow> string \<Rightarrow> string list \<Rightarrow> (application_error, unit) action" where
  "set_roles E username roles =
     bindE (map_err (db_failure E) (query E (\<lambda>d. map_option ur_id (user_at d username)))) (\<lambda>row.
     bindE (ok_or row (db_failure E RowNotFound)) (\<lambda>id.
     seqE (map_err (db_failure E) (sql E (\<lambda>_ d.
        ((), d\<lparr>db_user_roles := delete_where (\<lambda>r. url_user_id r = id) (db_user_roles d)\<rparr>))))
     (for_each (\<lambda>role. map_err (db_failure E) (sql E (\<lambda>n d.
        ((), add_user_role (env_now E n) id role d)))) roles)))"

section \<open>The operations\<close>

record create_managed_user =
  cm_username :: string
  cm_password_hash :: string
  cm_email_verified_at :: "instant option"
  cm_roles :: "string list"
  cm_publish_search :: bool

record update_managed_user =
  um_username :: string
  um_password_hash :: "string option"
  um_email_verified_at :: "instant option"
  um_roles :: "string list"
  um_publish_search :: bool

record register_managed_user =
  rm_username :: string
  rm_password_hash :: string
  rm_verification_token :: string
  rm_verification_sent_at :: instant
  rm_publish_search :: bool
  rm_mail :: "transactional_mail option"

definition writer_register ::
    "env \<Rightarrow> register_managed_user \<Rightarrow> (application_error, user) action" where
  "writer_register E c = transaction E (db_failure E)
     (bindE (new_uuid E) (\<lambda>pid. bindE (utc_now E) (\<lambda>created_at.
      bindE (map_err (db_failure E) (sql E (\<lambda>_. insert_user_or_nothing
        ((new_user_row pid (rm_username c) (rm_password_hash c) created_at)
          \<lparr>ur_email_verification_token := Some (rm_verification_token c),
           ur_email_verification_sent_at := Some (rm_verification_sent_at c)\<rparr>)))) (\<lambda>inserted.
      bindE (ok_or (map_option ur_search_revision inserted) (Conflict ''user already exists'')) (\<lambda>revision.
      bindE (fetch_user E (rm_username c)) (\<lambda>found.
      bindE (ok_or found (Unexpected ''registered user was not found'')) (\<lambda>user.
      seqE (whenE (rm_publish_search c) (enqueue_upsert E user [] revision))
      (seqE (case rm_mail c of
               None \<Rightarrow> ret ()
             | Some mail \<Rightarrow> enqueue_mail E mail ''verify_email'' (rm_username c) (rm_verification_sent_at c))
        (ret (Commit user))))))))))"

definition publish_updated ::
    "env \<Rightarrow> bool \<Rightarrow> string \<Rightarrow> int \<Rightarrow> string \<Rightarrow> (application_error, unit) action" where
  "publish_updated E publish_search username revision missing =
     whenE publish_search
       (bindE (fetch_user E username) (\<lambda>found.
        bindE (ok_or found (Unexpected missing)) (\<lambda>user.
        bindE (fetch_roles E (u_id user)) (\<lambda>roles.
        enqueue_upsert E user roles revision))))"

definition verifiable :: "string \<Rightarrow> instant \<Rightarrow> user_row \<Rightarrow> bool" where
  "verifiable token verified_at u \<longleftrightarrow>
     ur_email_verification_token u = Some token \<and>
     is_some_and (\<lambda>t. t > verified_at - hours 24) (ur_email_verification_sent_at u) \<and>
     ur_deleted_at u = None"

definition writer_verify_email ::
    "env \<Rightarrow> string \<Rightarrow> instant \<Rightarrow> bool \<Rightarrow> (application_error, bool) action" where
  "writer_verify_email E token verified_at publish_search = transaction E (db_failure E)
     (bindE (map_err (db_failure E) (update_users_returning E (verifiable token verified_at)
        (\<lambda>u. u\<lparr>ur_email_verified_at := Some verified_at, ur_email_verification_token := None,
               ur_email_verification_sent_at := None,
               ur_search_revision := ur_search_revision u + 1\<rparr>))) (\<lambda>verified.
      case verified of
        None \<Rightarrow> ret (Dropped False)
      | Some u \<Rightarrow>
          seqE (publish_updated E publish_search (ur_username u) (ur_search_revision u)
                  ''verified user was not found'')
            (ret (Commit True))))"

definition update_token_with_mail ::
    "env \<Rightarrow> token_column \<Rightarrow> (user_row \<Rightarrow> bool) \<Rightarrow> string \<Rightarrow> string \<Rightarrow> instant \<Rightarrow> transactional_mail
      \<Rightarrow> string \<Rightarrow> (application_error, bool) action" where
  "update_token_with_mail E column extra_predicate username token time mail purpose =
     transaction E (db_failure E)
       (bindE (map_err (db_failure E) (update_users E
          (\<lambda>u. active username u \<and> extra_predicate u) (set_column column token time))) (\<lambda>affected.
        seqE (whenE (affected = 1) (enqueue_mail E mail purpose username time))
          (ret (Commit (affected = 1)))))"

definition writer_set_reset_token_with_mail ::
    "env \<Rightarrow> string \<Rightarrow> string \<Rightarrow> instant \<Rightarrow> transactional_mail \<Rightarrow> (application_error, bool) action" where
  "writer_set_reset_token_with_mail E username token sent_at mail =
     update_token_with_mail E ResetToken (\<lambda>_. True) username token sent_at mail ''reset_password''"

definition writer_set_verification_with_mail ::
    "env \<Rightarrow> string \<Rightarrow> string \<Rightarrow> instant \<Rightarrow> transactional_mail \<Rightarrow> (application_error, bool) action" where
  "writer_set_verification_with_mail E username token sent_at mail =
     update_token_with_mail E EmailVerificationToken (\<lambda>u. ur_email_verified_at u = None)
       username token sent_at mail ''verify_email''"

definition writer_set_magic_link_with_mail ::
    "env \<Rightarrow> string \<Rightarrow> string \<Rightarrow> instant \<Rightarrow> transactional_mail \<Rightarrow> (application_error, bool) action" where
  "writer_set_magic_link_with_mail E username token expires_at mail =
     update_token_with_mail E MagicLinkToken (\<lambda>_. True) username token expires_at mail ''magic_link''"

definition writer_request_email_change ::
    "env \<Rightarrow> string \<Rightarrow> string \<Rightarrow> string \<Rightarrow> instant \<Rightarrow> transactional_mail option
      \<Rightarrow> (application_error, bool) action" where
  "writer_request_email_change E username new_email token sent_at mail =
     transaction E (db_failure E)
       (bindE (map_err (db_failure E) (sql E (\<lambda>_ d.
          (let P = (\<lambda>u. active username u \<and> \<not> (\<exists>v \<in> set (db_users d). active new_email v))
           in (rows_affected P (db_users d),
               d\<lparr>db_users := update_where P
                  (\<lambda>u. u\<lparr>ur_pending_email := Some new_email, ur_email_change_token := Some token,
                         ur_email_change_sent_at := Some sent_at\<rparr>) (db_users d)\<rparr>))))) (\<lambda>affected.
        seqE (case mail of
                Some m \<Rightarrow> whenE (affected = 1) (enqueue_mail E m ''change_email'' username sent_at)
              | None \<Rightarrow> ret ())
          (ret (Commit (affected = 1)))))"

definition email_changeable :: "string \<Rightarrow> instant \<Rightarrow> user_row \<Rightarrow> bool" where
  "email_changeable token confirmed_at u \<longleftrightarrow>
     ur_email_change_token u = Some token \<and>
     is_some_and (\<lambda>t. t > confirmed_at - hours 1) (ur_email_change_sent_at u) \<and>
     ur_pending_email u \<noteq> None \<and> ur_deleted_at u = None"

definition email_changed :: "instant \<Rightarrow> user_row \<Rightarrow> user_row" where
  "email_changed confirmed_at u =
     u\<lparr>ur_username := (case ur_pending_email u of Some e \<Rightarrow> e | None \<Rightarrow> ur_username u),
       ur_pending_email := None, ur_email_change_token := None, ur_email_change_sent_at := None,
       ur_email_verified_at := Some confirmed_at, ur_search_revision := ur_search_revision u + 1\<rparr>"

definition writer_confirm_email_change ::
    "env \<Rightarrow> string \<Rightarrow> instant \<Rightarrow> bool \<Rightarrow> (application_error, bool) action" where
  "writer_confirm_email_change E token confirmed_at publish_search = transaction E (db_failure E)
     (bindE (map_err (db_failure E) (update_users_returning E (email_changeable token confirmed_at)
        (email_changed confirmed_at))) (\<lambda>changed.
      case changed of
        None \<Rightarrow> ret (Dropped False)
      | Some u \<Rightarrow>
          seqE (publish_updated E publish_search (ur_username u) (ur_search_revision u)
                  ''changed user was not found'')
            (ret (Commit True))))"

definition recreated :: "create_managed_user \<Rightarrow> user_row \<Rightarrow> user_row" where
  "recreated c u =
     (revived (cm_password_hash c) u)
       \<lparr>ur_email_verified_at := cm_email_verified_at c, ur_search_revision := ur_search_revision u + 1\<rparr>"

definition writer_create :: "env \<Rightarrow> create_managed_user \<Rightarrow> (application_error, user) action" where
  "writer_create E c = transaction E (db_failure E)
     (bindE (new_uuid E) (\<lambda>pid. bindE (utc_now E) (\<lambda>now.
      bindE (map_err (db_failure E) (sql E (\<lambda>_. insert_user_or_revive
        ((new_user_row pid (cm_username c) (cm_password_hash c) now)
          \<lparr>ur_email_verified_at := cm_email_verified_at c\<rparr>) (recreated c)))) (\<lambda>row.
      bindE (ok_or (map_option ur_search_revision row) (Conflict ''user already exists'')) (\<lambda>revision.
      seqE (set_roles E (cm_username c) (cm_roles c))
      (bindE (fetch_user E (cm_username c)) (\<lambda>found.
      bindE (ok_or found (Unexpected ''created user was not found'')) (\<lambda>user.
      seqE (whenE (cm_publish_search c) (enqueue_upsert E user (cm_roles c) revision))
        (ret (Commit user))))))))))"

definition writer_update ::
    "env \<Rightarrow> update_managed_user \<Rightarrow> (application_error, user option) action" where
  "writer_update E c = transaction E (db_failure E)
     (bindE (map_err (db_failure E) (update_users_returning E (active (um_username c))
        (case um_password_hash c of
           Some hash \<Rightarrow> (\<lambda>u. u\<lparr>ur_password_hash := hash, ur_email_verified_at := um_email_verified_at c,
             ur_search_revision := ur_search_revision u + 1\<rparr>)
         | None \<Rightarrow> (\<lambda>u. u\<lparr>ur_email_verified_at := um_email_verified_at c,
             ur_search_revision := ur_search_revision u + 1\<rparr>)))) (\<lambda>updated.
      case updated of
        None \<Rightarrow> ret (Dropped None)
      | Some row \<Rightarrow>
          seqE (set_roles E (um_username c) (um_roles c))
          (bindE (fetch_user E (um_username c)) (\<lambda>found.
          bindE (ok_or found (Unexpected ''updated user was not found'')) (\<lambda>user.
          seqE (whenE (um_publish_search c) (enqueue_upsert E user (um_roles c) (ur_search_revision row)))
            (ret (Commit (Some user))))))))"

definition writer_delete :: "env \<Rightarrow> string \<Rightarrow> bool \<Rightarrow> (application_error, bool) action" where
  "writer_delete E username publish_search = transaction E (db_failure E)
     (bindE (utc_now E) (\<lambda>now.
      bindE (map_err (db_failure E) (update_users_returning E (active username)
        (\<lambda>u. u\<lparr>ur_deleted_at := Some now, ur_search_revision := ur_search_revision u + 1\<rparr>))) (\<lambda>deleted.
      case deleted of
        None \<Rightarrow> ret (Dropped False)
      | Some u \<Rightarrow>
          seqE (whenE publish_search (enqueue_search E
                  (SearchDelete USER_INDEX (ur_pid u) (Some (ur_search_revision u)))
                  (ur_pid u) (ur_search_revision u)))
            (ret (Commit True)))))"

section \<open>Properties\<close>

subsection \<open>The outbox\<close>

text \<open>Enqueueing touches nothing but the outbox.\<close>

definition no_outbox :: "database \<Rightarrow> database" where
  "no_outbox d = d\<lparr>db_outbox := []\<rparr>"

lemma no_outbox_insert [simp]: "no_outbox (outbox_insert m d) = no_outbox d"
  by (simp add: no_outbox_def outbox_insert_def)

lemma no_outbox_tables:
  assumes "no_outbox d' = no_outbox d"
  shows "db_users d' = db_users d" "db_sessions d' = db_sessions d" "db_roles d' = db_roles d"
    "db_user_roles d' = db_user_roles d" "db_connections d' = db_connections d"
    "db_users_seq d' = db_users_seq d" "db_role_permissions d' = db_role_permissions d"
    "db_permissions d' = db_permissions d" "db_oauth_states d' = db_oauth_states d"
    "db_pending_signups d' = db_pending_signups d"
  using assms by (cases d; cases d'; simp add: no_outbox_def)+

lemma enqueue_outbox_frame: "steps (db_rel (db_same no_outbox)) (enqueue_outbox E n p k)"
  unfolding enqueue_outbox_def
  by (intro same_intros same.steps_sql) (simp add: db_same_def)

lemma enqueue_frames:
  "steps (db_rel (db_same no_outbox)) (enqueue_mail E mail purpose username t)"
  "steps (db_rel (db_same no_outbox)) (enqueue_search E command pid revision)"
  "steps (db_rel (db_same no_outbox)) (enqueue_upsert E user roles revision)"
  by (simp_all add: enqueue_mail_def enqueue_search_def enqueue_upsert_def enqueue_user_upsert_def
      enqueue_outbox_frame)

lemma publish_updated_frame:
  "steps (db_rel (db_same no_outbox)) (publish_updated E b username revision missing)"
  unfolding publish_updated_def fetch_user_def fetch_roles_def
  by (intro same_intros enqueue_frames)

lemma enqueue_outbox_Inr:
  assumes "enqueue_outbox E n p k w = (Inr u, w')"
  shows "\<exists>m. w_db w' = outbox_insert m (w_db w) \<and> ob_name m = n \<and> ob_payload m = p \<and>
    ob_idempotency_key m = k \<and> ob_attempts m = 0 \<and> ob_processed_at m = None \<and> ob_locked_at m = None"
  using assms by (auto simp: enqueue_outbox_def exec_simps)

lemma outbox_insert_present:
  "outbox_key m = Some k \<Longrightarrow> \<exists>r \<in> set (db_outbox (outbox_insert m d)). outbox_key r = Some k"
  by (auto simp: outbox_insert_def)

lemma outbox_insert_again:
  "outbox_key m = Some k \<Longrightarrow> outbox_key m' = Some k \<Longrightarrow>
     outbox_insert m' (outbox_insert m d) = outbox_insert m d"
  using outbox_insert_present [of m k d] by (simp add: outbox_insert_def [of m'])

lemma enqueue_mail_queued:
  assumes "enqueue_mail E mail purpose username t w = (Inr u, w')"
  shows "\<exists>r \<in> set (db_outbox (w_db w')). outbox_key r =
    Some (SEND_MAIL_JOB, mail_key purpose username t)"
proof -
  obtain m where "w_db w' = outbox_insert m (w_db w)"
    "outbox_key m = Some (SEND_MAIL_JOB, mail_key purpose username t)"
    using enqueue_outbox_Inr [OF assms [unfolded enqueue_mail_def]] by (auto simp: outbox_key_def)
  then show ?thesis using outbox_insert_present by metis
qed

lemma enqueue_schema:
  "steps (db_rel (db_inv schema_ok)) (enqueue_outbox E n p k)"
  "steps (db_rel (db_inv schema_ok)) (enqueue_mail E mail purpose username t)"
  "steps (db_rel (db_inv schema_ok)) (enqueue_search E command pid revision)"
  "steps (db_rel (db_inv schema_ok)) (enqueue_user_upsert E pid username t b roles revision)"
  "steps (db_rel (db_inv schema_ok)) (enqueue_upsert E user roles revision)"
  unfolding enqueue_mail_def enqueue_search_def enqueue_upsert_def enqueue_user_upsert_def
    enqueue_outbox_def by (intro schema_intros)+

subsection \<open>Users are never removed and their search revision never decreases\<close>

definition users_kept :: "database \<Rightarrow> database \<Rightarrow> bool" where
  "users_kept d d' \<longleftrightarrow>
     (\<forall>u \<in> set (db_users d). \<exists>u' \<in> set (db_users d').
        ur_id u' = ur_id u \<and> ur_pid u' = ur_pid u \<and> ur_search_revision u \<le> ur_search_revision u')"

interpretation kept: db_relation users_kept
proof unfold_locales
  fix a b c
  assume "users_kept a b" "users_kept b c"
  then show "users_kept a c" unfolding users_kept_def by (metis order_trans)
qed (auto simp: users_kept_def)

definition revision_kept :: "(user_row \<Rightarrow> user_row) \<Rightarrow> bool" where
  "revision_kept g \<longleftrightarrow>
     (\<forall>u. ur_id (g u) = ur_id u \<and> ur_pid (g u) = ur_pid u \<and> ur_search_revision u \<le> ur_search_revision (g u))"

lemma kept_update_where:
  "revision_kept g \<Longrightarrow> users_kept d (d\<lparr>db_users := update_where P g (db_users d)\<rparr>)"
  unfolding users_kept_def revision_kept_def set_update_where
  by (auto simp: set_update_where)

lemma kept_same_users: "db_users d' = db_users d \<Longrightarrow> users_kept d d'"
  by (auto simp: users_kept_def)

lemma kept_insert_row: "users_kept d (snd (insert_user_row row d))"
  by (auto simp: users_kept_def insert_user_row_def Let_def)

lemma kept_insert_or_nothing: "users_kept d (snd (insert_user_or_nothing row d))"
  using kept_insert_row [of d row]
  by (auto simp: insert_user_or_nothing_def kept_same_users split: option.splits prod.splits)

lemma kept_insert_or_revive:
  "revision_kept g \<Longrightarrow> users_kept d (snd (insert_user_or_revive row g d))"
  using kept_insert_row [of d row]
  by (auto simp: insert_user_or_revive_def kept_same_users kept_update_where
      split: option.splits prod.splits)

lemma kept_update_users: "revision_kept g \<Longrightarrow> steps (db_rel users_kept) (update_users E P g)"
  unfolding update_users_def by (rule kept.steps_sql) (simp add: kept_update_where)

lemma kept_update_users_returning:
  "revision_kept g \<Longrightarrow> steps (db_rel users_kept) (update_users_returning E P g)"
  unfolding update_users_returning_def by (rule kept.steps_sql) (simp add: kept_update_where)

lemmas kept_intros =
  kept.steps_combinators kept.steps_utc_now kept.steps_new_uuid kept.steps_query
  kept.steps_query_at kept.steps_transaction kept_update_users kept_update_users_returning

lemma same_kept:
  assumes "steps (db_rel (db_same f)) m" "\<And>d d'. f d' = f d \<Longrightarrow> db_users d' = db_users d"
  shows "steps (db_rel users_kept) m"
  using assms unfolding steps_def db_rel_def db_same_def by (meson kept_same_users)

lemmas enqueue_kept =
  enqueue_frames [THEN same_kept, OF no_outbox_tables(1)]
  publish_updated_frame [THEN same_kept, OF no_outbox_tables(1)]

lemma set_roles_kept: "steps (db_rel users_kept) (set_roles E username roles)"
  unfolding set_roles_def
  by (intro kept_intros kept.steps_sql) (auto simp: kept_same_users add_user_role_def)

lemma fetch_kept:
  "steps (db_rel users_kept) (fetch_user E username)"
  "steps (db_rel users_kept) (fetch_roles E i)"
  unfolding fetch_user_def fetch_roles_def by (intro kept_intros)+

lemma revision_kept_set_column: "revision_kept (set_column c tok t)"
  by (cases c) (auto simp: revision_kept_def)

lemmas writer_kept_intros = kept_intros enqueue_kept set_roles_kept fetch_kept

lemma writer_register_kept: "steps (db_rel users_kept) (writer_register E c)"
  unfolding writer_register_def
  by (intro writer_kept_intros kept.steps_sql) (auto simp: kept_insert_or_nothing)

lemma writer_create_kept: "steps (db_rel users_kept) (writer_create E c)"
  unfolding writer_create_def
  by (intro writer_kept_intros kept.steps_sql kept_insert_or_revive)
    (auto simp: revision_kept_def recreated_def revived_def)

lemma writer_verify_email_kept: "steps (db_rel users_kept) (writer_verify_email E tok t b)"
  unfolding writer_verify_email_def
  by (intro writer_kept_intros) (auto simp: revision_kept_def)

lemma writer_update_kept: "steps (db_rel users_kept) (writer_update E c)"
  unfolding writer_update_def
  by (intro writer_kept_intros) (auto simp: revision_kept_def split: option.split)

lemma writer_delete_kept: "steps (db_rel users_kept) (writer_delete E n b)"
  unfolding writer_delete_def
  by (intro writer_kept_intros) (auto simp: revision_kept_def)

lemma writer_confirm_kept: "steps (db_rel users_kept) (writer_confirm_email_change E tok t b)"
  unfolding writer_confirm_email_change_def
  by (intro writer_kept_intros) (auto simp: revision_kept_def email_changed_def)

lemma writer_request_kept:
  "steps (db_rel users_kept) (writer_request_email_change E n new tok t mail)"
  unfolding writer_request_email_change_def
  by (intro writer_kept_intros kept.steps_sql)
    (auto simp: Let_def revision_kept_def intro!: kept_update_where)

lemma update_token_with_mail_kept:
  "steps (db_rel users_kept) (update_token_with_mail E c P n tok t mail purpose)"
  unfolding update_token_with_mail_def
  by (intro writer_kept_intros revision_kept_set_column)

subsection \<open>Successful runs\<close>

lemma update_returning_Some:
  assumes "update_users_returning E P g w = (Inr (Some r), w')"
  obtains u where "u \<in> set (db_users (w_db w))" "P u" "r = g u"
    "w_db w' = (w_db w)\<lparr>db_users := update_where P g (db_users (w_db w))\<rparr>" "schema_ok (w_db w')"
  using assms by (auto simp: exec_simps dest!: sym [of "Some _"] find_Some_iff2)

lemma writer_register_Inr:
  assumes "writer_register E c w = (Inr user, w')"
  shows "\<exists>row. user_at (w_db w) (rm_username c) = None \<and>
    db_users (w_db w') = db_users (w_db w) @ [row] \<and> user = map_user row \<and>
    ur_username row = rm_username c \<and> ur_password_hash row = rm_password_hash c \<and>
    ur_email_verification_token row = Some (rm_verification_token c) \<and>
    ur_email_verified_at row = None \<and> ur_deleted_at row = None \<and>
    db_sessions (w_db w') = db_sessions (w_db w) \<and>
    (rm_mail c \<noteq> None \<longrightarrow> (\<exists>r \<in> set (db_outbox (w_db w')). outbox_key r =
       Some (SEND_MAIL_JOB, mail_key ''verify_email'' (rm_username c) (rm_verification_sent_at c))))"
proof -
  let ?row = "(new_user_row (env_uuid E (Suc (w_tick w))) (rm_username c) (rm_password_hash c)
      (env_now E (Suc (Suc (w_tick w)))))
        \<lparr>ur_email_verification_token := Some (rm_verification_token c),
         ur_email_verification_sent_at := Some (rm_verification_sent_at c)\<rparr>"
  from assms obtain w1 w2 w3 w4 inserted d where
    ins: "insert_user_or_nothing ?row (w_db w) = (Some inserted, d)" and
    fetch: "fetch_user E (rm_username c) w1 = (Inr (Some user), w2)" and
    pub: "whenE (rm_publish_search c) (enqueue_upsert E user [] (ur_search_revision inserted)) w2 = (Inr (), w3)" and
    mail: "(case rm_mail c of None \<Rightarrow> ret ()
       | Some m \<Rightarrow> enqueue_mail E m ''verify_email'' (rm_username c) (rm_verification_sent_at c)) w3 = (Inr (), w4)" and
    w': "w' = ticked w4" and w1: "w_db w1 = d"
    by (clarsimp simp: writer_register_def transaction_Inr_iff exec_simps)
  have none: "user_at (w_db w) (rm_username c) = None" and
    row: "inserted = ?row\<lparr>ur_id := db_users_seq (w_db w) + 1\<rparr>" and
    d: "d = (w_db w)\<lparr>db_users := db_users (w_db w) @ [inserted], db_users_seq := db_users_seq (w_db w) + 1\<rparr>"
    using ins by (auto simp: insert_user_or_nothing_def insert_user_row_def new_user_row_def Let_def
        split: option.splits)
  have w2: "w_db w2 = d" and found: "map_option map_user (find (active (rm_username c)) (db_users d)) = Some user"
    using fetch w1 by (auto simp: fetch_user_def exec_simps)
  have fields: "ur_username inserted = rm_username c" "ur_password_hash inserted = rm_password_hash c"
    "ur_email_verification_token inserted = Some (rm_verification_token c)"
    "ur_email_verified_at inserted = None" "ur_deleted_at inserted = None"
    by (simp_all add: row new_user_row_def)
  have "find (active (rm_username c)) (db_users d) = Some inserted"
    using none fields by (auto simp: d find_append active_def user_at_def find_None_iff2
        split: option.splits dest!: find_Some_iff2)
  with found have user: "user = map_user inserted" by simp
  have "no_outbox (w_db w3) = no_outbox (w_db w2)"
    by (rule same_run [OF same.steps_whenE [OF enqueue_frames(3)] pub])
  moreover have "no_outbox (w_db w4) = no_outbox (w_db w3)"
    using mail by (cases "rm_mail c") (auto intro: same_run [OF enqueue_frames(1)])
  ultimately have "no_outbox (w_db w4) = no_outbox d" by (simp add: w2)
  from no_outbox_tables [OF this]
  have tables: "db_users (w_db w') = db_users (w_db w) @ [inserted]"
    "db_sessions (w_db w') = db_sessions (w_db w)" by (simp_all add: w' d)
  have "\<exists>r \<in> set (db_outbox (w_db w')). outbox_key r =
       Some (SEND_MAIL_JOB, mail_key ''verify_email'' (rm_username c) (rm_verification_sent_at c))"
    if "rm_mail c \<noteq> None" using mail that by (auto simp: w' intro: enqueue_mail_queued)
  with none user fields tables show ?thesis by blast
qed

text \<open>The common shape of verification, confirmation and deletion: one update, then a publication.\<close>

lemma update_publish_run:
  assumes run: "transaction E conv
      (bindE (map_err conv (update_users_returning E P g)) (\<lambda>r. case r of
         None \<Rightarrow> ret (Dropped False) | Some u \<Rightarrow> seqE (pub u) (ret (Commit True)))) w = (Inr b, w')"
    and frame: "\<And>u. steps (db_rel (db_same no_outbox)) (pub u)"
  shows "b = (\<exists>u \<in> set (db_users (w_db w)). P u)"
    "no_outbox (w_db w') = no_outbox ((w_db w)\<lparr>db_users := update_where P g (db_users (w_db w))\<rparr>)"
proof -
  let ?d = "(w_db w)\<lparr>db_users := update_where P g (db_users (w_db w))\<rparr>"
  have "b = (\<exists>u \<in> set (db_users (w_db w)). P u) \<and> no_outbox (w_db w') = no_outbox ?d"
  proof (cases "find P (db_users (w_db w))")
    case None
    then have none: "\<not> (\<exists>u \<in> set (db_users (w_db w)). P u)" by (auto simp: find_None_iff2)
    then have "update_where P g (db_users (w_db w)) = db_users (w_db w)"
      by (intro update_where_none) auto
    with None run none show ?thesis
      by (clarsimp simp: transaction_Inr_iff exec_simps)
  next
    case (Some u)
    with run obtain w1 w2 x where b: "b" and pub: "pub (g u) w1 = (Inr x, w2)" and
      "w_db w1 = ?d" "w' = ticked w2"
      by (clarsimp simp: transaction_Inr_iff exec_simps)
    moreover have "no_outbox (w_db w2) = no_outbox (w_db w1)" by (rule same_run [OF frame pub])
    ultimately show ?thesis using Some by (auto dest: find_Some_iff2)
  qed
  then show "b = (\<exists>u \<in> set (db_users (w_db w)). P u)" "no_outbox (w_db w') = no_outbox ?d"
    by auto
qed

lemma writer_verify_email_run:
  assumes "writer_verify_email E tok t pub w = (Inr b, w')"
  shows "b = (\<exists>u \<in> set (db_users (w_db w)). verifiable tok t u)"
    "no_outbox (w_db w') = no_outbox ((w_db w)\<lparr>db_users := update_where (verifiable tok t)
       (\<lambda>u. u\<lparr>ur_email_verified_at := Some t, ur_email_verification_token := None,
              ur_email_verification_sent_at := None, ur_search_revision := ur_search_revision u + 1\<rparr>)
       (db_users (w_db w))\<rparr>)"
  using update_publish_run [OF assms [unfolded writer_verify_email_def] publish_updated_frame]
  by auto

lemma writer_confirm_run:
  assumes "writer_confirm_email_change E tok t pub w = (Inr b, w')"
  shows "b = (\<exists>u \<in> set (db_users (w_db w)). email_changeable tok t u)"
    "no_outbox (w_db w') = no_outbox ((w_db w)\<lparr>db_users := update_where (email_changeable tok t)
       (email_changed t) (db_users (w_db w))\<rparr>)"
  using update_publish_run [OF assms [unfolded writer_confirm_email_change_def] publish_updated_frame]
  by auto

lemma writer_delete_run:
  assumes "writer_delete E n pub w = (Inr b, w')"
  shows "b = (\<exists>u \<in> set (db_users (w_db w)). active n u)"
    "\<exists>now. no_outbox (w_db w') = no_outbox ((w_db w)\<lparr>db_users := update_where (active n)
       (\<lambda>u. u\<lparr>ur_deleted_at := Some now, ur_search_revision := ur_search_revision u + 1\<rparr>)
       (db_users (w_db w))\<rparr>)"
proof -
  let ?g = "\<lambda>u. u\<lparr>ur_deleted_at := Some (env_now E (Suc (w_tick w))),
     ur_search_revision := ur_search_revision u + 1\<rparr>"
  let ?pub = "\<lambda>u. whenE pub (enqueue_search E
       (SearchDelete USER_INDEX (ur_pid u) (Some (ur_search_revision u))) (ur_pid u) (ur_search_revision u))"
  have frame: "steps (db_rel (db_same no_outbox)) (?pub u)" for u
    by (intro same.steps_whenE enqueue_frames)
  have "b = (\<exists>u \<in> set (db_users (w_db w)). active n u) \<and>
    no_outbox (w_db w') = no_outbox ((w_db w)\<lparr>db_users := update_where (active n) ?g (db_users (w_db w))\<rparr>)"
  proof (cases "find (active n) (db_users (w_db w))")
    case None
    then have none: "\<not> (\<exists>u \<in> set (db_users (w_db w)). active n u)" by (auto simp: find_None_iff2)
    then have "update_where (active n) ?g (db_users (w_db w)) = db_users (w_db w)"
      by (intro update_where_none) auto
    with None assms none show ?thesis
      by (clarsimp simp: writer_delete_def transaction_Inr_iff exec_simps)
  next
    case (Some u)
    with assms obtain w1 w2 x where "b" and pub: "?pub (?g u) w1 = (Inr x, w2)" and
      "w_db w1 = (w_db w)\<lparr>db_users := update_where (active n) ?g (db_users (w_db w))\<rparr>" "w' = ticked w2"
      by (clarsimp simp: writer_delete_def transaction_Inr_iff exec_simps)
    moreover have "no_outbox (w_db w2) = no_outbox (w_db w1)" by (rule same_run [OF frame pub])
    ultimately show ?thesis using Some by (auto dest: find_Some_iff2)
  qed
  then show "b = (\<exists>u \<in> set (db_users (w_db w)). active n u)"
    "\<exists>now. no_outbox (w_db w') = no_outbox ((w_db w)\<lparr>db_users := update_where (active n)
       (\<lambda>u. u\<lparr>ur_deleted_at := Some now, ur_search_revision := ur_search_revision u + 1\<rparr>)
       (db_users (w_db w))\<rparr>)" by auto
qed

lemma publish_updated_schema:
  "steps (db_rel (db_inv schema_ok)) (publish_updated E b username revision missing)"
  unfolding publish_updated_def fetch_user_def fetch_roles_def
  by (intro schema_intros enqueue_schema)

lemma writer_confirm_schema:
  "steps (db_rel (db_inv schema_ok)) (writer_confirm_email_change E tok t pub)"
  unfolding writer_confirm_email_change_def by (intro schema_intros publish_updated_schema)

lemma email_change_unique:
  assumes "schema_ok d" "u \<in> set (db_users d)" "v \<in> set (db_users d)"
    "email_changeable tok t u" "email_changeable tok t' v"
  shows "u = v"
  using unique_some_D [OF schema_ok_users(5) [OF assms(1)] schema_ok_users(4) [OF assms(1)] assms(2,3)] assms(4,5)
  by (simp add: email_changeable_def)

lemma writer_delete_schema: "steps (db_rel (db_inv schema_ok)) (writer_delete E n pub)"
  unfolding writer_delete_def by (intro schema_intros enqueue_schema)

lemma writer_delete_True:
  assumes ok: "schema_ok (w_db w)" and run: "writer_delete E n pub w = (Inr True, w')"
  shows "schema_ok (w_db w')" "db_sessions (w_db w') = db_sessions (w_db w)"
    "\<exists>u now. user_at (w_db w) n = Some u \<and> ur_deleted_at u = None \<and> user_at (w_db w') n =
       Some (u\<lparr>ur_deleted_at := Some now, ur_search_revision := ur_search_revision u + 1\<rparr>)"
    "v \<in> set (db_users (w_db w)) \<Longrightarrow> ur_username v \<noteq> n \<Longrightarrow> user_at (w_db w') (ur_username v) = Some v"
proof -
  show ok': "schema_ok (w_db w')" by (rule inv_run [OF writer_delete_schema run ok])
  from writer_delete_run(2) [OF run] obtain now where
    frame: "no_outbox (w_db w') = no_outbox ((w_db w)\<lparr>db_users := update_where (active n)
      (\<lambda>u. u\<lparr>ur_deleted_at := Some now, ur_search_revision := ur_search_revision u + 1\<rparr>) (db_users (w_db w))\<rparr>)"
    by blast
  let ?g = "\<lambda>u. u\<lparr>ur_deleted_at := Some now, ur_search_revision := ur_search_revision u + 1\<rparr>"
  from writer_delete_run(1) [OF run] obtain u where u: "u \<in> set (db_users (w_db w))" "active n u" by auto
  have users: "db_users (w_db w') = update_where (active n) ?g (db_users (w_db w))"
    using no_outbox_tables(1) [OF frame] by simp
  have "?g u \<in> set (db_users (w_db w'))" unfolding users by (rule in_update_where [where P = "active n" and g = ?g, OF u])
  then have "user_at (w_db w') n = Some (?g u)" using u(2) by (simp add: user_at_mem [OF ok'] active_def)
  moreover have "user_at (w_db w) n = Some u" using u by (simp add: user_at_mem [OF ok] active_def)
  ultimately show "\<exists>u now. user_at (w_db w) n = Some u \<and> ur_deleted_at u = None \<and> user_at (w_db w') n =
       Some (u\<lparr>ur_deleted_at := Some now, ur_search_revision := ur_search_revision u + 1\<rparr>)"
    using u(2) by (auto simp: active_def)
  show "db_sessions (w_db w') = db_sessions (w_db w)" using no_outbox_tables(2) [OF frame] by simp
  assume "v \<in> set (db_users (w_db w))" "ur_username v \<noteq> n"
  then show "user_at (w_db w') (ur_username v) = Some v"
    by (auto simp: user_at_mem [OF ok'] users set_update_where active_def)
qed

end
