(* ===== verification/Authorization_Repository.thy ===== *)
theory Authorization_Repository
  imports Managed_User_Writer
begin

text \<open>
  Roles and permissions (\<^verbatim>\<open>sqlx/src/identity/authorization/sqlite_repository.rs\<close>) and the audit
  log (\<^verbatim>\<open>sqlx/src/identity/audit.rs\<close> and the adapter of the application template). A role is
  deleted by setting \<^verbatim>\<open>deleted_at\<close>; its permissions and members stay in their tables and count
  again when a role of that name is created.
\<close>

section \<open>Statements\<close>

definition upsert_role :: "string \<Rightarrow> instant \<Rightarrow> database \<Rightarrow> database" where
  "upsert_role name created_at d =
     (if \<exists>r \<in> set (db_roles d). rr_name r = name
      then d\<lparr>db_roles := update_where (\<lambda>r. rr_name r = name) (\<lambda>r. r\<lparr>rr_deleted_at := None\<rparr>) (db_roles d)\<rparr>
      else d\<lparr>db_roles := db_roles d @
             [\<lparr>rr_name = name, rr_created_at = created_at, rr_deleted_at = None\<rparr>]\<rparr>)"

definition soft_delete_role :: "string \<Rightarrow> instant \<Rightarrow> database \<Rightarrow> database" where
  "soft_delete_role name now d =
     d\<lparr>db_roles := update_where (\<lambda>r. rr_name r = name \<and> rr_deleted_at r = None)
        (\<lambda>r. r\<lparr>rr_deleted_at := Some now\<rparr>) (db_roles d)\<rparr>"

definition add_permission :: "permission_name \<Rightarrow> database \<Rightarrow> database" where
  "add_permission p d =
     (if p \<in> set (db_permissions d) then d else d\<lparr>db_permissions := db_permissions d @ [p]\<rparr>)"

definition add_role_permission :: "instant \<Rightarrow> string \<Rightarrow> permission_name \<Rightarrow> database \<Rightarrow> database" where
  "add_role_permission now role p d =
     (if \<exists>r \<in> set (db_role_permissions d). rp_role_name r = role \<and> rp_permission_name r = p then d
      else d\<lparr>db_role_permissions := db_role_permissions d @
             [\<lparr>rp_role_name = role, rp_permission_name = p, rp_created_at = now\<rparr>]\<rparr>)"

definition grants :: "database \<Rightarrow> string \<Rightarrow> permission_name \<Rightarrow> bool" where
  "grants d username p \<longleftrightarrow>
     (\<exists>ur \<in> set (db_user_roles d). \<exists>rp \<in> set (db_role_permissions d).
        rp_role_name rp = url_role_name ur \<and> rp_permission_name rp = p \<and>
        (\<exists>u \<in> set (db_users d). ur_id u = url_user_id ur \<and> active username u) \<and>
        active_role d (url_role_name ur))"

section \<open>Audit\<close>

definition audit_record :: "env \<Rightarrow> audit_entry \<Rightarrow> (application_error, unit) action" where
  "audit_record E entry =
     bindE (utc_now E) (\<lambda>now.
       map_err (db_failure E) (sql E (\<lambda>_ d.
         ((), d\<lparr>db_audit_logs := db_audit_logs d @ [(entry, now)]\<rparr>))))"

record crud_audit_context =
  ca_actor :: string
  ca_action :: string
  ca_entity_type :: string
  ca_entity_id :: string
  ca_details :: "(string \<times> json_value) list"

definition into_entry :: "crud_audit_context \<Rightarrow> audit_entry" where
  "into_entry c =
     \<lparr>ae_actor = ca_actor c, ae_action = ca_action c, ae_entity_type = ca_entity_type c,
      ae_entity_id = Some (ca_entity_id c), ae_details = ca_details c\<rparr>"

section \<open>Operations\<close>

definition auth_create_role_with_audit ::
    "env \<Rightarrow> string \<Rightarrow> crud_audit_context \<Rightarrow> (application_error, unit) action" where
  "auth_create_role_with_audit E role_name audit = transaction E (db_failure E)
     (bindE (utc_now E) (\<lambda>now.
      seqE (map_err (db_failure E) (sql E (\<lambda>_ d. ((), upsert_role role_name now d))))
      (seqE (audit_record E (into_entry audit)) (ret (Commit ())))))"

definition auth_user_has_permission ::
    "env \<Rightarrow> string \<Rightarrow> permission_name \<Rightarrow> (domain_error, bool) action" where
  "auth_user_has_permission E username permission =
     map_err (db_error E) (query E (\<lambda>d. grants d username permission))"

definition granted_names :: "database \<Rightarrow> string \<Rightarrow> permission_name list" where
  "granted_names d username =
     concat (map (\<lambda>role. map rp_permission_name
         (filter (\<lambda>rp. rp_role_name rp = role) (db_role_permissions d))) (role_names_of d username))"

definition auth_user_permissions :: "env \<Rightarrow> string \<Rightarrow> (domain_error, permission_name list) action" where
  "auth_user_permissions E username =
     mapE (List.map_filter from_name)
       (map_err (db_error E) (query E (\<lambda>d. sort (remdups (granted_names d username)))))"

definition auth_assign_role :: "env \<Rightarrow> string \<Rightarrow> string \<Rightarrow> (domain_error, unit) action" where
  "auth_assign_role E username role_name =
     bindE (users_id_by_username E username) (\<lambda>user_id.
       map_err (db_error E) (sql E (\<lambda>n d. ((), add_user_role (env_now E n) user_id role_name d))))"

definition to_role :: "role_row \<Rightarrow> role" where
  "to_role r = \<lparr>r_name = rr_name r, r_created_at = rr_created_at r\<rparr>"

definition auth_list_roles :: "env \<Rightarrow> (domain_error, role list) action" where
  "auth_list_roles E =
     map_err (db_error E) (query E (\<lambda>d.
       map to_role (sort_key rr_name (filter (\<lambda>r. rr_deleted_at r = None) (db_roles d)))))"

definition order_roles :: "string option \<Rightarrow> role_row list \<Rightarrow> role_row list" where
  "order_roles sorting rows =
     (let s = (case sorting of None \<Rightarrow> ''name asc'' | Some s \<Rightarrow> s)
      in if s = ''name desc'' then sort_desc rr_name rows
         else if s = ''created_at asc'' then sort_key rr_created_at (sort_key rr_name rows)
         else if s = ''created_at desc'' then sort_desc rr_created_at (sort_key rr_name rows)
         else sort_key rr_name rows)"

definition role_matches :: "string \<Rightarrow> string \<Rightarrow> database \<Rightarrow> role_row \<Rightarrow> bool" where
  "role_matches search permission_status d r \<longleftrightarrow>
     rr_deleted_at r = None \<and>
     (search = [] \<or> sql_like (''%'' @ search @ ''%'') (to_ascii_lowercase (rr_name r))) \<and>
     (let granted = (\<exists>rp \<in> set (db_role_permissions d). rp_role_name rp = rr_name r)
      in permission_status = ''all'' \<or> (permission_status = ''with-permissions'' \<and> granted) \<or>
         (permission_status = ''without-permissions'' \<and> \<not> granted))"

definition auth_list_roles_page ::
    "env \<Rightarrow> 32 word \<Rightarrow> 32 word \<Rightarrow> string option \<Rightarrow> string option \<Rightarrow> string option
      \<Rightarrow> (domain_error, role list \<times> int) action" where
  "auth_list_roles_page E page page_size search permission_status sorting =
     (let search = env_to_lowercase E (case search of None \<Rightarrow> [] | Some s \<Rightarrow> s);
          status = (case permission_status of None \<Rightarrow> ''all'' | Some s \<Rightarrow> s);
          offset = (unat page - 1) * unat page_size;
          limit = unat page_size
      in bindE (map_err (db_error E) (query E (\<lambda>d.
           int (length (filter (role_matches search status d) (db_roles d)))))) (\<lambda>total_count.
         bindE (map_err (db_error E) (query E (\<lambda>d.
           map to_role (take limit (drop offset
             (order_roles sorting (filter (role_matches search status d) (db_roles d)))))))) (\<lambda>rows.
         ret (rows, total_count))))"

definition auth_find_role :: "env \<Rightarrow> string \<Rightarrow> (domain_error, role option) action" where
  "auth_find_role E role_name =
     map_err (db_error E) (query E (\<lambda>d. map_option to_role
       (find (\<lambda>r. rr_name r = role_name \<and> rr_deleted_at r = None) (db_roles d))))"

definition auth_create_role :: "env \<Rightarrow> string \<Rightarrow> (domain_error, unit) action" where
  "auth_create_role E role_name =
     bindE (utc_now E) (\<lambda>now.
       map_err (db_error E) (sql E (\<lambda>_ d. ((), upsert_role role_name now d))))"

definition copy_role_permissions :: "string \<Rightarrow> string \<Rightarrow> database \<Rightarrow> database" where
  "copy_role_permissions new old d =
     fold (\<lambda>rp. add_role_permission (rp_created_at rp) new (rp_permission_name rp))
       (filter (\<lambda>rp. rp_role_name rp = old) (db_role_permissions d)) d"

definition copy_user_roles :: "string \<Rightarrow> string \<Rightarrow> database \<Rightarrow> database" where
  "copy_user_roles new old d =
     fold (\<lambda>ur. add_user_role (url_created_at ur) (url_user_id ur) new)
       (filter (\<lambda>ur. url_role_name ur = old) (db_user_roles d)) d"

definition auth_update_role :: "env \<Rightarrow> string \<Rightarrow> string \<Rightarrow> (domain_error, bool) action" where
  "auth_update_role E role_name new_role_name = transaction E (db_error E)
     (bindE (map_err (db_error E) (query E (\<lambda>d. map_option rr_created_at
        (find (\<lambda>r. rr_name r = role_name \<and> rr_deleted_at r = None) (db_roles d))))) (\<lambda>found.
      case found of
        None \<Rightarrow> ret (Dropped False)
      | Some created_at \<Rightarrow>
          seqE (map_err (db_error E) (sql E (\<lambda>_ d. ((), upsert_role new_role_name created_at d))))
          (seqE (map_err (db_error E) (sql E (\<lambda>_ d. ((), copy_role_permissions new_role_name role_name d))))
          (seqE (map_err (db_error E) (sql E (\<lambda>_ d. ((), copy_user_roles new_role_name role_name d))))
          (bindE (utc_now E) (\<lambda>now.
           seqE (map_err (db_error E) (sql E (\<lambda>_ d. ((), soft_delete_role role_name now d))))
            (ret (Commit True))))))))"

definition auth_delete_role :: "env \<Rightarrow> string \<Rightarrow> (domain_error, bool) action" where
  "auth_delete_role E role_name =
     bindE (utc_now E) (\<lambda>now.
       map_err (db_error E) (sql E (\<lambda>_ d.
         (rows_affected (\<lambda>r. rr_name r = role_name \<and> rr_deleted_at r = None) (db_roles d) > 0,
          soft_delete_role role_name now d))))"

definition role_permission_names :: "database \<Rightarrow> string \<Rightarrow> permission_name list" where
  "role_permission_names d role_name =
     (if active_role d role_name
      then sort (map rp_permission_name (filter (\<lambda>rp. rp_role_name rp = role_name) (db_role_permissions d)))
      else [])"

definition auth_role_permissions :: "env \<Rightarrow> string \<Rightarrow> (domain_error, permission_name list) action" where
  "auth_role_permissions E role_name =
     mapE (List.map_filter from_name)
       (map_err (db_error E) (query E (\<lambda>d. role_permission_names d role_name)))"

definition auth_set_role_permissions ::
    "env \<Rightarrow> string \<Rightarrow> permission_name list \<Rightarrow> (domain_error, unit) action" where
  "auth_set_role_permissions E role_name role_permissions = transaction E (db_error E)
     (bindE (utc_now E) (\<lambda>now.
      seqE (map_err (db_error E) (sql E (\<lambda>_ d. ((), upsert_role role_name now d))))
      (seqE (map_err (db_error E) (sql E (\<lambda>_ d.
         ((), d\<lparr>db_role_permissions := delete_where (\<lambda>rp. rp_role_name rp = role_name) (db_role_permissions d)\<rparr>))))
      (seqE (for_each (\<lambda>p.
         seqE (map_err (db_error E) (sql E (\<lambda>_ d. ((), add_permission p d))))
           (map_err (db_error E) (sql E (\<lambda>n d. ((), add_role_permission (env_now E n) role_name p d)))))
         role_permissions)
       (ret (Commit ()))))))"

definition auth_ensure_identity_seed_data :: "env \<Rightarrow> (domain_error, unit) action" where
  "auth_ensure_identity_seed_data E = transaction E (db_error E)
     (bindE (utc_now E) (\<lambda>now.
      seqE (map_err (db_error E) (sql E (\<lambda>_ d. ((), upsert_role ''admin'' now d))))
      (seqE (for_each (\<lambda>p.
         seqE (map_err (db_error E) (sql E (\<lambda>_ d. ((), add_permission p d))))
           (map_err (db_error E) (sql E (\<lambda>n d. ((), add_role_permission (env_now E n) ''admin'' p d)))))
         all_names)
      (seqE (map_err (db_error E) (sql E (\<lambda>_ d.
         ((), d\<lparr>db_role_permissions := delete_where (\<lambda>rp. rp_role_name rp = ''admin'' \<and>
                  rp_permission_name rp \<notin> set all_names) (db_role_permissions d)\<rparr>))))
       (ret (Commit ()))))))"

section \<open>Seeding\<close>

record seed_settings =
  se_seed_admin :: bool
  se_admin_username :: string
  se_admin_password :: string

definition seed_sqlite_identity :: "env \<Rightarrow> seed_settings \<Rightarrow> (domain_error, unit) action" where
  "seed_sqlite_identity E settings =
     seqE (auth_ensure_identity_seed_data E)
       (if \<not> se_seed_admin settings then ret ()
        else
          bindE (users_exists E (se_admin_username settings)) (\<lambda>present.
          seqE (whenE (\<not> present)
            (\<lambda>w. bindE (of_result
               (case env_hash_password E (w_tick w) (se_admin_password settings) of
                  Inl m \<Rightarrow> Inl (DomValidation m) | Inr h \<Rightarrow> Inr h)) (\<lambda>hash.
              seqE (users_insert E (se_admin_username settings) hash)
              (bindE (utc_now E) (\<lambda>now.
                users_mark_email_verified E (se_admin_username settings) now))) (ticked w)))
          (auth_assign_role E (se_admin_username settings) ''admin'')))"

end
