(* ===== verification/Security.thy ===== *)
theory Security
  imports Sample_World
begin

text \<open>
  The security adapters of the application template (\<^verbatim>\<open>infrastructure/src/security\<close>): the argon2
  password hasher and the HS256 token service. argon2, HMAC-SHA256, base64 and the JSON of the
  claims are parameters of the environment; their documented behaviour is \<open>jwt_codec\<close>. HMAC
  accepts keys of every length, so \<^verbatim>\<open>Hmac::new_from_slice\<close> does not fail.
\<close>

section \<open>Passwords\<close>

definition hash_password :: "env \<Rightarrow> string \<Rightarrow> (application_error, string) action" where
  "hash_password E password = (\<lambda>w.
     ((case env_hash_password E (w_tick w) password of
         Inl message \<Rightarrow> Inl (Unexpected message)
       | Inr hash \<Rightarrow> Inr hash), ticked w))"

definition verify_password :: "env \<Rightarrow> string \<Rightarrow> string \<Rightarrow> (application_error, bool) action" where
  "verify_password E password hash =
     of_result (case env_verify_password E password hash of
       Inl message \<Rightarrow> Inl (Unexpected message)
     | Inr ok \<Rightarrow> Inr ok)"

section \<open>Tokens\<close>

definition JWT_HEADER :: string where
  "JWT_HEADER = ''eyJhbGciOiJIUzI1NiIsInR5cCI6IkpXVCJ9''"

record jwt_token_service =
  jw_secret :: string
  jw_token_lifetime :: duration

text \<open>\<^verbatim>\<open>str::split\<close> on a character.\<close>

fun split_char :: "char \<Rightarrow> string \<Rightarrow> string list" where
  "split_char c [] = [[]]"
| "split_char c (x # xs) =
     (if x = c then [] # split_char c xs
      else case split_char c xs of [] \<Rightarrow> [[x]] | s # ss \<Rightarrow> (x # s) # ss)"

definition token_expiry :: "env \<Rightarrow> jwt_token_service \<Rightarrow> ('e, instant) action" where
  "token_expiry E s = bindE (utc_now E) (\<lambda>now. ret (now + jw_token_lifetime s))"

definition signing_input :: "env \<Rightarrow> claims \<Rightarrow> string" where
  "signing_input E c = JWT_HEADER @ ''.'' @ env_b64_encode E (env_claims_json E c)"

definition sign :: "env \<Rightarrow> jwt_token_service \<Rightarrow> string \<Rightarrow> string" where
  "sign E s input = input @ ''.'' @ env_b64_encode E (env_hmac E (jw_secret s) input)"

definition create_token :: "env \<Rightarrow> jwt_token_service \<Rightarrow> string \<Rightarrow> (application_error, string) action" where
  "create_token E s subject =
     bindE (utc_now E) (\<lambda>now.
     bindE (token_expiry E s) (\<lambda>expiry.
     bindE (new_uuid E) (\<lambda>jti.
     ret (sign E s (signing_input E
       \<lparr>cl_sub = subject, cl_exp = timestamp expiry, cl_iat = timestamp now, cl_jti = jti\<rparr>)))))"

definition verify_token :: "env \<Rightarrow> jwt_token_service \<Rightarrow> string \<Rightarrow> (application_error, string) action" where
  "verify_token E s token =
     (case split_char CHR ''.'' token of
        [header, payload, signature] \<Rightarrow>
          (if header \<noteq> JWT_HEADER then throw Unauthorized
           else case env_b64_decode E signature of
             None \<Rightarrow> throw Unauthorized
           | Some sig \<Rightarrow>
               (if sig \<noteq> env_hmac E (jw_secret s) (header @ ''.'' @ payload) then throw Unauthorized
                else case Option.bind (env_b64_decode E payload) (env_claims_parse E) of
                  None \<Rightarrow> throw Unauthorized
                | Some c \<Rightarrow>
                    bindE (utc_now E) (\<lambda>now.
                      if cl_exp c > timestamp now then ret (cl_sub c) else throw Unauthorized)))
      | _ \<Rightarrow> throw Unauthorized)"

section \<open>Properties\<close>

lemma verify_password_Inr_iff [exec_simps]:
  "verify_password E p h w = (Inr b, w') \<longleftrightarrow> env_verify_password E p h = Inr b \<and> w' = w"
  by (auto simp: verify_password_def split: sum.splits)

lemma hash_password_Inr_iff [exec_simps]:
  "hash_password E p w = (Inr h, w') \<longleftrightarrow> env_hash_password E (w_tick w) p = Inr h \<and> w' = ticked w"
  by (auto simp: hash_password_def split: sum.splits)

text \<open>What the code relies on: base64 is decodable and without dots, the claims survive JSON.\<close>

definition jwt_codec :: "env \<Rightarrow> bool" where
  "jwt_codec E \<longleftrightarrow>
     (\<forall>x. env_b64_decode E (env_b64_encode E x) = Some x) \<and>
     (\<forall>x. CHR ''.'' \<notin> set (env_b64_encode E x)) \<and>
     (\<forall>c. env_claims_parse E (env_claims_json E c) = Some c)"

lemma split_char_none: "c \<notin> set s \<Longrightarrow> split_char c s = [s]"
  by (induction s) auto

lemma split_char_append: "c \<notin> set s \<Longrightarrow> split_char c (s @ c # t) = s # split_char c t"
  by (induction s) auto

lemma join_split_char: "join [c] (split_char c s) = s"
proof (induction s)
  case (Cons x xs)
  have "split_char c xs \<noteq> []" by (cases xs) (auto split: list.split)
  with Cons show ?case by (cases "split_char c xs"; cases "tl (split_char c xs)") auto
qed simp

lemma header_no_dot: "CHR ''.'' \<notin> set JWT_HEADER"
  by (simp add: JWT_HEADER_def)

lemma verify_token_frame: "steps (fixing w_db) (verify_token E s tok)"
  unfolding verify_token_def
  by (auto simp: steps_def fixing_def utc_now_def bindE_def split: list.split option.split)

lemma verify_token_db: "verify_token E s tok w = (r, w') \<Longrightarrow> w_db w' = w_db w"
  using fixes_run [OF verify_token_frame] by blast

lemma create_token_db: "create_token E s n w = (r, w') \<Longrightarrow> w_db w' = w_db w"
  by (auto simp: create_token_def token_expiry_def bindE_def utc_now_def new_uuid_def)

lemma create_token_Inr:
  assumes "create_token E s n w = (r, w')"
  shows "r = Inr (sign E s (signing_input E
    \<lparr>cl_sub = n, cl_exp = timestamp (env_now E (Suc (w_tick w)) + jw_token_lifetime s),
     cl_iat = timestamp (env_now E (w_tick w)), cl_jti = env_uuid E (Suc (Suc (w_tick w)))\<rparr>))"
    "w' = ticked (ticked (ticked w))"
  using assms by (auto simp: create_token_def token_expiry_def bindE_def utc_now_def new_uuid_def)

lemma verify_signed:
  assumes "jwt_codec E"
  shows "verify_token E s (sign E s (signing_input E c)) w =
    (if cl_exp c > timestamp (env_now E (w_tick w)) then (Inr (cl_sub c), ticked w)
     else (Inl Unauthorized, ticked w))"
proof -
  let ?p = "env_b64_encode E (env_claims_json E c)"
  let ?sig = "env_b64_encode E (env_hmac E (jw_secret s) (JWT_HEADER @ ''.'' @ ?p))"
  have "split_char CHR ''.'' (sign E s (signing_input E c)) = [JWT_HEADER, ?p, ?sig]"
    using assms header_no_dot
    by (simp add: sign_def signing_input_def split_char_append split_char_none jwt_codec_def)
  then show ?thesis
    using assms by (simp add: verify_token_def jwt_codec_def bindE_def utc_now_def)
qed

text \<open>Whatever is accepted carries a valid MAC over the header and the payload.\<close>

lemma verify_token_Inr:
  assumes "verify_token E s tok w = (Inr n, w')"
  obtains payload sig c where "tok = JWT_HEADER @ ''.'' @ payload @ ''.'' @ sig"
    "env_b64_decode E sig = Some (env_hmac E (jw_secret s) (JWT_HEADER @ ''.'' @ payload))"
    "Option.bind (env_b64_decode E payload) (env_claims_parse E) = Some c"
    "cl_sub c = n" "cl_exp c > timestamp (env_now E (w_tick w))" "w' = ticked w"
proof -
  from assms obtain payload sig c where
    split: "split_char CHR ''.'' tok = [JWT_HEADER, payload, sig]" and
    rest: "env_b64_decode E sig = Some (env_hmac E (jw_secret s) (JWT_HEADER @ ''.'' @ payload))"
      "Option.bind (env_b64_decode E payload) (env_claims_parse E) = Some c"
      "cl_sub c = n" "cl_exp c > timestamp (env_now E (w_tick w))" "w' = ticked w"
    by (auto simp: verify_token_def bindE_def utc_now_def
        split: list.splits option.splits if_splits)
  have "tok = JWT_HEADER @ ''.'' @ payload @ ''.'' @ sig"
    using join_split_char [of "CHR ''.''" tok] by (simp add: split)
  with rest that show ?thesis by blast
qed

lemma token_expiry_iff [exec_simps]:
  "token_expiry E s w = (r, w') \<longleftrightarrow> r = Inr (env_now E (w_tick w) + jw_token_lifetime s) \<and> w' = ticked w"
  by (auto simp: token_expiry_def bindE_def utc_now_def)

lemma sample_jwt_codec: "jwt_codec sample_env"
  by (simp add: jwt_codec_def sample_env_def unescape_escape escape_no_dot dec_enc_claims)

lemma signed_inj:
  assumes "jwt_codec E" "sign E s (signing_input E c) = sign E s (signing_input E c')"
  shows "c = c'"
proof -
  have split: "split_char CHR ''.'' (sign E s (signing_input E c)) =
      [JWT_HEADER, env_b64_encode E (env_claims_json E c),
       env_b64_encode E (env_hmac E (jw_secret s) (signing_input E c))]" for c
    using assms(1) header_no_dot
    by (simp add: sign_def signing_input_def split_char_append split_char_none jwt_codec_def)
  have "env_b64_encode E (env_claims_json E c) = env_b64_encode E (env_claims_json E c')"
    using split [of c] split [of c'] assms(2) by simp
  then have "env_claims_json E c = env_claims_json E c'"
    using assms(1) unfolding jwt_codec_def by (metis option.inject)
  then show ?thesis using assms(1) unfolding jwt_codec_def by (metis option.inject)
qed

section \<open>A concrete token\<close>

definition sample_tokens :: jwt_token_service where
  "sample_tokens = \<lparr>jw_secret = ''k'', jw_token_lifetime = seconds 2\<rparr>"

definition sample_token :: "string \<Rightarrow> string" where
  "sample_token n = sign sample_env sample_tokens (signing_input sample_env
     \<lparr>cl_sub = n, cl_exp = 2, cl_iat = 0, cl_jti = n\<rparr>)"

lemma verify_sample_token [simp]:
  "w_tick w < 1000000000 \<Longrightarrow>
     verify_token sample_env sample_tokens (sample_token n) w = (Inr n, ticked w)"
  unfolding sample_token_def
  by (subst verify_signed [OF sample_jwt_codec]) (simp add: timestamp_def)

text \<open>The two users of \<open>sample_db\<close>, the first with a session.\<close>

definition token_db :: database where
  "token_db = sample_db\<lparr>db_sessions := [sample_session (sample_token ''ann'') 1]\<rparr>"

definition token_world :: world where
  "token_world = world_of token_db"

lemma token_world_simps [simp]: "w_tick token_world = 0" "w_db token_world = token_db"
  by (simp_all add: token_world_def)

lemma token_db_ok: "schema_ok (w_db token_world)"
proof -
  have "schema_ok sample_db" by code_simp
  then show ?thesis unfolding token_world_def token_db_def world_of_simps
    by (rule schema_ok_db_sessions)
      (simp add: sessions_violation_def sample_db_def sample_session_def sample_user_def)
qed

end
