(* ===== verification/Cache.thy ===== *)
theory Cache
  imports Sample_World
begin

text \<open>
  The cache of \<^verbatim>\<open>crates/cache\<close>: the in-memory adapter keeps a map with optional deadlines on the
  monotonic clock and removes an entry when it finds it expired; the null adapter finds
  nothing and refuses to store. A poisoned lock is an error. The contract of the trait \<^verbatim>\<open>Cache\<close> is the locale
  \<open>cache_contract\<close>, which both adapters and their dispatcher interpret.
\<close>

type_synonym cache_error = string

definition lock_entries :: "env \<Rightarrow> (cache_error, unit) action" where
  "lock_entries E = (\<lambda>w.
     if env_lock_poisoned E (w_tick w) then (Inl ''cache lock poisoned'', ticked w)
     else (Inr (), ticked w))"

definition instant_now :: "env \<Rightarrow> ('e, instant) action" where
  "instant_now E = (\<lambda>w. (Inr (env_instant E (w_tick w)), ticked w))"

definition memory_get_string :: "env \<Rightarrow> string \<Rightarrow> (cache_error, string option) action" where
  "memory_get_string E key =
     seqE (lock_entries E)
     (bindE (gets (\<lambda>w. w_cache w key)) (\<lambda>entry.
        case entry of
          None \<Rightarrow> ret None
        | Some (v, expires_at) \<Rightarrow>
            (case expires_at of
               None \<Rightarrow> ret (Some v)
             | Some t \<Rightarrow>
                 bindE (instant_now E) (\<lambda>now.
                   if t \<le> now
                   then seqE (modify (\<lambda>w. w\<lparr>w_cache := (w_cache w)(key := None)\<rparr>)) (ret None)
                   else ret (Some v)))))"

definition memory_set_string ::
    "env \<Rightarrow> string \<Rightarrow> string \<Rightarrow> duration option \<Rightarrow> (cache_error, unit) action" where
  "memory_set_string E key v ttl =
     bindE (case ttl of None \<Rightarrow> ret None
            | Some d \<Rightarrow> bindE (instant_now E) (\<lambda>now. ret (Some (now + d)))) (\<lambda>expires_at.
     seqE (lock_entries E)
       (modify (\<lambda>w. w\<lparr>w_cache := (w_cache w)(key := Some (v, expires_at))\<rparr>)))"

definition memory_remove :: "env \<Rightarrow> string \<Rightarrow> (cache_error, unit) action" where
  "memory_remove E key =
     seqE (lock_entries E) (modify (\<lambda>w. w\<lparr>w_cache := (w_cache w)(key := None)\<rparr>))"

datatype cache_adapter = NullCache | MemoryCache

datatype cache_backend = BackendNull | BackendMemory | BackendRedis

text \<open>\<^verbatim>\<open>CacheAdapter::from_settings\<close> in a build without the Redis feature.\<close>

definition cache_from_settings :: "bool \<Rightarrow> cache_backend \<Rightarrow> cache_error + cache_adapter" where
  "cache_from_settings enabled backend =
     (if \<not> enabled then Inr NullCache
      else case backend of
        BackendNull \<Rightarrow> Inr NullCache
      | BackendMemory \<Rightarrow> Inr MemoryCache
      | BackendRedis \<Rightarrow> Inl ''Redis cache support is not compiled into this binary'')"

definition cache_get_string :: "env \<Rightarrow> cache_adapter \<Rightarrow> string \<Rightarrow> (cache_error, string option) action" where
  "cache_get_string E c key = (case c of NullCache \<Rightarrow> ret None | MemoryCache \<Rightarrow> memory_get_string E key)"

definition cache_set_string ::
    "env \<Rightarrow> cache_adapter \<Rightarrow> string \<Rightarrow> string \<Rightarrow> duration option \<Rightarrow> (cache_error, unit) action" where
  "cache_set_string E c key v ttl =
     (case c of NullCache \<Rightarrow> throw ''cache backend is disabled'' | MemoryCache \<Rightarrow> memory_set_string E key v ttl)"

definition cache_remove :: "env \<Rightarrow> cache_adapter \<Rightarrow> string \<Rightarrow> (cache_error, unit) action" where
  "cache_remove E c key = (case c of NullCache \<Rightarrow> ret () | MemoryCache \<Rightarrow> memory_remove E key)"

section \<open>The contract\<close>

text \<open>What a reader of the cache may see: the value last stored under the key, unless it expired.\<close>

definition fresh_entry :: "instant \<Rightarrow> string \<times> instant option \<Rightarrow> bool" where
  "fresh_entry now e \<longleftrightarrow> (case snd e of None \<Rightarrow> True | Some t \<Rightarrow> now < t)"

locale cache_contract =
  fixes E :: env
    and get_string :: "string \<Rightarrow> (cache_error, string option) action"
    and set_string :: "string \<Rightarrow> string \<Rightarrow> duration option \<Rightarrow> (cache_error, unit) action"
    and remove :: "string \<Rightarrow> (cache_error, unit) action"
  assumes get_sound:
      "get_string k w = (Inr (Some v), w') \<Longrightarrow>
         \<exists>e n. w_cache w k = Some (v, e) \<and> w_tick w \<le> n \<and> n < w_tick w' \<and> fresh_entry (env_instant E n) (v, e)"
    and get_frame:
      "get_string k w = (r, w') \<Longrightarrow>
         w_db w' = w_db w \<and> (\<forall>k'. w_cache w' k' = w_cache w k' \<or> (k' = k \<and> w_cache w' k' = None))"
    and set_frame:
      "set_string k v ttl w = (q, w') \<Longrightarrow>
         w_db w' = w_db w \<and> (\<forall>k'. k' \<noteq> k \<longrightarrow> w_cache w' k' = w_cache w k') \<and>
         (w_cache w' k = w_cache w k \<or> (\<exists>e. w_cache w' k = Some (v, e)))"
    and remove_frame:
      "remove k w = (q, w') \<Longrightarrow>
         w_db w' = w_db w \<and> (\<forall>k'. k' \<noteq> k \<longrightarrow> w_cache w' k' = w_cache w k')"
begin

text \<open>A value read after a write is the value written, or the one that was there before.\<close>

lemma read_after_write:
  assumes "set_string k v ttl w = (r, w1)" "get_string k w1 = (Inr (Some v'), w2)"
  shows "v' = v \<or> (\<exists>e. w_cache w k = Some (v', e))"
  using set_frame [OF assms(1)] get_sound [OF assms(2)] by auto

lemma read_unrelated:
  assumes "set_string k v ttl w = (r, w1)" "k' \<noteq> k" "get_string k' w1 = (Inr (Some v'), w2)"
  shows "\<exists>e. w_cache w k' = Some (v', e)"
  using set_frame [OF assms(1)] get_sound [OF assms(3)] assms(2) by auto

lemma absent_stays_absent:
  assumes "w_cache w k = None" "get_string k w = (Inr r, w')"
  shows "r = None"
  using get_sound [of k w _ w'] assms by (cases r) auto

end

lemma lock_entries_iff [exec_simps]:
  "lock_entries E w = (Inr u, w') \<longleftrightarrow> \<not> env_lock_poisoned E (w_tick w) \<and> w' = ticked w"
  "lock_entries E w = (Inl e, w') \<longleftrightarrow>
     env_lock_poisoned E (w_tick w) \<and> e = ''cache lock poisoned'' \<and> w' = ticked w"
  by (auto simp: lock_entries_def)

lemma instant_now_iff [exec_simps]:
  "instant_now E w = (r, w') \<longleftrightarrow> r = Inr (env_instant E (w_tick w)) \<and> w' = ticked w"
  by (auto simp: instant_now_def)

lemmas memory_defs =
  memory_get_string_def memory_set_string_def memory_remove_def lock_entries_def instant_now_def
  bindE_def seqE_def

interpretation memory_cache: cache_contract E
  "memory_get_string E" "memory_set_string E" "memory_remove E" for E
proof (unfold_locales, goal_cases sound get set remove)
  case (sound k w v w')
  then show ?case
    by (auto simp: memory_get_string_def exec_simps fresh_entry_def
        split: option.splits prod.splits if_splits)
      (auto intro!: exI [of _ "Suc (w_tick w)"])
next
  case (get k w r w')
  then show ?case
    by (auto simp: memory_defs split: option.splits prod.splits if_splits)
next
  case (set k v ttl w r w')
  then show ?case
    by (auto simp: memory_defs split: option.splits prod.splits if_splits)
next
  case (remove k w r w')
  then show ?case by (auto simp: memory_defs split: if_splits)
qed

interpretation cache_dispatch: cache_contract E
  "cache_get_string E c" "cache_set_string E c" "cache_remove E c" for E c
proof (unfold_locales, goal_cases sound get set remove)
  case (sound k w v w')
  then show ?case
    using memory_cache.get_sound [of E k w v w'] by (cases c) (simp_all add: cache_get_string_def)
next
  case (get k w r w')
  then show ?case
    by (cases c) (auto simp: cache_get_string_def dest: memory_cache.get_frame)
next
  case (set k v ttl w r w')
  then show ?case
    by (cases c) (auto simp: cache_set_string_def dest: memory_cache.set_frame)
next
  case (remove k w r w')
  then show ?case
    by (cases c) (auto simp: cache_remove_def dest: memory_cache.remove_frame)
qed

text \<open>With no deadline the memory adapter returns exactly what was stored.\<close>

lemma memory_round_trip:
  assumes "memory_set_string E k v None w = (Inr u, w1)" "memory_get_string E k w1 = (Inr r, w2)"
  shows "r = Some v"
  using assms by (auto simp: memory_set_string_def memory_get_string_def exec_simps)

end
