(* ===== verification/Authorization.thy ===== *)
theory Authorization
  imports Authorization_Repository Security Cache
begin

text \<open>
  Who is calling and what they may do: \<^verbatim>\<open>TokenCurrentUserProvider\<close> and \<^verbatim>\<open>require_permission\<close> of
  \<^verbatim>\<open>application/src/identity/authorization.rs\<close>, the versioned permission cache of
  \<^verbatim>\<open>application/src/identity/permissions/cache.rs\<close>, and the two authorization services of the
  application template. Their common contract is the locale \<open>authorization_contract\<close>: under the
  coherence condition of the service, a permission is granted exactly when the database grants
  it.
\<close>

section \<open>The current user\<close>

record current_user =
  cu_username :: string
  cu_is_authenticated :: bool

definition of_domain :: "(domain_error, 'a) action \<Rightarrow> (application_error, 'a) action" where
  "of_domain m = map_err from_domain_error m"

definition provider_current_user ::
    "env \<Rightarrow> jwt_token_service \<Rightarrow> string \<Rightarrow> (application_error, current_user) action" where
  "provider_current_user E s token =
     bindE (verify_token E s token) (\<lambda>username.
     bindE (of_domain (sqlite_sessions_exists E token)) (\<lambda>live.
     seqE (ensure live Unauthorized)
     (bindE (of_domain (users_exists E username)) (\<lambda>known.
     seqE (ensure known Unauthorized)
     (ret \<lparr>cu_username = username, cu_is_authenticated = True\<rparr>)))))"

lemma of_domain_Inr_iff [exec_simps]: "of_domain m w = (Inr x, w') \<longleftrightarrow> m w = (Inr x, w')"
  by (simp add: of_domain_def map_err_Inr_iff)

section \<open>The permission cache\<close>

definition VERSION_KEY :: string where "VERSION_KEY = ''identity:authorization:version''"
definition DEFAULT_VERSION :: string where "DEFAULT_VERSION = ''default''"

definition current_version :: "env \<Rightarrow> cache_adapter \<Rightarrow> (application_error, string) action" where
  "current_version E c =
     bindE (attempt (cache_get_string E c VERSION_KEY)) (\<lambda>r.
       ret (case r of Inr (Some version) \<Rightarrow> version | _ \<Rightarrow> DEFAULT_VERSION))"

definition user_permissions_key :: "string \<Rightarrow> string \<Rightarrow> string" where
  "user_permissions_key version username =
     ''identity:authorization:user:'' @ version @ '':'' @ username"

definition invalidate :: "env \<Rightarrow> cache_adapter \<Rightarrow> (application_error, unit) action" where
  "invalidate E c =
     bindE (new_uuid E) (\<lambda>version. ignore_err (cache_set_string E c VERSION_KEY version None))"

section \<open>Authorization services\<close>

datatype authorization_service = RepositoryAuthorization | CachedAuthorization cache_adapter duration

definition missing_permission :: "permission_name \<Rightarrow> application_error" where
  "missing_permission p = Forbidden (''Missing permission '' @ p)"

definition repository_require ::
    "env \<Rightarrow> current_user \<Rightarrow> permission_name \<Rightarrow> (application_error, unit) action" where
  "repository_require E user p =
     seqE (ensure (cu_is_authenticated user) Unauthorized)
     (bindE (of_domain (auth_user_has_permission E (cu_username user) p)) (\<lambda>allowed.
       ensure allowed (missing_permission p)))"

definition cached_user_permissions_key :: "env \<Rightarrow> cache_adapter \<Rightarrow> string \<Rightarrow> (application_error, string) action" where
  "cached_user_permissions_key E c username =
     bindE (current_version E c) (\<lambda>version. ret (user_permissions_key version username))"

definition cached_permissions :: "env \<Rightarrow> cache_adapter \<Rightarrow> string \<Rightarrow> (application_error, string list option) action" where
  "cached_permissions E c username =
     bindE (cached_user_permissions_key E c username) (\<lambda>key.
     bindE (attempt (cache_get_string E c key)) (\<lambda>r.
       ret (case r of Inr (Some v) \<Rightarrow> env_parse_strings E v | _ \<Rightarrow> None)))"

definition store_permissions ::
    "env \<Rightarrow> cache_adapter \<Rightarrow> duration \<Rightarrow> string \<Rightarrow> string list \<Rightarrow> (application_error, unit) action" where
  "store_permissions E c ttl username permissions =
     bindE (cached_user_permissions_key E c username) (\<lambda>key.
       ignore_err (cache_set_string E c key (env_json_strings E permissions) (Some ttl)))"

definition cached_require ::
    "env \<Rightarrow> cache_adapter \<Rightarrow> duration \<Rightarrow> current_user \<Rightarrow> permission_name \<Rightarrow> (application_error, unit) action" where
  "cached_require E c ttl user p =
     seqE (ensure (cu_is_authenticated user) Unauthorized)
     (bindE (cached_permissions E c (cu_username user)) (\<lambda>cached.
        case cached of
          Some permissions \<Rightarrow> ensure (p \<in> set permissions) (missing_permission p)
        | None \<Rightarrow>
            bindE (of_domain (auth_user_permissions E (cu_username user))) (\<lambda>permissions.
            seqE (store_permissions E c ttl (cu_username user) permissions)
              (ensure (p \<in> set permissions) (missing_permission p)))))"

definition authorization_require ::
    "env \<Rightarrow> authorization_service \<Rightarrow> current_user \<Rightarrow> permission_name \<Rightarrow> (application_error, unit) action" where
  "authorization_require E a user p =
     (case a of
        RepositoryAuthorization \<Rightarrow> repository_require E user p
      | CachedAuthorization c ttl \<Rightarrow> cached_require E c ttl user p)"

definition require_permission ::
    "env \<Rightarrow> jwt_token_service \<Rightarrow> authorization_service \<Rightarrow> string \<Rightarrow> permission_name
      \<Rightarrow> (application_error, unit) action" where
  "require_permission E s a token p =
     bindE (provider_current_user E s token) (\<lambda>user. authorization_require E a user p)"

section \<open>The contract\<close>

locale authorization_contract =
  fixes coherent :: "world \<Rightarrow> bool"
    and require :: "current_user \<Rightarrow> permission_name \<Rightarrow> (application_error, unit) action"
  assumes require_granted:
      "coherent w \<Longrightarrow> p \<in> set all_names \<Longrightarrow> require u p w = (Inr x, w') \<Longrightarrow>
         cu_is_authenticated u \<and> grants (w_db w) (cu_username u) p"
    and require_missing:
      "coherent w \<Longrightarrow> p \<in> set all_names \<Longrightarrow> cu_is_authenticated u \<Longrightarrow>
         require u p w = (Inl (missing_permission p), w') \<Longrightarrow> \<not> grants (w_db w) (cu_username u) p"
    and require_reads: "require u p w = (r, w') \<Longrightarrow> w_db w' = w_db w"
begin

text \<open>Deciding twice on the same database cannot give contradicting answers.\<close>

lemma require_consistent:
  assumes "coherent w" "p \<in> set all_names" "require u p w = (Inr x, w1)"
    and "coherent w2" "w_db w2 = w_db w" "require u p w2 = (Inl (missing_permission p), w3)"
  shows False
  using require_granted [OF assms(1-3)] require_missing [OF assms(4,2) _ assms(6)] assms(5) by simp

end

lemma set_map_filter_from_name: "set (List.map_filter from_name xs) = set xs \<inter> set all_names"
  by (auto simp: List.map_filter_def from_name_Some_iff image_iff split: option.splits)
    (metis from_name_Some_iff option.distinct(1) option.sel)+

lemma granted_names_iff: "p \<in> set (granted_names d n) \<longleftrightarrow> grants d n p"
  unfolding granted_names_def role_names_of_def grants_def by fastforce

lemma user_permissions_Inr:
  assumes "auth_user_permissions E n w = (Inr ps, w')"
  shows "set ps = {p \<in> set all_names. grants (w_db w) n p}" "w' = ticked w"
  using assms
  by (auto simp: auth_user_permissions_def exec_simps set_map_filter_from_name granted_names_iff)

lemma query_fixes_db [steps_intros]: "steps (fixing w_db) (query E f)"
  by (rule stepsI) (auto simp: query_def fixing_def split: option.split)

lemma utc_now_fixes_db [steps_intros]: "steps (fixing w_db) (utc_now E)"
  by (rule stepsI) (auto simp: utc_now_def fixing_def)

lemma new_uuid_fixes_db [steps_intros]: "steps (fixing w_db) (new_uuid E)"
  by (rule stepsI) (auto simp: new_uuid_def fixing_def)

lemma cache_get_fixes_db [steps_intros]: "steps (fixing w_db) (cache_get_string E c k)"
proof (rule stepsI)
  fix w
  show "fixing w_db w (snd (cache_get_string E c k w))"
    using cache_dispatch.get_frame [of E c k w] by (cases "cache_get_string E c k w") (simp add: fixing_def)
qed

lemma cache_set_fixes_db [steps_intros]: "steps (fixing w_db) (cache_set_string E c k v ttl)"
proof (rule stepsI)
  fix w
  show "fixing w_db w (snd (cache_set_string E c k v ttl w))"
    using cache_dispatch.set_frame [of E c k v ttl w]
    by (cases "cache_set_string E c k v ttl w") (simp add: fixing_def)
qed

lemmas db_reads =
  fixed.steps_combinators query_fixes_db utc_now_fixes_db new_uuid_fixes_db cache_get_fixes_db
  cache_set_fixes_db verify_token_frame

lemma provider_reads: "steps (fixing w_db) (provider_current_user E s tok)"
  unfolding provider_current_user_def of_domain_def sqlite_sessions_exists_def users_exists_def
  by (intro db_reads)

lemma repository_reads: "steps (fixing w_db) (repository_require E u p)"
  unfolding repository_require_def of_domain_def auth_user_has_permission_def by (intro db_reads)

lemma current_version_reads: "steps (fixing w_db) (current_version E c)"
  unfolding current_version_def by (intro db_reads)

lemma cached_reads: "steps (fixing w_db) (cached_require E c ttl u p)"
  unfolding cached_require_def cached_permissions_def store_permissions_def of_domain_def
    cached_user_permissions_key_def auth_user_permissions_def
  by (intro db_reads current_version_reads)

lemma invalidate_reads: "steps (fixing w_db) (invalidate E c)"
  unfolding invalidate_def by (intro db_reads)

section \<open>The repository service\<close>

interpretation repository_authorization: authorization_contract "\<lambda>_. True" "repository_require E" for E
proof (unfold_locales, goal_cases granted missing reads)
  case (granted w p u x w')
  then show ?case
    by (auto simp: repository_require_def of_domain_def auth_user_has_permission_def exec_simps)
next
  case (missing w p u w')
  then show ?case
    by (auto simp: repository_require_def of_domain_def auth_user_has_permission_def exec_simps
        db_error_def missing_permission_def)
next
  case (reads u p w r w')
  then show ?case by (rule fixes_run [OF repository_reads])
qed

section \<open>The cached service\<close>

definition version_of :: "world \<Rightarrow> string" where
  "version_of w = (case w_cache w VERSION_KEY of None \<Rightarrow> DEFAULT_VERSION | Some (v, _) \<Rightarrow> v)"

text \<open>
  Coherence: the lock is not poisoned (no code panics while holding it), the version never
  expires, and what the cache holds for the current version is what the database grants.
\<close>

definition cache_coherent :: "env \<Rightarrow> cache_adapter \<Rightarrow> world \<Rightarrow> bool" where
  "cache_coherent E c w \<longleftrightarrow> c = MemoryCache \<longrightarrow>
     (\<forall>n. \<not> env_lock_poisoned E n) \<and>
     (\<forall>v e. w_cache w VERSION_KEY = Some (v, e) \<longrightarrow> e = None) \<and>
     (\<forall>n v e ps. w_cache w (user_permissions_key (version_of w) n) = Some (v, e) \<longrightarrow>
        env_parse_strings E v = Some ps \<longrightarrow> set ps = {p \<in> set all_names. grants (w_db w) n p})"

lemma current_version_run:
  assumes "cache_coherent E c w" "current_version E c w = (Inr v, w')"
  shows "w_cache w' = w_cache w" "w_db w' = w_db w" "c = MemoryCache \<Longrightarrow> v = version_of w"
proof -
  have "w_cache w' = w_cache w \<and> w_db w' = w_db w \<and> (c = MemoryCache \<longrightarrow> v = version_of w)"
  proof (cases c)
    case MemoryCache
    with assms show ?thesis
      by (auto simp: current_version_def cache_get_string_def memory_defs attempt_def
          cache_coherent_def version_of_def split: option.splits prod.splits if_splits)
  qed (use assms in \<open>auto simp: current_version_def cache_get_string_def bindE_def attempt_def\<close>)
  then show "w_cache w' = w_cache w" "w_db w' = w_db w" "c = MemoryCache \<Longrightarrow> v = version_of w"
    by auto
qed

lemma cached_permissions_run:
  assumes co: "cache_coherent E c w" and run: "cached_permissions E c n w = (Inr (Some ps), w')"
  shows "set ps = {p \<in> set all_names. grants (w_db w) n p}"
proof -
  from run obtain ver w1 q where
    ver: "current_version E c w = (Inr ver, w1)" and
    q: "cache_get_string E c (user_permissions_key ver n) w1 = (q, w')" and
    parsed: "(case q of Inr (Some v) \<Rightarrow> env_parse_strings E v | _ \<Rightarrow> None) = Some ps"
    by (auto simp: cached_permissions_def cached_user_permissions_key_def exec_simps)
  then obtain v where
    get: "cache_get_string E c (user_permissions_key ver n) w1 = (Inr (Some v), w')" and
    ps: "env_parse_strings E v = Some ps"
    by (auto split: sum.splits option.splits)
  from get have mem: "c = MemoryCache" by (cases c) (auto simp: cache_get_string_def)
  have "\<exists>e. w_cache w (user_permissions_key (version_of w) n) = Some (v, e)"
    using cache_dispatch.get_sound [OF get] current_version_run [OF co ver] mem by auto
  with co mem ps show ?thesis by (auto simp: cache_coherent_def)
qed

lemma cached_permissions_reads: "steps (fixing w_db) (cached_permissions E c n)"
  unfolding cached_permissions_def cached_user_permissions_key_def
  by (intro db_reads current_version_reads)

text \<open>Hit or miss, the decision is made on the permissions the database grants.\<close>

lemma cached_decision:
  assumes co: "cache_coherent E c w" and run: "cached_require E c ttl u p w = (r, w')"
  shows "r = Inl Unauthorized \<and> \<not> cu_is_authenticated u \<or> (\<exists>m. r = Inl (Validation m)) \<or>
    cu_is_authenticated u \<and>
      r = (if p \<in> set all_names \<and> grants (w_db w) (cu_username u) p then Inr () else Inl (missing_permission p))"
proof (cases "cu_is_authenticated u")
  case False
  with run show ?thesis by (simp add: cached_require_def ensure_def seqE_def bindE_def)
next
  case True
  obtain cached w1 where cached: "cached_permissions E c (cu_username u) w = (Inr cached, w1)"
    by (cases "cached_permissions E c (cu_username u) w"; cases "fst (cached_permissions E c (cu_username u) w)")
      (auto simp: cached_permissions_def cached_user_permissions_key_def current_version_def exec_simps)
  have db: "w_db w1 = w_db w" by (rule fixes_run [OF cached_permissions_reads cached])
  show ?thesis
  proof (cases cached)
    case (Some ps)
    with cached co have "set ps = {q \<in> set all_names. grants (w_db w) (cu_username u) q}"
      by (auto dest: cached_permissions_run)
    with run True cached Some show ?thesis
      by (auto simp: cached_require_def ensure_def seqE_def bindE_def)
  next
    case None
    obtain q w2 where q: "auth_user_permissions E (cu_username u) w1 = (q, w2)" by fastforce
    show ?thesis
    proof (cases q)
      case (Inl e)
      then have "\<exists>m. e = DomValidation m"
        using q by (auto simp: auth_user_permissions_def exec_simps db_error_def)
      with run True cached None q Inl show ?thesis
        by (auto simp: cached_require_def ensure_def of_domain_def seqE_def bindE_def map_err_def)
    next
      case (Inr ps)
      then have ps: "set ps = {q \<in> set all_names. grants (w_db w) (cu_username u) q}"
        using q db by (auto dest: user_permissions_Inr)
      obtain x w3 where "store_permissions E c ttl (cu_username u) ps w2 = (Inr x, w3)"
        by (cases "store_permissions E c ttl (cu_username u) ps w2";
            cases "fst (store_permissions E c ttl (cu_username u) ps w2)")
          (auto simp: store_permissions_def cached_user_permissions_key_def current_version_def exec_simps)
      with run True cached None q Inr ps show ?thesis
        by (auto simp: cached_require_def ensure_def of_domain_def seqE_def bindE_def map_err_def)
    qed
  qed
qed

interpretation cached_authorization: authorization_contract
  "cache_coherent E c" "cached_require E c ttl" for E c ttl
proof (unfold_locales, goal_cases granted missing reads)
  case (granted w p u x w')
  then show ?case using cached_decision [OF granted(1,3)] by (auto split: if_splits)
next
  case (missing w p u w')
  then show ?case
    using cached_decision [OF missing(1,4)] by (auto simp: missing_permission_def split: if_splits)
next
  case (reads u p w r w')
  then show ?case by (rule fixes_run [OF cached_reads])
qed

lemma user_permissions_key_inj [simp]:
  "user_permissions_key v n = user_permissions_key v m \<longleftrightarrow> n = m"
  by (simp add: user_permissions_key_def)

lemma version_key_differs [simp]:
  "user_permissions_key v n \<noteq> VERSION_KEY" "VERSION_KEY \<noteq> user_permissions_key v n"
  by (simp_all add: user_permissions_key_def VERSION_KEY_def)

lemma invalidate_coherent:
  assumes run: "invalidate E c w = (r, w')"
    and lock: "\<And>n. \<not> env_lock_poisoned E n"
    and fresh: "\<And>n. w_cache w (user_permissions_key (env_uuid E (w_tick w)) n) = None"
  shows "cache_coherent E c w'"
proof (cases c)
  case MemoryCache
  with run lock have "w_cache w' = (w_cache w)(VERSION_KEY := Some (env_uuid E (w_tick w), None))"
    by (auto simp: invalidate_def new_uuid_def cache_set_string_def memory_defs)
  with lock fresh show ?thesis by (simp add: cache_coherent_def version_of_def)
qed (simp add: cache_coherent_def)

lemma coherent_cong:
  "cache_coherent E c w \<Longrightarrow> w_cache w' = w_cache w \<Longrightarrow> w_db w' = w_db w \<Longrightarrow> cache_coherent E c w'"
  by (simp add: cache_coherent_def version_of_def)

lemma coherentI:
  assumes "\<And>n. \<not> env_lock_poisoned E n"
    and "\<And>v e. w_cache w VERSION_KEY = Some (v, e) \<Longrightarrow> e = None"
    and "\<And>n v e ps. w_cache w (user_permissions_key (version_of w) n) = Some (v, e) \<Longrightarrow>
      env_parse_strings E v = Some ps \<Longrightarrow> set ps = {p \<in> set all_names. grants (w_db w) n p}"
  shows "cache_coherent E c w"
  using assms unfolding cache_coherent_def by blast

lemma coherentD:
  assumes "cache_coherent E MemoryCache w"
  shows "\<not> env_lock_poisoned E n"
    and "w_cache w VERSION_KEY = Some (v, e) \<Longrightarrow> e = None"
    and "w_cache w (user_permissions_key (version_of w) m) = Some (v', e') \<Longrightarrow>
      env_parse_strings E v' = Some ps \<Longrightarrow> set ps = {p \<in> set all_names. grants (w_db w) m p}"
  using assms unfolding cache_coherent_def by blast+

lemma get_coherent:
  assumes co: "cache_coherent E c w" and get: "cache_get_string E c k w = (r, w')" and k: "k \<noteq> VERSION_KEY"
  shows "cache_coherent E c w'"
proof (cases c)
  case MemoryCache
  note co = co [unfolded MemoryCache]
  note frame = cache_dispatch.get_frame [OF get]
  have ver: "w_cache w' VERSION_KEY = w_cache w VERSION_KEY" "w_db w' = w_db w"
    using frame k by auto
  have sub: "w_cache w k' = Some x" if "w_cache w' k' = Some x" for k' x
    using frame that by (metis option.distinct(1))
  show ?thesis
  proof (rule coherentI)
    show "\<not> env_lock_poisoned E n" for n using coherentD(1) [OF co] .
    show "e = None" if "w_cache w' VERSION_KEY = Some (v, e)" for v e
      using coherentD(2) [OF co] that ver by auto
    show "set ps = {p \<in> set all_names. grants (w_db w') n p}"
      if "w_cache w' (user_permissions_key (version_of w') n) = Some (v, e)" "env_parse_strings E v = Some ps"
      for n v e ps
      using coherentD(3) [OF co _ that(2)] sub [OF that(1)] ver by (simp add: version_of_def)
  qed
qed (simp add: cache_coherent_def)

lemma store_coherent:
  assumes co: "cache_coherent E c w" and run: "store_permissions E c ttl n ps w = (r, w')"
    and ps: "set ps = {p \<in> set all_names. grants (w_db w) n p}"
    and codec: "env_parse_strings E (env_json_strings E ps) = Some ps"
  shows "cache_coherent E c w'"
proof (cases c)
  case MemoryCache
  note co' = co [unfolded MemoryCache]
  obtain ver w1 where ver: "current_version E c w = (Inr ver, w1)"
    by (cases "current_version E c w"; cases "fst (current_version E c w)")
      (auto simp: current_version_def exec_simps)
  note cv = current_version_run [OF co ver]
  let ?key = "user_permissions_key (version_of w) n"
  obtain q w2 where set: "cache_set_string E c ?key (env_json_strings E ps) (Some ttl) w1 = (q, w2)"
    by fastforce
  from run ver cv(3) [OF MemoryCache] set have w': "w' = w2"
    by (auto simp: store_permissions_def cached_user_permissions_key_def bindE_def)
  note frame = cache_dispatch.set_frame [OF set, folded w']
  have same: "w_cache w' VERSION_KEY = w_cache w VERSION_KEY" "w_db w' = w_db w" "version_of w' = version_of w"
    using frame cv(1,2) by (simp_all add: version_of_def)
  show ?thesis
  proof (rule coherentI)
    show "\<not> env_lock_poisoned E n" for n using coherentD(1) [OF co'] .
    show "e = None" if "w_cache w' VERSION_KEY = Some (v, e)" for v e
      using coherentD(2) [OF co'] that same by auto
    fix m v e qs
    assume entry: "w_cache w' (user_permissions_key (version_of w') m) = Some (v, e)"
      and parse: "env_parse_strings E v = Some qs"
    show "set qs = {p \<in> set all_names. grants (w_db w') m p}"
    proof (cases "m = n \<and> v = env_json_strings E ps")
      case True
      with parse codec ps same show ?thesis by auto
    next
      case False
      have "w_cache w (user_permissions_key (version_of w) m) = Some (v, e)"
        using frame entry cv(1) False by (cases "m = n") (auto simp: same)
      then show ?thesis using coherentD(3) [OF co' _ parse] same by simp
    qed
  qed
qed (simp add: cache_coherent_def)

text \<open>Serving a decision keeps the cache coherent.\<close>

lemma cached_require_coherent:
  assumes co: "cache_coherent E c w" and run: "cached_require E c ttl u p w = (r, w')"
    and codec: "\<And>xs. env_parse_strings E (env_json_strings E xs) = Some xs"
  shows "cache_coherent E c w'"
proof (cases "cu_is_authenticated u")
  case False
  with run co show ?thesis by (simp add: cached_require_def ensure_def seqE_def bindE_def)
next
  case True
  let ?n = "cu_username u"
  obtain ver w1 where ver: "current_version E c w = (Inr ver, w1)"
    by (cases "current_version E c w"; cases "fst (current_version E c w)")
      (auto simp: current_version_def exec_simps)
  obtain q w2 where get: "cache_get_string E c (user_permissions_key ver ?n) w1 = (q, w2)" by fastforce
  have co1: "cache_coherent E c w1"
    using co current_version_run(1,2) [OF co ver] by (rule coherent_cong)
  have co2: "cache_coherent E c w2" by (rule get_coherent [OF co1 get]) simp
  obtain cached where cached: "cached_permissions E c ?n w = (Inr cached, w2)"
    using ver get by (auto simp: cached_permissions_def cached_user_permissions_key_def bindE_def attempt_def)
  obtain q3 w3 where perms: "auth_user_permissions E ?n w2 = (q3, w3)" by fastforce
  have co3: "cache_coherent E c w3"
    using co2 perms
    by (elim coherent_cong) (auto simp: auth_user_permissions_def mapE_def map_err_def query_def
        split: option.splits)
  show ?thesis
  proof (cases "cached = None \<and> (\<exists>ps. q3 = Inr ps)")
    case False
    with run True cached perms co2 co3 show ?thesis
      by (cases cached; cases q3)
        (auto simp: cached_require_def ensure_def of_domain_def seqE_def bindE_def map_err_def
          split: if_splits)
  next
    case miss: True
    then obtain ps where q3: "cached = None" "q3 = Inr ps" by auto
    obtain q4 w4 where store: "store_permissions E c ttl ?n ps w3 = (q4, w4)" by fastforce
    have "set ps = {p \<in> set all_names. grants (w_db w3) ?n p}"
      using user_permissions_Inr [of E ?n w2 ps w3] perms q3 by simp
    with store_coherent [OF co3 store] codec have "cache_coherent E c w4" by simp
    with run True cached perms q3 store show ?thesis
      by (cases q4) (auto simp: cached_require_def ensure_def of_domain_def seqE_def bindE_def
          map_err_def split: if_splits)
  qed
qed

section \<open>The session of the concrete token\<close>

lemma token_session: "session_at token_db (sample_token ''ann'') = Some (sample_session (sample_token ''ann'') 1)"
  by (simp add: session_at_def token_db_def sample_session_def)

lemma token_view: "t < 100000000000 \<Longrightarrow> session_view t token_db (sample_token ''ann'') =
   Some (to_session (sample_session (sample_token ''ann'') 1) (sample_user 1 ''ann''))"
  by (simp add: session_view_def token_session session_owner_def live_def)
    (simp add: sample_session_def sample_user_def token_db_def sample_db_def new_user_row_def
      seconds_def live_def)

end
