(* ===== verification/User_Service.thy ===== *)
theory User_Service
  imports Authorization
begin

text \<open>
  The user administration service (\<^verbatim>\<open>application/src/identity/users/service.rs\<close>) and the role and
  permission service (\<^verbatim>\<open>application/src/identity/permissions/service.rs\<close>): every operation asks for
  its permission first, changes go through the managed writer or the authorization repository,
  and then invalidate the permission cache and write an audit entry whose failure is ignored.
\<close>

section \<open>User administration\<close>

record user_service =
  us_tokens :: jwt_token_service
  us_authorization :: authorization_service
  us_cache :: cache_adapter
  us_search_enabled :: bool
  us_publish_mutations :: bool

record user_dto =
  ud_id :: int
  ud_pid :: uuid
  ud_username :: string
  ud_created_at :: instant
  ud_is_verified :: bool
  ud_roles :: "string list"

definition to_user_dto :: "user \<Rightarrow> string list \<Rightarrow> user_dto" where
  "to_user_dto user roles =
     \<lparr>ud_id = u_id user, ud_pid = u_pid user, ud_username = u_username user,
      ud_created_at = u_created_at user, ud_is_verified = (u_email_verified_at user \<noteq> None),
      ud_roles = roles\<rparr>"

record paged_users =
  pu_items :: "user_dto list"
  pu_total_count :: int
  pu_page :: "32 word"
  pu_page_size :: "32 word"

definition add_new_role :: "string list \<Rightarrow> string \<Rightarrow> string list" where
  "add_new_role roles role = (if role \<in> set roles then roles else roles @ [role])"

definition normalized_roles :: "string \<Rightarrow> string list \<Rightarrow> string list" where
  "normalized_roles username roles =
     (let roles = foldl add_new_role [] (filter (\<lambda>r. r \<noteq> []) (map trim roles))
      in if is_protected_admin_username username \<and>
            \<not> (\<exists>r \<in> set roles. eq_ignore_ascii_case r DEFAULT_ADMIN_ROLE_NAME)
         then roles @ [DEFAULT_ADMIN_ROLE_NAME] else roles)"

definition localize_user_conflict :: "application_error \<Rightarrow> application_error" where
  "localize_user_conflict e =
     (case e of Conflict _ \<Rightarrow> localized_conflict UserAlreadyExists | _ \<Rightarrow> e)"

definition record_audit ::
    "env \<Rightarrow> jwt_token_service \<Rightarrow> string \<Rightarrow> string \<Rightarrow> string \<Rightarrow> string option
      \<Rightarrow> (string \<times> json_value) list \<Rightarrow> (application_error, unit) action" where
  "record_audit E tokens actor_token action_name entity_type entity_id details =
     bindE (attempt (provider_current_user E tokens actor_token)) (\<lambda>r.
       ignore_err (audit_record E
         \<lparr>ae_actor = (case r of Inr user \<Rightarrow> cu_username user | Inl _ \<Rightarrow> ''unknown''),
          ae_action = action_name, ae_entity_type = entity_type, ae_entity_id = entity_id,
          ae_details = details\<rparr>))"

definition require_user_permission ::
    "env \<Rightarrow> user_service \<Rightarrow> string \<Rightarrow> permission_name \<Rightarrow> (application_error, unit) action" where
  "require_user_permission E S token p =
     require_permission E (us_tokens S) (us_authorization S) token p"

definition users_dto :: "env \<Rightarrow> user list \<Rightarrow> (application_error, user_dto list) action" where
  "users_dto E users =
     collect_each (\<lambda>user. bindE (of_domain (users_user_roles E (u_username user)))
       (\<lambda>roles. ret (to_user_dto user roles))) users"

definition search_users ::
    "env \<Rightarrow> 32 word \<Rightarrow> 32 word \<Rightarrow> string \<Rightarrow> (application_error, user list \<times> int) action" where
  "search_users E page page_size text = (\<lambda>w.
     bindE (of_result
       (case env_search E (w_tick w) (trim text) ((unat page - 1) * unat page_size) (unat page_size) of
          Inl m \<Rightarrow> Inl (Infrastructure m) | Inr hits \<Rightarrow> Inr hits)) (\<lambda>(hits, total).
     (let pids = List.map_filter (env_parse_uuid E) (List.map_filter (\<lambda>h. h) hits)
      in bindE (of_domain (users_find_by_pids E pids)) (\<lambda>users.
           ret (users, min (int total) (2 ^ 63 - 1))))) (ticked w))"

definition user_list ::
    "env \<Rightarrow> user_service \<Rightarrow> string \<Rightarrow> 32 word \<Rightarrow> 32 word \<Rightarrow> string option \<Rightarrow> string option
      \<Rightarrow> (application_error, paged_users) action" where
  "user_list E S actor_token input_page input_page_size search sorting =
     seqE (require_user_permission E S actor_token USERS)
     (let page = max input_page 1;
          page_size = clamp_page_size input_page_size
      in bindE
           (if us_search_enabled S \<and> sorting = None \<and> is_some_and (\<lambda>s. trim s \<noteq> []) search
            then bindE (attempt (search_users E page page_size (the search))) (\<lambda>r.
                   case r of
                     Inr found \<Rightarrow> ret found
                   | Inl _ \<Rightarrow> of_domain (users_list E page page_size search sorting))
            else of_domain (users_list E page page_size search sorting)) (\<lambda>(items, total_count).
         bindE (users_dto E items) (\<lambda>dtos.
         ret \<lparr>pu_items = dtos, pu_total_count = total_count, pu_page = page,
              pu_page_size = page_size\<rparr>)))"

definition user_get :: "env \<Rightarrow> user_service \<Rightarrow> string \<Rightarrow> string \<Rightarrow> (application_error, user_dto) action" where
  "user_get E S actor_token username =
     seqE (require_user_permission E S actor_token USERS)
     (bindE (of_domain (users_find_by_username E username)) (\<lambda>found.
      bindE (ok_or found (localized_not_found UserNotFound)) (\<lambda>user.
      bindE (of_domain (users_user_roles E (u_username user))) (\<lambda>roles.
      ret (to_user_dto user roles)))))"

definition then_now :: "env \<Rightarrow> bool \<Rightarrow> (application_error, instant option) action" where
  "then_now E b = (if b then bindE (utc_now E) (\<lambda>now. ret (Some now)) else ret None)"

definition user_create ::
    "env \<Rightarrow> user_service \<Rightarrow> string \<Rightarrow> string \<Rightarrow> string \<Rightarrow> bool \<Rightarrow> string list
      \<Rightarrow> (application_error, user_dto) action" where
  "user_create E S actor_token username password is_verified input_roles =
     seqE (require_user_permission E S actor_token USERS_CREATE)
     (seqE (of_result (required_username_password username password))
     (bindE (of_domain (users_exists E username)) (\<lambda>present.
      seqE (ensure (\<not> present) (localized_conflict UserAlreadyExists))
      (let roles = normalized_roles username input_roles
       in bindE (hash_password E password) (\<lambda>password_hash.
          bindE (then_now E is_verified) (\<lambda>verified_at.
          seqE (map_err localize_user_conflict (writer_create E
             \<lparr>cm_username = username, cm_password_hash = password_hash,
              cm_email_verified_at = verified_at, cm_roles = roles,
              cm_publish_search = us_publish_mutations S\<rparr>))
          (seqE (invalidate E (us_cache S))
          (seqE (record_audit E (us_tokens S) actor_token ''identity.users.create'' ''identity.user''
                  (Some username) [(''is_verified'', JsonBool is_verified), (''roles'', JsonStrings roles)])
            (user_get E S actor_token username)))))))))"

definition user_update ::
    "env \<Rightarrow> user_service \<Rightarrow> string \<Rightarrow> string \<Rightarrow> string option \<Rightarrow> bool \<Rightarrow> string list
      \<Rightarrow> (application_error, user_dto) action" where
  "user_update E S actor_token username password is_verified input_roles =
     seqE (require_user_permission E S actor_token USERS_UPDATE)
     (seqE (of_result (required_username username))
     (bindE (of_domain (users_exists E username)) (\<lambda>present.
      seqE (ensure present (localized_not_found UserNotFound))
      (bindE (of_result (optional_password password)) (\<lambda>new_password.
       bindE (case new_password of
                Some p \<Rightarrow> bindE (hash_password E p) (\<lambda>h. ret (Some h))
              | None \<Rightarrow> ret None) (\<lambda>password_hash.
       bindE (then_now E is_verified) (\<lambda>verified_at.
       (let roles = normalized_roles username input_roles
        in bindE (writer_update E
              \<lparr>um_username = username, um_password_hash = password_hash,
               um_email_verified_at = verified_at, um_roles = roles,
               um_publish_search = us_publish_mutations S\<rparr>) (\<lambda>updated.
           seqE (ensure (updated \<noteq> None) (localized_not_found UserNotFound))
           (seqE (invalidate E (us_cache S))
           (seqE (record_audit E (us_tokens S) actor_token ''identity.users.update'' ''identity.user''
                   (Some username) [(''is_verified'', JsonBool is_verified), (''roles'', JsonStrings roles),
                     (''password_changed'', JsonBool (is_some_and (\<lambda>p. p \<noteq> []) password))])
             (user_get E S actor_token username))))))))))))"

definition user_delete :: "env \<Rightarrow> user_service \<Rightarrow> string \<Rightarrow> string \<Rightarrow> (application_error, unit) action" where
  "user_delete E S actor_token username =
     seqE (require_user_permission E S actor_token USERS_DELETE)
     (seqE (ensure (\<not> is_protected_admin_username username)
              (localized_forbidden ProtectedAdminCannotBeDeleted))
     (bindE (writer_delete E username (us_publish_mutations S)) (\<lambda>deleted.
      seqE (ensure deleted (localized_not_found UserNotFound))
      (seqE (invalidate E (us_cache S))
       (record_audit E (us_tokens S) actor_token ''identity.users.delete'' ''identity.user''
          (Some username) [])))))"

section \<open>Roles and permissions\<close>

record permission_service =
  pm_tokens :: jwt_token_service
  pm_authorization :: authorization_service
  pm_cache :: cache_adapter

record permission_dto =
  pd_name :: string
  pd_display_name :: string

record role_dto =
  rd_name :: string
  rd_permissions :: "string list"

record paged_roles =
  pr_items :: "role_dto list"
  pr_total_count :: int
  pr_page :: "32 word"
  pr_page_size :: "32 word"

definition validate_role_name :: "string \<Rightarrow> application_error + unit" where
  "validate_role_name name =
     (if trim name = [] then Inl (localized_validation RoleNameRequired) else Inr ())"

definition parse_permission :: "string \<Rightarrow> application_error + permission_name" where
  "parse_permission p =
     (case from_name p of None \<Rightarrow> Inl (Validation (''Unknown permission: '' @ p)) | Some q \<Rightarrow> Inr q)"

definition perm_require :: "env \<Rightarrow> permission_service \<Rightarrow> string \<Rightarrow> (application_error, current_user) action" where
  "perm_require E S actor_token =
     bindE (provider_current_user E (pm_tokens S) actor_token) (\<lambda>user.
     seqE (authorization_require E (pm_authorization S) user AUTHORIZATION) (ret user))"

definition to_role_dto :: "env \<Rightarrow> role \<Rightarrow> (application_error, role_dto) action" where
  "to_role_dto E role =
     bindE (of_domain (auth_role_permissions E (r_name role))) (\<lambda>permissions.
       ret \<lparr>rd_name = r_name role, rd_permissions = permissions\<rparr>)"

definition perm_list_permissions ::
    "env \<Rightarrow> permission_service \<Rightarrow> string \<Rightarrow> (application_error, permission_dto list) action" where
  "perm_list_permissions E S actor_token =
     seqE (perm_require E S actor_token)
       (ret (map (\<lambda>(name, display). \<lparr>pd_name = name, pd_display_name = default_text display\<rparr>)
               all_permissions))"

definition perm_list_roles ::
    "env \<Rightarrow> permission_service \<Rightarrow> string \<Rightarrow> (application_error, role_dto list) action" where
  "perm_list_roles E S actor_token =
     seqE (perm_require E S actor_token)
     (bindE (of_domain (auth_list_roles E)) (collect_each (to_role_dto E)))"

definition perm_list_roles_page ::
    "env \<Rightarrow> permission_service \<Rightarrow> string \<Rightarrow> 32 word \<Rightarrow> 32 word \<Rightarrow> string option \<Rightarrow> string option
      \<Rightarrow> string option \<Rightarrow> (application_error, paged_roles) action" where
  "perm_list_roles_page E S actor_token input_page input_page_size search permission_status sorting =
     seqE (perm_require E S actor_token)
     (let page = max input_page 1;
          page_size = clamp_page_size input_page_size
      in bindE (of_domain (auth_list_roles_page E page page_size search permission_status sorting)) (\<lambda>(roles, total).
         bindE (collect_each (to_role_dto E) roles) (\<lambda>items.
         ret \<lparr>pr_items = items, pr_total_count = total, pr_page = page, pr_page_size = page_size\<rparr>)))"

definition perm_get_role ::
    "env \<Rightarrow> permission_service \<Rightarrow> string \<Rightarrow> string \<Rightarrow> (application_error, role_dto) action" where
  "perm_get_role E S actor_token role_name =
     seqE (perm_require E S actor_token)
     (seqE (of_result (validate_role_name role_name))
     (bindE (of_domain (auth_find_role E role_name)) (\<lambda>found.
      bindE (ok_or found (localized_not_found RoleNotFound)) (to_role_dto E))))"

definition perm_create_role ::
    "env \<Rightarrow> permission_service \<Rightarrow> string \<Rightarrow> string \<Rightarrow> (application_error, unit) action" where
  "perm_create_role E S actor_token name =
     bindE (perm_require E S actor_token) (\<lambda>actor.
     seqE (of_result (validate_role_name name))
     (seqE (auth_create_role_with_audit E name
        \<lparr>ca_actor = cu_username actor, ca_action = ''identity.roles.create'',
         ca_entity_type = ''identity.role'', ca_entity_id = name, ca_details = []\<rparr>)
       (invalidate E (pm_cache S))))"

definition perm_update_role ::
    "env \<Rightarrow> permission_service \<Rightarrow> string \<Rightarrow> string \<Rightarrow> string \<Rightarrow> (application_error, unit) action" where
  "perm_update_role E S actor_token name new_name =
     seqE (perm_require E S actor_token)
     (seqE (of_result (validate_role_name name))
     (seqE (of_result (validate_role_name new_name))
     (seqE (ensure (\<not> is_protected_admin_role name) (localized_forbidden ProtectedAdminRoleCannotBeDeleted))
     (bindE (of_domain (auth_update_role E name new_name)) (\<lambda>updated.
      seqE (ensure updated (localized_not_found RoleNotFound))
      (seqE (invalidate E (pm_cache S))
       (record_audit E (pm_tokens S) actor_token ''identity.roles.update'' ''identity.role''
          (Some new_name) [(''previous_name'', JsonString name)])))))))"

definition perm_delete_role ::
    "env \<Rightarrow> permission_service \<Rightarrow> string \<Rightarrow> string \<Rightarrow> (application_error, unit) action" where
  "perm_delete_role E S actor_token role_name =
     seqE (perm_require E S actor_token)
     (seqE (of_result (validate_role_name role_name))
     (seqE (ensure (\<not> is_protected_admin_role role_name) (localized_forbidden ProtectedAdminRoleCannotBeDeleted))
     (bindE (of_domain (auth_delete_role E role_name)) (\<lambda>deleted.
      seqE (ensure deleted (localized_not_found RoleNotFound))
      (seqE (invalidate E (pm_cache S))
       (record_audit E (pm_tokens S) actor_token ''identity.roles.delete'' ''identity.role''
          (Some role_name) []))))))"

definition perm_role_permissions ::
    "env \<Rightarrow> permission_service \<Rightarrow> string \<Rightarrow> string \<Rightarrow> (application_error, string list) action" where
  "perm_role_permissions E S actor_token role_name =
     seqE (perm_require E S actor_token)
     (seqE (of_result (validate_role_name role_name))
       (of_domain (auth_role_permissions E role_name)))"

definition perm_set_role_permissions ::
    "env \<Rightarrow> permission_service \<Rightarrow> string \<Rightarrow> string \<Rightarrow> string list \<Rightarrow> (application_error, unit) action" where
  "perm_set_role_permissions E S actor_token role_name permissions =
     seqE (perm_require E S actor_token)
     (seqE (of_result (validate_role_name role_name))
     (bindE (collect_each (\<lambda>p. of_result (parse_permission p)) permissions) (\<lambda>parsed.
      seqE (of_domain (auth_set_role_permissions E role_name parsed))
      (seqE (invalidate E (pm_cache S))
       (record_audit E (pm_tokens S) actor_token ''identity.roles.set_permissions'' ''identity.role''
          (Some role_name) [(''permissions'', JsonStrings permissions)])))))"

definition perm_assign_user_role ::
    "env \<Rightarrow> permission_service \<Rightarrow> string \<Rightarrow> string \<Rightarrow> string \<Rightarrow> (application_error, unit) action" where
  "perm_assign_user_role E S actor_token username role_name =
     seqE (perm_require E S actor_token)
     (seqE (of_result (required_username username))
     (seqE (of_result (validate_role_name role_name))
     (seqE (of_domain (auth_assign_role E username role_name))
     (seqE (invalidate E (pm_cache S))
       (record_audit E (pm_tokens S) actor_token ''identity.users.assign_role'' ''identity.user''
          (Some username) [(''role'', JsonString role_name)])))))"

end
