(* ===== verification/Two_Factor_Repository.thy ===== *)
theory Two_Factor_Repository
  imports User_Repository
begin

text \<open>
  The SQLite repository of TOTP credentials
  (\<^verbatim>\<open>sqlx/src/identity/two_factor/sqlite_repository.rs\<close>). Backup code hashes are stored as a JSON
  array; the encoding is injective, so the compare-and-swap on its text is one on the list. The
  contract is the locale \<open>totp_store\<close>: login tokens are single-use, a set of backup codes is
  replaced only if it is the one that was read, and a credential that is enabled has a secret.
\<close>

definition map_credential :: "user_row \<Rightarrow> two_factor_credential option" where
  "map_credential u =
     (case ur_totp_secret u of
        None \<Rightarrow> None
      | Some secret \<Rightarrow>
          Some \<lparr>tf_username = ur_username u, tf_secret = secret, tf_enabled_at = ur_totp_enabled_at u,
                tf_backup_code_hashes = ur_totp_backup_code_hashes u\<rparr>)"

definition totp_credential_by_username ::
    "env \<Rightarrow> string \<Rightarrow> (domain_error, two_factor_credential option) action" where
  "totp_credential_by_username E username =
     map_err (db_error E) (query E (\<lambda>d. Option.bind
       (find (\<lambda>u. active username u \<and> ur_totp_secret u \<noteq> None) (db_users d)) map_credential))"

definition login_token_valid :: "string \<Rightarrow> instant \<Rightarrow> user_row \<Rightarrow> bool" where
  "login_token_valid token now u \<longleftrightarrow>
     ur_totp_login_token u = Some token \<and>
     is_some_and (\<lambda>t. t > now) (ur_totp_login_expires_at u) \<and> ur_deleted_at u = None"

definition totp_credential_by_login_token ::
    "env \<Rightarrow> string \<Rightarrow> (domain_error, two_factor_credential option) action" where
  "totp_credential_by_login_token E token =
     bindE (utc_now E) (\<lambda>now.
       map_err (db_error E) (query E (\<lambda>d. Option.bind
         (find (\<lambda>u. login_token_valid token now u \<and> ur_totp_secret u \<noteq> None \<and>
                    ur_totp_enabled_at u \<noteq> None) (db_users d)) map_credential)))"

definition totp_set_setup_secret :: "env \<Rightarrow> string \<Rightarrow> string \<Rightarrow> (domain_error, bool) action" where
  "totp_set_setup_secret E username secret =
     mapE (\<lambda>k. k > 0) (map_err (db_error E) (update_users E (active username)
       (\<lambda>u. u\<lparr>ur_totp_secret := Some secret, ur_totp_enabled_at := None,
              ur_totp_backup_code_hashes := [], ur_totp_login_token := None,
              ur_totp_login_expires_at := None\<rparr>)))"

definition totp_enable ::
    "env \<Rightarrow> string \<Rightarrow> instant \<Rightarrow> string list \<Rightarrow> (domain_error, bool) action" where
  "totp_enable E username enabled_at backup_code_hashes =
     mapE (\<lambda>k. k > 0) (map_err (db_error E) (update_users E
       (\<lambda>u. active username u \<and> ur_totp_secret u \<noteq> None)
       (\<lambda>u. u\<lparr>ur_totp_enabled_at := Some enabled_at,
              ur_totp_backup_code_hashes := backup_code_hashes, ur_totp_login_token := None,
              ur_totp_login_expires_at := None\<rparr>)))"

definition totp_disable :: "env \<Rightarrow> string \<Rightarrow> (domain_error, bool) action" where
  "totp_disable E username =
     mapE (\<lambda>k. k > 0) (map_err (db_error E) (update_users E (active username)
       (\<lambda>u. u\<lparr>ur_totp_secret := None, ur_totp_enabled_at := None,
              ur_totp_backup_code_hashes := [], ur_totp_login_token := None,
              ur_totp_login_expires_at := None\<rparr>)))"

definition totp_set_login_token ::
    "env \<Rightarrow> string \<Rightarrow> string \<Rightarrow> instant \<Rightarrow> (domain_error, bool) action" where
  "totp_set_login_token E username token expires_at =
     mapE (\<lambda>k. k > 0) (map_err (db_error E) (update_users E
       (\<lambda>u. active username u \<and> ur_totp_secret u \<noteq> None \<and> ur_totp_enabled_at u \<noteq> None)
       (\<lambda>u. u\<lparr>ur_totp_login_token := Some token, ur_totp_login_expires_at := Some expires_at\<rparr>)))"

definition totp_consume_login_token ::
    "env \<Rightarrow> string \<Rightarrow> string \<Rightarrow> (domain_error, bool) action" where
  "totp_consume_login_token E username token =
     bindE (utc_now E) (\<lambda>now.
       mapE (\<lambda>k. k > 0) (map_err (db_error E) (update_users E
         (\<lambda>u. ur_username u = username \<and> login_token_valid token now u)
         (\<lambda>u. u\<lparr>ur_totp_login_token := None, ur_totp_login_expires_at := None\<rparr>))))"

definition totp_replace_backup_code_hashes ::
    "env \<Rightarrow> string \<Rightarrow> string list \<Rightarrow> (domain_error, unit) action" where
  "totp_replace_backup_code_hashes E username backup_code_hashes =
     mapE (\<lambda>_. ()) (map_err (db_error E) (update_users E (active username)
       (\<lambda>u. u\<lparr>ur_totp_backup_code_hashes := backup_code_hashes\<rparr>)))"

definition totp_consume_backup_code_hashes ::
    "env \<Rightarrow> string \<Rightarrow> string list \<Rightarrow> string list \<Rightarrow> (domain_error, bool) action" where
  "totp_consume_backup_code_hashes E username expected_hashes remaining_hashes =
     mapE (\<lambda>k. k > 0) (map_err (db_error E) (update_users E
       (\<lambda>u. active username u \<and> ur_totp_backup_code_hashes u = expected_hashes)
       (\<lambda>u. u\<lparr>ur_totp_backup_code_hashes := remaining_hashes\<rparr>)))"

section \<open>The contract\<close>

text \<open>What the credential repository promises about the user it is asked for.\<close>

locale totp_store =
  fixes E :: env
    and consume_login :: "string \<Rightarrow> string \<Rightarrow> (domain_error, bool) action"
    and consume_codes :: "string \<Rightarrow> string list \<Rightarrow> string list \<Rightarrow> (domain_error, bool) action"
  assumes consume_login_law:
      "schema_ok (w_db w) \<Longrightarrow> consume_login n tok w = (Inr b, w') \<Longrightarrow>
         b = (\<exists>u. user_at (w_db w) n = Some u \<and> login_token_valid tok (env_now E (w_tick w)) u) \<and>
         (\<forall>m. user_at (w_db w') m =
            (if b \<and> m = n
             then map_option (\<lambda>u. u\<lparr>ur_totp_login_token := None, ur_totp_login_expires_at := None\<rparr>)
                    (user_at (w_db w) m)
             else user_at (w_db w) m)) \<and> schema_ok (w_db w')"
    and consume_codes_law:
      "schema_ok (w_db w) \<Longrightarrow> consume_codes n old new w = (Inr b, w') \<Longrightarrow>
         b = (\<exists>u. user_at (w_db w) n = Some u \<and> active n u \<and> ur_totp_backup_code_hashes u = old) \<and>
         (\<forall>m. user_at (w_db w') m =
            (if b \<and> m = n
             then map_option (\<lambda>u. u\<lparr>ur_totp_backup_code_hashes := new\<rparr>) (user_at (w_db w) m)
             else user_at (w_db w) m)) \<and> schema_ok (w_db w')"
begin

text \<open>A login token is accepted once, whatever other users do in between.\<close>

lemma login_token_once:
  assumes "schema_ok (w_db w)" "consume_login n tok w = (Inr True, w1)"
    and "schema_ok (w_db w2)" "user_at (w_db w2) n = user_at (w_db w1) n"
    and "consume_login n tok w2 = (Inr b, w3)"
  shows "\<not> b"
proof -
  from consume_login_law [OF assms(1,2)] obtain u where
    "user_at (w_db w1) n = Some (u\<lparr>ur_totp_login_token := None, ur_totp_login_expires_at := None\<rparr>)"
    by auto
  with consume_login_law [OF assms(3,5)] assms(4) show ?thesis
    by (auto simp: login_token_valid_def)
qed

text \<open>Of two runs that read the same set of codes, only the first to write succeeds.\<close>

lemma codes_once:
  assumes "schema_ok (w_db w)" "consume_codes n old new w = (Inr True, w1)" "new \<noteq> old"
    and "schema_ok (w_db w2)" "user_at (w_db w2) n = user_at (w_db w1) n"
    and "consume_codes n old new' w2 = (Inr b, w3)"
  shows "\<not> b"
proof -
  from consume_codes_law [OF assms(1,2)] obtain u where
    "user_at (w_db w1) n = Some (u\<lparr>ur_totp_backup_code_hashes := new\<rparr>)" by auto
  with consume_codes_law [OF assms(4,6)] assms(3,5) show ?thesis by auto
qed

end

lemma user_at_update:
  assumes ok: "schema_ok d" and name: "\<And>u. P u \<Longrightarrow> ur_username (g u) = ur_username u"
    and P: "\<And>u. P u \<Longrightarrow> ur_username u = n"
  shows "user_at (d\<lparr>db_users := update_where P g (db_users d)\<rparr>) m =
     (if (\<exists>u \<in> set (db_users d). P u) \<and> m = n then map_option g (user_at d m) else user_at d m)"
proof -
  have eq: "user_at (d\<lparr>db_users := update_where P g (db_users d)\<rparr>) m =
      map_option (\<lambda>u. if P u then g u else u) (user_at d m)"
    using name by (simp add: user_at_def find_key_update_where)
  show ?thesis
  proof (cases "user_at d m")
    case (Some u)
    then have "u \<in> set (db_users d)" "ur_username u = m" using user_at_mem [OF ok] by auto
    then have "P u \<longleftrightarrow> (\<exists>u \<in> set (db_users d). P u) \<and> m = n"
      using P user_by_username [OF ok] by blast
    with eq Some show ?thesis by auto
  qed (auto simp: eq)
qed

lemma affected_user:
  assumes "schema_ok d" "\<And>u. P u \<Longrightarrow> ur_username u = n"
  shows "0 < rows_affected P (db_users d) \<longleftrightarrow> (\<exists>u. user_at d n = Some u \<and> P u)"
    "(\<exists>u \<in> set (db_users d). P u) \<longleftrightarrow> (\<exists>u. user_at d n = Some u \<and> P u)"
  using assms(2) user_at_mem [OF assms(1), of n] by (auto simp: rows_affected_pos)

lemma user_update_effect:
  assumes "schema_ok d" "d' = d\<lparr>db_users := update_where (\<lambda>u. ur_username u = n \<and> Q u) g (db_users d)\<rparr>"
    "\<And>u. ur_username (g u) = ur_username u"
    "b = (0 < rows_affected (\<lambda>u. ur_username u = n \<and> Q u) (db_users d))" "schema_ok d'"
  shows "b = (\<exists>u. user_at d n = Some u \<and> Q u) \<and>
    (\<forall>m. user_at d' m = (if b \<and> m = n then map_option g (user_at d m) else user_at d m)) \<and> schema_ok d'"
proof -
  let ?P = "\<lambda>u. ur_username u = n \<and> Q u"
  have "b = (\<exists>u. user_at d n = Some u \<and> ?P u)" "b = (\<exists>u \<in> set (db_users d). ?P u)"
    using affected_user [OF assms(1), of ?P n] assms(4) by auto
  moreover have "(\<exists>u. user_at d n = Some u \<and> ?P u) = (\<exists>u. user_at d n = Some u \<and> Q u)"
    by (auto simp: user_at_mem [OF assms(1)])
  ultimately show ?thesis
    using user_at_update [OF assms(1), of ?P g n] assms(2,3,5) by simp
qed

interpretation sqlite_totp: totp_store E
  "totp_consume_login_token E" "totp_consume_backup_code_hashes E" for E
proof (unfold_locales, goal_cases login codes)
  case (login w n tok b w')
  then show ?case
    by (intro user_update_effect) (auto simp: totp_consume_login_token_def exec_simps)
next
  case (codes w n old new b w')
  have "b = (\<exists>u. user_at (w_db w) n = Some u \<and> ur_deleted_at u = None \<and> ur_totp_backup_code_hashes u = old) \<and>
      (\<forall>m. user_at (w_db w') m = (if b \<and> m = n
         then map_option (\<lambda>u. u\<lparr>ur_totp_backup_code_hashes := new\<rparr>) (user_at (w_db w) m)
         else user_at (w_db w) m)) \<and> schema_ok (w_db w')"
    using codes
    by (intro user_update_effect)
      (auto simp: totp_consume_backup_code_hashes_def exec_simps active_def conj_assoc)
  then show ?case using user_at_mem [OF codes(1)] by (auto simp: active_def)
qed

section \<open>Consistency of the credentials\<close>

text \<open>An enabled credential has a secret, and only an enabled one has a pending login.\<close>

definition totp_consistent :: "user_row \<Rightarrow> bool" where
  "totp_consistent u \<longleftrightarrow>
     (ur_totp_enabled_at u \<noteq> None \<longrightarrow> ur_totp_secret u \<noteq> None) \<and>
     (ur_totp_login_token u \<noteq> None \<longrightarrow> ur_totp_enabled_at u \<noteq> None)"

definition totp_ok :: "database \<Rightarrow> bool" where
  "totp_ok d \<longleftrightarrow> (\<forall>u \<in> set (db_users d). totp_consistent u)"

lemma totp_update_users:
  "(\<And>u. P u \<Longrightarrow> totp_consistent u \<Longrightarrow> totp_consistent (g u)) \<Longrightarrow>
     steps (db_rel (db_inv totp_ok)) (update_users E P g)"
  unfolding update_users_def
  by (rule inv.steps_sql) (auto simp: db_inv_def totp_ok_def set_update_where)

lemma totp_update_users_returning:
  "(\<And>u. P u \<Longrightarrow> totp_consistent u \<Longrightarrow> totp_consistent (g u)) \<Longrightarrow>
     steps (db_rel (db_inv totp_ok)) (update_users_returning E P g)"
  unfolding update_users_returning_def
  by (rule inv.steps_sql) (auto simp: db_inv_def totp_ok_def set_update_where)

lemma totp_operations_consistent:
  "steps (db_rel (db_inv totp_ok)) (totp_set_setup_secret E n s)"
  "steps (db_rel (db_inv totp_ok)) (totp_enable E n t hs)"
  "steps (db_rel (db_inv totp_ok)) (totp_disable E n)"
  "steps (db_rel (db_inv totp_ok)) (totp_set_login_token E n tok t)"
  "steps (db_rel (db_inv totp_ok)) (totp_consume_login_token E n tok)"
  "steps (db_rel (db_inv totp_ok)) (totp_replace_backup_code_hashes E n hs)"
  "steps (db_rel (db_inv totp_ok)) (totp_consume_backup_code_hashes E n hs hs')"
  unfolding totp_set_setup_secret_def totp_enable_def totp_disable_def totp_set_login_token_def
    totp_consume_login_token_def totp_replace_backup_code_hashes_def
    totp_consume_backup_code_hashes_def
  by (intro inv_intros totp_update_users; simp add: totp_consistent_def)+

end
