(* ===== verification/Auth_Service.thy ===== *)
theory Auth_Service
  imports Authorization Two_Factor_Repository
begin

text \<open>
  The authentication service (\<^verbatim>\<open>application/src/identity/auth/service.rs\<close>) over the SQLite
  repositories: registration, password and e-mail changes, magic links, sessions and two-factor
  login. An input record of one or two fields is passed as arguments. The refresh computation
  divides as \<^verbatim>\<open>i64\<close> does.
\<close>

section \<open>Configuration and results\<close>

record session_policy =
  sp_sliding_ttl :: duration
  sp_max_lifetime :: duration
  sp_refresh_threshold_percent :: "8 word"

record auth_service =
  as_tokens :: jwt_token_service
  as_app_name :: string
  as_public_url :: string
  as_session_policy :: session_policy
  as_publish_search :: bool
  as_durable_mail :: bool

record current_user_dto =
  cd_username :: string
  cd_permissions :: "string list"

record login_result =
  lr_token :: "string option"
  lr_totp_required :: bool
  lr_totp_token :: "string option"

definition authenticated :: "string \<Rightarrow> login_result" where
  "authenticated token = \<lparr>lr_token = Some token, lr_totp_required = False, lr_totp_token = None\<rparr>"

definition totp_required :: "string \<Rightarrow> login_result" where
  "totp_required token = \<lparr>lr_token = None, lr_totp_required = True, lr_totp_token = Some token\<rparr>"

record session_dto =
  sd_session_id :: uuid
  sd_session_created_at :: instant
  sd_session_expires_at :: instant
  sd_current :: bool

definition MAGIC_LINK_EXPIRATION_MINUTES :: int where "MAGIC_LINK_EXPIRATION_MINUTES = 5"
definition TOTP_LOGIN_EXPIRATION_MINUTES :: int where "TOTP_LOGIN_EXPIRATION_MINUTES = 5"
definition BACKUP_CODE_COUNT :: nat where "BACKUP_CODE_COUNT = 10"

section \<open>Helpers\<close>

definition provider_error :: "string \<Rightarrow> application_error" where
  "provider_error m = Infrastructure m"

definition send_mail :: "env \<Rightarrow> transactional_mail \<Rightarrow> (application_error, unit) action" where
  "send_mail E mail = (\<lambda>w.
     case env_send_mail E (w_tick w) (render mail) of
       Some m \<Rightarrow> (Inl (provider_error m), ticked w)
     | None \<Rightarrow> (Inr (), (ticked w)\<lparr>w_mails := w_mails w @ [render mail]\<rparr>))"

definition welcome_mail :: "auth_service \<Rightarrow> string \<Rightarrow> string \<Rightarrow> transactional_mail" where
  "welcome_mail S username token =
     VerifyEmail username (as_app_name S) (as_public_url S @ ''/auth/verify/'' @ token)"

definition reset_password_mail :: "auth_service \<Rightarrow> string \<Rightarrow> string \<Rightarrow> transactional_mail" where
  "reset_password_mail S username token =
     ResetPassword username (as_app_name S) (as_public_url S @ ''/auth/reset/'' @ token)"

definition magic_link_mail :: "auth_service \<Rightarrow> string \<Rightarrow> string \<Rightarrow> transactional_mail" where
  "magic_link_mail S username token =
     MagicLink username (as_app_name S) (as_public_url S @ ''/auth/magic-link/'' @ token)"

definition generate_totp_secret :: "env \<Rightarrow> (application_error, string) action" where
  "generate_totp_secret E = (\<lambda>w. (Inr (env_totp_secret E (w_tick w)), ticked w))"

definition verify_totp_code ::
    "env \<Rightarrow> string \<Rightarrow> string \<Rightarrow> string \<Rightarrow> string \<Rightarrow> (application_error, bool) action" where
  "verify_totp_code E secret username issuer code =
     bindE (utc_now E) (\<lambda>now. of_result
       (case env_totp_check E now secret username issuer code of
          Inl m \<Rightarrow> Inl (Unexpected m) | Inr b \<Rightarrow> Inr b))"

text \<open>The three groups of four characters of an upper-case UUID without its dashes.\<close>

definition ascii_upper :: "char \<Rightarrow> char" where
  "ascii_upper c =
     (if 97 \<le> (of_char c :: nat) \<and> (of_char c :: nat) \<le> 122 then char_of ((of_char c :: nat) - 32) else c)"

definition backup_code :: "uuid \<Rightarrow> string" where
  "backup_code uuid =
     (let raw = map ascii_upper (filter (\<lambda>c. c \<noteq> CHR ''-'') uuid)
      in take 4 raw @ ''-'' @ take 4 (drop 4 raw) @ ''-'' @ take 4 (drop 8 raw))"

definition generate_backup_codes :: "env \<Rightarrow> (application_error, string list) action" where
  "generate_backup_codes E =
     collect_each (\<lambda>_. bindE (new_uuid E) (\<lambda>u. ret (backup_code u))) [0..<BACKUP_CODE_COUNT]"

definition invalid_totp_code :: application_error where
  "invalid_totp_code = Coded KindValidation ''totp:invalid_code'' ''Invalid TOTP code''"

definition invalid_totp_token :: application_error where
  "invalid_totp_token = Coded KindUnauthorized ''totp:temp_token_invalid'' ''Invalid TOTP token''"

definition session_not_found :: application_error where
  "session_not_found = NotFound ''Session not found''"

section \<open>Sessions\<close>

definition next_session_expires_at ::
    "env \<Rightarrow> auth_service \<Rightarrow> instant \<Rightarrow> (application_error, instant) action" where
  "next_session_expires_at E S max_expires_at =
     bindE (utc_now E) (\<lambda>now.
       ret (min (now + sp_sliding_ttl (as_session_policy S)) max_expires_at))"

definition create_session :: "env \<Rightarrow> auth_service \<Rightarrow> string \<Rightarrow> (application_error, string) action" where
  "create_session E S username =
     bindE (create_token E (as_tokens S) username) (\<lambda>token.
     bindE (token_expiry E (as_tokens S)) (\<lambda>max_expires_at.
     bindE (next_session_expires_at E S max_expires_at) (\<lambda>expires_at.
     seqE (of_domain (sqlite_sessions_insert E token username expires_at max_expires_at))
       (ret token))))"

definition refresh_session_if_needed ::
    "env \<Rightarrow> auth_service \<Rightarrow> session \<Rightarrow> (application_error, unit) action" where
  "refresh_session_if_needed E S session =
     bindE (utc_now E) (\<lambda>now.
       (let ttl_seconds = num_seconds (s_expires_at session - now);
            policy = as_session_policy S;
            refresh_at_or_below = rust_div
              (num_seconds (sp_sliding_ttl policy) * uint (sp_refresh_threshold_percent policy)) 100
        in if ttl_seconds > refresh_at_or_below then ret ()
           else
             bindE (next_session_expires_at E S (s_max_expires_at session)) (\<lambda>next_expires_at.
             seqE (of_domain (sqlite_sessions_refresh E (s_token session) next_expires_at)) (ret ()))))"

definition auth_current_user ::
    "env \<Rightarrow> auth_service \<Rightarrow> string \<Rightarrow> (application_error, current_user_dto) action" where
  "auth_current_user E S token =
     bindE (verify_token E (as_tokens S) token) (\<lambda>username.
     bindE (of_domain (sqlite_sessions_find_by_token E token)) (\<lambda>found.
     bindE (ok_or found session_not_found) (\<lambda>session.
     bindE (of_domain (users_find_by_username E username)) (\<lambda>user.
     seqE (ensure (\<not> (user = None \<or> s_username session \<noteq> username)) Unauthorized)
     (seqE (refresh_session_if_needed E S session)
     (bindE (of_domain (auth_user_permissions E username)) (\<lambda>permissions.
     ret \<lparr>cd_username = username, cd_permissions = permissions\<rparr>)))))))"

definition auth_renew_session :: "env \<Rightarrow> auth_service \<Rightarrow> string \<Rightarrow> (application_error, string) action" where
  "auth_renew_session E S token =
     bindE (verify_token E (as_tokens S) token) (\<lambda>username.
     bindE (of_domain (sqlite_sessions_exists E token)) (\<lambda>live.
     seqE (ensure live session_not_found)
     (bindE (create_token E (as_tokens S) username) (\<lambda>new_token.
     bindE (token_expiry E (as_tokens S)) (\<lambda>max_expires_at.
     bindE (next_session_expires_at E S max_expires_at) (\<lambda>expires_at.
     bindE (of_domain (sqlite_sessions_update_token E token new_token expires_at max_expires_at)) (\<lambda>updated.
     seqE (ensure updated session_not_found) (ret new_token))))))))"

definition auth_logout :: "env \<Rightarrow> auth_service \<Rightarrow> string \<Rightarrow> (application_error, unit) action" where
  "auth_logout E S token =
     seqE (verify_token E (as_tokens S) token)
     (bindE (of_domain (sqlite_sessions_delete E token)) (\<lambda>deleted.
       ensure deleted session_not_found))"

definition auth_list_sessions ::
    "env \<Rightarrow> auth_service \<Rightarrow> string \<Rightarrow> (application_error, session_dto list) action" where
  "auth_list_sessions E S token =
     bindE (auth_current_user E S token) (\<lambda>current.
     mapE (map (\<lambda>s. \<lparr>sd_session_id = s_pid s, sd_session_created_at = s_created_at s,
                      sd_session_expires_at = min (s_expires_at s) (s_max_expires_at s),
                      sd_current = (s_token s = token)\<rparr>))
       (of_domain (sqlite_sessions_list_for_user E (cd_username current))))"

definition auth_revoke_session ::
    "env \<Rightarrow> auth_service \<Rightarrow> string \<Rightarrow> uuid \<Rightarrow> (application_error, unit) action" where
  "auth_revoke_session E S token session_id =
     bindE (auth_current_user E S token) (\<lambda>current.
     bindE (of_domain (sqlite_sessions_delete_for_user E (cd_username current) session_id)) (\<lambda>deleted.
     ensure deleted session_not_found))"

section \<open>Accounts\<close>

definition auth_register :: "env \<Rightarrow> auth_service \<Rightarrow> string \<Rightarrow> string \<Rightarrow> (application_error, unit) action" where
  "auth_register E S username password =
     seqE (of_result (required_username_password username password))
     (bindE (hash_password E password) (\<lambda>password_hash.
      bindE (new_uuid E) (\<lambda>verification_token.
      bindE (utc_now E) (\<lambda>sent_at.
      (let mail = welcome_mail S username verification_token
       in seqE (map_err (\<lambda>e. case e of Conflict _ \<Rightarrow> localized_conflict UserAlreadyExists | _ \<Rightarrow> e)
            (writer_register E
              \<lparr>rm_username = username, rm_password_hash = password_hash,
               rm_verification_token = verification_token, rm_verification_sent_at = sent_at,
               rm_publish_search = as_publish_search S,
               rm_mail = (if as_durable_mail S then Some mail else None)\<rparr>))
          (if as_durable_mail S then ret () else send_mail E mail))))))"

definition auth_verify_email :: "env \<Rightarrow> auth_service \<Rightarrow> string \<Rightarrow> (application_error, unit) action" where
  "auth_verify_email E S token =
     bindE (utc_now E) (\<lambda>now.
     bindE (writer_verify_email E token now (as_publish_search S)) (\<lambda>verified.
     ensure verified (NotFound ''Verification token not found'')))"

definition auth_resend_verification :: "env \<Rightarrow> auth_service \<Rightarrow> string \<Rightarrow> (application_error, unit) action" where
  "auth_resend_verification E S actor_token =
     bindE (auth_current_user E S actor_token) (\<lambda>current.
     bindE (of_domain (users_find_by_username E (cd_username current))) (\<lambda>found.
     bindE (ok_or found Unauthorized) (\<lambda>user.
     if u_email_verified_at user \<noteq> None then ret ()
     else
       bindE (new_uuid E) (\<lambda>token. bindE (utc_now E) (\<lambda>sent_at.
       (let mail = welcome_mail S (cd_username current) token
        in if as_durable_mail S
           then seqE (writer_set_verification_with_mail E (cd_username current) token sent_at mail) (ret ())
           else seqE (of_domain (users_set_email_verification E (cd_username current) token sent_at))
                  (send_mail E mail)))))))"

definition check_password ::
    "env \<Rightarrow> auth_service \<Rightarrow> string \<Rightarrow> string \<Rightarrow> (application_error, current_user_dto) action" where
  "check_password E S actor_token password =
     bindE (auth_current_user E S actor_token) (\<lambda>current.
     bindE (of_domain (users_find_by_username E (cd_username current))) (\<lambda>found.
     bindE (ok_or found Unauthorized) (\<lambda>user.
     bindE (verify_password E password (u_password_hash user)) (\<lambda>ok.
     seqE (ensure ok Unauthorized) (ret current)))))"

definition auth_delete_account ::
    "env \<Rightarrow> auth_service \<Rightarrow> string \<Rightarrow> string \<Rightarrow> (application_error, unit) action" where
  "auth_delete_account E S actor_token password =
     bindE (auth_current_user E S actor_token) (\<lambda>current.
     seqE (ensure (\<not> is_protected_admin_username (cd_username current))
             (localized_forbidden ProtectedAdminCannotBeDeleted))
     (bindE (of_domain (users_find_by_username E (cd_username current))) (\<lambda>found.
     bindE (ok_or found Unauthorized) (\<lambda>user.
     bindE (verify_password E password (u_password_hash user)) (\<lambda>ok.
     seqE (ensure ok Unauthorized)
     (bindE (of_domain (sqlite_sessions_list_for_user E (cd_username current))) (\<lambda>sessions.
     bindE (writer_delete E (cd_username current) (as_publish_search S)) (\<lambda>deleted.
     seqE (ensure deleted (localized_not_found UserNotFound))
     (for_each (\<lambda>s. of_domain (sqlite_sessions_delete_for_user E (cd_username current) (s_pid s)))
        sessions)))))))))"

definition auth_forgot_password :: "env \<Rightarrow> auth_service \<Rightarrow> string \<Rightarrow> (application_error, unit) action" where
  "auth_forgot_password E S username =
     bindE (of_result (optional_username username)) (\<lambda>given.
     if \<not> given then ret ()
     else
       bindE (of_domain (users_find_by_username E username)) (\<lambda>found.
       case found of
         None \<Rightarrow> ret ()
       | Some user \<Rightarrow>
           bindE (new_uuid E) (\<lambda>token. bindE (utc_now E) (\<lambda>sent_at.
           (let mail = reset_password_mail S (u_username user) token
            in if as_durable_mail S
               then seqE (writer_set_reset_token_with_mail E (u_username user) token sent_at mail) (ret ())
               else seqE (of_domain (users_set_reset_token E (u_username user) token sent_at))
                      (send_mail E mail))))))"

definition auth_reset_password ::
    "env \<Rightarrow> auth_service \<Rightarrow> string \<Rightarrow> string \<Rightarrow> (application_error, unit) action" where
  "auth_reset_password E S token password =
     seqE (of_result (required_password password))
     (bindE (of_domain (users_find_by_reset_token E token)) (\<lambda>found.
      bindE (ok_or found Unauthorized) (\<lambda>user.
      bindE (hash_password E password) (\<lambda>password_hash.
      of_domain (users_reset_password E (u_username user) password_hash)))))"

definition auth_change_password ::
    "env \<Rightarrow> auth_service \<Rightarrow> string \<Rightarrow> string \<Rightarrow> string \<Rightarrow> (application_error, unit) action" where
  "auth_change_password E S actor_token current_password new_password =
     seqE (of_result (required_password new_password))
     (bindE (check_password E S actor_token current_password) (\<lambda>current.
      bindE (hash_password E new_password) (\<lambda>password_hash.
      of_domain (users_reset_password E (cd_username current) password_hash))))"

definition auth_request_email_change ::
    "env \<Rightarrow> auth_service \<Rightarrow> string \<Rightarrow> string \<Rightarrow> string \<Rightarrow> (application_error, unit) action" where
  "auth_request_email_change E S actor_token new_email password =
     seqE (of_result (required_username new_email))
     (bindE (check_password E S actor_token password) (\<lambda>current.
      bindE (new_uuid E) (\<lambda>token. bindE (utc_now E) (\<lambda>sent_at.
      (let mail = ConfirmEmailChange new_email (as_app_name S)
                    (as_public_url S @ ''/auth/confirm-email-change/'' @ token)
       in bindE (writer_request_email_change E (cd_username current) new_email token sent_at
               (if as_durable_mail S then Some mail else None)) (\<lambda>updated.
          seqE (ensure updated (Conflict ''Email already exists''))
            (whenE (\<not> as_durable_mail S) (send_mail E mail))))))))"

definition auth_confirm_email_change ::
    "env \<Rightarrow> auth_service \<Rightarrow> string \<Rightarrow> (application_error, unit) action" where
  "auth_confirm_email_change E S token =
     bindE (utc_now E) (\<lambda>now.
     bindE (writer_confirm_email_change E token now (as_publish_search S)) (\<lambda>changed.
     ensure changed (NotFound ''Email change token not found'')))"

definition auth_request_magic_link :: "env \<Rightarrow> auth_service \<Rightarrow> string \<Rightarrow> (application_error, unit) action" where
  "auth_request_magic_link E S username =
     bindE (of_result (optional_username username)) (\<lambda>given.
     if \<not> given then ret ()
     else
       bindE (of_domain (users_find_by_username E username)) (\<lambda>found.
       case found of
         None \<Rightarrow> ret ()
       | Some user \<Rightarrow>
           bindE (new_uuid E) (\<lambda>token. bindE (utc_now E) (\<lambda>now.
           (let expires_at = now + minutes MAGIC_LINK_EXPIRATION_MINUTES;
                mail = magic_link_mail S (u_username user) token
            in if as_durable_mail S
               then seqE (writer_set_magic_link_with_mail E (u_username user) token expires_at mail) (ret ())
               else seqE (of_domain (users_set_magic_link E (u_username user) token expires_at))
                      (send_mail E mail))))))"

definition auth_verify_magic_link :: "env \<Rightarrow> auth_service \<Rightarrow> string \<Rightarrow> (application_error, string) action" where
  "auth_verify_magic_link E S token =
     bindE (of_domain (users_find_by_magic_link_token E token)) (\<lambda>found.
     bindE (ok_or found Unauthorized) (\<lambda>user.
     seqE (case u_magic_link_expires_at user of
             None \<Rightarrow> throw Unauthorized
           | Some expires_at \<Rightarrow> bindE (utc_now E) (\<lambda>now. ensure (\<not> expires_at < now) Unauthorized))
     (seqE (of_domain (users_clear_magic_link E (u_username user)))
       (create_session E S (u_username user)))))"

section \<open>Login\<close>

definition auth_login :: "env \<Rightarrow> auth_service \<Rightarrow> string \<Rightarrow> string \<Rightarrow> (application_error, login_result) action" where
  "auth_login E S username password =
     seqE (ensure (\<not> (username = [] \<or> password = [])) Unauthorized)
     (bindE (of_domain (users_find_by_username E username)) (\<lambda>found.
      bindE (ok_or found Unauthorized) (\<lambda>user.
      bindE (verify_password E password (u_password_hash user)) (\<lambda>ok.
      seqE (ensure ok Unauthorized)
      (bindE (of_domain (totp_credential_by_username E (u_username user))) (\<lambda>credential.
       if Option.bind credential tf_enabled_at \<noteq> None
       then
         bindE (new_uuid E) (\<lambda>totp_token. bindE (utc_now E) (\<lambda>now.
         bindE (of_domain (totp_set_login_token E (u_username user) totp_token
            (now + minutes TOTP_LOGIN_EXPIRATION_MINUTES))) (\<lambda>set.
         seqE (ensure set Unauthorized) (ret (totp_required totp_token)))))
       else mapE authenticated (create_session E S (u_username user))))))))"

fun try_backup_codes ::
    "env \<Rightarrow> two_factor_credential \<Rightarrow> string \<Rightarrow> nat \<Rightarrow> string list \<Rightarrow> (application_error, bool) action" where
  "try_backup_codes E credential code index [] = ret False"
| "try_backup_codes E credential code index (hash # hashes) =
     bindE (verify_password E code hash) (\<lambda>matches.
       if matches
       then of_domain (totp_consume_backup_code_hashes E (tf_username credential)
              (tf_backup_code_hashes credential)
              (take index (tf_backup_code_hashes credential) @
               drop (Suc index) (tf_backup_code_hashes credential)))
       else try_backup_codes E credential code (Suc index) hashes)"

definition verify_totp_or_backup_code ::
    "env \<Rightarrow> auth_service \<Rightarrow> two_factor_credential \<Rightarrow> string \<Rightarrow> (application_error, bool) action" where
  "verify_totp_or_backup_code E S credential code =
     bindE (verify_totp_code E (tf_secret credential) (tf_username credential) (as_app_name S) code) (\<lambda>ok.
       if ok then ret True
       else try_backup_codes E credential code 0 (tf_backup_code_hashes credential))"

definition auth_verify_totp_login ::
    "env \<Rightarrow> auth_service \<Rightarrow> string \<Rightarrow> string \<Rightarrow> (application_error, string) action" where
  "auth_verify_totp_login E S totp_token code =
     bindE (of_domain (totp_credential_by_login_token E totp_token)) (\<lambda>found.
     bindE (ok_or found invalid_totp_token) (\<lambda>credential.
     bindE (verify_totp_or_backup_code E S credential code) (\<lambda>ok.
     seqE (ensure ok invalid_totp_code)
     (bindE (of_domain (totp_consume_login_token E (tf_username credential) totp_token)) (\<lambda>consumed.
      seqE (ensure consumed invalid_totp_token)
        (create_session E S (tf_username credential)))))))"

section \<open>Two-factor management\<close>

definition auth_setup_totp ::
    "env \<Rightarrow> auth_service \<Rightarrow> string \<Rightarrow> (application_error, string \<times> string) action" where
  "auth_setup_totp E S actor_token =
     bindE (auth_current_user E S actor_token) (\<lambda>current.
     bindE (generate_totp_secret E) (\<lambda>secret.
     bindE (of_domain (totp_set_setup_secret E (cd_username current) secret)) (\<lambda>set.
     seqE (ensure set (localized_not_found UserNotFound))
     (bindE (of_result (case env_totp_url E secret (cd_username current) (as_app_name S) of
          Inl m \<Rightarrow> Inl (Unexpected m) | Inr url \<Rightarrow> Inr url)) (\<lambda>url.
      ret (secret, url))))))"

definition auth_enable_totp ::
    "env \<Rightarrow> auth_service \<Rightarrow> string \<Rightarrow> string \<Rightarrow> (application_error, string list) action" where
  "auth_enable_totp E S actor_token code =
     bindE (auth_current_user E S actor_token) (\<lambda>current.
     bindE (of_domain (totp_credential_by_username E (cd_username current))) (\<lambda>found.
     bindE (ok_or found (Coded KindValidation ''totp:not_configured'' ''TOTP is not configured'')) (\<lambda>credential.
     bindE (verify_totp_code E (tf_secret credential) (cd_username current) (as_app_name S) code) (\<lambda>ok.
     seqE (ensure ok invalid_totp_code)
     (bindE (generate_backup_codes E) (\<lambda>backup_codes.
      bindE (collect_each (hash_password E) backup_codes) (\<lambda>backup_hashes.
      bindE (utc_now E) (\<lambda>now.
      bindE (of_domain (totp_enable E (cd_username current) now backup_hashes)) (\<lambda>enabled.
      seqE (ensure enabled (localized_not_found UserNotFound)) (ret backup_codes))))))))))"

definition auth_disable_totp ::
    "env \<Rightarrow> auth_service \<Rightarrow> string \<Rightarrow> string \<Rightarrow> (application_error, unit) action" where
  "auth_disable_totp E S actor_token code =
     bindE (auth_current_user E S actor_token) (\<lambda>current.
     bindE (of_domain (totp_credential_by_username E (cd_username current))) (\<lambda>found.
     bindE (ok_or found invalid_totp_code) (\<lambda>credential.
     bindE (verify_totp_or_backup_code E S credential code) (\<lambda>ok.
     seqE (ensure ok invalid_totp_code)
     (bindE (of_domain (totp_disable E (cd_username current))) (\<lambda>disabled.
      ensure disabled (localized_not_found UserNotFound)))))))"

definition auth_regenerate_totp_backup_codes ::
    "env \<Rightarrow> auth_service \<Rightarrow> string \<Rightarrow> string \<Rightarrow> (application_error, string list) action" where
  "auth_regenerate_totp_backup_codes E S actor_token code =
     bindE (auth_current_user E S actor_token) (\<lambda>current.
     bindE (of_domain (totp_credential_by_username E (cd_username current))) (\<lambda>found.
     bindE (ok_or (case found of None \<Rightarrow> None
         | Some c \<Rightarrow> if tf_enabled_at c \<noteq> None then Some c else None) invalid_totp_code) (\<lambda>credential.
     bindE (verify_totp_or_backup_code E S credential code) (\<lambda>ok.
     seqE (ensure ok invalid_totp_code)
     (bindE (generate_backup_codes E) (\<lambda>backup_codes.
      bindE (collect_each (hash_password E) backup_codes) (\<lambda>hashes.
      seqE (of_domain (totp_replace_backup_code_hashes E (cd_username current) hashes))
        (ret backup_codes))))))))"

definition auth_totp_status :: "env \<Rightarrow> auth_service \<Rightarrow> string \<Rightarrow> (application_error, bool) action" where
  "auth_totp_status E S actor_token =
     bindE (auth_current_user E S actor_token) (\<lambda>current.
     bindE (of_domain (totp_credential_by_username E (cd_username current))) (\<lambda>credential.
     ret (Option.bind credential tf_enabled_at \<noteq> None)))"

section \<open>Properties\<close>

subsection \<open>Runs of the session operations\<close>

lemma grants_only_sessions: "only_sessions d d' \<Longrightarrow> grants d' n p = grants d n p"
  by (simp add: grants_def active_role_def only_sessions_tables)

lemma create_session_Inr:
  assumes ok: "schema_ok (w_db w)" and run: "create_session E S n w = (Inr tok, w')"
  obtains c e m where
    "tok = sign E (as_tokens S) (signing_input E c)" "cl_sub c = n"
    "cl_exp c = timestamp (env_now E (Suc (w_tick w)) + jw_token_lifetime (as_tokens S))"
    "m = env_now E (w_tick w + 3) + jw_token_lifetime (as_tokens S)"
    "e = min (env_now E (w_tick w + 4) + sp_sliding_ttl (as_session_policy S)) m"
    "session_inserted tok n e m (w_db w) (w_db w')"
proof -
  from run obtain w1 w2 u e m where
    tok: "create_token E (as_tokens S) n w = (Inr tok, w1)" and
    m: "m = env_now E (w_tick w1) + jw_token_lifetime (as_tokens S)" and
    e: "e = min (env_now E (Suc (w_tick w1)) + sp_sliding_ttl (as_session_policy S)) m" and
    w2: "w2 = ticked (ticked w1)" and
    ins: "sqlite_sessions_insert E tok n e m w2 = (Inr u, w')"
    by (auto simp: create_session_def next_session_expires_at_def exec_simps)
  note t = create_token_Inr [OF tok]
  have "w_db w2 = w_db w" by (simp add: w2 t)
  with sqlite_sessions.insert_law [OF _ ins] ok have "session_inserted tok n e m (w_db w) (w_db w')"
    by simp
  moreover from t(1) obtain c where "tok = sign E (as_tokens S) (signing_input E c)" "cl_sub c = n"
    "cl_exp c = timestamp (env_now E (Suc (w_tick w)) + jw_token_lifetime (as_tokens S))"
    by fastforce
  ultimately show ?thesis using that m e t(2) by (simp add: eval_nat_numeral)
qed

lemma refresh_if_needed_Inr:
  assumes ok: "schema_ok (w_db w)" and run: "refresh_session_if_needed E S s w = (Inr u, w')"
  shows "schema_ok (w_db w') \<and> only_sessions (w_db w) (w_db w') \<and>
    (\<forall>tok r'. session_at (w_db w') tok = Some r' \<longrightarrow>
       (\<exists>r. session_at (w_db w) tok = Some r \<and> sr_user_id r' = sr_user_id r \<and>
          sr_max_expires_at r' = sr_max_expires_at r \<and>
          (sr_expires_at r' = sr_expires_at r \<or> sr_expires_at r' \<le> sr_max_expires_at r')))"
proof (cases "w_db w' = w_db w")
  case True
  then show ?thesis using ok by (auto simp: only_sessions_def)
next
  case False
  from run False have "\<exists>e b. sqlite_sessions_refresh E (s_token s) e (ticked (ticked w)) = (Inr b, w')"
    by (auto simp: refresh_session_if_needed_def next_session_expires_at_def exec_simps Let_def
        split: if_splits)
  then obtain e b where ref: "sqlite_sessions_refresh E (s_token s) e (ticked (ticked w)) = (Inr b, w')"
    by blast
  show ?thesis
    using sqlite_sessions.refresh_law [OF _ ref] ok
    by (auto split: option.splits if_splits)
qed

lemma refresh_frame: "steps (db_rel (db_same (\<lambda>d. d\<lparr>db_sessions := []\<rparr>))) (refresh_session_if_needed E S s)"
  unfolding refresh_session_if_needed_def next_session_expires_at_def sqlite_sessions_refresh_def of_domain_def Let_def
  by (intro same_intros same.steps_sql) (simp add: db_same_def)

lemma current_user_Inr:
  assumes ok: "schema_ok (w_db w)" and run: "auth_current_user E S tok w = (Inr cu, w')"
  obtains s u where
    "verify_token E (as_tokens S) tok w = (Inr (cd_username cu), ticked w)"
    "session_at (w_db w) tok = Some s" "live (env_now E (Suc (w_tick w))) s"
    "session_owner (w_db w) s = Some u" "ur_username u = cd_username cu" "ur_deleted_at u = None"
    "set (cd_permissions cu) = {p \<in> set all_names. grants (w_db w) (cd_username cu) p}"
    "schema_ok (w_db w')" "only_sessions (w_db w) (w_db w')"
proof -
  from run obtain n w1 se w2 w3 w4 ps where
    ver: "verify_token E (as_tokens S) tok w = (Inr n, w1)" and
    find: "sqlite_sessions_find_by_token E tok w1 = (Inr (Some se), w2)" and
    n: "s_username se = n" and w3: "w3 = ticked w2" and
    ref: "refresh_session_if_needed E S se w3 = (Inr (), w4)" and
    perms: "auth_user_permissions E n w4 = (Inr ps, w')" and
    cu: "cu = \<lparr>cd_username = n, cd_permissions = ps\<rparr>"
    by (clarsimp simp: auth_current_user_def exec_simps users_find_by_username_def)
  from ver have w1: "w1 = ticked w" by (rule verify_token_Inr)
  note view = sqlite_sessions.find_law [OF _ find, unfolded w1, simplified, OF ok]
  from view obtain s u where s: "session_at (w_db w) tok = Some s" "session_owner (w_db w) s = Some u"
    "live (env_now E (Suc (w_tick w))) s" "ur_deleted_at u = None" "se = to_session s u"
    by (auto simp: session_view_def split: option.splits if_splits)
  have ok3: "schema_ok (w_db w3)" using w3 view ok by simp
  note r = refresh_if_needed_Inr [OF ok3 ref]
  have only: "only_sessions (w_db w) (w_db w4)" "schema_ok (w_db w4)" using r w3 view by simp_all
  note p = user_permissions_Inr [OF perms]
  show ?thesis
    by (rule that [OF _ s(1,3,2)])
      (use ver w1 s n p only grants_only_sessions [OF only(1)] in \<open>auto simp: cu to_session_def\<close>)
qed

subsection \<open>A session lives from login to logout\<close>

lemma refresh_if_needed_total:
  assumes "schema_ok (w_db w)" "\<And>k. env_fault E k = None"
  shows "\<exists>w'. refresh_session_if_needed E S s w = (Inr (), w')"
proof -
  let ?e = "min (env_now E (Suc (w_tick w)) + sp_sliding_ttl (as_session_policy S)) (s_max_expires_at s)"
  obtain b w' where "sqlite_sessions_refresh E (s_token s) ?e (ticked (ticked w)) = (Inr b, w')"
    using sessions_refresh_total [of "ticked (ticked w)" E "s_token s" ?e] assms by auto
  then show ?thesis
    by (auto simp: refresh_session_if_needed_def next_session_expires_at_def Let_def of_domain_def
        exec_defs utc_now_def)
qed

lemma current_user_accepts:
  assumes ok: "schema_ok (w_db w)" and faults: "\<And>k. env_fault E k = None"
    and ver: "verify_token E (as_tokens S) tok w = (Inr (s_username se), ticked w)"
    and view: "session_view (env_now E (Suc (w_tick w))) (w_db w) tok = Some se"
  shows "\<exists>ps w'. auth_current_user E S tok w = (Inr \<lparr>cd_username = s_username se, cd_permissions = ps\<rparr>, w')"
proof -
  from view obtain s v where sv: "session_owner (w_db w) s = Some v" "ur_deleted_at v = None" "se = to_session s v"
    by (auto simp: session_view_def split: option.splits if_splits)
  then have v: "v \<in> set (db_users (w_db w))" "ur_username v = s_username se"
    by (auto simp: session_owner_mem [OF ok] to_session_def)
  have find: "sqlite_sessions_find_by_token E tok (ticked w) = (Inr (Some se), ticked (ticked (ticked w)))"
    using find_by_token_total [of "ticked w" E tok] ok faults view by simp
  have "user_at (w_db w) (s_username se) = Some v" using v by (simp add: user_at_mem [OF ok])
  then have act: "find (active (s_username se)) (db_users (w_db w)) = Some v"
    using find_active [OF ok, of "s_username se" "\<lambda>u. ur_deleted_at u = None"] sv(2)
    by (simp add: active_def [abs_def])
  let ?w4 = "ticked (ticked (ticked (ticked w)))"
  obtain w5 where ref: "refresh_session_if_needed E S se ?w4 = (Inr (), w5)"
    using refresh_if_needed_total [of ?w4 E S] ok faults by auto
  show ?thesis
    using ver find act ref faults
    by (simp add: auth_current_user_def of_domain_def exec_defs users_find_by_username_def query_def
        auth_user_permissions_def)
qed


definition sample_auth :: auth_service where
  "sample_auth =
     \<lparr>as_tokens = sample_tokens, as_app_name = ''app'', as_public_url = ''u'',
      as_session_policy = \<lparr>sp_sliding_ttl = seconds 1, sp_max_lifetime = seconds 2,
        sp_refresh_threshold_percent = 50\<rparr>,
      as_publish_search = True, as_durable_mail = True\<rparr>"


text \<open>C10. Whoever is recognised as the current user holds a token with a valid signature over its
  claims, whose session is stored and live and belongs to an active account of that name; the
  permissions reported are those the database grants.\<close>

theorem current_user_sound:
  assumes "schema_ok (w_db w)" "auth_current_user E S tok w = (Inr cu, w')"
  shows "(\<exists>payload sig. tok = JWT_HEADER @ ''.'' @ payload @ ''.'' @ sig \<and>
      env_b64_decode E sig = Some (env_hmac E (jw_secret (as_tokens S)) (JWT_HEADER @ ''.'' @ payload))) \<and>
    (\<exists>s u. session_at (w_db w) tok = Some s \<and> live (env_now E (Suc (w_tick w))) s \<and>
      session_owner (w_db w) s = Some u \<and> active (cd_username cu) u) \<and>
    set (cd_permissions cu) = {p \<in> set all_names. grants (w_db w) (cd_username cu) p}"
proof -
  from assms obtain s u where ver: "verify_token E (as_tokens S) tok w = (Inr (cd_username cu), ticked w)"
    and rest: "session_at (w_db w) tok = Some s" "live (env_now E (Suc (w_tick w))) s"
    "session_owner (w_db w) s = Some u" "ur_username u = cd_username cu" "ur_deleted_at u = None"
    "set (cd_permissions cu) = {p \<in> set all_names. grants (w_db w) (cd_username cu) p}"
    by (rule current_user_Inr)
  from ver obtain payload sig where "tok = JWT_HEADER @ ''.'' @ payload @ ''.'' @ sig"
    "env_b64_decode E sig = Some (env_hmac E (jw_secret (as_tokens S)) (JWT_HEADER @ ''.'' @ payload))"
    by (rule verify_token_Inr)
  with rest show ?thesis unfolding active_def by blast
qed

lemma logout_Inr:
  assumes "schema_ok (w_db w)" "auth_logout E S tok w = (Inr (), w')"
  shows "schema_ok (w_db w')" "session_at (w_db w') tok = None" "session_at (w_db w) tok \<noteq> None"
proof -
  from assms(2) obtain n w1 w2 where ver: "verify_token E (as_tokens S) tok w = (Inr n, w1)"
    and del: "sqlite_sessions_delete E tok w1 = (Inr True, w')"
    by (auto simp: auth_logout_def exec_simps)
  have "w_db w1 = w_db w" using ver by (rule verify_token_db)
  with sqlite_sessions.delete_law [OF _ del] assms(1)
  show "schema_ok (w_db w')" "session_at (w_db w') tok = None" "session_at (w_db w) tok \<noteq> None"
    by simp_all
qed

lemma current_user_without_session:
  assumes "schema_ok (w_db w)" "session_at (w_db w) tok = None"
  shows "isl (fst (auth_current_user E S tok w))" "isl (fst (provider_current_user E s tok w))"
proof -
  show "isl (fst (auth_current_user E S tok w))"
  proof (cases "auth_current_user E S tok w")
    case (Pair r w')
    then show ?thesis
      using assms current_user_Inr [OF assms(1), of E S tok] by (cases r) auto
  qed
  show "isl (fst (provider_current_user E s tok w))"
  proof (cases "provider_current_user E s tok w")
    case (Pair r w')
    have False if r: "r = Inr u" for u
    proof -
      from Pair r obtain n w1 w2 where ver: "verify_token E s tok w = (Inr n, w1)"
        and ex: "sqlite_sessions_exists E tok w1 = (Inr True, w2)"
        by (auto simp: provider_current_user_def exec_simps)
      show False
        using sqlite_sessions.exists_law [OF ex] verify_token_db [OF ver] assms by (auto simp: live_at_def)
    qed
    with Pair show ?thesis by (cases r) auto
  qed
qed

text \<open>C14. Logging out ends the session: the token existed, and from then on neither the
  authentication service nor the token provider of the authorization layer accepts it.\<close>

theorem logout_revokes:
  assumes "schema_ok (w_db w)" "auth_logout E S tok w = (Inr (), w1)" "w_db w2 = w_db w1"
  shows "session_at (w_db w) tok \<noteq> None \<and> isl (fst (auth_current_user E S tok w2)) \<and>
    isl (fst (provider_current_user E (as_tokens S) tok w2))"
  using logout_Inr [OF assms(1,2)] current_user_without_session [of w2 tok] assms(3) by simp

text \<open>Renewing moves the session of a live token to the new token: the old token is gone, the row
  keeps its identity, owner and creation time, and the new deadline respects the new maximum.\<close>

theorem renew_moves_session:
  assumes ok: "schema_ok (w_db w)" and run: "auth_renew_session E S tok w = (Inr new, w')" and "new \<noteq> tok"
  shows "\<exists>s e m. session_at (w_db w) tok = Some s \<and> session_at (w_db w') tok = None \<and>
    session_at (w_db w') new = Some (s\<lparr>sr_token := new, sr_expires_at := e, sr_max_expires_at := m\<rparr>) \<and> e \<le> m \<and>
    (\<forall>t. t \<noteq> tok \<and> t \<noteq> new \<longrightarrow> session_at (w_db w') t = session_at (w_db w) t)"
proof -
  from run obtain n w1 w2 w3 e m w4 where ver: "verify_token E (as_tokens S) tok w = (Inr n, w1)"
    and ex: "sqlite_sessions_exists E tok w1 = (Inr True, w2)"
    and tok: "create_token E (as_tokens S) n w2 = (Inr new, w3)"
    and m: "m = env_now E (w_tick w3) + jw_token_lifetime (as_tokens S)"
    and e: "e = min (env_now E (Suc (w_tick w3)) + sp_sliding_ttl (as_session_policy S)) m"
    and w4: "w4 = ticked (ticked w3)"
    and upd: "sqlite_sessions_update_token E tok new e m w4 = (Inr True, w')"
    by (auto simp: auth_renew_session_def next_session_expires_at_def exec_simps)
  have "w_db w1 = w_db w" using ver by (rule verify_token_db)
  with ex ok have "w_db w2 = w_db w" by (auto dest: sqlite_sessions.exists_law)
  with tok have db: "w_db w4 = w_db w" by (simp add: w4 create_token_db)
  with ok have ok4: "schema_ok (w_db w4)" by simp
  note law = sqlite_sessions.update_token_law [OF ok4 upd]
  then obtain s where "session_at (w_db w) tok = Some s" by (auto simp: live_at_def db)
  moreover have le: "e \<le> m" by (simp add: e)
  ultimately show ?thesis using law \<open>new \<noteq> tok\<close>
    by (intro exI [of _ s] exI [of _ e] exI [of _ m]) (auto simp: db)
qed
lemma sample_auth_tokens [simp]: "as_tokens sample_auth = sample_tokens"
  by (simp add: sample_auth_def)

lemma sample_current_user:
  "\<exists>ps w'. auth_current_user sample_env sample_auth (sample_token ''ann'') token_world =
     (Inr \<lparr>cd_username = ''ann'', cd_permissions = ps\<rparr>, w')"
  using current_user_accepts [of token_world sample_env sample_auth "sample_token ''ann''"
      "to_session (sample_session (sample_token ''ann'') 1) (sample_user 1 ''ann'')"]
    token_db_ok token_view [of 1]
  by (simp add: to_session_def sample_user_def new_user_row_def)

theorem current_user_sound_witness:
  "\<exists>cu w'. auth_current_user sample_env sample_auth (sample_token ''ann'') token_world = (Inr cu, w') \<and>
     set (cd_permissions cu) = {p \<in> set all_names. grants (w_db token_world) ''ann'' p}"
proof -
  obtain ps w' where run: "auth_current_user sample_env sample_auth (sample_token ''ann'') token_world =
      (Inr \<lparr>cd_username = ''ann'', cd_permissions = ps\<rparr>, w')" using sample_current_user by blast
  with current_user_sound [OF token_db_ok run] show ?thesis by auto
qed

theorem logout_revokes_witness:
  "let (r, w1) = auth_logout sample_env sample_auth (sample_token ''ann'') token_world
   in r = Inr () \<and> isl (fst (auth_current_user sample_env sample_auth (sample_token ''ann'') w1))"
proof -
  let ?run = "auth_logout sample_env sample_auth (sample_token ''ann'') token_world"
  have "fst ?run = Inr ()"
    using sessions_delete_total [of "ticked token_world" sample_env "sample_token ''ann''"] token_db_ok
    by (auto simp: auth_logout_def exec_defs of_domain_def token_session split: prod.splits)
  then have run: "?run = (Inr (), snd ?run)" by (rule run_result)
  from logout_revokes [OF token_db_ok run refl] run show ?thesis by (auto simp: Let_def split: prod.split)
qed
theorem renew_moves_session_witness:
  "\<exists>new w'. auth_renew_session sample_env sample_auth (sample_token ''ann'') token_world = (Inr new, w') \<and>
     session_at (w_db w') (sample_token ''ann'') = None \<and> session_at (w_db w') new \<noteq> None"
proof -
  let ?old = "sample_token ''ann''" and ?w2 = "ticked (ticked (ticked token_world))"
  obtain new w3 where tok: "create_token sample_env sample_tokens ''ann'' ?w2 = (Inr new, w3)"
    by (simp add: create_token_def token_expiry_def exec_defs utc_now_def new_uuid_def)
  note new = create_token_Inr [OF tok]
  have differs: "new \<noteq> ?old"
    using new(1) signed_inj [OF sample_jwt_codec, of sample_tokens]
    by (auto simp: sample_token_def enc_nat_def)
  let ?m = "env_now sample_env (w_tick w3) + jw_token_lifetime sample_tokens"
  let ?e = "min (env_now sample_env (Suc (w_tick w3)) + sp_sliding_ttl (as_session_policy sample_auth)) ?m"
  have "fst (sqlite_sessions_update_token sample_env ?old new ?e ?m (ticked (ticked w3))) = Inr True"
    using sessions_update_token_total [of "ticked (ticked w3)" sample_env new ?old ?e ?m] token_db_ok differs
    by (simp add: new(2) live_at_def token_session)
      (simp add: session_at_def token_db_def sample_session_def live_def seconds_def)
  moreover have "\<exists>s \<in> set (db_sessions token_db). sr_token s = ?old \<and> live 1 s"
    by (simp add: token_db_def sample_session_def live_def seconds_def)
  ultimately have "fst (auth_renew_session sample_env sample_auth ?old token_world) = Inr new"
    using tok by (auto simp: auth_renew_session_def next_session_expires_at_def of_domain_def exec_defs utc_now_def
        sqlite_sessions_exists_def query_def token_expiry_def split: prod.splits)
  then have run: "auth_renew_session sample_env sample_auth ?old token_world =
      (Inr new, snd (auth_renew_session sample_env sample_auth ?old token_world))" by (rule run_result)
  from renew_moves_session [OF token_db_ok run differs] run show ?thesis by auto
qed

subsection \<open>Login and the second factor\<close>

lemma find_by_username_Inr:
  assumes "schema_ok (w_db w)" "users_find_by_username E n w = (Inr (Some x), w')"
  obtains u where "user_at (w_db w) n = Some u" "active n u" "x = map_user u" "w' = ticked w"
proof -
  from assms(2) obtain u where u: "find (active n) (db_users (w_db w)) = Some u" "x = map_user u" "w' = ticked w"
    by (cases "find (active n) (db_users (w_db w))") (auto simp: users_find_by_username_def exec_simps)
  then have "u \<in> set (db_users (w_db w))" "active n u" by (auto dest: find_Some_iff2)
  moreover from this have "user_at (w_db w) n = Some u"
    by (simp add: user_at_mem [OF assms(1)] active_def)
  ultimately show ?thesis using that u by blast
qed

lemma credential_by_username_Inr:
  assumes "schema_ok (w_db w)" "totp_credential_by_username E n w = (Inr c, w')"
    and "user_at (w_db w) n = Some u" "active n u"
  shows "c = map_credential u" "w' = ticked w"
proof -
  have "find (\<lambda>v. active n v \<and> ur_totp_secret v \<noteq> None) (db_users (w_db w)) =
      (if ur_totp_secret u \<noteq> None then Some u else None)"
    using find_active [OF assms(1), of n "\<lambda>v. ur_deleted_at v = None \<and> ur_totp_secret v \<noteq> None"] assms(3,4)
    by (simp add: active_def conj_assoc)
  with assms(2) show "c = map_credential u" "w' = ticked w"
    by (auto simp: totp_credential_by_username_def exec_simps map_credential_def split: if_splits option.splits)
qed

definition totp_active :: "user_row \<Rightarrow> bool" where
  "totp_active u \<longleftrightarrow> ur_totp_secret u \<noteq> None \<and> ur_totp_enabled_at u \<noteq> None"

lemma credential_enabled: "Option.bind (map_credential u) tf_enabled_at \<noteq> None \<longleftrightarrow> totp_active u"
  by (auto simp: map_credential_def totp_active_def split: option.splits)

lemma set_login_token_Inr:
  assumes "schema_ok (w_db w)" "totp_set_login_token E n t e w = (Inr True, w')"
  shows "\<exists>u. user_at (w_db w) n = Some u \<and> user_at (w_db w') n =
     Some (u\<lparr>ur_totp_login_token := Some t, ur_totp_login_expires_at := Some e\<rparr>)"
    "db_sessions (w_db w') = db_sessions (w_db w)"
proof -
  let ?Q = "\<lambda>u. ur_deleted_at u = None \<and> ur_totp_secret u \<noteq> None \<and> ur_totp_enabled_at u \<noteq> None"
  let ?g = "\<lambda>u. u\<lparr>ur_totp_login_token := Some t, ur_totp_login_expires_at := Some e\<rparr>"
  have eff: "True = (\<exists>u. user_at (w_db w) n = Some u \<and> ?Q u) \<and>
    (\<forall>m. user_at (w_db w') m = (if True \<and> m = n then map_option ?g (user_at (w_db w) m) else user_at (w_db w) m)) \<and>
    schema_ok (w_db w')"
    by (rule user_update_effect)
      (use assms in \<open>auto simp: totp_set_login_token_def exec_simps active_def conj_assoc\<close>)
  then show "\<exists>u. user_at (w_db w) n = Some u \<and> user_at (w_db w') n = Some (?g u)" by auto
  show "db_sessions (w_db w') = db_sessions (w_db w)"
    using assms by (auto simp: totp_set_login_token_def exec_simps)
qed

text \<open>C13. A login that succeeds has checked the password of an active account. If two-factor
  authentication is on it yields no session but a login token stored with the account; otherwise it
  inserts a session for the account under the returned token, capped by its maximum lifetime.\<close>

theorem login_second_factor:
  assumes ok: "schema_ok (w_db w)" and run: "auth_login E S n p w = (Inr r, w')"
  shows "\<exists>u. user_at (w_db w) n = Some u \<and> active n u \<and>
    env_verify_password E p (ur_password_hash u) = Inr True \<and>
    (if totp_active u
     then db_sessions (w_db w') = db_sessions (w_db w) \<and>
       (\<exists>t e. r = totp_required t \<and> user_at (w_db w') n =
          Some (u\<lparr>ur_totp_login_token := Some t, ur_totp_login_expires_at := Some e\<rparr>))
     else \<exists>tok e m. r = authenticated tok \<and> session_inserted tok n e m (w_db w) (w_db w') \<and> e \<le> m)"
proof -
  from run obtain x w1 c w3 where
    find: "users_find_by_username E n w = (Inr (Some x), w1)" and
    pw: "env_verify_password E p (u_password_hash x) = Inr True" and
    cred: "totp_credential_by_username E (u_username x) w1 = (Inr c, w3)" and
    rest: "(if Option.bind c tf_enabled_at \<noteq> None
       then
         bindE (new_uuid E) (\<lambda>totp_token. bindE (utc_now E) (\<lambda>now.
         bindE (of_domain (totp_set_login_token E (u_username x) totp_token
            (now + minutes TOTP_LOGIN_EXPIRATION_MINUTES))) (\<lambda>set.
         seqE (ensure set Unauthorized) (ret (totp_required totp_token)))))
       else mapE authenticated (create_session E S (u_username x))) w3 = (Inr r, w')"
    by (auto simp: auth_login_def exec_simps)
  from ok find obtain u where u: "user_at (w_db w) n = Some u" "active n u" "x = map_user u" "w1 = ticked w"
    by (rule find_by_username_Inr)
  then have name: "u_username x = n" and hash: "u_password_hash x = ur_password_hash u"
    by (simp_all add: map_user_def active_def)
  have c: "c = map_credential u" "w3 = ticked (ticked w)"
    using credential_by_username_Inr [of w1 E n c w3 u] ok cred u name by simp_all
  show ?thesis
  proof (cases "totp_active u")
    case True
    with rest c(1) credential_enabled obtain t e w4 where r: "r = totp_required t"
      and set: "totp_set_login_token E n t e w4 = (Inr True, w')" and w4: "w4 = ticked (ticked w3)"
      by (auto simp: exec_simps name)
    have "schema_ok (w_db w4)" using ok by (simp add: w4 c(2))
    note st = set_login_token_Inr [OF this set]
    have "w_db w4 = w_db w" by (simp add: w4 c(2))
    with st u True r pw hash show ?thesis by auto
  next
    case False
    with rest c(1) credential_enabled obtain tok where r: "r = authenticated tok"
      and cs: "create_session E S n w3 = (Inr tok, w')"
      by (auto simp: exec_simps name)
    have "schema_ok (w_db w3)" using ok by (simp add: c(2))
    from create_session_Inr [OF this cs] obtain e m where
      "session_inserted tok n e m (w_db w3) (w_db w')" "e \<le> m" by (metis min.cobounded2)
    with False u r pw hash show ?thesis by (auto simp: c(2))
  qed
qed
definition totp_user :: user_row where
  "totp_user = (sample_user 1 ''ann'')\<lparr>ur_totp_secret := Some ''s'', ur_totp_enabled_at := Some 0,
     ur_totp_backup_code_hashes := [''#c1'', ''#c2''], ur_totp_login_token := Some ''lt'',
     ur_totp_login_expires_at := Some 1000\<rparr>"

definition totp_world :: world where
  "totp_world = world_of (empty_db\<lparr>db_users := [totp_user], db_users_seq := 1\<rparr>)"

lemma totp_world_ok: "schema_ok (w_db totp_world)"
  by code_simp

theorem login_second_factor_witness:
  "let (r, w') = auth_login sample_env sample_auth ''ann'' ''ann'' totp_world
   in (\<exists>t. r = Inr (totp_required t)) \<and> db_sessions (w_db w') = db_sessions (w_db totp_world)"
proof -
  let ?run = "auth_login sample_env sample_auth ''ann'' ''ann'' totp_world"
  have run: "?run = (Inr (totp_required (enc_nat 2)), snd ?run)"
    by (rule run_result) code_simp
  have "user_at (w_db totp_world) ''ann'' = Some totp_user" "totp_active totp_user"
    by (simp_all add: user_at_def totp_world_def totp_user_def sample_user_def new_user_row_def totp_active_def)
  with login_second_factor [OF totp_world_ok run]
  have "db_sessions (w_db (snd ?run)) = db_sessions (w_db totp_world)" by simp
  then show ?thesis by (subst run) auto
qed

lemma try_codes_Inr:
  assumes "schema_ok (w_db w)" "try_backup_codes E c code i hs w = (Inr True, w')"
    and "drop i (tf_backup_code_hashes c) = hs"
  shows "\<exists>j u. i \<le> j \<and> j < length (tf_backup_code_hashes c) \<and>
    env_verify_password E code (tf_backup_code_hashes c ! j) = Inr True \<and>
    user_at (w_db w) (tf_username c) = Some u \<and> active (tf_username c) u \<and>
    ur_totp_backup_code_hashes u = tf_backup_code_hashes c \<and>
    user_at (w_db w') (tf_username c) =
      Some (u\<lparr>ur_totp_backup_code_hashes := take j (tf_backup_code_hashes c) @ drop (Suc j) (tf_backup_code_hashes c)\<rparr>)"
  using assms(2,3)
proof (induction hs arbitrary: i)
  case Nil
  then show ?case by simp
next
  case (Cons h hs)
  let ?hs = "tf_backup_code_hashes c"
  have i: "i < length ?hs" "?hs ! i = h" "drop (Suc i) ?hs = hs"
    using Cons.prems(2) by (metis drop_eq_Nil2 linorder_not_less list.discI, metis nth_via_drop, metis drop_Suc list.sel(3) tl_drop)
  from Cons.prems(1) obtain b where b: "env_verify_password E code h = Inr b"
    by (auto simp: exec_simps)
  show ?case
  proof (cases b)
    case True
    with Cons.prems(1) b have run: "totp_consume_backup_code_hashes E (tf_username c) ?hs
        (take i ?hs @ drop (Suc i) ?hs) w = (Inr True, w')"
      by (auto simp: exec_simps)
    from sqlite_totp.consume_codes_law [OF assms(1) run] obtain u where
      "user_at (w_db w) (tf_username c) = Some u" "active (tf_username c) u"
      "ur_totp_backup_code_hashes u = ?hs"
      "user_at (w_db w') (tf_username c) =
        Some (u\<lparr>ur_totp_backup_code_hashes := take i ?hs @ drop (Suc i) ?hs\<rparr>)" by auto
    with i b True show ?thesis by (intro exI [of _ i] exI [of _ u]) simp
  next
    case False
    with Cons.prems(1) b have "try_backup_codes E c code (Suc i) hs w = (Inr True, w')"
      by (auto simp: exec_simps)
    from Cons.IH [OF this i(3)] show ?thesis by (meson Suc_leD)
  qed
qed

lemma try_codes_stale:
  assumes "schema_ok (w_db w)" "try_backup_codes E c code i hs w = (Inr b, w')"
    and "user_at (w_db w) (tf_username c) = Some u" "ur_totp_backup_code_hashes u \<noteq> tf_backup_code_hashes c"
  shows "\<not> b"
  using assms(2)
proof (induction hs arbitrary: i)
  case (Cons h hs)
  from Cons.prems obtain m where m: "env_verify_password E code h = Inr m" by (auto simp: exec_simps)
  show ?case
  proof (cases m)
    case True
    let ?hs = "tf_backup_code_hashes c"
    from Cons.prems m True have "totp_consume_backup_code_hashes E (tf_username c) ?hs
        (take i ?hs @ drop (Suc i) ?hs) w = (Inr b, w')" by (auto simp: exec_simps)
    from sqlite_totp.consume_codes_law [OF assms(1) this] assms(3,4) show ?thesis by auto
  next
    case False
    with Cons.prems m have "try_backup_codes E c code (Suc i) hs w = (Inr b, w')"
      by (auto simp: exec_simps)
    then show ?thesis by (rule Cons.IH)
  qed
qed simp

text \<open>A backup code is spent by its use: the code matches a stored hash, exactly that hash is
  removed from the account, and a concurrent request that still holds the old set of hashes cannot
  use any code of it any more.\<close>

theorem backup_code_spent:
  assumes ok: "schema_ok (w_db w)" and run: "verify_totp_or_backup_code E S c code w = (Inr True, w')"
    and not_totp: "\<And>t. env_totp_check E t (tf_secret c) (tf_username c) (as_app_name S) code = Inr False"
    and later: "schema_ok (w_db w2)" "user_at (w_db w2) (tf_username c) = user_at (w_db w') (tf_username c)"
    and again: "verify_totp_or_backup_code E S c code' w2 = (Inr b, w3)"
    and not_totp': "\<And>t. env_totp_check E t (tf_secret c) (tf_username c) (as_app_name S) code' = Inr False"
  shows "\<not> b \<and> (\<exists>j u. j < length (tf_backup_code_hashes c) \<and>
    env_verify_password E code (tf_backup_code_hashes c ! j) = Inr True \<and>
    user_at (w_db w) (tf_username c) = Some u \<and>
    user_at (w_db w') (tf_username c) =
      Some (u\<lparr>ur_totp_backup_code_hashes :=
        take j (tf_backup_code_hashes c) @ drop (Suc j) (tf_backup_code_hashes c)\<rparr>))"
proof -
  let ?hs = "tf_backup_code_hashes c"
  have codes: "try_backup_codes E c code 0 ?hs (ticked w) = (Inr True, w')"
    using run not_totp by (auto simp: verify_totp_or_backup_code_def verify_totp_code_def exec_simps)
  have codes': "try_backup_codes E c code' 0 ?hs (ticked w2) = (Inr b, w3)"
    using again not_totp' by (auto simp: verify_totp_or_backup_code_def verify_totp_code_def exec_simps)
  from try_codes_Inr [OF _ codes] ok obtain j u where ju: "j < length ?hs"
    "env_verify_password E code (?hs ! j) = Inr True" "user_at (w_db w) (tf_username c) = Some u"
    and after: "user_at (w_db w') (tf_username c) =
      Some (u\<lparr>ur_totp_backup_code_hashes := take j ?hs @ drop (Suc j) ?hs\<rparr>)" by auto
  have "length (take j ?hs @ drop (Suc j) ?hs) < length ?hs" using ju(1) by simp
  then have "take j ?hs @ drop (Suc j) ?hs \<noteq> ?hs" by (metis less_irrefl)
  with try_codes_stale [OF _ codes'] later after have "\<not> b" by simp
  with ju after show ?thesis by blast
qed

theorem backup_code_spent_witness:
  "let c = the (map_credential totp_user);
       w' = snd (verify_totp_or_backup_code sample_env sample_auth c ''c2'' totp_world)
   in fst (verify_totp_or_backup_code sample_env sample_auth c ''c1'' w') = Inr False \<and>
      map_option ur_totp_backup_code_hashes (user_at (w_db w') ''ann'') = Some [''#c1'']"
proof -
  let ?c = "the (map_credential totp_user)"
  let ?run = "verify_totp_or_backup_code sample_env sample_auth ?c ''c2'' totp_world"
  let ?again = "verify_totp_or_backup_code sample_env sample_auth ?c ''c1'' (snd ?run)"
  have run: "?run = (Inr True, snd ?run)" by (rule run_result) code_simp
  have ok': "schema_ok (w_db (snd ?run))" by code_simp
  have "\<not> isl (fst ?again)" by code_simp
  then obtain b where again: "?again = (Inr b, snd ?again)" using run_ok by blast
  have "\<not> b"
    using backup_code_spent [OF totp_world_ok run _ ok' refl again] by (simp add: sample_env_def)
  moreover have "map_option ur_totp_backup_code_hashes (user_at (w_db (snd ?run)) ''ann'') = Some [''#c1'']"
    by code_simp
  moreover have "fst ?again = Inr b" by (subst again) simp
  ultimately show ?thesis by simp
qed
text \<open>The rows with their backup codes masked: what checking a second factor leaves alone.\<close>

definition masked_users :: "database \<Rightarrow> user_row list" where
  "masked_users d = map (\<lambda>u. u\<lparr>ur_totp_backup_code_hashes := []\<rparr>) (db_users d)"

lemma consume_codes_masked:
  "steps (db_rel (db_same masked_users)) (totp_consume_backup_code_hashes E n old new)"
  unfolding totp_consume_backup_code_hashes_def update_users_def
  by (intro same_intros same.steps_sql) (simp add: db_same_def masked_users_def update_where_def)

lemma try_codes_masked: "steps (db_rel (db_same masked_users)) (try_backup_codes E c code i hs)"
proof (induction hs arbitrary: i)
  case Nil
  show ?case unfolding try_backup_codes.simps by (rule same.steps_ret)
next
  case (Cons h hs)
  show ?case unfolding try_backup_codes.simps verify_password_def of_domain_def
    by (intro same_intros consume_codes_masked Cons.IH)
qed

lemma second_factor_masked:
  "steps (db_rel (db_same masked_users)) (verify_totp_or_backup_code E S c code)"
  unfolding verify_totp_or_backup_code_def verify_totp_code_def
  by (intro same_intros try_codes_masked)

lemma consume_codes_schema: "steps (db_rel (db_inv schema_ok)) (totp_consume_backup_code_hashes E n old new)"
  unfolding totp_consume_backup_code_hashes_def by (intro schema_intros)

lemma second_factor_schema:
  "steps (db_rel (db_inv schema_ok)) (verify_totp_or_backup_code E S c code)"
proof -
  have "steps (db_rel (db_inv schema_ok)) (try_backup_codes E c code i hs)" for i hs
    by (induction hs arbitrary: i)
      (auto simp: verify_password_def of_domain_def intro!: schema_intros consume_codes_schema)
  then show ?thesis
    unfolding verify_totp_or_backup_code_def verify_totp_code_def by (intro schema_intros)
qed

lemma masked_users_D:
  assumes "masked_users d' = masked_users d" "u' \<in> set (db_users d')"
  shows "\<exists>u \<in> set (db_users d). ur_totp_login_token u' = ur_totp_login_token u \<and>
    ur_username u' = ur_username u"
proof -
  have "u'\<lparr>ur_totp_backup_code_hashes := []\<rparr> \<in> set (masked_users d)"
    using assms by (metis (mono_tags, lifting) image_eqI image_set masked_users_def)
  then obtain u where "u \<in> set (db_users d)"
    "u'\<lparr>ur_totp_backup_code_hashes := []\<rparr> = u\<lparr>ur_totp_backup_code_hashes := []\<rparr>"
    by (auto simp: masked_users_def)
  then show ?thesis by (metis user_row.select_convs(3,17) user_row.surjective user_row.update_convs(16))
qed

lemma by_login_token_Inr:
  assumes "totp_credential_by_login_token E t w = (Inr (Some c), w')"
  obtains u where "u \<in> set (db_users (w_db w))" "totp_active u"
    "login_token_valid t (env_now E (w_tick w)) u" "tf_username c = ur_username u" "w_db w' = w_db w"
proof -
  let ?P = "\<lambda>u. login_token_valid t (env_now E (w_tick w)) u \<and> ur_totp_secret u \<noteq> None \<and> ur_totp_enabled_at u \<noteq> None"
  have c: "Option.bind (find ?P (db_users (w_db w))) map_credential = Some c" and w': "w' = ticked (ticked w)"
    using assms by (auto simp: totp_credential_by_login_token_def exec_simps)
  then obtain u where "find ?P (db_users (w_db w)) = Some u" "map_credential u = Some c"
    by (auto simp: bind_eq_Some_conv)
  with that w' show ?thesis
    by (auto simp: map_credential_def totp_active_def split: option.splits dest!: find_Some_iff2)
qed

text \<open>C12. A two-factor login needs the token of a pending login of an account with two-factor
  authentication on, and the token opens one session only: if no two accounts share it, every further attempt with
  it fails, whatever the code, as long as the users have not changed.\<close>

theorem totp_login_once:
  assumes ok: "schema_ok (w_db w)" and run: "auth_verify_totp_login E S t code w = (Inr tok, w1)"
    and unique: "\<And>u v. u \<in> set (db_users (w_db w)) \<Longrightarrow> v \<in> set (db_users (w_db w)) \<Longrightarrow>
      ur_totp_login_token u = Some t \<Longrightarrow> ur_totp_login_token v = Some t \<Longrightarrow> u = v"
    and later: "db_users (w_db w2) = db_users (w_db w1)"
  shows "(\<exists>u \<in> set (db_users (w_db w)). totp_active u \<and> login_token_valid t (env_now E (w_tick w)) u) \<and>
    isl (fst (auth_verify_totp_login E S t code' w2))"
proof -
  from run obtain c wa wb wc where
    cred: "totp_credential_by_login_token E t w = (Inr (Some c), wa)" and
    factor: "verify_totp_or_backup_code E S c code wa = (Inr True, wb)" and
    cons: "totp_consume_login_token E (tf_username c) t wb = (Inr True, wc)" and
    sess: "create_session E S (tf_username c) wc = (Inr tok, w1)"
    by (auto simp: auth_verify_totp_login_def exec_simps)
  from cred obtain u where u: "u \<in> set (db_users (w_db w))" "totp_active u"
    "login_token_valid t (env_now E (w_tick w)) u" "tf_username c = ur_username u" "w_db wa = w_db w"
    by (rule by_login_token_Inr)
  have okb: "schema_ok (w_db wb)" using inv_run [OF second_factor_schema factor] ok u(5) by simp
  note law = sqlite_totp.consume_login_law [OF okb cons]
  have masked: "masked_users (w_db wb) = masked_users (w_db w)"
    using same_run [OF second_factor_masked factor] u(5) by simp
  have okc: "schema_ok (w_db wc)" using law by simp
  have users: "db_users (w_db w1) = db_users (w_db wc)"
    using create_session_Inr [OF okc sess] only_sessions_tables(1) unfolding session_inserted_def by metis
  have none: "ur_totp_login_token v \<noteq> Some t" if v: "v \<in> set (db_users (w_db wc))" for v
  proof (cases "ur_username v = tf_username c")
    case True
    then have "user_at (w_db wc) (tf_username c) = Some v" using v by (simp add: user_at_mem [OF okc])
    with law show ?thesis by auto
  next
    case False
    have "user_at (w_db wc) (ur_username v) = Some v" using v by (simp add: user_at_mem [OF okc])
    with law False have "user_at (w_db wb) (ur_username v) = Some v" by simp
    then have "v \<in> set (db_users (w_db wb))" by (simp add: user_at_mem [OF okb])
    from masked_users_D [OF masked this] obtain v0 where "v0 \<in> set (db_users (w_db w))"
      "ur_totp_login_token v = ur_totp_login_token v0" "ur_username v = ur_username v0" by auto
    with unique u False show ?thesis by (metis login_token_valid_def)
  qed
  have "\<not> (auth_verify_totp_login E S t code' w2 = (Inr x, w3))" for x w3
  proof
    assume "auth_verify_totp_login E S t code' w2 = (Inr x, w3)"
    then obtain c' w4 where "totp_credential_by_login_token E t w2 = (Inr (Some c'), w4)"
      by (auto simp: auth_verify_totp_login_def exec_simps)
    then obtain v where "v \<in> set (db_users (w_db w2))" "login_token_valid t (env_now E (w_tick w2)) v"
      by (rule by_login_token_Inr)
    with none later users show False by (auto simp: login_token_valid_def)
  qed
  then have "isl (fst (auth_verify_totp_login E S t code' w2))"
    by (cases "auth_verify_totp_login E S t code' w2"; cases "fst (auth_verify_totp_login E S t code' w2)") auto
  with u show ?thesis by blast
qed

theorem totp_login_once_witness:
  "let w1 = snd (auth_verify_totp_login sample_env sample_auth ''lt'' ''123456'' totp_world)
   in \<not> isl (fst (auth_verify_totp_login sample_env sample_auth ''lt'' ''123456'' totp_world)) \<and>
      isl (fst (auth_verify_totp_login sample_env sample_auth ''lt'' ''123456'' w1))"
proof -
  let ?run = "auth_verify_totp_login sample_env sample_auth ''lt'' ''123456'' totp_world"
  have ok: "\<not> isl (fst ?run)" by code_simp
  then obtain tok where run: "?run = (Inr tok, snd ?run)" using run_ok by blast
  have "isl (fst (auth_verify_totp_login sample_env sample_auth ''lt'' ''123456'' (snd ?run)))"
    using totp_login_once [OF totp_world_ok run _ refl] by (simp add: totp_world_def)
  with ok show ?thesis by simp
qed

subsection \<open>Accounts and their single-use tokens\<close>

definition account_user :: user_row where
  "account_user = (sample_user 1 ''ann'')\<lparr>ur_reset_token := Some ''rt'', ur_magic_link_token := Some ''ml'',
     ur_magic_link_expires_at := Some 1000, ur_email_verification_token := Some ''vt'',
     ur_email_verification_sent_at := Some 0, ur_pending_email := Some ''new'',
     ur_email_change_token := Some ''ct'', ur_email_change_sent_at := Some 0\<rparr>"

definition account_world :: world where
  "account_world = world_of (empty_db\<lparr>db_users := [account_user], db_users_seq := 1\<rparr>)"

lemma account_world_ok: "schema_ok (w_db account_world)"
  by code_simp

lemma account_world_users [simp]: "db_users (w_db account_world) = [account_user]"
  by (simp add: account_world_def)

text \<open>Resetting a password needs the token of an active account; it stores a hash of the new
  password, and the token that was used cannot be used again.\<close>

theorem reset_token_once:
  assumes ok: "schema_ok (w_db w)" and run: "auth_reset_password E S tok p w = (Inr (), w1)"
    and unique: "\<And>u v. u \<in> set (db_users (w_db w)) \<Longrightarrow> v \<in> set (db_users (w_db w)) \<Longrightarrow>
      ur_reset_token u = Some tok \<Longrightarrow> ur_reset_token v = Some tok \<Longrightarrow> u = v"
    and later: "db_users (w_db w2) = db_users (w_db w1)"
  shows "(\<exists>u k h. user_at (w_db w) (ur_username u) = Some u \<and> ur_reset_token u = Some tok \<and>
      ur_deleted_at u = None \<and> env_hash_password E k p = Inr h \<and>
      user_at (w_db w1) (ur_username u) =
        Some (u\<lparr>ur_password_hash := h, ur_reset_token := None, ur_reset_sent_at := None\<rparr>)) \<and>
    isl (fst (auth_reset_password E S tok p' w2))"
proof -
  from run obtain x wa wb h k where
    found: "users_find_by_reset_token E tok w = (Inr (Some x), wa)" and
    hash: "env_hash_password E k p = Inr h" and wb': "wb = ticked wa" and
    reset: "users_reset_password E (u_username x) h wb = (Inr (), w1)"
    by (auto simp: auth_reset_password_def exec_simps)
  have wb: "w_db wb = w_db wa" by (simp add: wb')
  from reset_tokens.find_sound [OF found] obtain u where
    u: "u \<in> set (db_users (w_db w))" "ur_reset_token u = Some tok" "ur_deleted_at u = None" "x = map_user u"
    by auto
  have db: "w_db wb = w_db w" using reset_tokens.find_reads [OF found] wb by simp
  let ?g = "\<lambda>u. u\<lparr>ur_password_hash := h, ur_reset_token := None, ur_reset_sent_at := None\<rparr>"
  have name: "u_username x = ur_username u" using u by (simp add: map_user_def)
  have at: "user_at (w_db w) (ur_username u) = Some u" using u(1) by (simp add: user_at_mem [OF ok])
  have "user_at (w_db w1) (ur_username u) = Some (?g u)"
  proof -
    have "w_db w1 = (w_db w)\<lparr>db_users := update_where (active (ur_username u)) ?g (db_users (w_db w))\<rparr>"
      using reset by (auto simp: users_reset_password_def exec_simps db name)
    with user_at_active_update [OF at u(3), of ?g] show ?thesis by simp
  qed
  moreover have "isl (fst (auth_reset_password E S tok p' w2))"
    unfolding isl_iff
  proof (intro allI notI)
    fix y w3
    assume "auth_reset_password E S tok p' w2 = (Inr y, w3)"
    then obtain x' w4 where "users_find_by_reset_token E tok w2 = (Inr (Some x'), w4)"
      by (auto simp: auth_reset_password_def exec_simps)
    from reset_spending.spent_once [OF found wb reset _ later this] unique show False by simp
  qed
  ultimately show ?thesis using u at hash by blast
qed
theorem reset_token_once_witness:
  "let w1 = snd (auth_reset_password sample_env sample_auth ''rt'' ''pw'' account_world)
   in map_option ur_password_hash (user_at (w_db w1) ''ann'') = Some ''#pw'' \<and>
      isl (fst (auth_reset_password sample_env sample_auth ''rt'' ''pw2'' w1))"
proof -
  let ?run = "auth_reset_password sample_env sample_auth ''rt'' ''pw'' account_world"
  have run: "?run = (Inr (), snd ?run)" by (rule run_result) code_simp
  have "isl (fst (auth_reset_password sample_env sample_auth ''rt'' ''pw2'' (snd ?run)))"
    using reset_token_once [OF account_world_ok run _ refl, of "''pw2''"] by simp
  moreover have "map_option ur_password_hash (user_at (w_db (snd ?run)) ''ann'') = Some ''#pw''" by code_simp
  ultimately show ?thesis by simp
qed

text \<open>A magic link opens a session for the active account it was issued to, before it expires and
  only once: the link is removed with its first use.\<close>

theorem magic_link_once:
  assumes ok: "schema_ok (w_db w)" and run: "auth_verify_magic_link E S tok w = (Inr s, w1)"
    and unique: "\<And>u v. u \<in> set (db_users (w_db w)) \<Longrightarrow> v \<in> set (db_users (w_db w)) \<Longrightarrow>
      ur_magic_link_token u = Some tok \<Longrightarrow> ur_magic_link_token v = Some tok \<Longrightarrow> u = v"
    and later: "db_users (w_db w2) = db_users (w_db w1)"
  shows "(\<exists>u t k sess. u \<in> set (db_users (w_db w)) \<and> ur_magic_link_token u = Some tok \<and> ur_deleted_at u = None \<and>
      ur_magic_link_expires_at u = Some t \<and> env_now E k \<le> t \<and>
      session_at (w_db w1) s = Some sess \<and> sr_user_id sess = ur_id u \<and> sr_expires_at sess \<le> sr_max_expires_at sess) \<and>
    isl (fst (auth_verify_magic_link E S tok w2))"
proof -
  from run obtain x t wa wb wc where
    found: "users_find_by_magic_link_token E tok w = (Inr (Some x), wa)" and
    t: "u_magic_link_expires_at x = Some t" "\<not> t < env_now E (w_tick wa)" and wb': "wb = ticked wa" and
    clear: "users_clear_magic_link E (u_username x) wb = (Inr (), wc)" and
    sess: "create_session E S (u_username x) wc = (Inr s, w1)"
    by (auto simp: auth_verify_magic_link_def exec_simps split: option.splits)
  have wb: "w_db wb = w_db wa" by (simp add: wb')
  from magic_links.find_sound [OF found] obtain u where
    u: "u \<in> set (db_users (w_db w))" "ur_magic_link_token u = Some tok" "ur_deleted_at u = None" "x = map_user u"
    by auto
  have db: "w_db wb = w_db w" using magic_links.find_reads [OF found] wb by simp
  have name: "u_username x = ur_username u" and exp: "ur_magic_link_expires_at u = Some t"
    using u t by (simp_all add: map_user_def)
  let ?g = "\<lambda>u. u\<lparr>ur_magic_link_token := None, ur_magic_link_expires_at := None\<rparr>"
  have wc: "w_db wc = (w_db w)\<lparr>db_users := update_where (active (ur_username u)) ?g (db_users (w_db w))\<rparr>"
    and okc: "schema_ok (w_db wc)"
    using clear by (auto simp: users_clear_magic_link_def exec_simps db name)
  have "user_at (w_db w) (ur_username u) = Some u" using u(1) by (simp add: user_at_mem [OF ok])
  from user_at_active_update [OF this u(3), of ?g] have at: "user_at (w_db wc) (ur_username u) = Some (?g u)"
    by (simp add: wc)
  from okc sess obtain c e m where em: "e = min (env_now E (w_tick wc + 4) + sp_sliding_ttl (as_session_policy S)) m"
    and ins: "session_inserted s (ur_username u) e m (w_db wc) (w_db w1)"
    unfolding name by (rule create_session_Inr)
  from ins at obtain row where row: "session_at (w_db w1) s = Some row" "sr_user_id row = ur_id u"
    "sr_expires_at row = e" "sr_max_expires_at row = m" unfolding session_inserted_def by auto
  have users: "db_users (w_db w1) = db_users (w_db wc)"
    using ins only_sessions_tables(1) by (auto simp: session_inserted_def)
  have "isl (fst (auth_verify_magic_link E S tok w2))"
    unfolding isl_iff
  proof (intro allI notI)
    fix y w3
    assume "auth_verify_magic_link E S tok w2 = (Inr y, w3)"
    then obtain x' w4 where again: "users_find_by_magic_link_token E tok w2 = (Inr (Some x'), w4)"
      by (auto simp: auth_verify_magic_link_def exec_simps)
    have "db_users (w_db w2) = db_users (w_db wc)" using later users by simp
    from magic_link_spending.spent_once [OF found wb clear _ this again] unique show False by simp
  qed
  with u exp t(2) row em show ?thesis by (auto simp: not_less)
qed

theorem magic_link_once_witness:
  "let w1 = snd (auth_verify_magic_link sample_env sample_auth ''ml'' account_world)
   in \<not> isl (fst (auth_verify_magic_link sample_env sample_auth ''ml'' account_world)) \<and>
      isl (fst (auth_verify_magic_link sample_env sample_auth ''ml'' w1))"
proof -
  let ?run = "auth_verify_magic_link sample_env sample_auth ''ml'' account_world"
  have ok: "\<not> isl (fst ?run)" by code_simp
  then obtain tok where run: "?run = (Inr tok, snd ?run)" using run_ok by blast
  have "isl (fst (auth_verify_magic_link sample_env sample_auth ''ml'' (snd ?run)))"
    using magic_link_once [OF account_world_ok run _ refl] by simp
  with ok show ?thesis by simp
qed

text \<open>Verifying an e-mail address needs a verification token sent less than 24 hours ago; it marks
  the account verified, and the token cannot be used again.\<close>

theorem email_verification_once:
  assumes run: "auth_verify_email E S tok w = (Inr (), w1)"
    and later: "db_users (w_db w2) = db_users (w_db w1)" "env_now E (w_tick w) \<le> env_now E (w_tick w2)"
  shows "(\<exists>u \<in> set (db_users (w_db w)). \<exists>t. ur_email_verification_token u = Some tok \<and> ur_deleted_at u = None \<and>
      ur_email_verification_sent_at u = Some t \<and> env_now E (w_tick w) - hours 24 < t \<and>
      (\<exists>u' \<in> set (db_users (w_db w1)). ur_id u' = ur_id u \<and> ur_email_verified_at u' = Some (env_now E (w_tick w)) \<and>
         ur_email_verification_token u' = None)) \<and>
    isl (fst (auth_verify_email E S tok w2))"
proof -
  let ?now = "env_now E (w_tick w)"
  let ?g = "\<lambda>u. u\<lparr>ur_email_verified_at := Some ?now, ur_email_verification_token := None,
     ur_email_verification_sent_at := None, ur_search_revision := ur_search_revision u + 1\<rparr>"
  from run have wr: "writer_verify_email E tok ?now (as_publish_search S) (ticked w) = (Inr True, w1)"
    by (auto simp: auth_verify_email_def exec_simps)
  obtain u where u: "u \<in> set (db_users (w_db w))" "verifiable tok ?now u"
    using writer_verify_email_run(1) [OF wr] by auto
  have users: "db_users (w_db w1) = update_where (verifiable tok ?now) ?g (db_users (w_db w))"
    using no_outbox_tables(1) [OF writer_verify_email_run(2) [OF wr]] by simp
  have "?g u \<in> set (db_users (w_db w1))" using u by (auto simp: users set_update_where)
  then have "\<exists>u' \<in> set (db_users (w_db w1)). ur_id u' = ur_id u \<and> ur_email_verified_at u' = Some ?now \<and>
      ur_email_verification_token u' = None" by (rule bexI [rotated]) simp
  moreover have "isl (fst (auth_verify_email E S tok w2))"
    unfolding isl_iff
  proof (intro allI notI)
    fix y w3
    assume "auth_verify_email E S tok w2 = (Inr y, w3)"
    then have "writer_verify_email E tok (env_now E (w_tick w2)) (as_publish_search S) (ticked w2) = (Inr True, w3)"
      by (auto simp: auth_verify_email_def exec_simps)
    then obtain v where v: "v \<in> set (db_users (w_db w1))" "verifiable tok (env_now E (w_tick w2)) v"
      using writer_verify_email_run(1) later(1) by fastforce
    from v(1) have "v \<in> set (db_users (w_db w)) \<and> \<not> verifiable tok ?now v"
      using v(2) unfolding users by (auto elim!: in_update_whereE simp: verifiable_def)
    with v(2) later(2) show False by (auto simp: verifiable_def)
  qed
  ultimately show ?thesis using u unfolding verifiable_def is_some_and_iff by blast
qed

theorem email_verification_once_witness:
  "let w1 = snd (auth_verify_email sample_env sample_auth ''vt'' account_world)
   in map_option ur_email_verified_at (user_at (w_db w1) ''ann'') = Some (Some 0) \<and>
      isl (fst (auth_verify_email sample_env sample_auth ''vt'' w1))"
proof -
  let ?run = "auth_verify_email sample_env sample_auth ''vt'' account_world"
  have run: "?run = (Inr (), snd ?run)" by (rule run_result) code_simp
  have "isl (fst (auth_verify_email sample_env sample_auth ''vt'' (snd ?run)))"
    using email_verification_once [OF run refl] by (simp add: account_world_def)
  moreover have "map_option ur_email_verified_at (user_at (w_db (snd ?run)) ''ann'') = Some (Some 0)" by code_simp
  ultimately show ?thesis by simp
qed
text \<open>Confirming an e-mail change needs the token of a request not older than one hour. The account,
  and no other, takes the pending address as its name and is verified; its sessions stay, and the
  token cannot be used again.\<close>

theorem email_change_confirmed:
  assumes ok: "schema_ok (w_db w)" and run: "auth_confirm_email_change E S tok w = (Inr (), w1)"
    and later: "db_users (w_db w2) = db_users (w_db w1)"
  shows "(\<exists>u e. u \<in> set (db_users (w_db w)) \<and> email_changeable tok (env_now E (w_tick w)) u \<and>
      ur_pending_email u = Some e \<and>
      user_at (w_db w1) e = Some (email_changed (env_now E (w_tick w)) u) \<and>
      db_sessions (w_db w1) = db_sessions (w_db w) \<and>
      (\<forall>v \<in> set (db_users (w_db w)). v \<noteq> u \<longrightarrow> user_at (w_db w1) (ur_username v) = Some v)) \<and>
    isl (fst (auth_confirm_email_change E S tok w2))"
proof -
  let ?now = "env_now E (w_tick w)"
  from run have wr: "writer_confirm_email_change E tok ?now (as_publish_search S) (ticked w) = (Inr True, w1)"
    by (auto simp: auth_confirm_email_change_def exec_simps)
  obtain u where u: "u \<in> set (db_users (w_db w))" "email_changeable tok ?now u"
    using writer_confirm_run(1) [OF wr] by auto
  then obtain e where e: "ur_pending_email u = Some e" by (auto simp: email_changeable_def)
  have ok1: "schema_ok (w_db w1)" using inv_run [OF writer_confirm_schema wr] ok by simp
  note tables = no_outbox_tables [OF writer_confirm_run(2) [OF wr]]
  have users: "db_users (w_db w1) = update_where (email_changeable tok ?now) (email_changed ?now) (db_users (w_db w))"
    using tables(1) by simp
  have at: "user_at (w_db w1) e = Some (email_changed ?now u)"
    using u e in_update_where [of u _ "email_changeable tok ?now" "email_changed ?now"]
    by (simp add: user_at_mem [OF ok1] users) (simp add: email_changed_def)
  have other: "user_at (w_db w1) (ur_username v) = Some v" if v: "v \<in> set (db_users (w_db w))" "v \<noteq> u" for v
  proof -
    have "\<not> email_changeable tok ?now v" using email_change_unique [OF ok v(1) u(1) _ u(2)] v(2) by blast
    with v(1) show ?thesis by (auto simp: user_at_mem [OF ok1] users set_update_where)
  qed
  have "isl (fst (auth_confirm_email_change E S tok w2))"
    unfolding isl_iff
  proof (intro allI notI)
    fix y w3
    assume "auth_confirm_email_change E S tok w2 = (Inr y, w3)"
    then have "writer_confirm_email_change E tok (env_now E (w_tick w2)) (as_publish_search S) (ticked w2) = (Inr True, w3)"
      by (auto simp: auth_confirm_email_change_def exec_simps)
    then obtain v where v: "v \<in> set (db_users (w_db w1))" "email_changeable tok (env_now E (w_tick w2)) v"
      using writer_confirm_run(1) later(1) by fastforce
    from v(1) have "v \<in> set (db_users (w_db w)) \<and> \<not> email_changeable tok ?now v"
      using v(2) unfolding users by (auto elim!: in_update_whereE simp: email_changeable_def email_changed_def)
    with email_change_unique [OF ok _ u(1) v(2) u(2)] u(2) show False by auto
  qed
  with u e at other tables(2) show ?thesis by auto
qed

theorem email_change_confirmed_witness:
  "let w1 = snd (auth_confirm_email_change sample_env sample_auth ''ct'' account_world)
   in map_option ur_id (user_at (w_db w1) ''new'') = Some 1 \<and>
      isl (fst (auth_confirm_email_change sample_env sample_auth ''ct'' w1))"
proof -
  let ?run = "auth_confirm_email_change sample_env sample_auth ''ct'' account_world"
  have run: "?run = (Inr (), snd ?run)" by (rule run_result) code_simp
  have "isl (fst (auth_confirm_email_change sample_env sample_auth ''ct'' (snd ?run)))"
    using email_change_confirmed [OF account_world_ok run refl] by simp
  moreover have "map_option ur_id (user_at (w_db (snd ?run)) ''new'') = Some 1" by code_simp
  ultimately show ?thesis by simp
qed

lemma delete_each_session:
  assumes "schema_ok (w_db w)"
    "for_each (\<lambda>s. of_domain (sqlite_sessions_delete_for_user E n (s_pid s))) xs w = (Inr u, w')"
  shows "schema_ok (w_db w') \<and> only_sessions (w_db w) (w_db w') \<and>
    (\<forall>tok s. session_at (w_db w') tok = Some s \<longrightarrow> session_at (w_db w) tok = Some s \<and>
       (\<forall>x \<in> set xs. sr_pid s = s_pid x \<longrightarrow>
          \<not> (\<exists>v. session_owner (w_db w) s = Some v \<and> ur_username v = n)))"
  using assms
proof (induction xs arbitrary: w)
  case Nil
  then show ?case by (simp add: only_sessions_def)
next
  case (Cons x xs)
  from Cons.prems(2) obtain b w1 where
    del: "sqlite_sessions_delete_for_user E n (s_pid x) w = (Inr b, w1)" and
    rest: "for_each (\<lambda>s. of_domain (sqlite_sessions_delete_for_user E n (s_pid s))) xs w1 = (Inr u, w')"
    by (auto simp: exec_simps)
  note law = sqlite_sessions.delete_for_user_law [OF Cons.prems(1) del]
  have ok1: "schema_ok (w_db w1)" and only: "only_sessions (w_db w) (w_db w1)" using law by auto
  have own: "session_owner (w_db w1) s = session_owner (w_db w) s" for s
    by (simp add: session_owner_def only_sessions_tables(1) [OF only])
  have "only_sessions (w_db w) (w_db w')"
    using only Cons.IH [OF ok1 rest] unfolding only_sessions_def
    by (metis database.surjective database.update_convs(3))
  with Cons.IH [OF ok1 rest] law show ?case by (auto simp: own)
qed
text \<open>C24. Deleting one's account needs a valid token of a live session of the account and the password of the
  account, which is active and not the protected administrator. The account is marked deleted, every session of
  it that was live when the sessions were listed, right after the token was checked, is removed, and no token is
  accepted as that user any more.\<close>

theorem delete_account_ends_access:
  assumes ok: "schema_ok (w_db w)" and run: "auth_delete_account E S tok p w = (Inr (), w')"
  shows "\<exists>n u s0. verify_token E (as_tokens S) tok w = (Inr n, ticked w) \<and>
    session_at (w_db w) tok = Some s0 \<and> live (env_now E (Suc (w_tick w))) s0 \<and> sr_user_id s0 = ur_id u \<and>
    \<not> is_protected_admin_username n \<and> user_at (w_db w) n = Some u \<and> active n u \<and>
    env_verify_password E p (ur_password_hash u) = Inr True \<and>
    is_some_and (\<lambda>u'. ur_id u' = ur_id u \<and> ur_deleted_at u' \<noteq> None) (user_at (w_db w') n) \<and>
    (\<forall>s \<in> set (db_sessions (w_db w')). sr_user_id s = ur_id u \<longrightarrow>
       \<not> live (env_now E (Suc (w_tick (snd (auth_current_user E S tok w))))) s) \<and>
    (\<forall>t tok' se. session_view t (w_db w') tok' = Some se \<longrightarrow> s_username se \<noteq> n)"
proof -
  from run obtain cu x w1 w2 w3 w4 xs where
    cur: "auth_current_user E S tok w = (Inr cu, w1)" and
    admin: "\<not> is_protected_admin_username (cd_username cu)" and
    find: "users_find_by_username E (cd_username cu) w1 = (Inr (Some x), w2)" and
    pw: "env_verify_password E p (u_password_hash x) = Inr True" and
    list: "sqlite_sessions_list_for_user E (cd_username cu) w2 = (Inr xs, w3)" and
    del: "writer_delete E (cd_username cu) (as_publish_search S) w3 = (Inr True, w4)" and
    each: "for_each (\<lambda>s. of_domain (sqlite_sessions_delete_for_user E (cd_username cu) (s_pid s))) xs w4 = (Inr (), w')"
    by (auto simp: auth_delete_account_def exec_simps)
  let ?n = "cd_username cu"
  from ok cur obtain s0 u0 where tok: "verify_token E (as_tokens S) tok w = (Inr ?n, ticked w)"
    "session_at (w_db w) tok = Some s0" "live (env_now E (Suc (w_tick w))) s0" and
    owner: "session_owner (w_db w) s0 = Some u0" "ur_username u0 = ?n" and
    ok1: "schema_ok (w_db w1)" and only1: "only_sessions (w_db w) (w_db w1)"
    by (rule current_user_Inr)
  from ok1 find obtain u where u1: "user_at (w_db w1) ?n = Some u" "active ?n u" "x = map_user u" "w2 = ticked w1"
    by (rule find_by_username_Inr)
  have u: "user_at (w_db w) ?n = Some u" using u1(1) by (simp add: user_at_def only_sessions_tables(1) [OF only1])
  have own0: "sr_user_id s0 = ur_id u"
    using owner u by (simp add: session_owner_mem [OF ok]) (metis option.inject user_at_mem [OF ok])
  have ok2: "schema_ok (w_db w2)" using ok1 u1(4) by simp
  have db3: "w_db w3 = w_db w1" using list_for_user_Inr(1) [OF ok2 list] u1(4) by simp
  have ok3: "schema_ok (w_db w3)" using ok1 db3 by simp
  note wd = writer_delete_True [OF ok3 del]
  note de = delete_each_session [OF wd(1) each]
  have users: "db_users (w_db w') = db_users (w_db w4)" using de only_sessions_tables(1) by blast
  from wd(3) obtain now where at4: "user_at (w_db w4) ?n =
      Some (u\<lparr>ur_deleted_at := Some now, ur_search_revision := ur_search_revision u + 1\<rparr>)"
    using u1(1) db3 by auto
  have at': "user_at (w_db w') ?n = user_at (w_db w4) ?n" by (simp add: user_at_def users)
  have ok': "schema_ok (w_db w')" using de by simp
  let ?u' = "u\<lparr>ur_deleted_at := Some now, ur_search_revision := ur_search_revision u + 1\<rparr>"
  have own: "session_owner (w_db w4) s = Some ?u'" if "sr_user_id s = ur_id u" for s
    using at4 that by (auto simp: session_owner_mem [OF wd(1)] user_at_mem [OF wd(1)])
  have dead: "\<not> live (env_now E (w_tick w2)) s"
    if s: "s \<in> set (db_sessions (w_db w'))" "sr_user_id s = ur_id u" for s
  proof
    assume live: "live (env_now E (w_tick w2)) s"
    have "session_at (w_db w') (sr_token s) = Some s" using s(1) by (simp add: session_at_mem [OF ok'])
    with de have s4: "session_at (w_db w4) (sr_token s) = Some s" and
      kept: "\<And>x. x \<in> set xs \<Longrightarrow> sr_pid s = s_pid x \<Longrightarrow>
        \<not> (\<exists>v. session_owner (w_db w4) s = Some v \<and> ur_username v = ?n)" by auto
    have "s \<in> set (db_sessions (w_db w2))"
      using s4 wd(2) db3 u1(4) by (simp add: session_at_mem [OF wd(1)])
    moreover have "session_owner (w_db w2) s = Some u"
      using s(2) u1 by (simp add: session_owner_mem [OF ok1] user_at_mem [OF ok1])
    ultimately obtain x where "x \<in> set xs" "s_pid x = sr_pid s"
      using list_for_user_Inr(3) [OF ok2 list _ live] u1(2) by (auto simp: active_def)
    with kept [of x] own [OF s(2)] u1(2) show False by (auto simp: active_def)
  qed
  have gone: "s_username se \<noteq> ?n" if "session_view t (w_db w') tok' = Some se" for t tok' se
    using deleted_user_no_view [OF ok' _ _ that] at' at4 by simp
  have hash: "u_password_hash x = ur_password_hash u" using u1(3) by (simp add: map_user_def)
  show ?thesis
    by (intro exI [of _ ?n] exI [of _ u] exI [of _ s0])
      (use tok own0 admin u u1(2,4) cur pw hash at' at4 dead gone in auto)
qed

definition ann_world :: world where
  "ann_world = world_of (session_db\<lparr>db_sessions := [sample_session (sample_token ''ann'') 1]\<rparr>)"

lemma ann_world_ok: "schema_ok (w_db ann_world)"
  by code_simp

theorem delete_account_ends_access_witness:
  "fst (auth_delete_account sample_env sample_auth (sample_token ''ann'') ''ann'' ann_world) = Inr () \<and>
   (\<exists>u. user_at (w_db ann_world) ''ann'' = Some u \<and> active ''ann'' u) \<and>
   ''ann'' \<notin> {n. \<exists>t tok se. s_username se = n \<and>
     session_view t (w_db (snd (auth_delete_account sample_env sample_auth (sample_token ''ann'') ''ann'' ann_world)))
       tok = Some se}"
proof -
  let ?run = "auth_delete_account sample_env sample_auth (sample_token ''ann'') ''ann'' ann_world"
  have fst: "fst ?run = Inr ()" by code_simp
  then have run: "?run = (Inr (), snd ?run)" by (rule run_result)
  from delete_account_ends_access [OF ann_world_ok run] obtain n u where
    n: "user_at (w_db ann_world) n = Some u" "active n u" and
    gone: "\<And>t tok' se. session_view t (w_db (snd ?run)) tok' = Some se \<Longrightarrow> s_username se \<noteq> n" by blast
  have "n = ''ann''" using n(1)
    by (auto simp: user_at_def ann_world_def world_of_def session_db_def empty_db_def sample_user_def
        new_user_row_def split: if_splits)
  with fst n gone show ?thesis by blast
qed

lemma writer_failure_atomic:
  "writer_register E c w = (Inl e, w') \<Longrightarrow> w_db w' = w_db w"
  unfolding writer_register_def by (rule transaction_atomic)

text \<open>A registration that succeeds had a free name and admissible credentials. It adds one active,
  unverified account with a hash of the password, changes no session, and its verification mail is in
  the outbox or, without durable mail, has been handed to the transport.\<close>

theorem registration_creates_account:
  assumes "auth_register E S n p w = (Inr (), w')"
  shows "\<exists>row k tok. required_username n = Inr () \<and> required_password p = Inr () \<and>
    user_at (w_db w) n = None \<and> db_users (w_db w') = db_users (w_db w) @ [row] \<and>
    ur_username row = n \<and> env_hash_password E k p = Inr (ur_password_hash row) \<and>
    ur_email_verification_token row = Some tok \<and> ur_email_verified_at row = None \<and> ur_deleted_at row = None \<and>
    db_sessions (w_db w') = db_sessions (w_db w) \<and>
    (if as_durable_mail S
     then \<exists>r \<in> set (db_outbox (w_db w')). \<exists>t. outbox_key r = Some (SEND_MAIL_JOB, mail_key ''verify_email'' n t)
     else \<exists>ms. w_mails w' = ms @ [render (welcome_mail S n tok)])"
proof -
  let ?w2 = "ticked (ticked (ticked w))"
  let ?tok = "env_uuid E (w_tick (ticked w))"
  from assms obtain h u w3 where
    valid: "required_username_password n p = Inr ()" and
    hash: "env_hash_password E (w_tick w) p = Inr h" and
    reg: "writer_register E
       \<lparr>rm_username = n, rm_password_hash = h, rm_verification_token = ?tok,
        rm_verification_sent_at = env_now E (w_tick (ticked (ticked w))), rm_publish_search = as_publish_search S,
        rm_mail = (if as_durable_mail S then Some (welcome_mail S n ?tok) else None)\<rparr> ?w2 = (Inr u, w3)" and
    mail: "(if as_durable_mail S then ret () else send_mail E (welcome_mail S n ?tok)) w3 = (Inr (), w')"
    by (auto simp: auth_register_def exec_simps Let_def simp del: ticked_simps)
  have db': "w_db w' = w_db w3" and mails: "\<not> as_durable_mail S \<Longrightarrow> \<exists>ms. w_mails w' = ms @ [render (welcome_mail S n ?tok)]"
    using mail by (auto simp: send_mail_def split: if_splits option.splits)
  from writer_register_Inr [OF reg] obtain row where
    "user_at (w_db w) n = None" "db_users (w_db w3) = db_users (w_db w) @ [row]" "ur_username row = n"
    "ur_password_hash row = h" "ur_email_verification_token row = Some ?tok" "ur_email_verified_at row = None"
    "ur_deleted_at row = None" "db_sessions (w_db w3) = db_sessions (w_db w)" and
    queued: "as_durable_mail S \<Longrightarrow> \<exists>r \<in> set (db_outbox (w_db w3)). outbox_key r =
       Some (SEND_MAIL_JOB, mail_key ''verify_email'' n (env_now E (w_tick (ticked (ticked w)))))"
    by (cases "as_durable_mail S") auto
  moreover have "required_username n = Inr ()" "required_password p = Inr ()"
    using valid by (simp_all add: required_username_password_ok_iff)
  ultimately show ?thesis
    using hash db' mails queued by (intro exI [of _ row] exI [of _ "w_tick w"] exI [of _ ?tok]) auto
qed

theorem registration_creates_account_witness:
  "fst (auth_register sample_env sample_auth ''carl'' ''pw'' session_world) = Inr () \<and>
   user_at (w_db session_world) ''carl'' = None \<and>
   db_sessions (w_db (snd (auth_register sample_env sample_auth ''carl'' ''pw'' session_world))) =
   db_sessions (w_db session_world)"
proof -
  let ?run = "auth_register sample_env sample_auth ''carl'' ''pw'' session_world"
  have fst: "fst ?run = Inr ()" by code_simp
  then have "?run = (Inr (), snd ?run)" by (rule run_result)
  from registration_creates_account [OF this] fst show ?thesis by blast
qed

text \<open>With durable mail a registration is all or nothing: an error, whether of validation, hashing,
  the database or a taken name, leaves every table as it was.\<close>

theorem registration_atomic:
  assumes "as_durable_mail S" "auth_register E S n p w = (Inl e, w')"
  shows "w_db w' = w_db w"
  using assms(2,1)
  by (auto simp: auth_register_def exec_simps Let_def hash_password_def split: sum.splits
      dest: writer_failure_atomic)

theorem registration_atomic_witness:
  "isl (fst (auth_register sample_env sample_auth ''ann'' ''pw'' session_world)) \<and>
   w_db (snd (auth_register sample_env sample_auth ''ann'' ''pw'' session_world)) = w_db session_world"
proof -
  let ?run = "auth_register sample_env sample_auth ''ann'' ''pw'' session_world"
  have fst: "fst ?run = Inl (localized_conflict UserAlreadyExists)" by code_simp
  then have "?run = (Inl (localized_conflict UserAlreadyExists), snd ?run)" by (rule run_result)
  from registration_atomic [OF _ this] fst show ?thesis by (simp add: sample_auth_def)
qed

end
