(* ===== verification/OAuth_Repository.thy ===== *)
theory OAuth_Repository
  imports Managed_User_Writer
begin

text \<open>
  The SQLite repository of OAuth states, connections and pending signups
  (\<^verbatim>\<open>sqlx/src/identity/oauth/sqlite_repository.rs\<close>) and the removal of expired rows
  (\<^verbatim>\<open>sqlx/src/identity/cleanup.rs\<close>). States and pending signups are taken by
  \<^verbatim>\<open>DELETE ... RETURNING\<close>: the locale \<open>ticket_store\<close> says that such a ticket is handed out at most
  once and is interpreted for the states.
\<close>

section \<open>States\<close>

definition oauth_insert_state :: "env \<Rightarrow> oauth_state \<Rightarrow> (domain_error, unit) action" where
  "oauth_insert_state E state =
     map_err (db_error E) (sql E (\<lambda>_ d. ((), d\<lparr>db_oauth_states := db_oauth_states d @ [state]\<rparr>)))"

definition oauth_take_state ::
    "env \<Rightarrow> string \<Rightarrow> instant \<Rightarrow> (domain_error, oauth_state option) action" where
  "oauth_take_state E state now =
     map_err (db_error E) (sql E (\<lambda>_ d.
       (let P = (\<lambda>s. os_state s = state \<and> os_expires_at s > now)
        in (find P (db_oauth_states d), d\<lparr>db_oauth_states := delete_where P (db_oauth_states d)\<rparr>))))"

section \<open>Connections\<close>

definition active_user_id :: "database \<Rightarrow> string \<Rightarrow> int option" where
  "active_user_id d username = map_option ur_id (find (active username) (db_users d))"

definition oauth_list_connections ::
    "env \<Rightarrow> string \<Rightarrow> (domain_error, oauth_connection list) action" where
  "oauth_list_connections E username =
     map_err (db_error E) (query E (\<lambda>d. sort_key oc_provider
       (filter (\<lambda>c. active_user_id d username = Some (oc_user_id c)) (db_connections d))))"

definition connections_of :: "database \<Rightarrow> int \<Rightarrow> oauth_connection list" where
  "connections_of d user_id = filter (\<lambda>c. oc_user_id c = user_id) (db_connections d)"

definition unlinkable :: "database \<Rightarrow> string \<Rightarrow> string \<Rightarrow> oauth_connection \<Rightarrow> bool" where
  "unlinkable d username provider c \<longleftrightarrow>
     is_some_and (\<lambda>u. oc_user_id c = ur_id u \<and> oc_provider c = provider \<and>
        (\<not> ur_external_only u \<or> length (connections_of d (ur_id u)) > 1))
       (find (active username) (db_users d))"

definition oauth_unlink_connection ::
    "env \<Rightarrow> string \<Rightarrow> string \<Rightarrow> (domain_error, oauth_unlink_result) action" where
  "oauth_unlink_connection E username provider =
     bindE (map_err (db_error E) (sql E (\<lambda>_ d.
        (find (unlinkable d username provider) (db_connections d),
         d\<lparr>db_connections := delete_where (unlinkable d username provider) (db_connections d)\<rparr>)))) (\<lambda>deleted.
     if deleted \<noteq> None then ret Unlinked
     else
       bindE (map_err (db_error E) (query E (\<lambda>d.
         \<exists>u \<in> set (db_users d). \<exists>c \<in> set (db_connections d).
           active username u \<and> ur_external_only u \<and> oc_user_id c = ur_id u \<and>
           oc_provider c = provider \<and> length (connections_of d (ur_id u)) \<le> 1))) (\<lambda>blocked.
       ret (if blocked then LastConnection else ConnectionNotFound)))"

definition oauth_username_for_connection ::
    "env \<Rightarrow> string \<Rightarrow> string \<Rightarrow> (domain_error, string option) action" where
  "oauth_username_for_connection E provider provider_user_id =
     map_err (db_error E) (query E (\<lambda>d. fetch_optional
       (concat (map (\<lambda>c. map ur_username
           (filter (\<lambda>u. ur_id u = oc_user_id c \<and> ur_deleted_at u = None) (db_users d)))
         (filter (\<lambda>c. oc_provider c = provider \<and> oc_provider_user_id c = provider_user_id)
            (db_connections d))))))"

definition upsert_connection :: "oauth_connection \<Rightarrow> database \<Rightarrow> database" where
  "upsert_connection new d =
     (let P = (\<lambda>c. oc_user_id c = oc_user_id new \<and> oc_provider c = oc_provider new)
      in if \<exists>c \<in> set (db_connections d). P c
         then d\<lparr>db_connections := update_where P
                (\<lambda>c. c\<lparr>oc_provider_user_id := oc_provider_user_id new, oc_email := oc_email new\<rparr>)
                (db_connections d)\<rparr>
         else d\<lparr>db_connections := db_connections d @ [new]\<rparr>)"

definition oauth_link_connection ::
    "env \<Rightarrow> string \<Rightarrow> string \<Rightarrow> string \<Rightarrow> string \<Rightarrow> (domain_error, unit) action" where
  "oauth_link_connection E username provider provider_user_id email =
     bindE (utc_now E) (\<lambda>now.
     bindE (map_err (\<lambda>e. DomConflict (env_error_text E e)) (sql E (\<lambda>_ d.
        case active_user_id d username of
          None \<Rightarrow> (0 :: nat, d)
        | Some user_id \<Rightarrow>
            (1, upsert_connection \<lparr>oc_user_id = user_id, oc_provider = provider,
                  oc_provider_user_id = provider_user_id, oc_email = email, oc_created_at = now\<rparr> d)))) (\<lambda>affected.
     ensure (affected \<noteq> 0) (DomNotFound ''User not found'')))"

section \<open>Pending signups\<close>

definition oauth_insert_pending_signup ::
    "env \<Rightarrow> pending_oauth_signup \<Rightarrow> (domain_error, unit) action" where
  "oauth_insert_pending_signup E signup =
     map_err (db_error E) (sql E (\<lambda>_ d.
       (let P = (\<lambda>s. ps_provider s = ps_provider signup \<and>
                  ps_provider_user_id s = ps_provider_user_id signup)
        in ((), if \<exists>s \<in> set (db_pending_signups d). P s
                then d\<lparr>db_pending_signups := update_where P
                   (\<lambda>s. s\<lparr>ps_token := ps_token signup, ps_email := ps_email signup,
                          ps_created_at := ps_created_at signup, ps_expires_at := ps_expires_at signup\<rparr>)
                   (db_pending_signups d)\<rparr>
                else d\<lparr>db_pending_signups := db_pending_signups d @ [signup]\<rparr>))))"

record complete_oauth_signup =
  co_token :: string
  co_now :: instant
  co_username :: string
  co_password_hash :: string
  co_publish_search :: bool

definition sql_conflict :: "env \<Rightarrow> sqlx_error \<Rightarrow> application_error" where
  "sql_conflict E e = Conflict (env_error_text E e)"

definition pending_valid :: "string \<Rightarrow> instant \<Rightarrow> pending_oauth_signup \<Rightarrow> bool" where
  "pending_valid token now s \<longleftrightarrow> ps_token s = token \<and> ps_expires_at s > now"

definition oauth_complete_signup ::
    "env \<Rightarrow> complete_oauth_signup \<Rightarrow> (application_error, bool) action" where
  "oauth_complete_signup E c = transaction E (db_failure E)
     (bindE (map_err (db_failure E) (sql E (\<lambda>_ d.
        (find (pending_valid (co_token c) (co_now c)) (db_pending_signups d),
         d\<lparr>db_pending_signups :=
            delete_where (pending_valid (co_token c) (co_now c)) (db_pending_signups d)\<rparr>)))) (\<lambda>taken.
      case taken of
        None \<Rightarrow> ret (Dropped False)
      | Some pending \<Rightarrow>
          bindE (new_uuid E) (\<lambda>pid. bindE (utc_now E) (\<lambda>created_at.
          bindE (map_err (sql_conflict E) (sql E (\<lambda>_. insert_user_row
            ((new_user_row pid (co_username c) (co_password_hash c) created_at)\<lparr>ur_external_only := True\<rparr>)))) (\<lambda>user.
          bindE (utc_now E) (\<lambda>now.
          seqE (map_err (sql_conflict E) (sql E (\<lambda>_ d.
            ((), d\<lparr>db_connections := db_connections d @
              [\<lparr>oc_user_id = ur_id user, oc_provider = ps_provider pending,
                oc_provider_user_id = ps_provider_user_id pending, oc_email = ps_email pending,
                oc_created_at = now\<rparr>]\<rparr>))))
          (seqE (whenE (co_publish_search c)
              (enqueue_user_upsert E (ur_pid user) (co_username c) (ur_created_at user) False []
                (ur_search_revision user)))
            (ret (Commit True)))))))))"

definition oauth_complete_pending_signup ::
    "env \<Rightarrow> string \<Rightarrow> instant \<Rightarrow> string \<Rightarrow> string \<Rightarrow> (domain_error, bool) action" where
  "oauth_complete_pending_signup E token now username password_hash =
     map_err (\<lambda>e. case e of
         Conflict message \<Rightarrow> DomConflict message
       | NotFound message \<Rightarrow> DomNotFound message
       | error \<Rightarrow> DomValidation (error_message error))
       (oauth_complete_signup E
         \<lparr>co_token = token, co_now = now, co_username = username, co_password_hash = password_hash,
          co_publish_search = False\<rparr>)"

section \<open>Removal of expired rows\<close>

definition expired_session :: "instant \<Rightarrow> session_row \<Rightarrow> bool" where
  "expired_session now s \<longleftrightarrow> sr_expires_at s < now \<or> sr_max_expires_at s < now"

definition delete_expired_sqlite :: "env \<Rightarrow> (sqlx_error, nat) action" where
  "delete_expired_sqlite E =
     bindE (utc_now E) (\<lambda>now. transaction E (\<lambda>e. e)
       (bindE (sql E (\<lambda>_ d. (rows_affected (expired_session now) (db_sessions d),
          d\<lparr>db_sessions := delete_where (expired_session now) (db_sessions d)\<rparr>))) (\<lambda>sessions.
        bindE (sql E (\<lambda>_ d. (rows_affected (\<lambda>s. os_expires_at s < now) (db_oauth_states d),
          d\<lparr>db_oauth_states := delete_where (\<lambda>s. os_expires_at s < now) (db_oauth_states d)\<rparr>))) (\<lambda>states.
        bindE (sql E (\<lambda>_ d. (rows_affected (\<lambda>s. ps_expires_at s < now) (db_pending_signups d),
          d\<lparr>db_pending_signups := delete_where (\<lambda>s. ps_expires_at s < now) (db_pending_signups d)\<rparr>))) (\<lambda>signups.
        ret (Commit (sessions + states + signups)))))))"

text \<open>Postgres deletes in one statement, under an advisory lock that another worker may hold.
  \<^verbatim>\<open>NOW()\<close> is the start of the transaction.\<close>

definition delete_expired_postgres :: "env \<Rightarrow> (sqlx_error, nat option) action" where
  "delete_expired_postgres E = (\<lambda>w. transaction E (\<lambda>e. e)
     (bindE (query_at E (\<lambda>n _. env_advisory_lock E n)) (\<lambda>locked.
      if \<not> locked then ret (Rollback None)
      else
        bindE (sql E (\<lambda>_ d.
          (let now = pg_now E (w_tick w)
           in (rows_affected (expired_session now) (db_sessions d) +
               rows_affected (\<lambda>s. os_expires_at s < now) (db_oauth_states d) +
               rows_affected (\<lambda>s. ps_expires_at s < now) (db_pending_signups d),
               d\<lparr>db_sessions := delete_where (expired_session now) (db_sessions d),
                 db_oauth_states := delete_where (\<lambda>s. os_expires_at s < now) (db_oauth_states d),
                 db_pending_signups := delete_where (\<lambda>s. ps_expires_at s < now) (db_pending_signups d)\<rparr>)))) (\<lambda>n.
        ret (Commit (Some n))))) w)"

section \<open>Tickets\<close>

locale ticket_store =
  fixes held :: "database \<Rightarrow> string \<Rightarrow> 't option"
    and valid :: "instant \<Rightarrow> 't \<Rightarrow> bool"
    and take_ticket :: "string \<Rightarrow> instant \<Rightarrow> (domain_error, 't option) action"
  assumes take_law:
    "schema_ok (w_db w) \<Longrightarrow> take_ticket k now w = (Inr r, w') \<Longrightarrow>
       schema_ok (w_db w') \<and>
       r = (case held (w_db w) k of None \<Rightarrow> None | Some t \<Rightarrow> if valid now t then Some t else None) \<and>
       (\<forall>k'. held (w_db w') k' = (if k' = k \<and> r \<noteq> None then None else held (w_db w) k'))"
begin

lemma taken_once:
  assumes "schema_ok (w_db w)" "take_ticket k now w = (Inr (Some t), w1)"
    and "schema_ok (w_db w2)" "held (w_db w2) k = held (w_db w1) k"
    and "take_ticket k now' w2 = (Inr r, w3)"
  shows "r = None"
  using take_law [OF assms(1,2)] take_law [OF assms(3,5)] assms(4) by simp

lemma others_kept:
  assumes "schema_ok (w_db w)" "take_ticket k now w = (Inr r, w')" "k' \<noteq> k"
  shows "held (w_db w') k' = held (w_db w) k'"
  using take_law [OF assms(1,2)] assms(3) by simp

end

definition state_held :: "database \<Rightarrow> string \<Rightarrow> oauth_state option" where
  "state_held d state = find (\<lambda>s. os_state s = state) (db_oauth_states d)"

lemma schema_ok_states: "schema_ok d \<Longrightarrow> distinct (map os_state (db_oauth_states d))"
  by (auto simp: schema_ok_iff oauth_violation_def split: if_splits)

lemma schema_ok_connections:
  assumes "schema_ok d"
  shows "distinct (map (\<lambda>c. (oc_provider c, oc_provider_user_id c)) (db_connections d))"
    "distinct (map (\<lambda>c. (oc_user_id c, oc_provider c)) (db_connections d))"
    "distinct (db_connections d)"
  using assms by (auto simp: distinct_map schema_ok_iff oauth_violation_def split: if_splits)

interpretation oauth_states: ticket_store state_held "\<lambda>now s. os_expires_at s > now" "oauth_take_state E" for E
proof unfold_locales
  fix w k now r w'
  assume ok: "schema_ok (w_db w)" and run: "oauth_take_state E k now w = (Inr r, w')"
  let ?P = "\<lambda>s. os_state s = k \<and> os_expires_at s > now"
  note d = schema_ok_states [OF ok]
  from run have r: "r = find ?P (db_oauth_states (w_db w))" and ok': "schema_ok (w_db w')"
    and w': "w_db w' = (w_db w)\<lparr>db_oauth_states := delete_where ?P (db_oauth_states (w_db w))\<rparr>"
    by (auto simp: oauth_take_state_def exec_simps Let_def)
  have r2: "r = (case state_held (w_db w) k of None \<Rightarrow> None
      | Some t \<Rightarrow> if os_expires_at t > now then Some t else None)"
    unfolding r state_held_def fetch_optional_filter [symmetric]
    by (simp add: filter_unique_key [OF d] filter_unique_key0 [OF d] split: option.split)
  have "state_held (w_db w') k' = (if k' = k \<and> r \<noteq> None then None else state_held (w_db w) k')" for k'
  proof (cases "state_held (w_db w) k'")
    case None
    then show ?thesis by (simp add: state_held_def w' find_key_delete_where [OF d])
  next
    case (Some t)
    then have "os_state t = k'" by (auto simp: state_held_def dest: find_key_Some)
    with Some r2 show ?thesis
      by (auto simp: state_held_def w' find_key_delete_where [OF d] split: option.splits if_splits)
  qed
  with r2 ok' show "schema_ok (w_db w') \<and>
       r = (case state_held (w_db w) k of None \<Rightarrow> None
         | Some t \<Rightarrow> if os_expires_at t > now then Some t else None) \<and>
       (\<forall>k'. state_held (w_db w') k' = (if k' = k \<and> r \<noteq> None then None else state_held (w_db w) k'))"
    by blast
qed

section \<open>Signups\<close>

lemma oauth_complete_signup_True:
  assumes "oauth_complete_signup E c w = (Inr True, w')"
  obtains pending row con where
    "find (pending_valid (co_token c) (co_now c)) (db_pending_signups (w_db w)) = Some pending"
    "db_users (w_db w') = db_users (w_db w) @ [row]"
    "db_connections (w_db w') = db_connections (w_db w) @ [con]"
    "db_pending_signups (w_db w') =
       delete_where (pending_valid (co_token c) (co_now c)) (db_pending_signups (w_db w))"
    "db_sessions (w_db w') = db_sessions (w_db w)"
    "ur_username row = co_username c" "ur_external_only row" "ur_deleted_at row = None"
    "oc_user_id con = ur_id row" "oc_provider con = ps_provider pending"
    "oc_provider_user_id con = ps_provider_user_id pending" "schema_ok (w_db w')"
proof -
  let ?P = "pending_valid (co_token c) (co_now c)"
  obtain pending where pending: "find ?P (db_pending_signups (w_db w)) = Some pending"
  proof (cases "find ?P (db_pending_signups (w_db w))")
    case None
    with assms show ?thesis by (clarsimp simp: oauth_complete_signup_def transaction_Inr_iff exec_simps)
  qed
  let ?t = "w_tick w"
  define row where "row = (new_user_row (env_uuid E (?t + 2)) (co_username c) (co_password_hash c)
    (env_now E (?t + 3)))\<lparr>ur_external_only := True, ur_id := db_users_seq (w_db w) + 1\<rparr>"
  define con where "con = \<lparr>oc_user_id = ur_id row, oc_provider = ps_provider pending,
    oc_provider_user_id = ps_provider_user_id pending, oc_email = ps_email pending,
    oc_created_at = env_now E (?t + 5)\<rparr>"
  define d where "d = (w_db w)\<lparr>db_pending_signups := delete_where ?P (db_pending_signups (w_db w)),
    db_users := db_users (w_db w) @ [row], db_users_seq := db_users_seq (w_db w) + 1,
    db_connections := db_connections (w_db w) @ [con]\<rparr>"
  from assms pending obtain w2 w3 x where
    pub: "whenE (co_publish_search c) (enqueue_user_upsert E (ur_pid row) (co_username c)
       (ur_created_at row) False [] (ur_search_revision row)) w2 = (Inr x, w3)" and
    w': "w' = ticked w3" and w2: "w_db w2 = d" and ok: "schema_ok d"
    by (clarsimp simp: oauth_complete_signup_def transaction_Inr_iff exec_simps insert_user_row_def
        Let_def row_def con_def d_def eval_nat_numeral simp del: whenE_Inr_iff)
  have frame: "no_outbox (w_db w') = no_outbox d"
    using same_run [OF same.steps_whenE [OF enqueue_frames(2)] pub [unfolded enqueue_user_upsert_def]]
    by (simp add: w' w2)
  have "schema_ok (w_db w3)"
    using inv_run [OF inv.steps_whenE [OF enqueue_schema(4)] pub] ok w2 by simp
  moreover have "ur_username row = co_username c" "ur_external_only row" "ur_deleted_at row = None"
    "oc_user_id con = ur_id row" "oc_provider con = ps_provider pending"
    "oc_provider_user_id con = ps_provider_user_id pending"
    by (simp_all add: row_def con_def new_user_row_def)
  moreover note tables = no_outbox_tables [OF frame]
  ultimately show ?thesis
    using pending by (intro that) (simp_all add: d_def w' tables [unfolded w', simplified])
qed

lemma signup_token_spent:
  assumes "oauth_complete_signup E c w = (Inr True, w1)"
    and "db_pending_signups (w_db w2) = db_pending_signups (w_db w1)"
    and "oauth_complete_signup E c' w2 = (Inr b, w3)" "co_token c' = co_token c" "co_now c \<le> co_now c'"
  shows "\<not> b"
proof
  assume b: "b"
  from assms(1) have "db_pending_signups (w_db w1) =
      delete_where (pending_valid (co_token c) (co_now c)) (db_pending_signups (w_db w))"
    by (rule oauth_complete_signup_True)
  moreover from assms(3) b obtain pending where
    "find (pending_valid (co_token c') (co_now c')) (db_pending_signups (w_db w2)) = Some pending"
    by (auto elim: oauth_complete_signup_True)
  ultimately show False
    using assms(2,4,5) by (auto simp: pending_valid_def dest!: find_Some_iff2)
qed

section \<open>Accounts without a password keep a way to sign in\<close>

definition external_ok :: "database \<Rightarrow> bool" where
  "external_ok d \<longleftrightarrow> schema_ok d \<and>
     (\<forall>u \<in> set (db_users d). ur_external_only u \<longrightarrow> (\<exists>c \<in> set (db_connections d). oc_user_id c = ur_id u))"

lemma unlinkable_leaves_one:
  assumes ok: "schema_ok d" and u: "u \<in> set (db_users d)" "ur_external_only u"
    and c: "c \<in> set (db_connections d)" "oc_user_id c = ur_id u"
  shows "\<exists>c' \<in> set (delete_where (unlinkable d n p) (db_connections d)). oc_user_id c' = ur_id u"
proof (cases "unlinkable d n p c")
  case False
  with c show ?thesis by auto
next
  case True
  then obtain v where v: "find (active n) (db_users d) = Some v" "oc_user_id c = ur_id v"
    "oc_provider c = p" "\<not> ur_external_only v \<or> length (connections_of d (ur_id v)) > 1"
    by (auto simp: unlinkable_def)
  then have "v = u" using user_by_id [OF ok] u c(2) by (auto dest: find_Some_iff2)
  with v u have two: "length (connections_of d (ur_id u)) > 1" by simp
  have "distinct (connections_of d (ur_id u))"
    using schema_ok_connections(3) [OF ok] by (simp add: connections_of_def)
  with two have "\<not> set (connections_of d (ur_id u)) \<subseteq> {c}"
    by (metis One_nat_def card.empty card_insert_disjoint card_mono distinct_card empty_iff
        finite.emptyI finite_insert not_le)
  then obtain c' where c': "c' \<in> set (db_connections d)" "oc_user_id c' = ur_id u" "c' \<noteq> c"
    by (auto simp: connections_of_def)
  have "(oc_user_id c', oc_provider c') \<noteq> (oc_user_id c, oc_provider c)"
    using schema_ok_connections(2) [OF ok] c(1) c' unfolding distinct_map inj_on_def by blast
  then have "\<not> unlinkable d n p c'" using c' c(2) v(3) by (auto simp: unlinkable_def)
  with c' show ?thesis by auto
qed

lemma unlink_external_ok: "steps (db_rel (db_inv external_ok)) (oauth_unlink_connection E n p)"
  unfolding oauth_unlink_connection_def
  by (intro inv_intros inv.steps_sql)
    (auto simp: db_inv_def external_ok_def simp del: set_delete_where intro: unlinkable_leaves_one)

lemma upsert_connection_owner:
  "c \<in> set (db_connections d) \<Longrightarrow> \<exists>c' \<in> set (db_connections (upsert_connection new d)). oc_user_id c' = oc_user_id c"
  "db_users (upsert_connection new d) = db_users d"
  by (auto simp: upsert_connection_def Let_def intro!: update_where_kept)

lemma link_external_ok: "steps (db_rel (db_inv external_ok)) (oauth_link_connection E n p i e)"
  unfolding oauth_link_connection_def
  by (intro inv_intros inv.steps_sql)
    (auto simp: db_inv_def external_ok_def upsert_connection_owner split: option.splits,
     metis upsert_connection_owner(1))

lemma complete_signup_external_ok:
  "steps (db_rel (db_inv external_ok)) (oauth_complete_signup E c)"
proof (rule stepsI)
  fix w
  obtain r w' where run: "oauth_complete_signup E c w = (r, w')" by fastforce
  have "external_ok (w_db w')" if ok: "external_ok (w_db w)"
  proof (cases "r = Inr True")
    case True
    with run obtain row con where
      "db_users (w_db w') = db_users (w_db w) @ [row]"
      "db_connections (w_db w') = db_connections (w_db w) @ [con]" "oc_user_id con = ur_id row"
      "schema_ok (w_db w')" by (auto elim: oauth_complete_signup_True)
    with ok show ?thesis by (auto simp: external_ok_def)
  next
    case False
    have "w_db w' = w_db w"
      using run False
      by (cases r) (auto simp: oauth_complete_signup_def transaction_Inr_iff exec_simps
          dest: transaction_atomic split: option.splits)
    with ok show ?thesis by simp
  qed
  with run show "db_rel (db_inv external_ok) w (snd (oauth_complete_signup E c w))"
    by (simp add: db_rel_def db_inv_def)
qed

end
