(* ===== verification/OAuth_Service.thy ===== *)
theory OAuth_Service
  imports Auth_Service OAuth_Repository
begin

text \<open>
  The OAuth service (\<^verbatim>\<open>application/src/identity/oauth/service.rs\<close>): authorization URLs, the
  provider callback, signup completion and the management of connections. The exchange of the
  code with the provider is the parameter \<open>env_oauth_fetch_user\<close>.
\<close>

record oauth_provider_settings =
  pv_enabled :: bool
  pv_client_id :: string
  pv_client_secret :: string
  pv_redirect_uri :: string
  pv_authorization_url :: string
  pv_token_url :: string
  pv_userinfo_url :: string
  pv_scopes :: "string list"

record oauth_settings =
  oset_enabled :: bool
  oset_state_ttl :: duration
  oset_google :: oauth_provider_settings
  oset_github :: oauth_provider_settings

record oauth_service =
  oa_tokens :: jwt_token_service
  oa_settings :: oauth_settings
  oa_session_ttl :: duration
  oa_publish_search :: bool

record oauth_callback_dto =
  ocb_linked :: bool
  ocb_login :: "login_result option"
  ocb_signup_token :: "string option"
  ocb_suggested_username :: "string option"

definition OAUTH_SIGNUP_EXPIRATION_MINUTES :: int where "OAUTH_SIGNUP_EXPIRATION_MINUTES = 10"

section \<open>Helpers\<close>

definition enabled_providers :: "oauth_service \<Rightarrow> string list" where
  "enabled_providers S =
     (if \<not> oset_enabled (oa_settings S) then []
      else map fst (filter (\<lambda>(_, p). pv_enabled p)
        [(''google'', oset_google (oa_settings S)), (''github'', oset_github (oa_settings S))]))"

definition suggested_username :: "string \<Rightarrow> string option" where
  "suggested_username email =
     (case split_once CHR ''@'' email of
        None \<Rightarrow> None
      | Some (name, _) \<Rightarrow>
          (let name = trim name
           in if name = [] then None else Some (concat (take MAX_USERNAME_LEN (utf8_chars name)))))"

definition unsupported_provider :: application_error where
  "unsupported_provider = Coded KindValidation ''oauth:unsupported_provider'' ''Unsupported OAuth provider''"

definition normalize_provider :: "string \<Rightarrow> application_error + string" where
  "normalize_provider provider =
     (let provider = to_ascii_lowercase (trim provider)
      in if provider = ''google'' \<or> provider = ''github'' then Inr provider else Inl unsupported_provider)"

definition provider_settings :: "oauth_service \<Rightarrow> string \<Rightarrow> application_error + oauth_provider_settings" where
  "provider_settings S provider =
     (if \<not> oset_enabled (oa_settings S)
      then Inl (Coded KindForbidden ''oauth:disabled'' ''OAuth is disabled'')
      else
        (let settings = (if provider = ''google'' then Some (oset_google (oa_settings S))
                         else if provider = ''github'' then Some (oset_github (oa_settings S)) else None)
         in case settings of
              None \<Rightarrow> Inl unsupported_provider
            | Some p \<Rightarrow>
                (if \<not> pv_enabled p
                 then Inl (Coded KindForbidden ''oauth:provider_disabled'' ''OAuth provider is disabled'')
                 else if pv_client_id p = [] \<or> pv_client_secret p = [] \<or> pv_redirect_uri p = [] \<or>
                         pv_authorization_url p = [] \<or> pv_token_url p = [] \<or> pv_userinfo_url p = []
                 then Inl (Coded KindInfrastructure ''oauth:provider_misconfigured''
                        ''OAuth provider is misconfigured'')
                 else Inr p)))"

definition build_authorization_url :: "env \<Rightarrow> oauth_provider_settings \<Rightarrow> string \<Rightarrow> string" where
  "build_authorization_url E p state =
     (let params =
            [(''response_type'', ''code''), (''client_id'', pv_client_id p),
             (''redirect_uri'', pv_redirect_uri p), (''state'', state)] @
            (if pv_scopes p \<noteq> [] then [(''scope'', join '' '' (pv_scopes p))] else [])
      in pv_authorization_url p @ ''?'' @
         join ''&'' (map (\<lambda>(key, v). key @ ''='' @ env_urlencode E v) params))"

definition oauth_audit ::
    "env \<Rightarrow> string \<Rightarrow> string \<Rightarrow> string option \<Rightarrow> (string \<times> json_value) list \<Rightarrow> (application_error, unit) action" where
  "oauth_audit E actor action_name provider details =
     ignore_err (audit_record E
       \<lparr>ae_actor = actor, ae_action = action_name, ae_entity_type = ''identity.oauth_connection'',
        ae_entity_id = provider, ae_details = details\<rparr>)"

section \<open>Operations\<close>

definition create_authorize_url ::
    "env \<Rightarrow> oauth_service \<Rightarrow> string \<Rightarrow> oauth_flow \<Rightarrow> string option
      \<Rightarrow> (application_error, string \<times> string) action" where
  "create_authorize_url E S input_provider flow username =
     bindE (of_result (normalize_provider input_provider)) (\<lambda>provider.
     bindE (of_result (provider_settings S provider)) (\<lambda>settings.
     bindE (utc_now E) (\<lambda>now. bindE (new_uuid E) (\<lambda>state. bindE (new_uuid E) (\<lambda>csrf.
     seqE (of_domain (oauth_insert_state E
        \<lparr>os_state = state, os_provider = provider, os_csrf_token = csrf, os_flow = flow,
         os_username = username, os_created_at = now,
         os_expires_at = now + oset_state_ttl (oa_settings S)\<rparr>))
     (seqE (oauth_audit E (case username of Some u \<Rightarrow> u | None \<Rightarrow> ''anonymous'')
        ''oauth.authorization.started'' (Some provider) [(''flow'', JsonString (flow_as_str flow))])
       (ret (build_authorization_url E settings state, state))))))))"

definition authorize_url ::
    "env \<Rightarrow> oauth_service \<Rightarrow> string \<Rightarrow> (application_error, string \<times> string) action" where
  "authorize_url E S provider = create_authorize_url E S provider Login None"

definition link_authorize_url ::
    "env \<Rightarrow> oauth_service \<Rightarrow> string \<Rightarrow> string \<Rightarrow> (application_error, string \<times> string) action" where
  "link_authorize_url E S actor_token provider =
     bindE (provider_current_user E (oa_tokens S) actor_token) (\<lambda>user.
       create_authorize_url E S provider Link (Some (cu_username user)))"

definition oauth_create_session ::
    "env \<Rightarrow> oauth_service \<Rightarrow> string \<Rightarrow> (application_error, login_result) action" where
  "oauth_create_session E S username =
     bindE (create_token E (oa_tokens S) username) (\<lambda>token.
     bindE (token_expiry E (oa_tokens S)) (\<lambda>max_expires_at.
     bindE (utc_now E) (\<lambda>now.
     seqE (of_domain (sqlite_sessions_insert E token username
             (min (now + oa_session_ttl S) max_expires_at) max_expires_at))
       (ret (authenticated token)))))"

definition fetch_external_user ::
    "env \<Rightarrow> string \<Rightarrow> string \<Rightarrow> (application_error, external_oauth_user) action" where
  "fetch_external_user E provider code =
     (\<lambda>w. (env_oauth_fetch_user E (w_tick w) provider code, ticked w))"

definition no_callback :: oauth_callback_dto where
  "no_callback = \<lparr>ocb_linked = False, ocb_login = None, ocb_signup_token = None, ocb_suggested_username = None\<rparr>"

text \<open>The three outcomes after the provider has identified the external account.\<close>

definition callback_link ::
    "env \<Rightarrow> string option \<Rightarrow> string \<Rightarrow> external_oauth_user \<Rightarrow> (application_error, oauth_callback_dto) action" where
  "callback_link E owner provider external =
     bindE (ok_or owner Unauthorized) (\<lambda>username.
     seqE (of_domain (oauth_link_connection E username provider (ex_provider_user_id external) (ex_email external)))
     (seqE (oauth_audit E username ''oauth.connection.linked'' (Some provider) [])
       (ret (no_callback\<lparr>ocb_linked := True\<rparr>))))"

definition callback_signup ::
    "env \<Rightarrow> string \<Rightarrow> external_oauth_user \<Rightarrow> (application_error, oauth_callback_dto) action" where
  "callback_signup E provider external =
     bindE (utc_now E) (\<lambda>now. bindE (new_uuid E) (\<lambda>signup_token.
     seqE (of_domain (oauth_insert_pending_signup E
        \<lparr>ps_token = signup_token, ps_provider = provider,
         ps_provider_user_id = ex_provider_user_id external, ps_email = ex_email external,
         ps_created_at = now, ps_expires_at = now + minutes OAUTH_SIGNUP_EXPIRATION_MINUTES\<rparr>))
     (seqE (oauth_audit E ''anonymous'' ''oauth.signup.pending'' (Some provider) [])
       (ret (no_callback\<lparr>ocb_signup_token := Some signup_token,
              ocb_suggested_username := suggested_username (ex_email external)\<rparr>)))))"

definition callback_login ::
    "env \<Rightarrow> oauth_service \<Rightarrow> string \<Rightarrow> string \<Rightarrow> (application_error, oauth_callback_dto) action" where
  "callback_login E S provider username =
     bindE (of_domain (totp_credential_by_username E username)) (\<lambda>credential.
     if Option.bind credential tf_enabled_at \<noteq> None
     then
       bindE (new_uuid E) (\<lambda>totp_token. bindE (utc_now E) (\<lambda>now.
       bindE (of_domain (totp_set_login_token E username totp_token
          (now + minutes TOTP_LOGIN_EXPIRATION_MINUTES))) (\<lambda>set.
       seqE (ensure set Unauthorized)
       (seqE (oauth_audit E username ''oauth.login.totp_required'' (Some provider) [])
         (ret (no_callback\<lparr>ocb_login := Some (totp_required totp_token)\<rparr>))))))
     else
       bindE (oauth_create_session E S username) (\<lambda>login.
       seqE (oauth_audit E username ''oauth.login.succeeded'' (Some provider) [])
         (ret (no_callback\<lparr>ocb_login := Some login\<rparr>))))"

definition oauth_callback ::
    "env \<Rightarrow> oauth_service \<Rightarrow> string \<Rightarrow> string \<Rightarrow> string \<Rightarrow> (application_error, oauth_callback_dto) action" where
  "oauth_callback E S input_provider code state =
     bindE (of_result (normalize_provider input_provider)) (\<lambda>provider.
     bindE (of_result (provider_settings S provider)) (\<lambda>settings.
     seqE (ensure (\<not> (trim code = [] \<or> trim state = []))
       (Coded KindValidation ''oauth:invalid_callback'' ''Invalid OAuth callback''))
     (bindE (utc_now E) (\<lambda>now.
      bindE (of_domain (oauth_take_state E state now)) (\<lambda>taken.
      bindE (ok_or taken (Coded KindUnauthorized ''oauth:invalid_state'' ''OAuth state is invalid or expired'')) (\<lambda>stored.
      seqE (ensure (os_provider stored = provider)
        (Coded KindUnauthorized ''oauth:provider_mismatch'' ''OAuth provider does not match state''))
      (bindE (attempt (fetch_external_user E provider code)) (\<lambda>fetched.
       case fetched of
         Inl e \<Rightarrow>
           seqE (oauth_audit E (case os_username stored of Some u \<Rightarrow> u | None \<Rightarrow> ''anonymous'')
              ''oauth.provider_exchange.failed'' (Some provider)
              [(''flow'', JsonString (flow_as_str (os_flow stored))), (''error_code'', JsonString (error_code e))])
             (throw e)
       | Inr external \<Rightarrow>
           (if os_flow stored = Link then callback_link E (os_username stored) provider external
            else
              bindE (of_domain (oauth_username_for_connection E provider (ex_provider_user_id external))) (\<lambda>known.
              case known of
                None \<Rightarrow> callback_signup E provider external
              | Some username \<Rightarrow> callback_login E S provider username))))))))))"

definition oauth_finish_signup ::
    "env \<Rightarrow> oauth_service \<Rightarrow> string \<Rightarrow> string \<Rightarrow> (application_error, login_result) action" where
  "oauth_finish_signup E S signup_token input_username =
     seqE (of_result (required_username input_username))
     (seqE (ensure (trim signup_token \<noteq> []) Unauthorized)
     (let username = trim input_username
      in bindE (new_uuid E) (\<lambda>random.
         bindE (hash_password E random) (\<lambda>password_hash.
         bindE (utc_now E) (\<lambda>now.
         bindE (oauth_complete_signup E
            \<lparr>co_token = signup_token, co_now = now, co_username = username,
             co_password_hash = password_hash, co_publish_search = oa_publish_search S\<rparr>) (\<lambda>completed.
         seqE (ensure completed
            (Coded KindUnauthorized ''oauth:signup_expired'' ''OAuth signup is invalid or expired''))
         (bindE (oauth_create_session E S username) (\<lambda>login.
          seqE (oauth_audit E username ''oauth.signup.completed'' None []) (ret login)))))))))"

definition oauth_connections ::
    "env \<Rightarrow> oauth_service \<Rightarrow> string \<Rightarrow> (application_error, (string \<times> string \<times> instant) list) action" where
  "oauth_connections E S actor_token =
     bindE (provider_current_user E (oa_tokens S) actor_token) (\<lambda>user.
     mapE (map (\<lambda>c. (oc_provider c, oc_email c, oc_created_at c)))
       (of_domain (oauth_list_connections E (cu_username user))))"

definition oauth_unlink ::
    "env \<Rightarrow> oauth_service \<Rightarrow> string \<Rightarrow> string \<Rightarrow> (application_error, unit) action" where
  "oauth_unlink E S actor_token input_provider =
     bindE (of_result (normalize_provider input_provider)) (\<lambda>provider.
     bindE (provider_current_user E (oa_tokens S) actor_token) (\<lambda>user.
     bindE (of_domain (oauth_unlink_connection E (cu_username user) provider)) (\<lambda>outcome.
     (let result = (case outcome of
          Unlinked \<Rightarrow> Inr ()
        | LastConnection \<Rightarrow> Inl (Coded KindConflict ''oauth:last_connection_required''
            ''The last sign-in connection cannot be removed'')
        | ConnectionNotFound \<Rightarrow> Inl (Coded KindNotFound ''oauth:connection_not_found''
            ''OAuth connection not found''))
      in seqE (oauth_audit E (cu_username user)
           (case result of Inr _ \<Rightarrow> ''oauth.connection.unlinked'' | Inl _ \<Rightarrow> ''oauth.connection.unlink_rejected'')
           (Some provider) [])
         (of_result result)))))"

end
