(* ===== verification/Durable_Jobs.thy ===== *)
theory Durable_Jobs
  imports Managed_User_Writer
begin

text \<open>
  The SQLite outbox worker (\<^verbatim>\<open>crates/background_jobs/src/sqlx/sqlite.rs\<close>) and the handler registry
  (\<^verbatim>\<open>crates/background_jobs/src/lib.rs\<close>). A handler has a name and a body; what a body does with a
  payload is the parameter \<open>env_handle_job\<close>, and the world records which message was handed to
  the handler of which name. Errors are strings, as in the code.
\<close>

section \<open>Queue\<close>

record durable_job_options =
  jo_idempotency_key :: "string option"
  jo_max_attempts :: "32 word"

definition outbox_existing :: "outbox_row \<Rightarrow> database \<Rightarrow> outbox_row option" where
  "outbox_existing m d =
     (if outbox_key m = None then None else find (\<lambda>r. outbox_key r = outbox_key m) (db_outbox d))"

definition job_enqueue ::
    "env \<Rightarrow> string \<Rightarrow> job_payload \<Rightarrow> durable_job_options \<Rightarrow> (string, uuid) action" where
  "job_enqueue E name payload options =
     bindE (new_uuid E) (\<lambda>message_id. bindE (utc_now E) (\<lambda>now.
     (let max_attempts = uint (max (jo_max_attempts options) 1)
      in seqE (ensure (max_attempts < 2 ^ 31) ''durable job max_attempts is too large'')
         (map_err (env_error_text E) (sql E (\<lambda>_ d.
            (let m = \<lparr>ob_id = message_id, ob_name = name, ob_payload = payload,
                      ob_idempotency_key = jo_idempotency_key options, ob_attempts = 0,
                      ob_max_attempts = max_attempts, ob_available_at = now, ob_locked_at = None,
                      ob_lock_owner = None, ob_processed_at = None, ob_last_error = None,
                      ob_created_at = now\<rparr>
             in (case outbox_existing m d of Some r \<Rightarrow> ob_id r | None \<Rightarrow> message_id,
                 outbox_insert m d))))))))"

section \<open>Registry\<close>

record job_handler =
  jh_name :: string
  jh_body :: string

text \<open>The handlers of the map, one for each name. A second registration of a name is an error that has replaced the
  handler already.\<close>

type_synonym job_registry = "job_handler list"

definition get_handler :: "job_registry \<Rightarrow> string \<Rightarrow> job_handler option" where
  "get_handler registry name = find (\<lambda>h. jh_name h = name) registry"

definition register_handler :: "job_handler \<Rightarrow> job_registry \<Rightarrow> (string + unit) \<times> job_registry" where
  "register_handler handler registry =
     (let name = jh_name handler
      in (if get_handler registry name \<noteq> None then Inl (''durable job handler `'' @ name @ ''` is already registered'')
          else Inr (),
          filter (\<lambda>h. jh_name h \<noteq> name) registry @ [handler]))"

lemma get_handler_name: "get_handler registry name = Some h \<Longrightarrow> jh_name h = name"
  by (auto simp: get_handler_def find_Some_iff)

text \<open>After a registration, successful or not, the name leads to the new handler.\<close>

lemma get_registered:
  "register_handler handler registry = (r, registry') \<Longrightarrow>
     get_handler registry' name = (if name = jh_name handler then Some handler else get_handler registry name)"
proof -
  have "find (\<lambda>h. jh_name h = name) (filter (\<lambda>h. jh_name h \<noteq> jh_name handler) registry @ [handler]) =
    (if name = jh_name handler then Some handler else find (\<lambda>h. jh_name h = name) registry)"
    by (induction registry) auto
  then show "register_handler handler registry = (r, registry') \<Longrightarrow> ?thesis"
    by (auto simp: register_handler_def get_handler_def Let_def)
qed

section \<open>Worker\<close>

record job_worker =
  jw_registry :: job_registry
  jw_batch_size :: "32 word"
  jw_lock_timeout_seconds :: "64 word"
  jw_worker_id :: string

definition claimable :: "instant \<Rightarrow> instant \<Rightarrow> outbox_row \<Rightarrow> bool" where
  "claimable now stale_before m \<longleftrightarrow>
     ob_processed_at m = None \<and> ob_available_at m \<le> now \<and> ob_attempts m < ob_max_attempts m \<and>
     (case ob_locked_at m of None \<Rightarrow> True | Some t \<Rightarrow> t < stale_before)"

definition claim_ids :: "env \<Rightarrow> nat \<Rightarrow> instant \<Rightarrow> instant \<Rightarrow> nat \<Rightarrow> database \<Rightarrow> uuid list" where
  "claim_ids E n now stale_before limit d =
     map ob_id (take limit (sort_key ob_available_at (sort_key ob_created_at
       (row_order E n (filter (claimable now stale_before) (db_outbox d))))))"

definition claimed :: "instant \<Rightarrow> string \<Rightarrow> outbox_row \<Rightarrow> outbox_row" where
  "claimed now worker m =
     m\<lparr>ob_locked_at := Some now, ob_lock_owner := Some worker, ob_attempts := ob_attempts m + 1\<rparr>"

text \<open>\<^verbatim>\<open>i64::try_from(..).unwrap_or(i64::MAX)\<close> on the timeout.\<close>

definition lock_timeout :: "job_worker \<Rightarrow> duration" where
  "lock_timeout W = seconds (min (uint (jw_lock_timeout_seconds W)) (2 ^ 63 - 1))"

text \<open>\<^verbatim>\<open>chrono\<close> panics for durations beyond \<^verbatim>\<open>i64::MAX\<close> milliseconds and for dates before its first one. Such a panic
  ends the run before it reads the tables; it is an error here.\<close>

definition DATE_TIME_MIN :: instant where "DATE_TIME_MIN = seconds (- 8334601228800)"

definition timeout_representable :: "job_worker \<Rightarrow> instant \<Rightarrow> bool" where
  "timeout_representable W now \<longleftrightarrow>
     lock_timeout W \<le> seconds ((2 ^ 63 - 1) div 1000) \<and> DATE_TIME_MIN \<le> now - lock_timeout W"

definition job_claim :: "env \<Rightarrow> job_worker \<Rightarrow> (string, outbox_row list) action" where
  "job_claim E W =
     bindE (utc_now E) (\<lambda>now.
     (let stale_before = now - lock_timeout W
      in seqE (ensure (timeout_representable W now) ''panic'') (map_err (env_error_text E) (sql E (\<lambda>n d.
           (let ids = claim_ids E n now stale_before (unat (jw_batch_size W)) d;
                P = (\<lambda>m. ob_id m \<in> set ids)
            in (map (claimed now (jw_worker_id W)) (filter P (db_outbox d)),
                d\<lparr>db_outbox := update_where P (claimed now (jw_worker_id W)) (db_outbox d)\<rparr>)))))))"

definition mark_completed :: "env \<Rightarrow> uuid \<Rightarrow> string \<Rightarrow> (string, unit) action" where
  "mark_completed E message_id consumer = transaction E (env_error_text E)
     (bindE (utc_now E) (\<lambda>now.
      seqE (map_err (env_error_text E) (sql E (\<lambda>_ d.
        ((), if \<exists>i \<in> set (db_inbox d). ib_consumer i = consumer \<and> ib_message_id i = message_id then d
             else d\<lparr>db_inbox := db_inbox d @ [\<lparr>ib_consumer = consumer, ib_message_id = message_id,
                     ib_processed_at = now\<rparr>]\<rparr>))))
      (bindE (utc_now E) (\<lambda>now2.
       seqE (map_err (env_error_text E) (sql E (\<lambda>_ d.
         ((), d\<lparr>db_outbox := update_where (\<lambda>m. ob_id m = message_id)
            (\<lambda>m. m\<lparr>ob_processed_at := Some now2, ob_locked_at := None, ob_lock_owner := None,
                   ob_last_error := None\<rparr>) (db_outbox d)\<rparr>))))
         (ret (Commit ()))))))"

definition retry_delay :: "int \<Rightarrow> int" where
  "retry_delay attempts = min (2 ^ nat (max 1 (min attempts 8))) 300"

definition mark_failed :: "env \<Rightarrow> outbox_row \<Rightarrow> string \<Rightarrow> (string, unit) action" where
  "mark_failed E message err =
     bindE (utc_now E) (\<lambda>now.
       map_err (env_error_text E) (sql E (\<lambda>_ d.
         ((), d\<lparr>db_outbox := update_where (\<lambda>m. ob_id m = ob_id message)
            (\<lambda>m. m\<lparr>ob_locked_at := None, ob_lock_owner := None, ob_last_error := Some err,
                   ob_available_at := now + seconds (retry_delay (ob_attempts message))\<rparr>)
            (db_outbox d)\<rparr>))))"

definition run_handler :: "env \<Rightarrow> uuid \<Rightarrow> job_handler \<Rightarrow> job_payload \<Rightarrow> (string, unit) action" where
  "run_handler E message_id handler payload = (\<lambda>w.
     let w' = (ticked w)\<lparr>w_handled := w_handled w @ [(message_id, jh_name handler)]\<rparr>
     in case env_handle_job E (w_tick w) (jh_body handler) payload of
          None \<Rightarrow> (Inr (), w')
        | Some err \<Rightarrow> (Inl err, w'))"

definition job_process :: "env \<Rightarrow> job_worker \<Rightarrow> outbox_row \<Rightarrow> (string, unit) action" where
  "job_process E W message =
     (case get_handler (jw_registry W) (ob_name message) of
        None \<Rightarrow> mark_failed E message (''no handler registered for `'' @ ob_name message @ ''`'')
      | Some handler \<Rightarrow>
          bindE (map_err (env_error_text E) (query E (\<lambda>d.
            \<exists>i \<in> set (db_inbox d). ib_consumer i = jh_name handler \<and> ib_message_id i = ob_id message))) (\<lambda>duplicate.
          if duplicate then mark_completed E (ob_id message) (jh_name handler)
          else
            bindE (attempt (run_handler E (ob_id message) handler (ob_payload message))) (\<lambda>outcome.
            case outcome of
              Inr _ \<Rightarrow> mark_completed E (ob_id message) (jh_name handler)
            | Inl err \<Rightarrow> mark_failed E message err)))"

definition run_once :: "env \<Rightarrow> job_worker \<Rightarrow> (string, nat) action" where
  "run_once E W =
     bindE (job_claim E W) (\<lambda>messages.
       seqE (for_each (job_process E W) messages) (ret (length messages)))"

end
