(* ===== verification/Identity_Invariants.thy ===== *)
theory Identity_Invariants
  imports User_Service OAuth_Service Durable_Jobs
begin

text \<open>
  What every operation of the module keeps, whatever it returns. The relation \<open>identity_step\<close>
  collects five such facts, the proofs go by the calculus of the prelude, one lemma per
  repository operation and one per service operation.
\<close>

section \<open>The relation\<close>

definition sessions_capped :: "database \<Rightarrow> bool" where
  "sessions_capped d \<longleftrightarrow> (\<forall>s \<in> set (db_sessions d). sr_expires_at s \<le> sr_max_expires_at s)"

definition outbox_bounded :: "database \<Rightarrow> bool" where
  "outbox_bounded d \<longleftrightarrow>
     (\<forall>m \<in> set (db_outbox d). 0 \<le> ob_attempts m \<and> ob_attempts m \<le> ob_max_attempts m)"

definition identity_step :: "database \<Rightarrow> database \<Rightarrow> bool" where
  "identity_step d d' \<longleftrightarrow> users_kept d d' \<and> db_inv external_ok d d' \<and> db_inv totp_ok d d' \<and>
     db_inv sessions_capped d d' \<and> db_inv outbox_bounded d d'"

interpretation ident: db_relation identity_step
proof unfold_locales
  show "identity_step d d" for d
    unfolding identity_step_def by (simp add: kept.db_refl inv.db_refl)
  show "identity_step a c" if "identity_step a b" "identity_step b c" for a b c
    using that unfolding identity_step_def by (meson kept.db_trans inv.db_trans)
qed

lemma steps_conj:
  "steps (db_rel R) m \<Longrightarrow> steps (db_rel Q) m \<Longrightarrow> steps (db_rel (\<lambda>d d'. R d d' \<and> Q d d')) m"
  by (simp add: steps_def db_rel_def)

text \<open>The tables the relation looks at.\<close>

lemma step_same:
  "schema_ok d' \<Longrightarrow> db_users d' = db_users d \<Longrightarrow> db_connections d' = db_connections d \<Longrightarrow>
   db_sessions d' = db_sessions d \<Longrightarrow> db_outbox d' = db_outbox d \<Longrightarrow> identity_step d d'"
  by (simp add: identity_step_def users_kept_def db_inv_def external_ok_def totp_ok_def
      sessions_capped_def outbox_bounded_def) blast

lemma step_sessions:
  "schema_ok d' \<Longrightarrow> db_users d' = db_users d \<Longrightarrow> db_connections d' = db_connections d \<Longrightarrow>
   (sessions_capped d \<Longrightarrow> sessions_capped d') \<Longrightarrow> db_outbox d' = db_outbox d \<Longrightarrow> identity_step d d'"
  by (simp add: identity_step_def users_kept_def db_inv_def external_ok_def totp_ok_def
      outbox_bounded_def) blast

lemma step_outbox:
  "schema_ok d' \<Longrightarrow> db_users d' = db_users d \<Longrightarrow> db_connections d' = db_connections d \<Longrightarrow>
   db_sessions d' = db_sessions d \<Longrightarrow> (outbox_bounded d \<Longrightarrow> outbox_bounded d') \<Longrightarrow> identity_step d d'"
  by (simp add: identity_step_def users_kept_def db_inv_def external_ok_def totp_ok_def
      sessions_capped_def) blast

definition row_kept :: "user_row \<Rightarrow> user_row \<Rightarrow> bool" where
  "row_kept u v \<longleftrightarrow> ur_id v = ur_id u \<and> ur_pid v = ur_pid u \<and> ur_search_revision u \<le> ur_search_revision v \<and>
     (ur_external_only v \<longrightarrow> ur_external_only u) \<and> (totp_consistent u \<longrightarrow> totp_consistent v)"

lemma step_users:
  assumes "schema_ok (d\<lparr>db_users := update_where P g (db_users d)\<rparr>)" "\<And>u. P u \<Longrightarrow> row_kept u (g u)"
  shows "identity_step d (d\<lparr>db_users := update_where P g (db_users d)\<rparr>)"
proof -
  let ?h = "\<lambda>u. if P u then g u else u"
  have h: "row_kept u (?h u)" for u using assms(2) by (simp add: row_kept_def)
  have "users_kept d (d\<lparr>db_users := update_where P g (db_users d)\<rparr>)"
    unfolding users_kept_def
  proof
    fix u
    assume "u \<in> set (db_users d)"
    then have "?h u \<in> set (update_where P g (db_users d))" by (simp add: update_where_def)
    with h [of u] show "\<exists>u' \<in> set (db_users (d\<lparr>db_users := update_where P g (db_users d)\<rparr>)).
        ur_id u' = ur_id u \<and> ur_pid u' = ur_pid u \<and> ur_search_revision u \<le> ur_search_revision u'"
      unfolding row_kept_def by (intro bexI [of _ "?h u"]) simp_all
  qed
  moreover have row: "\<exists>u \<in> set (db_users d). row_kept u v"
    if "v \<in> set (update_where P g (db_users d))" for v
    using that h by (auto simp only: set_update_where)
  have "db_inv external_ok d (d\<lparr>db_users := update_where P g (db_users d)\<rparr>)"
    using assms(1) row by (simp add: db_inv_def external_ok_def row_kept_def) metis
  moreover have "db_inv totp_ok d (d\<lparr>db_users := update_where P g (db_users d)\<rparr>)"
    using row by (auto simp: db_inv_def totp_ok_def row_kept_def)
  ultimately show ?thesis
    by (simp add: identity_step_def db_inv_def sessions_capped_def outbox_bounded_def)
qed

lemma step_insert_row:
  "schema_ok (snd (insert_user_row row d)) \<Longrightarrow> \<not> ur_external_only row \<Longrightarrow> totp_consistent row \<Longrightarrow>
   identity_step d (snd (insert_user_row row d))"
  unfolding identity_step_def using kept_insert_row [of d row]
  by (auto simp: db_inv_def insert_user_row_def Let_def external_ok_def totp_ok_def totp_consistent_def
      sessions_capped_def outbox_bounded_def)

lemma new_row_fields [simp]:
  "\<not> ur_external_only (new_user_row p n h t)" "totp_consistent (new_user_row p n h t)"
  by (simp_all add: new_user_row_def totp_consistent_def)

lemma step_insert_or_nothing:
  assumes "schema_ok (snd (insert_user_or_nothing row d))" "\<not> ur_external_only row" "totp_consistent row"
  shows "identity_step d (snd (insert_user_or_nothing row d))"
  using assms step_insert_row [of row d]
  by (auto simp: insert_user_or_nothing_def ident.db_refl split: option.splits prod.splits)

lemma step_insert_or_revive:
  assumes "schema_ok (snd (insert_user_or_revive row g d))" "\<not> ur_external_only row" "totp_consistent row"
    "\<And>u. row_kept u (g u)"
  shows "identity_step d (snd (insert_user_or_revive row g d))"
  using assms step_insert_row [of row d]
  by (auto simp: insert_user_or_revive_def ident.db_refl step_users split: option.splits prod.splits if_splits)

lemma ident_update_users:
  "(\<And>u. P u \<Longrightarrow> row_kept u (g u)) \<Longrightarrow> steps (db_rel identity_step) (update_users E P g)"
  "(\<And>u. P u \<Longrightarrow> row_kept u (g u)) \<Longrightarrow> steps (db_rel identity_step) (update_users_returning E P g)"
  unfolding update_users_def update_users_returning_def
  by (rule ident.steps_sql; simp add: step_users)+

lemmas ident_intros =
  ident.steps_combinators ident.steps_utc_now ident.steps_new_uuid ident.steps_query
  ident.steps_query_at ident.steps_transaction ident_update_users

lemma fixes_db_step: "steps (fixing w_db) m \<Longrightarrow> steps (db_rel identity_step) m"
  by (simp add: steps_def fixing_def db_rel_def ident.db_refl)

section \<open>Repositories\<close>

lemma capped_subset:
  "set (db_sessions d') \<subseteq> set (db_sessions d) \<Longrightarrow> sessions_capped d \<Longrightarrow> sessions_capped d'"
  by (auto simp: sessions_capped_def)

lemma ident_sessions:
  "steps (db_rel identity_step) (sqlite_sessions_find_by_token E t)"
  "steps (db_rel identity_step) (sqlite_sessions_exists E t)"
  "e \<le> m \<Longrightarrow> steps (db_rel identity_step) (sqlite_sessions_insert E t n e m)"
  "e \<le> m \<Longrightarrow> steps (db_rel identity_step) (sqlite_sessions_update_token E t t' e m)"
  "steps (db_rel identity_step) (sqlite_sessions_refresh E t e)"
  "steps (db_rel identity_step) (sqlite_sessions_delete E t)"
  "steps (db_rel identity_step) (sqlite_sessions_list_for_user E n)"
  "steps (db_rel identity_step) (sqlite_sessions_delete_for_user E n p)"
  unfolding sqlite_sessions_find_by_token_def sqlite_sessions_exists_def sqlite_sessions_insert_def
    sqlite_sessions_update_token_def sqlite_sessions_refresh_def sqlite_sessions_delete_def
    sqlite_sessions_list_for_user_def sqlite_sessions_delete_for_user_def
  by (intro ident_intros ident.steps_sql; (rule step_sessions)?;
      (auto simp: Let_def sessions_capped_def set_update_where)?)+

lemma ident_users:
  "steps (db_rel identity_step) (users_id_by_username E n)"
  "steps (db_rel identity_step) (users_find_by_username E n)"
  "steps (db_rel identity_step) (users_exists E n)"
  "steps (db_rel identity_step) (users_list E p s q o')"
  "steps (db_rel identity_step) (users_find_by_pids E ps)"
  "steps (db_rel identity_step) (find_by_token_column E c t)"
  "steps (db_rel identity_step) (users_user_roles E n)"
  "steps (db_rel identity_step) (update_token_fields E c n t i)"
  "steps (db_rel identity_step) (users_mark_email_verified E n i)"
  "steps (db_rel identity_step) (users_reset_password E n h)"
  "steps (db_rel identity_step) (users_clear_magic_link E n)"
  unfolding users_id_by_username_def users_find_by_username_def users_exists_def users_list_def
    users_find_by_pids_def find_by_token_column_def users_user_roles_def update_token_fields_def
    users_mark_email_verified_def users_reset_password_def users_clear_magic_link_def Let_def
  by (intro ident_intros ident.steps_sql; (cases c)?;
      (simp add: row_kept_def totp_consistent_def)?)+

lemma row_kept_revived: "row_kept u (revived h u)" "row_kept u (recreated c u)"
  by (simp_all add: row_kept_def revived_def recreated_def totp_consistent_def)

lemma ident_users_insert: "steps (db_rel identity_step) (users_insert E n h)"
  unfolding users_insert_def
  by (intro ident_intros ident.steps_sql) (simp add: step_insert_or_revive row_kept_revived)

lemma ident_totp:
  "steps (db_rel identity_step) (totp_credential_by_username E n)"
  "steps (db_rel identity_step) (totp_credential_by_login_token E t)"
  "steps (db_rel identity_step) (totp_set_setup_secret E n s)"
  "steps (db_rel identity_step) (totp_enable E n i hs)"
  "steps (db_rel identity_step) (totp_disable E n)"
  "steps (db_rel identity_step) (totp_set_login_token E n t i)"
  "steps (db_rel identity_step) (totp_consume_login_token E n t)"
  "steps (db_rel identity_step) (totp_replace_backup_code_hashes E n hs)"
  "steps (db_rel identity_step) (totp_consume_backup_code_hashes E n hs hs')"
  unfolding totp_credential_by_username_def totp_credential_by_login_token_def totp_set_setup_secret_def
    totp_enable_def totp_disable_def totp_set_login_token_def totp_consume_login_token_def
    totp_replace_backup_code_hashes_def totp_consume_backup_code_hashes_def
  by (intro ident_intros; simp add: row_kept_def totp_consistent_def)+

lemma bounded_insert:
  "0 \<le> ob_attempts m \<Longrightarrow> ob_attempts m \<le> ob_max_attempts m \<Longrightarrow> outbox_bounded d \<Longrightarrow>
   outbox_bounded (outbox_insert m d)"
  by (auto simp: outbox_bounded_def outbox_insert_def)

lemma outbox_insert_tables [simp]:
  "db_users (outbox_insert m d) = db_users d" "db_sessions (outbox_insert m d) = db_sessions d"
  "db_connections (outbox_insert m d) = db_connections d"
  by (simp_all add: outbox_insert_def)

lemma ident_enqueue_outbox: "steps (db_rel identity_step) (enqueue_outbox E n p k)"
  unfolding enqueue_outbox_def
  by (intro ident_intros ident.steps_sql step_outbox) (simp_all add: bounded_insert)

lemma ident_enqueue:
  "steps (db_rel identity_step) (enqueue_mail E mail purpose n t)"
  "steps (db_rel identity_step) (enqueue_search E c pid r)"
  "steps (db_rel identity_step) (enqueue_user_upsert E pid n t b rs r)"
  "steps (db_rel identity_step) (enqueue_upsert E user rs r)"
  unfolding enqueue_mail_def enqueue_search_def enqueue_upsert_def enqueue_user_upsert_def
  by (rule ident_enqueue_outbox)+

lemma add_user_role_tables [simp]:
  "db_users (add_user_role t i r d) = db_users d" "db_sessions (add_user_role t i r d) = db_sessions d"
  "db_connections (add_user_role t i r d) = db_connections d" "db_outbox (add_user_role t i r d) = db_outbox d"
  by (simp_all add: add_user_role_def)

lemma ident_fetch:
  "steps (db_rel identity_step) (fetch_user E n)" "steps (db_rel identity_step) (fetch_roles E i)"
  "steps (db_rel identity_step) (set_roles E n rs)"
  unfolding fetch_user_def fetch_roles_def set_roles_def
  by (intro ident_intros ident.steps_sql step_same; simp)+

lemma ident_publish: "steps (db_rel identity_step) (publish_updated E b n r msg)"
  unfolding publish_updated_def by (intro ident_intros ident_enqueue ident_fetch)

lemma row_kept_set_column: "row_kept u (set_column c t i u)"
  by (cases c) (simp_all add: row_kept_def totp_consistent_def)

lemma ident_update_token_with_mail:
  "steps (db_rel identity_step) (update_token_with_mail E c P n t i mail purpose)"
  unfolding update_token_with_mail_def by (intro ident_intros ident_enqueue row_kept_set_column)

lemma ident_writer_register: "steps (db_rel identity_step) (writer_register E c)"
  unfolding writer_register_def
  by (intro ident_intros ident_enqueue ident_fetch ident.steps_sql step_insert_or_nothing)
    (simp_all add: new_user_row_def totp_consistent_def)

lemma ident_writer_create: "steps (db_rel identity_step) (writer_create E c)"
  unfolding writer_create_def
  by (intro ident_intros ident_enqueue ident_fetch ident.steps_sql step_insert_or_revive row_kept_revived)
    (simp_all add: new_user_row_def totp_consistent_def)

lemma ident_writer_request: "steps (db_rel identity_step) (writer_request_email_change E n e t i mail)"
  unfolding writer_request_email_change_def Let_def
  by (intro ident_intros ident_enqueue ident.steps_sql)
    (simp add: step_users row_kept_def totp_consistent_def)

lemma ident_writer:
  "steps (db_rel identity_step) (writer_verify_email E t i b)"
  "steps (db_rel identity_step) (writer_confirm_email_change E t i b)"
  "steps (db_rel identity_step) (writer_update E cu)"
  "steps (db_rel identity_step) (writer_delete E n b)"
  unfolding writer_verify_email_def writer_confirm_email_change_def writer_update_def writer_delete_def
  by (intro ident_intros ident_enqueue ident_fetch ident_publish;
      simp add: row_kept_def totp_consistent_def email_changed_def split: option.split)+


lemma role_tables [simp]:
  "db_users (upsert_role n t d) = db_users d" "db_sessions (upsert_role n t d) = db_sessions d"
  "db_connections (upsert_role n t d) = db_connections d" "db_outbox (upsert_role n t d) = db_outbox d"
  "db_users (soft_delete_role n t d) = db_users d" "db_sessions (soft_delete_role n t d) = db_sessions d"
  "db_connections (soft_delete_role n t d) = db_connections d" "db_outbox (soft_delete_role n t d) = db_outbox d"
  "db_users (add_permission p d) = db_users d" "db_sessions (add_permission p d) = db_sessions d"
  "db_connections (add_permission p d) = db_connections d" "db_outbox (add_permission p d) = db_outbox d"
  "db_users (add_role_permission t n p d) = db_users d" "db_sessions (add_role_permission t n p d) = db_sessions d"
  "db_connections (add_role_permission t n p d) = db_connections d"
  "db_outbox (add_role_permission t n p d) = db_outbox d"
  by (simp_all add: upsert_role_def soft_delete_role_def add_permission_def add_role_permission_def)

lemma fold_tables:
  assumes "\<And>x d. f (g x d) = f d"
  shows "f (fold g xs d) = f d"
  using assms by (induction xs arbitrary: d) simp_all

lemma copy_tables [simp]:
  "db_users (copy_role_permissions n m d) = db_users d" "db_sessions (copy_role_permissions n m d) = db_sessions d"
  "db_connections (copy_role_permissions n m d) = db_connections d"
  "db_outbox (copy_role_permissions n m d) = db_outbox d"
  "db_users (copy_user_roles n m d) = db_users d" "db_sessions (copy_user_roles n m d) = db_sessions d"
  "db_connections (copy_user_roles n m d) = db_connections d" "db_outbox (copy_user_roles n m d) = db_outbox d"
  unfolding copy_role_permissions_def copy_user_roles_def by (rule fold_tables; simp)+

lemma ident_audit: "steps (db_rel identity_step) (audit_record E entry)"
  unfolding audit_record_def by (intro ident_intros ident.steps_sql step_same; simp)

lemma ident_roles:
  "steps (db_rel identity_step) (auth_create_role_with_audit E n a)"
  "steps (db_rel identity_step) (auth_user_has_permission E n p)"
  "steps (db_rel identity_step) (auth_user_permissions E n)"
  "steps (db_rel identity_step) (auth_assign_role E n r)"
  "steps (db_rel identity_step) (auth_list_roles E)"
  "steps (db_rel identity_step) (auth_list_roles_page E pg sz se st so)"
  "steps (db_rel identity_step) (auth_find_role E n)"
  "steps (db_rel identity_step) (auth_update_role E n r)"
  "steps (db_rel identity_step) (auth_delete_role E n)"
  "steps (db_rel identity_step) (auth_role_permissions E n)"
  "steps (db_rel identity_step) (auth_set_role_permissions E n ps)"
  "steps (db_rel identity_step) (auth_ensure_identity_seed_data E)"
  unfolding auth_create_role_with_audit_def auth_user_has_permission_def auth_user_permissions_def
    auth_assign_role_def auth_list_roles_def auth_list_roles_page_def auth_find_role_def auth_update_role_def
    auth_delete_role_def auth_role_permissions_def auth_set_role_permissions_def
    auth_ensure_identity_seed_data_def Let_def
  by (intro ident_intros ident_audit ident_users ident.steps_sql step_same; simp)+

lemma ident_complete_signup: "steps (db_rel identity_step) (oauth_complete_signup E c)"
  unfolding identity_step_def
proof (intro steps_conj complete_signup_external_ok)
  show "steps (db_rel users_kept) (oauth_complete_signup E c)"
    unfolding oauth_complete_signup_def enqueue_user_upsert_def
    by (intro kept_intros enqueue_kept kept.steps_sql) (simp_all add: kept_same_users kept_insert_row)
  show "steps (db_rel (db_inv totp_ok)) (oauth_complete_signup E c)"
    unfolding oauth_complete_signup_def enqueue_user_upsert_def enqueue_search_def enqueue_outbox_def
    by (intro inv_intros inv.steps_sql)
      (auto simp: db_inv_def totp_ok_def insert_user_row_def Let_def new_user_row_def totp_consistent_def)
  show "steps (db_rel (db_inv sessions_capped)) (oauth_complete_signup E c)"
    unfolding oauth_complete_signup_def enqueue_user_upsert_def enqueue_search_def enqueue_outbox_def
    by (intro inv_intros inv.steps_sql)
      (auto simp: db_inv_def sessions_capped_def insert_user_row_def Let_def)
  show "steps (db_rel (db_inv outbox_bounded)) (oauth_complete_signup E c)"
    unfolding oauth_complete_signup_def enqueue_user_upsert_def enqueue_search_def enqueue_outbox_def
    by (intro inv_intros inv.steps_sql)
      (auto simp: db_inv_def outbox_bounded_def insert_user_row_def Let_def outbox_insert_def)
qed

lemma step_connections:
  assumes "schema_ok d'" "db_users d' = db_users d" "db_sessions d' = db_sessions d" "db_outbox d' = db_outbox d"
    and "\<And>u. u \<in> set (db_users d) \<Longrightarrow> schema_ok d \<Longrightarrow> ur_external_only u \<Longrightarrow>
      \<exists>c \<in> set (db_connections d). oc_user_id c = ur_id u \<Longrightarrow>
      \<exists>c \<in> set (db_connections d'). oc_user_id c = ur_id u"
  shows "identity_step d d'"
proof -
  have "db_inv external_ok d d'"
    using assms(1,2,5) unfolding db_inv_def external_ok_def by simp
  then show ?thesis
    using assms(2-4) by (simp add: identity_step_def kept_same_users db_inv_def totp_ok_def
      sessions_capped_def outbox_bounded_def)
qed

lemma ident_unlink: "steps (db_rel identity_step) (oauth_unlink_connection E n p)"
  unfolding oauth_unlink_connection_def
  by (intro ident_intros ident.steps_sql step_connections)
    (auto simp del: set_delete_where intro: unlinkable_leaves_one)

lemma upsert_connection_tables [simp]:
  "db_sessions (upsert_connection c d) = db_sessions d" "db_outbox (upsert_connection c d) = db_outbox d"
  by (simp_all add: upsert_connection_def Let_def)

lemma ident_link: "steps (db_rel identity_step) (oauth_link_connection E n p i e)"
proof -
  have "identity_step d (upsert_connection c d)" if "schema_ok (upsert_connection c d)" for c d
    using that
    by (rule step_connections) (simp_all add: upsert_connection_owner(2), metis upsert_connection_owner(1))
  then show ?thesis
    unfolding oauth_link_connection_def
    by (intro ident_intros ident.steps_sql) (simp add: ident.db_refl split: option.splits)
qed

lemma ident_oauth:
  "steps (db_rel identity_step) (oauth_insert_state E st)"
  "steps (db_rel identity_step) (oauth_take_state E k i)"
  "steps (db_rel identity_step) (oauth_list_connections E n)"
  "steps (db_rel identity_step) (oauth_username_for_connection E p pu)"
  "steps (db_rel identity_step) (oauth_insert_pending_signup E sg)"
  unfolding oauth_insert_state_def oauth_take_state_def oauth_list_connections_def
    oauth_username_for_connection_def oauth_insert_pending_signup_def Let_def
  by (intro ident_intros ident.steps_sql step_same; simp)+

lemma ident_cleanup:
  "steps (db_rel identity_step) (delete_expired_sqlite E)"
proof -
  have "identity_step d (d\<lparr>db_sessions := delete_where P (db_sessions d)\<rparr>)"
    if "schema_ok (d\<lparr>db_sessions := delete_where P (db_sessions d)\<rparr>)" for P d
    by (rule step_sessions [OF that]) (auto simp: sessions_capped_def)
  then show ?thesis
    unfolding delete_expired_sqlite_def
    by (intro ident_intros ident.steps_sql) (simp_all add: step_same)
qed


section \<open>Services\<close>

lemma ident_of_domain: "steps (db_rel identity_step) m \<Longrightarrow> steps (db_rel identity_step) (of_domain m)"
  unfolding of_domain_def by (rule ident.steps_map_err)

lemma ident_fixed:
  "steps (db_rel identity_step) (verify_token E js t)"
  "steps (db_rel identity_step) (provider_current_user E js t)"
  "steps (db_rel identity_step) (repository_require E u p)"
  "steps (db_rel identity_step) (cached_require E c ttl u p)"
  "steps (db_rel identity_step) (invalidate E c)"
  by (intro fixes_db_step verify_token_frame provider_reads repository_reads cached_reads invalidate_reads)+

lemma ident_token_expiry: "steps (db_rel identity_step) (token_expiry E js)"
  unfolding token_expiry_def by (intro ident_intros)

lemma ident_security:
  "steps (db_rel identity_step) (hash_password E p)"
  "steps (db_rel identity_step) (verify_password E p h)"
  "steps (db_rel identity_step) (create_token E js n)"
  "steps (db_rel identity_step) (send_mail E mail)"
  "steps (db_rel identity_step) (generate_totp_secret E)"
  "steps (db_rel identity_step) (verify_totp_code E s n i c)"
  "steps (db_rel identity_step) (generate_backup_codes E)"
proof -
  show "steps (db_rel identity_step) (hash_password E p)" "steps (db_rel identity_step) (send_mail E mail)"
    "steps (db_rel identity_step) (generate_totp_secret E)"
    by (rule stepsI, simp add: hash_password_def send_mail_def generate_totp_secret_def db_rel_def
        ident.db_refl split: option.split)+
  show "steps (db_rel identity_step) (verify_password E p h)"
    "steps (db_rel identity_step) (create_token E js n)" "steps (db_rel identity_step) (verify_totp_code E s n i c)"
    "steps (db_rel identity_step) (generate_backup_codes E)"
    unfolding verify_password_def create_token_def verify_totp_code_def generate_backup_codes_def
    by (intro ident_intros ident_token_expiry)+
qed

lemma bindE_ret: "bindE (bindE m (\<lambda>x. ret (g x))) f = bindE m (\<lambda>x. f (g x))"
  by (rule ext) (simp add: bindE_def split: prod.split sum.split)

lemma ident_next_expiry:
  assumes "\<And>e. e \<le> m \<Longrightarrow> steps (db_rel identity_step) (f e)"
  shows "steps (db_rel identity_step) (bindE (next_session_expires_at E S m) f)"
  unfolding next_session_expires_at_def bindE_ret by (intro ident_intros assms) simp

lemmas ident_parts =
  ident_of_domain ident_fixed ident_security ident_token_expiry ident_sessions ident_users ident_users_insert
  ident_totp ident_roles ident_audit ident_writer ident_writer_register ident_writer_create
  ident_writer_request ident_update_token_with_mail ident_oauth ident_link ident_unlink ident_complete_signup

lemma ident_create_session: "steps (db_rel identity_step) (create_session E S n)"
  unfolding create_session_def
  by (rule ident.steps_bindE [OF ident_security(3)], rule ident.steps_bindE [OF ident_token_expiry],
      rule ident_next_expiry) (intro ident_intros ident_parts)

lemma ident_refresh: "steps (db_rel identity_step) (refresh_session_if_needed E S s)"
  unfolding refresh_session_if_needed_def Let_def
  by (rule ident.steps_bindE [OF ident.steps_utc_now], rule ident.steps_if, rule ident.steps_ret,
      rule ident_next_expiry) (intro ident_intros ident_parts)

lemma ident_current_user: "steps (db_rel identity_step) (auth_current_user E S t)"
  unfolding auth_current_user_def by (intro ident_intros ident_parts ident_refresh)

lemma ident_renew: "steps (db_rel identity_step) (auth_renew_session E S t)"
  unfolding auth_renew_session_def
  by (intro ident.steps_bindE ident.steps_seqE ident.steps_ensure ident_next_expiry ident_parts ident.steps_ret)

lemma ident_check_password: "steps (db_rel identity_step) (check_password E S t p)"
  unfolding check_password_def by (intro ident_intros ident_parts ident_current_user)

lemma ident_sessions_service:
  "steps (db_rel identity_step) (auth_logout E S t)"
  "steps (db_rel identity_step) (auth_list_sessions E S t)"
  "steps (db_rel identity_step) (auth_revoke_session E S t sid)"
  unfolding auth_logout_def auth_list_sessions_def auth_revoke_session_def
  by (intro ident_intros ident_parts ident_current_user)+

lemma ident_accounts:
  "steps (db_rel identity_step) (auth_register E S n p)"
  "steps (db_rel identity_step) (auth_verify_email E S t)"
  "steps (db_rel identity_step) (auth_resend_verification E S t)"
  "steps (db_rel identity_step) (auth_delete_account E S t p)"
  "steps (db_rel identity_step) (auth_forgot_password E S n)"
  "steps (db_rel identity_step) (auth_reset_password E S t p)"
  "steps (db_rel identity_step) (auth_change_password E S t p p')"
  "steps (db_rel identity_step) (auth_request_email_change E S t n p)"
  "steps (db_rel identity_step) (auth_confirm_email_change E S t)"
  "steps (db_rel identity_step) (auth_request_magic_link E S n)"
  "steps (db_rel identity_step) (auth_verify_magic_link E S t)"
  unfolding auth_register_def auth_verify_email_def auth_resend_verification_def auth_delete_account_def
    auth_forgot_password_def auth_reset_password_def auth_change_password_def auth_request_email_change_def
    auth_confirm_email_change_def auth_request_magic_link_def auth_verify_magic_link_def Let_def
    writer_set_reset_token_with_mail_def writer_set_verification_with_mail_def
    writer_set_magic_link_with_mail_def users_set_email_verification_def users_set_reset_token_def
    users_set_magic_link_def users_find_by_reset_token_def users_find_by_magic_link_token_def
  by (intro ident_intros ident_parts ident_current_user ident_check_password ident_create_session)+

lemma ident_backup_codes: "steps (db_rel identity_step) (try_backup_codes E c code i hs)"
  by (induction hs arbitrary: i) (simp_all, (intro ident_intros ident_parts; simp)+)

lemma ident_totp_or_backup: "steps (db_rel identity_step) (verify_totp_or_backup_code E S c code)"
  unfolding verify_totp_or_backup_code_def by (intro ident_intros ident_parts ident_backup_codes)

lemma ident_login:
  "steps (db_rel identity_step) (auth_login E S n p)"
  "steps (db_rel identity_step) (auth_verify_totp_login E S t code)"
  "steps (db_rel identity_step) (auth_setup_totp E S t)"
  "steps (db_rel identity_step) (auth_enable_totp E S t code)"
  "steps (db_rel identity_step) (auth_disable_totp E S t code)"
  "steps (db_rel identity_step) (auth_regenerate_totp_backup_codes E S t code)"
  "steps (db_rel identity_step) (auth_totp_status E S t)"
  unfolding auth_login_def auth_verify_totp_login_def auth_setup_totp_def auth_enable_totp_def
    auth_disable_totp_def auth_regenerate_totp_backup_codes_def auth_totp_status_def
  by (intro ident_intros ident_parts ident_current_user ident_create_session ident_totp_or_backup)+


lemma ident_authorization:
  "steps (db_rel identity_step) (authorization_require E a u p)"
  unfolding authorization_require_def by (auto intro: ident_fixed split: authorization_service.split)

lemma ident_require:
  "steps (db_rel identity_step) (require_user_permission E US t p)"
  "steps (db_rel identity_step) (perm_require E PS t)"
  unfolding require_user_permission_def require_permission_def perm_require_def
  by (intro ident_intros ident_parts ident_authorization)+

lemma ident_record_audit: "steps (db_rel identity_step) (record_audit E js t an et ei det)"
  unfolding record_audit_def by (intro ident_intros ident_parts)

lemma ident_search_users: "steps (db_rel identity_step) (search_users E p sz t)"
proof (rule stepsI)
  fix w
  have "steps (db_rel identity_step) (bindE (of_result r) (\<lambda>(hits, total).
     (let pids = List.map_filter (env_parse_uuid E) (List.map_filter (\<lambda>h. h) hits)
      in bindE (of_domain (users_find_by_pids E pids)) (\<lambda>users. ret (users, min (int total) (2 ^ 63 - 1))))))"
    for r unfolding Let_def by (intro ident_intros ident_parts)
  from this [THEN stepsD] show "db_rel identity_step w (snd (search_users E p sz t w))"
    unfolding search_users_def db_rel_def by (metis (no_types, lifting) prod.collapse ticked_simps(2))
qed

lemma ident_user_get: "steps (db_rel identity_step) (user_get E US t n)"
  unfolding user_get_def by (intro ident_intros ident_parts ident_require)

lemma ident_user_service:
  "steps (db_rel identity_step) (user_list E US t pg sz q o')"
  "steps (db_rel identity_step) (user_create E US t n p v rs)"
  "steps (db_rel identity_step) (user_update E US t n np v rs)"
  "steps (db_rel identity_step) (user_delete E US t n)"
  unfolding user_list_def user_create_def user_update_def user_delete_def users_dto_def then_now_def Let_def
  by (intro ident_intros ident_parts ident_require ident_user_get ident_record_audit ident_search_users)+

lemma ident_role_dto: "steps (db_rel identity_step) (to_role_dto E r)"
  unfolding to_role_dto_def by (intro ident_intros ident_parts)

lemma ident_permission_service:
  "steps (db_rel identity_step) (perm_list_permissions E PS t)"
  "steps (db_rel identity_step) (perm_list_roles E PS t)"
  "steps (db_rel identity_step) (perm_list_roles_page E PS t pg sz q st o')"
  "steps (db_rel identity_step) (perm_get_role E PS t n)"
  "steps (db_rel identity_step) (perm_create_role E PS t n)"
  "steps (db_rel identity_step) (perm_update_role E PS t n m)"
  "steps (db_rel identity_step) (perm_delete_role E PS t n)"
  "steps (db_rel identity_step) (perm_set_role_permissions E PS t n ps)"
  "steps (db_rel identity_step) (perm_assign_user_role E PS t u n)"
  unfolding perm_list_permissions_def perm_list_roles_def perm_list_roles_page_def perm_get_role_def
    perm_create_role_def perm_update_role_def perm_delete_role_def
    perm_set_role_permissions_def perm_assign_user_role_def Let_def
  by (intro ident_intros ident_parts ident_require ident_record_audit ident_role_dto)+

lemma ident_oauth_audit: "steps (db_rel identity_step) (oauth_audit E a an p det)"
  unfolding oauth_audit_def by (intro ident_intros ident_parts)

lemma ident_create_url: "steps (db_rel identity_step) (create_authorize_url E OS p fl n)"
  unfolding create_authorize_url_def by (intro ident_intros ident_parts ident_oauth_audit)

lemma ident_oauth_session: "steps (db_rel identity_step) (oauth_create_session E OS n)"
  unfolding oauth_create_session_def by (intro ident_intros ident_parts) simp

lemma ident_fetch_external: "steps (db_rel identity_step) (fetch_external_user E p c)"
  by (rule stepsI) (simp add: fetch_external_user_def db_rel_def ident.db_refl)

lemma ident_callback_parts:
  "steps (db_rel identity_step) (callback_link E ow p ex)"
  "steps (db_rel identity_step) (callback_signup E p ex)"
  "steps (db_rel identity_step) (callback_login E OS p n)"
  unfolding callback_link_def callback_signup_def callback_login_def
  by (intro ident_intros ident_parts ident_oauth_audit ident_oauth_session)+

lemma ident_oauth_service:
  "steps (db_rel identity_step) (authorize_url E OS p)"
  "steps (db_rel identity_step) (link_authorize_url E OS t p)"
  "steps (db_rel identity_step) (oauth_callback E OS p c st)"
  "steps (db_rel identity_step) (oauth_finish_signup E OS t n)"
  "steps (db_rel identity_step) (oauth_connections E OS t)"
  "steps (db_rel identity_step) (oauth_unlink E OS t p)"
  unfolding authorize_url_def link_authorize_url_def oauth_callback_def oauth_finish_signup_def
    oauth_connections_def oauth_unlink_def Let_def
  by (intro ident_intros ident_parts ident_create_url ident_oauth_audit ident_oauth_session
      ident_fetch_external ident_callback_parts)+

section \<open>Workers\<close>

lemma bounded_update:
  assumes "\<And>m. m \<in> set (db_outbox d) \<Longrightarrow> P m \<Longrightarrow> 0 \<le> ob_attempts m \<Longrightarrow> ob_attempts m \<le> ob_max_attempts m \<Longrightarrow>
      0 \<le> ob_attempts (g m) \<and> ob_attempts (g m) \<le> ob_max_attempts (g m)"
    and "outbox_bounded d"
  shows "outbox_bounded (d\<lparr>db_outbox := update_where P g (db_outbox d)\<rparr>)"
  using assms by (auto simp: outbox_bounded_def set_update_where)

lemma schema_ok_outbox: "schema_ok d \<Longrightarrow> distinct (map ob_id (db_outbox d))"
  by (auto simp: schema_ok_iff outbox_violation_def split: if_splits)

lemma claim_ids_claimable:
  assumes "distinct (map ob_id (db_outbox d))" "m \<in> set (db_outbox d)" "ob_id m \<in> set (claim_ids E k now sb n d)"
  shows "claimable now sb m"
proof -
  from assms(3) obtain k where "k \<in> set (filter (claimable now sb) (db_outbox d))" "ob_id k = ob_id m"
    by (auto simp: claim_ids_def dest!: in_set_takeD)
  with assms(1,2) show ?thesis by (auto simp: distinct_map dest: inj_onD)
qed

lemma ident_claim: "steps (db_rel identity_step) (job_claim E W)"
  unfolding job_claim_def Let_def
proof (intro ident_intros ident.steps_sql, clarsimp, intro step_outbox, simp_all)
  fix now k d
  let ?ids = "claim_ids E k now (now - lock_timeout W) (unat (jw_batch_size W)) d"
  let ?d = "d\<lparr>db_outbox := update_where (\<lambda>m. ob_id m \<in> set ?ids) (claimed now (jw_worker_id W)) (db_outbox d)\<rparr>"
  assume ok: "schema_ok ?d" and b: "outbox_bounded d"
  have "distinct (map ob_id (db_outbox d))"
    using schema_ok_outbox [OF ok] by (simp add: claimed_def)
  with b show "outbox_bounded ?d"
    by (intro bounded_update) (auto simp: claimed_def claimable_def dest: claim_ids_claimable)
qed

lemma ident_marks:
  "steps (db_rel identity_step) (mark_completed E i c)"
  "steps (db_rel identity_step) (mark_failed E m err)"
  unfolding mark_completed_def mark_failed_def
  by (intro ident_intros ident.steps_sql step_outbox; (auto simp: outbox_bounded_def set_update_where)?)+

lemma ident_run_handler: "steps (db_rel identity_step) (run_handler E i n p)"
  by (rule stepsI) (simp add: run_handler_def Let_def db_rel_def ident.db_refl split: option.split)

lemma ident_jobs:
  "steps (db_rel identity_step) (job_process E W m)"
  "steps (db_rel identity_step) (run_once E W)"
proof -
  show p: "steps (db_rel identity_step) (job_process E W m)" for m
    unfolding job_process_def by (intro ident_intros ident_marks ident_run_handler)
  show "steps (db_rel identity_step) (run_once E W)"
    unfolding run_once_def by (intro ident_intros p ident_claim)
qed

lemma ident_job_enqueue: "steps (db_rel identity_step) (job_enqueue E n p opts)"
proof -
  have "0 < uint (max (jo_max_attempts opts) 1)"
    using word_le_def [of 1 "max (jo_max_attempts opts) 1"] by simp
  then show ?thesis
    unfolding job_enqueue_def Let_def
    by (intro ident_intros ident.steps_sql step_outbox) (simp_all add: bounded_insert)
qed

end
