(* ===== verification/Identity_Api.thy ===== *)
theory Identity_Api
  imports Identity_Invariants
begin

text \<open>
  The module as its hosts see it: the four service contracts of
  \<^verbatim>\<open>application/src/identity/http_contracts.rs\<close> as one type of calls, their dispatch to the services,
  and the machine whose steps are calls, worker runs, cleanup, seeding and the passage of time.
  Every state it reaches from an empty schema satisfies the invariants of the module, no user row
  is ever lost, and a call that needs a permission has no effect without it.
\<close>

section \<open>Calls\<close>

datatype auth_call =
    CallRegister string string
  | CallLogin string string
  | CallCurrentUser string
  | CallLogout string
  | CallRenewSession string
  | CallVerifyEmail string
  | CallResendVerification string
  | CallDeleteAccount string string
  | CallForgotPassword string
  | CallResetPassword string string
  | CallChangePassword string string string
  | CallRequestEmailChange string string string
  | CallConfirmEmailChange string
  | CallListSessions string
  | CallRevokeSession string uuid
  | CallRequestMagicLink string
  | CallVerifyMagicLink string
  | CallSetupTotp string
  | CallEnableTotp string string
  | CallDisableTotp string string
  | CallRegenerateBackupCodes string string
  | CallTotpStatus string
  | CallVerifyTotpLogin string string

datatype oauth_call =
    CallAuthorizeUrl string
  | CallLinkAuthorizeUrl string string
  | CallCallback string string string
  | CallCompleteSignup string string
  | CallListConnections string
  | CallUnlinkConnection string string

datatype user_call =
    CallListUsers string "32 word" "32 word" "string option" "string option"
  | CallGetUser string string
  | CallCreateUser string string string bool "string list"
  | CallUpdateUser string string "string option" bool "string list"
  | CallDeleteUser string string

datatype permission_call =
    CallListPermissions string
  | CallListRoles string
  | CallListRolesPage string "32 word" "32 word" "string option" "string option" "string option"
  | CallGetRole string string
  | CallCreateRole string string
  | CallUpdateRole string string string
  | CallDeleteRole string string
  | CallSetRolePermissions string string "string list"
  | CallAssignUserRole string string string

datatype identity_call =
  AuthCall auth_call | OAuthCall oauth_call | UserCall user_call | PermissionCall permission_call

datatype reply =
    Done
  | LoginReply login_result
  | CurrentUserReply current_user_dto
  | TokenReply string
  | SessionsReply "session_dto list"
  | TotpSetupReply string string
  | BackupCodesReply "string list"
  | TotpStatusReply bool
  | AuthorizeReply string string
  | CallbackReply oauth_callback_dto
  | ConnectionsReply "(string \<times> string \<times> instant) list"
  | UsersReply paged_users
  | UserReply user_dto
  | PermissionsReply "permission_dto list"
  | RolesReply "role_dto list"
  | RolesPageReply paged_roles
  | RoleReply role_dto

record identity_services =
  sv_auth :: auth_service
  sv_oauth :: oauth_service
  sv_users :: user_service
  sv_permissions :: permission_service

abbreviation no_reply :: "(application_error, unit) action \<Rightarrow> (application_error, reply) action" where
  "no_reply \<equiv> mapE (\<lambda>_. Done)"

fun serve_auth :: "env \<Rightarrow> auth_service \<Rightarrow> auth_call \<Rightarrow> (application_error, reply) action" where
  "serve_auth E S (CallRegister n p) = no_reply (auth_register E S n p)"
| "serve_auth E S (CallLogin n p) = mapE LoginReply (auth_login E S n p)"
| "serve_auth E S (CallCurrentUser t) = mapE CurrentUserReply (auth_current_user E S t)"
| "serve_auth E S (CallLogout t) = no_reply (auth_logout E S t)"
| "serve_auth E S (CallRenewSession t) = mapE TokenReply (auth_renew_session E S t)"
| "serve_auth E S (CallVerifyEmail t) = no_reply (auth_verify_email E S t)"
| "serve_auth E S (CallResendVerification t) = no_reply (auth_resend_verification E S t)"
| "serve_auth E S (CallDeleteAccount t p) = no_reply (auth_delete_account E S t p)"
| "serve_auth E S (CallForgotPassword n) = no_reply (auth_forgot_password E S n)"
| "serve_auth E S (CallResetPassword t p) = no_reply (auth_reset_password E S t p)"
| "serve_auth E S (CallChangePassword t p p') = no_reply (auth_change_password E S t p p')"
| "serve_auth E S (CallRequestEmailChange t n p) = no_reply (auth_request_email_change E S t n p)"
| "serve_auth E S (CallConfirmEmailChange t) = no_reply (auth_confirm_email_change E S t)"
| "serve_auth E S (CallListSessions t) = mapE SessionsReply (auth_list_sessions E S t)"
| "serve_auth E S (CallRevokeSession t i) = no_reply (auth_revoke_session E S t i)"
| "serve_auth E S (CallRequestMagicLink n) = no_reply (auth_request_magic_link E S n)"
| "serve_auth E S (CallVerifyMagicLink t) = mapE TokenReply (auth_verify_magic_link E S t)"
| "serve_auth E S (CallSetupTotp t) = mapE (\<lambda>(s, u). TotpSetupReply s u) (auth_setup_totp E S t)"
| "serve_auth E S (CallEnableTotp t c) = mapE BackupCodesReply (auth_enable_totp E S t c)"
| "serve_auth E S (CallDisableTotp t c) = no_reply (auth_disable_totp E S t c)"
| "serve_auth E S (CallRegenerateBackupCodes t c) =
     mapE BackupCodesReply (auth_regenerate_totp_backup_codes E S t c)"
| "serve_auth E S (CallTotpStatus t) = mapE TotpStatusReply (auth_totp_status E S t)"
| "serve_auth E S (CallVerifyTotpLogin t c) = mapE TokenReply (auth_verify_totp_login E S t c)"

fun serve_oauth :: "env \<Rightarrow> oauth_service \<Rightarrow> oauth_call \<Rightarrow> (application_error, reply) action" where
  "serve_oauth E S (CallAuthorizeUrl p) = mapE (\<lambda>(u, s). AuthorizeReply u s) (authorize_url E S p)"
| "serve_oauth E S (CallLinkAuthorizeUrl t p) =
     mapE (\<lambda>(u, s). AuthorizeReply u s) (link_authorize_url E S t p)"
| "serve_oauth E S (CallCallback p c s) = mapE CallbackReply (oauth_callback E S p c s)"
| "serve_oauth E S (CallCompleteSignup t n) = mapE LoginReply (oauth_finish_signup E S t n)"
| "serve_oauth E S (CallListConnections t) = mapE ConnectionsReply (oauth_connections E S t)"
| "serve_oauth E S (CallUnlinkConnection t p) = no_reply (oauth_unlink E S t p)"

fun serve_user :: "env \<Rightarrow> user_service \<Rightarrow> user_call \<Rightarrow> (application_error, reply) action" where
  "serve_user E S (CallListUsers t pg sz q o') = mapE UsersReply (user_list E S t pg sz q o')"
| "serve_user E S (CallGetUser t n) = mapE UserReply (user_get E S t n)"
| "serve_user E S (CallCreateUser t n p v rs) = mapE UserReply (user_create E S t n p v rs)"
| "serve_user E S (CallUpdateUser t n p v rs) = mapE UserReply (user_update E S t n p v rs)"
| "serve_user E S (CallDeleteUser t n) = no_reply (user_delete E S t n)"

fun serve_permission ::
    "env \<Rightarrow> permission_service \<Rightarrow> permission_call \<Rightarrow> (application_error, reply) action" where
  "serve_permission E S (CallListPermissions t) = mapE PermissionsReply (perm_list_permissions E S t)"
| "serve_permission E S (CallListRoles t) = mapE RolesReply (perm_list_roles E S t)"
| "serve_permission E S (CallListRolesPage t pg sz q st o') =
     mapE RolesPageReply (perm_list_roles_page E S t pg sz q st o')"
| "serve_permission E S (CallGetRole t n) = mapE RoleReply (perm_get_role E S t n)"
| "serve_permission E S (CallCreateRole t n) = no_reply (perm_create_role E S t n)"
| "serve_permission E S (CallUpdateRole t n m) = no_reply (perm_update_role E S t n m)"
| "serve_permission E S (CallDeleteRole t n) = no_reply (perm_delete_role E S t n)"
| "serve_permission E S (CallSetRolePermissions t n ps) = no_reply (perm_set_role_permissions E S t n ps)"
| "serve_permission E S (CallAssignUserRole t u n) = no_reply (perm_assign_user_role E S t u n)"

fun serve :: "env \<Rightarrow> identity_services \<Rightarrow> identity_call \<Rightarrow> (application_error, reply) action" where
  "serve E A (AuthCall c) = serve_auth E (sv_auth A) c"
| "serve E A (OAuthCall c) = serve_oauth E (sv_oauth A) c"
| "serve E A (UserCall c) = serve_user E (sv_users A) c"
| "serve E A (PermissionCall c) = serve_permission E (sv_permissions A) c"

section \<open>The machine\<close>

inductive system_step :: "env \<Rightarrow> identity_services \<Rightarrow> job_worker \<Rightarrow> world \<Rightarrow> world \<Rightarrow> bool"
  for E A W where
  call: "serve E A c w = (r, w') \<Longrightarrow> system_step E A W w w'"
| worker: "run_once E W w = (r, w') \<Longrightarrow> system_step E A W w w'"
| enqueue: "job_enqueue E n p opts w = (r, w') \<Longrightarrow> system_step E A W w w'"
| cleanup: "delete_expired_sqlite E w = (r, w') \<Longrightarrow> system_step E A W w w'"
| seed: "seed_sqlite_identity E settings w = (r, w') \<Longrightarrow> system_step E A W w w'"
| restart: "w_db w' = w_db w \<Longrightarrow> system_step E A W w w'"

lemma ident_serve: "steps (db_rel identity_step) (serve E A c)"
proof (cases c)
  case (AuthCall x)
  then show ?thesis
    by (cases x) (simp_all add: ident.steps_mapE ident_accounts ident_login ident_sessions_service
        ident_current_user ident_renew)
next
  case (OAuthCall x)
  then show ?thesis by (cases x) (simp_all add: ident.steps_mapE ident_oauth_service)
next
  case (UserCall x)
  then show ?thesis by (cases x) (simp_all add: ident.steps_mapE ident_user_service ident_user_get)
next
  case (PermissionCall x)
  then show ?thesis by (cases x) (simp_all add: ident.steps_mapE ident_permission_service)
qed

lemma ident_after_tick:
  "(\<And>n. steps (db_rel identity_step) (m n)) \<Longrightarrow> steps (db_rel identity_step) (\<lambda>w. m (w_tick w) (ticked w))"
  unfolding steps_def db_rel_def by (metis ticked_simps(2))

lemma ident_seed: "steps (db_rel identity_step) (seed_sqlite_identity E settings)"
  unfolding seed_sqlite_identity_def
  by (intro ident_intros ident_parts ident_after_tick)

lemma ident_system_step: "system_step E A W w w' \<Longrightarrow> identity_step (w_db w) (w_db w')"
proof (induction rule: system_step.induct)
  case (call c w r w')
  then show ?case using stepsD [OF ident_serve] by (auto simp: db_rel_def)
next
  case (worker w r w')
  then show ?case using stepsD [OF ident_jobs(2)] by (auto simp: db_rel_def)
next
  case (enqueue n p opts w r w')
  then show ?case using stepsD [OF ident_job_enqueue] by (auto simp: db_rel_def)
next
  case (cleanup w r w')
  then show ?case using stepsD [OF ident_cleanup] by (auto simp: db_rel_def)
next
  case (seed settings w r w')
  then show ?case using stepsD [OF ident_seed] by (auto simp: db_rel_def)
next
  case (restart w' w)
  then show ?case by (simp add: ident.db_refl)
qed

lemma ident_reachable: "(system_step E A W)\<^sup>*\<^sup>* w w' \<Longrightarrow> identity_step (w_db w) (w_db w')"
  by (induction rule: rtranclp_induct) (auto intro: ident.db_refl ident.db_trans ident_system_step)

text \<open>A database as the migrations leave it: no users, sessions, connections or messages yet.\<close>

definition fresh_db :: "database \<Rightarrow> bool" where
  "fresh_db d \<longleftrightarrow> schema_ok d \<and> db_users d = [] \<and> db_sessions d = [] \<and> db_connections d = [] \<and> db_outbox d = []"

text \<open>C1. In every state the module reaches from a freshly migrated database, by any sequence of calls
  (successful or not), worker runs, cleanups, seedings and restarts: all constraints of the schema hold,
  no session outlives its maximal lifetime, an enabled second factor has a secret and a pending second
  factor belongs to an enabled one, an account without a password keeps an external connection, and no
  message was tried more often than allowed.\<close>

theorem reachable_states_sound:
  assumes "fresh_db (w_db w)" "(system_step E A W)\<^sup>*\<^sup>* w w'"
  shows "schema_ok (w_db w') \<and>
    (\<forall>s \<in> set (db_sessions (w_db w')). sr_expires_at s \<le> sr_max_expires_at s) \<and>
    (\<forall>u \<in> set (db_users (w_db w')). totp_consistent u) \<and>
    (\<forall>u \<in> set (db_users (w_db w')). ur_external_only u \<longrightarrow>
       (\<exists>c \<in> set (db_connections (w_db w')). oc_user_id c = ur_id u)) \<and>
    (\<forall>m \<in> set (db_outbox (w_db w')). 0 \<le> ob_attempts m \<and> ob_attempts m \<le> ob_max_attempts m)"
proof -
  have "external_ok (w_db w)" "totp_ok (w_db w)" "sessions_capped (w_db w)" "outbox_bounded (w_db w)"
    using assms(1) by (simp_all add: fresh_db_def external_ok_def totp_ok_def sessions_capped_def outbox_bounded_def)
  with ident_reachable [OF assms(2)]
  have "external_ok (w_db w')" "totp_ok (w_db w')" "sessions_capped (w_db w')" "outbox_bounded (w_db w')"
    by (simp_all add: identity_step_def db_inv_def)
  then show ?thesis
    by (simp add: external_ok_def totp_ok_def sessions_capped_def outbox_bounded_def)
qed

text \<open>C23. No step of the module loses a user: its row, found by its id and public id, is still there
  after any sequence of steps, and its search revision has not gone down.\<close>

theorem users_never_lost:
  assumes "(system_step E A W)\<^sup>*\<^sup>* w w'" "u \<in> set (db_users (w_db w))"
  shows "\<exists>u' \<in> set (db_users (w_db w')).
    ur_id u' = ur_id u \<and> ur_pid u' = ur_pid u \<and> ur_search_revision u \<le> ur_search_revision u'"
  using ident_reachable [OF assms(1)] assms(2) by (simp add: identity_step_def users_kept_def)


definition sample_services :: identity_services where
  "sample_services =
     (let pv = \<lparr>pv_enabled = True, pv_client_id = ''i'', pv_client_secret = ''s'', pv_redirect_uri = ''r'',
                pv_authorization_url = ''a'', pv_token_url = ''t'', pv_userinfo_url = ''u'', pv_scopes = []\<rparr>
      in \<lparr>sv_auth = sample_auth,
          sv_oauth = \<lparr>oa_tokens = sample_tokens, oa_settings = \<lparr>oset_enabled = True,
             oset_state_ttl = seconds 60, oset_google = pv, oset_github = pv\<rparr>,
             oa_session_ttl = seconds 1, oa_publish_search = False\<rparr>,
          sv_users = \<lparr>us_tokens = sample_tokens, us_authorization = RepositoryAuthorization,
             us_cache = MemoryCache, us_search_enabled = False, us_publish_mutations = True\<rparr>,
          sv_permissions = \<lparr>pm_tokens = sample_tokens, pm_authorization = RepositoryAuthorization,
             pm_cache = MemoryCache\<rparr>\<rparr>)"

definition sample_worker :: job_worker where
  "sample_worker = \<lparr>jw_registry = [\<lparr>jh_name = SEND_MAIL_JOB, jh_body = SEND_MAIL_JOB\<rparr>], jw_batch_size = 10, jw_lock_timeout_seconds = 60,
     jw_worker_id = ''w''\<rparr>"

definition registered_world :: world where
  "registered_world = snd (serve sample_env sample_services (AuthCall (CallRegister ''ann'' ''pw'')) (world_of empty_db))"

lemma registered_step:
  "(system_step sample_env sample_services sample_worker)\<^sup>*\<^sup>* (world_of empty_db) registered_world"
  unfolding registered_world_def
  by (rule r_into_rtranclp) (rule system_step.call, rule prod.collapse [symmetric])

lemma snd_mapE [simp]: "snd (mapE f m w) = snd (m w)"
  by (simp add: mapE_def split: prod.split sum.split)

lemma registered_users: "map ur_username (db_users (w_db registered_world)) = [''ann'']"
proof -
  have eq: "registered_world = snd (auth_register sample_env sample_auth ''ann'' ''pw'' (world_of empty_db))"
    by (simp add: registered_world_def sample_services_def Let_def)
  show ?thesis unfolding eq by code_simp
qed

theorem reachable_states_sound_witness:
  "map ur_username (db_users (w_db registered_world)) = [''ann''] \<and> schema_ok (w_db registered_world)"
proof -
  have "fresh_db (w_db (world_of empty_db))" by code_simp
  from reachable_states_sound [OF this registered_step] registered_users show ?thesis by blast
qed

theorem users_never_lost_witness:
  "\<exists>u' \<in> set (db_users (w_db (snd (serve sample_env sample_services (AuthCall (CallLogout ''t'')) session_world)))).
     ur_id u' = ur_id (sample_user 1 ''ann'')"
proof -
  have "(system_step sample_env sample_services sample_worker)\<^sup>*\<^sup>* session_world
      (snd (serve sample_env sample_services (AuthCall (CallLogout ''t'')) session_world))"
    by (rule r_into_rtranclp) (rule system_step.call, rule prod.collapse [symmetric])
  moreover have "sample_user 1 ''ann'' \<in> set (db_users (w_db session_world))"
    by (simp add: session_world_def session_db_def)
  ultimately show ?thesis using users_never_lost by blast
qed

section \<open>Calls that need a permission\<close>

fun user_call_needs :: "user_call \<Rightarrow> string \<times> permission_name" where
  "user_call_needs (CallListUsers t _ _ _ _) = (t, USERS)"
| "user_call_needs (CallGetUser t _) = (t, USERS)"
| "user_call_needs (CallCreateUser t _ _ _ _) = (t, USERS_CREATE)"
| "user_call_needs (CallUpdateUser t _ _ _ _) = (t, USERS_UPDATE)"
| "user_call_needs (CallDeleteUser t _) = (t, USERS_DELETE)"

fun permission_call_token :: "permission_call \<Rightarrow> string" where
  "permission_call_token (CallListPermissions t) = t"
| "permission_call_token (CallListRoles t) = t"
| "permission_call_token (CallListRolesPage t _ _ _ _ _) = t"
| "permission_call_token (CallGetRole t _) = t"
| "permission_call_token (CallCreateRole t _) = t"
| "permission_call_token (CallUpdateRole t _ _) = t"
| "permission_call_token (CallDeleteRole t _) = t"
| "permission_call_token (CallSetRolePermissions t _ _) = t"
| "permission_call_token (CallAssignUserRole t _ _) = t"

text \<open>What an authorization service grants: what the tables grant and, with the cached service, what an unexpired
  entry of the user for the current version lists. The version is read as the default one only if the lock is
  poisoned or the version may expire.\<close>

definition version_readable :: "env \<Rightarrow> world \<Rightarrow> bool" where
  "version_readable E w \<longleftrightarrow>
     (\<forall>n. \<not> env_lock_poisoned E n) \<and> (\<forall>v e. w_cache w VERSION_KEY = Some (v, e) \<longrightarrow> e = None)"

definition cached_grant :: "env \<Rightarrow> string \<Rightarrow> permission_name \<Rightarrow> world \<Rightarrow> bool" where
  "cached_grant E n p w \<longleftrightarrow> (\<exists>version v e ps k.
     (version = version_of w \<or> version = DEFAULT_VERSION \<and> \<not> version_readable E w) \<and>
     w_cache w (user_permissions_key version n) = Some (v, e) \<and>
     w_tick w \<le> k \<and> fresh_entry (env_instant E k) (v, e) \<and> env_parse_strings E v = Some ps \<and> p \<in> set ps)"

definition service_grants :: "env \<Rightarrow> authorization_service \<Rightarrow> string \<Rightarrow> permission_name \<Rightarrow> world \<Rightarrow> bool" where
  "service_grants E a n p w \<longleftrightarrow>
     grants (w_db w) n p \<or> (\<exists>ttl. a = CachedAuthorization MemoryCache ttl \<and> cached_grant E n p w)"

text \<open>What a token and a permission must be for a call to go ahead.\<close>

definition authorized ::
    "env \<Rightarrow> jwt_token_service \<Rightarrow> authorization_service \<Rightarrow> string \<Rightarrow> permission_name \<Rightarrow> world \<Rightarrow> bool" where
  "authorized E js a tok p w \<longleftrightarrow> (\<exists>n w1. verify_token E js tok w = (Inr n, w1) \<and>
     (\<exists>s \<in> set (db_sessions (w_db w)). sr_token s = tok \<and> live (env_now E (w_tick w1)) s) \<and>
     (\<exists>u \<in> set (db_users (w_db w)). active n u) \<and> service_grants E a n p w)"

definition service_coherent :: "env \<Rightarrow> authorization_service \<Rightarrow> world \<Rightarrow> bool" where
  "service_coherent E a w \<longleftrightarrow>
     (case a of RepositoryAuthorization \<Rightarrow> True | CachedAuthorization c _ \<Rightarrow> cache_coherent E c w)"

text \<open>On a coherent cache only the tables count.\<close>

lemma coherent_grants:
  assumes "service_coherent E a w"
  shows "service_grants E a n p w \<longleftrightarrow> grants (w_db w) n p"
proof -
  have "grants (w_db w) n p" if "cache_coherent E MemoryCache w" "cached_grant E n p w"
  proof -
    have "version_readable E w" using coherentD(1,2) [OF that(1)] by (auto simp: version_readable_def)
    with that(2) obtain v e ps where "w_cache w (user_permissions_key (version_of w) n) = Some (v, e)"
      "env_parse_strings E v = Some ps" "p \<in> set ps"
      unfolding cached_grant_def by blast
    with coherentD(3) [OF that(1)] show ?thesis by blast
  qed
  with assms show ?thesis by (auto simp: service_grants_def service_coherent_def)
qed

lemma verify_token_cache: "verify_token E js tok w = (r, w') \<Longrightarrow> w_cache w' = w_cache w"
  unfolding verify_token_def
  by (auto simp: utc_now_def bindE_def ticked_def split: list.splits option.splits if_splits)

lemma provider_Inr:
  assumes "provider_current_user E js tok w = (Inr cu, w')"
  shows "\<exists>w1. verify_token E js tok w = (Inr (cu_username cu), w1) \<and>
      (\<exists>s \<in> set (db_sessions (w_db w)). sr_token s = tok \<and> live (env_now E (w_tick w1)) s) \<and>
      (\<exists>u \<in> set (db_users (w_db w)). active (cu_username cu) u)"
    "w_db w' = w_db w" "w_cache w' = w_cache w" "w_tick w \<le> w_tick w'"
proof -
  from assms obtain w1 w2 where ver: "verify_token E js tok w = (Inr (cu_username cu), w1)"
    and "sqlite_sessions_exists E tok w1 = (Inr True, w2)" "users_exists E (cu_username cu) w2 = (Inr True, w')"
    by (auto simp: provider_current_user_def exec_simps)
  moreover from ver have "w1 = ticked w" by (rule verify_token_Inr)
  ultimately show "\<exists>w1. verify_token E js tok w = (Inr (cu_username cu), w1) \<and>
      (\<exists>s \<in> set (db_sessions (w_db w)). sr_token s = tok \<and> live (env_now E (w_tick w1)) s) \<and>
      (\<exists>u \<in> set (db_users (w_db w)). active (cu_username cu) u)"
    "w_db w' = w_db w" "w_cache w' = w_cache w" "w_tick w \<le> w_tick w'"
    by (auto simp: exec_simps sqlite_sessions_exists_def users_exists_def)
qed

lemma version_read:
  assumes "current_version E MemoryCache w = (Inr ver, w1)"
  shows "ver = version_of w \<or> ver = DEFAULT_VERSION \<and> \<not> version_readable E w"
    "\<And>k x. w_cache w1 k = Some x \<Longrightarrow> w_cache w k = Some x" "w_tick w \<le> w_tick w1"
  using assms
  by (auto simp: current_version_def cache_get_string_def memory_defs attempt_def version_of_def version_readable_def
      split: option.splits prod.splits if_splits sum.splits)

text \<open>A service lets through whom it grants the permission, coherent or not.\<close>

lemma authorization_sound:
  assumes "authorization_require E a u p w = (Inr x, w')"
  shows "service_grants E a (cu_username u) p w"
proof (cases a)
  case RepositoryAuthorization
  with assms show ?thesis
    by (auto simp: authorization_require_def repository_require_def of_domain_def auth_user_has_permission_def
        exec_simps service_grants_def)
next
  case (CachedAuthorization c ttl)
  let ?n = "cu_username u"
  from assms CachedAuthorization obtain cached w1 where
    cached: "cached_permissions E c ?n w = (Inr cached, w1)" and
    rest: "(case cached of
          Some permissions \<Rightarrow> ensure (p \<in> set permissions) (missing_permission p)
        | None \<Rightarrow> bindE (of_domain (auth_user_permissions E ?n)) (\<lambda>permissions.
            seqE (store_permissions E c ttl ?n permissions)
              (ensure (p \<in> set permissions) (missing_permission p)))) w1 = (Inr x, w')"
    by (auto simp: authorization_require_def cached_require_def exec_simps)
  have db: "w_db w1 = w_db w" by (rule fixes_run [OF cached_permissions_reads cached])
  show ?thesis
  proof (cases cached)
    case None
    with rest obtain ps w2 where "auth_user_permissions E ?n w1 = (Inr ps, w2)" "p \<in> set ps"
      by (auto simp: exec_simps)
    then show ?thesis using user_permissions_Inr(1) db by (auto simp: service_grants_def)
  next
    case (Some ps)
    from cached Some obtain ver w0 q where ver: "current_version E c w = (Inr ver, w0)" and
      q: "cache_get_string E c (user_permissions_key ver ?n) w0 = (q, w1)" and
      parsed: "(case q of Inr (Some v) \<Rightarrow> env_parse_strings E v | _ \<Rightarrow> None) = Some ps"
      by (auto simp: cached_permissions_def cached_user_permissions_key_def exec_simps)
    then obtain v where get: "cache_get_string E c (user_permissions_key ver ?n) w0 = (Inr (Some v), w1)"
      and v: "env_parse_strings E v = Some ps"
      by (auto split: sum.splits option.splits)
    from get have c: "c = MemoryCache" by (cases c) (auto simp: cache_get_string_def)
    from cache_dispatch.get_sound [OF get] obtain e k where e: "w_cache w0 (user_permissions_key ver ?n) = Some (v, e)"
      "w_tick w0 \<le> k" "fresh_entry (env_instant E k) (v, e)" by blast
    note vr = version_read [OF ver [unfolded c]]
    have "p \<in> set ps" using rest Some by (auto simp: exec_simps)
    then have "cached_grant E ?n p w"
      unfolding cached_grant_def using vr(1) vr(2) [OF e(1)] vr(3) e(2,3) v by (blast intro: order_trans)
    then show ?thesis using CachedAuthorization c by (simp add: service_grants_def)
  qed
qed

lemma service_grants_cong:
  assumes "service_grants E a n p w'" "w_cache w' = w_cache w" "w_db w' = w_db w" "w_tick w \<le> w_tick w'"
  shows "service_grants E a n p w"
proof -
  have "version_of w' = version_of w" "version_readable E w' = version_readable E w"
    using assms(2) by (simp_all add: version_of_def version_readable_def)
  then have "cached_grant E n p w' \<Longrightarrow> cached_grant E n p w"
    using assms(2,4) unfolding cached_grant_def by (metis order_trans)
  then show ?thesis using assms(1,3) by (auto simp: service_grants_def)
qed

lemma guarded_Inr:
  assumes "provider_current_user E js tok w = (Inr cu, w1)" "authorization_require E a cu p w1 = (Inr x, w2)"
  shows "authorized E js a tok p w"
proof -
  note pr = provider_Inr [OF assms(1)]
  have "service_grants E a (cu_username cu) p w"
    using authorization_sound [OF assms(2)] pr(3,2,4) by (rule service_grants_cong)
  with pr(1) show ?thesis unfolding authorized_def by auto
qed

lemma authorization_reads: "steps (fixing w_db) (authorization_require E a u p)"
  unfolding authorization_require_def
  by (auto intro: repository_reads cached_reads split: authorization_service.split)

lemma require_denied:
  assumes no: "\<not> authorized E (us_tokens S) (us_authorization S) tok p w"
  shows "\<exists>e w'. require_user_permission E S tok p w = (Inl e, w') \<and> w_db w' = w_db w"
proof -
  obtain r w' where run: "require_user_permission E S tok p w = (r, w')" by fastforce
  have "w_db w' = w_db w"
    using run unfolding require_user_permission_def require_permission_def
    by (rule fixes_run [rotated]) (intro fixed.steps_combinators provider_reads authorization_reads)
  with run no guarded_Inr show ?thesis
    by (cases r) (auto simp: require_user_permission_def require_permission_def exec_simps)
qed

lemma perm_require_denied:
  assumes no: "\<not> authorized E (pm_tokens S) (pm_authorization S) tok AUTHORIZATION w"
  shows "\<exists>e w'. perm_require E S tok w = (Inl e, w') \<and> w_db w' = w_db w"
proof -
  obtain r w' where run: "perm_require E S tok w = (r, w')" by fastforce
  have "w_db w' = w_db w"
    using run unfolding perm_require_def
    by (rule fixes_run [rotated]) (intro fixed.steps_combinators provider_reads authorization_reads)
  then show ?thesis using run no guarded_Inr
    by (cases r) (auto simp: perm_require_def exec_simps)
qed

lemma mapE_err [simp]: "m s = (Inl e, s') \<Longrightarrow> mapE f m s = (Inl e, s')"
  by (simp add: mapE_def)

text \<open>C8. A user administration call has no effect on the database and fails, unless its token is valid and belongs to
  a live session, the user of the token is active, and the authorization service grants that user the permission of
  the call: in the tables or, with the cached service, in an unexpired entry of the current version. On a coherent
  cache only the tables count.\<close>

theorem user_calls_guarded:
  assumes "\<not> authorized E (us_tokens (sv_users A)) (us_authorization (sv_users A))
      (fst (user_call_needs c)) (snd (user_call_needs c)) w"
  shows "isl (fst (serve E A (UserCall c) w)) \<and> w_db (snd (serve E A (UserCall c) w)) = w_db w"
proof -
  from require_denied [OF assms] obtain e w' where
    "require_user_permission E (sv_users A) (fst (user_call_needs c)) (snd (user_call_needs c)) w = (Inl e, w')"
    "w_db w' = w_db w" by blast
  then show ?thesis
    by (cases c) (simp_all add: user_list_def user_get_def user_create_def user_update_def user_delete_def)
qed

text \<open>C9. Every role and permission call has no effect on the database and fails, unless its token is valid and belongs
  to a live session, the user of the token is active, and the authorization service grants that user the
  authorization permission: in the tables or, with the cached service, in an unexpired entry of the current version.\<close>

theorem permission_calls_guarded:
  assumes "\<not> authorized E (pm_tokens (sv_permissions A)) (pm_authorization (sv_permissions A))
      (permission_call_token c) AUTHORIZATION w"
  shows "isl (fst (serve E A (PermissionCall c) w)) \<and> w_db (snd (serve E A (PermissionCall c) w)) = w_db w"
proof -
  from perm_require_denied [OF assms] obtain e w' where
    "perm_require E (sv_permissions A) (permission_call_token c) w = (Inl e, w')" "w_db w' = w_db w" by blast
  then show ?thesis
    by (cases c) (simp_all add: perm_list_permissions_def perm_list_roles_def perm_list_roles_page_def
        perm_get_role_def perm_create_role_def perm_update_role_def perm_delete_role_def
        perm_set_role_permissions_def perm_assign_user_role_def)
qed

text \<open>A user without roles.\<close>

definition bob_world :: world where
  "bob_world = world_of (sample_db\<lparr>db_sessions := [sample_session (sample_token ''bob'') 2]\<rparr>)"

lemma bob_not_authorized: "\<not> authorized sample_env sample_tokens a (sample_token ''bob'') p bob_world"
proof -
  have "verify_token sample_env sample_tokens (sample_token ''bob'') bob_world = (Inr ''bob'', ticked bob_world)"
    by (simp add: bob_world_def)
  moreover have "\<not> cached_grant sample_env ''bob'' p bob_world" by (simp add: cached_grant_def bob_world_def world_of_def)
  ultimately show ?thesis
    by (auto simp: authorized_def service_grants_def grants_def bob_world_def sample_db_def empty_db_def sample_user_def
        new_user_row_def active_def)
qed

definition cached_services :: identity_services where
  "cached_services = sample_services\<lparr>
     sv_users := (sv_users sample_services)\<lparr>us_authorization := CachedAuthorization MemoryCache (seconds 60)\<rparr>,
     sv_permissions := (sv_permissions sample_services)\<lparr>pm_authorization := CachedAuthorization MemoryCache (seconds 60)\<rparr>\<rparr>"

theorem user_calls_guarded_witness:
  "w_db (snd (serve sample_env cached_services (UserCall (CallDeleteUser (sample_token ''bob'') ''ann'')) bob_world))
     = w_db bob_world \<and> length (db_users (w_db bob_world)) = 2"
  using user_calls_guarded [of sample_env cached_services "CallDeleteUser (sample_token ''bob'') ''ann''" bob_world]
    bob_not_authorized
  by (simp add: cached_services_def sample_services_def Let_def) (simp add: bob_world_def sample_db_def)

theorem permission_calls_guarded_witness:
  "w_db (snd (serve sample_env cached_services
      (PermissionCall (CallAssignUserRole (sample_token ''bob'') ''bob'' ''ops'')) bob_world)) = w_db bob_world \<and>
   length (db_users (w_db bob_world)) = 2"
  using permission_calls_guarded [of sample_env cached_services
      "CallAssignUserRole (sample_token ''bob'') ''bob'' ''ops''" bob_world] bob_not_authorized
  by (simp add: cached_services_def sample_services_def Let_def) (simp add: bob_world_def sample_db_def)

section \<open>Roles\<close>

definition role_grants :: "database \<Rightarrow> string \<Rightarrow> permission_name set" where
  "role_grants d n = set (map rp_permission_name (filter (\<lambda>rp. rp_role_name rp = n) (db_role_permissions d)))"

lemma role_grants_simps [simp]:
  "role_grants (upsert_role n t d) m = role_grants d m"
  "role_grants (add_permission p d) m = role_grants d m"
  "role_grants (add_role_permission t n p d) m = role_grants d m \<union> (if m = n then {p} else {})"
proof -
  show "role_grants (add_role_permission t n p d) m = role_grants d m \<union> (if m = n then {p} else {})"
    by (auto simp: role_grants_def add_role_permission_def simp del: set_filter) (auto simp: image_iff)
qed (simp_all add: role_grants_def upsert_role_def add_permission_def)

lemma active_role_simps [simp]:
  "active_role (upsert_role n t d) n"
  "active_role (add_permission p d) m = active_role d m"
  "active_role (add_role_permission t n p d) m = active_role d m"
  "active_role (d\<lparr>db_role_permissions := rps\<rparr>) m = active_role d m"
proof -
  show "active_role (upsert_role n t d) n"
  proof (cases "\<exists>r \<in> set (db_roles d). rr_name r = n")
    case True
    then obtain r where "r \<in> set (db_roles d)" "rr_name r = n" by blast
    then have "r\<lparr>rr_deleted_at := None\<rparr> \<in> set (db_roles (upsert_role n t d))"
      by (auto simp: upsert_role_def intro: in_update_where)
    with \<open>rr_name r = n\<close> show ?thesis
      unfolding active_role_def by (intro bexI [of _ "r\<lparr>rr_deleted_at := None\<rparr>"]) simp_all
  qed (simp add: active_role_def upsert_role_def)
qed (simp_all add: active_role_def add_permission_def add_role_permission_def)

lemma add_permissions_run:
  assumes "for_each (\<lambda>p. seqE (map_err f (sql E (\<lambda>_ d. ((), add_permission p d))))
      (map_err g (sql E (\<lambda>k d. ((), add_role_permission (env_now E k) n p d))))) ps w = (Inr u, w')"
  shows "(\<forall>m. role_grants (w_db w') m = role_grants (w_db w) m \<union> (if m = n then set ps else {})) \<and>
    (\<forall>m. active_role (w_db w') m = active_role (w_db w) m)"
  using assms
proof (induction ps arbitrary: w)
  case (Cons p ps)
  then obtain w0 w1 where
    "sql E (\<lambda>_ d. ((), add_permission p d)) w = (Inr (), w0)"
    "sql E (\<lambda>k d. ((), add_role_permission (env_now E k) n p d)) w0 = (Inr (), w1)"
    "for_each (\<lambda>p. seqE (map_err f (sql E (\<lambda>_ d. ((), add_permission p d))))
      (map_err g (sql E (\<lambda>k d. ((), add_role_permission (env_now E k) n p d))))) ps w1 = (Inr u, w')"
    by (auto simp: exec_simps simp del: sql_Inr_iff)
  with Cons.IH [of w1] show ?case by (auto simp: sql_Inr_iff)
qed (simp add: exec_simps)

lemma set_role_permissions_run:
  assumes "auth_set_role_permissions E n ps w = (Inr u, w')"
  shows "active_role (w_db w') n"
    "role_grants (w_db w') m = (if m = n then set ps else role_grants (w_db w) m)"
proof -
  from assms obtain w0 w1 w2 x where
    up: "sql E (\<lambda>_ d. ((), upsert_role n (env_now E (Suc (w_tick w))) d)) (ticked (ticked w)) = (Inr (), w0)" and
    del: "sql E (\<lambda>_ d. ((), d\<lparr>db_role_permissions :=
        delete_where (\<lambda>rp. rp_role_name rp = n) (db_role_permissions d)\<rparr>)) w0 = (Inr (), w1)" and
    loop: "for_each (\<lambda>p. seqE (map_err (db_error E) (sql E (\<lambda>_ d. ((), add_permission p d))))
      (map_err (db_error E) (sql E (\<lambda>k d. ((), add_role_permission (env_now E k) n p d))))) ps w1 = (Inr x, w2)" and
    w': "w' = ticked w2"
    by (auto simp: auth_set_role_permissions_def transaction_Inr_iff exec_simps simp del: sql_Inr_iff)
  have w1: "w_db w1 = (upsert_role n (env_now E (Suc (w_tick w))) (w_db w))\<lparr>db_role_permissions :=
        delete_where (\<lambda>rp. rp_role_name rp = n)
          (db_role_permissions (upsert_role n (env_now E (Suc (w_tick w))) (w_db w)))\<rparr>"
    using up del by (auto simp: exec_simps)
  have "role_grants (w_db w1) m = (if m = n then {} else role_grants (w_db w) m)" for m
    by (auto simp: w1 role_grants_def upsert_role_def)
  moreover have "active_role (w_db w1) n" by (simp add: w1)
  ultimately show "active_role (w_db w') n"
    "role_grants (w_db w') m = (if m = n then set ps else role_grants (w_db w) m)"
    using add_permissions_run [OF loop] by (simp_all add: w')
qed

lemma parse_permissions:
  assumes "collect_each (\<lambda>p. of_result (parse_permission p)) ps w = (Inr qs, w')"
  shows "qs = ps \<and> set ps \<subseteq> set all_names \<and> w' = w"
  using assms
proof (induction ps arbitrary: qs)
  case (Cons p ps)
  then show ?case
    by (auto simp: exec_simps parse_permission_def from_name_Some_iff split: option.splits)
qed (auto simp: exec_simps)

abbreviation role_tables_of :: "database \<Rightarrow> role_row list \<times> role_permission_row list" where
  "role_tables_of d \<equiv> (db_roles d, db_role_permissions d)"

lemma fixes_db_same: "steps (fixing w_db) m \<Longrightarrow> steps (db_rel (db_same f)) m"
  by (simp add: steps_def fixing_def db_rel_def db_same_def)

lemma audit_same_roles: "steps (db_rel (db_same role_tables_of)) (record_audit E js tok an et ei det)"
  unfolding record_audit_def audit_record_def
  by (intro same_intros same.steps_sql fixes_db_same provider_reads) (simp add: db_same_def)

lemma perm_require_reads: "steps (fixing w_db) (perm_require E S tok)"
  unfolding perm_require_def by (intro fixed.steps_combinators provider_reads authorization_reads)


lemma sql_db: "sql E stmt w = (Inr x, w') \<Longrightarrow> w_db w' = snd (stmt (w_tick w) (w_db w))"
  by (auto simp: sql_Inr_iff)

lemma soft_deleted_inactive [simp]: "\<not> active_role (soft_delete_role n t d) n"
proof
  assume "active_role (soft_delete_role n t d) n"
  then obtain r where r: "r \<in> set (update_where (\<lambda>r. rr_name r = n \<and> rr_deleted_at r = None)
      (\<lambda>r. r\<lparr>rr_deleted_at := Some t\<rparr>) (db_roles d))" "rr_name r = n" "rr_deleted_at r = None"
    unfolding active_role_def soft_delete_role_def by auto
  from r(1) show False by (rule in_update_whereE) (use r(2,3) in auto)
qed

lemma update_role_to_itself:
  assumes "auth_update_role E n n w = (Inr True, w')"
  shows "\<not> active_role (w_db w') n"
  using assms
  by (clarsimp simp: auth_update_role_def transaction_Inr_iff exec_simps simp del: sql_Inr_iff)
    (simp split: option.splits, clarsimp simp: exec_simps simp del: sql_Inr_iff, simp add: sql_db)

text \<open>Renaming a role to the name it already has succeeds and deletes the role: nobody holds its
  permissions through it any more.\<close>

theorem rename_role_to_itself_deletes:
  assumes "perm_update_role E S tok n n w = (Inr (), w')"
  shows "\<not> active_role (w_db w') n"
proof -
  from assms obtain w1 w2 w3 y where
    "auth_update_role E n n w1 = (Inr True, w2)" and
    inval: "invalidate E (pm_cache S) w2 = (Inr y, w3)" and
    audit: "record_audit E (pm_tokens S) tok ''identity.roles.update'' ''identity.role''
      (Some n) [(''previous_name'', JsonString n)] w3 = (Inr (), w')"
    by (auto simp: perm_update_role_def exec_simps)
  then show ?thesis
    using update_role_to_itself fixes_run [OF invalidate_reads inval] same_run [OF audit_same_roles audit]
    by (auto simp: active_role_def)
qed

theorem rename_role_to_itself_deletes_witness:
  "active_role (w_db token_world) ''ops'' \<and>
   \<not> active_role (w_db (snd (perm_update_role sample_env (sv_permissions sample_services)
        (sample_token ''ann'') ''ops'' ''ops'' token_world))) ''ops''"
proof -
  let ?run = "perm_update_role sample_env (sv_permissions sample_services)
        (sample_token ''ann'') ''ops'' ''ops'' token_world"
  have "fst ?run = Inr ()" by code_simp
  then have "?run = (Inr (), snd ?run)" by (rule run_result)
  from rename_role_to_itself_deletes [OF this]
  have "\<not> active_role (w_db (snd ?run)) ''ops''" .
  moreover have "active_role (w_db token_world) ''ops''"
    by (simp add: token_db_def sample_db_def active_role_def)
  ultimately show ?thesis by blast
qed


end
