(* ===== verification/OAuth_Flows.thy ===== *)
theory OAuth_Flows
  imports Identity_Api
begin

text \<open>
  End-to-end properties of the OAuth service and of the removal of expired rows: the two cleanup
  adapters agree, a state is good for one callback, and an external login does not bypass the second
  factor.
\<close>

section \<open>Removal of expired rows\<close>

text \<open>The SQLite and the Postgres cleanup, run at the same time, a whole microsecond, on the same tables, report the same
  number and leave the same tables: exactly the rows whose deadline has passed are gone.\<close>

theorem cleanup_adapters_agree:
  assumes "delete_expired_sqlite E w = (Inr n, w')" "delete_expired_postgres E v = (Inr (Some m), v')"
    "w_db v = w_db w" "pg_now E (w_tick v) = env_now E (w_tick w)"
  shows "m = n \<and> w_db v' = w_db w' \<and>
    set (db_sessions (w_db w')) = {s \<in> set (db_sessions (w_db w)). \<not> expired_session (env_now E (w_tick w)) s} \<and>
    set (db_oauth_states (w_db w')) = {s \<in> set (db_oauth_states (w_db w)). env_now E (w_tick w) \<le> os_expires_at s} \<and>
    set (db_pending_signups (w_db w')) = {s \<in> set (db_pending_signups (w_db w)). env_now E (w_tick w) \<le> ps_expires_at s} \<and>
    db_users (w_db w') = db_users (w_db w)"
  using assms
  by (auto simp: delete_expired_sqlite_def delete_expired_postgres_def transaction_Inr_iff exec_simps Let_def
      split: if_splits)

definition expired_world :: world where
  "expired_world = world_of (session_db\<lparr>db_sessions := [(sample_session ''t'' 1)\<lparr>sr_expires_at := - 1\<rparr>]\<rparr>)"

theorem cleanup_adapters_agree_witness:
  "let s = delete_expired_sqlite sample_env expired_world; p = delete_expired_postgres sample_env expired_world
   in fst s = Inr 1 \<and> fst p = Inr (Some 1) \<and> w_db (snd p) = w_db (snd s) \<and> db_sessions (w_db (snd s)) = []"
proof -
  let ?s = "delete_expired_sqlite sample_env expired_world" and ?p = "delete_expired_postgres sample_env expired_world"
  have f: "fst ?s = Inr 1" "fst ?p = Inr (Some 1)" by code_simp+
  note s = run_result [OF f(1)] and p = run_result [OF f(2)]
  have "pg_now sample_env (w_tick expired_world) = env_now sample_env (w_tick expired_world)" by code_simp
  note agree = cleanup_adapters_agree [OF s p refl this]
  have "{s \<in> set (db_sessions (w_db expired_world)).
      \<not> expired_session (env_now sample_env (w_tick expired_world)) s} = {}"
    by (simp add: expired_world_def expired_session_def)
  with agree have "set (db_sessions (w_db (snd ?s))) = {}" by (simp only:)
  with agree f show ?thesis unfolding Let_def by blast
qed

section \<open>OAuth\<close>

lemma states_same:
  "steps (db_rel (db_same db_oauth_states)) (oauth_audit E a an po det)"
  "steps (db_rel (db_same db_oauth_states)) (oauth_link_connection E n p i e)"
  "steps (db_rel (db_same db_oauth_states)) (oauth_insert_pending_signup E sg)"
  "steps (db_rel (db_same db_oauth_states)) (totp_set_login_token E n t ti)"
  "steps (db_rel (db_same db_oauth_states)) (totp_credential_by_username E n)"
  "steps (db_rel (db_same db_oauth_states)) (oauth_username_for_connection E p i)"
  "steps (db_rel (db_same db_oauth_states)) (sqlite_sessions_insert E t n e' m)"
  unfolding oauth_audit_def audit_record_def oauth_link_connection_def oauth_insert_pending_signup_def
    totp_set_login_token_def totp_credential_by_username_def oauth_username_for_connection_def
    sqlite_sessions_insert_def update_users_def Let_def
  by (intro same_intros same.steps_sql;
      simp add: db_same_def upsert_connection_def Let_def split: option.split)+

lemma states_same_services:
  "steps (db_rel (db_same db_oauth_states)) (fetch_external_user E p c)"
  "steps (db_rel (db_same db_oauth_states)) (callback_link E ow p ex)"
  "steps (db_rel (db_same db_oauth_states)) (callback_signup E p ex)"
  "steps (db_rel (db_same db_oauth_states)) (callback_login E S p n)"
proof -
  show "steps (db_rel (db_same db_oauth_states)) (fetch_external_user E p c)"
    by (rule stepsI) (simp add: fetch_external_user_def db_rel_def db_same_def)
  show "steps (db_rel (db_same db_oauth_states)) (callback_link E ow p ex)"
    "steps (db_rel (db_same db_oauth_states)) (callback_signup E p ex)"
    "steps (db_rel (db_same db_oauth_states)) (callback_login E S p n)"
    unfolding callback_link_def callback_signup_def callback_login_def oauth_create_session_def of_domain_def
      create_token_def token_expiry_def
    by (intro same_intros states_same)+
qed

lemma callback_takes_state:
  assumes "oauth_callback E S p c k w = (Inr x, w')"
  obtains st w1 where "oauth_take_state E k (env_now E (w_tick w)) (ticked w) = (Inr (Some st), w1)"
    "normalize_provider p = Inr (os_provider st)" "db_oauth_states (w_db w') = db_oauth_states (w_db w1)"
proof -
  from assms obtain st prov w1 where
    n: "normalize_provider p = Inr prov" and
    take: "oauth_take_state E k (env_now E (w_tick w)) (ticked w) = (Inr (Some st), w1)" and
    prov: "os_provider st = prov" and
    rest: "bindE (attempt (fetch_external_user E prov c)) (\<lambda>fetched.
       case fetched of
         Inl e \<Rightarrow>
           seqE (oauth_audit E (case os_username st of Some u \<Rightarrow> u | None \<Rightarrow> ''anonymous'')
              ''oauth.provider_exchange.failed'' (Some prov)
              [(''flow'', JsonString (flow_as_str (os_flow st))), (''error_code'', JsonString (error_code e))])
             (throw e)
       | Inr external \<Rightarrow>
           (if os_flow st = Link then callback_link E (os_username st) prov external
            else
              bindE (of_domain (oauth_username_for_connection E prov (ex_provider_user_id external))) (\<lambda>known.
              case known of
                None \<Rightarrow> callback_signup E prov external
              | Some username \<Rightarrow> callback_login E S prov username))) w1 = (Inr x, w')"
    by (auto simp: oauth_callback_def seqE_Inr_iff ok_or_Inr_iff ensure_Inr_iff of_domain_Inr_iff utc_now_iff
        bindE_Inr_iff [of "of_result _"] bindE_Inr_iff [of "utc_now _"] bindE_Inr_iff [of "of_domain _"]
        bindE_Inr_iff [of "ok_or _ _"])
  have "db_oauth_states (w_db w') = db_oauth_states (w_db w1)"
    using rest by (rule same_run [rotated]) (intro same_intros states_same states_same_services, (simp add: of_domain_def, intro same_intros states_same)?)
  with n take prov show ?thesis by (intro that) auto
qed


text \<open>C21. An OAuth state works once: after a callback that succeeded with it, any callback with the same
  state fails, whatever provider and code it carries, as long as the stored states have not changed.\<close>

theorem oauth_state_single_use:
  assumes ok: "schema_ok (w_db w)" and run: "oauth_callback E S p c k w = (Inr x, w1)"
    and later: "schema_ok (w_db w2)" "db_oauth_states (w_db w2) = db_oauth_states (w_db w1)"
  shows "isl (fst (oauth_callback E S p' c' k w2))"
proof (rule ccontr)
  assume "\<not> isl (fst (oauth_callback E S p' c' k w2))"
  then obtain y where run2: "oauth_callback E S p' c' k w2 = (Inr y, snd (oauth_callback E S p' c' k w2))"
    using run_ok by blast
  from run obtain st v1 where
    take: "oauth_take_state E k (env_now E (w_tick w)) (ticked w) = (Inr (Some st), v1)" and
    rest: "db_oauth_states (w_db w1) = db_oauth_states (w_db v1)"
    by (rule callback_takes_state)
  from run2 obtain st2 v2 where
    take2: "oauth_take_state E k (env_now E (w_tick w2)) (ticked w2) = (Inr (Some st2), v2)"
    by (rule callback_takes_state)
  have "Some st2 = None"
    by (rule oauth_states.taken_once [OF _ take _ _ take2])
      (simp_all add: ok later rest state_held_def)
  then show False by simp
qed

lemma known_connection:
  assumes "schema_ok (w_db w)" "oauth_username_for_connection E p i w = (Inr (Some n), w')"
  shows "w' = ticked w" "\<exists>u c. user_at (w_db w) n = Some u \<and> active n u \<and> c \<in> set (db_connections (w_db w)) \<and>
    oc_user_id c = ur_id u \<and> oc_provider c = p \<and> oc_provider_user_id c = i"
  using assms
  by (auto simp: oauth_username_for_connection_def exec_simps active_def user_at_mem
      dest!: sym [of "Some _"] fetch_optional_in) metis

lemma callbacks_without_login:
  "callback_link E ow p ex w = (Inr x, w') \<Longrightarrow> ocb_login x = None"
  "callback_signup E p ex w = (Inr x, w') \<Longrightarrow> ocb_login x = None"
  by (auto simp: callback_link_def callback_signup_def exec_simps no_callback_def)

lemma take_state_Inr:
  assumes "schema_ok (w_db w)" "oauth_take_state E k t w = (Inr r, w')"
  shows "schema_ok (w_db w')" "db_users (w_db w') = db_users (w_db w)"
    "db_connections (w_db w') = db_connections (w_db w)" "db_sessions (w_db w') = db_sessions (w_db w)"
  using assms by (auto simp: oauth_take_state_def exec_simps Let_def)

lemma audit_same_sessions: "steps (db_rel (db_same db_sessions)) (oauth_audit E a an po det)"
  unfolding oauth_audit_def audit_record_def by (intro same_intros same.steps_sql) (simp add: db_same_def)

lemma oauth_session_Inr:
  assumes ok: "schema_ok (w_db w)" and run: "oauth_create_session E S n w = (Inr l, w')"
  shows "\<exists>tok c e m. l = authenticated tok \<and> tok = sign E (oa_tokens S) (signing_input E c) \<and> cl_sub c = n \<and>
    session_inserted tok n e m (w_db w) (w_db w')"
proof -
  from run obtain tok e m w1 w2 u where
    tok: "create_token E (oa_tokens S) n w = (Inr tok, w1)" "l = authenticated tok" "w2 = ticked (ticked w1)" and
    ins: "sqlite_sessions_insert E tok n e m w2 = (Inr u, w')"
    by (auto simp: oauth_create_session_def exec_simps)
  note t = create_token_Inr [OF tok(1)]
  have "w_db w2 = w_db w" by (simp add: tok(3) t)
  with sqlite_sessions.insert_law [OF _ ins] ok have "session_inserted tok n e m (w_db w) (w_db w')" by simp
  with tok(2) t(1) show ?thesis by fastforce
qed

text \<open>C22. A session token from an OAuth callback belongs to the active user whose connection names the account that
  the provider identified from the code, and that user has no second factor enabled: the token is signed for the
  user, no session had it before, and the session stored under it is the user's.\<close>

theorem external_login_second_factor:
  assumes ok: "schema_ok (w_db w)" and run: "oauth_callback E S p c k w = (Inr x, w')"
    and login: "ocb_login x = Some l" "lr_token l = Some tok"
  shows "\<exists>n u con. user_at (w_db w) n = Some u \<and> active n u \<and> \<not> totp_active u \<and>
    con \<in> set (db_connections (w_db w)) \<and> oc_user_id con = ur_id u \<and> normalize_provider p = Inr (oc_provider con) \<and>
    (\<exists>t external. env_oauth_fetch_user E t (oc_provider con) c = Inr external \<and>
       oc_provider_user_id con = ex_provider_user_id external) \<and>
    (\<exists>cl s. tok = sign E (oa_tokens S) (signing_input E cl) \<and> cl_sub cl = n \<and>
       session_at (w_db w) tok = None \<and> session_at (w_db w') tok = Some s \<and> sr_user_id s = ur_id u)"
proof -
  from run login obtain st w1 and ex :: external_oauth_user and n v t where
    prov: "normalize_provider p = Inr (os_provider st)" and
    take: "oauth_take_state E k (env_now E (w_tick w)) (ticked w) = (Inr (Some st), w1)" and
    fetch: "env_oauth_fetch_user E t (os_provider st) c = Inr ex" and
    known: "oauth_username_for_connection E (os_provider st) (ex_provider_user_id ex) (ticked w1) = (Inr (Some n), v)" and
    cb: "callback_login E S (os_provider st) n v = (Inr x, w')"
    by (auto simp: oauth_callback_def exec_simps fetch_external_user_def case_sum_run case_option_run
        split: if_splits dest: callbacks_without_login)
  have ok1: "schema_ok (w_db (ticked w1))" using take_state_Inr(1) [OF _ take] ok by simp
  note kc = known_connection [OF ok1 known]
  from kc(2) obtain u con where u: "user_at (w_db w1) n = Some u" "active n u" "con \<in> set (db_connections (w_db w1))"
    "oc_user_id con = ur_id u" "oc_provider con = os_provider st" "oc_provider_user_id con = ex_provider_user_id ex" by auto
  from cb login obtain cr v1 v2 where cred: "totp_credential_by_username E n v = (Inr cr, v1)"
    and off: "Option.bind cr tf_enabled_at = None"
    and session: "oauth_create_session E S n v1 = (Inr l, v2)"
    and audit: "oauth_audit E n ''oauth.login.succeeded'' (Some (os_provider st)) [] v2 = (Inr (), w')"
    by (auto simp: callback_login_def exec_simps totp_required_def no_callback_def split: if_splits)
  have okv: "schema_ok (w_db v)" using ok1 kc(1) by simp
  have uv: "user_at (w_db v) n = Some u" using u(1) kc(1) by simp
  have "\<not> totp_active u"
    using credential_by_username_Inr(1) [OF okv cred uv u(2)] off credential_enabled [of u] by simp
  moreover have "user_at (w_db w) n = Some u" "con \<in> set (db_connections (w_db w))"
    using u(1,3) take_state_Inr(2,3) [OF _ take] ok by (simp_all add: user_at_def)
  moreover have "\<exists>cl s. tok = sign E (oa_tokens S) (signing_input E cl) \<and> cl_sub cl = n \<and>
      session_at (w_db w) tok = None \<and> session_at (w_db w') tok = Some s \<and> sr_user_id s = ur_id u"
  proof -
    have same: "w_db v1 = w_db v" using cred by (auto simp: totp_credential_by_username_def exec_simps)
    then have ok2: "schema_ok (w_db v1)" using okv by simp
    from oauth_session_Inr [OF ok2 session] login(2) obtain cl e m where
      cl: "tok = sign E (oa_tokens S) (signing_input E cl)" "cl_sub cl = n"
      and ins: "session_inserted tok n e m (w_db v1) (w_db v2)" by (auto simp: authenticated_def)
    from ins obtain u' s where s: "user_at (w_db v1) n = Some u'" "sr_user_id s = ur_id u'"
      "session_at (w_db v1) tok = None" "session_at (w_db v2) tok = Some s" unfolding session_inserted_def by auto
    have "u' = u" using s(1) uv same by simp
    moreover have "session_at (w_db v1) tok = session_at (w_db w) tok"
      using same kc(1) take_state_Inr(4) [OF _ take] ok by (simp add: session_at_def)
    moreover have "session_at (w_db w') tok = session_at (w_db v2) tok"
      using same_run [OF audit_same_sessions audit] by (simp add: session_at_def)
    ultimately show ?thesis using cl s by auto
  qed
  ultimately show ?thesis using u(2,4-6) prov fetch by (intro exI [of _ n] exI [of _ u] exI [of _ con]) auto
qed


definition oauth_world :: world where
  "oauth_world = world_of (session_db\<lparr>
     db_oauth_states := [\<lparr>os_state = ''k'', os_provider = ''github'', os_csrf_token = ''c'', os_flow = Login,
        os_username = None, os_created_at = 0, os_expires_at = seconds 60\<rparr>],
     db_connections := [\<lparr>oc_user_id = 1, oc_provider = ''github'', oc_provider_user_id = ''x'',
        oc_email = ''e'', oc_created_at = 0\<rparr>]\<rparr>)"

lemma oauth_world_ok: "schema_ok (w_db oauth_world)" by code_simp

lemma oauth_world_run: "\<exists>x l tok. oauth_callback sample_env (sv_oauth sample_services) ''GitHub'' ''x'' ''k'' oauth_world =
    (Inr x, snd (oauth_callback sample_env (sv_oauth sample_services) ''GitHub'' ''x'' ''k'' oauth_world)) \<and>
    ocb_login x = Some l \<and> lr_token l = Some tok"
proof -
  let ?r = "oauth_callback sample_env (sv_oauth sample_services) ''GitHub'' ''x'' ''k'' oauth_world"
  have "(case fst ?r of Inl _ \<Rightarrow> False
      | Inr x \<Rightarrow> (case ocb_login x of None \<Rightarrow> False | Some l \<Rightarrow> lr_token l \<noteq> None))" by code_simp
  then show ?thesis by (cases ?r) (auto split: sum.splits option.splits)
qed

theorem oauth_state_single_use_witness:
  "isl (fst (oauth_callback sample_env (sv_oauth sample_services) ''github'' ''y'' ''k''
     (snd (oauth_callback sample_env (sv_oauth sample_services) ''GitHub'' ''x'' ''k'' oauth_world))))"
proof -
  let ?w = "snd (oauth_callback sample_env (sv_oauth sample_services) ''GitHub'' ''x'' ''k'' oauth_world)"
  obtain x where run: "oauth_callback sample_env (sv_oauth sample_services) ''GitHub'' ''x'' ''k'' oauth_world =
      (Inr x, ?w)" using oauth_world_run by blast
  have "external_ok (w_db oauth_world)"
    using oauth_world_ok by (simp add: external_ok_def oauth_world_def session_db_def sample_user_def new_user_row_def)
  moreover have "identity_step (w_db oauth_world) (w_db ?w)"
    using stepsD [OF ident_oauth_service(3) run] by (simp add: db_rel_def)
  ultimately have "schema_ok (w_db ?w)" by (simp add: identity_step_def db_inv_def external_ok_def)
  from oauth_state_single_use [OF oauth_world_ok run this refl] show ?thesis .
qed

theorem external_login_second_factor_witness:
  "\<exists>n u. user_at (w_db oauth_world) n = Some u \<and> active n u \<and> \<not> totp_active u"
proof -
  obtain x l tok where run: "oauth_callback sample_env (sv_oauth sample_services) ''GitHub'' ''x'' ''k'' oauth_world =
      (Inr x, snd (oauth_callback sample_env (sv_oauth sample_services) ''GitHub'' ''x'' ''k'' oauth_world))"
    and "ocb_login x = Some l" "lr_token l = Some tok" using oauth_world_run by blast
  from external_login_second_factor [OF oauth_world_ok run this(2,3)] show ?thesis by blast
qed

end
