(* ===== verification/Job_Delivery.thy ===== *)
theory Job_Delivery
  imports Identity_Api
begin

text \<open>
  Delivery guarantees of the outbox worker of \<^verbatim>\<open>crates/background_jobs/src/sqlx/sqlite.rs\<close>: what a
  claim hands out, that two claims within the lock timeout are disjoint, and that the inbox keeps a
  handler from running twice for a message it has completed.
\<close>

lemma job_claim_Inr:
  assumes "job_claim E W w = (Inr ms, w')"
  defines "now \<equiv> env_now E (w_tick w)"
  defines "P \<equiv> \<lambda>m. ob_id m \<in> set (claim_ids E (Suc (w_tick w)) now (now - lock_timeout W) (unat (jw_batch_size W)) (w_db w))"
  shows "ms = map (claimed now (jw_worker_id W)) (filter P (db_outbox (w_db w)))"
    "db_outbox (w_db w') = update_where P (claimed now (jw_worker_id W)) (db_outbox (w_db w))"
    "schema_ok (w_db w')" "m \<in> set ms \<Longrightarrow> m \<in> set (db_outbox (w_db w'))"
proof -
  show ms: "ms = map (claimed now (jw_worker_id W)) (filter P (db_outbox (w_db w)))"
    and db: "db_outbox (w_db w') = update_where P (claimed now (jw_worker_id W)) (db_outbox (w_db w))"
    and "schema_ok (w_db w')"
    using assms(1) unfolding now_def P_def by (auto simp: job_claim_def exec_simps Let_def)
  show "m \<in> set (db_outbox (w_db w'))" if "m \<in> set ms"
    using that unfolding ms db by (auto intro: in_update_where)
qed

lemma claimed_fields [simp]:
  "ob_id (claimed t o' m) = ob_id m" "ob_locked_at (claimed t o' m) = Some t"
  "ob_attempts (claimed t o' m) = ob_attempts m + 1" "ob_max_attempts (claimed t o' m) = ob_max_attempts m"
  by (simp_all add: claimed_def)

text \<open>C20. A claim hands out at most a batch of messages. Each of them was due, unprocessed, not locked
  within the timeout and below its attempt limit, and is now locked by this worker with one more attempt on it;
  nothing else of it changed.\<close>

theorem claim_sound:
  assumes ok: "schema_ok (w_db w)" and run: "job_claim E W w = (Inr ms, w')"
  shows "length ms \<le> unat (jw_batch_size W) \<and>
    (\<forall>m \<in> set ms. m \<in> set (db_outbox (w_db w')) \<and>
       ob_locked_at m = Some (env_now E (w_tick w)) \<and> ob_lock_owner m = Some (jw_worker_id W) \<and>
       ob_attempts m \<le> ob_max_attempts m \<and> ob_processed_at m = None \<and> ob_available_at m \<le> env_now E (w_tick w) \<and>
       (\<exists>m0 \<in> set (db_outbox (w_db w)).
          m = m0\<lparr>ob_locked_at := ob_locked_at m, ob_lock_owner := ob_lock_owner m, ob_attempts := ob_attempts m0 + 1\<rparr> \<and>
          (\<forall>t. ob_locked_at m0 = Some t \<longrightarrow> t < env_now E (w_tick w) - lock_timeout W)))"
proof -
  let ?now = "env_now E (w_tick w)"
  let ?ids = "claim_ids E (Suc (w_tick w)) ?now (?now - lock_timeout W) (unat (jw_batch_size W)) (w_db w)"
  let ?P = "\<lambda>m. ob_id m \<in> set ?ids"
  note d = schema_ok_outbox [OF ok]
  note ms = job_claim_Inr(1) [OF run]
  have "length ms = card (set (map ob_id (filter ?P (db_outbox (w_db w)))))"
    using d by (simp only: ms length_map distinct_card [OF distinct_map_filter])
  also have "\<dots> \<le> card (set ?ids)" by (rule card_mono) auto
  also have "\<dots> \<le> length ?ids" by (rule card_length)
  also have "\<dots> \<le> unat (jw_batch_size W)" by (simp add: claim_ids_def)
  finally have "length ms \<le> unat (jw_batch_size W)" .
  moreover have "\<exists>m0 \<in> set (db_outbox (w_db w)). claimable ?now (?now - lock_timeout W) m0 \<and>
      m = claimed ?now (jw_worker_id W) m0 \<and> ob_attempts m \<le> ob_max_attempts m" if m: "m \<in> set ms" for m
  proof -
    from m obtain m0 where "m0 \<in> set (db_outbox (w_db w))" "?P m0" "m = claimed ?now (jw_worker_id W) m0"
      unfolding ms by auto
    moreover from this have "claimable ?now (?now - lock_timeout W) m0" using claim_ids_claimable [OF d] by blast
    ultimately show ?thesis by (auto simp: claimable_def)
  qed
  ultimately show ?thesis using job_claim_Inr(4) [OF run] by (fastforce simp: claimable_def claimed_def split: option.splits)
qed

text \<open>What may happen to the queue while the messages \<open>I\<close>, locked at time \<open>t\<close>, are in work: messages are added, by
  the queue or by the services, workers whose timeout has not passed since \<open>t\<close> claim messages, and messages other than
  \<open>I\<close> are processed, successfully or not.\<close>

inductive queue_step :: "env \<Rightarrow> uuid set \<Rightarrow> instant \<Rightarrow> world \<Rightarrow> world \<Rightarrow> bool" for E I t where
  enqueue: "job_enqueue E n p opts w = (r, w') \<Longrightarrow> queue_step E I t w w'"
| append: "schema_ok (w_db w') \<Longrightarrow> set (db_outbox (w_db w)) \<subseteq> set (db_outbox (w_db w')) \<Longrightarrow> queue_step E I t w w'"
| claim: "job_claim E V w = (r, w') \<Longrightarrow> env_now E (w_tick w) - lock_timeout V \<le> t \<Longrightarrow> queue_step E I t w w'"
| process: "job_process E V m w = (r, w') \<Longrightarrow> ob_id m \<notin> I \<Longrightarrow> queue_step E I t w w'"

definition locked :: "uuid set \<Rightarrow> instant \<Rightarrow> database \<Rightarrow> bool" where
  "locked I t d \<longleftrightarrow> schema_ok d \<and> (\<forall>i \<in> I. \<exists>m \<in> set (db_outbox d). ob_id m = i \<and> ob_locked_at m = Some t)"

lemma locked_row:
  assumes "locked I t d" "m \<in> set (db_outbox d)" "ob_id m \<in> I"
  shows "ob_locked_at m = Some t"
proof -
  from assms obtain k where "k \<in> set (db_outbox d)" "ob_id k = ob_id m" "ob_locked_at k = Some t"
    by (fastforce simp: locked_def)
  moreover have "distinct (map ob_id (db_outbox d))" using assms(1) by (simp add: locked_def schema_ok_outbox)
  ultimately show ?thesis using assms(2) by (metis distinct_map inj_onD)
qed

lemma locked_not_claimed:
  assumes "locked I t d" "now - lock_timeout V \<le> t" "i \<in> I"
  shows "i \<notin> set (claim_ids E k now (now - lock_timeout V) n d)"
proof
  assume i: "i \<in> set (claim_ids E k now (now - lock_timeout V) n d)"
  from assms obtain m where m: "m \<in> set (db_outbox d)" "ob_id m = i" "ob_locked_at m = Some t" by (auto simp: locked_def)
  have "distinct (map ob_id (db_outbox d))" using assms(1) by (simp add: locked_def schema_ok_outbox)
  from claim_ids_claimable [OF this m(1), of E k now "now - lock_timeout V" n] i m assms(2) show False
    by (auto simp: claimable_def)
qed

text \<open>A statement keeps the lock when it keeps the rows of the messages; an update when it leaves them alone.\<close>

lemma locked_kept:
  assumes "locked I t d" "schema_ok d'"
    and kept: "\<And>m. m \<in> set (db_outbox d) \<Longrightarrow> ob_id m \<in> I \<Longrightarrow> m \<in> set (db_outbox d')"
  shows "locked I t d'"
  unfolding locked_def
proof (intro conjI ballI)
  fix i assume i: "i \<in> I"
  with assms(1) obtain m where "m \<in> set (db_outbox d)" "ob_id m = i" "ob_locked_at m = Some t" by (auto simp: locked_def)
  with kept [of m] i show "\<exists>m \<in> set (db_outbox d'). ob_id m = i \<and> ob_locked_at m = Some t" by auto
qed (fact assms(2))

lemma locked_sql:
  assumes "\<And>n d m. m \<in> set (db_outbox d) \<Longrightarrow> ob_id m \<in> I \<Longrightarrow> m \<in> set (db_outbox (snd (stmt n d)))"
  shows "steps (db_rel (db_inv (locked I t))) (sql E stmt)"
proof (rule inv.steps_sql)
  fix n d assume "schema_ok (snd (stmt n d))"
  then have "locked I t (snd (stmt n d))" if "locked I t d" using that assms [of _ d n] by (metis locked_kept)
  then show "db_inv (locked I t) d (snd (stmt n d))" by (simp add: db_inv_def)
qed

lemma kept_update: "m \<in> set xs \<Longrightarrow> \<not> P m \<Longrightarrow> m \<in> set (update_where P g xs)"
  by (force simp: set_update_where)

lemma locked_update:
  assumes "locked I t d" "schema_ok (d\<lparr>db_outbox := update_where P g (db_outbox d)\<rparr>)" "\<And>m. P m \<Longrightarrow> ob_id m \<notin> I"
  shows "locked I t (d\<lparr>db_outbox := update_where P g (db_outbox d)\<rparr>)"
  using assms(1,2) by (rule locked_kept) (use assms(3) in \<open>auto intro!: kept_update\<close>)

lemma locked_marks:
  assumes "i \<notin> I"
  shows "steps (db_rel (db_inv (locked I t))) (mark_completed E i h)"
    and "ob_id m = i \<Longrightarrow> steps (db_rel (db_inv (locked I t))) (mark_failed E m err)"
proof -
  have other: "n \<in> set (update_where (\<lambda>m. ob_id m = i) g xs)"
    if "n \<in> set xs" "ob_id n \<in> I" for g n and xs :: "outbox_row list"
    using that(1) by (rule kept_update) (use that(2) assms in blast)
  show "steps (db_rel (db_inv (locked I t))) (mark_completed E i h)"
    unfolding mark_completed_def by (intro inv_intros locked_sql) (simp_all add: other)
  show "steps (db_rel (db_inv (locked I t))) (mark_failed E m err)" if "ob_id m = i"
    unfolding mark_failed_def that by (intro inv_intros locked_sql) (simp_all add: other)
qed

lemma locked_process:
  assumes "ob_id m \<notin> I"
  shows "steps (db_rel (db_inv (locked I t))) (job_process E V m)"
proof -
  have "steps (db_rel (db_inv (locked I t))) (run_handler E i h p)" for i h p
    by (rule stepsI) (simp add: run_handler_def Let_def db_rel_def inv.db_refl split: option.split)
  then show ?thesis
    unfolding job_process_def using locked_marks [OF assms] by (intro inv_intros; auto)
qed

lemma locked_enqueue: "steps (db_rel (db_inv (locked I t))) (job_enqueue E n p opts)"
  unfolding job_enqueue_def Let_def
  by (intro inv_intros locked_sql) (auto simp: outbox_insert_def)

lemma locked_step:
  assumes "queue_step E I t w w'" "locked I t (w_db w)"
  shows "locked I t (w_db w')"
  using assms
proof induction
  case (enqueue n p opts w r w')
  then show ?case using inv_run [OF locked_enqueue] by blast
next
  case (append w' w)
  then show ?case by (fastforce simp: locked_def)
next
  case (claim V w r w')
  show ?case
  proof (cases r)
    case (Inl e)
    with claim show ?thesis by (auto simp: job_claim_def exec_simps Let_def)
  next
    case (Inr ms)
    let ?now = "env_now E (w_tick w)"
    let ?d = "(w_db w)\<lparr>db_outbox := update_where (\<lambda>m. ob_id m \<in> set (claim_ids E (Suc (w_tick w)) ?now (?now - lock_timeout V)
       (unat (jw_batch_size V)) (w_db w))) (claimed ?now (jw_worker_id V)) (db_outbox (w_db w))\<rparr>"
    have d: "w_db w' = ?d" "schema_ok ?d"
      using claim(1) Inr by (auto simp: job_claim_def exec_simps Let_def)
    show ?thesis
      unfolding d(1) using locked_not_claimed [OF claim(3,2)] by (intro locked_update [OF claim(3) d(2)]) blast
  qed
next
  case (process V m w r w')
  then show ?case using inv_run [OF locked_process] by blast
qed

text \<open>C19. While the messages of a claim are in work, that is as long as none of them is marked completed or failed, no
  other claim hands out one of them before the lock has timed out, whatever else happens to the queue in between:
  messages are added, other messages are claimed, processed and retried.\<close>

theorem claims_disjoint:
  assumes ok: "schema_ok (w_db w)" and run1: "job_claim E W w = (Inr ms, w1)"
    and work: "(queue_step E (ob_id ` set ms) (env_now E (w_tick w)))\<^sup>*\<^sup>* w1 w2"
    and run2: "job_claim E V w2 = (Inr ns, w3)"
    and fresh: "env_now E (w_tick w2) - lock_timeout V \<le> env_now E (w_tick w)"
  shows "ob_id ` set ms \<inter> ob_id ` set ns = {}"
proof -
  let ?t = "env_now E (w_tick w)" and ?I = "ob_id ` set ms"
  have "locked ?I ?t (w_db w1)"
    using job_claim_Inr(3,4) [OF run1] unfolding locked_def job_claim_Inr(1) [OF run1] by fastforce
  with work have held: "locked ?I ?t (w_db w2)" by (induction rule: rtranclp_induct) (auto intro: locked_step)
  have "i \<notin> ob_id ` set ns" if "i \<in> ?I" for i
    using locked_not_claimed [OF held fresh that, of E "Suc (w_tick w2)" "unat (jw_batch_size V)"]
    unfolding job_claim_Inr(1) [OF run2] by auto
  then show ?thesis by blast
qed

lemma mark_completed_Inr:
  assumes "mark_completed E i h w = (Inr u, w')"
  shows "\<exists>r \<in> set (db_inbox (w_db w')). ib_consumer r = h \<and> ib_message_id r = i"
    "m \<in> set (db_outbox (w_db w')) \<Longrightarrow> ob_id m = i \<Longrightarrow> ob_processed_at m \<noteq> None"
proof -
  from assms obtain t w1 t2 w2 w3 where
    inbox: "sql E (\<lambda>_ d. ((), if \<exists>r \<in> set (db_inbox d). ib_consumer r = h \<and> ib_message_id r = i then d
       else d\<lparr>db_inbox := db_inbox d @ [\<lparr>ib_consumer = h, ib_message_id = i, ib_processed_at = t\<rparr>]\<rparr>)) w1 = (Inr (), w2)" and
    outbox: "sql E (\<lambda>_ d. ((), d\<lparr>db_outbox := update_where (\<lambda>m. ob_id m = i)
            (\<lambda>m. m\<lparr>ob_processed_at := Some t2, ob_locked_at := None, ob_lock_owner := None,
                   ob_last_error := None\<rparr>) (db_outbox d)\<rparr>)) (ticked w2) = (Inr (), w3)" and
    w': "w' = ticked w3"
    by (auto simp: mark_completed_def transaction_Inr_iff exec_simps simp del: sql_Inr_iff)
  have "\<exists>r \<in> set (db_inbox (w_db w2)). ib_consumer r = h \<and> ib_message_id r = i"
    using sql_db [OF inbox] by (auto split: if_splits)
  then show "\<exists>r \<in> set (db_inbox (w_db w')). ib_consumer r = h \<and> ib_message_id r = i"
    using sql_db [OF outbox] by (simp add: w')
  show "ob_processed_at m \<noteq> None" if "m \<in> set (db_outbox (w_db w'))" "ob_id m = i"
  proof -
    have "m \<in> set (update_where (\<lambda>m. ob_id m = i) (\<lambda>m. m\<lparr>ob_processed_at := Some t2, ob_locked_at := None,
        ob_lock_owner := None, ob_last_error := None\<rparr>) (db_outbox (w_db w2)))"
      using that(1) sql_db [OF outbox] by (simp add: w')
    then show ?thesis by (rule in_update_whereE) (use that(2) in auto)
  qed
qed

lemma handled_primitives:
  "steps (fixing w_handled) (sql E stmt)" "steps (fixing w_handled) (query E f)"
  "steps (fixing w_handled) (utc_now E)" "steps (fixing w_handled) (new_uuid E)"
  by (rule stepsI, simp add: fixing_def sql_def query_def utc_now_def new_uuid_def
      split: option.split prod.split)+

lemma handled_transaction:
  assumes "steps (fixing w_handled) body"
  shows "steps (fixing w_handled) (transaction E conv body)"
proof (rule stepsI)
  fix w
  have b: "w_handled w2 = w_handled w1" if "body w1 = (q, w2)" for w1 q w2
    using fixes_run [OF assms that] .
  show "fixing w_handled w (snd (transaction E conv body w))"
    unfolding transaction_def driver_call_def query_def map_err_def
    by (auto simp: fixing_def dest!: b split: prod.splits sum.splits option.splits txn_end.splits)
qed

lemma marks_handled:
  "steps (fixing w_handled) (mark_completed E i h)" "steps (fixing w_handled) (mark_failed E m err)"
  unfolding mark_completed_def mark_failed_def
  by (intro fixed.steps_combinators handled_primitives handled_transaction)+

text \<open>C18. A message whose handler succeeded is recorded for that handler and marked processed, and as
  long as that record is kept no later delivery of the message runs the handler again.\<close>

theorem message_handled_once:
  assumes run: "job_process E W m w = (Inr (), w1)"
    and handler: "get_handler (jw_registry W) (ob_name m) = Some h"
    and succeeds: "\<And>t. env_handle_job E t (jh_body h) (ob_payload m) = None"
    and kept: "set (db_inbox (w_db w1)) \<subseteq> set (db_inbox (w_db w2))"
    and again: "job_process E V m' w2 = (r, w3)" "ob_id m' = ob_id m" "ob_name m' = ob_name m"
  shows "(\<forall>n \<in> set (db_outbox (w_db w1)). ob_id n = ob_id m \<longrightarrow> ob_processed_at n \<noteq> None) \<and>
    w_handled w3 = w_handled w2"
proof -
  have name: "jh_name h = ob_name m" using handler by (rule get_handler_name)
  from run handler succeeds obtain w0 where done_: "mark_completed E (ob_id m) (jh_name h) w0 = (Inr (), w1)"
    by (auto simp: job_process_def exec_simps run_handler_def Let_def split: if_splits)
  then obtain i where "i \<in> set (db_inbox (w_db w2))" "ib_consumer i = ob_name m" "ib_message_id i = ob_id m"
    using mark_completed_Inr(1) [OF done_] kept name by auto
  then have dup: "\<exists>i \<in> set (db_inbox (w_db w2)). ib_consumer i = ob_name m \<and> ib_message_id i = ob_id m" by blast
  have "w_handled w3 = w_handled w2"
  proof (cases "get_handler (jw_registry V) (ob_name m)")
    case None
    then show ?thesis using again fixes_run [OF marks_handled(2)] by (auto simp: job_process_def)
  next
    case (Some k)
    then have "jh_name k = ob_name m" by (rule get_handler_name)
    with Some again dup show ?thesis
      by (cases "env_fault E (w_tick w2)")
        (auto simp: job_process_def bindE_def map_err_def query_def dest!: fixes_run [OF marks_handled(1)])
  qed
  with mark_completed_Inr(2) [OF done_] show ?thesis by blast
qed


text \<open>A database with one due message, and two workers.\<close>

definition sample_message :: outbox_row where
  "sample_message = \<lparr>ob_id = ''m1'', ob_name = SEND_MAIL_JOB, ob_payload = MailPayload (VerifyEmail ''a'' ''b'' ''c''),
     ob_idempotency_key = None, ob_attempts = 0, ob_max_attempts = 5, ob_available_at = 0, ob_locked_at = None,
     ob_lock_owner = None, ob_processed_at = None, ob_last_error = None, ob_created_at = 0\<rparr>"

definition outbox_world :: world where
  "outbox_world = world_of (empty_db\<lparr>db_outbox := [sample_message]\<rparr>)"

lemma outbox_world_ok: "schema_ok (w_db outbox_world)" by code_simp

theorem claim_sound_witness:
  "map ob_attempts (projr (fst (job_claim sample_env sample_worker outbox_world))) = [1] \<and>
   (\<exists>ms. job_claim sample_env sample_worker outbox_world =
      (Inr ms, snd (job_claim sample_env sample_worker outbox_world)) \<and> length ms \<le> unat (jw_batch_size sample_worker))"
proof -
  let ?run = "job_claim sample_env sample_worker outbox_world"
  have one: "\<not> isl (fst ?run)" "map ob_attempts (projr (fst ?run)) = [1]" by code_simp+
  then obtain ms where run: "?run = (Inr ms, snd ?run)" using run_ok by blast
  from claim_sound [OF outbox_world_ok run] run one(2) show ?thesis by blast
qed

theorem claims_disjoint_witness:
  "\<exists>ms ns w1 w3. job_claim sample_env sample_worker outbox_world = (Inr ms, w1) \<and> length ms = 1 \<and>
     job_claim sample_env sample_worker w1 = (Inr ns, w3) \<and> ob_id ` set ms \<inter> ob_id ` set ns = {}"
proof -
  let ?run = "job_claim sample_env sample_worker outbox_world"
  let ?run2 = "job_claim sample_env sample_worker (snd ?run)"
  have one: "\<not> isl (fst ?run)" "length (projr (fst ?run)) = 1" and two: "\<not> isl (fst ?run2)" by code_simp+
  from one(1) obtain ms where run: "?run = (Inr ms, snd ?run)" using run_ok by blast
  from two obtain ns where run2: "?run2 = (Inr ns, snd ?run2)" using run_ok by blast
  have "env_now sample_env (w_tick (snd ?run)) - lock_timeout sample_worker \<le> env_now sample_env (w_tick outbox_world)"
    by code_simp
  from claims_disjoint [OF outbox_world_ok run rtranclp.rtrancl_refl run2 this] run run2 one(2) show ?thesis
    by (metis fst_conv sum.sel(2))
qed

theorem message_handled_once_witness:
  "let w1 = snd (job_process sample_env sample_worker sample_message outbox_world)
   in fst (job_process sample_env sample_worker sample_message outbox_world) = Inr () \<and>
      w_handled (snd (job_process sample_env sample_worker sample_message w1)) = w_handled w1"
proof -
  let ?run = "job_process sample_env sample_worker sample_message outbox_world"
  have one: "fst ?run = Inr ()" by code_simp
  then have run: "?run = (Inr (), snd ?run)" by (rule run_result)
  have h: "get_handler (jw_registry sample_worker) (ob_name sample_message) =
      Some \<lparr>jh_name = SEND_MAIL_JOB, jh_body = SEND_MAIL_JOB\<rparr>" by code_simp
  have ok: "env_handle_job sample_env t (jh_body \<lparr>jh_name = SEND_MAIL_JOB, jh_body = SEND_MAIL_JOB\<rparr>)
      (ob_payload sample_message) = None" for t
    by (simp add: sample_env_def)
  have "w_handled (snd (job_process sample_env sample_worker sample_message (snd ?run))) = w_handled (snd ?run)"
    using message_handled_once [OF run h ok subset_refl prod.collapse [symmetric] refl refl] by blast
  with one show ?thesis by (simp add: Let_def)
qed

end
