(* ===== verification/User_Flows.thy ===== *)
theory User_Flows
  imports OAuth_Flows Job_Delivery
begin

text \<open>
  Properties of listings and of account management that follow the code through several components:
  the pages of the user listing, the effect of a repeated second-factor setup, and what deleting and
  re-creating a user does to its sessions.
\<close>

text \<open>C26. As long as page times page size fits in 32 bits, the pages of a user listing, read from an
  unchanged table, are the matching users in the requested order, each exactly once, and every page
  reports their number. For the orders by creation or verification this needs that no two matching
  users are tied, because a database may return tied rows in another order each time.\<close>

theorem user_pages_complete:
  fixes n :: nat and page_size :: "32 word"
  defines "s \<equiv> unat (clamp_page_size page_size)"
  assumes ok: "schema_ok d" and page: "\<And>i. i < n \<Longrightarrow>
      users_list E (of_nat (Suc i)) page_size search sorting (v i) = (Inr (items i, cnt i), v' i)"
    and db: "\<And>i. i < n \<Longrightarrow> w_db (v i) = d"
    and bound: "n * s < 2 ^ 32" and enough: "length (matching_users (search_pattern E search) d) \<le> n * s"
    and untied: "user_order_by E sorting \<in> {UsernameAsc, UsernameDesc} \<or>
      separated (user_order_by E sorting) (matching_users (search_pattern E search) d)"
  shows "concat (map items [0..<n]) =
      map map_user (order_users (user_order_by E sorting) (matching_users (search_pattern E search) d)) \<and>
    (\<forall>i < n. cnt i = int (length (matching_users (search_pattern E search) d)))"
proof
  let ?all = "order_users (user_order_by E sorting) (matching_users (search_pattern E search) d)"
  have s: "0 < s" by (simp add: s_def unat_clamp_page_size)
  have "distinct (matching_users (search_pattern E search) d)"
    using schema_ok_users(4) [OF ok] by (simp add: matching_users_def)
  moreover have "separated (user_order_by E sorting) (matching_users (search_pattern E search) d)"
    using untied user_by_username [OF ok] by (auto simp: separated_def matching_users_def)
  ultimately have scan: "order_users (user_order_by E sorting)
      (row_order E k (matching_users (search_pattern E search) d)) = ?all" for k
    by (intro order_users_unique) (simp_all add: separated_def)
  have item: "items i = map map_user (take s (drop (i * s) ?all))" if i: "i < n" for i
  proof -
    have "Suc i < 2 ^ 32" using i bound s by (metis One_nat_def Suc_leI le_less_trans mult.right_neutral mult_le_mono)
    then have "unat (of_nat (Suc i) :: 32 word) = Suc i" by (simp only: unat_of_nat) simp
    moreover have "i * s < 2 ^ 32" using i bound by (meson le_less_trans less_imp_le mult_le_mono1)
    ultimately have "unat (page_offset (of_nat (Suc i)) (clamp_page_size page_size)) = i * s"
      using unat_page_offset [of "of_nat (Suc i)" "clamp_page_size page_size"] by (simp add: s_def)
    then show ?thesis using users_list_Inr(2) [OF page [OF i]] by (simp add: s_def db [OF i] scan)
  qed
  have eq: "map items [0..<n] = map (\<lambda>i. map map_user (take s (drop (i * s) ?all))) [0..<n]"
    using item by simp
  have "concat (map items [0..<n]) = map map_user (concat (map (\<lambda>i. take s (drop (i * s) ?all)) [0..<n]))"
    unfolding eq by (simp add: map_concat comp_def)
  then show "concat (map items [0..<n]) = map map_user ?all"
    using enough by (simp add: concat_pages [OF s])
  show "\<forall>i < n. cnt i = int (length (matching_users (search_pattern E search) d))"
    using users_list_Inr(3) [OF page] db by simp
qed

theorem user_pages_complete_witness:
  "\<exists>items. concat (map items [0..<2]) = map map_user (db_users sample_db)"
proof -
  let ?r = "\<lambda>i. users_list sample_env (of_nat (Suc i)) 1 None (Some ''username'') (world_of sample_db)"
  let ?items = "\<lambda>i. fst (projr (fst (?r i)))" and ?cnt = "\<lambda>i. snd (projr (fst (?r i)))"
  have run: "?r i = (Inr (?items i, ?cnt i), snd (?r i))" for i
    by (simp add: users_list_def bindE_def query_at_def query_def map_err_def Let_def)
  have m: "matching_users (search_pattern sample_env None) sample_db = db_users sample_db"
    "order_users (user_order_by sample_env (Some ''username'')) (db_users sample_db) = db_users sample_db"
    "user_order_by sample_env (Some ''username'') = UsernameAsc"
    "2 * unat (clamp_page_size 1) = 2" "length (db_users sample_db) = 2" by code_simp+
  have ok: "schema_ok sample_db" by code_simp
  show ?thesis
    using user_pages_complete [where n = 2, OF ok run world_of_simps(2)] m by (intro exI [of _ ?items]) simp
qed

text \<open>Without such an order the pages may show one user twice and never another: here two users were created at
  the same time, the listing has the default order, and the second statement scans the rows the other way.\<close>

definition turning_scan :: env where
  "turning_scan = sample_env\<lparr>env_scan := (\<lambda>n i. if n = 0 then i else 9 - i)\<rparr>"

theorem user_pages_may_skip:
  "let first = users_list turning_scan 1 1 None None (world_of sample_db);
       second = users_list turning_scan 2 1 None None (snd first)
   in w_db (snd second) = sample_db \<and> map ur_username (db_users sample_db) = [''ann'', ''bob''] \<and>
      map u_username (fst (projr (fst first))) = [''ann''] \<and> map u_username (fst (projr (fst second))) = [''ann'']"
  by code_simp

text \<open>The offset of a page is computed in 32 bits and wraps around: page 42949674 of size 100 does not
  lie behind all users but shows the listing from the fifth user on.\<close>

theorem user_page_offset_wraps:
  assumes "users_list E 42949674 100 search sorting w = (Inr (items, cnt), w')"
  shows "items = map map_user (take 100 (drop 4
    (order_users (user_order_by E sorting) (row_order E (w_tick w) (matching_users (search_pattern E search) (w_db w))))))"
proof -
  have "unat (clamp_page_size 100) = 100" "unat (page_offset 42949674 (clamp_page_size 100)) = 4" by code_simp+
  then show ?thesis using users_list_Inr(2) [OF assms] by simp
qed

theorem user_page_offset_wraps_witness:
  "\<exists>items cnt w'. users_list sample_env 42949674 100 None None (world_of sample_db) = (Inr (items, cnt), w') \<and>
     items = []"
proof -
  obtain items cnt w' where run: "users_list sample_env 42949674 100 None None (world_of sample_db) =
      (Inr (items, cnt), w')"
    by (simp add: users_list_def bindE_def query_at_def query_def map_err_def Let_def)
  have "drop 4 (order_users (user_order_by sample_env None)
      (row_order sample_env 0 (matching_users (search_pattern sample_env None) sample_db))) = []" by code_simp
  with user_page_offset_wraps [OF run] run show ?thesis by simp
qed

lemma active_eta: "active n = (\<lambda>u. ur_username u = n \<and> ur_deleted_at u = None)"
  by (simp add: active_def fun_eq_iff)

text \<open>Starting a new second-factor setup needs nothing but the session token. It takes effect at once:
  afterwards the user has no enabled second factor and no backup codes, so a password alone logs in.\<close>

theorem totp_setup_disables:
  assumes ok: "schema_ok (w_db w)" and run: "auth_setup_totp E S tok w = (Inr x, w')"
  shows "\<exists>n s u v. session_at (w_db w) tok = Some s \<and> user_at (w_db w) n = Some u \<and> sr_user_id s = ur_id u \<and>
    user_at (w_db w') n = Some v \<and> \<not> totp_active v \<and> ur_totp_backup_code_hashes v = [] \<and>
    ur_password_hash v = ur_password_hash u"
proof -
  from run obtain cu w1 w2 secret where
    cur: "auth_current_user E S tok w = (Inr cu, w1)" and
    set: "totp_set_setup_secret E (cd_username cu) secret w2 = (Inr True, w')" and w2: "w2 = ticked w1"
    by (auto simp: auth_setup_totp_def exec_simps generate_totp_secret_def)
  from ok cur obtain s u where s: "session_at (w_db w) tok = Some s" "session_owner (w_db w) s = Some u"
    "ur_username u = cd_username cu" and ok1: "schema_ok (w_db w1)" and only: "only_sessions (w_db w) (w_db w1)"
    by (rule current_user_Inr)
  from s(2) have u: "u \<in> set (db_users (w_db w))" "ur_id u = sr_user_id s"
    unfolding session_owner_def by (auto dest: find_key_Some)
  then have at: "user_at (w_db w) (cd_username cu) = Some u" using s(3) user_at_mem [OF ok] by blast
  then have at2: "user_at (w_db w2) (cd_username cu) = Some u"
    by (simp add: w2 user_at_def only_sessions_tables(1) [OF only])
  let ?g = "\<lambda>u. u\<lparr>ur_totp_secret := Some secret, ur_totp_enabled_at := None, ur_totp_backup_code_hashes := [],
      ur_totp_login_token := None, ur_totp_login_expires_at := None\<rparr>"
  have "True = (\<exists>u. user_at (w_db w2) (cd_username cu) = Some u \<and> ur_deleted_at u = None) \<and>
    (\<forall>m. user_at (w_db w') m = (if True \<and> m = cd_username cu then map_option ?g (user_at (w_db w2) m)
       else user_at (w_db w2) m)) \<and> schema_ok (w_db w')"
    by (rule user_update_effect)
      (use ok1 set w2 in \<open>auto simp: totp_set_setup_secret_def exec_simps active_eta\<close>)
  then have "user_at (w_db w') (cd_username cu) = Some (?g u)" using at2 by simp
  then show ?thesis
    using s(1) at u(2)
    by (intro exI [of _ "cd_username cu"] exI [of _ s] exI [of _ u] exI [of _ "?g u"]) (simp add: totp_active_def)
qed


definition totp_session_world :: world where
  "totp_session_world = world_of (empty_db\<lparr>db_users := [totp_user], db_users_seq := 1,
     db_sessions := [sample_session (sample_token ''ann'') 1]\<rparr>)"

theorem totp_setup_disables_witness:
  "\<not> isl (fst (auth_setup_totp sample_env sample_auth (sample_token ''ann'') totp_session_world)) \<and>
   totp_active totp_user \<and>
   (\<exists>n v. user_at (w_db (snd (auth_setup_totp sample_env sample_auth (sample_token ''ann'') totp_session_world))) n = Some v \<and>
      \<not> totp_active v)"
proof -
  let ?run = "auth_setup_totp sample_env sample_auth (sample_token ''ann'') totp_session_world"
  have fst: "\<not> isl (fst ?run)" by code_simp
  then obtain x where run: "?run = (Inr x, snd ?run)" using run_ok by blast
  have ok: "schema_ok (w_db totp_session_world)" by code_simp
  have "totp_active totp_user" by (simp add: totp_active_def totp_user_def)
  with totp_setup_disables [OF ok run] fst show ?thesis by blast
qed

section \<open>Deleting and re-creating a user\<close>

definition names_kept :: "database \<Rightarrow> database \<Rightarrow> bool" where
  "names_kept d d' \<longleftrightarrow> db_sessions d' = db_sessions d \<and>
     (\<forall>u \<in> set (db_users d). \<exists>u' \<in> set (db_users d'). ur_id u' = ur_id u \<and> ur_username u' = ur_username u)"

interpretation names: db_relation names_kept
proof unfold_locales
  show "names_kept a c" if "names_kept a b" "names_kept b c" for a b c
    using that unfolding names_kept_def by metis
qed (auto simp: names_kept_def)

lemmas names_intros =
  names.steps_combinators names.steps_utc_now names.steps_new_uuid names.steps_query names.steps_transaction

lemma names_update_where:
  assumes "\<And>u. ur_id (g u) = ur_id u \<and> ur_username (g u) = ur_username u"
  shows "names_kept d (d\<lparr>db_users := update_where P g (db_users d)\<rparr>)"
proof -
  have "\<exists>u' \<in> set (update_where P g (db_users d)). (ur_id u', ur_username u') = (ur_id u, ur_username u)"
    if "u \<in> set (db_users d)" for u
    using that assms by (intro update_where_kept [where f = "\<lambda>u. (ur_id u, ur_username u)"]) auto
  then show ?thesis by (simp add: names_kept_def)
qed

lemma names_revive: "names_kept d (snd (insert_user_or_revive row (recreated c) d))"
proof -
  have "names_kept d (d\<lparr>db_users := update_where P (recreated c) (db_users d)\<rparr>)" for P
    by (rule names_update_where) (simp add: recreated_def revived_def)
  then show ?thesis
    by (auto simp: insert_user_or_revive_def insert_user_row_def Let_def names_kept_def split: option.splits)
qed

lemma names_frames:
  "steps (db_rel names_kept) (set_roles E n rs)" "steps (db_rel names_kept) (fetch_user E n)"
  "steps (db_rel names_kept) (enqueue_upsert E x rs r)"
  unfolding set_roles_def fetch_user_def enqueue_upsert_def enqueue_user_upsert_def enqueue_search_def
    enqueue_outbox_def
  by (intro names_intros names.steps_sql; auto simp: names_kept_def add_user_role_def outbox_insert_def)+

lemma names_writer_create: "steps (db_rel names_kept) (writer_create E c)"
  unfolding writer_create_def by (intro names_intros names_frames names.steps_sql names_revive)

lemma writer_create_active:
  assumes "writer_create E c w = (Inr x, w')"
  shows "\<exists>u \<in> set (db_users (w_db w')). active (cm_username c) u"
proof -
  from assms obtain w1 w2 w3 y where
    fetch: "fetch_user E (cm_username c) w1 = (Inr (Some x), w2)" and
    pub: "whenE (cm_publish_search c) (enqueue_upsert E x (cm_roles c) y) w2 = (Inr (), w3)" and w': "w' = ticked w3"
    by (clarsimp simp: writer_create_def transaction_Inr_iff bindE_Inr_iff seqE_Inr_iff ok_or_Inr_iff ret_Inr_iff)
  have "no_outbox (w_db w3) = no_outbox (w_db w2)"
    using pub by (rule same_run [rotated]) (intro same_intros enqueue_frames)
  from no_outbox_tables(1) [OF this] have "db_users (w_db w') = db_users (w_db w2)" by (simp add: w')
  moreover from fetch have "map_option map_user (find (active (cm_username c)) (db_users (w_db w2))) = Some x"
    by (simp add: fetch_user_def map_err_Inr_iff query_Inr_iff)
  then obtain u where "find (active (cm_username c)) (db_users (w_db w2)) = Some u" by blast
  ultimately show ?thesis using find_Some_iff2 by metis
qed

lemma writer_create_schema: "steps (db_rel (db_inv schema_ok)) (writer_create E c)"
  unfolding writer_create_def set_roles_def fetch_user_def by (intro schema_intros enqueue_schema)

text \<open>Deleting a user by an administrator leaves the user's sessions in place: when a user of that name
  is created again, every session of the deleted one that has not expired is accepted again.\<close>

theorem recreated_user_regains_sessions:
  assumes ok: "schema_ok (w_db w)" and del: "writer_delete E n pub w = (Inr True, w1)"
    and same: "w_db w2 = w_db w1" and new: "writer_create E c w2 = (Inr x, w3)" "cm_username c = n"
    and old: "session_view t (w_db w) tok = Some se" "s_username se = n"
  shows "\<exists>se'. session_view t (w_db w3) tok = Some se' \<and> s_username se' = n"
proof -
  note d = writer_delete_True [OF ok del]
  have nk: "names_kept (w_db w2) (w_db w3)" using stepsD [OF names_writer_create new(1)] by (simp add: db_rel_def)
  have ok3: "schema_ok (w_db w3)"
    by (rule inv_run [OF writer_create_schema new(1)]) (simp add: same d(1))
  from old obtain s u where s: "session_at (w_db w) tok = Some s" "session_owner (w_db w) s = Some u" "live t s"
    "ur_username u = n"
    by (auto simp: session_view_def to_session_def split: option.splits if_splits)
  have u: "u \<in> set (db_users (w_db w))" "ur_id u = sr_user_id s"
    using s(2) by (auto simp: session_owner_def dest: find_key_Some)
  from d(3) obtain u0 now where "user_at (w_db w) n = Some u0" "user_at (w_db w1) n =
       Some (u0\<lparr>ur_deleted_at := Some now, ur_search_revision := ur_search_revision u0 + 1\<rparr>)" by blast
  moreover have "u0 = u" using calculation(1) u(1) s(4) user_at_mem [OF ok] user_by_username [OF ok] by blast
  ultimately obtain v where v: "v \<in> set (db_users (w_db w2))" "ur_id v = ur_id u" "ur_username v = n"
    using user_at_mem [OF d(1)] s(4) by (fastforce simp: same)
  then obtain v3 where v3: "v3 \<in> set (db_users (w_db w3))" "ur_id v3 = ur_id u" "ur_username v3 = n"
    using nk unfolding names_kept_def by metis
  moreover obtain a where "a \<in> set (db_users (w_db w3))" "active n a" using writer_create_active [OF new(1)] new(2) by blast
  ultimately have act: "ur_deleted_at v3 = None"
    using user_by_username [OF ok3] by (metis active_def)
  have "session_at (w_db w3) tok = Some s"
    using s(1) nk d(2) by (simp add: session_at_def names_kept_def same)
  moreover have "session_owner (w_db w3) s = Some v3"
    unfolding session_owner_def using v3 u(2)
    by (intro find_unique [where k = ur_id] schema_ok_users(1) [OF ok3]) auto
  ultimately show ?thesis
    using s(3) v3(3) act by (simp add: session_view_def to_session_def)
qed

definition recreate_ann :: create_managed_user where
  "recreate_ann = \<lparr>cm_username = ''ann'', cm_password_hash = ''h'', cm_email_verified_at = None, cm_roles = [],
     cm_publish_search = False\<rparr>"

theorem recreated_user_regains_sessions_witness:
  "\<exists>w1 x w3 se'. writer_delete sample_env ''ann'' False session_world = (Inr True, w1) \<and>
     writer_create sample_env recreate_ann w1 = (Inr x, w3) \<and>
     session_view 0 (w_db w3) ''t'' = Some se' \<and> s_username se' = ''ann''"
proof -
  let ?d = "writer_delete sample_env ''ann'' False session_world"
  let ?c = "writer_create sample_env recreate_ann (snd ?d)"
  have f: "fst ?d = Inr True" "\<not> isl (fst ?c)" "schema_ok (w_db session_world)" by code_simp+
  note d = run_result [OF f(1)]
  obtain x where c: "?c = (Inr x, snd ?c)" using run_ok [OF f(2)] by blast
  have "session_view 0 (w_db session_world) ''t'' = Some (to_session (sample_session ''t'' 1) (sample_user 1 ''ann''))"
    by code_simp
  from recreated_user_regains_sessions [OF f(3) d refl c _ this] c d show ?thesis
    by (auto simp: recreate_ann_def to_session_def sample_user_def new_user_row_def)
qed

end
