(* ===== verification/Permission_Cache.thy ===== *)
theory Permission_Cache
  imports Identity_Api
begin

text \<open>
  The permission cache over the calls of the module: a successful change of roles starts a version of the cache that no
  entry belongs to yet (\<^verbatim>\<open>application/src/identity/permissions/cache.rs\<close>), so that the cached service decides by the
  tables again; changes of accounts do not, and leave entries behind.
\<close>

section \<open>Versions still to come\<close>

text \<open>The fresh UUIDs that are yet to be drawn: no key built from one of them is a key of the version in use or of the
  default version, and the cache holds no entry under it.\<close>

definition unused_versions :: "env \<Rightarrow> world \<Rightarrow> bool" where
  "unused_versions E w \<longleftrightarrow> (\<forall>k \<ge> w_tick w. \<forall>n.
     w_cache w (user_permissions_key (env_uuid E k) n) = None \<and>
     (\<forall>m. user_permissions_key (env_uuid E k) n \<noteq> user_permissions_key (version_of w) m \<and>
       user_permissions_key (env_uuid E k) n \<noteq> user_permissions_key DEFAULT_VERSION m))"

definition moves :: "env \<Rightarrow> world \<Rightarrow> world \<Rightarrow> bool" where
  "moves E w w' \<longleftrightarrow> w_tick w \<le> w_tick w' \<and> (unused_versions E w \<longrightarrow> unused_versions E w')"

definition quiet :: "world \<Rightarrow> world \<Rightarrow> bool" where
  "quiet w w' \<longleftrightarrow> w_cache w' = w_cache w \<and> w_tick w \<le> w_tick w'"

interpretation moving: run_relation "moves E" for E
  by unfold_locales (auto simp: moves_def)

interpretation calm: run_relation quiet
  by unfold_locales (auto simp: quiet_def)

lemma quiet_moves: "quiet w w' \<Longrightarrow> moves E w w'"
  by (auto simp: quiet_def moves_def unused_versions_def version_of_def)

lemma quiet_run: "steps quiet m \<Longrightarrow> m w = (r, w') \<Longrightarrow> quiet w w'"
  by (auto dest: stepsD)

lemma calm_primitives:
  "steps quiet (sql E stmt)" "steps quiet (query E f)" "steps quiet (query_at E g)" "steps quiet (utc_now E)"
  "steps quiet (new_uuid E)"
  by (rule stepsI, simp add: quiet_def sql_def query_at_def query_def utc_now_def new_uuid_def Let_def
      split: option.split prod.split)+

lemma calm_transaction:
  assumes "steps quiet body"
  shows "steps quiet (transaction E conv body)"
proof (rule stepsI)
  fix w
  have b: "w_cache w2 = w_cache w1 \<and> w_tick w1 \<le> w_tick w2" if "body w1 = (q, w2)" for w1 q w2
    using quiet_run [OF assms that] by (simp add: quiet_def)
  show "quiet w (snd (transaction E conv body w))"
    unfolding transaction_def driver_call_def query_def map_err_def
    by (auto simp: quiet_def dest!: b split: prod.splits sum.splits option.splits txn_end.splits)
qed

lemmas calm_intros = calm.steps_combinators calm_primitives calm_transaction

lemma calm_verify: "steps quiet (verify_token E js tok)"
  by (rule stepsI) (auto simp: quiet_def verify_token_def utc_now_def bindE_def throw_def ret_def
      split: list.split option.split)

lemma calm_provider: "steps quiet (provider_current_user E js tok)"
  unfolding provider_current_user_def of_domain_def sqlite_sessions_exists_def users_exists_def
  by (intro calm_intros calm_verify)

lemma calm_roles:
  "steps quiet (auth_create_role_with_audit E n a)" "steps quiet (auth_update_role E n m)"
  "steps quiet (auth_delete_role E n)" "steps quiet (auth_set_role_permissions E n ps)"
  "steps quiet (auth_assign_role E u n)"
  unfolding auth_create_role_with_audit_def auth_update_role_def auth_delete_role_def auth_set_role_permissions_def
    auth_assign_role_def users_id_by_username_def audit_record_def
  by (intro calm_intros)+


text \<open>Reading the cache only removes entries, and the cached service writes under the version it has read.\<close>

lemma movesI:
  assumes tick: "w_tick w \<le> w_tick w'" and version: "version_of w' = version_of w \<or> version_of w' = DEFAULT_VERSION"
    and entries: "\<And>k. w_cache w' k = w_cache w k \<or> w_cache w' k = None \<or>
      (\<exists>m. k = user_permissions_key (version_of w) m \<or> k = user_permissions_key DEFAULT_VERSION m)"
  shows "moves E w w'"
  unfolding moves_def
proof (intro conjI impI)
  assume un: "unused_versions E w"
  show "unused_versions E w'"
    unfolding unused_versions_def
  proof (intro allI impI)
    fix k n
    assume "w_tick w' \<le> k"
    with tick have "w_tick w \<le> k" by simp
    with un have u: "w_cache w (user_permissions_key (env_uuid E k) n) = None"
      "\<And>m. user_permissions_key (env_uuid E k) n \<noteq> user_permissions_key (version_of w) m"
      "\<And>m. user_permissions_key (env_uuid E k) n \<noteq> user_permissions_key DEFAULT_VERSION m"
      unfolding unused_versions_def by blast+
    from u entries [of "user_permissions_key (env_uuid E k) n"]
    have "w_cache w' (user_permissions_key (env_uuid E k) n) = None" by auto
    moreover have "user_permissions_key (env_uuid E k) n \<noteq> user_permissions_key (version_of w') m" for m
      using version u(2) [of m] u(3) [of m] by metis
    ultimately show "w_cache w' (user_permissions_key (env_uuid E k) n) = None \<and>
        (\<forall>m. user_permissions_key (env_uuid E k) n \<noteq> user_permissions_key (version_of w') m \<and>
          user_permissions_key (env_uuid E k) n \<noteq> user_permissions_key DEFAULT_VERSION m)"
      using u(3) by blast
  qed
qed (rule tick)

lemma tick_get: "w_tick w \<le> w_tick (snd (cache_get_string E c k w))"
  by (cases c) (simp_all add: cache_get_string_def memory_defs split: option.split)

lemma moves_get: "steps (moves E) (cache_get_string E c k)"
proof (rule stepsI)
  fix w
  obtain r w' where get: "cache_get_string E c k w = (r, w')" by fastforce
  have same: "w_cache w' k' = w_cache w k' \<or> w_cache w' k' = None" for k'
    using cache_dispatch.get_frame [OF get, THEN conjunct2, THEN spec, of k'] by auto
  have "moves E w w'"
  proof (rule movesI)
    show "w_tick w \<le> w_tick w'" using tick_get [of w E c k] by (simp add: get)
    show "version_of w' = version_of w \<or> version_of w' = DEFAULT_VERSION"
      using same [of VERSION_KEY] by (auto simp: version_of_def)
  qed (use same in blast)
  then show "moves E w (snd (cache_get_string E c k w))" by (simp add: get)
qed

lemma moves_version: "steps (moves E) (current_version E c)"
  unfolding current_version_def by (intro moving.steps_combinators moves_get)

lemma moves_cached: "steps (moves E) (cached_permissions E c n)"
  unfolding cached_permissions_def cached_user_permissions_key_def
  by (intro moving.steps_combinators moves_get moves_version)

lemma moves_set:
  assumes set: "cache_set_string E MemoryCache (user_permissions_key version n) v ttl w = (q, w')"
    and version: "version = version_of w \<or> version = DEFAULT_VERSION"
  shows "moves E w w'"
proof (rule movesI)
  show "w_tick w \<le> w_tick w'"
    using set by (auto simp: cache_set_string_def memory_defs split: option.splits if_splits)
  note frame = cache_dispatch.set_frame [OF set]
  then show "version_of w' = version_of w \<or> version_of w' = DEFAULT_VERSION" by (simp add: version_of_def)
  show "w_cache w' k = w_cache w k \<or> w_cache w' k = None \<or>
      (\<exists>m. k = user_permissions_key (version_of w) m \<or> k = user_permissions_key DEFAULT_VERSION m)" for k
    using frame version by blast
qed

lemma moves_store: "steps (moves E) (store_permissions E c ttl n ps)"
proof (rule stepsI)
  fix w
  show "moves E w (snd (store_permissions E c ttl n ps w))"
  proof (cases c)
    case NullCache
    have "steps quiet (store_permissions E NullCache ttl n ps)"
      unfolding store_permissions_def cached_user_permissions_key_def current_version_def cache_get_string_def
        cache_set_string_def cache_adapter.case
      by (intro calm_intros)
    then show ?thesis using NullCache quiet_moves by (auto simp: steps_def)
  next
    case MemoryCache
    obtain ver w1 where ver: "current_version E MemoryCache w = (Inr ver, w1)"
      by (cases "current_version E MemoryCache w"; cases "fst (current_version E MemoryCache w)")
        (auto simp: current_version_def exec_simps)
    obtain q w2 where set: "cache_set_string E MemoryCache (user_permissions_key ver n) (env_json_strings E ps) (Some ttl) w1 = (q, w2)"
      by fastforce
    have "moves E w w1" using stepsD [OF moves_version ver] .
    moreover have "ver = version_of w1 \<or> ver = DEFAULT_VERSION"
      using ver by (auto simp: current_version_def cache_get_string_def memory_defs attempt_def version_of_def
          split: option.splits prod.splits if_splits sum.splits)
    then have "moves E w1 w2" by (rule moves_set [OF set])
    ultimately show ?thesis
      using ver set MemoryCache moving.rel_trans
      by (auto simp: store_permissions_def cached_user_permissions_key_def bindE_def ret_def ignore_err_def)
  qed
qed

lemma moves_perm_require: "steps (moves E) (perm_require E S tok)"
proof -
  have q: "steps (moves E) m" if "steps quiet m" for m :: "('e, 'a) action"
    using that quiet_moves unfolding steps_def by blast
  note quiet_parts = calm_provider [THEN q] calm_primitives(2) [THEN q]
  show ?thesis
    unfolding perm_require_def authorization_require_def repository_require_def cached_require_def of_domain_def
      auth_user_permissions_def auth_user_has_permission_def
    by (cases "pm_authorization S")
      (simp_all, (intro moving.steps_combinators moves_cached moves_store quiet_parts)+)
qed

section \<open>After a change of roles\<close>

abbreviation grant_tables ::
    "database \<Rightarrow> user_row list \<times> role_row list \<times> user_role_row list \<times> role_permission_row list" where
  "grant_tables d \<equiv> (db_users d, db_roles d, db_user_roles d, db_role_permissions d)"

lemma grant_tables_grants: "grant_tables d' = grant_tables d \<Longrightarrow> grants d' n p = grants d n p"
  by (simp add: grants_def active_role_def)

lemma coherent_same_grants:
  assumes "cache_coherent E c w" "w_cache w' = w_cache w" "grant_tables (w_db w') = grant_tables (w_db w)"
  shows "cache_coherent E c w'"
proof -
  have "grants (w_db w') = grants (w_db w)" using grant_tables_grants [OF assms(3)] by (intro ext)
  with assms(1,2) show ?thesis by (simp add: cache_coherent_def version_of_def)
qed

lemma audit_same_grants: "steps (db_rel (db_same grant_tables)) (record_audit E js tok an et ei det)"
  unfolding record_audit_def audit_record_def
  by (intro same_intros same.steps_sql fixes_db_same provider_reads) (simp add: db_same_def)

lemma audit_calm: "steps quiet (record_audit E js tok an et ei det)"
  unfolding record_audit_def audit_record_def by (intro calm_intros calm_provider)

text \<open>The calls that change what roles grant.\<close>

fun changes_roles :: "permission_call \<Rightarrow> bool" where
  "changes_roles (CallCreateRole _ _) = True"
| "changes_roles (CallUpdateRole _ _ _) = True"
| "changes_roles (CallDeleteRole _ _) = True"
| "changes_roles (CallSetRolePermissions _ _ _) = True"
| "changes_roles (CallAssignUserRole _ _ _) = True"
| "changes_roles _ = False"

lemma role_change_invalidates:
  assumes "changes_roles c" "serve_permission E S c w = (Inr r, w')"
  shows "\<exists>w1 w2. moves E w w1 \<and> invalidate E (pm_cache S) w1 = (Inr (), w2) \<and>
    w_cache w' = w_cache w2 \<and> grant_tables (w_db w') = grant_tables (w_db w2)"
proof -
  have "moves E w w2" if "perm_require E S tok w = (Inr cu, w1)" "m w1 = (Inr x, w2)" "steps quiet m"
    for tok cu w1 w2 x and m :: "('e, 'a) action"
    using stepsD [OF moves_perm_require that(1)] quiet_moves [OF quiet_run [OF that(3,2)]] moving.rel_trans by blast
  note pre = this
  have post: "w_cache w4 = w_cache w3 \<and> grant_tables (w_db w4) = grant_tables (w_db w3)"
    if "record_audit E js tok an et ei det w3 = (Inr x, w4)" for js tok an et ei det x w3 w4
    using quiet_run [OF audit_calm that] same_run [OF audit_same_grants that] by (simp add: quiet_def)
  show ?thesis
  proof (cases c)
    case (CallCreateRole t n)
    with assms(2) obtain cu w0 w1 a where "perm_require E S t w = (Inr cu, w0)"
      "auth_create_role_with_audit E n a w0 = (Inr (), w1)" "invalidate E (pm_cache S) w1 = (Inr (), w')"
      by (auto simp: perm_create_role_def exec_simps)
    with pre [OF _ _ calm_roles(1)] show ?thesis by blast
  next
    case (CallUpdateRole t n m)
    with assms(2) obtain cu w0 w1 w2 d where "perm_require E S t w = (Inr cu, w0)"
      "auth_update_role E n m w0 = (Inr True, w1)" "invalidate E (pm_cache S) w1 = (Inr (), w2)"
      "record_audit E (pm_tokens S) t ''identity.roles.update'' ''identity.role'' (Some m) d w2 = (Inr (), w')"
      by (auto simp: perm_update_role_def exec_simps)
    with pre [OF _ _ calm_roles(2)] post show ?thesis by blast
  next
    case (CallDeleteRole t n)
    with assms(2) obtain cu w0 w1 w2 d where "perm_require E S t w = (Inr cu, w0)"
      "auth_delete_role E n w0 = (Inr True, w1)" "invalidate E (pm_cache S) w1 = (Inr (), w2)"
      "record_audit E (pm_tokens S) t ''identity.roles.delete'' ''identity.role'' (Some n) d w2 = (Inr (), w')"
      by (auto simp: perm_delete_role_def exec_simps)
    with pre [OF _ _ calm_roles(3)] post show ?thesis by blast
  next
    case (CallSetRolePermissions t n ps)
    with assms(2) obtain cu w0 w1 w2 qs d where "perm_require E S t w = (Inr cu, w0)"
      "auth_set_role_permissions E n qs w0 = (Inr (), w1)" "invalidate E (pm_cache S) w1 = (Inr (), w2)"
      "record_audit E (pm_tokens S) t ''identity.roles.set_permissions'' ''identity.role'' (Some n) d w2 = (Inr (), w')"
      by (auto simp: perm_set_role_permissions_def exec_simps dest!: parse_permissions)
    with pre [OF _ _ calm_roles(4)] post show ?thesis by blast
  next
    case (CallAssignUserRole t u n)
    with assms(2) obtain cu w0 w1 w2 d where "perm_require E S t w = (Inr cu, w0)"
      "auth_assign_role E u n w0 = (Inr (), w1)" "invalidate E (pm_cache S) w1 = (Inr (), w2)"
      "record_audit E (pm_tokens S) t ''identity.users.assign_role'' ''identity.user'' (Some u) d w2 = (Inr (), w')"
      by (auto simp: perm_assign_user_role_def exec_simps)
    with pre [OF _ _ calm_roles(5)] post show ?thesis by blast
  qed (use assms(1) in simp_all)
qed

text \<open>C17. A successful change of roles takes effect at once: whatever the cache held before, afterwards the cached
  service lets an authenticated user through for a permission of the module exactly if the tables grant it, as the
  repository service does, and refuses with the missing permission otherwise; only a failing driver gives another
  answer. The cache is coherent then. The hypotheses are that no panic has poisoned the lock of the cache and that fresh
  UUIDs are not versions of the cache already.\<close>

theorem role_changes_take_effect:
  assumes change: "changes_roles c" "serve_permission E S c w = (Inr r, w')"
    and lock: "\<And>n. \<not> env_lock_poisoned E n" and fresh: "unused_versions E w"
  shows "cache_coherent E (pm_cache S) w' \<and>
    (\<forall>u p ttl q v. cu_is_authenticated u \<and> p \<in> set all_names \<and> cached_require E (pm_cache S) ttl u p w' = (q, v) \<longrightarrow>
       q = (if grants (w_db w') (cu_username u) p then Inr () else Inl (missing_permission p)) \<or>
       (\<exists>m. q = Inl (Validation m)))"
proof -
  from role_change_invalidates [OF change] obtain w1 w2 where
    w1: "moves E w w1" and inval: "invalidate E (pm_cache S) w1 = (Inr (), w2)" and
    rest: "w_cache w' = w_cache w2" "grant_tables (w_db w') = grant_tables (w_db w2)" by blast
  from w1 fresh have "unused_versions E w1" by (simp add: moves_def)
  then have "w_cache w1 (user_permissions_key (env_uuid E (w_tick w1)) n) = None" for n
    by (simp add: unused_versions_def)
  with invalidate_coherent [OF inval lock] have "cache_coherent E (pm_cache S) w2" by blast
  then have co: "cache_coherent E (pm_cache S) w'" using rest by (rule coherent_same_grants)
  moreover have "q = (if grants (w_db w') (cu_username u) p then Inr () else Inl (missing_permission p)) \<or>
       (\<exists>m. q = Inl (Validation m))"
    if "cu_is_authenticated u" "p \<in> set all_names" "cached_require E (pm_cache S) ttl u p w' = (q, v)" for u p ttl q v
    using cached_decision [OF co that(3)] that(1,2) by auto
  ultimately show ?thesis by blast
qed

text \<open>A cache that grants ann what the tables do not.\<close>

definition stale_world :: world where
  "stale_world = token_world\<lparr>w_cache :=
     [user_permissions_key DEFAULT_VERSION ''ann'' \<mapsto> (enc_strs [USERS, AUTHORIZATION], None)]\<rparr>"

definition ann :: current_user where
  "ann = \<lparr>cu_username = ''ann'', cu_is_authenticated = True\<rparr>"

lemma stale_world_fresh: "unused_versions sample_env stale_world"
proof -
  have "user_permissions_key (enc_nat k) n \<noteq> user_permissions_key DEFAULT_VERSION m" for k n m
    by (cases k) (simp_all add: user_permissions_key_def enc_nat_def DEFAULT_VERSION_def)
  then show ?thesis by (auto simp: unused_versions_def stale_world_def version_of_def)
qed

theorem role_changes_take_effect_witness:
  "let (r, w') = serve_permission sample_env (sv_permissions cached_services)
         (CallSetRolePermissions (sample_token ''ann'') ''ops'' [USERS]) stale_world
   in r = Inr Done \<and> fst (cached_require sample_env MemoryCache 1 ann AUTHORIZATION stale_world) = Inr () \<and>
      fst (cached_require sample_env MemoryCache 1 ann AUTHORIZATION w') \<noteq> Inr ()"
proof -
  let ?c = "CallSetRolePermissions (sample_token ''ann'') ''ops'' [USERS]"
  let ?run = "serve_permission sample_env (sv_permissions cached_services) ?c stale_world"
  have f: "fst ?run = Inr Done" "fst (cached_require sample_env MemoryCache 1 ann AUTHORIZATION stale_world) = Inr ()"
    "\<not> grants (w_db (snd ?run)) ''ann'' AUTHORIZATION" "AUTHORIZATION \<in> set all_names" by code_simp+
  have cache: "pm_cache (sv_permissions cached_services) = MemoryCache" by (simp add: cached_services_def sample_services_def Let_def)
  have run: "?run = (Inr Done, snd ?run)" using f(1) by (rule run_result)
  have change: "changes_roles ?c" and lock: "\<And>n. \<not> env_lock_poisoned sample_env n" by simp_all
  note decided = role_changes_take_effect [OF change run lock stale_world_fresh, unfolded cache, THEN conjunct2, rule_format]
  have "q = Inl (missing_permission AUTHORIZATION) \<or> (\<exists>m. q = Inl (Validation m))"
    if "cached_require sample_env MemoryCache 1 ann AUTHORIZATION (snd ?run) = (q, v)" for q v
    using decided [OF conjI [OF _ conjI [OF f(4) that]]] f(3) by (simp add: ann_def)
  then have "fst (cached_require sample_env MemoryCache 1 ann AUTHORIZATION (snd ?run)) \<noteq> Inr ()"
    by (metis Inl_Inr_False prod.collapse)
  with f(1,2) show ?thesis by (simp add: case_prod_unfold)
qed

section \<open>Accounts and stale entries\<close>

lemma calm_fetch:
  "steps quiet (fetch_user E n)" "steps quiet (fetch_roles E i)" "steps quiet (enqueue_upsert E x rs k)"
  "steps quiet (enqueue_mail E mail kind n t)"
  unfolding fetch_user_def fetch_roles_def enqueue_upsert_def enqueue_user_upsert_def enqueue_search_def
    enqueue_mail_def enqueue_outbox_def Let_def
  by (intro calm_intros)+

lemma calm_confirm: "steps quiet (auth_confirm_email_change E S tok)"
  unfolding auth_confirm_email_change_def writer_confirm_email_change_def publish_updated_def update_users_returning_def
  by (intro calm_intros calm_fetch)

lemma calm_register: "steps quiet (auth_register E S n p)"
proof -
  have "steps quiet (hash_password E p)" "steps quiet (send_mail E mail)" for mail
    by (rule stepsI, simp add: hash_password_def send_mail_def quiet_def split: option.split)+
  note parts = this
  show ?thesis
    unfolding auth_register_def writer_register_def Let_def by (intro calm_intros calm_fetch parts)
qed

text \<open>Changing the address of an account does not invalidate the cache. Whoever registers the old name while its entry
  lives is granted what the entry lists, whatever the tables grant to the new account.\<close>

theorem stale_grant_after_renaming:
  assumes "auth_confirm_email_change E S tok w = (r, w1)" "auth_register E S n pw w1 = (r', w2)"
    and ok: "version_readable E w"
    and entry: "w_cache w (user_permissions_key (version_of w) n) = Some (v, e)" "\<And>k. fresh_entry (env_instant E k) (v, e)"
      "env_parse_strings E v = Some ps" "p \<in> set ps"
  shows "fst (cached_require E MemoryCache ttl \<lparr>cu_username = n, cu_is_authenticated = True\<rparr> p w2) = Inr ()"
proof -
  have cache: "w_cache w2 = w_cache w"
    using quiet_run [OF calm_confirm assms(1)] quiet_run [OF calm_register assms(2)] by (simp add: quiet_def)
  have ver: "current_version E MemoryCache w2 = (Inr (version_of w), ticked w2)"
    using ok cache
    by (auto simp: current_version_def cache_get_string_def memory_defs attempt_def version_of_def version_readable_def
        split: option.split)
  have "cached_permissions E MemoryCache n w2 = (Inr (Some ps), w3)" if
    "cache_get_string E MemoryCache (user_permissions_key (version_of w) n) (ticked w2) = (Inr (Some v), w3)" for w3
    using ver that entry(3) by (simp add: cached_permissions_def cached_user_permissions_key_def bindE_def attempt_def)
  moreover have "\<exists>w3. cache_get_string E MemoryCache (user_permissions_key (version_of w) n) (ticked w2) = (Inr (Some v), w3)"
    using ok entry(1) entry(2) [of "Suc (Suc (w_tick w2))"] cache
    by (auto simp: cache_get_string_def memory_defs version_readable_def fresh_entry_def split: option.splits)
  ultimately show ?thesis using entry(4) by (auto simp: cached_require_def exec_defs)
qed

theorem stale_grant_after_renaming_witness:
  "let w1 = snd (auth_confirm_email_change sample_env sample_auth ''t'' stale_world);
       w2 = snd (auth_register sample_env sample_auth ''ann'' ''pw'' w1)
   in fst (cached_require sample_env MemoryCache 1 ann USERS w2) = Inr ()"
proof -
  have "dec_strs (length (enc_strs [USERS, AUTHORIZATION])) (enc_strs [USERS, AUTHORIZATION]) = Some [USERS, AUTHORIZATION]"
    by (rule dec_enc_strs)
  then show ?thesis
    unfolding Let_def ann_def
    by (intro stale_grant_after_renaming [OF prod.collapse [symmetric] prod.collapse [symmetric],
          where v = "enc_strs [USERS, AUTHORIZATION]" and e = None and ps = "[USERS, AUTHORIZATION]"])
      (simp_all add: version_readable_def stale_world_def version_of_def fresh_entry_def token_world_def world_of_def)
qed

end
