(* ===== verification/Rust_Text.thy ===== *)
theory Rust_Text
  imports Rust_Std
begin

text \<open>
  More of Rust's standard library, used by the manifest and the tools: ASCII character classes,
  \<^verbatim>\<open>str::split\<close> and \<^verbatim>\<open>join\<close>, the components of a \<^verbatim>\<open>Path\<close>, and the sequencing of checks that
  return a \<^verbatim>\<open>Result\<close>.
\<close>

section \<open>Characters\<close>

definition is_ascii_lowercase :: "char \<Rightarrow> bool" where
  "is_ascii_lowercase c \<longleftrightarrow> CHR ''a'' \<le> c \<and> c \<le> CHR ''z''"

definition is_ascii_digit :: "char \<Rightarrow> bool" where
  "is_ascii_digit c \<longleftrightarrow> CHR ''0'' \<le> c \<and> c \<le> CHR ''9''"

definition is_ascii_alphanumeric :: "char \<Rightarrow> bool" where
  "is_ascii_alphanumeric c \<longleftrightarrow> is_ascii_lowercase c \<or> (CHR ''A'' \<le> c \<and> c \<le> CHR ''Z'') \<or> is_ascii_digit c"

definition is_ascii_uppercase :: "char \<Rightarrow> bool" where
  "is_ascii_uppercase c \<longleftrightarrow> CHR ''A'' \<le> c \<and> c \<le> CHR ''Z''"

text \<open>\<^verbatim>\<open>char::is_control\<close>: U+0000 to U+001F, U+007F, and U+0080 to U+009F, which are the byte 194
  followed by the bytes 128 to 159.\<close>

definition is_control :: "string \<Rightarrow> bool" where
  "is_control ch =
     (case ch of
        [c] \<Rightarrow> (of_char c :: nat) < 32 \<or> (of_char c :: nat) = 127
      | [c, d] \<Rightarrow> (of_char c :: nat) = 194 \<and> 128 \<le> (of_char d :: nat) \<and> (of_char d :: nat) \<le> 159
      | _ \<Rightarrow> False)"

definition has_control :: "string \<Rightarrow> bool" where
  "has_control s \<longleftrightarrow> (\<exists>ch \<in> set (utf8_chars s). is_control ch)"

lemma has_control_byte:
  "has_control s \<Longrightarrow> \<exists>c \<in> set s. (of_char c :: nat) < 32 \<or> (of_char c :: nat) \<in> {127, 194}"
proof -
  assume "has_control s"
  then obtain ch where ch: "ch \<in> set (utf8_chars s)" "is_control ch" by (auto simp: has_control_def)
  then have "hd ch \<in> set ch" "(of_char (hd ch) :: nat) < 32 \<or> (of_char (hd ch) :: nat) \<in> {127, 194}"
    by (auto simp: is_control_def split: list.splits)
  moreover have "set ch \<subseteq> set s"
    using ch(1) arg_cong [OF concat_utf8_chars [of s], of set] by auto
  ultimately show ?thesis by blast
qed

section \<open>Sequencing of checks\<close>

text \<open>\<^verbatim>\<open>check?; rest\<close>, \<^verbatim>\<open>x.ok_or(e)?\<close>, \<^verbatim>\<open>if c { return Err(e) }\<close> and a loop of checks.\<close>

definition then_check :: "'e + 'a \<Rightarrow> 'e + 'b \<Rightarrow> 'e + 'b" where
  "then_check a b = (case a of Inl e \<Rightarrow> Inl e | Inr _ \<Rightarrow> b)"

definition and_then :: "'e + 'a \<Rightarrow> ('a \<Rightarrow> 'e + 'b) \<Rightarrow> 'e + 'b" where
  "and_then a f = (case a of Inl e \<Rightarrow> Inl e | Inr x \<Rightarrow> f x)"

definition required :: "'a option \<Rightarrow> 'e \<Rightarrow> 'e + 'a" where
  "required x e = (case x of None \<Rightarrow> Inl e | Some v \<Rightarrow> Inr v)"

definition reject_if :: "bool \<Rightarrow> 'e \<Rightarrow> 'e + unit" where
  "reject_if b e = (if b then Inl e else Inr ())"

fun check_all :: "('a \<Rightarrow> 'e + unit) \<Rightarrow> 'a list \<Rightarrow> 'e + unit" where
  "check_all f [] = Inr ()"
| "check_all f (x # xs) = then_check (f x) (check_all f xs)"

definition map_error :: "('e \<Rightarrow> 'f) \<Rightarrow> 'e + 'a \<Rightarrow> 'f + 'a" where
  "map_error f r = (case r of Inl e \<Rightarrow> Inl (f e) | Inr x \<Rightarrow> Inr x)"

lemma then_check_Inr [simp]: "then_check a b = Inr x \<longleftrightarrow> (\<exists>y. a = Inr y) \<and> b = Inr x"
  by (simp add: then_check_def split: sum.split)

lemma then_check_Inr_left [simp]: "then_check (Inr y) b = b"
  by (simp add: then_check_def)

lemma then_check_Inl_left [simp]: "then_check (Inl e) b = Inl e"
  by (simp add: then_check_def)

lemma and_then_Inr [simp]: "and_then a f = Inr x \<longleftrightarrow> (\<exists>y. a = Inr y \<and> f y = Inr x)"
  by (simp add: and_then_def split: sum.split)

lemma and_then_Inr_left [simp]: "and_then (Inr y) f = f y"
  by (simp add: and_then_def)

lemma and_then_Inl_left [simp]: "and_then (Inl e) f = Inl e"
  by (simp add: and_then_def)

lemma required_Inr [simp]: "required x e = Inr v \<longleftrightarrow> x = Some v"
  by (auto simp: required_def split: option.split)

lemma required_simps [simp]: "required None e = Inl e" "required (Some v) e = Inr v"
  by (simp_all add: required_def)

lemma reject_if_Inr [simp]: "reject_if b e = Inr u \<longleftrightarrow> \<not> b"
  by (simp add: reject_if_def)

lemma reject_if_simps [simp]: "reject_if True e = Inl e" "reject_if False e = Inr ()"
  by (simp_all add: reject_if_def)

lemma map_error_Inr [simp]: "map_error f r = Inr x \<longleftrightarrow> r = Inr x"
  by (simp add: map_error_def split: sum.split)

lemma check_all_Inr [simp]: "check_all f xs = Inr u \<longleftrightarrow> (\<forall>x \<in> set xs. f x = Inr ())"
  by (induction xs) auto

section \<open>Splitting and joining\<close>

text \<open>\<^verbatim>\<open>str::split\<close> by a character: always at least one piece.\<close>

fun split_on :: "char \<Rightarrow> string \<Rightarrow> string list" where
  "split_on d [] = [[]]"
| "split_on d (c # s) =
     (if c = d then [] # split_on d s
      else case split_on d s of p # ps \<Rightarrow> (c # p) # ps | [] \<Rightarrow> [[c]])"

lemma split_on_nonempty [simp]: "split_on d s \<noteq> []"
  by (induction s) (auto split: list.split)

lemma join_split_on: "join [d] (split_on d s) = s"
proof (induction s)
  case (Cons c s)
  obtain p ps where "split_on d s = p # ps" by (cases "split_on d s") auto
  with Cons show ?case by (cases ps) auto
qed simp

lemma split_on_free: "p \<in> set (split_on d s) \<Longrightarrow> d \<notin> set p"
  by (induction s arbitrary: p) (auto split: if_splits list.splits)

lemma split_on_no_delimiter: "d \<notin> set s \<Longrightarrow> split_on d s = [s]"
  by (induction s) auto

lemma split_on_append:
  "d \<notin> set p \<Longrightarrow> split_on d (p @ d # s) = p # split_on d s"
  by (induction p) auto

lemma split_on_join:
  "ps \<noteq> [] \<Longrightarrow> (\<And>p. p \<in> set ps \<Longrightarrow> d \<notin> set p) \<Longrightarrow> split_on d (join [d] ps) = ps"
proof (induction ps)
  case (Cons p ps)
  then show ?case by (cases ps) (auto simp: split_on_no_delimiter split_on_append)
qed simp

definition strip_prefix :: "string \<Rightarrow> string \<Rightarrow> string option" where
  "strip_prefix p s = (if prefix p s then Some (drop (length p) s) else None)"

section \<open>Path components\<close>

text \<open>
  \<^verbatim>\<open>Path::components\<close> on Unix: a leading slash is the root directory, repeated and trailing slashes
  and every \<open>.\<close> but a leading one are dropped.
\<close>

datatype path_component = RootDir | CurDir | ParentDir | Normal string

definition segment_component :: "string \<Rightarrow> path_component" where
  "segment_component s = (if s = ''..'' then ParentDir else Normal s)"

definition path_components :: "string \<Rightarrow> path_component list" where
  "path_components p =
     (let segments = split_on (CHR ''/'') p
      in (if prefix ''/'' p then [RootDir] else if hd segments = ''.'' then [CurDir] else []) @
         map segment_component (filter (\<lambda>s. s \<noteq> [] \<and> s \<noteq> ''.'') segments))"

definition is_absolute :: "string \<Rightarrow> bool" where
  "is_absolute p \<longleftrightarrow> prefix ''/'' p"

text \<open>Paths whose components are all normal, and the text that spells them.\<close>

fun normal_segments :: "path_component list \<Rightarrow> string list option" where
  "normal_segments [] = Some []"
| "normal_segments (Normal segment # rest) = map_option ((#) segment) (normal_segments rest)"
| "normal_segments (_ # rest) = None"

lemma normal_segments_Some: "normal_segments cs = Some ss \<longleftrightarrow> cs = map Normal ss"
  by (induction cs arbitrary: ss rule: normal_segments.induct) (auto simp: Cons_eq_map_conv)

end
