(* ===== verification/Application_Manifest.thy ===== *)
theory Application_Manifest
  imports Rust_Text "HOL-Library.Multiset" "HOL-Library.Option_ord" "HOL-Library.Product_Lexorder"
begin

text \<open>
  The application manifest \<^verbatim>\<open>hegira.toml\<close> (\<^verbatim>\<open>crates/application_manifest/src/lib.rs\<close>): its data, the
  validation of all three schemas, normalisation, reading and writing, and the assessment whether a
  manifest is compatible with a release. The TOML, URL and version parsers are third-party
  packages and enter as the parameters of \<open>manifest_codec\<close>. A \<^verbatim>\<open>BTreeSet\<close> is a finite set, iterated
  in increasing order by \<open>sorted_list_of_set\<close>.
\<close>

section \<open>Data\<close>

definition APPLICATION_MANIFEST_SCHEMA :: "32 word" where "APPLICATION_MANIFEST_SCHEMA = 3"
definition COMPOSITION_APPLICATION_MANIFEST_SCHEMA :: "32 word" where "COMPOSITION_APPLICATION_MANIFEST_SCHEMA = 2"
definition LEGACY_APPLICATION_MANIFEST_SCHEMA :: "32 word" where "LEGACY_APPLICATION_MANIFEST_SCHEMA = 1"
definition HEGIRA_FRAMEWORK_REPOSITORY :: string where
  "HEGIRA_FRAMEWORK_REPOSITORY = ''https://github.com/furkancemalcaliskan/hegira.git''"
definition HEGIRA_COMPONENT_PACKAGE :: string where "HEGIRA_COMPONENT_PACKAGE = ''hegira-canonical''"
definition LAYERED_BASE_COMPONENT :: string where "LAYERED_BASE_COMPONENT = ''layered-base''"
definition LAYERED_LEPTOS_IDENTITY_COMPONENT :: string where
  "LAYERED_LEPTOS_IDENTITY_COMPONENT = ''layered-leptos-identity''"
definition LAYERED_LEPTOS_MINIMAL_COMPONENT :: string where
  "LAYERED_LEPTOS_MINIMAL_COMPONENT = ''layered-leptos-minimal''"
definition IDENTITY_COMPONENT :: string where "IDENTITY_COMPONENT = ''identity''"
definition IDENTITY_MODULE :: string where "IDENTITY_MODULE = ''identity''"

definition SUPPORTED_COMPONENTS :: "string list" where
  "SUPPORTED_COMPONENTS =
     [LAYERED_BASE_COMPONENT, LAYERED_LEPTOS_IDENTITY_COMPONENT, LAYERED_LEPTOS_MINIMAL_COMPONENT, IDENTITY_COMPONENT]"

datatype application_capability = Authentication | Authorization
datatype database_adapter = Postgres | Sqlite
datatype client_adapter = Leptos
datatype source_ownership_class = ApplicationOwned | ManagedIntegration | GeneratedOnce | ImmutableHistory

text \<open>The derived orders follow the order of the variants.\<close>

instantiation application_capability :: linorder
begin

definition less_eq_application_capability :: "application_capability \<Rightarrow> application_capability \<Rightarrow> bool" where
  "less_eq_application_capability a b \<longleftrightarrow> a = b \<or> a = Authentication"

definition less_application_capability :: "application_capability \<Rightarrow> application_capability \<Rightarrow> bool" where
  "less_application_capability a b \<longleftrightarrow> a = Authentication \<and> b = Authorization"

instance
  by standard (auto simp: less_eq_application_capability_def less_application_capability_def
      intro: application_capability.exhaust)
end

instantiation database_adapter :: linorder
begin

definition less_eq_database_adapter :: "database_adapter \<Rightarrow> database_adapter \<Rightarrow> bool" where
  "less_eq_database_adapter a b \<longleftrightarrow> a = b \<or> a = Postgres"

definition less_database_adapter :: "database_adapter \<Rightarrow> database_adapter \<Rightarrow> bool" where
  "less_database_adapter a b \<longleftrightarrow> a = Postgres \<and> b = Sqlite"

instance
  by standard (auto simp: less_eq_database_adapter_def less_database_adapter_def intro: database_adapter.exhaust)
end

instantiation client_adapter :: linorder
begin

definition less_eq_client_adapter :: "client_adapter \<Rightarrow> client_adapter \<Rightarrow> bool" where
  "less_eq_client_adapter a b \<longleftrightarrow> True"

definition less_client_adapter :: "client_adapter \<Rightarrow> client_adapter \<Rightarrow> bool" where
  "less_client_adapter a b \<longleftrightarrow> False"

instance
  by standard (auto simp: less_eq_client_adapter_def less_client_adapter_def client_adapter.exhaust,
      metis client_adapter.exhaust)
end

fun class_rank :: "source_ownership_class \<Rightarrow> nat" where
  "class_rank ApplicationOwned = 0"
| "class_rank ManagedIntegration = 1"
| "class_rank GeneratedOnce = 2"
| "class_rank ImmutableHistory = 3"

instantiation source_ownership_class :: linorder
begin

definition less_eq_source_ownership_class :: "source_ownership_class \<Rightarrow> source_ownership_class \<Rightarrow> bool" where
  "less_eq_source_ownership_class a b \<longleftrightarrow> class_rank a \<le> class_rank b"

definition less_source_ownership_class :: "source_ownership_class \<Rightarrow> source_ownership_class \<Rightarrow> bool" where
  "less_source_ownership_class a b \<longleftrightarrow> class_rank a < class_rank b"

instance
proof
  show "a = b" if "a \<le> b" "b \<le> a" for a b :: source_ownership_class
    using that by (cases a; cases b) (simp_all add: less_eq_source_ownership_class_def)
qed (auto simp: less_eq_source_ownership_class_def less_source_ownership_class_def)
end

record framework_contract =
  fc_repository :: string
  fc_version :: string

record package_identity =
  pk_id :: string
  pk_version :: string

record installed_component =
  ic_id :: string
  ic_version :: string

record installed_module =
  im_id :: string
  im_version :: string

record application_selection =
  sl_components :: "string set"
  sl_databases :: "database_adapter set"
  sl_clients :: "client_adapter set"

record application_composition =
  cp_package :: package_identity
  cp_components :: "installed_component list"
  cp_modules :: "installed_module list"
  cp_capabilities :: "application_capability set"

record source_ownership_claim =
  cl_path :: string
  cl_class :: source_ownership_class
  cl_integration :: "string option"

record source_ownership =
  ow_default :: source_ownership_class
  ow_claims :: "source_ownership_claim list"

record application_upgrade_state =
  ug_framework :: framework_contract
  ug_package :: package_identity
  ug_ownership :: source_ownership

record application_manifest =
  am_schema :: "32 word"
  am_application :: string
  am_framework :: framework_contract
  am_selection :: application_selection
  am_composition :: "application_composition option"
  am_upgrade :: "application_upgrade_state option"

datatype identity_kind = ComponentKind | ModuleKind

datatype manifest_error =
    ReadError string
  | ParseError string
  | SerializeError string
  | UnsupportedSchema "32 word"
  | InvalidApplicationName string
  | InvalidFrameworkRepository string
  | InvalidFrameworkVersion string
  | InvalidComponent string
  | InvalidModule string
  | InvalidPackage string
  | UnsupportedComponent string
  | MissingComposition
  | MissingUpgradeState
  | OlderManifestReadOnly "32 word"
  | InvalidOwnershipDefault
  | InvalidOwnershipPath string
  | InvalidOwnershipIntegration string
  | InvalidOwnershipClaim string
  | DuplicateOwnership string "string option"
  | OverlappingOwnership string string
  | InconsistentUpgradeState string
  | DuplicateIdentity identity_kind string
  | EmptyDatabaseSelection
  | EmptyClientSelection
  | IncompatibleSelection string

text \<open>What the third-party parsers deliver: the parts of a URL that the code looks at, and whether the
  pre-release and build parts of a semantic version are empty.\<close>

datatype url_host = DomainHost string | Ipv4Host bool | Ipv6Host bool

record parsed_url =
  pu_scheme :: string
  pu_host :: "url_host option"
  pu_username :: string
  pu_password :: "string option"
  pu_query :: "string option"
  pu_fragment :: "string option"
  pu_path :: string

record parsed_version =
  pv_pre_empty :: bool
  pv_build_empty :: bool

record manifest_codec =
  mc_parse_url :: "string \<Rightarrow> parsed_url option"
  mc_parse_version :: "string \<Rightarrow> parsed_version option"
  mc_from_toml :: "string \<Rightarrow> string + application_manifest"
  mc_probe_schema :: "string \<Rightarrow> string + 32 word"
  mc_to_toml :: "application_manifest \<Rightarrow> string + string"
  mc_debug_str :: "string \<Rightarrow> string"

section \<open>Names\<close>

text \<open>The test on the byte at an index that names and identifiers share.\<close>

definition kebab_byte :: "string \<Rightarrow> nat \<Rightarrow> bool" where
  "kebab_byte name index \<longleftrightarrow>
     (let character = name ! index
      in is_ascii_lowercase character \<or> is_ascii_digit character \<or>
         (character = CHR ''-'' \<and> index > 0 \<and> index + 1 < length name \<and> name ! (index - 1) \<noteq> CHR ''-''))"

definition first_lowercase :: "string \<Rightarrow> bool" where
  "first_lowercase name \<longleftrightarrow> (case name of [] \<Rightarrow> False | c # _ \<Rightarrow> is_ascii_lowercase c)"

definition reserved_words :: "string list" where
  "reserved_words =
     [''as'', ''async'', ''await'', ''break'', ''const'', ''continue'', ''crate'', ''dyn'', ''else'', ''enum'',
      ''extern'', ''false'', ''fn'', ''for'', ''if'', ''impl'', ''in'', ''let'', ''loop'', ''match'', ''mod'',
      ''move'', ''mut'', ''pub'', ''ref'', ''return'', ''self'', ''static'', ''struct'', ''super'', ''trait'',
      ''true'', ''type'', ''unsafe'', ''use'', ''where'', ''while'', ''abstract'', ''become'', ''box'', ''do'',
      ''final'', ''gen'', ''macro'', ''override'', ''priv'', ''try'', ''typeof'', ''unsized'', ''virtual'',
      ''yield'', ''union'', ''target'', ''con'', ''prn'', ''aux'', ''nul'']"

definition reserved_project_name :: "string \<Rightarrow> bool" where
  "reserved_project_name input =
     (let name = to_ascii_lowercase input
      in name \<in> set reserved_words \<or>
         ((prefix ''com'' name \<or> prefix ''lpt'' name) \<and> length name = 4 \<and>
          CHR ''1'' \<le> name ! 3 \<and> name ! 3 \<le> CHR ''9''))"

definition validate_application_name :: "string \<Rightarrow> manifest_error + unit" where
  "validate_application_name name =
     (if name \<noteq> [] \<and> length name \<le> 64 \<and> (\<forall>index \<in> set [0..<length name]. kebab_byte name index) \<and>
         first_lowercase name \<and> \<not> reserved_project_name name
      then Inr () else Inl (InvalidApplicationName name))"

definition validate_component_identifier :: "string \<Rightarrow> manifest_error + unit" where
  "validate_component_identifier component =
     (if component \<noteq> [] \<and> (\<forall>index \<in> set [0..<length component]. kebab_byte component index) \<and>
         first_lowercase component
      then Inr () else Inl (InvalidComponent component))"

definition validate_module_identifier :: "string \<Rightarrow> manifest_error + unit" where
  "validate_module_identifier module =
     map_error (\<lambda>_. InvalidModule module) (validate_component_identifier module)"

section \<open>Framework contract\<close>

definition validate_release_version :: "manifest_codec \<Rightarrow> string \<Rightarrow> unit + unit" where
  "validate_release_version C version =
     (if \<not> prefix ''v'' version then Inl ()
      else case mc_parse_version C (drop 1 version) of
        None \<Rightarrow> Inl ()
      | Some v \<Rightarrow> reject_if (\<not> pv_pre_empty v \<or> \<not> pv_build_empty v) ())"

definition host_is_local :: "url_host option \<Rightarrow> bool" where
  "host_is_local h =
     (case h of
        Some (DomainHost host) \<Rightarrow> eq_ignore_ascii_case host ''localhost''
      | Some (Ipv4Host loopback) \<Rightarrow> loopback
      | Some (Ipv6Host loopback) \<Rightarrow> loopback
      | None \<Rightarrow> True)"

definition validate_framework_contract :: "manifest_codec \<Rightarrow> framework_contract \<Rightarrow> manifest_error + unit" where
  "validate_framework_contract C contract =
     and_then (required (mc_parse_url C (fc_repository contract)) (InvalidFrameworkRepository (fc_repository contract))) (\<lambda>repository.
     then_check (reject_if
        (pu_scheme repository \<noteq> ''https'' \<or> host_is_local (pu_host repository) \<or> pu_username repository \<noteq> [] \<or>
         pu_password repository \<noteq> None \<or> pu_query repository \<noteq> None \<or> pu_fragment repository \<noteq> None \<or>
         \<not> suffix ''.git'' (pu_path repository))
        (InvalidFrameworkRepository (fc_repository contract)))
     (map_error (\<lambda>_. InvalidFrameworkVersion (fc_version contract)) (validate_release_version C (fc_version contract))))"

section \<open>Selections\<close>

definition validate_legacy_selection :: "application_selection \<Rightarrow> manifest_error + unit" where
  "validate_legacy_selection selection =
     then_check (reject_if (sl_databases selection = {}) EmptyDatabaseSelection)
     (then_check (reject_if (sl_clients selection = {}) EmptyClientSelection)
     (then_check (check_all (\<lambda>component.
         then_check (validate_component_identifier component)
           (reject_if (component \<notin> set SUPPORTED_COMPONENTS) (UnsupportedComponent component)))
         (sorted_list_of_set (sl_components selection)))
     (then_check (reject_if (LAYERED_BASE_COMPONENT \<notin> sl_components selection)
         (IncompatibleSelection (''every layered application requires '' @ LAYERED_BASE_COMPONENT)))
     (reject_if (Leptos \<in> sl_clients selection \<and> LAYERED_LEPTOS_IDENTITY_COMPONENT \<notin> sl_components selection)
         (IncompatibleSelection (''the Leptos client requires '' @ LAYERED_LEPTOS_IDENTITY_COMPONENT))))))"

definition validate_current_selection :: "application_selection \<Rightarrow> manifest_error + unit" where
  "validate_current_selection selection =
     then_check (reject_if (card (sl_databases selection) \<noteq> 1)
       (IncompatibleSelection ''current manifests must select exactly one database adapter''))
     (reject_if (card (sl_clients selection) \<noteq> 1)
       (IncompatibleSelection ''current manifests must select exactly one client adapter''))"

section \<open>Composition\<close>

fun database_name :: "database_adapter \<Rightarrow> string" where
  "database_name Postgres = ''postgres''" | "database_name Sqlite = ''sqlite''"

fun client_name :: "client_adapter \<Rightarrow> string" where
  "client_name Leptos = ''leptos''"

fun capability_name :: "application_capability \<Rightarrow> string" where
  "capability_name Authentication = ''authentication''" | "capability_name Authorization = ''authorization''"

definition format_set :: "('a::linorder \<Rightarrow> string) \<Rightarrow> 'a set \<Rightarrow> string" where
  "format_set name values = ''['' @ join '', '' (map name (sorted_list_of_set values)) @ '']''"

definition format_string_set :: "string set \<Rightarrow> string" where
  "format_string_set = format_set (\<lambda>s. s)"

definition format_database_set :: "database_adapter set \<Rightarrow> string" where
  "format_database_set = format_set database_name"

definition format_client_set :: "client_adapter set \<Rightarrow> string" where
  "format_client_set = format_set client_name"

definition format_capability_set :: "application_capability set \<Rightarrow> string" where
  "format_capability_set = format_set capability_name"

text \<open>The loops over components and modules, with the identifiers seen so far.\<close>

fun check_identities ::
    "(string \<Rightarrow> manifest_error + unit) \<Rightarrow> identity_kind \<Rightarrow> string \<Rightarrow> manifest_codec \<Rightarrow> string \<Rightarrow> string set
      \<Rightarrow> (string \<times> string) list \<Rightarrow> manifest_error + string set" where
  "check_identities validate kind label C package_version seen [] = Inr seen"
| "check_identities validate kind label C package_version seen ((ident, version) # rest) =
     then_check (validate ident)
     (then_check (reject_if (ident \<in> seen) (DuplicateIdentity kind ident))
     (then_check (map_error (\<lambda>_. IncompatibleSelection (label @ '' '' @ ident @ '' has invalid version '' @ version))
        (validate_release_version C version))
     (then_check (reject_if (version \<noteq> package_version)
        (IncompatibleSelection (label @ '' '' @ ident @ '' version '' @ version @ '' does not match package version '' @ package_version)))
      (check_identities validate kind label C package_version (insert ident seen) rest))))"

definition component_pairs :: "application_composition \<Rightarrow> (string \<times> string) list" where
  "component_pairs c = map (\<lambda>x. (ic_id x, ic_version x)) (cp_components c)"

definition module_pairs :: "application_composition \<Rightarrow> (string \<times> string) list" where
  "module_pairs c = map (\<lambda>x. (im_id x, im_version x)) (cp_modules c)"

definition validate_composition ::
    "manifest_codec \<Rightarrow> application_composition \<Rightarrow> framework_contract \<Rightarrow> manifest_error + unit" where
  "validate_composition C composition framework =
     (let package = cp_package composition
      in then_check (map_error (\<lambda>_. InvalidPackage (pk_id package)) (validate_component_identifier (pk_id package)))
         (then_check (reject_if (pk_id package \<noteq> HEGIRA_COMPONENT_PACKAGE) (InvalidPackage (pk_id package)))
         (then_check (map_error (\<lambda>_. InvalidPackage (pk_version package)) (validate_release_version C (pk_version package)))
         (then_check (reject_if (pk_version package \<noteq> fc_version framework)
            (IncompatibleSelection (''component package version '' @ pk_version package @
               '' does not match framework version '' @ fc_version framework)))
         (and_then (check_identities validate_component_identifier ComponentKind ''component'' C (pk_version package) {}
            (component_pairs composition)) (\<lambda>component_ids.
         then_check (reject_if (LAYERED_BASE_COMPONENT \<notin> component_ids)
            (IncompatibleSelection (''every layered application requires '' @ LAYERED_BASE_COMPONENT)))
         (and_then (check_identities validate_module_identifier ModuleKind ''module'' C (pk_version package) {}
            (module_pairs composition)) (\<lambda>module_ids.
          let identity_component = (LAYERED_LEPTOS_IDENTITY_COMPONENT \<in> component_ids \<or> IDENTITY_COMPONENT \<in> component_ids);
              identity_module = (IDENTITY_MODULE \<in> module_ids);
              expected_capabilities = (if identity_module then {Authentication, Authorization} else {})
          in then_check (reject_if (identity_component \<noteq> identity_module)
               (IncompatibleSelection ''the Identity component and module must be installed together''))
             (reject_if (cp_capabilities composition \<noteq> expected_capabilities)
               (IncompatibleSelection (''composition capabilities '' @ format_capability_set (cp_capabilities composition) @
                  '' do not match installed modules '' @ format_string_set module_ids)))))))))))"

section \<open>Source ownership\<close>

definition ownership_segment :: "string \<Rightarrow> bool" where
  "ownership_segment segment \<longleftrightarrow> segment \<noteq> [] \<and> length segment \<le> 255 \<and>
     (\<forall>byte \<in> set segment. is_ascii_alphanumeric byte \<or> byte \<in> {CHR ''-'', CHR ''_'', CHR ''.''})"

definition validate_ownership_path :: "string \<Rightarrow> manifest_error + unit" where
  "validate_ownership_path value =
     (if value = [] \<or> length value > 4096 \<or> CHR 0x5C \<in> set value \<or> has_control value \<or> is_absolute value
      then Inl (InvalidOwnershipPath value)
      else case normal_segments (path_components value) of
        None \<Rightarrow> Inl (InvalidOwnershipPath value)
      | Some normalized \<Rightarrow>
          (if \<exists>segment \<in> set normalized. \<not> ownership_segment segment then Inl (InvalidOwnershipPath value)
           else reject_if (join ''/'' normalized \<noteq> value) (InvalidOwnershipPath value)))"

definition validate_ownership_integration :: "string \<Rightarrow> manifest_error + unit" where
  "validate_ownership_integration value =
     reject_if (length value > 128 \<or> isl (validate_component_identifier value)) (InvalidOwnershipIntegration value)"

definition ownership_paths_overlap :: "string \<Rightarrow> string \<Rightarrow> bool" where
  "ownership_paths_overlap left right \<longleftrightarrow>
     left = right \<or>
     is_some_and (prefix ''/'') (strip_prefix right left) \<or>
     is_some_and (prefix ''/'') (strip_prefix left right)"

definition check_claim_class :: "source_ownership_claim \<Rightarrow> manifest_error + unit" where
  "check_claim_class claim =
     (case (cl_class claim, cl_integration claim) of
        (ManagedIntegration, Some integration) \<Rightarrow> validate_ownership_integration integration
      | (ManagedIntegration, None) \<Rightarrow> Inl (InvalidOwnershipClaim
          (''managed integration claim '' @ cl_path claim @ '' has no integration identity''))
      | (_, Some _) \<Rightarrow> Inl (InvalidOwnershipClaim
          (''non-managed ownership claim '' @ cl_path claim @ '' cannot name an integration''))
      | (_, None) \<Rightarrow> Inr ())"

fun check_claims :: "(string \<times> string option) set \<Rightarrow> source_ownership_claim list \<Rightarrow> manifest_error + unit" where
  "check_claims identities [] = Inr ()"
| "check_claims identities (claim # rest) =
     then_check (validate_ownership_path (cl_path claim))
     (then_check (check_claim_class claim)
     (then_check (reject_if ((cl_path claim, cl_integration claim) \<in> identities)
         (DuplicateOwnership (cl_path claim) (cl_integration claim)))
      (check_claims (insert (cl_path claim, cl_integration claim) identities) rest)))"

definition check_overlap :: "source_ownership_claim \<Rightarrow> source_ownership_claim \<Rightarrow> manifest_error + unit" where
  "check_overlap left right =
     (if cl_path left = cl_path right \<and> cl_class left = ManagedIntegration \<and> cl_class right = ManagedIntegration
      then Inr ()
      else reject_if (ownership_paths_overlap (cl_path left) (cl_path right))
             (OverlappingOwnership (cl_path left) (cl_path right)))"

fun check_overlaps :: "source_ownership_claim list \<Rightarrow> manifest_error + unit" where
  "check_overlaps [] = Inr ()"
| "check_overlaps (left # rest) = then_check (check_all (check_overlap left) rest) (check_overlaps rest)"

definition validate_ownership :: "source_ownership \<Rightarrow> manifest_error + unit" where
  "validate_ownership ownership =
     then_check (reject_if (ow_default ownership \<noteq> ApplicationOwned) InvalidOwnershipDefault)
     (then_check (reject_if (length (ow_claims ownership) > 4096)
         (InvalidOwnershipClaim ''source ownership may contain at most 4096 explicit claims''))
     (then_check (check_claims {} (ow_claims ownership))
      (check_overlaps (ow_claims ownership))))"

section \<open>Validation of a manifest\<close>

definition validate_upgrade_state ::
    "manifest_codec \<Rightarrow> application_upgrade_state \<Rightarrow> framework_contract \<Rightarrow> application_composition \<Rightarrow> manifest_error + unit" where
  "validate_upgrade_state C upgrade framework composition =
     then_check (validate_framework_contract C (ug_framework upgrade))
     (then_check (reject_if (ug_framework upgrade \<noteq> framework)
         (InconsistentUpgradeState ''upgrade framework identity does not match framework''))
     (then_check (map_error (\<lambda>_. InvalidPackage (pk_id (ug_package upgrade)))
         (validate_component_identifier (pk_id (ug_package upgrade))))
     (then_check (map_error (\<lambda>_. InvalidPackage (pk_version (ug_package upgrade)))
         (validate_release_version C (pk_version (ug_package upgrade))))
     (then_check (reject_if (ug_package upgrade \<noteq> cp_package composition)
         (InconsistentUpgradeState ''upgrade package identity does not match composition.package''))
      (validate_ownership (ug_ownership upgrade))))))"

definition validate_composed_structure :: "manifest_codec \<Rightarrow> application_manifest \<Rightarrow> manifest_error + unit" where
  "validate_composed_structure C manifest =
     then_check (reject_if (sl_components (am_selection manifest) \<noteq> {})
       (IncompatibleSelection ''composed manifests record components only in composition.components''))
     (and_then (required (am_composition manifest) MissingComposition) (\<lambda>composition.
        validate_composition C composition (am_framework manifest)))"

definition validate_composed_state :: "manifest_codec \<Rightarrow> application_manifest \<Rightarrow> manifest_error + unit" where
  "validate_composed_state C manifest =
     then_check (validate_composed_structure C manifest) (validate_current_selection (am_selection manifest))"

definition check_upgrade :: "manifest_codec \<Rightarrow> application_manifest \<Rightarrow> manifest_error + unit" where
  "check_upgrade C manifest =
     and_then (required (am_upgrade manifest) MissingUpgradeState) (\<lambda>upgrade.
     and_then (required (am_composition manifest) MissingComposition) (\<lambda>composition.
       validate_upgrade_state C upgrade (am_framework manifest) composition))"

definition validate_manifest :: "manifest_codec \<Rightarrow> application_manifest \<Rightarrow> manifest_error + unit" where
  "validate_manifest C manifest =
     then_check (validate_application_name (am_application manifest))
     (then_check (validate_framework_contract C (am_framework manifest))
      (if am_schema manifest = LEGACY_APPLICATION_MANIFEST_SCHEMA then
         then_check (reject_if (am_composition manifest \<noteq> None \<or> am_upgrade manifest \<noteq> None)
           (IncompatibleSelection ''schema-1 manifests cannot contain composition or upgrade state''))
         (validate_legacy_selection (am_selection manifest))
       else if am_schema manifest = COMPOSITION_APPLICATION_MANIFEST_SCHEMA then
         then_check (reject_if (am_upgrade manifest \<noteq> None)
           (IncompatibleSelection ''schema-2 manifests cannot contain upgrade state''))
         (validate_composed_state C manifest)
       else if am_schema manifest = APPLICATION_MANIFEST_SCHEMA then
         then_check (validate_composed_state C manifest) (check_upgrade C manifest)
       else Inl (UnsupportedSchema (am_schema manifest))))"

definition installed_component_ids :: "application_manifest \<Rightarrow> string set" where
  "installed_component_ids manifest =
     (case am_composition manifest of
        Some composition \<Rightarrow> set (map ic_id (cp_components composition))
      | None \<Rightarrow> sl_components (am_selection manifest))"

definition debug_string_set :: "manifest_codec \<Rightarrow> string set \<Rightarrow> string" where
  "debug_string_set C values = ''{'' @ join '', '' (map (mc_debug_str C) (sorted_list_of_set values)) @ ''}''"

definition validate_rendered_components ::
    "manifest_codec \<Rightarrow> application_manifest \<Rightarrow> string list \<Rightarrow> manifest_error + unit" where
  "validate_rendered_components C manifest rendered =
     (let installed = installed_component_ids manifest
      in reject_if (set rendered \<noteq> installed)
           (IncompatibleSelection (''manifest components '' @ debug_string_set C installed @
              '' do not match rendered components '' @ debug_string_set C (set rendered))))"

section \<open>Reading and writing\<close>

definition claim_key :: "source_ownership_claim \<Rightarrow> string \<times> source_ownership_class \<times> string option" where
  "claim_key claim = (cl_path claim, cl_class claim, cl_integration claim)"

definition normalize_composition :: "application_composition \<Rightarrow> application_composition" where
  "normalize_composition c =
     c\<lparr> cp_components := sort_key ic_id (cp_components c), cp_modules := sort_key im_id (cp_modules c) \<rparr>"

definition normalize_upgrade :: "application_upgrade_state \<Rightarrow> application_upgrade_state" where
  "normalize_upgrade u =
     u\<lparr> ug_ownership := (ug_ownership u)\<lparr> ow_claims := sort_key claim_key (ow_claims (ug_ownership u)) \<rparr> \<rparr>"

definition normalize_manifest :: "application_manifest \<Rightarrow> application_manifest" where
  "normalize_manifest manifest =
     manifest\<lparr> am_composition := map_option normalize_composition (am_composition manifest),
       am_upgrade := map_option normalize_upgrade (am_upgrade manifest) \<rparr>"

definition manifest_from_toml :: "manifest_codec \<Rightarrow> string \<Rightarrow> manifest_error + application_manifest" where
  "manifest_from_toml C source =
     and_then (map_error ParseError (mc_from_toml C source)) (\<lambda>parsed.
       let manifest = normalize_manifest parsed
       in then_check (validate_manifest C manifest) (Inr manifest))"

definition manifest_to_toml :: "manifest_codec \<Rightarrow> application_manifest \<Rightarrow> manifest_error + string" where
  "manifest_to_toml C self =
     then_check (reject_if (am_schema self \<noteq> APPLICATION_MANIFEST_SCHEMA) (OlderManifestReadOnly (am_schema self)))
     (let manifest = normalize_manifest self
      in then_check (validate_manifest C manifest)
         (and_then (map_error SerializeError (mc_to_toml C manifest)) (\<lambda>serialized.
            Inr (if suffix [CHR 0x0A] serialized then serialized else serialized @ [CHR 0x0A]))))"

section \<open>Compatibility with a release\<close>

record mutation_compatibility_policy =
  po_schema :: "32 word"
  po_framework :: framework_contract
  po_package :: package_identity
  po_components :: "string set"
  po_modules :: "string set"
  po_capabilities :: "application_capability set"
  po_databases :: "database_adapter set"
  po_clients :: "client_adapter set"

definition for_framework_version :: "manifest_codec \<Rightarrow> string \<Rightarrow> manifest_error + mutation_compatibility_policy" where
  "for_framework_version C version =
     (let framework = \<lparr> fc_repository = HEGIRA_FRAMEWORK_REPOSITORY, fc_version = version \<rparr>
      in then_check (validate_framework_contract C framework)
         (Inr \<lparr> po_schema = APPLICATION_MANIFEST_SCHEMA, po_framework = framework,
                po_package = \<lparr> pk_id = HEGIRA_COMPONENT_PACKAGE, pk_version = version \<rparr>,
                po_components = set SUPPORTED_COMPONENTS, po_modules = {IDENTITY_MODULE},
                po_capabilities = {Authentication, Authorization}, po_databases = {Postgres, Sqlite},
                po_clients = {Leptos} \<rparr>))"

datatype mutation_manifest_field =
    SchemaField | FrameworkRepository | FrameworkVersion | CompositionPackage | CompositionComponents
  | CompositionModules | CompositionCapabilities | SelectionComponents | SelectionDatabases | SelectionClients

fun field_name :: "mutation_manifest_field \<Rightarrow> string" where
  "field_name SchemaField = ''schema''"
| "field_name FrameworkRepository = ''framework.repository''"
| "field_name FrameworkVersion = ''framework.version''"
| "field_name CompositionPackage = ''composition.package''"
| "field_name CompositionComponents = ''composition.components''"
| "field_name CompositionModules = ''composition.modules''"
| "field_name CompositionCapabilities = ''composition.capabilities''"
| "field_name SelectionComponents = ''selection.components''"
| "field_name SelectionDatabases = ''selection.databases''"
| "field_name SelectionClients = ''selection.clients''"

record mutation_compatibility_issue =
  is_field :: mutation_manifest_field
  is_actual :: string
  is_expected :: string

definition issue_message :: "mutation_compatibility_issue \<Rightarrow> string" where
  "issue_message i = field_name (is_field i) @ '' is '' @ is_actual i @ ''; expected '' @ is_expected i"

datatype mutation_compatibility =
    Compatible
  | Incompatible mutation_compatibility_issue
  | Unsupported mutation_compatibility_issue

abbreviation issue :: "mutation_manifest_field \<Rightarrow> string \<Rightarrow> string \<Rightarrow> mutation_compatibility_issue" where
  "issue f a e \<equiv> \<lparr> is_field = f, is_actual = a, is_expected = e \<rparr>"

definition schema_string :: "32 word \<Rightarrow> string" where
  "schema_string s = nat_digits (unat s)"

definition package_string :: "package_identity \<Rightarrow> string" where
  "package_string p = pk_id p @ ''@'' @ pk_version p"

definition selection_compatibility ::
    "mutation_compatibility_policy \<Rightarrow> application_selection \<Rightarrow> mutation_compatibility" where
  "selection_compatibility policy selection =
     (if card (sl_databases selection) \<noteq> 1
      then Incompatible (issue SelectionDatabases (format_database_set (sl_databases selection))
             (''exactly one adapter from '' @ format_database_set (po_databases policy)))
      else case find (\<lambda>d. d \<notin> po_databases policy) (sorted_list_of_set (sl_databases selection)) of
        Some database \<Rightarrow> Unsupported (issue SelectionDatabases (database_name database)
             (format_database_set (po_databases policy)))
      | None \<Rightarrow>
     if card (sl_clients selection) \<noteq> 1
      then Incompatible (issue SelectionClients (format_client_set (sl_clients selection))
             (''exactly one adapter from '' @ format_client_set (po_clients policy)))
      else case find (\<lambda>c. c \<notin> po_clients policy) (sorted_list_of_set (sl_clients selection)) of
        Some client \<Rightarrow> Unsupported (issue SelectionClients (client_name client)
             (format_client_set (po_clients policy)))
      | None \<Rightarrow> Compatible)"

definition composition_compatibility ::
    "mutation_compatibility_policy \<Rightarrow> application_selection \<Rightarrow> application_composition \<Rightarrow> mutation_compatibility" where
  "composition_compatibility policy selection composition =
     (if cp_package composition \<noteq> po_package policy
      then Unsupported (issue CompositionPackage (package_string (cp_package composition)) (package_string (po_package policy)))
      else case find (\<lambda>component. ic_id component \<notin> po_components policy) (cp_components composition) of
        Some component \<Rightarrow> Unsupported (issue CompositionComponents (ic_id component) (format_string_set (po_components policy)))
      | None \<Rightarrow>
      (case find (\<lambda>module. im_id module \<notin> po_modules policy) (cp_modules composition) of
        Some module \<Rightarrow> Unsupported (issue CompositionModules (im_id module) (format_string_set (po_modules policy)))
      | None \<Rightarrow>
      (case find (\<lambda>c. c \<notin> po_capabilities policy) (sorted_list_of_set (cp_capabilities composition)) of
        Some capability \<Rightarrow> Unsupported (issue CompositionCapabilities (capability_name capability)
             (format_capability_set (po_capabilities policy)))
      | None \<Rightarrow> selection_compatibility policy selection)))"

definition manifest_mutation_compatibility ::
    "manifest_codec \<Rightarrow> application_manifest \<Rightarrow> mutation_compatibility_policy \<Rightarrow> manifest_error + mutation_compatibility" where
  "manifest_mutation_compatibility C self policy =
     (if am_schema self \<noteq> po_schema policy
      then Inr (Unsupported (issue SchemaField (schema_string (am_schema self)) (schema_string (po_schema policy))))
      else
       then_check (validate_application_name (am_application self))
       (then_check (validate_framework_contract C (am_framework self))
       (then_check (validate_composed_structure C self)
       (then_check (check_upgrade C self)
        (if fc_repository (am_framework self) \<noteq> fc_repository (po_framework policy)
         then Inr (Incompatible (issue FrameworkRepository (fc_repository (am_framework self)) (fc_repository (po_framework policy))))
         else if fc_version (am_framework self) \<noteq> fc_version (po_framework policy)
         then Inr (Unsupported (issue FrameworkVersion (fc_version (am_framework self)) (fc_version (po_framework policy))))
         else and_then (required (am_composition self) MissingComposition) (\<lambda>composition.
           Inr (composition_compatibility policy (am_selection self) composition)))))))"

definition assess_mutation_compatibility ::
    "manifest_codec \<Rightarrow> string \<Rightarrow> mutation_compatibility_policy \<Rightarrow> manifest_error + mutation_compatibility" where
  "assess_mutation_compatibility C source policy =
     and_then (map_error ParseError (mc_probe_schema C source)) (\<lambda>schema.
       if schema \<noteq> po_schema policy
       then Inr (Unsupported (issue SchemaField (schema_string schema) (schema_string (po_schema policy))))
       else and_then (map_error ParseError (mc_from_toml C source)) (\<lambda>manifest.
         manifest_mutation_compatibility C manifest policy))"

section \<open>Messages\<close>

fun identity_kind_name :: "identity_kind \<Rightarrow> string" where
  "identity_kind_name ComponentKind = ''component''"
| "identity_kind_name ModuleKind = ''module''"

fun manifest_error_message :: "manifest_error \<Rightarrow> string" where
  "manifest_error_message (ReadError e) = ''failed to read application manifest: '' @ e"
| "manifest_error_message (ParseError e) = ''invalid application manifest: '' @ e"
| "manifest_error_message (SerializeError e) = ''failed to serialize application manifest: '' @ e"
| "manifest_error_message (UnsupportedSchema s) =
     ''unsupported application manifest schema '' @ schema_string s @ ''; expected '' @ schema_string APPLICATION_MANIFEST_SCHEMA"
| "manifest_error_message (InvalidApplicationName n) = ''invalid application manifest name: '' @ n"
| "manifest_error_message (InvalidFrameworkRepository r) = ''invalid framework repository in application manifest: '' @ r"
| "manifest_error_message (InvalidFrameworkVersion v) = ''invalid framework version in application manifest: '' @ v"
| "manifest_error_message (InvalidComponent c) = ''invalid component identifier: '' @ c"
| "manifest_error_message (InvalidModule m) = ''invalid module identifier: '' @ m"
| "manifest_error_message (InvalidPackage p) = ''invalid component package identity: '' @ p"
| "manifest_error_message (UnsupportedComponent c) = ''unsupported application component: '' @ c"
| "manifest_error_message MissingComposition = ''current application manifest has no composition state''"
| "manifest_error_message MissingUpgradeState = ''schema-3 application manifest has no upgrade state''"
| "manifest_error_message (OlderManifestReadOnly s) =
     ''application manifest schema '' @ schema_string s @
     '' is readable but requires an explicit supported transition before mutation''"
| "manifest_error_message InvalidOwnershipDefault = ''source ownership default must be application-owned''"
| "manifest_error_message (InvalidOwnershipPath p) = ''invalid source ownership path: '' @ p"
| "manifest_error_message (InvalidOwnershipIntegration i) = ''invalid managed integration identity: '' @ i"
| "manifest_error_message (InvalidOwnershipClaim r) = ''invalid source ownership claim: '' @ r"
| "manifest_error_message (DuplicateOwnership p i) =
     ''duplicate source ownership claim for '' @ p @ (case i of None \<Rightarrow> [] | Some x \<Rightarrow> '' integration '' @ x)"
| "manifest_error_message (OverlappingOwnership a b) = ''overlapping source ownership paths: '' @ a @ '' and '' @ b"
| "manifest_error_message (InconsistentUpgradeState r) = ''inconsistent application upgrade state: '' @ r"
| "manifest_error_message (DuplicateIdentity k i) = ''duplicate '' @ identity_kind_name k @ '' identity: '' @ i"
| "manifest_error_message EmptyDatabaseSelection = ''application manifest selects no database adapter''"
| "manifest_error_message EmptyClientSelection = ''application manifest selects no client adapter''"
| "manifest_error_message (IncompatibleSelection r) = ''incompatible application selection: '' @ r"

section \<open>Names are kebab-case\<close>

text \<open>The grammar of identifiers: non-empty words of lower-case letters and digits separated by
  single hyphens, of which the first starts with a letter.\<close>

definition kebab_char :: "char \<Rightarrow> bool" where
  "kebab_char c \<longleftrightarrow> is_ascii_lowercase c \<or> is_ascii_digit c"

definition kebab_case :: "string \<Rightarrow> bool" where
  "kebab_case s \<longleftrightarrow> first_lowercase s \<and> (\<forall>w \<in> set (split_on (CHR ''-'') s). w \<noteq> [] \<and> (\<forall>c \<in> set w. kebab_char c))"

fun hyphens_separate :: "char \<Rightarrow> string \<Rightarrow> bool" where
  "hyphens_separate prev [] = (prev \<noteq> CHR ''-'')"
| "hyphens_separate prev (c # s) =
     ((kebab_char c \<or> (c = CHR ''-'' \<and> prev \<noteq> CHR ''-'')) \<and> hyphens_separate c s)"

lemma not_kebab_hyphen [simp]: "\<not> kebab_char (CHR ''-'')"
  by (simp add: kebab_char_def is_ascii_lowercase_def is_ascii_digit_def less_eq_char_def)

lemma hyphens_separate_words:
  "hyphens_separate prev s \<longleftrightarrow>
     (\<forall>w \<in> set (tl (split_on (CHR ''-'') s)). w \<noteq> [] \<and> (\<forall>c \<in> set w. kebab_char c)) \<and>
     (\<forall>c \<in> set (hd (split_on (CHR ''-'') s)). kebab_char c) \<and>
     (hd (split_on (CHR ''-'') s) = [] \<longrightarrow> prev \<noteq> CHR ''-'')"
proof (induction s arbitrary: prev)
  case (Cons c s)
  obtain p ps where "split_on (CHR ''-'') s = p # ps" by (cases "split_on (CHR ''-'') s") auto
  with Cons.IH [of c] show ?case by auto
qed simp

lemma hyphens_separate_bytes:
  "hyphens_separate prev s \<longleftrightarrow>
     (\<forall>i < length s. kebab_char (s ! i) \<or> (s ! i = CHR ''-'' \<and> i + 1 < length s \<and> (prev # s) ! i \<noteq> CHR ''-'')) \<and>
     (s = [] \<longrightarrow> prev \<noteq> CHR ''-'')"
proof (induction s arbitrary: prev)
  case (Cons c s)
  show ?case unfolding hyphens_separate.simps Cons.IH [of c] by (auto simp: All_less_Suc2)
qed simp

lemma kebab_bytes:
  assumes "first_lowercase s"
  shows "(\<forall>i \<in> set [0..<length s]. kebab_byte s i) \<longleftrightarrow> kebab_case s"
proof -
  obtain c t where s: "s = c # t" and c: "is_ascii_lowercase c"
    using assms by (auto simp: first_lowercase_def split: list.splits)
  from c have k: "kebab_char c" and h: "c \<noteq> CHR ''-''"
    by (auto simp: kebab_char_def is_ascii_lowercase_def less_eq_char_def)
  have "(\<forall>i \<in> set [0..<length s]. kebab_byte s i) \<longleftrightarrow>
      (\<forall>i < length s. kebab_char (s ! i) \<or> (s ! i = CHR ''-'' \<and> i + 1 < length s \<and> i > 0 \<and> s ! (i - 1) \<noteq> CHR ''-''))"
    by (auto simp: kebab_byte_def kebab_char_def Let_def)
  also have "\<dots> \<longleftrightarrow> hyphens_separate c t"
    using k h unfolding s hyphens_separate_bytes by (auto simp: All_less_Suc2)
  also have "\<dots> \<longleftrightarrow> kebab_case s"
  proof -
    obtain p ps where "split_on (CHR ''-'') t = p # ps" by (cases "split_on (CHR ''-'') t") auto
    then show ?thesis using assms k h by (auto simp: hyphens_separate_words kebab_case_def s)
  qed
  finally show ?thesis .
qed

lemma kebab_case_nonempty [simp]: "\<not> kebab_case []"
  by (simp add: kebab_case_def)

lemma component_identifier_iff [simp]:
  "validate_component_identifier s = Inr u \<longleftrightarrow> kebab_case s"
  using kebab_bytes [of s] by (auto simp: validate_component_identifier_def kebab_case_def first_lowercase_def)

lemma module_identifier_iff [simp]: "validate_module_identifier s = Inr u \<longleftrightarrow> kebab_case s"
  by (simp add: validate_module_identifier_def)

lemma application_name_iff:
  "validate_application_name s = Inr u \<longleftrightarrow> kebab_case s \<and> length s \<le> 64 \<and> \<not> reserved_project_name s"
  using kebab_bytes [of s] by (auto simp: validate_application_name_def kebab_case_def first_lowercase_def)

section \<open>Owned paths\<close>

abbreviation segments :: "string \<Rightarrow> string list" where
  "segments \<equiv> split_on (CHR ''/'')"

lemma split_on_append_any: "split_on d (p @ d # s) = split_on d p @ split_on d s"
  by (induction p) (auto split: list.split)

lemma join_append: "ps \<noteq> [] \<Longrightarrow> qs \<noteq> [] \<Longrightarrow> join d (ps @ qs) = join d ps @ d @ join d qs"
proof (induction ps)
  case (Cons p ps)
  then show ?case by (cases ps; cases qs) auto
qed simp

lemma segments_strict_prefix:
  "(\<exists>rest. left = right @ CHR ''/'' # rest) \<longleftrightarrow> strict_prefix (segments right) (segments left)"
proof
  assume "strict_prefix (segments right) (segments left)"
  then obtain qs where qs: "segments left = segments right @ qs" "qs \<noteq> []"
    by (auto simp: strict_prefix_def prefix_def)
  have "left = join ''/'' (segments left)" by (simp add: join_split_on)
  also have "\<dots> = right @ CHR ''/'' # join ''/'' qs" using qs by (simp add: join_append join_split_on)
  finally show "\<exists>rest. left = right @ CHR ''/'' # rest" by blast
qed (auto simp: split_on_append_any strict_prefix_def)

lemma segments_inj: "segments a = segments b \<longleftrightarrow> a = b"
  by (metis join_split_on)

lemma strip_prefix_slash:
  "is_some_and (prefix ''/'') (strip_prefix right left) \<longleftrightarrow> (\<exists>rest. left = right @ CHR ''/'' # rest)"
  by (auto simp: is_some_and_def strip_prefix_def prefix_def split: option.splits)

lemma overlap_segments:
  "ownership_paths_overlap left right \<longleftrightarrow>
     prefix (segments left) (segments right) \<or> prefix (segments right) (segments left)"
  unfolding ownership_paths_overlap_def strip_prefix_slash segments_strict_prefix
  using segments_inj [of left right] by (auto simp: strict_prefix_def)

text \<open>The canonical relative paths that can be owned.\<close>

definition owned_path :: "string \<Rightarrow> bool" where
  "owned_path p \<longleftrightarrow> p \<noteq> [] \<and> length p \<le> 4096 \<and>
     (\<forall>s \<in> set (segments p). ownership_segment s \<and> s \<noteq> ''.'' \<and> s \<noteq> ''..'')"

lemma split_on_chars: "c \<in> set s \<Longrightarrow> c = d \<or> (\<exists>p \<in> set (split_on d s). c \<in> set p)"
proof (induction s)
  case (Cons x s)
  obtain p ps where "split_on d s = p # ps" by (cases "split_on d s") auto
  with Cons show ?case by auto
qed simp

lemma ownership_segment_chars:
  assumes "ownership_segment s" "c \<in> set s"
  shows "c \<noteq> CHR ''/''" "c \<noteq> CHR 0x5C" "32 \<le> (of_char c :: nat)" "(of_char c :: nat) \<notin> {127, 194}"
  using assms unfolding ownership_segment_def
  by (auto simp: is_ascii_alphanumeric_def is_ascii_lowercase_def is_ascii_digit_def less_eq_char_def)

lemma owned_not_absolute: "owned_path p \<Longrightarrow> \<not> prefix ''/'' p"
proof
  assume o: "owned_path p" and "prefix ''/'' p"
  then obtain q where "p = CHR ''/'' # q" by (auto simp: prefix_def)
  then have "[] \<in> set (segments p)" by simp
  with o have "ownership_segment []" unfolding owned_path_def by blast
  then show False by (simp add: ownership_segment_def)
qed

lemma path_components_owned:
  assumes "owned_path p"
  shows "path_components p = map Normal (segments p)"
proof -
  have s: "s \<noteq> []" "s \<noteq> ''.''" "s \<noteq> ''..''" if "s \<in> set (segments p)" for s
    using assms that by (auto simp: owned_path_def ownership_segment_def)
  have "hd (segments p) \<in> set (segments p)" by simp
  moreover have "\<not> prefix ''/'' p" using assms by (rule owned_not_absolute)
  ultimately show ?thesis using s
    by (auto simp: path_components_def Let_def segment_component_def filter_id_conv)
qed

lemma ownership_path_iff [simp]: "validate_ownership_path p = Inr u \<longleftrightarrow> owned_path p"
proof
  assume "validate_ownership_path p = Inr u"
  then obtain ss where n: "path_components p = map Normal ss" and j: "join ''/'' ss = p" "p \<noteq> []" "length p \<le> 4096"
    and seg: "\<And>s. s \<in> set ss \<Longrightarrow> ownership_segment s"
    by (auto simp: validate_ownership_path_def normal_segments_Some split: if_splits option.splits)
  have "ss \<noteq> []" using j by auto
  then have "segments p = ss"
    using split_on_join [of ss "CHR ''/''"] seg ownership_segment_chars(1) j(1) by blast
  moreover have "s \<noteq> ''.'' \<and> s \<noteq> ''..''" if "s \<in> set ss" for s
  proof -
    have "Normal s \<in> set (path_components p)" using n that by simp
    then show ?thesis by (auto simp: path_components_def Let_def segment_component_def split: if_splits)
  qed
  ultimately show "owned_path p" using j seg by (simp add: owned_path_def)
next
  assume o: "owned_path p"
  have "c \<noteq> CHR 0x5C \<and> 32 \<le> (of_char c :: nat) \<and> (of_char c :: nat) \<notin> {127, 194}" if "c \<in> set p" for c
  proof (cases "c = CHR ''/''")
    case False
    from split_on_chars [OF that, of "CHR ''/''"] False obtain s where "s \<in> set (segments p)" "c \<in> set s"
      by blast
    then have "ownership_segment s" "c \<in> set s" using o by (simp_all add: owned_path_def)
    from ownership_segment_chars [OF this] show ?thesis by simp
  qed simp
  then have "CHR 0x5C \<notin> set p" "\<not> has_control p" using has_control_byte [of p] by fastforce+
  moreover have "\<not> is_absolute p"
    using owned_not_absolute [OF o] by (simp add: is_absolute_def)
  moreover have "normal_segments (path_components p) = Some (segments p)"
    by (simp add: normal_segments_Some path_components_owned [OF o])
  ultimately show "validate_ownership_path p = Inr u"
    using o by (auto simp: validate_ownership_path_def owned_path_def join_split_on)
qed

lemma ownership_integration_iff [simp]:
  "validate_ownership_integration i = Inr u \<longleftrightarrow> kebab_case i \<and> length i \<le> 128"
  using component_identifier_iff [of i "()"]
  by (cases "validate_component_identifier i") (auto simp: validate_ownership_integration_def simp del: component_identifier_iff)

section \<open>Ownership\<close>

text \<open>A well-formed claim, and two claims that may stand side by side.\<close>

definition claim_ok :: "source_ownership_claim \<Rightarrow> bool" where
  "claim_ok c \<longleftrightarrow> owned_path (cl_path c) \<and>
     (case cl_integration c of
        None \<Rightarrow> cl_class c \<noteq> ManagedIntegration
      | Some i \<Rightarrow> cl_class c = ManagedIntegration \<and> kebab_case i \<and> length i \<le> 128)"

definition claims_apart :: "source_ownership_claim \<Rightarrow> source_ownership_claim \<Rightarrow> bool" where
  "claims_apart a b \<longleftrightarrow>
     (if cl_path a = cl_path b
      then cl_class a = ManagedIntegration \<and> cl_class b = ManagedIntegration \<and> cl_integration a \<noteq> cl_integration b
      else \<not> ownership_paths_overlap (cl_path a) (cl_path b))"

definition ownership_ok :: "source_ownership \<Rightarrow> bool" where
  "ownership_ok o' \<longleftrightarrow> ow_default o' = ApplicationOwned \<and> length (ow_claims o') \<le> 4096 \<and>
     (\<forall>c \<in> set (ow_claims o'). claim_ok c) \<and> sorted_wrt claims_apart (ow_claims o')"

lemma overlap_sym: "ownership_paths_overlap a b \<longleftrightarrow> ownership_paths_overlap b a"
  unfolding overlap_segments by blast

lemma overlap_refl [simp]: "ownership_paths_overlap a a"
  by (simp add: ownership_paths_overlap_def)

lemma claims_apart_sym: "claims_apart a b \<longleftrightarrow> claims_apart b a"
  using overlap_sym by (auto simp: claims_apart_def)

lemma check_claim_class_iff [simp]:
  "check_claim_class c = Inr u \<longleftrightarrow>
     (case cl_integration c of
        None \<Rightarrow> cl_class c \<noteq> ManagedIntegration
      | Some i \<Rightarrow> cl_class c = ManagedIntegration \<and> kebab_case i \<and> length i \<le> 128)"
  by (cases "cl_class c"; cases "cl_integration c") (auto simp: check_claim_class_def)

abbreviation claim_identity :: "source_ownership_claim \<Rightarrow> string \<times> string option" where
  "claim_identity c \<equiv> (cl_path c, cl_integration c)"

lemma check_claims_iff:
  "check_claims seen cs = Inr u \<longleftrightarrow>
     (\<forall>c \<in> set cs. claim_ok c) \<and> distinct (map claim_identity cs) \<and> (\<forall>c \<in> set cs. claim_identity c \<notin> seen)"
proof (induction cs arbitrary: seen)
  case (Cons c cs)
  have "(\<forall>x \<in> set cs. claim_identity x \<notin> insert (claim_identity c) seen) \<longleftrightarrow>
      claim_identity c \<notin> set (map claim_identity cs) \<and> (\<forall>x \<in> set cs. claim_identity x \<notin> seen)"
    by (auto simp: image_iff)
  with Cons.IH [of "insert (claim_identity c) seen"] show ?case by (auto simp: claim_ok_def)
qed simp

lemma check_overlaps_iff:
  "check_overlaps cs = Inr u \<longleftrightarrow> sorted_wrt (\<lambda>a b. check_overlap a b = Inr ()) cs"
  by (induction cs) auto

lemma claims_apart_checks:
  assumes "\<forall>c \<in> set cs. claim_ok c"
  shows "sorted_wrt claims_apart cs \<longleftrightarrow>
    distinct (map claim_identity cs) \<and> sorted_wrt (\<lambda>a b. check_overlap a b = Inr ()) cs"
  using assms
proof (induction cs)
  case (Cons a cs)
  have "claims_apart a b \<longleftrightarrow> claim_identity a \<noteq> claim_identity b \<and> check_overlap a b = Inr ()" if "claim_ok b" for b
    using that Cons.prems by (auto simp: claims_apart_def check_overlap_def claim_ok_def split: option.splits)
  with Cons show ?case by auto
qed simp

lemma validate_ownership_iff [simp]: "validate_ownership o' = Inr u \<longleftrightarrow> ownership_ok o'"
  using claims_apart_checks [of "ow_claims o'"]
  by (auto simp: validate_ownership_def ownership_ok_def check_claims_iff check_overlaps_iff)

section \<open>Well-formed manifests\<close>

text \<open>The declarative counterpart of \<^const>\<open>validate_manifest\<close>, schema by schema.\<close>

definition release_version :: "manifest_codec \<Rightarrow> string \<Rightarrow> bool" where
  "release_version C v \<longleftrightarrow>
     (\<exists>rest p. v = CHR ''v'' # rest \<and> mc_parse_version C rest = Some p \<and> pv_pre_empty p \<and> pv_build_empty p)"

definition framework_ok :: "manifest_codec \<Rightarrow> framework_contract \<Rightarrow> bool" where
  "framework_ok C f \<longleftrightarrow> release_version C (fc_version f) \<and>
     (\<exists>u. mc_parse_url C (fc_repository f) = Some u \<and> pu_scheme u = ''https'' \<and> \<not> host_is_local (pu_host u) \<and>
        pu_username u = [] \<and> pu_password u = None \<and> pu_query u = None \<and> pu_fragment u = None \<and> suffix ''.git'' (pu_path u))"

definition composition_ok :: "manifest_codec \<Rightarrow> framework_contract \<Rightarrow> application_composition \<Rightarrow> bool" where
  "composition_ok C f c \<longleftrightarrow>
     cp_package c = \<lparr> pk_id = HEGIRA_COMPONENT_PACKAGE, pk_version = fc_version f \<rparr> \<and>
     (\<forall>x \<in> set (cp_components c). kebab_case (ic_id x) \<and> ic_version x = fc_version f) \<and>
     (\<forall>x \<in> set (cp_modules c). kebab_case (im_id x) \<and> im_version x = fc_version f) \<and>
     distinct (map ic_id (cp_components c)) \<and> distinct (map im_id (cp_modules c)) \<and>
     LAYERED_BASE_COMPONENT \<in> ic_id ` set (cp_components c) \<and>
     (IDENTITY_MODULE \<in> im_id ` set (cp_modules c) \<longleftrightarrow>
        {LAYERED_LEPTOS_IDENTITY_COMPONENT, IDENTITY_COMPONENT} \<inter> ic_id ` set (cp_components c) \<noteq> {}) \<and>
     cp_capabilities c = (if IDENTITY_MODULE \<in> im_id ` set (cp_modules c) then {Authentication, Authorization} else {})"

definition composed_ok :: "manifest_codec \<Rightarrow> application_manifest \<Rightarrow> bool" where
  "composed_ok C m \<longleftrightarrow> sl_components (am_selection m) = {} \<and>
     (\<exists>c. am_composition m = Some c \<and> composition_ok C (am_framework m) c)"

definition upgrade_ok :: "application_manifest \<Rightarrow> bool" where
  "upgrade_ok m \<longleftrightarrow>
     (\<exists>u c. am_upgrade m = Some u \<and> am_composition m = Some c \<and> ug_framework u = am_framework m \<and>
        ug_package u = cp_package c \<and> ownership_ok (ug_ownership u))"

definition legacy_ok :: "application_selection \<Rightarrow> bool" where
  "legacy_ok s \<longleftrightarrow> sl_databases s \<noteq> {} \<and> sl_clients s = {Leptos} \<and> sl_components s \<subseteq> set SUPPORTED_COMPONENTS \<and>
     {LAYERED_BASE_COMPONENT, LAYERED_LEPTOS_IDENTITY_COMPONENT} \<subseteq> sl_components s"

definition well_formed_manifest :: "manifest_codec \<Rightarrow> application_manifest \<Rightarrow> bool" where
  "well_formed_manifest C m \<longleftrightarrow>
     kebab_case (am_application m) \<and> length (am_application m) \<le> 64 \<and> \<not> reserved_project_name (am_application m) \<and>
     framework_ok C (am_framework m) \<and>
     (am_schema m = 1 \<and> am_composition m = None \<and> am_upgrade m = None \<and> legacy_ok (am_selection m) \<or>
      am_schema m \<in> {2, 3} \<and> composed_ok C m \<and>
        card (sl_databases (am_selection m)) = 1 \<and> card (sl_clients (am_selection m)) = 1 \<and>
        (if am_schema m = 2 then am_upgrade m = None else upgrade_ok m))"

lemma release_version_iff [simp]: "validate_release_version C v = Inr u \<longleftrightarrow> release_version C v"
  by (cases v) (auto simp: validate_release_version_def release_version_def split: option.splits)

lemma framework_contract_iff [simp]: "validate_framework_contract C f = Inr u \<longleftrightarrow> framework_ok C f"
  by (auto simp: validate_framework_contract_def framework_ok_def)

lemma check_identities_iff:
  "check_identities V k l C v seen xs = Inr s \<longleftrightarrow>
     s = seen \<union> fst ` set xs \<and> distinct (map fst xs) \<and> seen \<inter> fst ` set xs = {} \<and>
     (\<forall>x \<in> set xs. V (fst x) = Inr () \<and> release_version C (snd x) \<and> snd x = v)"
proof (induction xs arbitrary: seen)
  case (Cons x xs)
  obtain i w where x: "x = (i, w)" by (cases x)
  have "insert i seen \<inter> fst ` set xs = {} \<longleftrightarrow> i \<notin> set (map fst xs) \<and> seen \<inter> fst ` set xs = {}" by simp
  then show ?case unfolding x check_identities.simps then_check_Inr Cons.IH by auto
qed auto

lemma pairs_simps [simp]:
  "map fst (component_pairs c) = map ic_id (cp_components c)" "fst ` set (component_pairs c) = ic_id ` set (cp_components c)"
  "map fst (module_pairs c) = map im_id (cp_modules c)" "fst ` set (module_pairs c) = im_id ` set (cp_modules c)"
  by (simp_all add: component_pairs_def module_pairs_def image_image o_def)

lemma ball_pairs [simp]:
  "(\<forall>x \<in> set (component_pairs c). P x) \<longleftrightarrow> (\<forall>x \<in> set (cp_components c). P (ic_id x, ic_version x))"
  "(\<forall>x \<in> set (module_pairs c). P x) \<longleftrightarrow> (\<forall>x \<in> set (cp_modules c). P (im_id x, im_version x))"
  by (simp_all add: component_pairs_def module_pairs_def)

lemma kebab_package: "kebab_case HEGIRA_COMPONENT_PACKAGE"
  by code_simp

lemma composition_iff [simp]:
  assumes "framework_ok C f"
  shows "validate_composition C c f = Inr u \<longleftrightarrow> composition_ok C f c"
proof -
  have "release_version C (fc_version f)" using assms by (simp add: framework_ok_def)
  then show ?thesis
    by (cases "cp_package c")
      (auto simp: validate_composition_def composition_ok_def Let_def check_identities_iff kebab_package)
qed

lemma kebab_supported: "c \<in> set SUPPORTED_COMPONENTS \<Longrightarrow> kebab_case c"
proof -
  have "list_all kebab_case SUPPORTED_COMPONENTS" by code_simp
  then show "c \<in> set SUPPORTED_COMPONENTS \<Longrightarrow> kebab_case c" by (simp add: list_all_iff)
qed

lemma all_clients: "s \<noteq> {} \<longleftrightarrow> s = {Leptos}"
proof -
  have "x = Leptos" for x by (cases x) simp
  then show ?thesis by (metis (full_types) empty_iff insert_iff subsetI subset_antisym)
qed

lemma legacy_selection_iff:
  "finite (sl_components s) \<Longrightarrow> validate_legacy_selection s = Inr u \<longleftrightarrow> legacy_ok s"
  using kebab_supported all_clients [of "sl_clients s"]
  by (auto simp: validate_legacy_selection_def legacy_ok_def)

lemma composed_structure_iff [simp]:
  "framework_ok C (am_framework m) \<Longrightarrow> validate_composed_structure C m = Inr u \<longleftrightarrow> composed_ok C m"
  by (auto simp: validate_composed_structure_def composed_ok_def)

lemma check_upgrade_iff [simp]:
  assumes "framework_ok C (am_framework m)" "composed_ok C m"
  shows "check_upgrade C m = Inr u \<longleftrightarrow> upgrade_ok m"
  using assms by (auto simp: check_upgrade_def upgrade_ok_def validate_upgrade_state_def composed_ok_def
      composition_ok_def framework_ok_def kebab_package)

lemma validate_manifest_spec:
  assumes "finite (sl_components (am_selection m))"
  shows "validate_manifest C m = Inr u \<longleftrightarrow> well_formed_manifest C m"
  using legacy_selection_iff [OF assms]
  by (auto simp: validate_manifest_def well_formed_manifest_def application_name_iff validate_composed_state_def
      validate_current_selection_def LEGACY_APPLICATION_MANIFEST_SCHEMA_def
      COMPOSITION_APPLICATION_MANIFEST_SCHEMA_def APPLICATION_MANIFEST_SCHEMA_def)

section \<open>Normalisation\<close>

lemma sort_key_sorted [simp]: "sort_key f (sort_key f xs) = sort_key f xs"
  by (rule sort_key_id_if_sorted) simp

lemma normalize_idem [simp]: "normalize_manifest (normalize_manifest m) = normalize_manifest m"
  by (cases "am_composition m"; cases "am_upgrade m")
    (simp_all add: normalize_manifest_def normalize_composition_def normalize_upgrade_def)

lemma mset_sorted_wrt:
  assumes "\<And>a b. R a b \<longleftrightarrow> R b a" "mset xs = mset ys"
  shows "sorted_wrt R xs \<longleftrightarrow> sorted_wrt R ys"
  using assms(2)
proof (induction xs arbitrary: ys)
  case (Cons x xs)
  then obtain us vs where ys: "ys = us @ x # vs"
    by (metis list.set_intros(1) set_mset_mset split_list)
  have "sorted_wrt R xs \<longleftrightarrow> sorted_wrt R (us @ vs)"
    using Cons by (simp add: ys)
  moreover have "set xs = set (us @ vs)"
    using Cons.prems by (metis add_mset_add_mset_same_iff mset.simps(2) mset_append set_mset_mset union_mset_add_mset_right ys)
  ultimately show ?case using assms(1) by (auto simp: ys sorted_wrt_append)
qed simp

lemma composition_ok_normalize: "composition_ok C f (normalize_composition c) \<longleftrightarrow> composition_ok C f c"
  by (simp add: composition_ok_def normalize_composition_def distinct_map)

lemma ownership_ok_normalize:
  "ownership_ok (ug_ownership (normalize_upgrade u)) \<longleftrightarrow> ownership_ok (ug_ownership u)"
  using mset_sorted_wrt [of claims_apart, OF claims_apart_sym, of "sort_key claim_key (ow_claims (ug_ownership u))" "ow_claims (ug_ownership u)"]
  by (simp add: ownership_ok_def normalize_upgrade_def)

lemma normalize_fields [simp]:
  "am_schema (normalize_manifest m) = am_schema m" "am_application (normalize_manifest m) = am_application m"
  "am_framework (normalize_manifest m) = am_framework m" "am_selection (normalize_manifest m) = am_selection m"
  "am_composition (normalize_manifest m) = map_option normalize_composition (am_composition m)"
  "am_upgrade (normalize_manifest m) = map_option normalize_upgrade (am_upgrade m)"
  by (simp_all add: normalize_manifest_def)

lemma well_formed_normalize: "well_formed_manifest C (normalize_manifest m) \<longleftrightarrow> well_formed_manifest C m"
proof -
  have "composed_ok C (normalize_manifest m) \<longleftrightarrow> composed_ok C m"
    by (cases "am_composition m") (simp_all add: composed_ok_def composition_ok_normalize)
  moreover have "upgrade_ok (normalize_manifest m) \<longleftrightarrow> upgrade_ok m"
    using ownership_ok_normalize
    by (cases "am_composition m"; cases "am_upgrade m")
      (auto simp: upgrade_ok_def normalize_composition_def normalize_upgrade_def)
  ultimately show ?thesis by (simp add: well_formed_manifest_def)
qed

section \<open>Properties\<close>

text \<open>A concrete codec, which knows one manifest, and that manifest.\<close>

definition sample_framework :: framework_contract where
  "sample_framework = \<lparr> fc_repository = HEGIRA_FRAMEWORK_REPOSITORY, fc_version = ''v0.1.0'' \<rparr>"

definition sample_package :: package_identity where
  "sample_package = \<lparr> pk_id = HEGIRA_COMPONENT_PACKAGE, pk_version = ''v0.1.0'' \<rparr>"

definition sample_claims :: "source_ownership_claim list" where
  "sample_claims =
     [\<lparr> cl_path = ''src/lib.rs'', cl_class = ManagedIntegration, cl_integration = Some ''identity'' \<rparr>,
      \<lparr> cl_path = ''src/lib.rs'', cl_class = ManagedIntegration, cl_integration = Some ''audit'' \<rparr>,
      \<lparr> cl_path = ''migrations'', cl_class = ImmutableHistory, cl_integration = None \<rparr>]"

definition sample_manifest :: application_manifest where
  "sample_manifest =
     \<lparr> am_schema = 3, am_application = ''demo-app'', am_framework = sample_framework,
       am_selection = \<lparr> sl_components = {}, sl_databases = {Sqlite}, sl_clients = {Leptos} \<rparr>,
       am_composition = Some
         \<lparr> cp_package = sample_package,
           cp_components = [\<lparr> ic_id = LAYERED_BASE_COMPONENT, ic_version = ''v0.1.0'' \<rparr>,
             \<lparr> ic_id = IDENTITY_COMPONENT, ic_version = ''v0.1.0'' \<rparr>],
           cp_modules = [\<lparr> im_id = IDENTITY_MODULE, im_version = ''v0.1.0'' \<rparr>],
           cp_capabilities = {Authentication, Authorization} \<rparr>,
       am_upgrade = Some
         \<lparr> ug_framework = sample_framework, ug_package = sample_package,
           ug_ownership = \<lparr> ow_default = ApplicationOwned, ow_claims = sample_claims \<rparr> \<rparr> \<rparr>"

definition sample_codec :: manifest_codec where
  "sample_codec =
     \<lparr> mc_parse_url = (\<lambda>s. if s = HEGIRA_FRAMEWORK_REPOSITORY
         then Some \<lparr> pu_scheme = ''https'', pu_host = Some (DomainHost ''github.com''), pu_username = [],
                     pu_password = None, pu_query = None, pu_fragment = None,
                     pu_path = ''/furkancemalcaliskan/hegira.git'' \<rparr>
         else None),
       mc_parse_version = (\<lambda>s. if s = ''0.1.0'' then Some \<lparr> pv_pre_empty = True, pv_build_empty = True \<rparr> else None),
       mc_from_toml = (\<lambda>s. if s \<in> {''toml'', ''toml'' @ [CHR 0x0A]} then Inr (normalize_manifest sample_manifest) else Inl ''error''),
       mc_probe_schema = (\<lambda>s. if s \<in> {''toml'', ''toml'' @ [CHR 0x0A]} then Inr 3 else Inl ''error''),
       mc_to_toml = (\<lambda>m. if m = normalize_manifest sample_manifest then Inr ''toml'' else Inl ''error''),
       mc_debug_str = (\<lambda>s. s) \<rparr>"

lemmas sample_manifest_defs = sample_manifest_def sample_framework_def sample_package_def sample_claims_def

text \<open>C28. \<^const>\<open>validate_manifest\<close> accepts a manifest exactly when it is well formed: kebab-case names,
  an https framework repository and a release version, and for each schema the selection, composition
  and upgrade state that schema has. A \<^verbatim>\<open>BTreeSet\<close> is finite.\<close>

theorem manifest_validation_exact:
  assumes "finite (sl_components (am_selection m))"
  shows "validate_manifest C m = Inr () \<longleftrightarrow> well_formed_manifest C m"
  by (rule validate_manifest_spec [OF assms])

lemma sample_validates: "validate_manifest sample_codec sample_manifest = Inr ()"
  by code_simp

theorem manifest_validation_exact_witness: "well_formed_manifest sample_codec sample_manifest"
  using manifest_validation_exact [of sample_manifest sample_codec] sample_validates
  by (simp add: sample_manifest_def)

text \<open>C29. Writing and reading are inverse: the text that \<^const>\<open>manifest_to_toml\<close> produces ends with a
  newline, reads back as the normalised manifest, and that manifest is written as the same text again.\<close>

theorem manifest_round_trip:
  assumes "\<And>x s. mc_to_toml C x = Inr s \<Longrightarrow> mc_from_toml C s = Inr x \<and> mc_from_toml C (s @ [CHR 0x0A]) = Inr x"
    and "manifest_to_toml C m = Inr text"
  shows "suffix [CHR 0x0A] text \<and> manifest_from_toml C text = Inr (normalize_manifest m) \<and>
    manifest_to_toml C (normalize_manifest m) = Inr text"
proof -
  obtain s where v: "validate_manifest C (normalize_manifest m) = Inr ()" "am_schema m = APPLICATION_MANIFEST_SCHEMA"
    and s: "mc_to_toml C (normalize_manifest m) = Inr s"
    and t: "text = (if suffix [CHR 0x0A] s then s else s @ [CHR 0x0A])"
    using assms(2) by (auto simp: manifest_to_toml_def Let_def)
  have "mc_from_toml C text = Inr (normalize_manifest m)"
    using assms(1) [OF s] by (simp add: t)
  then have "manifest_from_toml C text = Inr (normalize_manifest m)"
    using v by (simp add: manifest_from_toml_def Let_def map_error_def)
  moreover have "manifest_to_toml C (normalize_manifest m) = Inr text"
    using v s by (simp add: manifest_to_toml_def t Let_def map_error_def)
  ultimately show ?thesis by (simp add: t)
qed

lemma sample_codec_laws:
  "mc_to_toml sample_codec x = Inr s \<Longrightarrow>
     mc_from_toml sample_codec s = Inr x \<and> mc_from_toml sample_codec (s @ [CHR 0x0A]) = Inr x"
  by (auto simp: sample_codec_def split: if_splits)

lemma sample_writes: "manifest_to_toml sample_codec sample_manifest = Inr (''toml'' @ [CHR 0x0A])"
proof -
  have "validate_manifest sample_codec (normalize_manifest sample_manifest) = Inr ()" by code_simp
  moreover have "mc_to_toml sample_codec (normalize_manifest sample_manifest) = Inr ''toml''"
    by (simp add: sample_codec_def)
  ultimately show ?thesis
    by (simp add: manifest_to_toml_def Let_def map_error_def sample_manifest_def APPLICATION_MANIFEST_SCHEMA_def suffix_def)
qed

theorem manifest_round_trip_witness:
  "manifest_from_toml sample_codec (''toml'' @ [CHR 0x0A]) = Inr (normalize_manifest sample_manifest)"
  using manifest_round_trip [OF sample_codec_laws sample_writes] by blast

lemma selection_compatible:
  "selection_compatibility p s = Compatible \<longleftrightarrow>
     card (sl_databases s) = 1 \<and> card (sl_clients s) = 1 \<and> sl_databases s \<subseteq> po_databases p \<and> sl_clients s \<subseteq> po_clients p"
  by (auto simp: selection_compatibility_def find_None_iff2 card_1_singleton_iff split: option.splits
      dest!: find_Some_iff2)

lemma composition_compatible:
  "composition_compatibility p s c = Compatible \<longleftrightarrow>
     cp_package c = po_package p \<and> ic_id ` set (cp_components c) \<subseteq> po_components p \<and>
     im_id ` set (cp_modules c) \<subseteq> po_modules p \<and> cp_capabilities c \<subseteq> po_capabilities p \<and>
     selection_compatibility p s = Compatible"
proof -
  have "finite (cp_capabilities c)" by (rule finite_subset [of _ "{Authentication, Authorization}"]) (auto intro: application_capability.exhaust)
  then show ?thesis
    by (auto simp: composition_compatibility_def find_None_iff2 split: option.splits dest!: find_Some_iff2)
qed

lemma all_databases: "s \<subseteq> {Postgres, Sqlite}"
  by (auto intro: database_adapter.exhaust)

lemma all_capabilities: "s \<subseteq> {Authentication, Authorization}"
  by (auto intro: application_capability.exhaust)

lemma all_clients_subset: "s \<subseteq> {Leptos}"
  using all_clients [of s] by blast

text \<open>A manifest is assessed as compatible with a release exactly when it is a valid manifest of the current
  schema, of that very release, and the release supports all its components and modules.\<close>

theorem compatible_exactly_current:
  assumes "for_framework_version C version = Inr policy"
  shows "manifest_mutation_compatibility C m policy = Inr Compatible \<longleftrightarrow>
    am_schema m = APPLICATION_MANIFEST_SCHEMA \<and> validate_manifest C m = Inr () \<and>
    am_framework m = \<lparr> fc_repository = HEGIRA_FRAMEWORK_REPOSITORY, fc_version = version \<rparr> \<and>
    installed_component_ids m \<subseteq> set SUPPORTED_COMPONENTS \<and>
    (\<forall>c. am_composition m = Some c \<longrightarrow> im_id ` set (cp_modules c) \<subseteq> {IDENTITY_MODULE})"
  (is "?l \<longleftrightarrow> ?r")
proof -
  have p: "policy = \<lparr> po_schema = 3, po_framework = \<lparr> fc_repository = HEGIRA_FRAMEWORK_REPOSITORY, fc_version = version \<rparr>,
      po_package = \<lparr> pk_id = HEGIRA_COMPONENT_PACKAGE, pk_version = version \<rparr>,
      po_components = set SUPPORTED_COMPONENTS, po_modules = {IDENTITY_MODULE},
      po_capabilities = {Authentication, Authorization}, po_databases = {Postgres, Sqlite}, po_clients = {Leptos} \<rparr>"
    using assms by (auto simp: for_framework_version_def Let_def APPLICATION_MANIFEST_SCHEMA_def)
  show ?thesis
  proof (cases "sl_components (am_selection m) = {}")
    case True
    then have v: "validate_manifest C m = Inr () \<longleftrightarrow> well_formed_manifest C m"
      by (intro validate_manifest_spec) simp
    show ?thesis
      unfolding v manifest_mutation_compatibility_def p
      by (cases "am_framework m"; cases "am_composition m")
        (auto simp: well_formed_manifest_def application_name_iff composition_compatible selection_compatible
          all_databases all_capabilities all_clients_subset installed_component_ids_def composed_ok_def composition_ok_def
          APPLICATION_MANIFEST_SCHEMA_def)
  next
    case False
    then have "\<not> ?l"
      by (auto simp: manifest_mutation_compatibility_def p composed_ok_def)
    moreover have "\<not> ?r"
      using False by (auto simp: validate_manifest_def validate_composed_state_def composed_ok_def
          APPLICATION_MANIFEST_SCHEMA_def LEGACY_APPLICATION_MANIFEST_SCHEMA_def COMPOSITION_APPLICATION_MANIFEST_SCHEMA_def)
    ultimately show ?thesis by blast
  qed
qed

definition sample_policy :: mutation_compatibility_policy where
  "sample_policy = (case for_framework_version sample_codec ''v0.1.0'' of Inr p \<Rightarrow> p | Inl _ \<Rightarrow> undefined)"

theorem compatible_exactly_current_witness:
  "for_framework_version sample_codec ''v0.1.0'' = Inr sample_policy \<and>
   manifest_mutation_compatibility sample_codec sample_manifest sample_policy = Inr Compatible"
proof -
  have f: "\<not> isl (for_framework_version sample_codec ''v0.1.0'')" by code_simp
  then have p: "for_framework_version sample_codec ''v0.1.0'' = Inr sample_policy"
    by (auto simp: sample_policy_def split: sum.splits)
  moreover have "am_schema sample_manifest = APPLICATION_MANIFEST_SCHEMA" by code_simp
  moreover have "am_framework sample_manifest = \<lparr> fc_repository = HEGIRA_FRAMEWORK_REPOSITORY, fc_version = ''v0.1.0'' \<rparr>"
    by (simp add: sample_manifest_defs)
  moreover have "installed_component_ids sample_manifest \<subseteq> set SUPPORTED_COMPONENTS" by code_simp
  moreover have "\<forall>c. am_composition sample_manifest = Some c \<longrightarrow> im_id ` set (cp_modules c) \<subseteq> {IDENTITY_MODULE}"
    by (simp add: sample_manifest_defs)
  ultimately show ?thesis
    using compatible_exactly_current [OF p, of sample_manifest] sample_validates by blast
qed

text \<open>The claims that cover a file: those on its path or on a directory above it.\<close>

definition covering_claims :: "source_ownership \<Rightarrow> string \<Rightarrow> source_ownership_claim list" where
  "covering_claims o' file = filter (\<lambda>c. prefix (segments (cl_path c)) (segments file)) (ow_claims o')"

lemma sorted_wrt_members:
  assumes "sorted_wrt R xs" "\<And>a b. R a b \<longleftrightarrow> R b a" "a \<in> set xs" "b \<in> set xs"
  shows "a = b \<or> R a b"
  using assms by (induction xs) auto

text \<open>A validated ownership never gives a file two owners: of two claims that cover the same file (on its
  path or on a directory above it) either both are the same claim, or they are two different managed
  integrations of one and the same path.\<close>

theorem file_has_one_owner:
  assumes "validate_ownership o' = Inr ()"
    and "a \<in> set (covering_claims o' file)" "b \<in> set (covering_claims o' file)" "a \<noteq> b"
  shows "cl_path a = cl_path b \<and> cl_class a = ManagedIntegration \<and> cl_class b = ManagedIntegration \<and>
    cl_integration a \<noteq> cl_integration b"
proof -
  have "sorted_wrt claims_apart (ow_claims o')" using assms(1) by (simp add: ownership_ok_def)
  then have "claims_apart a b"
    using sorted_wrt_members [of claims_apart, OF _ claims_apart_sym, of _ a b] assms(2-4)
    by (auto simp: covering_claims_def)
  moreover have "ownership_paths_overlap (cl_path a) (cl_path b)"
    unfolding overlap_segments using assms(2,3) by (auto simp: covering_claims_def dest: prefix_same_cases)
  ultimately show ?thesis by (simp add: claims_apart_def split: if_splits)
qed

theorem file_has_one_owner_witness:
  "cl_path (sample_claims ! 0) = cl_path (sample_claims ! 1) \<and>
   cl_integration (sample_claims ! 0) \<noteq> cl_integration (sample_claims ! 1)"
proof -
  let ?o = "\<lparr> ow_default = ApplicationOwned, ow_claims = sample_claims \<rparr>"
  have "validate_ownership ?o = Inr ()" by code_simp
  moreover have "sample_claims ! 0 \<in> set (covering_claims ?o ''src/lib.rs'')"
      "sample_claims ! 1 \<in> set (covering_claims ?o ''src/lib.rs'')" "sample_claims ! 0 \<noteq> sample_claims ! 1"
    by code_simp+
  ultimately show ?thesis
    using file_has_one_owner [of ?o "sample_claims ! 0" "''src/lib.rs''" "sample_claims ! 1"] by blast
qed

end
