(* ===== verification/Ordered_Map.thy ===== *)
theory Ordered_Map
  imports Rust_Text
begin

text \<open>
  \<^verbatim>\<open>BTreeMap\<close> as an association list in increasing order of its keys, so that \<^verbatim>\<open>into_values\<close> is the list
  of the values in key order. The locale states what the clients rely on.
\<close>

type_synonym ('k, 'v) btree = "('k \<times> 'v) list"

definition bt_get :: "('k::linorder, 'v) btree \<Rightarrow> 'k \<Rightarrow> 'v option" where
  "bt_get t k = map_of t k"

fun bt_insert :: "'k::linorder \<Rightarrow> 'v \<Rightarrow> ('k, 'v) btree \<Rightarrow> ('k, 'v) btree" where
  "bt_insert k v [] = [(k, v)]"
| "bt_insert k v ((k', v') # t) =
     (if k < k' then (k, v) # (k', v') # t
      else if k = k' then (k, v) # t
      else (k', v') # bt_insert k v t)"

definition bt_remove :: "'k::linorder \<Rightarrow> ('k, 'v) btree \<Rightarrow> ('k, 'v) btree" where
  "bt_remove k t = filter (\<lambda>e. fst e \<noteq> k) t"

definition bt_values :: "('k::linorder, 'v) btree \<Rightarrow> 'v list" where
  "bt_values t = map snd t"

definition bt_ok :: "('k::linorder, 'v) btree \<Rightarrow> bool" where
  "bt_ok t \<longleftrightarrow> sorted_wrt (<) (map fst t)"

locale ordered_map =
  fixes get :: "'m \<Rightarrow> 'k::linorder \<Rightarrow> 'v option"
    and insert :: "'k \<Rightarrow> 'v \<Rightarrow> 'm \<Rightarrow> 'm"
    and remove :: "'k \<Rightarrow> 'm \<Rightarrow> 'm"
    and entries :: "'m \<Rightarrow> ('k \<times> 'v) list"
    and ok :: "'m \<Rightarrow> bool"
    and empty :: 'm
  assumes empty_ok: "ok empty"
    and get_empty: "get empty k = None"
    and insert_ok: "ok m \<Longrightarrow> ok (insert k v m)"
    and remove_ok: "ok m \<Longrightarrow> ok (remove k m)"
    and get_insert: "get (insert k v m) = (get m)(k := Some v)"
    and get_remove: "get (remove k m) = (get m)(k := None)"
    and entries_sorted: "ok m \<Longrightarrow> sorted_wrt (<) (map fst (entries m))"
    and entries_get: "ok m \<Longrightarrow> (k, v) \<in> set (entries m) \<longleftrightarrow> get m k = Some v"
begin

lemma entries_distinct: "ok m \<Longrightarrow> distinct (map fst (entries m))"
  using entries_sorted strict_sorted_iff by blast

lemma entries_keyed:
  assumes "ok m" "\<And>k v. get m k = Some v \<Longrightarrow> f v = k"
  shows "map f (map snd (entries m)) = map fst (entries m)"
  using assms(2) entries_get [OF assms(1)] by auto

lemma values_sorted:
  assumes "ok m" "\<And>k v. get m k = Some v \<Longrightarrow> f v = k"
  shows "sorted_wrt (<) (map f (map snd (entries m)))"
proof -
  have "map f (map snd (entries m)) = map fst (entries m)" using assms by (rule entries_keyed)
  then show ?thesis using entries_sorted [OF assms(1)] by metis
qed

lemma values_set:
  assumes "ok m" "\<And>k v. get m k = Some v \<Longrightarrow> f v = k"
  shows "v \<in> set (map snd (entries m)) \<longleftrightarrow> get m (f v) = Some v"
  using entries_get [OF assms(1)] assms(2) by force

end

lemma bt_insert_keys: "set (map fst (bt_insert k v t)) = insert k (set (map fst t))"
  by (induction k v t rule: bt_insert.induct) auto

lemma bt_insert_ok: "bt_ok t \<Longrightarrow> bt_ok (bt_insert k v t)"
proof (induction k v t rule: bt_insert.induct)
  case (2 k v k' v' t)
  have "set (map fst (bt_insert k v t)) = insert k (set (map fst t))" by (rule bt_insert_keys)
  with 2 show ?case by (auto simp: bt_ok_def)
qed (simp add: bt_ok_def)

lemma bt_get_insert: "bt_get (bt_insert k v t) = (bt_get t)(k := Some v)"
  by (induction k v t rule: bt_insert.induct) (auto simp: bt_get_def fun_eq_iff)

lemma bt_get_remove: "bt_get (bt_remove k t) = (bt_get t)(k := None)"
  by (induction t) (auto simp: bt_get_def bt_remove_def fun_eq_iff)

lemma bt_remove_ok: "bt_ok t \<Longrightarrow> bt_ok (bt_remove k t)"
  by (simp add: bt_ok_def bt_remove_def sorted_wrt_map sorted_wrt_filter)

lemma bt_distinct: "bt_ok t \<Longrightarrow> distinct (map fst t)"
  unfolding bt_ok_def using strict_sorted_iff by blast

interpretation bt: ordered_map bt_get bt_insert bt_remove "\<lambda>t. t" bt_ok "[]"
proof unfold_locales
  show "(k, v) \<in> set t \<longleftrightarrow> bt_get t k = Some v" if "bt_ok t" for t :: "('a, 'b) btree" and k v
    using bt_distinct [OF that] by (simp add: bt_get_def)
qed (auto simp: bt_ok_def bt_get_def bt_insert_ok [unfolded bt_ok_def] bt_remove_ok [unfolded bt_ok_def]
    bt_get_insert [unfolded bt_get_def] bt_get_remove [unfolded bt_get_def])

end
