(* ===== verification/Change_Plan.thy ===== *)
theory Change_Plan
  imports Application_Manifest Ordered_Map
begin

text \<open>
  Change plans (\<^verbatim>\<open>tools/application_mutator/src/lib.rs\<close>): canonical relative paths, file creations, edits and
  retirements with the digest of the content they expect, plans in path order, and the composition of
  plans. The hash function SHA-256 of the package \<^verbatim>\<open>sha2\<close> is the parameter \<open>sha\<close>, from a content to its 32
  bytes.
\<close>

section \<open>Paths\<close>

type_synonym change_path = string
type_synonym content = string
type_synonym content_digest = string

datatype change_plan_error_kind =
    InvalidPath | InvalidOwnership | DuplicatePath | ConflictingOperations | UnchangedEdit
  | NonDeterministicOrder | InvalidDigest

record change_plan_error =
  ce_kind :: change_plan_error_kind
  ce_path :: "change_path option"
  ce_message :: string

definition invalid_path :: "string \<Rightarrow> change_plan_error" where
  "invalid_path message = \<lparr> ce_kind = InvalidPath, ce_path = None, ce_message = message \<rparr>"

definition unchanged_edit :: "change_path \<Rightarrow> change_plan_error" where
  "unchanged_edit path =
     \<lparr> ce_kind = UnchangedEdit, ce_path = Some path,
       ce_message = ''structured edit for `'' @ path @ ''` does not change the observed content'' \<rparr>"

definition invalid_ownership :: "change_path \<Rightarrow> string \<Rightarrow> change_plan_error" where
  "invalid_ownership path message = \<lparr> ce_kind = InvalidOwnership, ce_path = Some path, ce_message = message \<rparr>"

text \<open>\<^verbatim>\<open>at_path\<close> is called with the four kinds below only; the others are \<^verbatim>\<open>unreachable!\<close> there.\<close>

definition plan_error_at :: "change_plan_error_kind \<Rightarrow> change_path \<Rightarrow> change_plan_error" where
  "plan_error_at kind path =
     \<lparr> ce_kind = kind, ce_path = Some path,
       ce_message =
         (case kind of
            DuplicatePath \<Rightarrow> ''change plan contains duplicate operations for `'' @ path @ ''`''
          | ConflictingOperations \<Rightarrow> ''change plan contains conflicting operations for `'' @ path @ ''`''
          | NonDeterministicOrder \<Rightarrow> ''change plan is not in deterministic path order at `'' @ path @ ''`''
          | InvalidDigest \<Rightarrow> ''change plan result digest does not match content for `'' @ path @ ''`''
          | _ \<Rightarrow> []) \<rparr>"

definition en_dash :: string where
  "en_dash = bytes [226, 128, 147]"

fun check_segments :: "path_component list \<Rightarrow> change_plan_error + string list" where
  "check_segments [] = Inr []"
| "check_segments (component # rest) =
     (case component of
        Normal segment \<Rightarrow>
          (if segment = [] \<or> length segment > 255 \<or>
              (\<exists>byte \<in> set segment. \<not> (is_ascii_alphanumeric byte \<or> byte \<in> {CHR ''-'', CHR ''_'', CHR ''.''}))
           then Inl (invalid_path
             (''change path segments must use 1'' @ en_dash @ ''255 ASCII letters, digits, dots, hyphens, or underscores''))
           else and_then (check_segments rest) (\<lambda>normalized. Inr (segment # normalized)))
      | _ \<Rightarrow> Inl (invalid_path ''change paths may not contain dot, dot-dot, prefixes, or root components''))"

definition change_path_new :: "string \<Rightarrow> change_plan_error + change_path" where
  "change_path_new path =
     then_check (reject_if (path = [] \<or> length path > 4096 \<or> has_control path)
       (invalid_path (''change paths must contain 1'' @ en_dash @ ''4096 visible UTF-8 bytes'')))
     (then_check (reject_if (CHR 0x5C \<in> set path \<or> is_absolute path)
       (invalid_path ''change paths must be relative and use forward slashes''))
     (and_then (check_segments (path_components path)) (\<lambda>normalized.
      then_check (reject_if (join ''/'' normalized \<noteq> path) (invalid_path ''change paths must use one canonical spelling''))
       (Inr path))))"

section \<open>Digests\<close>

fun hex_digit :: "nat \<Rightarrow> char" where
  "hex_digit n = (if n < 10 then char_of (48 + n) else char_of (87 + n))"

definition byte_hex :: "char \<Rightarrow> string" where
  "byte_hex c = [hex_digit (of_char c div 16), hex_digit (of_char c mod 16)]"

definition to_hex :: "content_digest \<Rightarrow> string" where
  "to_hex d = concat (map byte_hex d)"

section \<open>Planned changes\<close>

datatype change_operation = Create | Edit | Retire

datatype file_precondition = Absent | MatchesDigest content_digest

record file_creation =
  fn_path :: change_path
  fn_content :: content
  fn_result_digest :: content_digest

record structured_file_edit =
  fe_path :: change_path
  fe_original_digest :: content_digest
  fe_content :: content
  fe_result_digest :: content_digest

record managed_file_retirement =
  fr_path :: change_path
  fr_original_digest :: content_digest
  fr_integration :: string

datatype planned_file_change =
    PCreate file_creation
  | PEdit structured_file_edit
  | PRetire managed_file_retirement

definition file_creation_new :: "(content \<Rightarrow> content_digest) \<Rightarrow> string \<Rightarrow> content \<Rightarrow> change_plan_error + file_creation" where
  "file_creation_new sha path content =
     and_then (change_path_new path) (\<lambda>path.
       Inr \<lparr> fn_path = path, fn_content = content, fn_result_digest = sha content \<rparr>)"

definition structured_file_edit_new ::
    "(content \<Rightarrow> content_digest) \<Rightarrow> string \<Rightarrow> content \<Rightarrow> content \<Rightarrow> change_plan_error + structured_file_edit" where
  "structured_file_edit_new sha path observed_content resulting_content =
     and_then (change_path_new path) (\<lambda>path.
       let original_digest = sha observed_content; result_digest = sha resulting_content
       in then_check (reject_if (original_digest = result_digest) (unchanged_edit path))
          (Inr \<lparr> fe_path = path, fe_original_digest = original_digest, fe_content = resulting_content,
                 fe_result_digest = result_digest \<rparr>))"

definition managed_file_retirement_new ::
    "(content \<Rightarrow> content_digest) \<Rightarrow> source_ownership \<Rightarrow> string \<Rightarrow> string \<Rightarrow> content \<Rightarrow> change_plan_error + managed_file_retirement" where
  "managed_file_retirement_new sha ownership path integration observed_content =
     and_then (change_path_new path) (\<lambda>path.
     then_check (map_error (\<lambda>_. invalid_ownership path ''file retirement requires a valid source-ownership contract'')
        (validate_ownership ownership))
     (let declared = list_ex (\<lambda>claim. cl_path claim = path \<and> cl_class claim = ManagedIntegration \<and>
                        cl_integration claim = Some integration) (ow_claims ownership)
      in then_check (reject_if (\<not> declared)
           (invalid_ownership path ''file retirement requires an exact managed-integration ownership claim''))
         (Inr \<lparr> fr_path = path, fr_original_digest = sha observed_content, fr_integration = integration \<rparr>)))"

fun pc_path :: "planned_file_change \<Rightarrow> change_path" where
  "pc_path (PCreate c) = fn_path c"
| "pc_path (PEdit c) = fe_path c"
| "pc_path (PRetire c) = fr_path c"

fun pc_operation :: "planned_file_change \<Rightarrow> change_operation" where
  "pc_operation (PCreate _) = Create"
| "pc_operation (PEdit _) = Edit"
| "pc_operation (PRetire _) = Retire"

fun pc_precondition :: "planned_file_change \<Rightarrow> file_precondition" where
  "pc_precondition (PCreate _) = Absent"
| "pc_precondition (PEdit c) = MatchesDigest (fe_original_digest c)"
| "pc_precondition (PRetire c) = MatchesDigest (fr_original_digest c)"

fun pc_resulting_content :: "planned_file_change \<Rightarrow> content option" where
  "pc_resulting_content (PCreate c) = Some (fn_content c)"
| "pc_resulting_content (PEdit c) = Some (fe_content c)"
| "pc_resulting_content (PRetire _) = None"

fun pc_result_digest :: "planned_file_change \<Rightarrow> content_digest option" where
  "pc_result_digest (PCreate c) = Some (fn_result_digest c)"
| "pc_result_digest (PEdit c) = Some (fe_result_digest c)"
| "pc_result_digest (PRetire _) = None"

definition pc_result_precondition :: "planned_file_change \<Rightarrow> file_precondition" where
  "pc_result_precondition c = (case pc_result_digest c of None \<Rightarrow> Absent | Some d \<Rightarrow> MatchesDigest d)"

fun pc_managed_by :: "planned_file_change \<Rightarrow> string option" where
  "pc_managed_by (PRetire c) = Some (fr_integration c)"
| "pc_managed_by _ = None"

section \<open>Plans\<close>

type_synonym change_plan = "planned_file_change list"

fun validate_from :: "(content \<Rightarrow> content_digest) \<Rightarrow> change_path option \<Rightarrow> change_plan \<Rightarrow> change_plan_error + unit" where
  "validate_from sha previous [] = Inr ()"
| "validate_from sha previous (change # rest) =
     then_check (reject_if (is_some_and (\<lambda>path. path \<ge> pc_path change) previous)
        (plan_error_at NonDeterministicOrder (pc_path change)))
     (then_check
       (case (pc_resulting_content change, pc_result_digest change) of
          (Some content, Some digest) \<Rightarrow> reject_if (sha content \<noteq> digest) (plan_error_at InvalidDigest (pc_path change))
        | _ \<Rightarrow> reject_if (pc_operation change \<noteq> Retire) (plan_error_at InvalidDigest (pc_path change)))
       (validate_from sha (Some (pc_path change)) rest))"

definition plan_validate :: "(content \<Rightarrow> content_digest) \<Rightarrow> change_plan \<Rightarrow> change_plan_error + unit" where
  "plan_validate sha plan = validate_from sha None plan"

fun order_changes ::
    "(change_path, planned_file_change) btree \<Rightarrow> planned_file_change list
      \<Rightarrow> change_plan_error + (change_path, planned_file_change) btree" where
  "order_changes ordered [] = Inr ordered"
| "order_changes ordered (change # rest) =
     (let path = pc_path change
      in case bt_get ordered path of
           Some existing \<Rightarrow>
             Inl (plan_error_at (if pc_operation existing = pc_operation change then DuplicatePath else ConflictingOperations) path)
         | None \<Rightarrow> order_changes (bt_insert path change ordered) rest)"

definition plan_new :: "(content \<Rightarrow> content_digest) \<Rightarrow> planned_file_change list \<Rightarrow> change_plan_error + change_plan" where
  "plan_new sha changes =
     and_then (order_changes [] changes) (\<lambda>ordered.
       let plan = bt_values ordered in then_check (plan_validate sha plan) (Inr plan))"

text \<open>The \<^verbatim>\<open>match (previous, change)\<close> of \<^verbatim>\<open>compose\<close>; the outer option is its last arm, a conflict.\<close>

fun chain_changes :: "planned_file_change \<Rightarrow> planned_file_change \<Rightarrow> planned_file_change option option" where
  "chain_changes (PCreate creation) (PEdit edit) =
     Some (Some (PCreate (creation\<lparr> fn_content := fe_content edit, fn_result_digest := fe_result_digest edit \<rparr>)))"
| "chain_changes (PCreate _) (PRetire _) = Some None"
| "chain_changes (PEdit first) (PEdit second) =
     Some (Some (PEdit (first\<lparr> fe_content := fe_content second, fe_result_digest := fe_result_digest second \<rparr>)))"
| "chain_changes (PEdit first) (PRetire retirement) =
     Some (Some (PRetire (retirement\<lparr> fr_original_digest := fe_original_digest first \<rparr>)))"
| "chain_changes (PRetire retirement) (PCreate creation) =
     Some (Some (PEdit \<lparr> fe_path = fr_path retirement, fe_original_digest = fr_original_digest retirement,
                         fe_content = fn_content creation, fe_result_digest = fn_result_digest creation \<rparr>))"
| "chain_changes _ _ = None"

definition compose_change ::
    "(change_path, planned_file_change) btree \<Rightarrow> planned_file_change
      \<Rightarrow> change_plan_error + (change_path, planned_file_change) btree" where
  "compose_change composed change =
     (let path = pc_path change
      in case bt_get composed path of
           None \<Rightarrow> Inr (bt_insert path change composed)
         | Some previous \<Rightarrow>
             (let removed = bt_remove path composed
              in if pc_precondition change \<noteq> pc_result_precondition previous
                 then Inl (plan_error_at ConflictingOperations path)
                 else case chain_changes previous change of
                        None \<Rightarrow> Inl (plan_error_at ConflictingOperations path)
                      | Some None \<Rightarrow> Inr removed
                      | Some (Some chained) \<Rightarrow> Inr (bt_insert path chained removed)))"

fun compose_changes ::
    "(change_path, planned_file_change) btree \<Rightarrow> planned_file_change list
      \<Rightarrow> change_plan_error + (change_path, planned_file_change) btree" where
  "compose_changes composed [] = Inr composed"
| "compose_changes composed (change # rest) =
     and_then (compose_change composed change) (\<lambda>composed. compose_changes composed rest)"

fun compose_plans ::
    "(content \<Rightarrow> content_digest) \<Rightarrow> (change_path, planned_file_change) btree \<Rightarrow> change_plan list
      \<Rightarrow> change_plan_error + (change_path, planned_file_change) btree" where
  "compose_plans sha composed [] = Inr composed"
| "compose_plans sha composed (plan # rest) =
     then_check (plan_validate sha plan)
     (and_then (compose_changes composed plan) (\<lambda>composed. compose_plans sha composed rest))"

definition plan_compose :: "(content \<Rightarrow> content_digest) \<Rightarrow> change_plan list \<Rightarrow> change_plan_error + change_plan" where
  "plan_compose sha plans =
     and_then (compose_plans sha [] plans) (\<lambda>composed.
       let plan = bt_values composed in then_check (plan_validate sha plan) (Inr plan))"

section \<open>Summaries\<close>

definition CHANGE_PLAN_SUMMARY_SCHEMA :: "32 word" where "CHANGE_PLAN_SUMMARY_SCHEMA = 1"

datatype precondition_summary = AbsentSummary | MatchesDigestSummary string

record planned_change_summary =
  ps_path :: string
  ps_operation :: change_operation
  ps_precondition :: precondition_summary
  ps_result_sha256 :: "string option"
  ps_managed_by :: "string option"

record change_plan_summary =
  ss_schema :: "32 word"
  ss_changes :: "planned_change_summary list"

definition plan_summary :: "change_plan \<Rightarrow> change_plan_summary" where
  "plan_summary plan =
     \<lparr> ss_schema = CHANGE_PLAN_SUMMARY_SCHEMA,
       ss_changes = map (\<lambda>change.
         \<lparr> ps_path = pc_path change, ps_operation = pc_operation change,
           ps_precondition = (case pc_precondition change of
              Absent \<Rightarrow> AbsentSummary | MatchesDigest digest \<Rightarrow> MatchesDigestSummary (to_hex digest)),
           ps_result_sha256 = map_option to_hex (pc_result_digest change),
           ps_managed_by = pc_managed_by change \<rparr>) plan \<rparr>"

section \<open>Paths of changes and of ownership\<close>

lemma check_segments_Inr:
  "check_segments cs = Inr ss \<longleftrightarrow> cs = map Normal ss \<and> (\<forall>s \<in> set ss. ownership_segment s)"
proof (induction cs arbitrary: ss)
  case (Cons c cs)
  have "(s = [] \<or> length s > 255 \<or>
      (\<exists>byte \<in> set s. \<not> (is_ascii_alphanumeric byte \<or> byte \<in> {CHR ''-'', CHR ''_'', CHR ''.''}))) \<longleftrightarrow> \<not> ownership_segment s" for s
    unfolding ownership_segment_def by (simp only: not_le de_Morgan_conj bex_simps ball_simps) (simp add: not_le)
  note seg = this
  show ?case unfolding check_segments.simps seg using Cons.IH
    by (auto simp: Cons_eq_map_conv split: path_component.splits)
qed auto

lemma change_path_new_iff: "change_path_new p = Inr q \<longleftrightarrow> q = p \<and> owned_path p"
proof -
  have "inj Normal" by (simp add: inj_def)
  then have n: "normal_segments (path_components p) = Some ss" if "path_components p = map Normal ss" for ss
    by (simp add: normal_segments_Some that)
  show ?thesis
  proof (cases "normal_segments (path_components p)")
    case None
    then have "check_segments (path_components p) \<noteq> Inr ss" for ss using n by (auto simp: check_segments_Inr)
    with None show ?thesis
      unfolding ownership_path_iff [of p "()", symmetric]
      by (auto simp: change_path_new_def validate_ownership_path_def)
  next
    case (Some ss)
    then have "check_segments (path_components p) = Inr ss' \<longleftrightarrow> ss' = ss \<and> (\<forall>s \<in> set ss. ownership_segment s)" for ss'
      using n [of ss'] inj_map_eq_map [OF \<open>inj Normal\<close>, of ss ss'] by (auto simp: check_segments_Inr normal_segments_Some)
    with Some show ?thesis
      unfolding ownership_path_iff [of p "()", symmetric]
      by (auto simp: change_path_new_def validate_ownership_path_def)
  qed
qed

section \<open>Validity of plans\<close>

definition digest_ok :: "(content \<Rightarrow> content_digest) \<Rightarrow> planned_file_change \<Rightarrow> bool" where
  "digest_ok sha c \<longleftrightarrow> pc_result_digest c = map_option sha (pc_resulting_content c)"

definition plan_ok :: "(content \<Rightarrow> content_digest) \<Rightarrow> change_plan \<Rightarrow> bool" where
  "plan_ok sha plan \<longleftrightarrow> sorted_wrt (<) (map pc_path plan) \<and> (\<forall>c \<in> set plan. digest_ok sha c)"

lemma digest_check:
  "(case (pc_resulting_content c, pc_result_digest c) of
      (Some content, Some digest) \<Rightarrow> reject_if (sha content \<noteq> digest) e
    | _ \<Rightarrow> reject_if (pc_operation c \<noteq> Retire) e) = Inr () \<longleftrightarrow> digest_ok sha c"
  by (cases c) (auto simp: digest_ok_def)

lemma validate_from_iff:
  "validate_from sha previous plan = Inr u \<longleftrightarrow>
     plan_ok sha plan \<and> (\<forall>q. previous = Some q \<longrightarrow> (\<forall>c \<in> set plan. q < pc_path c))"
proof (induction plan arbitrary: previous)
  case (Cons c plan)
  show ?case
    unfolding validate_from.simps then_check_Inr Cons.IH reject_if_Inr
    using digest_check [where c = c and sha = sha and e = "plan_error_at InvalidDigest (pc_path c)"]
    by (auto simp: plan_ok_def is_some_and_def not_le split: option.splits)
qed (simp add: plan_ok_def)

lemma plan_validate_iff [simp]: "plan_validate sha plan = Inr u \<longleftrightarrow> plan_ok sha plan"
  by (simp add: plan_validate_def validate_from_iff)

lemma plan_ok_distinct: "plan_ok sha plan \<Longrightarrow> distinct (map pc_path plan)"
  unfolding plan_ok_def using strict_sorted_iff by blast

section \<open>Effect of plans\<close>

text \<open>The files of an application as a map from paths to contents, and what a list of changes does to
  them: a change whose precondition does not hold stops the run.\<close>

type_synonym file_map = "change_path \<rightharpoonup> content"

definition meets :: "(content \<Rightarrow> content_digest) \<Rightarrow> file_map \<Rightarrow> planned_file_change \<Rightarrow> bool" where
  "meets sha files c =
     (case pc_precondition c of
        Absent \<Rightarrow> files (pc_path c) = None
      | MatchesDigest d \<Rightarrow> map_option sha (files (pc_path c)) = Some d)"

fun run_changes :: "(content \<Rightarrow> content_digest) \<Rightarrow> planned_file_change list \<Rightarrow> file_map \<Rightarrow> file_map option" where
  "run_changes sha [] files = Some files"
| "run_changes sha (c # cs) files =
     (if meets sha files c then run_changes sha cs (files(pc_path c := pc_resulting_content c)) else None)"

text \<open>What a tree of composed changes stands for: the change at a path leads from the first to the
  current content of the path.\<close>

fun composed_at :: "(content \<Rightarrow> content_digest) \<Rightarrow> file_map \<Rightarrow> file_map \<Rightarrow> change_path \<Rightarrow> planned_file_change option \<Rightarrow> bool" where
  "composed_at sha files files' p None = (files' p = files p)"
| "composed_at sha files files' p (Some c) =
     (pc_path c = p \<and> meets sha files c \<and> digest_ok sha c \<and> files' p = pc_resulting_content c)"

definition composes ::
    "(content \<Rightarrow> content_digest) \<Rightarrow> file_map \<Rightarrow> (change_path, planned_file_change) btree \<Rightarrow> file_map \<Rightarrow> bool" where
  "composes sha files t files' \<longleftrightarrow> bt_ok t \<and> (\<forall>p. composed_at sha files files' p (bt_get t p))"

lemma composes_put:
  assumes "composes sha files0 t files" "bt_ok t'" "bt_get t' = (bt_get t)(p := r)"
    "composed_at sha files0 (files(p := v)) p r"
  shows "composes sha files0 t' (files(p := v))"
proof -
  have "composed_at sha files0 (files(p := v)) q (bt_get t' q)" for q
  proof (cases "q = p")
    case False
    then have "composed_at sha files0 files q (bt_get t' q)" using assms(1,3) by (simp add: composes_def)
    with False show ?thesis by (cases "bt_get t' q") simp_all
  qed (use assms in simp)
  then show ?thesis using assms(2) by (simp add: composes_def)
qed

lemma composes_empty: "composes sha files [] files"
  by (simp add: composes_def bt.empty_ok bt.get_empty)

lemma meets_after:
  assumes "digest_ok sha previous" "files (pc_path c) = pc_resulting_content previous" "meets sha files c"
  shows "pc_precondition c = pc_result_precondition previous"
  using assms by (cases c; cases previous)
    (auto simp: meets_def digest_ok_def pc_result_precondition_def)

lemma chain_step:
  assumes "digest_ok sha previous" "digest_ok sha c" "pc_path previous = p" "pc_path c = p"
    and "meets sha files0 previous" "files p = pc_resulting_content previous" "meets sha files c"
  shows "\<exists>r. chain_changes previous c = Some r \<and> composed_at sha files0 (files(p := pc_resulting_content c)) p r"
  using assms by (cases c; cases previous) (auto simp: meets_def digest_ok_def)

lemma compose_change_step:
  assumes R: "composes sha files0 t files" and c: "digest_ok sha c" "meets sha files c"
  shows "\<exists>t'. compose_change t c = Inr t' \<and> composes sha files0 t' (files(pc_path c := pc_resulting_content c))"
proof -
  have ok: "bt_ok t" and at: "composed_at sha files0 files (pc_path c) (bt_get t (pc_path c))"
    using R by (simp_all add: composes_def)
  show ?thesis
  proof (cases "bt_get t (pc_path c)")
    case None
    then have "meets sha files0 c" using at c(2) by (cases "pc_precondition c") (simp_all add: meets_def)
    then have "composes sha files0 (bt_insert (pc_path c) c t) (files(pc_path c := pc_resulting_content c))"
      using c by (intro composes_put [OF R, where r = "Some c"]) (simp_all add: bt.insert_ok ok bt.get_insert)
    with None show ?thesis by (simp add: compose_change_def)
  next
    case (Some previous)
    then have p: "pc_path previous = pc_path c" "meets sha files0 previous" "digest_ok sha previous"
        "files (pc_path c) = pc_resulting_content previous"
      using at by simp_all
    obtain r where r: "chain_changes previous c = Some r"
      and rs: "composed_at sha files0 (files(pc_path c := pc_resulting_content c)) (pc_path c) r"
      using chain_step [OF p(3) c(1) p(1) refl p(2,4) c(2)] by blast
    have pre: "pc_precondition c = pc_result_precondition previous" by (rule meets_after [OF p(3,4) c(2)])
    define t' where "t' = (case r of None \<Rightarrow> bt_remove (pc_path c) t | Some d \<Rightarrow> bt_insert (pc_path c) d (bt_remove (pc_path c) t))"
    have "compose_change t c = Inr t'"
      using Some r pre by (simp add: compose_change_def Let_def t'_def split: option.splits)
    moreover have "composes sha files0 t' (files(pc_path c := pc_resulting_content c))"
    proof (rule composes_put [OF R _ _ rs])
      show "bt_ok t'" using ok by (simp add: t'_def bt.insert_ok bt.remove_ok split: option.splits)
      show "bt_get t' = (bt_get t)(pc_path c := r)"
        by (simp add: t'_def bt.get_insert bt.get_remove split: option.splits)
    qed
    ultimately show ?thesis by blast
  qed
qed

lemma compose_changes_run:
  assumes "composes sha files0 t files" "\<forall>c \<in> set cs. digest_ok sha c" "run_changes sha cs files = Some files'"
  shows "\<exists>t'. compose_changes t cs = Inr t' \<and> composes sha files0 t' files'"
  using assms
proof (induction cs arbitrary: t files)
  case (Cons c cs)
  obtain t1 where t1: "compose_change t c = Inr t1" "composes sha files0 t1 (files(pc_path c := pc_resulting_content c))"
    using compose_change_step [OF Cons.prems(1), of c] Cons.prems(2,3) by (auto split: if_splits)
  have "run_changes sha cs (files(pc_path c := pc_resulting_content c)) = Some files'"
    using Cons.prems(3) by (simp split: if_splits)
  then obtain t' where "compose_changes t1 cs = Inr t'" "composes sha files0 t' files'"
    using Cons.IH [OF t1(2)] Cons.prems(2) by (meson list.set_intros(2))
  then show ?case using t1(1) by simp
qed simp

lemma run_changes_append:
  "run_changes sha (xs @ ys) files = Some f \<longleftrightarrow>
     (\<exists>g. run_changes sha xs files = Some g \<and> run_changes sha ys g = Some f)"
  by (induction xs arbitrary: files) auto

lemma compose_plans_run:
  assumes "composes sha files0 t files" "\<forall>p \<in> set plans. plan_ok sha p" "run_changes sha (concat plans) files = Some files'"
  shows "\<exists>t'. compose_plans sha t plans = Inr t' \<and> composes sha files0 t' files'"
  using assms
proof (induction plans arbitrary: t files)
  case (Cons plan plans)
  obtain g where g: "run_changes sha plan files = Some g" "run_changes sha (concat plans) g = Some files'"
    using Cons.prems(3) by (auto simp: run_changes_append)
  have "plan_ok sha plan" "\<forall>c \<in> set plan. digest_ok sha c" using Cons.prems(2) by (auto simp: plan_ok_def)
  then obtain t1 where "compose_changes t plan = Inr t1" "composes sha files0 t1 g"
    using compose_changes_run [OF Cons.prems(1) _ g(1)] by blast
  with Cons.IH [of t1 g] Cons.prems(2) g(2) \<open>plan_ok sha plan\<close> show ?case by auto
qed simp

text \<open>A plan with distinct paths runs when all its preconditions hold at the start.\<close>

lemma run_changes_distinct:
  assumes "distinct (map pc_path plan)" "\<forall>c \<in> set plan. meets sha files c"
    and "\<And>c. c \<in> set plan \<Longrightarrow> files' (pc_path c) = pc_resulting_content c"
    and "\<And>p. p \<notin> pc_path ` set plan \<Longrightarrow> files' p = files p"
  shows "run_changes sha plan files = Some files'"
  using assms
proof (induction plan arbitrary: files)
  case (Cons c plan)
  let ?g = "files(pc_path c := pc_resulting_content c)"
  have "\<forall>d \<in> set plan. meets sha ?g d"
    using Cons.prems(1,2) by (auto simp: meets_def image_iff split: file_precondition.splits)
  moreover have "files' p = ?g p" if "p \<notin> pc_path ` set plan" for p
    using that Cons.prems(3) [of c] Cons.prems(4) [of p] by (cases "p = pc_path c") auto
  ultimately have "run_changes sha plan ?g = Some files'"
    using Cons.IH [of ?g] Cons.prems(1,3) by (metis distinct.simps(2) list.set_intros(2) list.simps(9))
  then show ?case using Cons.prems(2) by simp
qed (auto simp: fun_eq_iff)

lemma composed_plan:
  assumes R: "composes sha files t files'"
  shows "plan_ok sha (bt_values t) \<and> run_changes sha (bt_values t) files = Some files'"
proof -
  have ok: "bt_ok t" and at: "composed_at sha files files' p (bt_get t p)" for p
    using R by (simp_all add: composes_def)
  have keyed: "pc_path v = k" if "bt_get t k = Some v" for k v using at [of k] that by simp
  have vals: "c \<in> set (bt_values t) \<longleftrightarrow> bt_get t (pc_path c) = Some c" for c
    unfolding bt_values_def by (rule bt.values_set [OF ok]) (rule keyed)
  have at_c: "meets sha files c \<and> digest_ok sha c \<and> files' (pc_path c) = pc_resulting_content c"
    if "c \<in> set (bt_values t)" for c
    using that at [of "pc_path c"] by (simp add: vals)
  have "sorted_wrt (<) (map pc_path (bt_values t))"
    unfolding bt_values_def by (rule bt.values_sorted [OF ok]) (rule keyed)
  then have p: "plan_ok sha (bt_values t)" using at_c by (simp add: plan_ok_def)
  have "files' p = files p" if "p \<notin> pc_path ` set (bt_values t)" for p
  proof (cases "bt_get t p")
    case (Some v)
    then have "v \<in> set (bt_values t)" "pc_path v = p" using keyed vals by simp_all
    then show ?thesis using that by blast
  qed (use at [of p] in simp)
  then have "run_changes sha (bt_values t) files = Some files'"
    using at_c by (intro run_changes_distinct [OF plan_ok_distinct [OF p]]) simp_all
  with p show ?thesis by blast
qed

section \<open>Properties\<close>

definition keyed :: "(change_path, planned_file_change) btree \<Rightarrow> bool" where
  "keyed t \<longleftrightarrow> bt_ok t \<and> (\<forall>k v. bt_get t k = Some v \<longrightarrow> pc_path v = k)"

lemma keyed_insert: "keyed t \<Longrightarrow> keyed (bt_insert (pc_path c) c t)"
  by (auto simp: keyed_def bt.insert_ok bt.get_insert)

lemma order_changes_succeeds:
  "distinct (map pc_path cs) \<Longrightarrow> \<forall>c \<in> set cs. bt_get t (pc_path c) = None \<Longrightarrow> \<exists>t'. order_changes t cs = Inr t'"
proof (induction cs arbitrary: t)
  case (Cons c cs)
  have "bt_get (bt_insert (pc_path c) c t) (pc_path d) = None" if "d \<in> set cs" for d
    using that Cons.prems by (auto simp: bt.get_insert) (metis image_eqI)
  then show ?case using Cons.IH [of "bt_insert (pc_path c) c t"] Cons.prems by simp
qed simp

lemma order_changes_keyed:
  assumes "order_changes t cs = Inr t'" "keyed t"
  shows "keyed t' \<and> distinct (map pc_path cs) \<and> (\<forall>c \<in> set cs. bt_get t (pc_path c) = None) \<and>
    (\<forall>c. bt_get t' (pc_path c) = Some c \<longleftrightarrow> bt_get t (pc_path c) = Some c \<or> c \<in> set cs)"
  using assms
proof (induction cs arbitrary: t)
  case (Cons c cs)
  let ?t = "bt_insert (pc_path c) c t"
  have n: "bt_get t (pc_path c) = None" and o: "order_changes ?t cs = Inr t'"
    using Cons.prems(1) by (auto simp: Let_def split: option.splits)
  have IH: "keyed t'" "distinct (map pc_path cs)" "\<forall>d \<in> set cs. bt_get ?t (pc_path d) = None"
    "\<And>d. bt_get t' (pc_path d) = Some d \<longleftrightarrow> bt_get ?t (pc_path d) = Some d \<or> d \<in> set cs"
    using Cons.IH [OF o keyed_insert [OF Cons.prems(2)]] by blast+
  have "pc_path d \<noteq> pc_path c \<and> bt_get t (pc_path d) = None" if "d \<in> set cs" for d
    using IH(3) that by (auto simp: bt.get_insert split: if_splits)
  moreover from this have "pc_path c \<notin> pc_path ` set cs" by fastforce
  moreover have "bt_get ?t (pc_path d) = Some d \<longleftrightarrow> bt_get t (pc_path d) = Some d \<or> d = c" for d
    using n by (auto simp: bt.get_insert)
  ultimately show ?case using IH n by auto
qed simp

text \<open>Both directions of the exact result: what the ordering leaves, and that a sorted list with given elements is unique.\<close>

lemma plan_new_iff:
  "plan_new sha cs = Inr plan \<longleftrightarrow>
     distinct (map pc_path cs) \<and> (\<forall>c \<in> set cs. digest_ok sha c) \<and> set plan = set cs \<and> sorted_wrt (<) (map pc_path plan)"
proof -
  have k0: "keyed []" by (simp add: keyed_def bt.empty_ok bt.get_empty)
  have result: "keyed t \<and> distinct (map pc_path cs) \<and> set (bt_values t) = set cs \<and> sorted_wrt (<) (map pc_path (bt_values t))"
    if "order_changes [] cs = Inr t" for t
  proof -
    have t: "keyed t" "distinct (map pc_path cs)" "\<And>c. bt_get t (pc_path c) = Some c \<longleftrightarrow> c \<in> set cs"
      using order_changes_keyed [OF that k0] by (auto simp: bt.get_empty)
    have k: "bt_ok t" "\<And>k v. bt_get t k = Some v \<Longrightarrow> pc_path v = k" using t(1) by (simp_all add: keyed_def)
    have "c \<in> set (bt_values t) \<longleftrightarrow> c \<in> set cs" for c
      unfolding t(3) [symmetric] bt_values_def by (rule bt.values_set [OF k])
    then have "set (bt_values t) = set cs" by blast
    moreover have "sorted_wrt (<) (map pc_path (bt_values t))"
      unfolding bt_values_def by (rule bt.values_sorted [OF k])
    ultimately show ?thesis using t(1,2) by blast
  qed
  have unique: "p = q" if "set p = set q" "sorted_wrt (<) (map pc_path p)" "sorted_wrt (<) (map pc_path q)" for p q
  proof -
    have "distinct (map pc_path p)" "sorted (map pc_path p)" "distinct (map pc_path q)" "sorted (map pc_path q)"
      using that strict_sorted_iff by blast+
    moreover have "inj_on pc_path (set p)" using \<open>distinct (map pc_path p)\<close> by (simp add: distinct_map)
    ultimately show ?thesis
      using that(1) by (metis map_inj_on set_map sorted_distinct_set_unique sup.idem)
  qed
  show ?thesis
  proof
    assume "plan_new sha cs = Inr plan"
    then obtain t where t: "order_changes [] cs = Inr t" "plan = bt_values t" "plan_ok sha plan"
      by (auto simp: plan_new_def Let_def)
    with result [OF t(1)] show "distinct (map pc_path cs) \<and> (\<forall>c \<in> set cs. digest_ok sha c) \<and> set plan = set cs \<and>
      sorted_wrt (<) (map pc_path plan)"
      by (auto simp: plan_ok_def)
  next
    assume r: "distinct (map pc_path cs) \<and> (\<forall>c \<in> set cs. digest_ok sha c) \<and> set plan = set cs \<and>
      sorted_wrt (<) (map pc_path plan)"
    then obtain t where t: "order_changes [] cs = Inr t"
      using order_changes_succeeds [of cs "[]"] by (auto simp: bt.get_empty)
    from result [OF t] r have "bt_values t = plan" by (intro unique) auto
    then show "plan_new sha cs = Inr plan"
      using t r result [OF t] by (simp add: plan_new_def Let_def plan_ok_def)
  qed
qed

text \<open>C30. A plan can be built from a list of changes exactly when they are on pairwise distinct paths and carry
  the digests of their contents; the plan then holds the same changes, in path order, whatever the order of
  the list was.\<close>

theorem plan_new_exact:
  "plan_new sha cs = Inr plan \<longleftrightarrow>
     distinct (map pc_path cs) \<and> (\<forall>c \<in> set cs. digest_ok sha c) \<and> set plan = set cs \<and> sorted_wrt (<) (map pc_path plan)"
  by (rule plan_new_iff)

text \<open>C31. Composing plans refines running them one after the other: if the valid plans run in sequence from
  some files (every precondition holds when its turn comes), then their composition exists, is a valid
  plan, and running it from the same files gives the same result.\<close>

theorem compose_refines_sequence:
  assumes "\<forall>p \<in> set plans. plan_validate sha p = Inr ()"
    and "run_changes sha (concat plans) files = Some files'"
  shows "\<exists>plan. plan_compose sha plans = Inr plan \<and> plan_validate sha plan = Inr () \<and>
    run_changes sha plan files = Some files'"
proof -
  obtain t where t: "compose_plans sha [] plans = Inr t" "composes sha files t files'"
    using compose_plans_run [OF composes_empty, of plans sha files files'] assms by auto
  with composed_plan [OF t(2)] show ?thesis by (auto simp: plan_compose_def Let_def)
qed

definition sample_sha :: "content \<Rightarrow> content_digest" where
  "sample_sha c = c"

definition sample_plans :: "change_plan list" where
  "sample_plans =
     [[PCreate \<lparr> fn_path = ''a.rs'', fn_content = ''one'', fn_result_digest = ''one'' \<rparr>,
       PEdit \<lparr> fe_path = ''b.rs'', fe_original_digest = ''x'', fe_content = ''y'', fe_result_digest = ''y'' \<rparr>],
      [PEdit \<lparr> fe_path = ''a.rs'', fe_original_digest = ''one'', fe_content = ''two'', fe_result_digest = ''two'' \<rparr>,
       PRetire \<lparr> fr_path = ''b.rs'', fr_original_digest = ''y'', fr_integration = ''identity'' \<rparr>]]"

theorem plan_new_exact_witness:
  "plan_new sample_sha (rev (hd sample_plans)) = Inr (hd sample_plans)"
  unfolding plan_new_exact by (auto simp: sample_plans_def sample_sha_def digest_ok_def)

theorem compose_refines_sequence_witness:
  "\<exists>plan. plan_compose sample_sha sample_plans = Inr plan \<and>
     run_changes sample_sha plan [''b.rs'' \<mapsto> ''x''] = Some [''a.rs'' \<mapsto> ''two'']"
proof -
  have "\<forall>p \<in> set sample_plans. plan_validate sample_sha p = Inr ()" by code_simp
  moreover have "run_changes sample_sha (concat sample_plans) [''b.rs'' \<mapsto> ''x''] = Some [''a.rs'' \<mapsto> ''two'']"
    by (simp add: sample_plans_def sample_sha_def meets_def fun_eq_iff)
  ultimately show ?thesis using compose_refines_sequence by blast
qed

text \<open>The path check of change plans and the path check of the manifest's source ownership, written
  separately in two crates, accept the same paths.\<close>

theorem change_path_agrees_with_ownership:
  "(change_path_new p = Inr p) = (validate_ownership_path p = Inr ())"
  by (simp add: change_path_new_iff)

end
