(* ===== verification/File_System.thy ===== *)
theory File_System
  imports Rust_Text
begin

text \<open>
  The part of a POSIX file system that the mutation publisher uses through \<^verbatim>\<open>rustix\<close> and \<^verbatim>\<open>std::fs\<close>: directory
  entries and inodes, and the system calls it makes. Every call may fail: \<open>w_faults\<close> says for the n-th call
  whether the operating system refuses it, and how many bytes a refused write leaves behind. A refused
  call other than a write changes nothing, so refusing every call from the n-th on also describes a process
  that dies there. An inode stands for the device and inode number the code compares.
\<close>

type_synonym inode = nat
type_synonym location = "inode \<times> string"

datatype node = Directory | Regular string "32 word" | OtherNode

datatype errno = EXIST | NOENT | OtherErrno

record world =
  w_links :: "location \<Rightarrow> inode option"
  w_nodes :: "inode \<Rightarrow> node option"
  w_next :: inode
  w_clock :: nat
  w_faults :: "nat \<Rightarrow> nat option"
  w_slash :: inode
  w_cwd :: "string option"
  w_umask :: "32 word"
  w_pid :: nat
  w_nanos :: "nat option"

type_synonym 'a sys = "(world, errno, 'a) exec"

definition S_IFREG :: "32 word" where "S_IFREG = 0x8000"

definition tick :: "world \<Rightarrow> world" where
  "tick w = w\<lparr> w_clock := w_clock w + 1 \<rparr>"

definition syscall :: "(world \<Rightarrow> (errno + 'a) \<times> world) \<Rightarrow> 'a sys" where
  "syscall f w = (case w_faults w (w_clock w) of None \<Rightarrow> f (tick w) | Some _ \<Rightarrow> (Inl OtherErrno, tick w))"

abbreviation is_dir :: "world \<Rightarrow> inode \<Rightarrow> bool" where
  "is_dir w i \<equiv> w_nodes w i = Some Directory"

text \<open>\<^verbatim>\<open>open("/")\<close> and \<^verbatim>\<open>openat\<close> with \<^verbatim>\<open>O_DIRECTORY | O_NOFOLLOW\<close>; \<open>sys_dup_dir\<close> opens \<open>.\<close>.\<close>

definition sys_open_slash :: "inode sys" where
  "sys_open_slash = syscall (\<lambda>w. (Inr (w_slash w), w))"

definition sys_dup_dir :: "inode \<Rightarrow> inode sys" where
  "sys_dup_dir d = syscall (\<lambda>w. (Inr d, w))"

definition sys_open_dir :: "inode \<Rightarrow> string \<Rightarrow> inode sys" where
  "sys_open_dir d name = syscall (\<lambda>w.
     case w_links w (d, name) of
       None \<Rightarrow> (Inl NOENT, w)
     | Some i \<Rightarrow> (if is_dir w i then Inr i else Inl OtherErrno, w))"

text \<open>\<^verbatim>\<open>openat\<close> with \<^verbatim>\<open>O_CREAT | O_EXCL\<close> and the mode given, and with \<^verbatim>\<open>O_RDONLY | O_NOFOLLOW\<close>.\<close>

definition sys_create :: "inode \<Rightarrow> string \<Rightarrow> 32 word \<Rightarrow> inode sys" where
  "sys_create d name mode = syscall (\<lambda>w.
     if w_links w (d, name) \<noteq> None then (Inl EXIST, w)
     else (Inr (w_next w),
       w\<lparr> w_links := (w_links w)((d, name) \<mapsto> w_next w),
          w_nodes := (w_nodes w)(w_next w \<mapsto> Regular [] (or S_IFREG (and mode (not (w_umask w))))),
          w_next := w_next w + 1 \<rparr>))"

definition sys_open_read :: "inode \<Rightarrow> string \<Rightarrow> inode sys" where
  "sys_open_read d name = syscall (\<lambda>w.
     case w_links w (d, name) of
       None \<Rightarrow> (Inl NOENT, w)
     | Some i \<Rightarrow> (case w_nodes w i of
         Some Directory \<Rightarrow> Inr i
       | Some (Regular _ _) \<Rightarrow> Inr i
       | _ \<Rightarrow> Inl OtherErrno, w))"

text \<open>On an open file: \<^verbatim>\<open>metadata\<close> gives its identity and, for a regular file, its mode; then \<^verbatim>\<open>read_to_end\<close>,
  \<^verbatim>\<open>write_all\<close> on a file just created, \<^verbatim>\<open>sync_all\<close> and \<^verbatim>\<open>fchmod\<close>.\<close>

definition sys_metadata :: "inode \<Rightarrow> (inode \<times> 32 word option) sys" where
  "sys_metadata i = syscall (\<lambda>w.
     (Inr (i, case w_nodes w i of Some (Regular _ mode) \<Rightarrow> Some mode | _ \<Rightarrow> None), w))"

definition sys_read :: "inode \<Rightarrow> string sys" where
  "sys_read i = syscall (\<lambda>w.
     (case w_nodes w i of Some (Regular content _) \<Rightarrow> Inr content | _ \<Rightarrow> Inl OtherErrno, w))"

definition set_content :: "inode \<Rightarrow> string \<Rightarrow> world \<Rightarrow> world" where
  "set_content i content w =
     (case w_nodes w i of
        Some (Regular _ mode) \<Rightarrow> w\<lparr> w_nodes := (w_nodes w)(i \<mapsto> Regular content mode) \<rparr>
      | _ \<Rightarrow> w)"

definition sys_write :: "inode \<Rightarrow> string \<Rightarrow> unit sys" where
  "sys_write i content w =
     (case w_faults w (w_clock w) of
        None \<Rightarrow> (Inr (), set_content i content (tick w))
      | Some n \<Rightarrow> (Inl OtherErrno, set_content i (take n content) (tick w)))"

definition sys_sync :: "inode \<Rightarrow> unit sys" where
  "sys_sync i = syscall (\<lambda>w. (Inr (), w))"

definition chmod :: "32 word \<Rightarrow> 32 word \<Rightarrow> 32 word" where
  "chmod old mode = or (and old (not 0xFFF)) (and mode 0xFFF)"

definition sys_fchmod :: "inode \<Rightarrow> 32 word \<Rightarrow> unit sys" where
  "sys_fchmod i mode = syscall (\<lambda>w.
     case w_nodes w i of
       Some (Regular content old) \<Rightarrow> (Inr (), w\<lparr> w_nodes := (w_nodes w)(i \<mapsto> Regular content (chmod old mode)) \<rparr>)
     | _ \<Rightarrow> (Inl OtherErrno, w))"

text \<open>\<^verbatim>\<open>renameat2\<close> inside one directory with \<^verbatim>\<open>RENAME_NOREPLACE\<close> and \<^verbatim>\<open>RENAME_EXCHANGE\<close>, \<^verbatim>\<open>unlinkat\<close> and
  \<^verbatim>\<open>statat\<close> with \<^verbatim>\<open>AT_SYMLINK_NOFOLLOW\<close>.\<close>

definition sys_rename_noreplace :: "inode \<Rightarrow> string \<Rightarrow> string \<Rightarrow> unit sys" where
  "sys_rename_noreplace d source destination = syscall (\<lambda>w.
     if w_links w (d, source) = None then (Inl NOENT, w)
     else if w_links w (d, destination) \<noteq> None then (Inl EXIST, w)
     else (Inr (), w\<lparr> w_links := (w_links w)((d, destination) := w_links w (d, source), (d, source) := None) \<rparr>))"

definition sys_rename_exchange :: "inode \<Rightarrow> string \<Rightarrow> string \<Rightarrow> unit sys" where
  "sys_rename_exchange d source destination = syscall (\<lambda>w.
     if w_links w (d, source) = None \<or> w_links w (d, destination) = None then (Inl NOENT, w)
     else (Inr (), w\<lparr> w_links := (w_links w)((d, destination) := w_links w (d, source), (d, source) := w_links w (d, destination)) \<rparr>))"

definition sys_unlink :: "inode \<Rightarrow> string \<Rightarrow> unit sys" where
  "sys_unlink d name = syscall (\<lambda>w.
     case w_links w (d, name) of
       None \<Rightarrow> (Inl NOENT, w)
     | Some i \<Rightarrow> if is_dir w i then (Inl OtherErrno, w)
                 else (Inr (), w\<lparr> w_links := (w_links w)((d, name) := None) \<rparr>))"

definition sys_stat :: "inode \<Rightarrow> string \<Rightarrow> unit sys" where
  "sys_stat d name = syscall (\<lambda>w. (if w_links w (d, name) = None then Inl NOENT else Inr (), w))"

section \<open>Runs of the system calls\<close>

text \<open>What a call does not change: \<open>disk\<close> is all of the file system, \<open>names\<close> its entries.\<close>

definition disk :: "world \<Rightarrow> (location \<Rightarrow> inode option) \<times> (inode \<Rightarrow> node option) \<times> inode" where
  "disk w = (w_links w, w_nodes w, w_next w)"

lemma tick_simps [simp]:
  "w_links (tick w) = w_links w" "w_nodes (tick w) = w_nodes w" "w_next (tick w) = w_next w" "disk (tick w) = disk w"
  "w_slash (tick w) = w_slash w" "w_faults (tick w) = w_faults w" "w_cwd (tick w) = w_cwd w" "w_pid (tick w) = w_pid w"
  "w_nanos (tick w) = w_nanos w" "w_umask (tick w) = w_umask w"
  by (simp_all add: tick_def disk_def)

lemma syscall_Inr:
  "syscall f w = (Inr x, w') \<longleftrightarrow> w_faults w (w_clock w) = None \<and> f (tick w) = (Inr x, w')"
  by (simp add: syscall_def split: option.split)

lemma syscall_Inl:
  "syscall f w = (Inl e, w') \<Longrightarrow> w' = tick w \<or> f (tick w) = (Inl e, w')"
  by (simp add: syscall_def split: option.splits)

lemma steps_syscall: "(\<And>w. R w (snd (f (tick w)))) \<Longrightarrow> (\<And>w. R w (tick w)) \<Longrightarrow> steps R (syscall f)"
  unfolding steps_def syscall_def by (auto split: option.split)

text \<open>Calls that read.\<close>

lemma reads_disk [steps_intros]:
  "steps (fixing disk) sys_open_slash" "steps (fixing disk) (sys_dup_dir d)" "steps (fixing disk) (sys_open_dir d n)"
  "steps (fixing disk) (sys_open_read d n)" "steps (fixing disk) (sys_metadata i)" "steps (fixing disk) (sys_read i)"
  "steps (fixing disk) (sys_sync i)" "steps (fixing disk) (sys_stat d n)"
  unfolding sys_open_slash_def sys_dup_dir_def sys_open_dir_def sys_open_read_def sys_metadata_def sys_read_def
    sys_sync_def sys_stat_def
  by (rule steps_syscall; simp add: fixing_def split: option.split)+

text \<open>Calls that write leave entries alone except the renames, \<open>sys_create\<close> and \<open>sys_unlink\<close>.\<close>

lemma set_content_simps [simp]:
  "w_links (set_content i c w) = w_links w" "w_next (set_content i c w) = w_next w"
  "j \<noteq> i \<Longrightarrow> w_nodes (set_content i c w) j = w_nodes w j"
  by (simp_all add: set_content_def split: option.split node.split)

lemma writes_links [steps_intros]:
  "steps (fixing w_links) (sys_write i c)" "steps (fixing w_links) (sys_fchmod i m)"
  by (auto simp: steps_def sys_write_def fixing_def sys_fchmod_def syscall_def split: option.split node.split)

lemma links_of_disk: "steps (fixing disk) m \<Longrightarrow> steps (fixing w_links) m"
  by (auto simp: steps_def fixing_def disk_def)

lemma disk_eqD: "disk w' = disk w \<Longrightarrow> w_links w' = w_links w \<and> w_nodes w' = w_nodes w \<and> w_next w' = w_next w"
  by (simp add: disk_def)

end
