(* ===== verification/Publisher.thy ===== *)
theory Publisher
  imports Change_Plan File_System
begin

text \<open>
  The failure-safe publisher of change plans (\<^verbatim>\<open>tools/application_mutator/src/publisher.rs\<close>), function by
  function: it stages every result beside its target, publishes by atomic renames under a marker file, and
  rolls back when anything fails. An open directory handle is the inode of the directory. The functions that
  leave \<^verbatim>\<open>prepared\<close> behind when they fail return it together with their result.
\<close>

section \<open>Errors and data\<close>

definition MUTATION_MARKER :: string where "MUTATION_MARKER = ''.hegira-mutation.lock''"

datatype mutation_error_kind =
    InvalidPlan | UnsupportedPlatform | UnsafeRoot | RecoveryRequired | PreconditionFailed
  | PublicationFailed | RollbackIncomplete

record mutation_error =
  me_kind :: mutation_error_kind
  me_path :: "change_path option"
  me_message :: string

definition mutation_error :: "mutation_error_kind \<Rightarrow> string \<Rightarrow> mutation_error" where
  "mutation_error kind message = \<lparr> me_kind = kind, me_path = None, me_message = message \<rparr>"

definition mutation_error_at :: "mutation_error_kind \<Rightarrow> change_path \<Rightarrow> string \<Rightarrow> mutation_error" where
  "mutation_error_at kind path message = \<lparr> me_kind = kind, me_path = Some path, me_message = message \<rparr>"

definition of_plan_error :: "change_plan_error \<Rightarrow> mutation_error" where
  "of_plan_error e = \<lparr> me_kind = InvalidPlan, me_path = ce_path e, me_message = ce_message e \<rparr>"

type_synonym 'a mutation = "(world, mutation_error, 'a) exec"

type_synonym identity = inode

record observed_file =
  ob_identity :: identity
  ob_digest :: content_digest
  ob_mode :: "32 word"

record root =
  rt_path :: string
  rt_fd :: inode
  rt_identity :: identity

record prepared_change =
  pp_path :: change_path
  pp_parent_path :: "string list"
  pp_name :: string
  pp_parent :: inode
  pp_temp_name :: string
  pp_operation :: change_operation
  pp_expected :: file_precondition
  pp_result_digest :: "content_digest option"
  pp_original :: "observed_file option"
  pp_staged_identity :: identity
  pp_result_mode :: "32 word option"
  pp_published :: bool

datatype hook_point = BeforeFilesystemPreflight | BeforePublication | BeforeChange nat | AfterChange nat

definition PRIVATE_MODE :: "32 word" where "PRIVATE_MODE = 0x180"
definition CREATED_MODE :: "32 word" where "CREATED_MODE = 0x1A4"
definition permission_bits :: "32 word \<Rightarrow> 32 word" where "permission_bits mode = and mode 0x1FF"

text \<open>\<^verbatim>\<open>.map_err(|_| error)\<close> on a system call.\<close>

definition or_fail :: "'a sys \<Rightarrow> mutation_error \<Rightarrow> 'a mutation" where
  "or_fail m e = map_err (\<lambda>_. e) m"

definition precondition_failed :: "change_path \<Rightarrow> mutation_error" where
  "precondition_failed path =
     mutation_error_at PreconditionFailed path (''mutation precondition no longer holds for `'' @ path @ ''`'')"

definition unsupported_semantics :: "change_path \<Rightarrow> mutation_error" where
  "unsupported_semantics path =
     mutation_error_at UnsupportedPlatform path ''the target filesystem does not provide required safe mutation semantics''"

section \<open>The root directory\<close>

definition joined :: "string \<Rightarrow> string \<Rightarrow> string" where
  "joined base path = (if suffix ''/'' base then base @ path else base @ ''/'' @ path)"

definition file_name :: "string \<Rightarrow> string option" where
  "file_name path = (case rev (path_components path) of Normal name # _ \<Rightarrow> Some name | _ \<Rightarrow> None)"

definition checked_root :: "string \<Rightarrow> string mutation" where
  "checked_root path =
     seqE (ensure (\<not> (path = [] \<or> CHR 0x5C \<in> set path \<or> has_control path))
       (mutation_error UnsafeRoot ''application root must be non-empty and contain no controls or backslashes''))
     (seqE (ensure (ParentDir \<notin> set (path_components path))
       (mutation_error UnsafeRoot ''application root may not contain parent traversal''))
     (bindE (if is_absolute path then ret path
             else bindE (gets w_cwd) (\<lambda>cwd.
               bindE (ok_or cwd (mutation_error UnsafeRoot ''cannot resolve the current directory'')) (\<lambda>cwd.
               ret (joined cwd path)))) (\<lambda>absolute.
      seqE (ensure (file_name absolute \<noteq> None)
        (mutation_error UnsafeRoot ''application root must name a directory below the filesystem root''))
      (ret absolute))))"

fun open_components :: "inode \<Rightarrow> path_component list \<Rightarrow> inode mutation" where
  "open_components fd [] = ret fd"
| "open_components fd (component # rest) =
     (case component of
        RootDir \<Rightarrow> open_components fd rest
      | CurDir \<Rightarrow> open_components fd rest
      | Normal name \<Rightarrow>
          bindE (or_fail (sys_open_dir fd name)
            (mutation_error UnsafeRoot ''application root and its ancestors must be existing real directories''))
            (\<lambda>fd. open_components fd rest)
      | ParentDir \<Rightarrow> throw (mutation_error UnsafeRoot ''application root contains an unsupported path component''))"

definition open_directory_path :: "string \<Rightarrow> inode mutation" where
  "open_directory_path path =
     bindE (or_fail sys_open_slash (mutation_error UnsafeRoot ''cannot open the filesystem root'')) (\<lambda>fd.
     open_components fd (path_components path))"

definition directory_identity :: "inode \<Rightarrow> identity mutation" where
  "directory_identity fd =
     bindE (or_fail (sys_metadata fd) (mutation_error UnsafeRoot ''cannot inspect an opened application directory''))
       (\<lambda>m. ret (fst m))"

definition root_open :: "string \<Rightarrow> root mutation" where
  "root_open path =
     bindE (checked_root path) (\<lambda>path.
     bindE (open_directory_path path) (\<lambda>fd.
     bindE (directory_identity fd) (\<lambda>identity.
     ret \<lparr> rt_path = path, rt_fd = fd, rt_identity = identity \<rparr>)))"

definition root_changed :: mutation_error where
  "root_changed = mutation_error UnsafeRoot ''application root changed during mutation; manual inspection may be required''"

definition verify_namespace :: "root \<Rightarrow> unit mutation" where
  "verify_namespace root =
     bindE (map_err (\<lambda>_. root_changed) (open_directory_path (rt_path root))) (\<lambda>current.
     bindE (directory_identity current) (\<lambda>identity.
     ensure (identity = rt_identity root) root_changed))"

fun descend_from :: "inode \<Rightarrow> string list \<Rightarrow> change_path \<Rightarrow> inode mutation" where
  "descend_from fd [] change = ret fd"
| "descend_from fd (name # rest) change =
     bindE (or_fail (sys_open_dir fd name)
       (mutation_error_at UnsafeRoot change ''change parents must be existing real directories''))
       (\<lambda>fd. descend_from fd rest change)"

definition descend :: "inode \<Rightarrow> string list \<Rightarrow> change_path \<Rightarrow> inode mutation" where
  "descend root path change =
     bindE (or_fail (sys_dup_dir root)
       (mutation_error_at UnsafeRoot change ''cannot anchor a change to the application root''))
       (\<lambda>fd. descend_from fd path change)"

definition sync_directory :: "inode \<Rightarrow> unit mutation" where
  "sync_directory fd =
     bindE (or_fail (sys_dup_dir fd) (mutation_error PublicationFailed ''cannot duplicate an application directory handle''))
       (\<lambda>duplicate.
     or_fail (sys_sync duplicate) (mutation_error PublicationFailed ''cannot make application directory changes durable''))"

fun sync_parents_from :: "identity set \<Rightarrow> prepared_change list \<Rightarrow> unit mutation" where
  "sync_parents_from seen [] = ret ()"
| "sync_parents_from seen (change # rest) =
     bindE (directory_identity (pp_parent change)) (\<lambda>identity.
     if identity \<in> seen then sync_parents_from seen rest
     else seqE (sync_directory (pp_parent change)) (sync_parents_from (insert identity seen) rest))"

definition sync_unique_parents :: "prepared_change list \<Rightarrow> unit mutation" where
  "sync_unique_parents prepared = sync_parents_from {} prepared"

section \<open>Files\<close>

definition ensure_absent :: "inode \<Rightarrow> string \<Rightarrow> change_path \<Rightarrow> unit mutation" where
  "ensure_absent parent name path =
     bindE (attempt (sys_stat parent name)) (\<lambda>r.
     case r of
       Inl NOENT \<Rightarrow> ret ()
     | Inr _ \<Rightarrow> throw (precondition_failed path)
     | Inl _ \<Rightarrow> throw (mutation_error_at UnsafeRoot path ''cannot safely inspect a mutation destination''))"

definition read_regular_file ::
    "(content \<Rightarrow> content_digest) \<Rightarrow> inode \<Rightarrow> string \<Rightarrow> change_path \<Rightarrow> observed_file mutation" where
  "read_regular_file sha parent name path =
     bindE (or_fail (sys_open_read parent name) (precondition_failed path)) (\<lambda>file.
     bindE (or_fail (sys_metadata file) (precondition_failed path)) (\<lambda>metadata.
     bindE (ok_or (snd metadata) (precondition_failed path)) (\<lambda>mode.
     bindE (or_fail (sys_read file) (precondition_failed path)) (\<lambda>content.
     ret \<lparr> ob_identity = fst metadata, ob_digest = sha content, ob_mode = mode \<rparr>))))"

definition read_identity :: "inode \<Rightarrow> string \<Rightarrow> (world, unit, identity) exec" where
  "read_identity parent name =
     map_err (\<lambda>_. ()) (bindE (sys_open_read parent name) (\<lambda>file.
       bindE (sys_metadata file) (\<lambda>metadata. ret (fst metadata))))"

definition remove_named_if_identity :: "inode \<Rightarrow> string \<Rightarrow> identity \<Rightarrow> (world, unit, unit) exec" where
  "remove_named_if_identity parent name expected =
     bindE (read_identity parent name) (\<lambda>identity.
     seqE (ensure (identity = expected) ())
     (map_err (\<lambda>_. ()) (sys_unlink parent name)))"

definition temp_name :: "string \<Rightarrow> nat \<Rightarrow> string" where
  "temp_name transaction index = ''.hegira-mutation-'' @ transaction @ ''-'' @ nat_digits index"

definition probe_name :: "string \<Rightarrow> nat \<Rightarrow> char \<Rightarrow> string" where
  "probe_name transaction index side = ''.hegira-probe-'' @ transaction @ ''-'' @ nat_digits index @ ''-'' @ [side]"

section \<open>The marker\<close>

definition transaction_id :: "string mutation" where
  "transaction_id =
     bindE (gets w_nanos) (\<lambda>now.
     bindE (ok_or now (mutation_error PublicationFailed ''cannot allocate a mutation transaction identifier'')) (\<lambda>nonce.
     bindE (gets w_pid) (\<lambda>pid.
     ret (nat_digits pid @ ''-'' @ nat_digits nonce))))"

fun operation_name :: "change_operation \<Rightarrow> string" where
  "operation_name Create = ''create''" | "operation_name Edit = ''edit''" | "operation_name Retire = ''retire''"

definition marker_line :: "string \<Rightarrow> nat \<Rightarrow> planned_file_change \<Rightarrow> string" where
  "marker_line transaction index change =
     ''change='' @ nat_digits index @ [CHR 0x09] @ operation_name (pc_operation change) @ [CHR 0x09] @ pc_path change @
     [CHR 0x09] @ (case pc_precondition change of Absent \<Rightarrow> ''absent'' | MatchesDigest digest \<Rightarrow> to_hex digest) @
     [CHR 0x09] @ (case pc_result_digest change of None \<Rightarrow> ''absent'' | Some digest \<Rightarrow> to_hex digest) @
     [CHR 0x09] @ temp_name transaction index @ [CHR 0x0A]"

definition marker_manifest :: "string \<Rightarrow> change_plan \<Rightarrow> string" where
  "marker_manifest transaction plan =
     ''schema=1'' @ [CHR 0x0A] @ ''transaction='' @ transaction @ [CHR 0x0A] @ ''state=publishing'' @ [CHR 0x0A] @
     concat (map (\<lambda>(index, change). marker_line transaction index change) (enumerate 0 plan))"

definition create_marker :: "root \<Rightarrow> change_plan \<Rightarrow> string \<Rightarrow> identity mutation" where
  "create_marker root plan transaction =
     bindE (map_err (\<lambda>e. case e of
         EXIST \<Rightarrow> mutation_error RecoveryRequired ''an existing mutation marker requires inspection before another mutation''
       | _ \<Rightarrow> mutation_error PublicationFailed ''cannot create the private mutation marker'')
       (sys_create (rt_fd root) MUTATION_MARKER PRIVATE_MODE)) (\<lambda>file.
     bindE (or_fail (sys_metadata file)
       (mutation_error RecoveryRequired ''cannot inspect the private mutation marker; manual recovery is required'')) (\<lambda>metadata.
     seqE (or_fail (sys_write file (marker_manifest transaction plan))
       (mutation_error RecoveryRequired ''cannot write the private mutation marker; inspect it before another mutation''))
     (seqE (or_fail (sys_sync file)
       (mutation_error RecoveryRequired ''cannot make the mutation marker durable; inspect it before another mutation''))
     (seqE (map_err (\<lambda>_. mutation_error RecoveryRequired
         ''cannot make the mutation marker durable; inspect it before another mutation'') (sync_directory (rt_fd root)))
     (ret (fst metadata))))))"

definition marker_changed :: mutation_error where
  "marker_changed =
     mutation_error RecoveryRequired ''mutation marker changed during publication; manual recovery is required''"

definition verify_marker :: "root \<Rightarrow> identity \<Rightarrow> unit mutation" where
  "verify_marker root marker =
     bindE (map_err (\<lambda>_. marker_changed) (read_identity (rt_fd root) MUTATION_MARKER)) (\<lambda>observed.
     ensure (observed = marker) marker_changed)"

definition remove_marker :: "root \<Rightarrow> identity \<Rightarrow> unit mutation" where
  "remove_marker root marker =
     seqE (verify_marker root marker)
     (or_fail (sys_unlink (rt_fd root) MUTATION_MARKER) (mutation_error RecoveryRequired ''cannot remove the mutation marker''))"

section \<open>Preparation\<close>

definition stage_file :: "inode \<Rightarrow> string \<Rightarrow> change_path \<Rightarrow> content \<Rightarrow> identity mutation" where
  "stage_file parent temp path content =
     bindE (or_fail (sys_create parent temp PRIVATE_MODE)
       (mutation_error_at PublicationFailed path ''cannot create a private staged mutation file'')) (\<lambda>file.
     bindE (or_fail (sys_metadata file)
       (mutation_error_at RecoveryRequired path ''cannot inspect a staged mutation file; manual cleanup is required'')) (\<lambda>metadata.
     let identity = fst metadata
     in bindE (attempt (seqE (map_err (\<lambda>_. ''cannot write a private staged mutation file'') (sys_write file content))
                             (map_err (\<lambda>_. ''cannot make a staged mutation file durable'') (sys_sync file)))) (\<lambda>result.
        case result of
          Inl message \<Rightarrow>
            bindE (attempt (remove_named_if_identity parent temp identity)) (\<lambda>removed.
            case removed of
              Inr _ \<Rightarrow> throw (mutation_error_at PublicationFailed path message)
            | Inl _ \<Rightarrow> throw (mutation_error_at RecoveryRequired path ''staged mutation file cleanup requires manual inspection''))
        | Inr _ \<Rightarrow> ret identity)))"

definition verify_initial_precondition ::
    "(content \<Rightarrow> content_digest) \<Rightarrow> inode \<Rightarrow> string \<Rightarrow> planned_file_change \<Rightarrow> observed_file option mutation" where
  "verify_initial_precondition sha parent name change =
     (case pc_precondition change of
        Absent \<Rightarrow> seqE (ensure_absent parent name (pc_path change)) (ret None)
      | MatchesDigest expected \<Rightarrow>
          bindE (read_regular_file sha parent name (pc_path change)) (\<lambda>observed.
          seqE (ensure (ob_digest observed = expected) (precondition_failed (pc_path change)))
          (ret (Some observed))))"

definition prepare_change ::
    "(content \<Rightarrow> content_digest) \<Rightarrow> root \<Rightarrow> string \<Rightarrow> nat \<Rightarrow> planned_file_change \<Rightarrow> prepared_change mutation" where
  "prepare_change sha root transaction index change =
     (let segs = segments (pc_path change); parent_path = butlast segs; name = last segs
      in bindE (descend (rt_fd root) parent_path (pc_path change)) (\<lambda>parent.
         bindE (verify_initial_precondition sha parent name change) (\<lambda>original.
         let temp = temp_name transaction index
         in bindE (case pc_resulting_content change of
                     Some content \<Rightarrow>
                       (let mode = (case original of None \<Rightarrow> CREATED_MODE | Some observed \<Rightarrow> permission_bits (ob_mode observed))
                        in bindE (stage_file parent temp (pc_path change) content) (\<lambda>identity. ret (identity, Some mode)))
                   | None \<Rightarrow> ret (ob_identity (the original), None)) (\<lambda>(staged_identity, result_mode).
            ret \<lparr> pp_path = pc_path change, pp_parent_path = parent_path, pp_name = name, pp_parent = parent,
                  pp_temp_name = temp, pp_operation = pc_operation change, pp_expected = pc_precondition change,
                  pp_result_digest = pc_result_digest change, pp_original = original,
                  pp_staged_identity = staged_identity, pp_result_mode = result_mode, pp_published = False \<rparr>))))"

fun prepare_from ::
    "(content \<Rightarrow> content_digest) \<Rightarrow> root \<Rightarrow> string \<Rightarrow> nat \<Rightarrow> prepared_change list \<Rightarrow> planned_file_change list
      \<Rightarrow> (world, mutation_error, (mutation_error + unit) \<times> prepared_change list) exec" where
  "prepare_from sha root transaction index prepared [] = ret (Inr (), prepared)"
| "prepare_from sha root transaction index prepared (change # rest) =
     bindE (attempt (prepare_change sha root transaction index change)) (\<lambda>r.
     case r of
       Inl e \<Rightarrow> ret (Inl e, prepared)
     | Inr p \<Rightarrow> prepare_from sha root transaction (index + 1) (prepared @ [p]) rest)"

definition prepare_changes ::
    "(content \<Rightarrow> content_digest) \<Rightarrow> root \<Rightarrow> change_plan \<Rightarrow> string
      \<Rightarrow> (world, mutation_error, (mutation_error + unit) \<times> prepared_change list) exec" where
  "prepare_changes sha root plan transaction =
     bindE (prepare_from sha root transaction 0 [] plan) (\<lambda>(r, prepared).
     case r of
       Inl e \<Rightarrow> ret (Inl e, prepared)
     | Inr _ \<Rightarrow> bindE (attempt (sync_unique_parents prepared)) (\<lambda>r. ret (r, prepared)))"

section \<open>Probing the file system\<close>

definition create_probe :: "inode \<Rightarrow> string \<Rightarrow> change_path \<Rightarrow> identity mutation" where
  "create_probe parent name path =
     bindE (or_fail (sys_create parent name PRIVATE_MODE) (unsupported_semantics path)) (\<lambda>file.
     bindE (or_fail (sys_metadata file)
       (mutation_error_at RecoveryRequired path ''filesystem safety probe cannot be inspected; manual cleanup is required'')) (\<lambda>metadata.
     bindE (attempt (sys_sync file)) (\<lambda>synced.
     case synced of
       Inl _ \<Rightarrow>
         bindE (attempt (remove_named_if_identity parent name (fst metadata))) (\<lambda>removed.
         case removed of
           Inr _ \<Rightarrow> throw (unsupported_semantics path)
         | Inl _ \<Rightarrow> throw (mutation_error_at RecoveryRequired path ''filesystem safety probe cleanup requires manual inspection''))
     | Inr _ \<Rightarrow> ret (fst metadata))))"

text \<open>The rename that each operation relies on, and whether it exchanged the probes.\<close>

definition probe_rename ::
    "prepared_change \<Rightarrow> string \<Rightarrow> string \<Rightarrow> (world, mutation_error, (mutation_error + unit) \<times> bool) exec" where
  "probe_rename change first_name second_name =
     (if pp_operation change = Edit then
        bindE (attempt (sys_rename_exchange (pp_parent change) first_name second_name)) (\<lambda>r.
        case r of
          Inr _ \<Rightarrow> ret (Inr (), True)
        | Inl _ \<Rightarrow> ret (Inl (unsupported_semantics (pp_path change)), False))
      else
        bindE (attempt (sys_rename_noreplace (pp_parent change) first_name second_name)) (\<lambda>r.
        ret (case r of
               Inl EXIST \<Rightarrow> Inr ()
             | _ \<Rightarrow> Inl (unsupported_semantics (pp_path change)), False)))"

definition probe_change :: "string \<Rightarrow> nat \<Rightarrow> prepared_change \<Rightarrow> unit mutation" where
  "probe_change transaction index change =
     (let first_name = probe_name transaction index (CHR ''a''); second_name = probe_name transaction index (CHR ''b'')
      in bindE (create_probe (pp_parent change) first_name (pp_path change)) (\<lambda>first.
         bindE (attempt (create_probe (pp_parent change) second_name (pp_path change))) (\<lambda>r.
         case r of
           Inl error \<Rightarrow>
             bindE (attempt (remove_named_if_identity (pp_parent change) first_name first)) (\<lambda>removed.
             case removed of
               Inr _ \<Rightarrow> throw error
             | Inl _ \<Rightarrow> throw (mutation_error_at RecoveryRequired (pp_path change)
                 ''filesystem safety probe cleanup requires manual inspection''))
         | Inr second \<Rightarrow>
             bindE (probe_rename change first_name second_name) (\<lambda>(check, exchanged).
             bindE (attempt (remove_named_if_identity (pp_parent change) first_name (if exchanged then second else first))) (\<lambda>first_cleanup.
             bindE (attempt (remove_named_if_identity (pp_parent change) second_name (if exchanged then first else second))) (\<lambda>second_cleanup.
             seqE (ensure (\<not> (isl first_cleanup \<or> isl second_cleanup))
               (mutation_error_at RecoveryRequired (pp_path change)
                 ''filesystem safety probes could not be cleaned; inspect the application''))
             (of_result check)))))))"

fun preflight_from :: "string \<Rightarrow> nat \<Rightarrow> prepared_change list \<Rightarrow> unit mutation" where
  "preflight_from transaction index [] = ret ()"
| "preflight_from transaction index (change # rest) =
     seqE (probe_change transaction index change) (preflight_from transaction (index + 1) rest)"

definition preflight_filesystem_semantics :: "prepared_change list \<Rightarrow> string \<Rightarrow> unit mutation" where
  "preflight_filesystem_semantics prepared transaction = preflight_from transaction 0 prepared"

section \<open>Checks before and after publication\<close>

definition verify_parent_namespace :: "root \<Rightarrow> prepared_change \<Rightarrow> unit mutation" where
  "verify_parent_namespace root change =
     bindE (descend (rt_fd root) (pp_parent_path change) (pp_path change)) (\<lambda>current.
     bindE (directory_identity current) (\<lambda>current_identity.
     bindE (directory_identity (pp_parent change)) (\<lambda>parent_identity.
     ensure (current_identity = parent_identity)
       (mutation_error_at UnsafeRoot (pp_path change) ''a change parent was replaced during mutation''))))"

definition verify_precondition :: "(content \<Rightarrow> content_digest) \<Rightarrow> prepared_change \<Rightarrow> unit mutation" where
  "verify_precondition sha change =
     (case (pp_expected change, pp_original change) of
        (Absent, None) \<Rightarrow> ensure_absent (pp_parent change) (pp_name change) (pp_path change)
      | (MatchesDigest expected, Some original) \<Rightarrow>
          bindE (read_regular_file sha (pp_parent change) (pp_name change) (pp_path change)) (\<lambda>observed.
          ensure (ob_identity observed = ob_identity original \<and> ob_digest observed = expected \<and>
                  ob_mode observed = ob_mode original)
            (precondition_failed (pp_path change)))
      | _ \<Rightarrow> throw (mutation_error_at InvalidPlan (pp_path change) ''mutation precondition and operation are inconsistent''))"

definition verify_all_preconditions :: "(content \<Rightarrow> content_digest) \<Rightarrow> root \<Rightarrow> prepared_change list \<Rightarrow> unit mutation" where
  "verify_all_preconditions sha root prepared =
     for_each (\<lambda>change. seqE (verify_parent_namespace root change) (verify_precondition sha change)) prepared"

definition verify_all_parent_namespaces :: "root \<Rightarrow> prepared_change list \<Rightarrow> unit mutation" where
  "verify_all_parent_namespaces root prepared = for_each (verify_parent_namespace root) prepared"

definition publish_one :: "prepared_change \<Rightarrow> unit mutation" where
  "publish_one change =
     map_err (\<lambda>error. case error of
         EXIST \<Rightarrow> precondition_failed (pp_path change)
       | _ \<Rightarrow> mutation_error_at PublicationFailed (pp_path change) ''atomic mutation publication failed'')
       (case pp_operation change of
          Create \<Rightarrow> sys_rename_noreplace (pp_parent change) (pp_temp_name change) (pp_name change)
        | Edit \<Rightarrow> sys_rename_exchange (pp_parent change) (pp_temp_name change) (pp_name change)
        | Retire \<Rightarrow> sys_rename_noreplace (pp_parent change) (pp_name change) (pp_temp_name change))"

definition set_published_mode :: "prepared_change \<Rightarrow> unit mutation" where
  "set_published_mode change =
     (case pp_result_mode change of
        None \<Rightarrow> ret ()
      | Some mode \<Rightarrow>
          bindE (or_fail (sys_open_read (pp_parent change) (pp_name change))
            (mutation_error_at PublicationFailed (pp_path change) ''cannot open the published mutation file to set permissions'')) (\<lambda>file.
          bindE (or_fail (sys_metadata file)
            (mutation_error_at PublicationFailed (pp_path change) ''cannot inspect the published mutation file'')) (\<lambda>metadata.
          bindE (if snd metadata = None then ret None
                 else bindE (attempt (sys_metadata file)) (\<lambda>r. ret (case r of Inl _ \<Rightarrow> None | Inr m \<Rightarrow> Some (fst m)))) (\<lambda>identity.
          seqE (ensure (snd metadata \<noteq> None \<and> identity = Some (pp_staged_identity change))
            (mutation_error_at PublicationFailed (pp_path change) ''published mutation file identity changed before permissions were set''))
          (seqE (or_fail (sys_fchmod file mode)
            (mutation_error_at PublicationFailed (pp_path change) ''cannot set published mutation file permissions''))
          (or_fail (sys_sync file)
            (mutation_error_at PublicationFailed (pp_path change) ''cannot make published mutation file permissions durable'')))))))"

definition same_file :: "observed_file \<Rightarrow> observed_file \<Rightarrow> bool" where
  "same_file a b \<longleftrightarrow> ob_identity a = ob_identity b \<and> ob_digest a = ob_digest b \<and> ob_mode a = ob_mode b"

definition verify_published :: "(content \<Rightarrow> content_digest) \<Rightarrow> prepared_change \<Rightarrow> unit mutation" where
  "verify_published sha change =
     seqE (if pp_operation change = Retire
           then map_err (\<lambda>_. mutation_error_at PublicationFailed (pp_path change) ''retired mutation path is unexpectedly present'')
                  (ensure_absent (pp_parent change) (pp_name change) (pp_path change))
           else bindE (read_regular_file sha (pp_parent change) (pp_name change) (pp_path change)) (\<lambda>result.
             ensure (ob_identity result = pp_staged_identity change \<and> Some (ob_digest result) = pp_result_digest change \<and>
                     Some (permission_bits (ob_mode result)) = pp_result_mode change)
               (mutation_error_at PublicationFailed (pp_path change) ''published mutation result could not be verified'')))
     (case pp_original change of
        None \<Rightarrow> ret ()
      | Some original \<Rightarrow>
          bindE (read_regular_file sha (pp_parent change) (pp_temp_name change) (pp_path change)) (\<lambda>backup.
          ensure (same_file backup original)
            (mutation_error_at PublicationFailed (pp_path change) ''mutation rollback source could not be verified'')))"

section \<open>Clean-up and rollback\<close>

definition remove_staged_temp :: "prepared_change \<Rightarrow> unit mutation" where
  "remove_staged_temp change =
     map_err (\<lambda>_. mutation_error_at RecoveryRequired (pp_path change) ''cannot safely remove a transaction-owned temporary file'')
       (remove_named_if_identity (pp_parent change) (pp_temp_name change) (pp_staged_identity change))"

definition remove_backup :: "prepared_change \<Rightarrow> unit mutation" where
  "remove_backup change =
     map_err (\<lambda>_. mutation_error_at RecoveryRequired (pp_path change) ''cannot safely remove a transaction-owned rollback file'')
       (remove_named_if_identity (pp_parent change) (pp_temp_name change) (ob_identity (the (pp_original change))))"

definition remove_temp_if_present :: "prepared_change \<Rightarrow> unit mutation" where
  "remove_temp_if_present change =
     bindE (attempt (sys_stat (pp_parent change) (pp_temp_name change))) (\<lambda>r.
     case r of
       Inl NOENT \<Rightarrow> ret ()
     | Inr _ \<Rightarrow> remove_staged_temp change
     | Inl _ \<Rightarrow> throw (mutation_error_at RecoveryRequired (pp_path change) ''cannot inspect a transaction-owned temporary file''))"

text \<open>The restoring part of \<^verbatim>\<open>rollback_one\<close> that edits and retirements share: the backup is the original, and so
  is the file after the rename.\<close>

definition restore_original ::
    "(content \<Rightarrow> content_digest) \<Rightarrow> prepared_change \<Rightarrow> (string \<Rightarrow> string \<Rightarrow> unit sys) \<Rightarrow> string \<times> string \<times> string \<times> string \<Rightarrow> unit mutation" where
  "restore_original sha change rename messages =
     (case messages of (unread, changed, failed, unverified) \<Rightarrow>
      let original = the (pp_original change); fail = mutation_error_at RollbackIncomplete (pp_path change)
      in bindE (map_err (\<lambda>_. fail unread)
           (read_regular_file sha (pp_parent change) (pp_temp_name change) (pp_path change))) (\<lambda>backup.
         seqE (ensure (same_file backup original) (fail changed))
         (seqE (or_fail (rename (pp_temp_name change) (pp_name change)) (fail failed))
         (bindE (read_regular_file sha (pp_parent change) (pp_name change) (pp_path change)) (\<lambda>restored.
          ensure (same_file restored original) (fail unverified))))))"

definition edit_rollback_messages :: "string \<times> string \<times> string \<times> string" where
  "edit_rollback_messages =
     (''cannot verify the original file before rollback'', ''the original rollback file changed; it was not published'',
      ''cannot atomically restore an edited file'', ''restored file identity could not be verified'')"

definition retire_rollback_messages :: "string \<times> string \<times> string \<times> string" where
  "retire_rollback_messages =
     (''cannot verify the retired file before rollback'', ''the retired rollback file changed; it was not restored'',
      ''cannot atomically restore a retired file'', ''restored retired-file identity or metadata could not be verified'')"

definition rollback_one :: "(content \<Rightarrow> content_digest) \<Rightarrow> prepared_change \<Rightarrow> unit mutation" where
  "rollback_one sha change =
     seqE (if pp_operation change = Retire
           then map_err (\<lambda>_. mutation_error_at RollbackIncomplete (pp_path change)
                  ''a retired path was recreated before rollback; it was not overwritten'')
                  (ensure_absent (pp_parent change) (pp_name change) (pp_path change))
           else bindE (map_err (\<lambda>_. mutation_error_at RollbackIncomplete (pp_path change)
                  ''cannot verify a published file before rollback'')
                  (read_regular_file sha (pp_parent change) (pp_name change) (pp_path change))) (\<lambda>result.
             ensure (ob_identity result = pp_staged_identity change \<and> Some (ob_digest result) = pp_result_digest change)
               (mutation_error_at RollbackIncomplete (pp_path change)
                  ''a published file changed before rollback; it was not overwritten'')))
     (seqE (case pp_operation change of
              Create \<Rightarrow> or_fail (sys_unlink (pp_parent change) (pp_name change))
                 (mutation_error_at RollbackIncomplete (pp_path change)
                    ''cannot remove a transaction-owned created file during rollback'')
            | Edit \<Rightarrow> seqE (restore_original sha change (sys_rename_exchange (pp_parent change)) edit_rollback_messages)
                        (remove_staged_temp change)
            | Retire \<Rightarrow> restore_original sha change (sys_rename_noreplace (pp_parent change)) retire_rollback_messages)
     (sync_directory (pp_parent change)))"

text \<open>Loops that go on after an error and report whether every step succeeded.\<close>

fun all_succeed :: "('a \<Rightarrow> (world, 'e, 'b) exec) \<Rightarrow> 'a list \<Rightarrow> bool mutation" where
  "all_succeed m [] = ret True"
| "all_succeed m (x # xs) =
     bindE (attempt (m x)) (\<lambda>r. bindE (all_succeed m xs) (\<lambda>complete. ret (\<not> isl r \<and> complete)))"

text \<open>\<^verbatim>\<open>if complete && step().is_err() { complete = false }\<close>\<close>

definition and_succeeds :: "bool \<Rightarrow> (world, 'e, 'b) exec \<Rightarrow> bool mutation" where
  "and_succeeds complete m = (if complete then bindE (attempt m) (\<lambda>r. ret (\<not> isl r)) else ret False)"

definition remove_marker_unless_recovery :: "bool \<Rightarrow> root \<Rightarrow> identity \<Rightarrow> mutation_error \<Rightarrow> bool mutation" where
  "remove_marker_unless_recovery complete root marker error =
     (if complete \<and> me_kind error \<noteq> RecoveryRequired then and_succeeds complete (remove_marker root marker) else ret complete)"

definition rollback_or_report ::
    "(content \<Rightarrow> content_digest) \<Rightarrow> root \<Rightarrow> identity \<Rightarrow> prepared_change list \<Rightarrow> mutation_error \<Rightarrow> nat mutation" where
  "rollback_or_report sha root marker prepared original_error =
     bindE (all_succeed (rollback_one sha) (filter pp_published (rev prepared))) (\<lambda>complete.
     bindE (if complete then all_succeed remove_temp_if_present prepared else ret False) (\<lambda>complete.
     bindE (and_succeeds complete (sync_unique_parents prepared)) (\<lambda>complete.
     bindE (remove_marker_unless_recovery complete root marker original_error) (\<lambda>complete.
     if complete then seqE (ignore_err (sync_directory (rt_fd root))) (throw original_error)
     else throw (mutation_error RollbackIncomplete
       ''mutation rollback could not be completed; the recovery marker and remaining transaction files require manual inspection'')))))"

definition cleanup_before_publication ::
    "root \<Rightarrow> identity \<Rightarrow> prepared_change list \<Rightarrow> mutation_error \<Rightarrow> nat mutation" where
  "cleanup_before_publication root marker prepared error =
     bindE (all_succeed remove_temp_if_present prepared) (\<lambda>complete.
     bindE (and_succeeds complete (sync_unique_parents prepared)) (\<lambda>complete.
     bindE (remove_marker_unless_recovery complete root marker error) (\<lambda>complete.
     if complete then throw error
     else throw (mutation_error RecoveryRequired
       ''mutation preparation failed and transaction cleanup requires manual inspection''))))"

section \<open>Publication\<close>

text \<open>One turn of the publication loop, before and after the change counts as published.\<close>

definition publish_step ::
    "(content \<Rightarrow> content_digest) \<Rightarrow> root \<Rightarrow> identity \<Rightarrow> (hook_point \<Rightarrow> unit mutation) \<Rightarrow> nat \<Rightarrow> prepared_change \<Rightarrow> unit mutation" where
  "publish_step sha root marker hook index change =
     seqE (verify_namespace root) (seqE (verify_marker root marker) (seqE (verify_parent_namespace root change)
     (seqE (hook (BeforeChange index)) (seqE (verify_parent_namespace root change) (seqE (verify_precondition sha change)
     (publish_one change))))))"

definition settle_step ::
    "(content \<Rightarrow> content_digest) \<Rightarrow> root \<Rightarrow> identity \<Rightarrow> (hook_point \<Rightarrow> unit mutation) \<Rightarrow> nat \<Rightarrow> prepared_change \<Rightarrow> unit mutation" where
  "settle_step sha root marker hook index change =
     seqE (set_published_mode change) (seqE (verify_published sha change) (seqE (sync_directory (pp_parent change))
     (seqE (hook (AfterChange index)) (seqE (verify_namespace root) (seqE (verify_marker root marker)
     (verify_parent_namespace root change))))))"

fun publish_from ::
    "(content \<Rightarrow> content_digest) \<Rightarrow> root \<Rightarrow> identity \<Rightarrow> (hook_point \<Rightarrow> unit mutation) \<Rightarrow> nat \<Rightarrow> prepared_change list
      \<Rightarrow> prepared_change list \<Rightarrow> (world, mutation_error, (mutation_error + unit) \<times> prepared_change list) exec" where
  "publish_from sha root marker hook index finished [] = ret (Inr (), finished)"
| "publish_from sha root marker hook index finished (change # rest) =
     bindE (attempt (publish_step sha root marker hook index change)) (\<lambda>r.
     case r of
       Inl e \<Rightarrow> ret (Inl e, finished @ change # rest)
     | Inr _ \<Rightarrow>
         (let change = change\<lparr> pp_published := True \<rparr>
          in bindE (attempt (settle_step sha root marker hook index change)) (\<lambda>r.
             case r of
               Inl e \<Rightarrow> ret (Inl e, finished @ change # rest)
             | Inr _ \<Rightarrow> publish_from sha root marker hook (index + 1) (finished @ [change]) rest)))"

definition publication_preflight ::
    "(content \<Rightarrow> content_digest) \<Rightarrow> root \<Rightarrow> identity \<Rightarrow> (hook_point \<Rightarrow> unit mutation) \<Rightarrow> string \<Rightarrow> prepared_change list \<Rightarrow> unit mutation" where
  "publication_preflight sha root marker hook transaction prepared =
     seqE (hook BeforeFilesystemPreflight) (seqE (preflight_filesystem_semantics prepared transaction)
     (seqE (verify_namespace root) (seqE (verify_marker root marker) (seqE (verify_all_preconditions sha root prepared)
     (hook BeforePublication)))))"

definition publish_changes ::
    "(content \<Rightarrow> content_digest) \<Rightarrow> root \<Rightarrow> identity \<Rightarrow> (hook_point \<Rightarrow> unit mutation) \<Rightarrow> string \<Rightarrow> prepared_change list
      \<Rightarrow> (world, mutation_error, (mutation_error + unit) \<times> prepared_change list) exec" where
  "publish_changes sha root marker hook transaction prepared =
     bindE (attempt (publication_preflight sha root marker hook transaction prepared)) (\<lambda>r.
     case r of
       Inl e \<Rightarrow> ret (Inl e, prepared)
     | Inr _ \<Rightarrow>
         bindE (publish_from sha root marker hook 0 [] prepared) (\<lambda>(r, prepared).
         case r of
           Inl e \<Rightarrow> ret (Inl e, prepared)
         | Inr _ \<Rightarrow>
             bindE (attempt (seqE (verify_namespace root) (seqE (verify_marker root marker)
               (verify_all_parent_namespaces root prepared)))) (\<lambda>r. ret (r, prepared))))"

definition finish_publication :: "root \<Rightarrow> identity \<Rightarrow> prepared_change list \<Rightarrow> nat mutation" where
  "finish_publication root marker prepared =
     seqE (for_each (\<lambda>change. whenE (pp_operation change \<in> {Edit, Retire}) (remove_backup change)) prepared)
     (seqE (sync_unique_parents prepared)
     (seqE (map_err (\<lambda>_. mutation_error RecoveryRequired
         ''mutation completed but its recovery marker could not be removed; inspect the application before another mutation'')
         (remove_marker root marker))
     (seqE (map_err (\<lambda>_. mutation_error RecoveryRequired
         ''mutation completed but marker cleanup durability is uncertain; inspect the application before another mutation'')
         (sync_directory (rt_fd root)))
     (ret (length prepared)))))"

definition publish_with ::
    "(content \<Rightarrow> content_digest) \<Rightarrow> string \<Rightarrow> change_plan \<Rightarrow> (hook_point \<Rightarrow> unit mutation) \<Rightarrow> nat mutation" where
  "publish_with sha application_root plan hook =
     bindE (root_open application_root) (\<lambda>root.
     seqE (ensure (\<not> list_ex (\<lambda>change. pc_path change = MUTATION_MARKER) plan)
       (mutation_error InvalidPlan ''change plans may not target the reserved mutation marker''))
     (bindE transaction_id (\<lambda>transaction.
      bindE (create_marker root plan transaction) (\<lambda>marker.
      bindE (prepare_changes sha root plan transaction) (\<lambda>(r, prepared).
      case r of
        Inl error \<Rightarrow> cleanup_before_publication root marker prepared error
      | Inr _ \<Rightarrow>
          bindE (publish_changes sha root marker hook transaction prepared) (\<lambda>(r, prepared).
          case r of
            Inl error \<Rightarrow> rollback_or_report sha root marker prepared error
          | Inr _ \<Rightarrow> finish_publication root marker prepared))))))"

definition publish_change_plan :: "(content \<Rightarrow> content_digest) \<Rightarrow> string \<Rightarrow> change_plan \<Rightarrow> nat mutation" where
  "publish_change_plan sha application_root plan =
     seqE (of_result (map_error of_plan_error (plan_validate sha plan)))
     (if plan = [] then ret 0 else publish_with sha application_root plan (\<lambda>_. ret ()))"

end
