(* ===== verification/Publication.thy ===== *)
theory Publication
  imports Publisher
begin

text \<open>
  What every run of the publisher does to the file system, whatever system calls fail: computations that only
  read, the exact effect of the successful steps on the directory entries, and the errors after which the
  entries are as before.
\<close>


section \<open>Computations that only read\<close>

abbreviation reads :: "(world, 'e, 'a) exec \<Rightarrow> bool" where
  "reads m \<equiv> steps (fixing disk) m"

lemma steps_Pair [steps_intros]: "steps (fixing f) (Pair r)"
  by (simp add: steps_def fixing_def)

lemma fixed_or_fail [steps_intros]: "steps (fixing f) m \<Longrightarrow> steps (fixing f) (or_fail m e)"
  unfolding or_fail_def by (intro steps_intros)

lemma reads_open_components [steps_intros]: "reads (open_components fd cs)"
  by (induction fd cs rule: open_components.induct) (auto intro!: steps_intros split: path_component.split)

lemma reads_descend_from [steps_intros]: "reads (descend_from fd names c)"
  by (induction fd names c rule: descend_from.induct) (auto intro!: steps_intros)

lemma reads_basic [steps_intros]:
  "reads (checked_root p)" "reads (open_directory_path p)" "reads (directory_identity d)" "reads (descend d names c)"
  "reads (sync_directory d)" "reads transaction_id"
  unfolding checked_root_def open_directory_path_def directory_identity_def descend_def sync_directory_def
    transaction_id_def
  by (intro steps_intros)+

lemma reads_root [steps_intros]: "reads (root_open p)" "reads (verify_namespace r)"
  unfolding root_open_def verify_namespace_def by (intro steps_intros)+

lemma reads_sync_parents [steps_intros]: "reads (sync_parents_from seen ps)"
  by (induction seen ps rule: sync_parents_from.induct) (auto intro!: steps_intros)

lemma reads_sync_unique [steps_intros]: "reads (sync_unique_parents ps)"
  unfolding sync_unique_parents_def by (intro steps_intros)

lemma reads_ensure_absent [steps_intros]: "reads (ensure_absent d n p)"
  unfolding ensure_absent_def by (intro steps_intros) (auto intro!: steps_intros split: errno.split)

lemma reads_files [steps_intros]:
  "reads (read_regular_file sha d n p)" "reads (read_identity d n)"
  unfolding read_regular_file_def read_identity_def by (intro steps_intros)+

lemma reads_checks [steps_intros]:
  "reads (verify_marker r m)" "reads (verify_initial_precondition sha d n c)" "reads (verify_parent_namespace r p)"
  "reads (verify_precondition sha p)" "reads (verify_published sha p)"
  unfolding verify_marker_def verify_initial_precondition_def verify_parent_namespace_def verify_precondition_def
    verify_published_def
  by (auto intro!: steps_intros split: file_precondition.split option.split)

lemma reads_all_checks [steps_intros]:
  "reads (verify_all_preconditions sha r ps)" "reads (verify_all_parent_namespaces r ps)"
  unfolding verify_all_preconditions_def verify_all_parent_namespaces_def by (intro steps_intros)+

lemma reads_run: "reads m \<Longrightarrow> m w = (r, w') \<Longrightarrow> w_links w' = w_links w \<and> w_nodes w' = w_nodes w \<and> w_next w' = w_next w"
  using fixes_run [of disk] disk_eqD by blast

section \<open>Effects of the steps that write\<close>

lemma or_fail_Inr [exec_simps]: "or_fail m e w = (Inr x, w') \<longleftrightarrow> m w = (Inr x, w')"
  by (simp add: or_fail_def exec_simps)

lemma or_fail_Inl [exec_simps]: "or_fail m e w = (Inl e', w') \<longleftrightarrow> (\<exists>x. m w = (Inl x, w')) \<and> e' = e"
  by (auto simp: or_fail_def exec_simps)

text \<open>Refused renames, creations and removals change nothing.\<close>

lemma refused:
  "sys_rename_noreplace d a b w = (Inl e, w') \<Longrightarrow> disk w' = disk w"
  "sys_rename_exchange d a b w = (Inl e, w') \<Longrightarrow> disk w' = disk w"
  "sys_unlink d a w = (Inl e, w') \<Longrightarrow> disk w' = disk w"
  "sys_create d a m w = (Inl e, w') \<Longrightarrow> disk w' = disk w"
  unfolding sys_rename_noreplace_def sys_rename_exchange_def sys_unlink_def sys_create_def syscall_def
  by (auto split: option.splits if_splits)

lemma rename_noreplace_Inr:
  "sys_rename_noreplace d a b w = (Inr u, w') \<Longrightarrow>
     w_links w (d, a) \<noteq> None \<and> w_links w (d, b) = None \<and> w_nodes w' = w_nodes w \<and> w_next w' = w_next w \<and>
     w_links w' = (w_links w)((d, b) := w_links w (d, a), (d, a) := None)"
  by (auto simp: sys_rename_noreplace_def syscall_Inr split: if_splits)

lemma rename_exchange_Inr:
  "sys_rename_exchange d a b w = (Inr u, w') \<Longrightarrow>
     w_links w (d, a) \<noteq> None \<and> w_links w (d, b) \<noteq> None \<and> w_nodes w' = w_nodes w \<and> w_next w' = w_next w \<and>
     w_links w' = (w_links w)((d, b) := w_links w (d, a), (d, a) := w_links w (d, b))"
  by (auto simp: sys_rename_exchange_def syscall_Inr split: if_splits)

lemma unlink_Inr:
  "sys_unlink d a w = (Inr u, w') \<Longrightarrow>
     w_nodes w' = w_nodes w \<and> w_next w' = w_next w \<and> w_links w' = (w_links w)((d, a) := None)"
  by (auto simp: sys_unlink_def syscall_Inr split: option.splits if_splits)

lemma create_Inr:
  "sys_create d a m w = (Inr i, w') \<Longrightarrow>
     w_links w (d, a) = None \<and> i = w_next w \<and> w_next w' = Suc i \<and> w_links w' = (w_links w)((d, a) \<mapsto> i) \<and>
     w_nodes w' = (w_nodes w)(i \<mapsto> Regular [] (or S_IFREG (and m (not (w_umask w)))))"
  by (auto simp: sys_create_def syscall_Inr split: if_splits)

lemma metadata_Inr:
  "sys_metadata i w = (Inr m, w') \<Longrightarrow> fst m = i \<and> disk w' = disk w \<and>
     (snd m = Some md \<longleftrightarrow> (\<exists>c. w_nodes w i = Some (Regular c md)))"
  by (auto simp: sys_metadata_def syscall_Inr split: option.splits node.splits)

lemma open_read_Inr: "sys_open_read d n w = (Inr i, w') \<Longrightarrow> w_links w (d, n) = Some i \<and> disk w' = disk w"
  by (auto simp: sys_open_read_def syscall_Inr split: option.splits node.splits)

lemma sys_read_Inr: "sys_read i w = (Inr c, w') \<Longrightarrow> (\<exists>m. w_nodes w i = Some (Regular c m)) \<and> disk w' = disk w"
  by (auto simp: sys_read_def syscall_Inr split: option.splits node.splits)

lemma stat_Inl_NOENT: "sys_stat d n w = (Inl NOENT, w') \<Longrightarrow> w_links w (d, n) = None"
  by (auto simp: sys_stat_def syscall_def split: option.splits if_splits)

lemma open_dir_Inr:
  "sys_open_dir d n w = (Inr i, w') \<Longrightarrow> w_links w (d, n) = Some i \<and> is_dir w i \<and> disk w' = disk w"
  by (auto simp: sys_open_dir_def syscall_Inr split: option.splits if_splits)

lemma read_identity_Inr: "read_identity d n w = (Inr i, w') \<Longrightarrow> w_links w (d, n) = Some i"
  by (auto simp: read_identity_def exec_simps dest!: open_read_Inr metadata_Inr)

lemma ensure_absent_Inr: "ensure_absent d n p w = (Inr u, w') \<Longrightarrow> w_links w (d, n) = None"
  by (cases "sys_stat d n w") (auto simp: ensure_absent_def bindE_def attempt_def throw_def
      dest: stat_Inl_NOENT split: sum.splits errno.splits)

lemma read_regular_file_Inr:
  assumes "read_regular_file sha d n p w = (Inr ob, w')"
  shows "w_links w (d, n) = Some (ob_identity ob) \<and>
    (\<exists>c. w_nodes w (ob_identity ob) = Some (Regular c (ob_mode ob)) \<and> ob_digest ob = sha c)"
proof -
  obtain i w1 m w2 w3 mode c w4 where r: "sys_open_read d n w = (Inr i, w1)" "sys_metadata i w1 = (Inr m, w2)"
    "snd m = Some mode" "sys_read i w2 = (Inr c, w4)"
    "ob = \<lparr> ob_identity = fst m, ob_digest = sha c, ob_mode = mode \<rparr>"
    using assms by (auto simp: read_regular_file_def exec_simps)
  note o = open_read_Inr [OF r(1)] and m = metadata_Inr [OF r(2), of mode] and c = sys_read_Inr [OF r(4)]
  have "w_nodes w2 = w_nodes w" "w_nodes w1 = w_nodes w" using o m by (auto dest!: disk_eqD)
  then show ?thesis using o m c r(3,5) by (auto dest!: disk_eqD)
qed

section \<open>Removing files\<close>

lemma remove_named_Inr:
  assumes "remove_named_if_identity d n i w = (Inr u, w')"
  shows "w_links w (d, n) = Some i \<and> w_nodes w' = w_nodes w \<and> w_next w' = w_next w \<and> w_links w' = (w_links w)((d, n) := None)"
proof -
  obtain w1 where r: "read_identity d n w = (Inr i, w1)" "sys_unlink d n w1 = (Inr (), w')"
    using assms by (auto simp: remove_named_if_identity_def exec_simps)
  have "reads (read_identity d n)" by (intro steps_intros)
  from reads_run [OF this r(1)] unlink_Inr [OF r(2)] read_identity_Inr [OF r(1)] show ?thesis by simp
qed

lemma remove_named_Inl:
  assumes "remove_named_if_identity d n i w = (Inl e, w')"
  shows "disk w' = disk w"
proof -
  have r: "reads (read_identity d n)" by (intro steps_intros)
  have same: "read_identity d n w = (x, w1) \<Longrightarrow> disk w1 = disk w" for x w1
    using fixes_run [OF r] by blast
  show ?thesis
    using assms by (auto simp: remove_named_if_identity_def exec_simps dest!: same refused(3))
qed

lemma remove_staged_temp_runs:
  "remove_staged_temp p w = (Inr u, w') \<Longrightarrow>
     w_nodes w' = w_nodes w \<and> w_next w' = w_next w \<and> w_links w' = (w_links w)((pp_parent p, pp_temp_name p) := None)"
  "remove_staged_temp p w = (Inl e, w') \<Longrightarrow> disk w' = disk w"
  by (auto simp: remove_staged_temp_def exec_simps dest: remove_named_Inr remove_named_Inl)

lemma remove_backup_runs:
  "remove_backup p w = (Inr u, w') \<Longrightarrow>
     w_nodes w' = w_nodes w \<and> w_next w' = w_next w \<and> w_links w' = (w_links w)((pp_parent p, pp_temp_name p) := None)"
  "remove_backup p w = (Inl e, w') \<Longrightarrow> disk w' = disk w"
  by (auto simp: remove_backup_def exec_simps dest: remove_named_Inr remove_named_Inl)

lemma reads_stat: "sys_stat d n w = (r, w') \<Longrightarrow> disk w' = disk w"
proof -
  have "reads (sys_stat d n)" by (intro steps_intros)
  then show "sys_stat d n w = (r, w') \<Longrightarrow> disk w' = disk w" by (rule fixes_run)
qed

lemma remove_temp_if_present_runs:
  "remove_temp_if_present p w = (Inr u, w') \<Longrightarrow>
     w_nodes w' = w_nodes w \<and> w_next w' = w_next w \<and> w_links w' = (w_links w)((pp_parent p, pp_temp_name p) := None)"
  "remove_temp_if_present p w = (Inl e, w') \<Longrightarrow> disk w' = disk w"
proof -
  obtain r w1 where r: "sys_stat (pp_parent p) (pp_temp_name p) w = (r, w1)" by fastforce
  have d: "w_links w1 = w_links w \<and> w_nodes w1 = w_nodes w \<and> w_next w1 = w_next w" "disk w1 = disk w"
    using reads_stat [OF r] by (auto dest: disk_eqD)
  show "w_nodes w' = w_nodes w \<and> w_next w' = w_next w \<and> w_links w' = (w_links w)((pp_parent p, pp_temp_name p) := None)"
    if "remove_temp_if_present p w = (Inr u, w')"
    using that r d remove_staged_temp_runs(1) [of p w1 u w'] stat_Inl_NOENT [of "pp_parent p" "pp_temp_name p" w w1]
    by (cases r) (auto simp: remove_temp_if_present_def bindE_def attempt_def throw_def fun_upd_idem split: errno.splits)
  show "disk w' = disk w" if "remove_temp_if_present p w = (Inl e, w')"
    using that r d remove_staged_temp_runs(2) [of p w1 e w']
    by (cases r) (auto simp: remove_temp_if_present_def bindE_def attempt_def throw_def split: errno.splits)
qed

section \<open>Errors that leave the entries as they were\<close>

text \<open>After an error of another kind than \<^const>\<open>RecoveryRequired\<close> the entries are unchanged; \<open>neutral\<close> computations
  also leave them unchanged when they succeed.\<close>

definition tidy :: "'a mutation \<Rightarrow> bool" where
  "tidy m \<longleftrightarrow> (\<forall>w e w'. m w = (Inl e, w') \<longrightarrow> me_kind e = RecoveryRequired \<or> w_links w' = w_links w)"

definition neutral :: "'a mutation \<Rightarrow> bool" where
  "neutral m \<longleftrightarrow> tidy m \<and> (\<forall>w x w'. m w = (Inr x, w') \<longrightarrow> w_links w' = w_links w)"

lemma tidyD: "tidy m \<Longrightarrow> m w = (Inl e, w') \<Longrightarrow> me_kind e = RecoveryRequired \<or> w_links w' = w_links w"
  by (auto simp: tidy_def)

lemma neutral_Inr: "neutral m \<Longrightarrow> m w = (Inr x, w') \<Longrightarrow> w_links w' = w_links w"
  by (auto simp: neutral_def)

lemma neutral_tidy: "neutral m \<Longrightarrow> tidy m"
  by (simp add: neutral_def)

lemma neutral_fixing: "steps (fixing w_links) m \<Longrightarrow> neutral m"
  by (auto simp: neutral_def tidy_def dest: fixes_run)

lemma neutral_reads: "reads m \<Longrightarrow> neutral m"
  by (rule neutral_fixing) (rule links_of_disk)

lemma tidy_bind: "neutral m \<Longrightarrow> (\<And>x. tidy (f x)) \<Longrightarrow> tidy (bindE m f)"
  by (auto simp: tidy_def neutral_def bindE_Inl_iff; metis)

lemma tidy_seq: "neutral m \<Longrightarrow> tidy n \<Longrightarrow> tidy (seqE m n)"
  unfolding seqE_def by (rule tidy_bind)

lemma neutral_bind: "neutral m \<Longrightarrow> (\<And>x. neutral (f x)) \<Longrightarrow> neutral (bindE m f)"
  using tidy_bind [of m f] by (auto simp: neutral_def bindE_Inr_iff)

lemma neutral_seq: "neutral m \<Longrightarrow> neutral n \<Longrightarrow> neutral (seqE m n)"
  unfolding seqE_def by (rule neutral_bind)

lemma neutral_ret: "neutral (ret x)"
  by (auto simp: neutral_def tidy_def)

lemmas neutral_intros = neutral_bind neutral_seq neutral_ret

section \<open>Staging and probing\<close>

abbreviation temp_at :: "prepared_change \<Rightarrow> location" where
  "temp_at p \<equiv> (pp_parent p, pp_temp_name p)"

abbreviation target_at :: "prepared_change \<Rightarrow> location" where
  "target_at p \<equiv> (pp_parent p, pp_name p)"

lemma write_Inr:
  "sys_write i c w = (Inr u, w') \<Longrightarrow> w_links w' = w_links w \<and> w_next w' = w_next w \<and>
     (\<forall>j. j \<noteq> i \<longrightarrow> w_nodes w' j = w_nodes w j) \<and>
     (\<forall>c' m. w_nodes w i = Some (Regular c' m) \<longrightarrow> w_nodes w' i = Some (Regular c m))"
  by (auto simp: sys_write_def set_content_def split: option.splits node.splits)

lemma sync_runs: "sys_sync i w = (r, w') \<Longrightarrow> disk w' = disk w"
proof -
  have "reads (sys_sync i)" by (intro steps_intros)
  then show "sys_sync i w = (r, w') \<Longrightarrow> disk w' = disk w" by (rule fixes_run)
qed

lemma stage_file_Inr:
  assumes "stage_file d n p c w = (Inr i, w')"
  shows "w_links w (d, n) = None \<and> i = w_next w \<and> w_next w' = Suc i \<and> w_links w' = (w_links w)((d, n) \<mapsto> i) \<and>
    (\<forall>j. j \<noteq> i \<longrightarrow> w_nodes w' j = w_nodes w j) \<and> (\<exists>m. w_nodes w' i = Some (Regular c m))"
proof -
  obtain f w1 m w2 w3 w4 where r: "sys_create d n PRIVATE_MODE w = (Inr f, w1)" "sys_metadata f w1 = (Inr m, w2)"
    "sys_write f c w2 = (Inr (), w3)" "sys_sync f w3 = (Inr (), w4)" "i = fst m" "w' = w4"
    using assms by (auto simp: stage_file_def exec_simps Let_def split_sum_ex)
  note c = create_Inr [OF r(1)] and m = metadata_Inr [OF r(2)]
  have d2: "w_links w2 = w_links w1" "w_nodes w2 = w_nodes w1" "w_next w2 = w_next w1"
    using m by (auto dest: disk_eqD)
  have d4: "w_links w4 = w_links w3" "w_nodes w4 = w_nodes w3" "w_next w4 = w_next w3"
    using sync_runs [OF r(4)] by (auto dest: disk_eqD)
  show ?thesis using c m write_Inr [OF r(3)] d2 d4 r(5,6) by auto
qed

lemma stage_file_tidy: "tidy (stage_file d n p c)"
proof -
  have False if s: "stage_file d n p c w = (Inl e, w')" and k: "me_kind e \<noteq> RecoveryRequired" "w_links w' \<noteq> w_links w" for w e w'
  proof -
    obtain r w1 where r: "sys_create d n PRIVATE_MODE w = (r, w1)" by fastforce
    show False
    proof (cases r)
      case (Inl x)
      then show ?thesis using s k(2) r refused(4) [of d n PRIVATE_MODE w x w1]
        by (auto simp: stage_file_def bindE_def or_fail_def map_err_def dest: disk_eqD)
    next
      case (Inr f)
      note c = create_Inr [OF r [unfolded Inr]]
      obtain r2 w2 where r2: "sys_metadata f w1 = (r2, w2)" by fastforce
      show ?thesis
      proof (cases r2)
        case (Inl y)
        then show ?thesis using s k(1) r r2 Inr
          by (auto simp: stage_file_def bindE_def or_fail_def map_err_def mutation_error_at_def)
      next
        case (Inr m)
        have m: "fst m = f" "w_links w2 = w_links w1" using metadata_Inr [OF r2 [unfolded Inr]] by (auto dest: disk_eqD)
        let ?put = "seqE (map_err (\<lambda>_. ''cannot write a private staged mutation file'') (sys_write f c))
          (map_err (\<lambda>_. ''cannot make a staged mutation file durable'') (sys_sync f)) :: (world, string, unit) exec"
        obtain r3 w3 where r3: "?put w2 = (r3, w3)" by fastforce
        have "steps (fixing w_links) ?put" by (intro steps_intros links_of_disk)
        then have l3: "w_links w3 = w_links w2" using r3 by (rule fixes_run)
        show ?thesis
        proof (cases r3)
          case r3': (Inl msg)
          obtain r4 w4 where r4: "remove_named_if_identity d n f w3 = (r4, w4)" by fastforce
          show ?thesis
          proof (cases r4)
            case r4': (Inl z)
            then have "me_kind e = RecoveryRequired" using s r r2 r3 r4 \<open>r = Inr f\<close> Inr m(1) r3'
              by (auto simp: stage_file_def bindE_def or_fail_def map_err_def attempt_def Let_def throw_def mutation_error_at_def)
            then show ?thesis using k(1) by blast
          next
            case r4': (Inr z)
            then have "w' = w4" using s r r2 r3 r4 \<open>r = Inr f\<close> Inr m(1) r3'
              by (auto simp: stage_file_def bindE_def or_fail_def map_err_def attempt_def Let_def throw_def)
            moreover have "w_links w4 = (w_links w3)((d, n) := None)"
              using remove_named_Inr [OF r4 [unfolded r4']] by blast
            ultimately show ?thesis using k(2) c m(2) l3 by (auto simp: fun_upd_idem)
          qed
        next
          case r3': (Inr u)
          then show ?thesis using s r r2 r3 \<open>r = Inr f\<close> Inr m(1)
            by (auto simp: stage_file_def bindE_def or_fail_def map_err_def attempt_def Let_def ret_def)
        qed
      qed
    qed
  qed
  then show ?thesis unfolding tidy_def by blast
qed

lemma create_probe_Inr:
  assumes "create_probe d n p w = (Inr i, w')"
  shows "w_links w (d, n) = None \<and> i = w_next w \<and> w_next w' = Suc i \<and> w_links w' = (w_links w)((d, n) \<mapsto> i) \<and>
    (\<forall>j. j \<noteq> i \<longrightarrow> w_nodes w' j = w_nodes w j)"
proof -
  obtain f w1 m w2 w3 where r: "sys_create d n PRIVATE_MODE w = (Inr f, w1)" "sys_metadata f w1 = (Inr m, w2)"
    "sys_sync f w2 = (Inr (), w3)" "i = fst m" "w' = w3"
    using assms by (auto simp: create_probe_def exec_simps split_sum_ex)
  have "w_links w2 = w_links w1" "w_nodes w2 = w_nodes w1" "w_next w2 = w_next w1" "fst m = f"
    using metadata_Inr [OF r(2)] by (auto dest: disk_eqD)
  moreover have "w_links w3 = w_links w2" "w_nodes w3 = w_nodes w2" "w_next w3 = w_next w2"
    using sync_runs [OF r(3)] by (auto dest: disk_eqD)
  ultimately show ?thesis using create_Inr [OF r(1)] r(4,5) by auto
qed

lemma create_probe_tidy: "tidy (create_probe d n p)"
proof -
  have "me_kind e = RecoveryRequired \<or> w_links w' = w_links w" if s: "create_probe d n p w = (Inl e, w')" for w e w'
  proof -
    consider x where "sys_create d n PRIVATE_MODE w = (Inl x, w')"
      | "me_kind e = RecoveryRequired"
      | f w1 m w2 x w3 where "sys_create d n PRIVATE_MODE w = (Inr f, w1)" "sys_metadata f w1 = (Inr m, w2)"
          "sys_sync f w2 = (x, w3)" "remove_named_if_identity d n (fst m) w3 = (Inr (), w')"
      using s by (auto simp: create_probe_def exec_simps split_sum_ex mutation_error_at_def)
    then show ?thesis
    proof cases
      case 1
      then show ?thesis using refused(4) disk_eqD by blast
    next
      case 3
      have "w_links w3 = w_links w1"
        using metadata_Inr [OF 3(2)] sync_runs [OF 3(3)] by (auto dest: disk_eqD)
      then show ?thesis using create_Inr [OF 3(1)] remove_named_Inr [OF 3(4)] by (auto simp: fun_upd_idem)
    qed simp
  qed
  then show ?thesis unfolding tidy_def by blast
qed

lemma probe_rename_runs:
  assumes "probe_rename p a b w = (Inr (check, exchanged), w')" "w_links w (pp_parent p, b) \<noteq> None"
  shows "\<forall>loc. loc \<notin> {(pp_parent p, a), (pp_parent p, b)} \<longrightarrow> w_links w' loc = w_links w loc"
  using assms
  by (auto simp: probe_rename_def exec_simps split_sum_ex
      dest!: rename_exchange_Inr rename_noreplace_Inr refused(1,2) disk_eqD split: if_splits)

lemma probe_rename_total: "\<exists>c x w'. probe_rename p a b w = (Inr (c, x), w')"
proof (cases "pp_operation p = Edit")
  case True
  then show ?thesis
    by (cases "sys_rename_exchange (pp_parent p) a b w")
      (auto simp: probe_rename_def bindE_def attempt_def ret_def split: sum.splits)
next
  case False
  then show ?thesis
    by (cases "sys_rename_noreplace (pp_parent p) a b w") (auto simp: probe_rename_def bindE_def attempt_def ret_def)
qed

text \<open>What is left of the probes when both removals succeed.\<close>

lemma probe_links:
  assumes "L (d, a) = None" "(L((d, a) \<mapsto> f)) (d, b) = None"
    and "\<forall>loc. loc \<notin> {(d, a), (d, b)} \<longrightarrow> M loc = (L((d, a) \<mapsto> f, (d, b) \<mapsto> s)) loc"
  shows "M((d, a) := None, (d, b) := None) = (L :: location \<Rightarrow> inode option)"
  using assms by (auto simp: fun_eq_iff split: if_splits)

lemma probe_change_runs:
  assumes "probe_change t i p w = (r, w')"
  shows "(\<exists>e. r = Inl e \<and> me_kind e = RecoveryRequired) \<or> w_links w' = w_links w"
proof -
  let ?d = "pp_parent p" and ?a = "probe_name t i (CHR ''a'')" and ?b = "probe_name t i (CHR ''b'')"
  consider e where "create_probe ?d ?a (pp_path p) w = (Inl e, w')" "r = Inl e"
    | f w1 e w2 where "create_probe ?d ?a (pp_path p) w = (Inr f, w1)" "create_probe ?d ?b (pp_path p) w1 = (Inl e, w2)"
        "remove_named_if_identity ?d ?a f w2 = (Inr (), w')" "r = Inl e"
    | e where "r = Inl e" "me_kind e = RecoveryRequired"
    | f w1 s w2 c x w3 j w4 k where "create_probe ?d ?a (pp_path p) w = (Inr f, w1)" "create_probe ?d ?b (pp_path p) w1 = (Inr s, w2)"
        "probe_rename p ?a ?b w2 = (Inr (c, x), w3)" "remove_named_if_identity ?d ?a j w3 = (Inr (), w4)"
        "remove_named_if_identity ?d ?b k w4 = (Inr (), w')"
  proof -
    obtain r1 w1 where r1: "create_probe ?d ?a (pp_path p) w = (r1, w1)" by fastforce
    show thesis
    proof (cases r1)
      case (Inl e)
      then show thesis using assms r1 that(1) by (simp add: probe_change_def Let_def bindE_def)
    next
      case f: (Inr f)
      obtain r2 w2 where r2: "create_probe ?d ?b (pp_path p) w1 = (r2, w2)" by fastforce
      show thesis
      proof (cases r2)
        case (Inl e)
        obtain r3 w3 where r3: "remove_named_if_identity ?d ?a f w2 = (r3, w3)" by fastforce
        show thesis
          using assms r1 f r2 Inl r3 that(2,3)
          by (cases r3) (auto simp: probe_change_def Let_def bindE_def attempt_def throw_def mutation_error_at_def)
      next
        case s: (Inr s)
        obtain c x w3 where r3: "(probe_rename p ?a ?b :: (world, mutation_error, _) exec) w2 = (Inr (c, x), w3)"
          using probe_rename_total [of p ?a ?b w2] by auto
        obtain r4 w4 where r4: "remove_named_if_identity ?d ?a (if x then s else f) w3 = (r4, w4)" by fastforce
        obtain r5 w5 where r5: "remove_named_if_identity ?d ?b (if x then f else s) w4 = (r5, w5)" by fastforce
        show thesis
          using assms r1 f r2 s r3 r4 r5 that(3,4)
          by (cases r4; cases r5)
            (auto simp: probe_change_def Let_def bindE_def seqE_def attempt_def ensure_def throw_def ret_def of_result_def mutation_error_at_def)
      qed
    qed
  qed
  then show ?thesis
  proof cases
    case 1
    then show ?thesis using tidyD [OF create_probe_tidy] by blast
  next
    case 2
    have "me_kind e = RecoveryRequired \<or> w_links w2 = w_links w1" using tidyD [OF create_probe_tidy 2(2)] .
    then show ?thesis using create_probe_Inr [OF 2(1)] remove_named_Inr [OF 2(3)] 2(4) by (auto simp: fun_upd_idem)
  next
    case 4
    note c1 = create_probe_Inr [OF 4(1)] and c2 = create_probe_Inr [OF 4(2)]
    have "\<forall>loc. loc \<notin> {(?d, ?a), (?d, ?b)} \<longrightarrow> w_links w3 loc = w_links w2 loc"
      using probe_rename_runs [OF 4(3)] c2 by simp
    then have "(w_links w3)((?d, ?a) := None, (?d, ?b) := None) = w_links w"
      using c1 c2 by (intro probe_links [where f = f and s = s]) auto
    then show ?thesis using remove_named_Inr [OF 4(4)] remove_named_Inr [OF 4(5)] by simp
  qed blast
qed

lemma probe_change_neutral: "neutral (probe_change t i p)"
  using probe_change_runs by (fastforce simp: neutral_def tidy_def)

lemma preflight_neutral: "neutral (preflight_filesystem_semantics ps t)"
proof -
  have "neutral (preflight_from t i ps)" for i
    by (induction ps arbitrary: i) (auto intro: neutral_ret neutral_seq probe_change_neutral)
  then show ?thesis by (simp add: preflight_filesystem_semantics_def)
qed

lemma publication_preflight_neutral: "neutral (publication_preflight sha root marker (\<lambda>_. ret ()) t ps)"
  unfolding publication_preflight_def
  by (intro neutral_seq neutral_ret preflight_neutral neutral_reads steps_intros)

section \<open>Publishing one change\<close>

definition publish_links :: "prepared_change \<Rightarrow> (location \<Rightarrow> inode option) \<Rightarrow> location \<Rightarrow> inode option" where
  "publish_links p L =
     (case pp_operation p of
        Create \<Rightarrow> L(target_at p := L (temp_at p), temp_at p := None)
      | Edit \<Rightarrow> L(target_at p := L (temp_at p), temp_at p := L (target_at p))
      | Retire \<Rightarrow> L(temp_at p := L (target_at p), target_at p := None))"

lemma publish_one_runs:
  "publish_one p w = (Inr u, w') \<Longrightarrow>
     w_links w' = publish_links p (w_links w) \<and> w_nodes w' = w_nodes w \<and> w_next w' = w_next w"
  "publish_one p w = (Inl e, w') \<Longrightarrow> disk w' = disk w"
  unfolding publish_one_def publish_links_def
  by (auto simp: exec_simps split: change_operation.splits
      dest!: rename_noreplace_Inr rename_exchange_Inr dest: refused(1,2))

definition as_before :: "prepared_change \<Rightarrow> (location \<Rightarrow> inode option) \<Rightarrow> bool" where
  "as_before p L \<longleftrightarrow> L (target_at p) = map_option ob_identity (pp_original p)"

lemma verify_precondition_Inr:
  "verify_precondition sha p w = (Inr u, w') \<Longrightarrow> as_before p (w_links w)"
  by (cases "pp_expected p"; cases "pp_original p")
    (auto simp: verify_precondition_def as_before_def exec_simps dest: ensure_absent_Inr dest!: read_regular_file_Inr)

lemma seqE_assoc: "seqE (seqE a b) c = seqE a (seqE b c)"
  by (auto simp: seqE_def bindE_def fun_eq_iff split: prod.split sum.split)

lemma publish_step_runs:
  assumes "publish_step sha root marker (\<lambda>_. ret ()) i p w = (r, w')"
  shows "case r of
    Inl e \<Rightarrow> w_links w' = w_links w \<and> w_nodes w' = w_nodes w \<and> w_next w' = w_next w
  | Inr _ \<Rightarrow> as_before p (w_links w) \<and> w_links w' = publish_links p (w_links w) \<and> w_nodes w' = w_nodes w \<and> w_next w' = w_next w"
proof -
  let ?checks = "seqE (verify_namespace root) (seqE (verify_marker root marker) (seqE (verify_parent_namespace root p)
     (seqE (ret ()) (verify_parent_namespace root p))))"
  have step: "publish_step sha root marker (\<lambda>_. ret ()) i p = seqE ?checks (seqE (verify_precondition sha p) (publish_one p))"
    by (simp only: publish_step_def seqE_assoc)
  have "reads ?checks" by (intro steps_intros)
  note checks = reads_run [OF this]
  have "reads (verify_precondition sha p)" by (intro steps_intros)
  note pre = reads_run [OF this]
  show ?thesis
  proof (cases r)
    case (Inl e)
    then have "seqE ?checks (seqE (verify_precondition sha p) (publish_one p)) w = (Inl e, w')"
      using assms[unfolded step] by simp
    from seqE_Inl_iff [THEN iffD1, OF this] consider
        "?checks w = (Inl e, w')"
      | w1 where "?checks w = (Inr (), w1)" "verify_precondition sha p w1 = (Inl e, w')"
      | w1 w2 where "?checks w = (Inr (), w1)" "verify_precondition sha p w1 = (Inr (), w2)" "publish_one p w2 = (Inl e, w')"
      by (auto simp: seqE_Inl_iff [of "verify_precondition sha p"])
    then have "w_links w' = w_links w \<and> w_nodes w' = w_nodes w \<and> w_next w' = w_next w"
    proof cases
      case 1
      then show ?thesis by (rule checks)
    next
      case 2
      from checks [OF 2(1)] pre [OF 2(2)] show ?thesis by simp
    next
      case 3
      from checks [OF 3(1)] pre [OF 3(2)] publish_one_runs(2) [OF 3(3), THEN disk_eqD] show ?thesis by simp
    qed
    then show ?thesis by (simp add: Inl)
  next
    case (Inr u)
    then have "seqE ?checks (seqE (verify_precondition sha p) (publish_one p)) w = (Inr u, w')"
      using assms[unfolded step] by simp
    from seqE_Inr_iff [THEN iffD1, OF this] obtain w1 w2
      where "?checks w = (Inr (), w1)" "verify_precondition sha p w1 = (Inr (), w2)" "publish_one p w2 = (Inr (), w')"
      by (auto simp: seqE_Inr_iff [of "verify_precondition sha p"])
    note r = this
    from checks [OF r(1)] pre [OF r(2)] verify_precondition_Inr [OF r(2)] publish_one_runs(1) [OF r(3)]
    show ?thesis by (simp add: Inr)
  qed
qed

lemma settle_step_links: "steps (fixing w_links) (settle_step sha root marker (\<lambda>_. ret ()) i p)"
proof -
  have "steps (fixing w_links) (set_published_mode p)"
    unfolding set_published_mode_def
    by (cases "pp_result_mode p") (auto intro!: steps_intros reads_disk [THEN links_of_disk] split: sum.split)
  then show ?thesis
    unfolding settle_step_def by (intro steps_intros) (auto intro!: links_of_disk steps_intros)
qed

definition apply_links :: "prepared_change \<Rightarrow> (location \<Rightarrow> inode option) \<Rightarrow> location \<Rightarrow> inode option" where
  "apply_links p L = L(target_at p := (if pp_operation p = Retire then None else Some (pp_staged_identity p)))"

lemma verify_published_Inr:
  "verify_published sha p w = (Inr u, w') \<Longrightarrow>
     w_links w (target_at p) = (if pp_operation p = Retire then None else Some (pp_staged_identity p)) \<and>
     (pp_operation p \<noteq> Retire \<longrightarrow> (\<exists>c m. w_nodes w (pp_staged_identity p) = Some (Regular c m) \<and> Some (permission_bits m) = pp_result_mode p))"
  by (auto simp: verify_published_def exec_simps split: option.splits if_splits dest!: ensure_absent_Inr read_regular_file_Inr)

section \<open>Rolling one change back\<close>

abbreviation original_id :: "prepared_change \<Rightarrow> inode" where
  "original_id p \<equiv> ob_identity (the (pp_original p))"

definition undo_links :: "prepared_change \<Rightarrow> (location \<Rightarrow> inode option) \<Rightarrow> location \<Rightarrow> inode option" where
  "undo_links p L =
     (if pp_operation p = Create then L(target_at p := None)
      else L(target_at p := Some (original_id p), temp_at p := None))"

lemma read_regular_disk: "read_regular_file sha d n p w = (r, w') \<Longrightarrow> disk w' = disk w"
proof -
  have "reads (read_regular_file sha d n p)" by (intro steps_intros)
  then show "read_regular_file sha d n p w = (r, w') \<Longrightarrow> disk w' = disk w" by (rule fixes_run)
qed

lemma ensure_absent_disk: "ensure_absent d n p w = (r, w') \<Longrightarrow> disk w' = disk w"
proof -
  have "reads (ensure_absent d n p)" by (intro steps_intros)
  then show "ensure_absent d n p w = (r, w') \<Longrightarrow> disk w' = disk w" by (rule fixes_run)
qed

lemma sync_directory_disk: "sync_directory d w = (r, w') \<Longrightarrow> disk w' = disk w"
proof -
  have "reads (sync_directory d)" by (intro steps_intros)
  then show "sync_directory d w = (r, w') \<Longrightarrow> disk w' = disk w" by (rule fixes_run)
qed

lemma restore_original_Inr:
  assumes "restore_original sha p rename ms w = (Inr u, w')"
  shows "\<exists>w1 w2. rename (pp_temp_name p) (pp_name p) w1 = (Inr (), w2) \<and> disk w1 = disk w \<and> disk w' = disk w2 \<and>
    w_links w (temp_at p) = Some (original_id p)"
proof -
  obtain m1 m2 m3 m4 where ms: "ms = (m1, m2, m3, m4)" by (cases ms)
  obtain b w1 w2 r w3 where r: "read_regular_file sha (pp_parent p) (pp_temp_name p) (pp_path p) w = (Inr b, w1)"
    "same_file b (the (pp_original p))" "rename (pp_temp_name p) (pp_name p) w1 = (Inr (), w2)"
    "read_regular_file sha (pp_parent p) (pp_name p) (pp_path p) w2 = (Inr r, w3)" "w' = w3"
    using assms by (auto simp: restore_original_def ms exec_simps Let_def)
  then show ?thesis
    using read_regular_disk [OF r(1)] read_regular_disk [OF r(4)] read_regular_file_Inr [OF r(1)]
    by (auto simp: same_file_def)
qed

lemma rollback_one_Inr:
  assumes "rollback_one sha p w = (Inr u, w')"
  shows "w_links w' = undo_links p (w_links w) \<and> w_nodes w' = w_nodes w \<and> w_next w' = w_next w"
proof -
  let ?restore = "case pp_operation p of
              Create \<Rightarrow> or_fail (sys_unlink (pp_parent p) (pp_name p))
                 (mutation_error_at RollbackIncomplete (pp_path p)
                    ''cannot remove a transaction-owned created file during rollback'')
            | Edit \<Rightarrow> seqE (restore_original sha p (sys_rename_exchange (pp_parent p)) edit_rollback_messages)
                        (remove_staged_temp p)
            | Retire \<Rightarrow> restore_original sha p (sys_rename_noreplace (pp_parent p)) retire_rollback_messages"
  obtain w1 w2 where r: "disk w1 = disk w" "?restore w1 = (Inr (), w2)" "disk w' = disk w2"
    using assms unfolding rollback_one_def seqE_Inr_iff
    by (auto simp: exec_simps split: if_splits dest!: ensure_absent_disk read_regular_disk sync_directory_disk)
  have "w_links w2 = undo_links p (w_links w1) \<and> w_nodes w2 = w_nodes w1 \<and> w_next w2 = w_next w1"
  proof (cases "pp_operation p")
    case Create
    with r(2) show ?thesis by (auto simp: exec_simps undo_links_def dest: unlink_Inr)
  next
    case Edit
    with r(2) obtain v1 v2 v3 where v: "sys_rename_exchange (pp_parent p) (pp_temp_name p) (pp_name p) v1 = (Inr (), v2)"
      "disk v1 = disk w1" "disk v3 = disk v2" "w_links w1 (temp_at p) = Some (original_id p)" "remove_staged_temp p v3 = (Inr (), w2)"
      by (auto simp: exec_simps dest!: restore_original_Inr)
    from disk_eqD [OF v(2)] disk_eqD [OF v(3)] rename_exchange_Inr [OF v(1)] remove_staged_temp_runs(1) [OF v(5)] v(4) Edit
    show ?thesis by (auto simp: undo_links_def)
  next
    case Retire
    with r(2) obtain v1 v2 where v: "sys_rename_noreplace (pp_parent p) (pp_temp_name p) (pp_name p) v1 = (Inr (), v2)"
      "disk v1 = disk w1" "disk w2 = disk v2" "w_links w1 (temp_at p) = Some (original_id p)"
      by (auto simp: exec_simps dest!: restore_original_Inr)
    from disk_eqD [OF v(2)] disk_eqD [OF v(3)] rename_noreplace_Inr [OF v(1)] v(4) Retire
    show ?thesis by (auto simp: undo_links_def)
  qed
  with disk_eqD [OF r(1)] disk_eqD [OF r(3)] show ?thesis by simp
qed

lemma all_succeed_runs:
  assumes "all_succeed m xs w = (r, w')"
    and "\<And>x v u v'. x \<in> set xs \<Longrightarrow> m x v = (Inr u, v') \<Longrightarrow> w_links v' = f x (w_links v)"
  shows "\<exists>b. r = Inr b \<and> (b \<longrightarrow> w_links w' = fold f xs (w_links w))"
  using assms
proof (induction xs arbitrary: w r w')
  case (Cons x xs)
  obtain q w1 where q: "m x w = (q, w1)" by fastforce
  obtain s w2 where s: "all_succeed m xs w1 = (s, w2)" by fastforce
  obtain b where b: "s = Inr b" "b \<longrightarrow> w_links w2 = fold f xs (w_links w1)"
    using Cons.IH [OF s] Cons.prems(2) by force
  have "r = Inr (\<not> isl q \<and> b)" "w' = w2"
    using Cons.prems(1) q s b(1) by (auto simp: bindE_def attempt_def ret_def)
  with b(2) q Cons.prems(2) [of x w _ w1] show ?case by (cases q) auto
qed (auto intro: exI [of _ True])

lemma undo_agree:
  "(\<And>l. l \<notin> X \<Longrightarrow> L l = M l) \<Longrightarrow> l \<notin> X \<Longrightarrow> fold undo_links ps L l = fold undo_links ps M l"
proof (induction ps arbitrary: L M)
  case (Cons p ps)
  show ?case unfolding fold_Cons comp_apply
    by (rule Cons.IH [OF _ Cons.prems(2)]) (use Cons.prems(1) in \<open>auto simp: undo_links_def\<close>)
qed simp

lemma apply_agree:
  "(\<And>l. l \<notin> X \<Longrightarrow> L l = M l) \<Longrightarrow> l \<notin> X \<Longrightarrow> fold apply_links ps L l = fold apply_links ps M l"
proof (induction ps arbitrary: L M)
  case (Cons p ps)
  show ?case unfolding fold_Cons comp_apply
    by (rule Cons.IH [OF _ Cons.prems(2)]) (use Cons.prems(1) in \<open>auto simp: apply_links_def\<close>)
qed simp


section \<open>The publication loop\<close>

abbreviation mark :: "prepared_change \<Rightarrow> prepared_change" where
  "mark p \<equiv> p\<lparr> pp_published := True \<rparr>"

text \<open>Undoing a published change restores every entry but, perhaps, its temporary one.\<close>

lemma undo_publish:
  assumes "as_before p L" "pp_operation p \<noteq> Create \<longleftrightarrow> pp_original p \<noteq> None" "l \<noteq> temp_at p"
    and "\<And>l. l \<notin> X \<Longrightarrow> M l = publish_links p L l" "l \<notin> X"
  shows "undo_links p M l = L l"
  using assms by (auto simp: undo_links_def publish_links_def as_before_def split: change_operation.splits)

lemma settled:
  assumes "settle_step sha root marker (\<lambda>_. ret ()) i p w = (Inr u, w')"
  shows "w_links w (target_at p) = (if pp_operation p = Retire then None else Some (pp_staged_identity p))"
proof -
  obtain w1 w2 where r: "set_published_mode p w = (Inr (), w1)" "verify_published sha p w1 = (Inr (), w2)"
    using assms by (auto simp: settle_step_def exec_simps)
  have "steps (fixing w_links) (set_published_mode p)"
    unfolding set_published_mode_def
    by (cases "pp_result_mode p") (auto intro!: steps_intros reads_disk [THEN links_of_disk] split: sum.split)
  then have "w_links w1 = w_links w" using r(1) by (rule fixes_run)
  then show ?thesis using verify_published_Inr [OF r(2)] by simp
qed

lemma publish_from_runs:
  assumes "publish_from sha root marker (\<lambda>_. ret ()) i fin rest w = (r, w')"
    and "\<And>p. p \<in> set rest \<Longrightarrow> pp_operation p \<noteq> Create \<longleftrightarrow> pp_original p \<noteq> None"
  shows "\<exists>res pub unpub. r = Inr (res, fin @ map mark pub @ unpub) \<and> rest = pub @ unpub \<and>
    (\<forall>l. l \<notin> temp_at ` set rest \<longrightarrow> fold undo_links (rev pub) (w_links w') l = w_links w l) \<and>
    (res = Inr () \<longrightarrow> unpub = [] \<and> (\<forall>l. l \<notin> temp_at ` set rest \<longrightarrow> w_links w' l = fold apply_links pub (w_links w) l))"
  using assms
proof (induction rest arbitrary: i fin w r w')
  case Nil
  then show ?case by (auto simp: ret_def)
next
  case (Cons p rest)
  obtain q w1 where q: "publish_step sha root marker (\<lambda>_. ret ()) i p w = (q, w1)" by fastforce
  note step = publish_step_runs [OF q]
  show ?case
  proof (cases q)
    case (Inl e)
    then have "r = Inr (Inl e, fin @ p # rest)" "w' = w1"
      using Cons.prems(1) q by (auto simp: bindE_def attempt_def ret_def)
    then show ?thesis using step Inl by (intro exI [of _ "Inl e"] exI [of _ "[]"] exI [of _ "p # rest"]) auto
  next
    case (Inr u)
    let ?m = "mark p"
    obtain s w2 where s: "settle_step sha root marker (\<lambda>_. ret ()) i ?m w1 = (s, w2)" by fastforce
    have l1: "as_before p (w_links w)" "w_links w1 = publish_links p (w_links w)" using step Inr by auto
    have l2: "w_links w2 = w_links w1" using settle_step_links s by (rule fixes_run)
    have o: "pp_operation p \<noteq> Create \<longleftrightarrow> pp_original p \<noteq> None" using Cons.prems(2) by simp
    show ?thesis
    proof (cases s)
      case Inl': (Inl e)
      then have r: "r = Inr (Inl e, fin @ ?m # rest)" "w' = w2"
        using Cons.prems(1) q s Inr by (auto simp: bindE_def attempt_def ret_def Let_def)
      have "undo_links p (w_links w2) l = w_links w l" if "l \<notin> temp_at ` set (p # rest)" for l
        using that l1 l2 by (intro undo_publish [OF l1(1) o, where X = "{}"]) auto
      then show ?thesis using r
        by (intro exI [of _ "Inl e"] exI [of _ "[p]"] exI [of _ rest]) auto
    next
      case Inr': (Inr u')
      then have rest: "publish_from sha root marker (\<lambda>_. ret ()) (i + 1) (fin @ [?m]) rest w2 = (r, w')"
        using Cons.prems(1) q s Inr by (simp del: run_ret add: bindE_def attempt_def Let_def)
      obtain res pub unpub where ih: "r = Inr (res, (fin @ [?m]) @ map mark pub @ unpub)" "rest = pub @ unpub"
        "\<And>l. l \<notin> temp_at ` set rest \<Longrightarrow> fold undo_links (rev pub) (w_links w') l = w_links w2 l"
        "res = Inr () \<Longrightarrow> unpub = []"
        "\<And>l. res = Inr () \<Longrightarrow> l \<notin> temp_at ` set rest \<Longrightarrow> w_links w' l = fold apply_links pub (w_links w2) l"
        using Cons.IH [OF rest Cons.prems(2) [OF list.set_intros(2)]] by blast
      have "fold undo_links (rev (p # pub)) (w_links w') l = w_links w l" if "l \<notin> temp_at ` set (p # rest)" for l
        using that ih(3) l1 l2
        by (simp, intro undo_publish [OF l1(1) o, where X = "temp_at ` set rest"]) auto
      moreover have "w_links w' l = fold apply_links (p # pub) (w_links w) l"
        if res: "res = Inr ()" and l: "l \<notin> temp_at ` set (p # rest)" for l
      proof -
        have "w_links w1 (target_at p) = (if pp_operation p = Retire then None else Some (pp_staged_identity p))"
          using settled [of sha root marker i ?m w1 u' w2] s Inr' by simp
        then have "w_links w2 l = apply_links p (w_links w) l" if "l \<noteq> temp_at p" for l
          using that l1(2) l2 by (auto simp: apply_links_def publish_links_def split: change_operation.splits)
        then have "fold apply_links pub (w_links w2) l = fold apply_links pub (apply_links p (w_links w)) l"
          using l by (intro apply_agree [where X = "{temp_at p}"]) auto
        then show ?thesis using ih(5) [OF res] l by simp
      qed
      ultimately show ?thesis using ih(1,2,4)
        by (intro exI [of _ res] exI [of _ "p # pub"] exI [of _ unpub]) auto
    qed
  qed
qed

section \<open>Resolving paths\<close>

fun resolve :: "world \<Rightarrow> inode \<Rightarrow> string list \<Rightarrow> inode option" where
  "resolve w d [] = Some d"
| "resolve w d (n # ns) =
     (case w_links w (d, n) of
        None \<Rightarrow> None
      | Some i \<Rightarrow> if is_dir w i then resolve w i ns else None)"

lemma resolve_disk: "disk w' = disk w \<Longrightarrow> resolve w' d ns = resolve w d ns"
  by (induction ns arbitrary: d) (auto dest: disk_eqD split: option.splits)

lemma descend_from_Inr: "descend_from d ns c w = (Inr i, w') \<Longrightarrow> resolve w d ns = Some i"
proof (induction ns arbitrary: d w)
  case (Cons n ns)
  then obtain j w1 where j: "sys_open_dir d n w = (Inr j, w1)" "descend_from j ns c w1 = (Inr i, w')"
    by (auto simp: exec_simps)
  have d: "disk w1 = disk w" "w_links w (d, n) = Some j" "is_dir w j" using open_dir_Inr [OF j(1)] by auto
  then show ?case using Cons.IH [OF j(2)] resolve_disk [OF d(1)] by simp
qed simp

lemma descend_Inr: "descend d ns c w = (Inr i, w') \<Longrightarrow> resolve w d ns = Some i"
proof -
  assume "descend d ns c w = (Inr i, w')"
  then obtain w1 where w1: "sys_dup_dir d w = (Inr d, w1)" "descend_from d ns c w1 = (Inr i, w')"
    by (auto simp: descend_def exec_simps sys_dup_dir_def syscall_Inr)
  have "reads (sys_dup_dir d)" by (intro steps_intros)
  then have "disk w1 = disk w" using w1(1) by (rule fixes_run)
  from descend_from_Inr [OF w1(2)] resolve_disk [OF this] show ?thesis by simp
qed

section \<open>Preparing one change\<close>

text \<open>What a prepared change records of the plan and of the files it was prepared on.\<close>

definition prepared_for ::
    "(content \<Rightarrow> content_digest) \<Rightarrow> inode \<Rightarrow> string \<Rightarrow> nat \<Rightarrow> planned_file_change \<Rightarrow> world \<Rightarrow> prepared_change \<Rightarrow> bool" where
  "prepared_for sha r t i c w p \<longleftrightarrow>
     pp_name p = last (segments (pc_path c)) \<and> pp_temp_name p = temp_name t i \<and> pp_operation p = pc_operation c \<and>
     pp_published p = False \<and> resolve w r (butlast (segments (pc_path c))) = Some (pp_parent p) \<and>
     (case pc_precondition c of
        Absent \<Rightarrow> pp_original p = None \<and> w_links w (target_at p) = None
      | MatchesDigest d \<Rightarrow> \<exists>ob content. pp_original p = Some ob \<and> w_links w (target_at p) = Some (ob_identity ob) \<and>
          w_nodes w (ob_identity ob) = Some (Regular content (ob_mode ob)) \<and> sha content = d)"

lemma verify_initial_precondition_Inr:
  "verify_initial_precondition sha d n c w = (Inr ob, w') \<Longrightarrow>
     case pc_precondition c of
       Absent \<Rightarrow> ob = None \<and> w_links w (d, n) = None
     | MatchesDigest dg \<Rightarrow> \<exists>f content. ob = Some f \<and> w_links w (d, n) = Some (ob_identity f) \<and>
         w_nodes w (ob_identity f) = Some (Regular content (ob_mode f)) \<and> sha content = dg"
  by (auto simp: verify_initial_precondition_def exec_simps split: file_precondition.splits
      dest!: ensure_absent_Inr read_regular_file_Inr)

definition prepare_effect :: "planned_file_change \<Rightarrow> prepared_change \<Rightarrow> world \<Rightarrow> world \<Rightarrow> bool" where
  "prepare_effect c p w w' \<longleftrightarrow>
     (case pc_resulting_content c of
        None \<Rightarrow> disk w' = disk w
      | Some x \<Rightarrow> w_links w (temp_at p) = None \<and> pp_staged_identity p = w_next w \<and> w_next w' = Suc (w_next w) \<and>
          w_links w' = (w_links w)(temp_at p \<mapsto> w_next w) \<and> (\<forall>j. j \<noteq> w_next w \<longrightarrow> w_nodes w' j = w_nodes w j) \<and>
          (\<exists>m. w_nodes w' (w_next w) = Some (Regular x m)))"

lemma prepare_change_Inr:
  assumes "prepare_change sha root t i c w = (Inr p, w')"
  shows "prepared_for sha (rt_fd root) t i c w p \<and> prepare_effect c p w w'"
proof -
  let ?segs = "segments (pc_path c)"
  obtain d w1 ob w2 where r: "descend (rt_fd root) (butlast ?segs) (pc_path c) w = (Inr d, w1)"
    "verify_initial_precondition sha d (last ?segs) c w1 = (Inr ob, w2)"
    and p: "pp_name p = last ?segs" "pp_temp_name p = temp_name t i" "pp_operation p = pc_operation c"
      "pp_published p = False" "pp_parent p = d" "pp_original p = ob"
    and e: "case pc_resulting_content c of None \<Rightarrow> w' = w2 |
      Some x \<Rightarrow> stage_file d (temp_name t i) (pc_path c) x w2 = (Inr (pp_staged_identity p), w')"
    using assms by (auto simp: prepare_change_def exec_simps Let_def split: option.splits)
  have "reads (descend (rt_fd root) (butlast ?segs) (pc_path c))" "reads (verify_initial_precondition sha d (last ?segs) c)"
    by (intro steps_intros)+
  then have "disk w1 = disk w" "disk w2 = disk w1" using r by (auto dest: fixes_run)
  then have d: "disk w1 = disk w" "disk w2 = disk w" by simp_all
  have "prepared_for sha (rt_fd root) t i c w p"
    using verify_initial_precondition_Inr [OF r(2)] descend_Inr [OF r(1)] disk_eqD [OF d(1)] p
    by (auto simp: prepared_for_def split: file_precondition.splits)
  moreover have "prepare_effect c p w w'"
    using e d(2) disk_eqD [OF d(2)] p
    by (auto simp: prepare_effect_def split: option.splits dest!: stage_file_Inr)
  ultimately show ?thesis by blast
qed

lemma prepare_change_tidy: "tidy (prepare_change sha root t i c)"
proof -
  have "tidy (bindE (case pc_resulting_content c of
       Some content \<Rightarrow> (let mode = (case original of None \<Rightarrow> CREATED_MODE | Some observed \<Rightarrow> permission_bits (ob_mode observed))
         in bindE (stage_file parent temp (pc_path c) content) (\<lambda>identity. ret (identity, Some mode)))
     | None \<Rightarrow> ret (ob_identity (the original), None)) (\<lambda>(x, y). ret (f x y)))" for original parent temp f
    using tidyD [OF stage_file_tidy] by (auto simp: tidy_def exec_simps Let_def split: option.splits)
  note inner = this [unfolded Let_def]
  have "neutral (descend d ns q)" "neutral (verify_initial_precondition sha d' n c)" for d ns q d' n
    by (rule neutral_reads, intro steps_intros)+
  then show ?thesis
    unfolding prepare_change_def Let_def by (intro tidy_bind [OF _ tidy_bind [OF _ inner]])
qed

section \<open>Preparing all changes\<close>

definition has_original :: "prepared_change \<Rightarrow> bool" where
  "has_original p \<longleftrightarrow> (pp_operation p \<noteq> Create \<longleftrightarrow> pp_original p \<noteq> None)"

lemma prepared_for_original: "prepared_for sha r t i c w p \<Longrightarrow> has_original p"
  by (cases c) (auto simp: prepared_for_def has_original_def)

definition temp_names :: "string \<Rightarrow> string set" where
  "temp_names t = range (temp_name t)"

lemma prepare_from_shape:
  assumes "prepare_from sha root t i acc cs w = (r, w')"
  shows "\<exists>res ps. r = Inr (res, acc @ ps) \<and> length ps \<le> length cs \<and> (res = Inr () \<longrightarrow> length ps = length cs) \<and>
    (\<forall>k < length ps. pp_name (ps ! k) = last (segments (pc_path (cs ! k))) \<and> pp_temp_name (ps ! k) = temp_name t (i + k) \<and>
       has_original (ps ! k) \<and> pp_published (ps ! k) = False) \<and>
    ((\<forall>e. res = Inl e \<longrightarrow> me_kind e \<noteq> RecoveryRequired) \<longrightarrow> (\<forall>l. l \<notin> temp_at ` set ps \<longrightarrow> w_links w' l = w_links w l))"
  using assms
proof (induction cs arbitrary: i acc w r w')
  case Nil
  then show ?case by (auto simp: ret_def)
next
  case (Cons c cs)
  obtain q w1 where q: "prepare_change sha root t i c w = (q, w1)" by fastforce
  show ?case
  proof (cases q)
    case (Inl e)
    then have "r = Inr (Inl e, acc)" "w' = w1"
      using Cons.prems q by (auto simp: bindE_def attempt_def ret_def)
    moreover have "me_kind e = RecoveryRequired \<or> w_links w1 = w_links w"
      using tidyD [OF prepare_change_tidy q [unfolded Inl]] .
    ultimately show ?thesis by (intro exI [of _ "Inl e"] exI [of _ "[]"]) auto
  next
    case (Inr p)
    note p = prepare_change_Inr [OF q [unfolded Inr]]
    have rest: "prepare_from sha root t (i + 1) (acc @ [p]) cs w1 = (r, w')"
      using Cons.prems q Inr by (simp add: bindE_def attempt_def)
    obtain res ps where ih: "r = Inr (res, (acc @ [p]) @ ps)" "length ps \<le> length cs" "res = Inr () \<Longrightarrow> length ps = length cs"
      "\<And>k. k < length ps \<Longrightarrow> pp_name (ps ! k) = last (segments (pc_path (cs ! k))) \<and>
         pp_temp_name (ps ! k) = temp_name t (i + 1 + k) \<and> has_original (ps ! k) \<and> pp_published (ps ! k) = False"
      "(\<forall>e. res = Inl e \<longrightarrow> me_kind e \<noteq> RecoveryRequired) \<Longrightarrow> (\<forall>l. l \<notin> temp_at ` set ps \<longrightarrow> w_links w' l = w_links w1 l)"
      using Cons.IH [OF rest] by blast
    have "w_links w1 l = w_links w l" if "l \<noteq> temp_at p" for l
      using p that by (auto simp: prepare_effect_def dest!: disk_eqD split: option.splits)
    then have out: "(\<forall>e. res = Inl e \<longrightarrow> me_kind e \<noteq> RecoveryRequired) \<longrightarrow>
        (\<forall>l. l \<notin> temp_at ` set (p # ps) \<longrightarrow> w_links w' l = w_links w l)"
      using ih(5) by auto
    have "pp_name ((p # ps) ! k) = last (segments (pc_path ((c # cs) ! k))) \<and>
         pp_temp_name ((p # ps) ! k) = temp_name t (i + k) \<and> has_original ((p # ps) ! k) \<and> pp_published ((p # ps) ! k) = False"
      if "k < length (p # ps)" for k
    proof (cases k)
      case 0
      then show ?thesis using p prepared_for_original [of sha "rt_fd root" t i c w p] by (auto simp: prepared_for_def)
    next
      case (Suc j)
      then show ?thesis using ih(4) [of j] that by simp
    qed
    then show ?thesis
      using ih(1,2,3) out by (intro exI [of _ res] exI [of _ "p # ps"]) auto
  qed
qed

section \<open>The world during a transaction\<close>

text \<open>The entries a transaction may add on its own account, and a world that differs from the first one only in
  them and in new inodes.\<close>

definition own_entries :: "inode \<Rightarrow> string \<Rightarrow> location set" where
  "own_entries r t = {(d, n). n \<in> temp_names t \<or> (d, n) = (r, MUTATION_MARKER)}"

definition well_linked :: "world \<Rightarrow> bool" where
  "well_linked w \<longleftrightarrow> (\<forall>l i. w_links w l = Some i \<longrightarrow> i < w_next w)"

definition extends :: "inode \<Rightarrow> string \<Rightarrow> world \<Rightarrow> world \<Rightarrow> bool" where
  "extends r t w v \<longleftrightarrow> w_next w \<le> w_next v \<and> (\<forall>i < w_next w. w_nodes v i = w_nodes w i) \<and>
     (\<forall>l. l \<notin> own_entries r t \<longrightarrow> w_links v l = w_links w l) \<and>
     (\<forall>l j. l \<in> own_entries r t \<longrightarrow> w_links v l = Some j \<longrightarrow> j < w_next v \<and> \<not> is_dir v j)"

definition dir_link :: "world \<Rightarrow> location \<Rightarrow> inode option" where
  "dir_link w l = (case w_links w l of None \<Rightarrow> None | Some i \<Rightarrow> if is_dir w i then Some i else None)"

lemma resolve_dir_link: "dir_link w' = dir_link w \<Longrightarrow> resolve w' d ns = resolve w d ns"
proof (induction ns arbitrary: d)
  case (Cons n ns)
  then have "dir_link w' (d, n) = dir_link w (d, n)" by simp
  with Cons show ?case by (auto simp: dir_link_def split: option.splits if_splits)
qed simp

definition unused :: "inode \<Rightarrow> string \<Rightarrow> world \<Rightarrow> bool" where
  "unused r t w \<longleftrightarrow> (\<forall>l \<in> own_entries r t. w_links w l = None)"

lemma extendsD:
  assumes "extends r t w v"
  shows "l \<notin> own_entries r t \<Longrightarrow> w_links v l = w_links w l"
    and "l \<in> own_entries r t \<Longrightarrow> w_links v l = Some j \<Longrightarrow> j < w_next v \<and> \<not> is_dir v j"
    and "i < w_next w \<Longrightarrow> w_nodes v i = w_nodes w i"
    and "w_next w \<le> w_next v"
  using assms unfolding extends_def by blast+

lemma extends_dirs:
  assumes "extends r t w v" "well_linked w" "unused r t w"
  shows "resolve v d ns = resolve w d ns"
proof (rule resolve_dir_link, rule ext)
  fix l
  show "dir_link v l = dir_link w l"
  proof (cases "l \<in> own_entries r t")
    case True
    with assms(3) have "w_links w l = None" by (simp add: unused_def)
    with extendsD(2) [OF assms(1) True] show ?thesis by (simp add: dir_link_def split: option.split)
  next
    case False
    show ?thesis
    proof (cases "w_links w l")
      case (Some i)
      with assms(2) have "i < w_next w" unfolding well_linked_def by blast
      with Some extendsD(1) [OF assms(1) False] extendsD(3) [OF assms(1)] show ?thesis by (simp add: dir_link_def)
    qed (simp add: dir_link_def extendsD(1) [OF assms(1) False])
  qed
qed

lemma extends_refl: "unused r t w \<Longrightarrow> extends r t w w"
  by (simp add: extends_def unused_def)

text \<open>A prepared change seen from the world before the transaction.\<close>

definition staged_in :: "world \<Rightarrow> world \<Rightarrow> planned_file_change \<Rightarrow> prepared_change \<Rightarrow> bool" where
  "staged_in w v c p \<longleftrightarrow>
     (case pc_resulting_content c of
        None \<Rightarrow> True
      | Some x \<Rightarrow> w_next w \<le> pp_staged_identity p \<and> pp_staged_identity p < w_next v \<and>
          (\<exists>m. w_nodes v (pp_staged_identity p) = Some (Regular x m)))"

lemma prepared_for_base:
  assumes "prepared_for sha r t i c v p" "extends r t w v" "well_linked w" "unused r t w"
    and "target_at p \<notin> own_entries r t"
  shows "prepared_for sha r t i c w p"
proof -
  have l: "w_links v (target_at p) = w_links w (target_at p)" using assms(2,5) by (simp add: extends_def)
  have n: "w_nodes v j = w_nodes w j" if "w_links w (target_at p) = Some j" for j
    using that assms(2,3) by (auto simp: extends_def well_linked_def)
  show ?thesis
    using assms(1) l n extends_dirs [OF assms(2-4)] by (auto simp: prepared_for_def split: file_precondition.splits)
qed

lemma prepare_effect_extends:
  assumes "prepare_effect c p v v'" "extends r t w v" "temp_at p \<in> own_entries r t"
  shows "extends r t w v'"
proof (cases "pc_resulting_content c")
  case None
  with assms(1) have "disk v' = disk v" by (simp add: prepare_effect_def)
  with assms(2) show ?thesis by (simp add: extends_def disk_def)
next
  case (Some x)
  with assms(1) have e: "w_next v' = Suc (w_next v)" "w_links v' = (w_links v)(temp_at p \<mapsto> w_next v)"
    "\<And>j. j \<noteq> w_next v \<Longrightarrow> w_nodes v' j = w_nodes v j" "\<not> is_dir v' (w_next v)"
    by (auto simp: prepare_effect_def)
  have "j < w_next v' \<and> \<not> is_dir v' j" if "l \<in> own_entries r t" "w_links v' l = Some j" for l j
  proof (cases "l = temp_at p")
    case False
    with that e(2) have "w_links v l = Some j" by simp
    from extendsD(2) [OF assms(2) that(1) this] e(1,3) show ?thesis by fastforce
  qed (use that e in simp)
  moreover have "w_nodes v' i = w_nodes w i" if "i < w_next w" for i
    using that extendsD(3,4) [OF assms(2)] e(3) by fastforce
  moreover have "w_links v' l = w_links w l" if "l \<notin> own_entries r t" for l
  proof -
    have "l \<noteq> temp_at p" using that assms(3) by blast
    then show ?thesis using extendsD(1) [OF assms(2) that] e(2) by simp
  qed
  ultimately show ?thesis using extendsD(4) [OF assms(2)] e(1) by (auto simp: extends_def)
qed


lemma staged_later:
  assumes "staged_in w v c p" "prepare_effect c' p' v v'"
  shows "staged_in w v' c p"
proof -
  have "w_next v \<le> w_next v' \<and> (\<forall>j < w_next v. w_nodes v' j = w_nodes v j)"
    using assms(2) by (auto simp: prepare_effect_def split: option.splits dest: disk_eqD)
  then show ?thesis using assms(1) by (auto simp: staged_in_def split: option.splits)
qed

lemma prepare_from_established:
  assumes "prepare_from sha root t i acc cs v = (Inr (Inr (), out), v')"
    and "extends (rt_fd root) t w v" "well_linked w" "unused (rt_fd root) t w"
    and "\<And>c d. c \<in> set cs \<Longrightarrow> resolve w (rt_fd root) (butlast (segments (pc_path c))) = Some d \<Longrightarrow>
      (d, last (segments (pc_path c))) \<notin> own_entries (rt_fd root) t"
  shows "\<exists>ps. out = acc @ ps \<and> extends (rt_fd root) t w v' \<and> length ps = length cs \<and>
    (\<forall>k < length cs. prepared_for sha (rt_fd root) t (i + k) (cs ! k) w (ps ! k) \<and> staged_in w v' (cs ! k) (ps ! k)) \<and>
    (\<forall>u c p. staged_in w v c p \<longrightarrow> staged_in w v' c p)"
  using assms
proof (induction cs arbitrary: i acc v)
  case (Cons c cs)
  obtain q v1 where q: "prepare_change sha root t i c v = (q, v1)" by fastforce
  obtain p where qp: "q = Inr p"
    using Cons.prems(1) q by (cases q) (auto simp: bindE_def attempt_def ret_def)
  note pc = prepare_change_Inr [OF q [unfolded qp]]
  have rest: "prepare_from sha root t (i + 1) (acc @ [p]) cs v1 = (Inr (Inr (), out), v')"
    using Cons.prems(1) q qp by (simp add: bindE_def attempt_def)
  have dir: "resolve w (rt_fd root) (butlast (segments (pc_path c))) = Some (pp_parent p)"
    using pc extends_dirs [OF Cons.prems(2-4)] by (simp add: prepared_for_def)
  have name: "pp_name p = last (segments (pc_path c))" "pp_temp_name p = temp_name t i"
    using pc by (simp_all add: prepared_for_def)
  have tgt: "target_at p \<notin> own_entries (rt_fd root) t"
    using Cons.prems(5) [of c, OF _ dir] name by simp
  have tmp: "temp_at p \<in> own_entries (rt_fd root) t" by (simp add: own_entries_def name temp_names_def)
  have base: "prepared_for sha (rt_fd root) t i c w p"
    using prepared_for_base [OF _ Cons.prems(2-4) tgt] pc by blast
  have ext1: "extends (rt_fd root) t w v1"
    using prepare_effect_extends [OF _ Cons.prems(2) tmp] pc by blast
  have st: "staged_in w v1 c p"
    using pc extendsD(4) [OF Cons.prems(2)] by (auto simp: staged_in_def prepare_effect_def split: option.splits)
  obtain ps where ih: "out = (acc @ [p]) @ ps" "extends (rt_fd root) t w v'" "length ps = length cs"
    "\<And>k. k < length cs \<Longrightarrow> prepared_for sha (rt_fd root) t (i + 1 + k) (cs ! k) w (ps ! k) \<and> staged_in w v' (cs ! k) (ps ! k)"
    "\<And>c p. staged_in w v1 c p \<Longrightarrow> staged_in w v' c p"
    using Cons.IH [OF rest ext1 Cons.prems(3,4) Cons.prems(5) [OF list.set_intros(2)]] by blast
  have "prepared_for sha (rt_fd root) t (i + k) ((c # cs) ! k) w ((p # ps) ! k) \<and> staged_in w v' ((c # cs) ! k) ((p # ps) ! k)"
    if "k < length (c # cs)" for k
  proof (cases k)
    case 0
    then show ?thesis using base ih(5) [OF st] by simp
  next
    case (Suc j)
    then show ?thesis using ih(4) [of j] that by simp
  qed
  moreover have "staged_in w v' c' p'" if "staged_in w v c' p'" for c' p'
    using ih(5) staged_later [OF that] pc by blast
  ultimately show ?case using ih(1-3) by (intro exI [of _ "p # ps"]) simp
qed (simp add: ret_def)

section \<open>The marker\<close>

lemma create_marker_Inr:
  assumes "create_marker root plan t w = (Inr m, w')"
  shows "w_links w (rt_fd root, MUTATION_MARKER) = None \<and> m = w_next w \<and> w_next w' = Suc m \<and>
    w_links w' = (w_links w)((rt_fd root, MUTATION_MARKER) \<mapsto> m) \<and> (\<forall>j. j \<noteq> m \<longrightarrow> w_nodes w' j = w_nodes w j) \<and>
    \<not> is_dir w' m"
proof -
  obtain f w1 md w2 w3 w4 where r: "sys_create (rt_fd root) MUTATION_MARKER PRIVATE_MODE w = (Inr f, w1)"
    "sys_metadata f w1 = (Inr md, w2)" "sys_write f (marker_manifest t plan) w2 = (Inr (), w3)" "sys_sync f w3 = (Inr (), w4)"
    "sync_directory (rt_fd root) w4 = (Inr (), w')" "m = fst md"
    using assms by (auto simp: create_marker_def exec_simps)
  have "w_links w2 = w_links w1" "w_nodes w2 = w_nodes w1" "w_next w2 = w_next w1" "fst md = f"
    using metadata_Inr [OF r(2)] by (auto dest: disk_eqD)
  moreover have "w_links w4 = w_links w3" "w_nodes w4 = w_nodes w3" "w_next w4 = w_next w3"
    using sync_runs [OF r(4)] by (auto dest: disk_eqD)
  moreover have "w_links w' = w_links w4" "w_nodes w' = w_nodes w4" "w_next w' = w_next w4"
    using sync_directory_disk [OF r(5)] by (auto dest: disk_eqD)
  ultimately show ?thesis using create_Inr [OF r(1)] write_Inr [OF r(3)] r(6) by auto
qed

section \<open>Old inodes are never changed\<close>

text \<open>Relations between worlds that look at the inodes only: reading, moving and removing entries and creating
  a file respect them, so every part of a publication does that neither writes to a file nor sets its mode.\<close>

locale inode_relation = run_relation R
  for R :: "world \<Rightarrow> world \<Rightarrow> bool" +
  assumes same_inodes: "w_nodes s' = w_nodes s \<Longrightarrow> w_next s' = w_next s \<Longrightarrow> R s s'"
    and new_inode: "w_nodes s' = (w_nodes s)(w_next s \<mapsto> x) \<Longrightarrow> w_next s' = w_next s + 1 \<Longrightarrow> R s s'"
begin

lemma ir_reads: "reads m \<Longrightarrow> steps R m"
  by (auto simp: steps_def fixing_def disk_def intro: same_inodes)

lemma ir_fail: "steps R m \<Longrightarrow> steps R (or_fail m e)"
  unfolding or_fail_def by (rule steps_map_err)

lemma ir_pair: "steps R (Pair r)"
  by (rule stepsI) (simp add: rel_refl)

lemma ir_entries:
  "steps R (sys_rename_noreplace d a b)" "steps R (sys_rename_exchange d a b)" "steps R (sys_unlink d a)"
  "steps R (sys_create d a m)"
  unfolding sys_rename_noreplace_def sys_rename_exchange_def sys_unlink_def sys_create_def
  by (rule steps_syscall; auto intro: same_inodes new_inode split: option.split)+

lemma ir_read_calls:
  "steps R (sys_metadata i)" "steps R (sys_sync i)" "steps R (sys_open_read d a)" "steps R (sys_stat d a)"
  by (rule ir_reads, intro steps_intros)+

lemma ir_read_parts:
  "steps R (sync_directory d)" "steps R (sync_unique_parents ps)" "steps R (verify_namespace r)"
  "steps R (verify_marker r m)" "steps R (verify_parent_namespace r p)" "steps R (verify_precondition sha p)"
  "steps R (verify_published sha p)" "steps R (read_regular_file sha d a q)" "steps R (ensure_absent d a q)"
  "steps R (read_identity d a)" "steps R (verify_all_preconditions sha r ps)"
  "steps R (verify_all_parent_namespaces r ps)" "steps R (descend d ns q)"
  "steps R (verify_initial_precondition sha d a c)"
  by (rule ir_reads, intro steps_intros)+

lemmas ir_intros = steps_combinators ir_fail ir_pair ir_entries ir_read_calls ir_read_parts

lemma ir_remove:
  "steps R (remove_named_if_identity d a i)" "steps R (remove_staged_temp p)" "steps R (remove_backup p)"
  "steps R (remove_marker r m)" "steps R (remove_temp_if_present p)"
proof -
  show n: "steps R (remove_named_if_identity d a i)" for d a i
    unfolding remove_named_if_identity_def by (intro ir_intros)
  show t: "steps R (remove_staged_temp p)"
    unfolding remove_staged_temp_def by (intro ir_intros n)
  show "steps R (remove_backup p)" "steps R (remove_marker r m)"
    unfolding remove_backup_def remove_marker_def by (intro ir_intros n)+
  show "steps R (remove_temp_if_present p)"
    unfolding remove_temp_if_present_def by (intro ir_intros t) (auto intro!: ir_intros split: errno.split)
qed

lemma ir_all_succeed: "(\<And>x. steps R (m x)) \<Longrightarrow> steps R (all_succeed m xs)"
  by (induction xs) (auto intro!: ir_intros)

lemma ir_preflight: "steps R (preflight_filesystem_semantics ps t)"
proof -
  have "steps R (create_probe d a q)" for d a q
    unfolding create_probe_def by (intro ir_intros ir_remove)
  moreover have "steps R (probe_rename p a b)" for p a b
    unfolding probe_rename_def by (intro ir_intros)
  ultimately have "steps R (probe_change t i p)" for i p
    unfolding probe_change_def Let_def by (intro ir_intros ir_remove)
  then have "steps R (preflight_from t i ps)" for i
    by (induction ps arbitrary: i) (auto intro!: ir_intros)
  then show ?thesis by (simp add: preflight_filesystem_semantics_def)
qed

lemma ir_publish_step: "steps R (publish_step sha root m (\<lambda>_. ret ()) i p)"
proof -
  have "steps R (publish_one p)"
    unfolding publish_one_def by (auto intro!: ir_intros split: change_operation.split)
  then show ?thesis unfolding publish_step_def by (intro ir_intros)
qed

lemma ir_settle_step:
  "steps R (set_published_mode p) \<Longrightarrow> steps R (settle_step sha root m (\<lambda>_. ret ()) i p)"
  unfolding settle_step_def by (intro ir_intros)

lemma ir_publish_from:
  assumes "\<And>p. p \<in> set rest \<Longrightarrow> steps R (set_published_mode (p\<lparr> pp_published := True \<rparr>))"
  shows "steps R (publish_from sha root m (\<lambda>_. ret ()) i fin rest)"
  using assms
proof (induction rest arbitrary: i fin)
  case (Cons p rest)
  note settle = ir_settle_step [OF Cons.prems [OF list.set_intros(1)]] and rest = Cons.IH [OF Cons.prems [OF list.set_intros(2)]]
  show ?case unfolding publish_from.simps Let_def by (intro ir_intros ir_publish_step settle rest)
qed (simp add: steps_ret)

lemma ir_publish_changes:
  assumes "\<And>p. p \<in> set ps \<Longrightarrow> steps R (set_published_mode (p\<lparr> pp_published := True \<rparr>))"
  shows "steps R (publish_changes sha root m (\<lambda>_. ret ()) t ps)"
  unfolding publish_changes_def publication_preflight_def by (intro ir_intros ir_preflight ir_publish_from assms)

lemma ir_finish: "steps R (finish_publication root m ps)"
  unfolding finish_publication_def by (intro ir_intros ir_remove)

lemma ir_ends:
  "steps R (rollback_or_report sha root m ps e)" "steps R (cleanup_before_publication root m ps e)"
proof -
  have succeeds: "steps R n \<Longrightarrow> steps R (and_succeeds b n)" for n :: "(world, mutation_error, unit) exec" and b
    unfolding and_succeeds_def by (intro ir_intros)
  have marker_out: "steps R (remove_marker_unless_recovery b root m e)" for b
    unfolding remove_marker_unless_recovery_def by (intro ir_intros succeeds ir_remove)
  have undo_one: "steps R (rollback_one sha p)" for p
    unfolding rollback_one_def restore_original_def Let_def
    by (auto intro!: ir_intros ir_remove split: change_operation.split prod.split)
  show "steps R (rollback_or_report sha root m ps e)" "steps R (cleanup_before_publication root m ps e)"
    unfolding rollback_or_report_def cleanup_before_publication_def
    by (intro ir_intros succeeds marker_out ir_all_succeed ir_remove undo_one)+
qed

end

definition older :: "inode \<Rightarrow> world \<Rightarrow> world \<Rightarrow> bool" where
  "older n s s' \<longleftrightarrow> (n \<le> w_next s \<longrightarrow> n \<le> w_next s' \<and> (\<forall>i < n. w_nodes s' i = w_nodes s i))"

interpretation older: inode_relation "older n" for n
  by unfold_locales (auto simp: older_def)

declare older.ir_intros [steps_intros]
declare older.ir_remove [steps_intros]

lemma older_write [steps_intros]: "n \<le> i \<Longrightarrow> steps (older n) (sys_write i c)" "n \<le> i \<Longrightarrow> steps (older n) (sys_fchmod i m)"
  by (auto simp: steps_def sys_write_def older_def sys_fchmod_def syscall_def split: option.split node.split)

lemma older_create:
  assumes "\<And>i. n \<le> i \<Longrightarrow> steps (older n) (f i)"
  shows "steps (older n) (bindE (map_err g (sys_create d a m)) f)"
proof (rule stepsI)
  fix s
  obtain q s1 where q: "sys_create d a m s = (q, s1)" by fastforce
  have o: "older n s s1" using stepsD [OF older.ir_entries(4) q] .
  show "older n s (snd (bindE (map_err g (sys_create d a m)) f s))"
  proof (cases q)
    case (Inl e)
    then show ?thesis using o q by (simp add: bindE_def map_err_def)
  next
    case (Inr i)
    have "older n s (snd (f i s1))"
    proof (cases "n \<le> w_next s")
      case True
      then have "n \<le> i" using create_Inr [OF q [unfolded Inr]] by simp
      from assms [OF this] have "older n s1 (snd (f i s1))" by (simp add: steps_def)
      with o show ?thesis by (rule older.rel_trans)
    qed (simp add: older_def)
    then show ?thesis using q Inr by (simp add: bindE_def map_err_def)
  qed
qed

lemma older_create_marker [steps_intros]: "steps (older n) (create_marker root plan t)"
  unfolding create_marker_def by (intro older_create steps_intros)

lemma older_stage_file [steps_intros]: "steps (older n) (stage_file d a q c)"
  unfolding stage_file_def or_fail_def Let_def by (intro older_create steps_intros)

lemma older_prepare_change [steps_intros]: "steps (older n) (prepare_change sha root t i c)"
  unfolding prepare_change_def Let_def by (intro steps_intros)

lemma older_prepare_from [steps_intros]: "steps (older n) (prepare_from sha root t i acc cs)"
  by (induction cs arbitrary: i acc) (auto intro!: steps_intros)

lemma older_prepare_changes [steps_intros]: "steps (older n) (prepare_changes sha root plan t)"
  unfolding prepare_changes_def by (intro steps_intros)

text \<open>The mode of a published file is set on its staged inode only.\<close>

definition fresh_staged :: "inode \<Rightarrow> prepared_change \<Rightarrow> bool" where
  "fresh_staged n p \<longleftrightarrow> pp_result_mode p = None \<or> n \<le> pp_staged_identity p"

lemma older_bind_result:
  assumes "steps (older n) m" "\<And>s s1 x. m s = (Inr x, s1) \<Longrightarrow> older n s1 (snd (f x s1))"
  shows "steps (older n) (bindE m f)"
proof (rule stepsI)
  fix s
  obtain q s1 where q: "m s = (q, s1)" by fastforce
  note o = stepsD [OF assms(1) q]
  show "older n s (snd (bindE m f s))"
  proof (cases q)
    case (Inr x)
    from older.rel_trans [OF o assms(2) [OF q [unfolded Inr]]] show ?thesis by (simp add: bindE_def q Inr)
  qed (use o q in \<open>simp add: bindE_def\<close>)
qed

lemma older_set_mode [steps_intros]:
  assumes "fresh_staged n p"
  shows "steps (older n) (set_published_mode p)"
proof (cases "pp_result_mode p")
  case None
  then show ?thesis by (simp add: set_published_mode_def older.steps_ret)
next
  case (Some mode)
  with assms have n: "n \<le> pp_staged_identity p" by (simp add: fresh_staged_def)
  have "steps (older n) (bindE (or_fail (sys_metadata f) e1) (\<lambda>metadata.
      bindE (if snd metadata = None then ret None
        else bindE (attempt (sys_metadata f)) (\<lambda>r. ret (case r of Inl _ \<Rightarrow> None | Inr m \<Rightarrow> Some (fst m)))) (\<lambda>identity.
      seqE (ensure (snd metadata \<noteq> None \<and> identity = Some (pp_staged_identity p)) e2)
      (seqE (or_fail (sys_fchmod f mode) e3) (or_fail (sys_sync f) e4)))))" for f e1 e2 e3 e4
  proof (cases "n \<le> f")
    case True
    then show ?thesis by (intro steps_intros)
  next
    case False
    have "steps (older n) (bindE (if snd md = None then ret None
        else bindE (attempt (sys_metadata f)) (\<lambda>r. ret (case r of Inl _ \<Rightarrow> None | Inr m \<Rightarrow> Some (fst m)))) (\<lambda>identity.
      seqE (ensure (snd md \<noteq> None \<and> identity = Some (pp_staged_identity p)) e2)
      (seqE (or_fail (sys_fchmod f mode) e3) (or_fail (sys_sync f) e4))))" for md
    proof (rule older_bind_result)
      fix s s1 id
      assume "(if snd md = None then ret None
        else bindE (attempt (sys_metadata f)) (\<lambda>r. ret (case r of Inl _ \<Rightarrow> None | Inr m \<Rightarrow> Some (fst m)))) s = (Inr id, s1)"
      then have "id = None \<or> id = Some f"
        by (auto simp: exec_simps split_sum_ex split: if_splits dest: metadata_Inr)
      with False n have "id \<noteq> Some (pp_staged_identity p)" by auto
      then show "older n s1 (snd (seqE (ensure (snd md \<noteq> None \<and> id = Some (pp_staged_identity p)) e2)
          (seqE (or_fail (sys_fchmod f mode) e3) (or_fail (sys_sync f) e4)) s1))"
        by (simp add: ensure_def seqE_def bindE_def throw_def older.rel_refl)
    qed (intro steps_intros)
    from older.steps_bindE [OF older.ir_fail [OF older.ir_read_calls(1)] this] show ?thesis .
  qed
  from older.steps_bindE [OF older.ir_fail [OF older.ir_read_calls(3)] this]
  show ?thesis unfolding set_published_mode_def Some option.case .
qed


lemma older_publish_changes:
  assumes "\<And>p. p \<in> set ps \<Longrightarrow> fresh_staged n p"
  shows "steps (older n) (publish_changes sha root m (\<lambda>_. ret ()) t ps)"
proof (rule older.ir_publish_changes)
  fix p
  assume "p \<in> set ps"
  then have "fresh_staged n (mark p)" using assms [of p] by (simp add: fresh_staged_def)
  then show "steps (older n) (set_published_mode (mark p))" by (rule older_set_mode)
qed

text \<open>Publishing keeps the content of every file, also of the staged ones.\<close>

definition contents_kept :: "inode \<Rightarrow> world \<Rightarrow> world \<Rightarrow> bool" where
  "contents_kept n s s' \<longleftrightarrow> (n \<le> w_next s \<longrightarrow> n \<le> w_next s' \<and>
     (\<forall>i < n. \<forall>c m. w_nodes s i = Some (Regular c m) \<longrightarrow> (\<exists>m'. w_nodes s' i = Some (Regular c m'))))"

interpretation contents: inode_relation "contents_kept n" for n
proof unfold_locales
  show "contents_kept n s s" for s by (simp add: contents_kept_def)
  show "contents_kept n s u" if "contents_kept n s t" "contents_kept n t u" for s t u
    using that unfolding contents_kept_def by blast
qed (auto simp: contents_kept_def)

lemma contents_fchmod: "steps (contents_kept n) (sys_fchmod i m)"
  by (auto simp: steps_def contents_kept_def sys_fchmod_def syscall_def split: option.split node.split)

lemma contents_publish_changes: "steps (contents_kept n) (publish_changes sha root m (\<lambda>_. ret ()) t ps)"
  by (rule contents.ir_publish_changes, unfold set_published_mode_def, intro contents.ir_intros contents_fchmod)

lemma prepare_change_fresh:
  assumes "prepare_change sha root t i c w = (Inr p, w')" "n \<le> w_next w"
  shows "fresh_staged n p"
proof (cases "pc_resulting_content c")
  case None
  with assms(1) have "pp_result_mode p = None"
    unfolding prepare_change_def Let_def None option.case bindE_Inr_iff by (auto simp: ret_def)
  then show ?thesis by (simp add: fresh_staged_def)
next
  case (Some x)
  with prepare_change_Inr [OF assms(1)] assms(2) show ?thesis by (simp add: fresh_staged_def prepare_effect_def)
qed

lemma prepare_from_fresh:
  assumes "prepare_from sha root t i acc cs w = (Inr (res, out), w')" "n \<le> w_next w" "\<forall>p \<in> set acc. fresh_staged n p"
  shows "\<forall>p \<in> set out. fresh_staged n p"
  using assms
proof (induction cs arbitrary: i acc w)
  case (Cons c cs)
  obtain q w1 where q: "prepare_change sha root t i c w = (q, w1)" by fastforce
  show ?case
  proof (cases q)
    case (Inl e)
    with Cons.prems q show ?thesis by (auto simp: bindE_def attempt_def ret_def)
  next
    case (Inr p)
    then have rest: "prepare_from sha root t (i + 1) (acc @ [p]) cs w1 = (Inr (res, out), w')"
      using Cons.prems(1) q by (simp add: bindE_def attempt_def)
    have n: "n \<le> w_next w1"
      using stepsD [OF older_prepare_change q] Cons.prems(2) by (auto simp: older_def)
    have "fresh_staged n p" by (rule prepare_change_fresh [OF q [unfolded Inr] Cons.prems(2)])
    with Cons.prems(3) have "\<forall>p \<in> set (acc @ [p]). fresh_staged n p" by simp
    from Cons.IH [OF rest n this] show ?thesis .
  qed
qed (simp add: ret_def)

section \<open>Entries that are left alone\<close>

text \<open>No step but the removal of the marker touches an entry that is neither a target nor a temporary file nor a
  probe of the transaction.\<close>

abbreviation spares :: "location \<Rightarrow> (world, 'e, 'a) exec \<Rightarrow> bool" where
  "spares l m \<equiv> steps (fixing (\<lambda>w. w_links w l)) m"

lemma spares_links: "steps (fixing w_links) m \<Longrightarrow> spares l m"
  by (auto simp: steps_def fixing_def)

lemma spares_reads: "reads m \<Longrightarrow> spares l m"
  by (rule spares_links) (rule links_of_disk)

lemma spares_entries [steps_intros]:
  "l \<noteq> (d, a) \<Longrightarrow> l \<noteq> (d, b) \<Longrightarrow> spares l (sys_rename_noreplace d a b)"
  "l \<noteq> (d, a) \<Longrightarrow> l \<noteq> (d, b) \<Longrightarrow> spares l (sys_rename_exchange d a b)"
  "l \<noteq> (d, a) \<Longrightarrow> spares l (sys_unlink d a)" "l \<noteq> (d, a) \<Longrightarrow> spares l (sys_create d a m)"
  unfolding sys_rename_noreplace_def sys_rename_exchange_def sys_unlink_def sys_create_def
  by (rule steps_syscall; auto simp: fixing_def split: option.split)+

lemma spares_calls [steps_intros]:
  "spares l (sys_metadata i)" "spares l (sys_sync i)" "spares l (sys_open_read d a)" "spares l (sys_stat d a)"
  "spares l (sys_write i c)" "spares l (sys_fchmod i md)"
  by (rule spares_reads, intro steps_intros)+ (rule spares_links, intro steps_intros)+

lemma spares_read_parts [steps_intros]:
  "spares l (sync_directory d)" "spares l (sync_unique_parents ps)" "spares l (verify_namespace r)"
  "spares l (verify_marker r m)" "spares l (verify_parent_namespace r p)" "spares l (verify_precondition sha p)"
  "spares l (verify_published sha p)" "spares l (read_regular_file sha d a q)" "spares l (ensure_absent d a q)"
  "spares l (read_identity d a)" "spares l (verify_all_preconditions sha r ps)"
  "spares l (verify_all_parent_namespaces r ps)" "spares l (descend d ns q)" "spares l (verify_initial_precondition sha d a c)"
  by (rule spares_reads, intro steps_intros)+

lemma spares_remove [steps_intros]: "l \<noteq> (d, a) \<Longrightarrow> spares l (remove_named_if_identity d a i)"
  unfolding remove_named_if_identity_def by (intro steps_intros)

lemma spares_remove_temp [steps_intros]:
  assumes "l \<noteq> temp_at p"
  shows "spares l (remove_staged_temp p)" "spares l (remove_backup p)" "spares l (remove_temp_if_present p)"
proof -
  show s: "spares l (remove_staged_temp p)" "spares l (remove_backup p)"
    unfolding remove_staged_temp_def remove_backup_def using assms by (intro steps_intros; simp)+
  show "spares l (remove_temp_if_present p)"
    unfolding remove_temp_if_present_def using s by (intro steps_intros) (auto intro!: steps_intros split: errno.split)
qed

lemma spares_all_succeed: "(\<And>x. x \<in> set xs \<Longrightarrow> spares l (m x)) \<Longrightarrow> spares l (all_succeed m xs)"
proof (induction xs)
  case (Cons x xs)
  have "spares l (m x)" "spares l (all_succeed m xs)" using Cons by simp_all
  then show ?case unfolding all_succeed.simps by (intro steps_intros)
qed (simp add: fixed.steps_ret)

lemma spares_for_each: "(\<And>x. x \<in> set xs \<Longrightarrow> spares l (m x)) \<Longrightarrow> spares l (for_each m xs)"
proof (induction xs)
  case (Cons x xs)
  have "spares l (m x)" "spares l (for_each m xs)" using Cons by simp_all
  then show ?case unfolding for_each.simps by (rule fixed.steps_seqE)
qed (simp add: fixed.steps_ret)

lemma spares_stage_file [steps_intros]: "l \<noteq> (d, a) \<Longrightarrow> spares l (stage_file d a q c)"
  unfolding stage_file_def Let_def by (intro steps_intros)

lemma spares_create_probe [steps_intros]: "l \<noteq> (d, a) \<Longrightarrow> spares l (create_probe d a q)"
  unfolding create_probe_def by (intro steps_intros)

lemma spares_probe_rename [steps_intros]:
  "l \<noteq> (pp_parent p, a) \<Longrightarrow> l \<noteq> (pp_parent p, b) \<Longrightarrow> spares l (probe_rename p a b)"
  unfolding probe_rename_def by (intro steps_intros)

lemma not_probe: "MUTATION_MARKER \<noteq> probe_name t i c" "MUTATION_MARKER \<noteq> temp_name t i"
  by (simp_all add: MUTATION_MARKER_def probe_name_def temp_name_def)

lemma spares_preflight [steps_intros]: "spares (r, MUTATION_MARKER) (preflight_filesystem_semantics ps t)"
proof -
  have "spares (r, MUTATION_MARKER) (probe_change t i p)" for i p
    unfolding probe_change_def Let_def by (intro steps_intros; simp add: not_probe)
  then have "spares (r, MUTATION_MARKER) (preflight_from t i ps)" for i
    by (induction ps arbitrary: i) (auto intro!: steps_intros)
  then show ?thesis by (simp add: preflight_filesystem_semantics_def)
qed

lemma spares_prepare [steps_intros]:
  "spares (r, MUTATION_MARKER) (prepare_change sha root t i c)" "spares (r, MUTATION_MARKER) (prepare_changes sha root plan t)"
proof -
  show p: "spares (r, MUTATION_MARKER) (prepare_change sha root t i c)" for i c
    unfolding prepare_change_def Let_def by (intro steps_intros; simp add: not_probe)
  have "spares (r, MUTATION_MARKER) (prepare_from sha root t i acc cs)" for i acc cs
    by (induction cs arbitrary: i acc) (auto intro!: steps_intros p)
  then show "spares (r, MUTATION_MARKER) (prepare_changes sha root plan t)"
    unfolding prepare_changes_def by (intro steps_intros)
qed

text \<open>A prepared change that spares an entry.\<close>

definition misses :: "location \<Rightarrow> prepared_change \<Rightarrow> bool" where
  "misses l p \<longleftrightarrow> l \<noteq> target_at p \<and> l \<noteq> temp_at p"

lemma spares_publish_one [steps_intros]: "misses l p \<Longrightarrow> spares l (publish_one p)"
  unfolding publish_one_def misses_def by (auto intro!: steps_intros split: change_operation.split)

lemma spares_publish_step [steps_intros]: "misses l p \<Longrightarrow> spares l (publish_step sha root m (\<lambda>_. ret ()) i p)"
  unfolding publish_step_def by (intro steps_intros)

lemma spares_settle_step [steps_intros]: "spares l (settle_step sha root m (\<lambda>_. ret ()) i p)"
  by (rule spares_links) (rule settle_step_links)

lemma spares_publish_from:
  "(\<And>p. p \<in> set rest \<Longrightarrow> misses l p) \<Longrightarrow> spares l (publish_from sha root m (\<lambda>_. ret ()) i fin rest)"
proof (induction rest arbitrary: i fin)
  case (Cons p rest)
  note step = spares_publish_step [OF Cons.prems [OF list.set_intros(1)]] and rest = Cons.IH [OF Cons.prems [OF list.set_intros(2)]]
  show ?case unfolding publish_from.simps Let_def by (intro steps_intros step rest)
qed (simp add: fixed.steps_ret)

lemma spares_publish_changes:
  assumes "\<And>p. p \<in> set ps \<Longrightarrow> misses (r, MUTATION_MARKER) p"
  shows "spares (r, MUTATION_MARKER) (publish_changes sha root m (\<lambda>_. ret ()) t ps)"
  unfolding publish_changes_def publication_preflight_def by (intro steps_intros spares_publish_from assms)

lemma spares_rollback_one [steps_intros]:
  assumes "misses l p"
  shows "spares l (rollback_one sha p)"
proof -
  have "l \<noteq> target_at p" "l \<noteq> temp_at p" using assms by (simp_all add: misses_def)
  then show ?thesis
    unfolding rollback_one_def restore_original_def Let_def
    by (auto intro!: steps_intros split: change_operation.split prod.split)
qed

section \<open>How a failing transaction ends\<close>

definition clear_temps :: "prepared_change list \<Rightarrow> (location \<Rightarrow> inode option) \<Rightarrow> location \<Rightarrow> inode option" where
  "clear_temps ps L l = (if l \<in> temp_at ` set ps then None else L l)"

lemma fold_clear: "fold (\<lambda>p L. L(temp_at p := None)) ps L = clear_temps ps L"
  by (induction ps arbitrary: L) (auto simp: clear_temps_def fun_eq_iff)

lemma remove_marker_runs:
  "remove_marker root m w = (Inr u, w') \<Longrightarrow> w_links w' = (w_links w)((rt_fd root, MUTATION_MARKER) := None)"
  "remove_marker root m w = (Inl e, w') \<Longrightarrow> disk w' = disk w"
proof -
  have v: "disk w1 = disk w" if "verify_marker root m w = (x, w1)" for x w1
  proof -
    have "reads (verify_marker root m)" by (intro steps_intros)
    then show ?thesis using that by (rule fixes_run)
  qed
  show "remove_marker root m w = (Inr u, w') \<Longrightarrow> w_links w' = (w_links w)((rt_fd root, MUTATION_MARKER) := None)"
    by (auto simp: remove_marker_def exec_simps dest!: v unlink_Inr dest: disk_eqD)
  show "remove_marker root m w = (Inl e, w') \<Longrightarrow> disk w' = disk w"
    by (auto simp: remove_marker_def exec_simps dest: v dest!: refused(3))
qed

lemma and_succeeds_reads:
  assumes "reads m"
  shows "\<exists>c w'. and_succeeds b m w = (Inr c, w') \<and> (c \<longrightarrow> b) \<and> w_links w' = w_links w"
proof (cases b)
  case True
  obtain q w1 where q: "m w = (q, w1)" by fastforce
  have "w_links w1 = w_links w" using reads_run [OF assms q] by simp
  then show ?thesis using q True by (simp add: and_succeeds_def bindE_def attempt_def ret_def)
qed (auto simp: and_succeeds_def ret_def)

lemma remove_unless_runs:
  "\<exists>c w'. remove_marker_unless_recovery b root m e w = (Inr c, w') \<and> (c \<longrightarrow> b) \<and>
    (c \<and> me_kind e \<noteq> RecoveryRequired \<and> w_links w' = (w_links w)((rt_fd root, MUTATION_MARKER) := None) \<or>
     w_links w' = w_links w \<and> (\<not> c \<or> me_kind e = RecoveryRequired))"
proof (cases "b \<and> me_kind e \<noteq> RecoveryRequired")
  case True
  obtain q w1 where q: "remove_marker root m w = (q, w1)" by fastforce
  then have run: "remove_marker_unless_recovery b root m e w = (Inr (\<not> isl q), w1)"
    using True by (simp add: remove_marker_unless_recovery_def and_succeeds_def bindE_def attempt_def ret_def)
  show ?thesis
  proof (cases q)
    case (Inl x)
    with disk_eqD [OF remove_marker_runs(2)] q have "w_links w1 = w_links w" by blast
    with run Inl show ?thesis by (intro exI [of _ False] exI [of _ w1]) simp
  next
    case (Inr x)
    with remove_marker_runs(1) q have "w_links w1 = (w_links w)((rt_fd root, MUTATION_MARKER) := None)" by blast
    with run Inr True show ?thesis by (intro exI [of _ True] exI [of _ w1]) simp
  qed
qed (auto simp: remove_marker_unless_recovery_def ret_def)

lemma removing_temps:
  "\<exists>b w'. all_succeed remove_temp_if_present ps w = (Inr b, w') \<and> (b \<longrightarrow> w_links w' = clear_temps ps (w_links w))"
proof -
  obtain r w' where r: "all_succeed remove_temp_if_present ps w = (r, w')" by fastforce
  have "w_links v' = (w_links v)(temp_at p := None)" if "remove_temp_if_present p v = (Inr u, v')" for p v u v'
    using remove_temp_if_present_runs(1) [OF that] by blast
  from all_succeed_runs [OF r, of "\<lambda>p L. L(temp_at p := None)"] this r show ?thesis
    unfolding fold_clear by blast
qed

lemma rolling_back:
  "\<exists>b w'. all_succeed (rollback_one sha) ps w = (Inr b, w') \<and> (b \<longrightarrow> w_links w' = fold undo_links ps (w_links w))"
proof -
  obtain r w' where r: "all_succeed (rollback_one sha) ps w = (r, w')" by fastforce
  have "w_links v' = undo_links p (w_links v)" if "rollback_one sha p v = (Inr u, v')" for p v u v'
    using rollback_one_Inr [OF that] by blast
  from all_succeed_runs [OF r, of undo_links] this r show ?thesis by blast
qed

text \<open>After a failure either the clean-up was complete and the marker is gone, or the error asks for an inspection
  and the marker is as it was.\<close>

lemma cleanup_runs:
  assumes "cleanup_before_publication root m ps e w = (r, w')"
    and "\<And>p. p \<in> set ps \<Longrightarrow> (rt_fd root, MUTATION_MARKER) \<noteq> temp_at p"
  shows "r = Inl e \<and> me_kind e \<noteq> RecoveryRequired \<and>
      w_links w' = (clear_temps ps (w_links w))((rt_fd root, MUTATION_MARKER) := None) \<or>
    w_links w' (rt_fd root, MUTATION_MARKER) = w_links w (rt_fd root, MUTATION_MARKER) \<and>
      (\<exists>e'. r = Inl e' \<and> me_kind e' = RecoveryRequired)"
proof -
  let ?l = "(rt_fd root, MUTATION_MARKER)"
  obtain b1 w1 where s1: "(all_succeed remove_temp_if_present ps :: bool mutation) w = (Inr b1, w1)"
      and c1: "b1 \<longrightarrow> w_links w1 = clear_temps ps (w_links w)"
    using removing_temps by blast
  have "spares ?l (all_succeed remove_temp_if_present ps)"
    by (intro spares_all_succeed spares_remove_temp) (use assms(2) in blast)
  then have k1: "w_links w1 ?l = w_links w ?l" using s1 by (rule fixes_run)
  have "reads (sync_unique_parents ps)" by (intro steps_intros)
  from and_succeeds_reads [OF this] obtain b2 w2 where s2: "and_succeeds b1 (sync_unique_parents ps) w1 = (Inr b2, w2)"
      and c2: "b2 \<longrightarrow> b1" "w_links w2 = w_links w1"
    by blast
  obtain b3 w3 where s3: "remove_marker_unless_recovery b2 root m e w2 = (Inr b3, w3)" and c3: "b3 \<longrightarrow> b2"
      "b3 \<and> me_kind e \<noteq> RecoveryRequired \<and> w_links w3 = (w_links w2)(?l := None) \<or>
       w_links w3 = w_links w2 \<and> (\<not> b3 \<or> me_kind e = RecoveryRequired)"
    using remove_unless_runs by blast
  have "w' = w3" "r = (if b3 then Inl e else Inl (mutation_error RecoveryRequired
       ''mutation preparation failed and transaction cleanup requires manual inspection''))"
    using assms(1) s1 s2 s3 by (simp_all add: cleanup_before_publication_def bindE_def throw_def split: if_splits)
  then show ?thesis using c1 c2 c3 k1 by (auto simp: mutation_error_def)
qed

lemma rollback_runs:
  assumes "rollback_or_report sha root m ps e w = (r, w')"
    and "\<And>p. p \<in> set ps \<Longrightarrow> misses (rt_fd root, MUTATION_MARKER) p"
  shows "r = Inl e \<and> me_kind e \<noteq> RecoveryRequired \<and>
      w_links w' = (clear_temps ps (fold undo_links (filter pp_published (rev ps)) (w_links w)))((rt_fd root, MUTATION_MARKER) := None) \<or>
    w_links w' (rt_fd root, MUTATION_MARKER) = w_links w (rt_fd root, MUTATION_MARKER) \<and>
      (\<exists>e'. r = Inl e' \<and> me_kind e' \<in> {RecoveryRequired, RollbackIncomplete})"
proof -
  let ?l = "(rt_fd root, MUTATION_MARKER)" and ?pub = "filter pp_published (rev ps)"
  obtain b0 w0 where s0: "(all_succeed (rollback_one sha) ?pub :: bool mutation) w = (Inr b0, w0)"
      and c0: "b0 \<longrightarrow> w_links w0 = fold undo_links ?pub (w_links w)"
    using rolling_back by blast
  have "spares ?l (all_succeed (rollback_one sha) ?pub)"
    by (intro spares_all_succeed spares_rollback_one assms(2)) simp
  then have k0: "w_links w0 ?l = w_links w ?l" using s0 by (rule fixes_run)
  let ?m1 = "(if b0 then all_succeed remove_temp_if_present ps else ret False) :: bool mutation"
  obtain b1 w1 where s1: "?m1 w0 = (Inr b1, w1)" and c1: "b1 \<longrightarrow> b0 \<and> w_links w1 = clear_temps ps (w_links w0)"
  proof (cases b0)
    case True
    then show ?thesis using that removing_temps [of ps w0] by auto
  qed (use that in simp)
  have "spares ?l ?m1"
    by (intro fixed.steps_if fixed.steps_ret spares_all_succeed spares_remove_temp) (use assms(2) in \<open>auto simp: misses_def\<close>)
  then have k1: "w_links w1 ?l = w_links w0 ?l" using s1 by (rule fixes_run)
  have "reads (sync_unique_parents ps)" by (intro steps_intros)
  from and_succeeds_reads [OF this] obtain b2 w2 where s2: "and_succeeds b1 (sync_unique_parents ps) w1 = (Inr b2, w2)"
      and c2: "b2 \<longrightarrow> b1" "w_links w2 = w_links w1"
    by blast
  obtain b3 w3 where s3: "remove_marker_unless_recovery b2 root m e w2 = (Inr b3, w3)" and c3: "b3 \<longrightarrow> b2"
      "b3 \<and> me_kind e \<noteq> RecoveryRequired \<and> w_links w3 = (w_links w2)(?l := None) \<or>
       w_links w3 = w_links w2 \<and> (\<not> b3 \<or> me_kind e = RecoveryRequired)"
    using remove_unless_runs by blast
  let ?done = "seqE (ignore_err (sync_directory (rt_fd root))) (throw e) :: nat mutation"
  let ?stuck = "mutation_error RollbackIncomplete
       ''mutation rollback could not be completed; the recovery marker and remaining transaction files require manual inspection''"
  have "rollback_or_report sha root m ps e w = (if b3 then ?done else throw ?stuck) w3"
    unfolding rollback_or_report_def bindE_def using s0 s1 s2 s3 by simp
  with assms(1) have last: "(if b3 then ?done else throw ?stuck) w3 = (r, w')" by simp
  have "steps (fixing w_links) (if b3 then ?done else throw ?stuck)"
    by (intro steps_intros links_of_disk)
  then have l': "w_links w' = w_links w3" using last by (rule fixes_run)
  have r: "r = (if b3 then Inl e else Inl ?stuck)"
    using last by (auto simp: bindE_def throw_def seqE_def ignore_err_def split: if_splits prod.splits)
  from c3(2) show ?thesis
  proof
    assume a: "b3 \<and> me_kind e \<noteq> RecoveryRequired \<and> w_links w3 = (w_links w2)(?l := None)"
    then have "w_links w2 = clear_temps ps (fold undo_links ?pub (w_links w))"
      using c0 c1 c2 c3(1) by simp
    with a r l' show ?thesis by simp
  next
    assume a: "w_links w3 = w_links w2 \<and> (\<not> b3 \<or> me_kind e = RecoveryRequired)"
    then have "w_links w' ?l = w_links w ?l" using l' c2(2) k1 k0 by simp
    moreover have "\<exists>e'. r = Inl e' \<and> me_kind e' \<in> {RecoveryRequired, RollbackIncomplete}"
      using a r by (simp add: mutation_error_def)
    ultimately show ?thesis by blast
  qed
qed

end
