(* ===== verification/Transactions.thy ===== *)
theory Transactions
  imports Publication
begin

text \<open>
  The guarantees of a whole publication, whatever system calls fail: which files of the application a run of
  \<^verbatim>\<open>publish_change_plan\<close> leaves behind, for every result it can report. The application is seen as a map from
  paths to contents, on which a change plan acts as in \<^verbatim>\<open>Change_Plan\<close>.
\<close>

section \<open>The root of the application\<close>

definition root_path :: "world \<Rightarrow> string \<Rightarrow> string option" where
  "root_path w path = (if is_absolute path then Some path else map_option (\<lambda>cwd. joined cwd path) (w_cwd w))"

definition normal_names :: "path_component list \<Rightarrow> string list" where
  "normal_names cs = concat (map (\<lambda>c. case c of Normal n \<Rightarrow> [n] | _ \<Rightarrow> []) cs)"

definition application_root :: "world \<Rightarrow> string \<Rightarrow> inode option" where
  "application_root w path =
     (case root_path w path of
        None \<Rightarrow> None
      | Some p \<Rightarrow> resolve w (w_slash w) (normal_names (path_components p)))"

definition transaction_of :: "world \<Rightarrow> string option" where
  "transaction_of w = map_option (\<lambda>nonce. nat_digits (w_pid w) @ ''-'' @ nat_digits nonce) (w_nanos w)"

lemma checked_root_run: "checked_root p w = (r, w') \<Longrightarrow> w' = w \<and> (\<forall>q. r = Inr q \<longrightarrow> root_path w p = Some q)"
  by (auto simp: checked_root_def root_path_def bindE_def seqE_def ensure_def throw_def ret_def ok_or_def gets_def
      split: if_splits option.splits)

lemma open_components_Inr:
  "open_components d cs w = (Inr i, w') \<Longrightarrow> resolve w d (normal_names cs) = Some i"
proof (induction cs arbitrary: d w)
  case (Cons c cs)
  show ?case
  proof (cases c)
    case (Normal n)
    then obtain j w1 where j: "sys_open_dir d n w = (Inr j, w1)" "open_components j cs w1 = (Inr i, w')"
      using Cons.prems by (auto simp: exec_simps)
    have d: "disk w1 = disk w" "w_links w (d, n) = Some j" "is_dir w j" using open_dir_Inr [OF j(1)] by auto
    then show ?thesis using Cons.IH [OF j(2)] resolve_disk [OF d(1)] Normal by (simp add: normal_names_def)
  qed (use Cons in \<open>auto simp: normal_names_def exec_simps\<close>)
qed (simp add: normal_names_def)

text \<open>The process and the clock of the transaction are not changed by opening the root.\<close>

definition origin :: "world \<Rightarrow> nat \<times> nat option \<times> inode \<times> string option" where
  "origin w = (w_pid w, w_nanos w, w_slash w, w_cwd w)"

lemma origin_calls [steps_intros]:
  "steps (fixing origin) sys_open_slash" "steps (fixing origin) (sys_open_dir d n)" "steps (fixing origin) (sys_metadata i)"
  unfolding sys_open_slash_def sys_open_dir_def sys_metadata_def
  by (rule steps_syscall; simp add: fixing_def origin_def split: option.split)+

lemma origin_root_open: "steps (fixing origin) (root_open p)"
proof -
  have c: "steps (fixing origin) (checked_root p)"
  proof (rule stepsI)
    fix s
    obtain r s' where "checked_root p s = (r, s')" by fastforce
    with checked_root_run [OF this] show "fixing origin s (snd (checked_root p s))" by (simp add: fixing_def)
  qed
  have o: "steps (fixing origin) (open_components d cs)" for d cs
    by (induction d cs rule: open_components.induct) (auto intro!: steps_intros split: path_component.split)
  show ?thesis
    unfolding root_open_def open_directory_path_def directory_identity_def by (intro steps_intros c o)
qed

lemma root_open_runs:
  assumes "root_open p w = (r, w')"
  shows "disk w' = disk w \<and> origin w' = origin w \<and>
    (\<forall>root. r = Inr root \<longrightarrow> application_root w p = Some (rt_fd root))"
proof -
  have d: "disk w' = disk w" using reads_root(1) assms by (rule fixes_run)
  have o: "origin w' = origin w" using origin_root_open assms by (rule fixes_run)
  have "application_root w p = Some (rt_fd root)" if "r = Inr root" for root
  proof -
    from assms that have run: "root_open p w = (Inr root, w')" by simp
    obtain q w1 fd w2 w3 where s: "checked_root p w = (Inr q, w1)" "sys_open_slash w1 = (Inr fd, w2)"
      "open_components fd (path_components q) w2 = (Inr (rt_fd root), w3)"
      using run unfolding root_open_def open_directory_path_def by (auto simp: exec_simps)
    note c = checked_root_run [OF s(1)]
    have "fd = w_slash w1" "disk w2 = disk w1" using s(2) by (auto simp: sys_open_slash_def syscall_Inr)
    moreover from c have "w1 = w" "root_path w p = Some q" by simp_all
    moreover from this calculation have "disk w2 = disk w" by simp
    note resolve_disk [OF this]
    ultimately show ?thesis using open_components_Inr [OF s(3)] by (simp add: application_root_def)
  qed
  with d o show ?thesis by blast
qed

lemma transaction_id_run: "transaction_id w = (r, w') \<Longrightarrow> w' = w \<and> (\<forall>t. r = Inr t \<longrightarrow> transaction_of w = Some t)"
  by (auto simp: transaction_id_def transaction_of_def bindE_def gets_def ok_or_def throw_def ret_def split: option.splits)

section \<open>Files by path\<close>

text \<open>The regular files below a directory, as the change plans name them.\<close>

definition place :: "world \<Rightarrow> inode \<Rightarrow> change_path \<Rightarrow> location option" where
  "place w r p = map_option (\<lambda>d. (d, last (segments p))) (resolve w r (butlast (segments p)))"

definition files_below :: "world \<Rightarrow> inode \<Rightarrow> file_map" where
  "files_below w r p =
     (case place w r p of
        None \<Rightarrow> None
      | Some l \<Rightarrow> (case w_links w l of
          None \<Rightarrow> None
        | Some i \<Rightarrow> (case w_nodes w i of Some (Regular content _) \<Rightarrow> Some content | _ \<Rightarrow> None)))"

text \<open>Directories form a tree: none has two entries, and the root of the file system has none.\<close>

definition directory_tree :: "world \<Rightarrow> bool" where
  "directory_tree w \<longleftrightarrow>
     (\<forall>l l' i. w_links w l = Some i \<and> w_links w l' = Some i \<and> is_dir w i \<longrightarrow> l = l') \<and>
     (\<forall>l. w_links w l \<noteq> Some (w_slash w))"

lemma resolve_append: "resolve w d (ns @ ms) = (case resolve w d ns of None \<Rightarrow> None | Some i \<Rightarrow> resolve w i ms)"
  by (induction ns arbitrary: d) (auto split: option.split)

lemma resolve_snoc:
  "resolve w d (ns @ [n]) = Some i \<longleftrightarrow> (\<exists>j. resolve w d ns = Some j \<and> w_links w (j, n) = Some i \<and> is_dir w i)"
  by (auto simp: resolve_append split: option.splits)

lemma resolve_unique:
  assumes "directory_tree w" "resolve w (w_slash w) ns = Some i" "resolve w (w_slash w) ms = Some i"
  shows "ns = ms"
  using assms(2,3)
proof (induction ns arbitrary: ms i rule: rev_induct)
  case Nil
  with assms(1) show ?case
    by (cases ms rule: rev_cases) (auto simp: resolve_snoc directory_tree_def)
next
  case (snoc n ns)
  then obtain j where j: "resolve w (w_slash w) ns = Some j" "w_links w (j, n) = Some i" "is_dir w i"
    by (auto simp: resolve_snoc)
  show ?case
  proof (cases ms rule: rev_cases)
    case Nil
    with snoc.prems(2) j(2) assms(1) show ?thesis by (auto simp: directory_tree_def)
  next
    case (snoc ms' m)
    with snoc.prems(2) obtain k where k: "resolve w (w_slash w) ms' = Some k" "w_links w (k, m) = Some i"
      by (auto simp: resolve_snoc)
    have "(k, m) = (j, n)" using assms(1) j(2,3) k(2) unfolding directory_tree_def by blast
    with snoc k(1) snoc.IH [OF j(1)] show ?thesis by simp
  qed
qed

lemma resolve_below_unique:
  assumes "directory_tree w" "application_root w p = Some r" "resolve w r ns = Some d" "resolve w r ms = Some d"
  shows "ns = ms"
proof -
  obtain rs where "resolve w (w_slash w) rs = Some r"
    using assms(2) by (auto simp: application_root_def split: option.splits)
  then have "resolve w (w_slash w) (rs @ ns) = Some d" "resolve w (w_slash w) (rs @ ms) = Some d"
    using assms(3,4) by (simp_all add: resolve_append)
  from resolve_unique [OF assms(1) this] show ?thesis by simp
qed

lemma segments_ends: "butlast (segments p) = butlast (segments q) \<Longrightarrow> last (segments p) = last (segments q) \<Longrightarrow> p = q"
  by (metis append_butlast_last_id segments_inj split_on_nonempty)

lemma place_unique:
  assumes "directory_tree w" "application_root w path = Some r" "place w r p = Some l" "place w r q = Some l"
  shows "p = q"
proof (rule segments_ends)
  obtain d where "resolve w r (butlast (segments p)) = Some d" "resolve w r (butlast (segments q)) = Some d"
    and last: "last (segments p) = last (segments q)"
    using assms(3,4) by (auto simp: place_def)
  from resolve_below_unique [OF assms(1,2) this(1,2)] show "butlast (segments p) = butlast (segments q)" .
  show "last (segments p) = last (segments q)" by (rule last)
qed

lemma place_root:
  assumes "directory_tree w" "application_root w path = Some r" "place w r p = Some (r, n)"
  shows "segments p = [n]"
proof -
  have "resolve w r (butlast (segments p)) = Some r" "last (segments p) = n"
    using assms(3) by (auto simp: place_def)
  moreover have "resolve w r [] = Some r" by simp
  ultimately have "butlast (segments p) = []" using resolve_below_unique [OF assms(1,2)] by blast
  then show ?thesis using \<open>last (segments p) = n\<close> by (metis append_butlast_last_id append_Nil split_on_nonempty)
qed

section \<open>The files of a published plan\<close>

definition prepared_all ::
    "(content \<Rightarrow> content_digest) \<Rightarrow> inode \<Rightarrow> string \<Rightarrow> change_plan \<Rightarrow> world \<Rightarrow> prepared_change list \<Rightarrow> bool" where
  "prepared_all sha r t plan w ps \<longleftrightarrow> list_all2 (\<lambda>c p. \<exists>i. prepared_for sha r t i c w p) plan ps"

text \<open>A world in which every target has the entry its change asks for, and the own entries of the transaction are
  gone.\<close>

definition applied :: "inode \<Rightarrow> string \<Rightarrow> change_plan \<Rightarrow> prepared_change list \<Rightarrow> world \<Rightarrow> world \<Rightarrow> bool" where
  "applied r t plan ps w v \<longleftrightarrow>
     (\<forall>l. l \<notin> own_entries r t \<longrightarrow> w_links v l = fold apply_links ps (w_links w) l) \<and>
     unused r t v \<and> (\<forall>i < w_next w. w_nodes v i = w_nodes w i) \<and> list_all2 (staged_in w v) plan ps"

lemma appliedD:
  assumes "applied r t plan ps w v"
  shows "l \<notin> own_entries r t \<Longrightarrow> w_links v l = fold apply_links ps (w_links w) l"
    and "l \<in> own_entries r t \<Longrightarrow> w_links v l = None"
    and "i < w_next w \<Longrightarrow> w_nodes v i = w_nodes w i" and "list_all2 (staged_in w v) plan ps"
  using assms unfolding applied_def unused_def by blast+

lemma apply_elsewhere: "l \<notin> target_at ` set ps \<Longrightarrow> fold apply_links ps L l = L l"
  by (induction ps arbitrary: L) (auto simp: apply_links_def)

lemma apply_at:
  assumes "distinct (map target_at ps)" "p \<in> set ps"
  shows "fold apply_links ps L (target_at p) = (if pp_operation p = Retire then None else Some (pp_staged_identity p))"
  using assms
proof (induction ps arbitrary: L)
  case (Cons q ps)
  show ?case
  proof (cases "p = q")
    case True
    with Cons.prems(1) have "target_at p \<notin> target_at ` set ps" by simp
    from apply_elsewhere [OF this] True have "fold apply_links (q # ps) L (target_at p) = apply_links q L (target_at p)"
      by (simp only: fold_Cons comp_apply)
    also have "\<dots> = (if pp_operation q = Retire then None else Some (pp_staged_identity q))"
      using True by (simp add: apply_links_def)
    finally show ?thesis using True by simp
  qed (use Cons in auto)
qed simp

lemma prepared_place: "prepared_for sha r t i c w p \<Longrightarrow> place w r (pc_path c) = Some (target_at p)"
  by (simp add: prepared_for_def place_def)

lemma prepared_places: "prepared_all sha r t plan w ps \<Longrightarrow> map Some (map target_at ps) = map (place w r) (map pc_path plan)"
  unfolding prepared_all_def by (induction rule: list_all2_induct) (auto simp: prepared_place)

lemma prepared_distinct:
  assumes "prepared_all sha r t plan w ps" "distinct (map pc_path plan)" "directory_tree w" "application_root w path = Some r"
  shows "distinct (map target_at ps)"
proof -
  have "inj_on (place w r) (set (map pc_path plan))"
  proof (rule inj_onI)
    fix p q
    assume p: "p \<in> set (map pc_path plan)" and e: "place w r p = place w r q"
    from p prepared_places [OF assms(1)] have "place w r p \<in> set (map Some (map target_at ps))"
      by (simp only: set_map image_image) blast
    then obtain l where "place w r p = Some l" by auto
    with place_unique [OF assms(3,4), of p l q] e show "p = q" by simp
  qed
  with assms(2) have "distinct (map (place w r) (map pc_path plan))" by (simp only: distinct_map [of "place w r"] simp_thms)
  then have "distinct (map Some (map target_at ps))" unfolding prepared_places [OF assms(1)] .
  then show ?thesis by (simp only: distinct_map [of Some] simp_thms)
qed

lemma prepared_target:
  assumes "prepared_all sha r t plan w ps" "l \<in> target_at ` set ps"
  obtains c p i where "c \<in> set plan" "p \<in> set ps" "l = target_at p" "prepared_for sha r t i c w p"
proof -
  obtain k where "k < length ps" "l = target_at (ps ! k)" using assms(2) by (auto simp: set_conv_nth)
  with assms(1) that [of "plan ! k" "ps ! k"] show thesis by (auto simp: prepared_all_def list_all2_conv_all_nth)
qed

lemma prepared_file:
  assumes "prepared_for sha r t i c w p"
  shows "meets sha (files_below w r) c"
    and "w_links w (target_at p) = Some j \<Longrightarrow> \<not> is_dir w j"
  using assms prepared_place [OF assms]
  by (auto simp: meets_def files_below_def prepared_for_def split: file_precondition.splits)

lemma applied_dirs:
  assumes "applied r t plan ps w v" "prepared_all sha r t plan w ps" "distinct (map target_at ps)"
    and "well_linked w" "unused r t w" "\<And>p. p \<in> set ps \<Longrightarrow> target_at p \<notin> own_entries r t"
  shows "dir_link v = dir_link w"
proof (rule ext)
  fix l
  note a = appliedD [OF assms(1)]
  consider "l \<in> own_entries r t" | "l \<notin> own_entries r t" "l \<notin> target_at ` set ps" | "l \<in> target_at ` set ps" by blast
  then show "dir_link v l = dir_link w l"
  proof cases
    case 1
    with assms(5) have "w_links w l = None" by (simp add: unused_def)
    with a(2) [OF 1] show ?thesis by (simp add: dir_link_def)
  next
    case 2
    then have l: "w_links v l = w_links w l" using a(1) [OF 2(1)] apply_elsewhere [OF 2(2)] by simp
    have "w_nodes v i = w_nodes w i" if "w_links w l = Some i" for i
      using a(3) assms(4) that unfolding well_linked_def by blast
    with l show ?thesis by (auto simp: dir_link_def split: option.split)
  next
    case 3
    then obtain k where k: "k < length ps" "l = target_at (ps ! k)" by (auto simp: set_conv_nth)
    let ?p = "ps ! k" and ?c = "plan ! k"
    obtain i where pf: "prepared_for sha r t i ?c w ?p" and st: "staged_in w v ?c ?p"
      using k(1) assms(2) a(4) by (auto simp: prepared_all_def list_all2_conv_all_nth)
    have "l \<notin> own_entries r t" using assms(6) k by simp
    from a(1) [OF this] have "w_links v l = fold apply_links ps (w_links w) (target_at ?p)" using k(2) by simp
    also have "\<dots> = (if pp_operation ?p = Retire then None else Some (pp_staged_identity ?p))"
      using k(1) by (intro apply_at assms(3)) simp
    finally have "dir_link v l = None"
      using pf st by (cases ?c) (auto simp: dir_link_def staged_in_def prepared_for_def)
    moreover have "dir_link w l = None"
      using prepared_file(2) [OF pf] k(2) by (auto simp: dir_link_def split: option.split)
    ultimately show ?thesis by simp
  qed
qed


text \<open>Publishing the prepared changes is running the plan on the files.\<close>

lemma applied_place:
  assumes "dir_link v = dir_link w"
  shows "place v r p = place w r p"
  using resolve_dir_link [OF assms] by (simp add: place_def)

lemma applied_files:
  assumes "applied r t plan ps w v" "prepared_all sha r t plan w ps" "plan_ok sha plan"
    and "directory_tree w" "application_root w path = Some r" "well_linked w" "unused r t w"
    and "\<And>p. p \<in> set ps \<Longrightarrow> target_at p \<notin> own_entries r t"
  shows "run_changes sha plan (files_below w r) = Some (files_below v r)"
    and "l \<notin> own_entries r t \<Longrightarrow> l \<notin> target_at ` set ps \<Longrightarrow> w_links v l = w_links w l"
proof -
  note a = appliedD [OF assms(1)]
  have dp: "distinct (map pc_path plan)" using plan_ok_distinct [OF assms(3)] .
  have dt: "distinct (map target_at ps)" by (rule prepared_distinct [OF assms(2) dp assms(4,5)])
  have place: "place v r p = place w r p" for p
    by (rule applied_place [OF applied_dirs [OF assms(1,2) dt assms(6,7,8)]])
  show same: "w_links v l = w_links w l" if "l \<notin> own_entries r t" "l \<notin> target_at ` set ps" for l
    using a(1) [OF that(1)] apply_elsewhere [OF that(2)] by simp
  show "run_changes sha plan (files_below w r) = Some (files_below v r)"
  proof (rule run_changes_distinct [OF dp])
    show "\<forall>c \<in> set plan. meets sha (files_below w r) c"
    proof
      fix c
      assume "c \<in> set plan"
      then obtain p i where "prepared_for sha r t i c w p"
        using assms(2) by (auto simp: prepared_all_def list_all2_conv_all_nth in_set_conv_nth)
      then show "meets sha (files_below w r) c" by (rule prepared_file(1))
    qed
    show "files_below v r (pc_path c) = pc_resulting_content c" if "c \<in> set plan" for c
    proof -
      obtain k where k: "k < length plan" "c = plan ! k" using \<open>c \<in> set plan\<close> by (auto simp: in_set_conv_nth)
      let ?p = "ps ! k"
      have len: "length ps = length plan" using a(4) by (simp add: list_all2_lengthD)
      obtain i where pf: "prepared_for sha r t i c w ?p" and st: "staged_in w v c ?p"
        using k assms(2) a(4) by (auto simp: prepared_all_def list_all2_conv_all_nth)
      have p: "?p \<in> set ps" using k(1) len by simp
      have "w_links v (target_at ?p) = (if pp_operation ?p = Retire then None else Some (pp_staged_identity ?p))"
        using a(1) [OF assms(8) [OF p]] apply_at [OF dt p] by simp
      moreover have "place v r (pc_path c) = Some (target_at ?p)" using prepared_place [OF pf] place by simp
      ultimately show ?thesis
        using pf st by (cases c) (auto simp: files_below_def staged_in_def prepared_for_def)
    qed
    show "files_below v r q = files_below w r q" if "q \<notin> pc_path ` set plan" for q
    proof (cases "place w r q")
      case (Some l)
      have "l \<notin> target_at ` set ps"
      proof
        assume "l \<in> target_at ` set ps"
        from prepared_target [OF assms(2) this] obtain c p i where c: "c \<in> set plan" "l = target_at p" "prepared_for sha r t i c w p" .
        have "place w r (pc_path c) = Some l" using prepared_place [OF c(3)] c(2) by simp
        from place_unique [OF assms(4,5) this Some] c(1) that show False by blast
      qed
      then have l: "w_links v l = w_links w l"
        using same a(2) assms(7) by (cases "l \<in> own_entries r t") (auto simp: unused_def)
      have "w_nodes v i = w_nodes w i" if "w_links w l = Some i" for i
        using a(3) assms(6) that unfolding well_linked_def by blast
      with l show ?thesis by (simp add: files_below_def place Some split: option.split)
    qed (simp add: files_below_def place)
  qed
qed

section \<open>Names of a transaction\<close>

definition digits_value :: "string \<Rightarrow> nat" where
  "digits_value s = foldl (\<lambda>a c. 10 * a + (of_char c - 48)) 0 s"

lemma digits_value: "digits_value (nat_digits n) = n"
proof (induction n rule: nat_digits.induct)
  case (1 n)
  show ?case
  proof (cases "n < 10")
    case False
    then have "digits_value (nat_digits n) = 10 * digits_value (nat_digits (n div 10)) + n mod 10"
      by (subst nat_digits.simps) (simp add: digits_value_def of_char_of)
    with False 1 show ?thesis by simp
  qed (subst nat_digits.simps, simp add: digits_value_def)
qed

lemma temp_name_inj: "temp_name t i = temp_name t j \<longleftrightarrow> i = j"
proof
  assume "temp_name t i = temp_name t j"
  then have "nat_digits i = nat_digits j" by (simp add: temp_name_def)
  then show "i = j" by (metis digits_value)
qed simp

lemma temp_own: "pp_temp_name p = temp_name t i \<Longrightarrow> temp_at p \<in> own_entries r t"
  by (simp add: own_entries_def temp_names_def)

lemma marker_own: "(r, MUTATION_MARKER) \<in> own_entries r t"
  by (simp add: own_entries_def)

text \<open>A plan that names neither the marker nor a file of the transaction.\<close>

definition names_apart :: "string \<Rightarrow> change_plan \<Rightarrow> bool" where
  "names_apart t plan \<longleftrightarrow> (\<forall>c \<in> set plan. pc_path c \<noteq> MUTATION_MARKER \<and> last (segments (pc_path c)) \<notin> temp_names t)"

lemma marker_segments: "segments p = [MUTATION_MARKER] \<Longrightarrow> p = MUTATION_MARKER"
  using join_split_on [of "CHR ''/''" p] by simp

lemma targets_apart:
  assumes "names_apart t plan" "directory_tree w" "application_root w path = Some r" "c \<in> set plan"
    and "resolve w r (butlast (segments (pc_path c))) = Some d"
  shows "(d, last (segments (pc_path c))) \<notin> own_entries r t"
proof
  assume "(d, last (segments (pc_path c))) \<in> own_entries r t"
  with assms(1,4) have own: "d = r" "last (segments (pc_path c)) = MUTATION_MARKER"
    by (auto simp: own_entries_def names_apart_def)
  then have "place w r (pc_path c) = Some (r, MUTATION_MARKER)" using assms(5) by (simp add: place_def)
  from marker_segments [OF place_root [OF assms(2,3) this]] assms(1,4) show False by (simp add: names_apart_def)
qed

section \<open>A prepared transaction\<close>

text \<open>The world \<open>v\<close> after all changes of the plan were prepared in the world \<open>w\<close> with the marker \<open>m\<close>.\<close>

definition ready ::
    "(content \<Rightarrow> content_digest) \<Rightarrow> inode \<Rightarrow> string \<Rightarrow> inode \<Rightarrow> change_plan \<Rightarrow> world \<Rightarrow> prepared_change list \<Rightarrow> world \<Rightarrow> bool" where
  "ready sha r t m plan w ps v \<longleftrightarrow>
     prepared_all sha r t plan w ps \<and> list_all2 (staged_in w v) plan ps \<and> w_next w \<le> w_next v \<and>
     (\<forall>l. l \<notin> temp_at ` set ps \<longrightarrow> w_links v l = ((w_links w)((r, MUTATION_MARKER) \<mapsto> m)) l) \<and>
     (\<forall>p \<in> set ps. target_at p \<notin> own_entries r t \<and> temp_at p \<in> own_entries r t \<and> temp_at p \<noteq> (r, MUTATION_MARKER) \<and>
        has_original p \<and> pp_published p = False \<and> fresh_staged (w_next w) p) \<and>
     sorted_wrt (\<lambda>p q. misses (temp_at p) q) ps"

lemma readyD:
  assumes "ready sha r t m plan w ps v"
  shows "prepared_all sha r t plan w ps" "list_all2 (staged_in w v) plan ps" "w_next w \<le> w_next v"
    and "l \<notin> temp_at ` set ps \<Longrightarrow> w_links v l = ((w_links w)((r, MUTATION_MARKER) \<mapsto> m)) l"
    and "p \<in> set ps \<Longrightarrow> target_at p \<notin> own_entries r t \<and> temp_at p \<in> own_entries r t \<and> temp_at p \<noteq> (r, MUTATION_MARKER)"
    and "p \<in> set ps \<Longrightarrow> has_original p \<and> pp_published p = False \<and> fresh_staged (w_next w) p"
    and "sorted_wrt (\<lambda>p q. misses (temp_at p) q) ps"
  using assms unfolding ready_def by blast+

lemma misses_marker: "ready sha r t m plan w ps v \<Longrightarrow> p \<in> set ps \<Longrightarrow> misses (r, MUTATION_MARKER) p"
  using readyD(5) marker_own [of r t] unfolding misses_def by metis

lemma prepare_changes_runs:
  assumes "prepare_changes sha root plan t w = (r, w')"
  shows "\<exists>res ps. r = Inr (res, ps) \<and>
    (\<forall>p \<in> set ps. (\<exists>i. pp_temp_name p = temp_name t i) \<and> has_original p \<and> pp_published p = False) \<and>
    ((\<forall>e. res = Inl e \<longrightarrow> me_kind e \<noteq> RecoveryRequired) \<longrightarrow> (\<forall>l. l \<notin> temp_at ` set ps \<longrightarrow> w_links w' l = w_links w l)) \<and>
    (res = Inr () \<longrightarrow> (\<exists>w1. prepare_from sha root t 0 [] plan w = (Inr (Inr (), ps), w1) \<and> disk w' = disk w1))"
proof -
  obtain q w1 where q: "prepare_from sha root t 0 [] plan w = (q, w1)" by fastforce
  from prepare_from_shape [OF q] obtain res ps where s: "q = Inr (res, ps)"
    "\<And>k. k < length ps \<Longrightarrow> pp_temp_name (ps ! k) = temp_name t k \<and> has_original (ps ! k) \<and> pp_published (ps ! k) = False"
    "(\<forall>e. res = Inl e \<longrightarrow> me_kind e \<noteq> RecoveryRequired) \<longrightarrow> (\<forall>l. l \<notin> temp_at ` set ps \<longrightarrow> w_links w1 l = w_links w l)"
    by auto
  have names: "\<forall>p \<in> set ps. (\<exists>i. pp_temp_name p = temp_name t i) \<and> has_original p \<and> pp_published p = False"
    using s(2) by (metis in_set_conv_nth)
  show ?thesis
  proof (cases res)
    case (Inl e)
    then have "r = Inr (Inl e, ps)" "w' = w1"
      using assms q s(1) by (auto simp: prepare_changes_def bindE_def ret_def)
    then show ?thesis using names s(3) Inl by blast
  next
    case (Inr u)
    obtain x w2 where x: "sync_unique_parents ps w1 = (x, w2)" by fastforce
    have r: "r = Inr (x, ps)" "w' = w2"
      using assms q s(1) x Inr by (auto simp: prepare_changes_def bindE_def ret_def attempt_def)
    have "disk w2 = disk w1" using reads_sync_unique x by (rule fixes_run)
    then have d: "disk w' = disk w1" "w_links w' = w_links w1" using r by (auto dest: disk_eqD)
    have "\<forall>l. l \<notin> temp_at ` set ps \<longrightarrow> w_links w' l = w_links w l" using s(3) Inr d(2) by simp
    have "prepare_from sha root t 0 [] plan w = (Inr (Inr (), ps), w1)" using q s(1) Inr by simp
    with d(1) have "x = Inr () \<longrightarrow> (\<exists>w1. prepare_from sha root t 0 [] plan w = (Inr (Inr (), ps), w1) \<and> disk w' = disk w1)"
      by blast
    with names r(1) \<open>\<forall>l. l \<notin> temp_at ` set ps \<longrightarrow> w_links w' l = w_links w l\<close> show ?thesis by blast
  qed
qed

lemma becomes_ready:
  assumes marker: "create_marker root plan t w = (Inr m, w1)" and prepare: "prepare_changes sha root plan t w1 = (Inr (Inr (), ps), w2)"
    and w: "well_linked w" "unused (rt_fd root) t w" "directory_tree w" "application_root w path = Some (rt_fd root)"
    and plan: "names_apart t plan"
  shows "ready sha (rt_fd root) t m plan w ps w2"
proof -
  let ?r = "rt_fd root"
  note m = create_marker_Inr [OF marker]
  from prepare_changes_runs [OF prepare] obtain w1' where from_run: "prepare_from sha root t 0 [] plan w1 = (Inr (Inr (), ps), w1')"
      and d: "disk w2 = disk w1'" and links: "\<And>l. l \<notin> temp_at ` set ps \<Longrightarrow> w_links w2 l = w_links w1 l"
      and orig: "\<And>p. p \<in> set ps \<Longrightarrow> has_original p \<and> pp_published p = False"
    by auto
  note d = disk_eqD [OF d]
  have start: "extends ?r t w w1"
    using m w(2) by (auto simp: extends_def unused_def own_entries_def)
  have apart: "(d, last (segments (pc_path c))) \<notin> own_entries ?r t"
    if "c \<in> set plan" "resolve w ?r (butlast (segments (pc_path c))) = Some d" for c d
    using targets_apart [OF plan w(3,4)] that .
  from prepare_from_established [OF from_run start w(1,2) apart]
  have est: "extends ?r t w w1'" "length ps = length plan"
    "\<And>k. k < length plan \<Longrightarrow> prepared_for sha ?r t k (plan ! k) w (ps ! k) \<and> staged_in w w1' (plan ! k) (ps ! k)"
    by auto
  have all: "prepared_all sha ?r t plan w ps"
    using est(2,3) by (auto simp: prepared_all_def list_all2_conv_all_nth)
  have "staged_in w w2 = staged_in w w1'" by (intro ext) (simp add: staged_in_def d split: option.split)
  then have staged: "list_all2 (staged_in w w2) plan ps"
    using est(2,3) by (simp add: list_all2_conv_all_nth)
  have temp: "pp_temp_name (ps ! k) = temp_name t k" if "k < length ps" for k
    using est(2,3) that by (simp add: prepared_for_def)
  have own: "temp_at p \<in> own_entries ?r t" "temp_at p \<noteq> (?r, MUTATION_MARKER)" if "p \<in> set ps" for p
    using that temp not_probe(2) [symmetric] by (auto simp: in_set_conv_nth intro: temp_own)
  have target: "target_at p \<notin> own_entries ?r t" if p: "p \<in> set ps" for p
  proof -
    obtain k where k: "k < length plan" "p = ps ! k" using p est(2) by (auto simp: in_set_conv_nth)
    with est(3) [OF k(1)] have "resolve w ?r (butlast (segments (pc_path (plan ! k)))) = Some (pp_parent p)"
      "pp_name p = last (segments (pc_path (plan ! k)))" by (simp_all add: prepared_for_def)
    with apart [of "plan ! k"] k(1) show ?thesis by simp
  qed
  have "w_next w \<le> w_next w1" using m by simp
  then have fresh: "\<forall>p \<in> set ps. fresh_staged (w_next w) p"
    using prepare_from_fresh [OF from_run] by simp
  have "misses (temp_at (ps ! i)) (ps ! j)" if "i < j" "j < length ps" for i j
  proof -
    have "temp_at (ps ! i) \<noteq> target_at (ps ! j)" using own(1) target that by (metis less_trans nth_mem)
    moreover have "pp_temp_name (ps ! i) \<noteq> pp_temp_name (ps ! j)" using that temp by (simp add: temp_name_inj)
    ultimately show ?thesis by (simp add: misses_def)
  qed
  then have "sorted_wrt (\<lambda>p q. misses (temp_at p) q) ps" by (simp add: sorted_wrt_iff_nth_less)
  moreover have "w_next w \<le> w_next w2" using est(1) d by (simp add: extends_def)
  ultimately show ?thesis
    using all staged own target fresh orig links m unfolding ready_def by simp
qed

section \<open>The end of the publication loop\<close>

lemma undo_mark: "undo_links (mark p) = undo_links p"
  by (simp add: undo_links_def fun_eq_iff)

lemma fold_undo_mark: "fold undo_links (map mark ps) = fold undo_links ps"
  by (simp add: fold_map comp_def undo_mark)

lemma published_marks:
  "(\<And>p. p \<in> set (pub @ unpub) \<Longrightarrow> pp_published p = False) \<Longrightarrow> filter pp_published (rev (map mark pub @ unpub)) = map mark (rev pub)"
  by (auto simp: filter_empty_conv rev_map filter_id_conv)

lemma step_takes_temp:
  assumes "publish_step sha root m (\<lambda>_. ret ()) i p w = (Inr u, w')" "pp_operation p = Create" "target_at p \<noteq> temp_at p"
  shows "w_links w' (temp_at p) = None"
  using publish_step_runs [OF assms(1)] assms(2,3) by (simp add: publish_links_def)

lemma publish_from_creates:
  assumes "publish_from sha root m (\<lambda>_. ret ()) i fin rest w = (Inr (Inr (), out), w')"
    and "sorted_wrt (\<lambda>p q. misses (temp_at p) q) rest" "\<And>p. p \<in> set rest \<Longrightarrow> target_at p \<noteq> temp_at p"
    and "p \<in> set rest" "pp_operation p = Create"
  shows "w_links w' (temp_at p) = None"
  using assms
proof (induction rest arbitrary: i fin w)
  case (Cons q rest)
  obtain x w1 where x: "publish_step sha root m (\<lambda>_. ret ()) i q w = (x, w1)" by fastforce
  obtain u where u: "x = Inr u"
    using Cons.prems(1) x by (cases x) (auto simp: bindE_def attempt_def ret_def)
  obtain y w2 where y: "settle_step sha root m (\<lambda>_. ret ()) i (mark q) w1 = (y, w2)" by fastforce
  have "\<exists>u'. y = Inr u'"
    using Cons.prems(1) x u y by (cases y) (auto simp: bindE_def attempt_def ret_def Let_def)
  then have rest: "publish_from sha root m (\<lambda>_. ret ()) (i + 1) (fin @ [mark q]) rest w2 = (Inr (Inr (), out), w')"
    using Cons.prems(1) x u y by (auto simp del: run_ret simp: bindE_def attempt_def Let_def)
  show ?case
  proof (cases "p \<in> set rest")
    case True
    with Cons.IH [OF rest] Cons.prems show ?thesis by simp
  next
    case False
    with Cons.prems(4) have p: "p = q" by simp
    have "w_links w1 (temp_at p) = None"
      using step_takes_temp [OF x [unfolded u]] Cons.prems(3,5) p by simp
    moreover have "w_links w2 = w_links w1" using settle_step_links y by (rule fixes_run)
    moreover have "spares (temp_at p) (publish_from sha root m (\<lambda>_. ret ()) (i + 1) (fin @ [mark q]) rest)"
      using Cons.prems(2) p by (intro spares_publish_from) simp
    then have "w_links w' (temp_at p) = w_links w2 (temp_at p)" using rest by (rule fixes_run)
    ultimately show ?thesis by simp
  qed
qed simp

lemma publish_changes_runs:
  assumes ready: "ready sha (rt_fd root) t m plan w ps v" and run: "publish_changes sha root mk (\<lambda>_. ret ()) t ps v = (q, v')"
  shows "\<exists>res out. q = Inr (res, out) \<and> temp_at ` set out = temp_at ` set ps \<and>
    (\<forall>p \<in> set out. misses (rt_fd root, MUTATION_MARKER) p) \<and>
    (\<forall>e l. res = Inl e \<longrightarrow> me_kind e \<noteq> RecoveryRequired \<longrightarrow> l \<notin> temp_at ` set ps \<longrightarrow>
       fold undo_links (filter pp_published (rev out)) (w_links v') l = w_links v l) \<and>
    (res = Inr () \<longrightarrow> out = map mark ps \<and> (\<forall>l. l \<notin> temp_at ` set ps \<longrightarrow> w_links v' l = fold apply_links ps (w_links v) l) \<and>
       (\<forall>p \<in> set ps. pp_operation p = Create \<longrightarrow> w_links v' (temp_at p) = None))"
proof -
  let ?miss = "misses (rt_fd root, MUTATION_MARKER)"
  have miss: "\<forall>p \<in> set ps. ?miss p" using misses_marker [OF ready] by blast
  have unpub: "pp_published p = False" "pp_operation p \<noteq> Create \<longleftrightarrow> pp_original p \<noteq> None" if "p \<in> set ps" for p
    using readyD(6) [OF ready that] by (auto simp: has_original_def)
  obtain x v1 where x: "publication_preflight sha root mk (\<lambda>_. ret ()) t ps v = (x, v1)" by fastforce
  show ?thesis
  proof (cases x)
    case (Inl e)
    then have q: "q = Inr (Inl e, ps)" "v' = v1"
      using run x by (auto simp: publish_changes_def bindE_def attempt_def ret_def)
    have "filter pp_published (rev ps) = []" using unpub(1) by (simp add: filter_empty_conv)
    moreover have "me_kind e = RecoveryRequired \<or> w_links v1 = w_links v"
      using tidyD [OF neutral_tidy [OF publication_preflight_neutral] x [unfolded Inl]] .
    ultimately show ?thesis using q miss by auto
  next
    case (Inr u)
    have l1: "w_links v1 = w_links v" using neutral_Inr [OF publication_preflight_neutral x [unfolded Inr]] .
    obtain y v2 where y: "publish_from sha root mk (\<lambda>_. ret ()) 0 [] ps v1 = (y, v2)" by fastforce
    from publish_from_runs [OF y unpub(2), unfolded append_Nil] obtain res pub rest where p: "y = Inr (res, map mark pub @ rest)" "ps = pub @ rest"
      "\<And>l. l \<notin> temp_at ` set ps \<Longrightarrow> fold undo_links (rev pub) (w_links v2) l = w_links v1 l"
      "res = Inr () \<Longrightarrow> rest = []" "\<And>l. res = Inr () \<Longrightarrow> l \<notin> temp_at ` set ps \<Longrightarrow> w_links v2 l = fold apply_links pub (w_links v1) l"
      by blast
    let ?out = "map mark pub @ rest"
    have "filter pp_published (rev ?out) = map mark (rev pub)" using unpub(1) p(2) by (intro published_marks) auto
    then have undo: "fold undo_links (filter pp_published (rev ?out)) (w_links v2) l = w_links v l" if "l \<notin> temp_at ` set ps" for l
      using p(3) [OF that] l1 by (simp add: fold_undo_mark)
    have same: "temp_at ` set ?out = temp_at ` set ps" "\<forall>p \<in> set ?out. ?miss p"
      using p(2) miss by (auto simp: misses_def image_Un image_image)
    show ?thesis
    proof (cases res)
      case Inl': (Inl e)
      then have "q = Inr (Inl e, ?out)" "v' = v2"
        using run x y Inr p(1) by (auto simp: publish_changes_def bindE_def attempt_def ret_def)
      then show ?thesis using same undo by auto
    next
      case Inr': (Inr u')
      let ?checks = "seqE (verify_namespace root) (seqE (verify_marker root mk) (verify_all_parent_namespaces root ?out))"
      obtain z v3 where z: "?checks v2 = (z, v3)" by fastforce
      have q: "q = Inr (z, ?out)" "v' = v3"
        using run x y Inr Inr' p(1) z by (simp_all add: publish_changes_def bindE_def attempt_def ret_def)
      have "reads ?checks" by (intro steps_intros)
      then have "disk v3 = disk v2" using z by (rule fixes_run)
      then have l3: "w_links v' = w_links v2" using q(2) by (auto dest: disk_eqD)
      have rest: "rest = []" "pub = ps" using p(2,4) Inr' by simp_all
      have apart: "target_at p \<noteq> temp_at p" if "p \<in> set ps" for p using readyD(5) [OF ready that] by metis
      have y': "publish_from sha root mk (\<lambda>_. ret ()) 0 [] ps v1 = (Inr (Inr (), map mark pub @ rest), v2)"
        using y p(1) Inr' by simp
      have "\<forall>p \<in> set ps. pp_operation p = Create \<longrightarrow> w_links v2 (temp_at p) = None"
        using publish_from_creates [OF y' readyD(7) [OF ready] apart] by blast
      then show ?thesis
        using q(1) same undo l3 rest p(5) Inr' l1 by auto
    qed
  qed
qed

section \<open>After the publication loop\<close>

lemma for_each_runs:
  assumes "for_each m xs w = (Inr u, w')"
    and "\<And>x v u v'. x \<in> set xs \<Longrightarrow> m x v = (Inr u, v') \<Longrightarrow> w_links v' = f x (w_links v)"
  shows "w_links w' = fold f xs (w_links w)"
  using assms
proof (induction xs arbitrary: w)
  case (Cons x xs)
  then obtain y w1 where "m x w = (Inr y, w1)" "for_each m xs w1 = (Inr u, w')" by (auto simp: exec_simps)
  then show ?case using Cons.IH [of w1] Cons.prems(2) by (metis comp_apply fold_Cons list.set_intros)
qed (simp add: ret_def)

lemma for_each_Inl:
  assumes "for_each m xs w = (Inl e, w')" "\<And>x v v'. x \<in> set xs \<Longrightarrow> m x v = (Inl e, v') \<Longrightarrow> P"
  shows P
  using assms
proof (induction xs arbitrary: w)
  case (Cons x xs)
  then show ?case by (auto simp: seqE_Inl_iff)
qed (simp add: ret_def)

definition take_backup :: "prepared_change \<Rightarrow> (location \<Rightarrow> inode option) \<Rightarrow> location \<Rightarrow> inode option" where
  "take_backup p L = (if pp_operation p = Create then L else L(temp_at p := None))"

lemma fold_take_backup:
  assumes "\<forall>p \<in> set ps. pp_operation p = Create \<longrightarrow> L (temp_at p) = None"
  shows "fold take_backup ps L = clear_temps ps L"
  using assms
proof (induction ps arbitrary: L)
  case (Cons p ps)
  have t: "take_backup p L l = (if l = temp_at p then None else L l)" for l
    using Cons.prems by (auto simp: take_backup_def)
  then have "fold take_backup ps (take_backup p L) = clear_temps ps (take_backup p L)"
    using Cons.prems by (intro Cons.IH) auto
  then show ?case using t by (auto simp: clear_temps_def)
qed (simp add: clear_temps_def fun_eq_iff)

abbreviation drop_backup :: "prepared_change \<Rightarrow> unit mutation" where
  "drop_backup p \<equiv> whenE (pp_operation p \<in> {Edit, Retire}) (remove_backup p)"

lemma drop_backup_Inr: "drop_backup p w = (Inr u, w') \<Longrightarrow> w_links w' = take_backup p (w_links w)"
  by (cases "pp_operation p") (auto simp: whenE_def take_backup_def ret_def dest: remove_backup_runs)

lemma drop_backup_Inl: "drop_backup p w = (Inl e, w') \<Longrightarrow> me_kind e = RecoveryRequired"
  by (auto simp: whenE_def ret_def remove_backup_def exec_simps mutation_error_at_def split: if_splits)

lemma sync_parents_Inl:
  "sync_parents_from seen ps w = (Inl e, w') \<Longrightarrow> me_kind e = PublicationFailed \<or> me_kind e = UnsafeRoot"
proof (induction seen ps arbitrary: w rule: sync_parents_from.induct)
  case (2 seen p rest)
  then show ?case
    by (auto simp: exec_simps directory_identity_def sync_directory_def mutation_error_def split: if_splits)
qed (simp add: ret_def)

lemma finish_runs:
  assumes run: "finish_publication root mk (map mark ps) w = (q, w')"
    and none: "\<forall>p \<in> set ps. pp_operation p = Create \<longrightarrow> w_links w (temp_at p) = None"
    and miss: "\<forall>p \<in> set ps. misses (rt_fd root, MUTATION_MARKER) p"
  shows "(\<forall>n. q = Inr n \<longrightarrow> n = length ps) \<and> (\<forall>e. q = Inl e \<longrightarrow> me_kind e \<in> {RecoveryRequired, PublicationFailed, UnsafeRoot}) \<and>
    (w_links w' = (clear_temps ps (w_links w))((rt_fd root, MUTATION_MARKER) := None) \<and>
       (\<forall>e. q = Inl e \<longrightarrow> me_kind e = RecoveryRequired) \<or>
     isl q \<and> w_links w' (rt_fd root, MUTATION_MARKER) = w_links w (rt_fd root, MUTATION_MARKER) \<and>
       (w_links w' = clear_temps ps (w_links w) \<or> (\<exists>e. q = Inl e \<and> me_kind e = RecoveryRequired)))"
proof -
  let ?l = "(rt_fd root, MUTATION_MARKER)"
  obtain a w1 where a: "for_each drop_backup (map mark ps) w = (a, w1)" by fastforce
  have "spares ?l (for_each drop_backup (map mark ps))"
  proof (rule spares_for_each)
    fix p
    assume "p \<in> set (map mark ps)"
    then have "?l \<noteq> temp_at p" using miss by (auto simp: misses_def)
    then show "spares ?l (drop_backup p)" by (intro fixed.steps_whenE spares_remove_temp)
  qed
  then have k1: "w_links w1 ?l = w_links w ?l" using a by (rule fixes_run)
  show ?thesis
  proof (cases a)
    case (Inl e)
    then have q: "q = Inl e" "w' = w1" using run a by (simp_all add: finish_publication_def seqE_def bindE_def)
    have "me_kind e = RecoveryRequired" using a [unfolded Inl] by (rule for_each_Inl) (rule drop_backup_Inl)
    then show ?thesis using q k1 by simp
  next
    case (Inr u)
    have "w_links w1 = fold take_backup (map mark ps) (w_links w)"
      using a [unfolded Inr] by (rule for_each_runs) (rule drop_backup_Inr)
    also have "\<dots> = clear_temps (map mark ps) (w_links w)" using none by (intro fold_take_backup) simp
    finally have l1: "w_links w1 = clear_temps ps (w_links w)" by (simp add: clear_temps_def image_image fun_eq_iff)
    obtain b w2 where b: "sync_unique_parents (map mark ps) w1 = (b, w2)" by fastforce
    have "disk w2 = disk w1" using reads_sync_unique b by (rule fixes_run)
    then have l2: "w_links w2 = w_links w1" by (auto dest: disk_eqD)
    show ?thesis
    proof (cases b)
      case Inl': (Inl e)
      then have q: "q = Inl e" "w' = w2"
        using run a b Inr by (simp_all add: finish_publication_def seqE_def bindE_def)
      have "me_kind e \<in> {PublicationFailed, UnsafeRoot}"
        using b Inl' sync_parents_Inl by (fastforce simp: sync_unique_parents_def)
      then show ?thesis using q l1 l2 k1 by auto
    next
      case Inr': (Inr u')
      obtain c w3 where c: "remove_marker root mk w2 = (c, w3)" by fastforce
      show ?thesis
      proof (cases c)
        case Inl'': (Inl e)
        then have q: "\<exists>e'. q = Inl e' \<and> me_kind e' = RecoveryRequired" "w' = w3"
          using run a b c Inr Inr' by (auto simp: finish_publication_def seqE_def bindE_def map_err_def mutation_error_def)
        have "disk w3 = disk w2" using remove_marker_runs(2) c Inl'' by blast
        then have "w_links w3 = w_links w2" by (auto dest: disk_eqD)
        then show ?thesis using q l1 l2 k1 by auto
      next
        case Inr'': (Inr u'')
        obtain d w4 where d: "sync_directory (rt_fd root) w3 = (d, w4)" by fastforce
        have q: "w' = w4" "\<forall>n. q = Inr n \<longrightarrow> n = length ps" "\<forall>e. q = Inl e \<longrightarrow> me_kind e = RecoveryRequired"
          using run a b c d Inr Inr' Inr''
          by (cases d; auto simp: finish_publication_def seqE_def bindE_def map_err_def mutation_error_def ret_def)+
        have "disk w4 = disk w3" using d by (rule sync_directory_disk)
        then have "w_links w4 = w_links w3" by (auto dest: disk_eqD)
        moreover have "w_links w3 = (w_links w2)(?l := None)" using remove_marker_runs(1) c Inr'' by blast
        ultimately show ?thesis using q l1 l2 by simp
      qed
    qed
  qed
qed

lemma create_marker_Inl:
  assumes "create_marker root plan t w = (Inl e, w')"
  shows "w_links w' = w_links w \<and> me_kind e \<in> {RecoveryRequired, PublicationFailed} \<or>
    w_links w' (rt_fd root, MUTATION_MARKER) \<noteq> None \<and> me_kind e = RecoveryRequired"
proof -
  obtain a w1 where a: "sys_create (rt_fd root) MUTATION_MARKER PRIVATE_MODE w = (a, w1)" by fastforce
  show ?thesis
  proof (cases a)
    case (Inl x)
    then have "w' = w1" "me_kind e \<in> {RecoveryRequired, PublicationFailed}"
      using assms a by (auto simp: create_marker_def bindE_def map_err_def mutation_error_def split: errno.splits)
    moreover have "disk w1 = disk w" using refused(4) a Inl by blast
    ultimately show ?thesis by (auto dest: disk_eqD)
  next
    case (Inr f)
    let ?rest = "bindE (or_fail (sys_metadata f)
       (mutation_error RecoveryRequired ''cannot inspect the private mutation marker; manual recovery is required'')) (\<lambda>metadata.
     seqE (or_fail (sys_write f (marker_manifest t plan))
       (mutation_error RecoveryRequired ''cannot write the private mutation marker; inspect it before another mutation''))
     (seqE (or_fail (sys_sync f)
       (mutation_error RecoveryRequired ''cannot make the mutation marker durable; inspect it before another mutation''))
     (seqE (map_err (\<lambda>_. mutation_error RecoveryRequired
         ''cannot make the mutation marker durable; inspect it before another mutation'') (sync_directory (rt_fd root)))
     (ret (fst metadata)))))"
    have r: "?rest w1 = (Inl e, w')" using assms a Inr by (simp add: create_marker_def bindE_def map_err_def)
    then have "me_kind e = RecoveryRequired" by (auto simp: exec_simps mutation_error_def)
    moreover have "steps (fixing w_links) ?rest" by (intro steps_intros links_of_disk)
    then have "w_links w' = w_links w1" using r by (rule fixes_run)
    ultimately show ?thesis using create_Inr [OF a [unfolded Inr]] by simp
  qed
qed

section \<open>A whole publication\<close>

definition untouched :: "world \<Rightarrow> world \<Rightarrow> bool" where
  "untouched w w' \<longleftrightarrow> w_links w' = w_links w \<and> (\<forall>i < w_next w. w_nodes w' i = w_nodes w i)"

definition marker_present :: "inode \<Rightarrow> world \<Rightarrow> bool" where
  "marker_present r w \<longleftrightarrow> w_links w (r, MUTATION_MARKER) \<noteq> None"

definition without_marker :: "inode \<Rightarrow> world \<Rightarrow> world" where
  "without_marker r w = w\<lparr> w_links := (w_links w)((r, MUTATION_MARKER) := None) \<rparr>"

lemma without_marker_absent: "\<not> marker_present r w \<Longrightarrow> without_marker r w = w"
  by (simp add: without_marker_def marker_present_def fun_upd_idem)

lemma olderD: "older n s s' \<Longrightarrow> n \<le> w_next s \<Longrightarrow> n \<le> w_next s' \<and> (\<forall>i < n. w_nodes s' i = w_nodes s i)"
  by (simp add: older_def)

lemma staged_kept: "staged_in w v c p \<Longrightarrow> contents_kept (w_next v) v v' \<Longrightarrow> staged_in w v' c p"
  unfolding staged_in_def contents_kept_def by (fastforce split: option.splits)

lemma finished_applied:
  assumes ready: "ready sha r t m plan w ps v" and unused: "unused r t w"
    and l4: "\<And>l. l \<notin> temp_at ` set ps \<Longrightarrow> w_links v' l = fold apply_links ps (w_links v) l"
    and l5: "\<And>l. l \<noteq> (r, MUTATION_MARKER) \<Longrightarrow> w_links u l = clear_temps ps (w_links v') l"
    and kept: "contents_kept (w_next v) v u" "\<forall>i < w_next w. w_nodes u i = w_nodes w i"
  shows "applied r t plan ps w (without_marker r u)"
proof -
  let ?x = "without_marker r u" and ?marker = "(r, MUTATION_MARKER)" and ?temps = "temp_at ` set ps"
  have x: "w_nodes ?x = w_nodes u" "w_next ?x = w_next u" "w_links ?x = (w_links u)(?marker := None)"
    by (simp_all add: without_marker_def)
  have v: "w_links v l = w_links w l" if "l \<notin> insert ?marker ?temps" for l
    using readyD(4) [OF ready, of l] that by (simp split: if_splits)
  have own: "?temps \<subseteq> own_entries r t" "\<And>l. l \<in> own_entries r t \<Longrightarrow> l \<notin> target_at ` set ps"
    using readyD(5) [OF ready] by blast+
  have "w_links ?x l = fold apply_links ps (w_links w) l" if l: "l \<notin> own_entries r t" for l
  proof -
    have n: "l \<notin> insert ?marker ?temps" using l own(1) marker_own [of r t] by blast
    then have "w_links ?x l = fold apply_links ps (w_links v) l"
      using l4 [of l] l5 [of l] x(3) by (simp add: clear_temps_def)
    also have "\<dots> = fold apply_links ps (w_links w) l" using apply_agree [OF v n] .
    finally show ?thesis .
  qed
  moreover have "unused r t ?x"
    unfolding unused_def
  proof
    fix l
    assume l: "l \<in> own_entries r t"
    show "w_links ?x l = None"
    proof (cases "l \<in> insert ?marker ?temps")
      case True
      then show ?thesis using l5 [of l] x(3) by (auto simp: clear_temps_def)
    next
      case False
      then have "w_links ?x l = fold apply_links ps (w_links v) l"
        using l4 [of l] l5 [of l] x(3) by (simp add: clear_temps_def)
      also have "\<dots> = w_links v l" using apply_elsewhere [OF own(2) [OF l]] .
      also have "\<dots> = None" using v [OF False] unused l by (simp add: unused_def)
      finally show ?thesis .
    qed
  qed
  moreover have "list_all2 (staged_in w ?x) plan ps"
    using readyD(2) [OF ready]
  proof (rule list_all2_mono)
    fix c p
    assume "staged_in w v c p"
    from staged_kept [OF this kept(1)] show "staged_in w ?x c p"
      unfolding staged_in_def x .
  qed
  ultimately show ?thesis using kept(2) unfolding applied_def x(1) by simp
qed

text \<open>The three ways a publication ends.\<close>

inductive ends :: "inode \<Rightarrow> bool \<Rightarrow> world \<Rightarrow> mutation_error + nat \<Rightarrow> nat \<Rightarrow> world \<Rightarrow> bool"
  for r fin w q n w' where
  ends_untouched: "isl q \<Longrightarrow> w_links w' = w_links w \<Longrightarrow> ends r fin w q n w'"
| ends_stopped: "q = Inl e \<Longrightarrow> me_kind e \<in> {RecoveryRequired, RollbackIncomplete} \<Longrightarrow> marker_present r w' \<Longrightarrow> ends r fin w q n w'"
| ends_clean: "fin \<Longrightarrow> \<not> marker_present r w' \<Longrightarrow> q = Inr n \<or> (\<exists>e. q = Inl e \<and> me_kind e = RecoveryRequired) \<Longrightarrow> ends r fin w q n w'"
| ends_unsynced: "fin \<Longrightarrow> marker_present r w' \<Longrightarrow> q = Inl e \<Longrightarrow> me_kind e \<in> {PublicationFailed, UnsafeRoot} \<Longrightarrow> ends r fin w q n w'"


definition finished ::
    "(content \<Rightarrow> content_digest) \<Rightarrow> inode \<Rightarrow> string \<Rightarrow> change_plan \<Rightarrow> world \<Rightarrow> world \<Rightarrow> bool" where
  "finished sha r t plan w w' \<longleftrightarrow>
     (\<exists>ps. prepared_all sha r t plan w ps \<and> applied r t plan ps w (without_marker r w') \<and>
       (\<forall>p \<in> set ps. target_at p \<notin> own_entries r t))"

lemma prepared_end:
  assumes ready: "ready sha (rt_fd root) t m plan w ps v" and unused: "unused (rt_fd root) t w"
    and publish: "publish_changes sha root m (\<lambda>_. ret ()) t ps v = (Inr (res, out), v1)"
    and run: "(case res of Inl e \<Rightarrow> rollback_or_report sha root m out e | Inr _ \<Rightarrow> finish_publication root m out) v1 = (q, w')"
    and nodes: "\<forall>i < w_next w. w_nodes v i = w_nodes w i"
  shows "ends (rt_fd root) (finished sha (rt_fd root) t plan w w') w q (length plan) w' \<and>
    (\<forall>i < w_next w. w_nodes w' i = w_nodes w i)"
proof -
  let ?r = "rt_fd root" and ?marker = "(rt_fd root, MUTATION_MARKER)" and ?temps = "temp_at ` set ps"
  have out: "?temps = temp_at ` set out" "\<forall>p \<in> set out. misses ?marker p"
    and err: "\<And>e l. res = Inl e \<Longrightarrow> me_kind e \<noteq> RecoveryRequired \<Longrightarrow> l \<notin> ?temps \<Longrightarrow>
       fold undo_links (filter pp_published (rev out)) (w_links v1) l = w_links v l"
    and ok: "res = Inr () \<Longrightarrow> out = map mark ps" "\<And>l. res = Inr () \<Longrightarrow> l \<notin> ?temps \<Longrightarrow> w_links v1 l = fold apply_links ps (w_links v) l"
      "res = Inr () \<Longrightarrow> \<forall>p \<in> set ps. pp_operation p = Create \<longrightarrow> w_links v1 (temp_at p) = None"
    using publish_changes_runs [OF ready publish] by auto
  have fresh: "\<And>p. p \<in> set ps \<Longrightarrow> fresh_staged (w_next w) p" using readyD(6) [OF ready] by blast
  have le: "w_next w \<le> w_next v" by (rule readyD(3) [OF ready])
  have o1: "older (w_next w) v v1" using older_publish_changes [OF fresh] publish by (rule stepsD)
  have c1: "contents_kept (w_next v) v v1" using contents_publish_changes publish by (rule stepsD)
  have spare: "spares ?marker (publish_changes sha root m (\<lambda>_. ret ()) t ps)"
    using misses_marker [OF ready] by (intro spares_publish_changes)
  have "?marker \<notin> ?temps" using misses_marker [OF ready] by (auto simp: misses_def)
  then have vm: "w_links v ?marker = Some m" using readyD(4) [OF ready] by simp
  have m1: "w_links v1 ?marker = Some m" using fixes_run [OF spare publish] vm by simp
  show ?thesis
  proof (cases res)
    case (Inl e)
    then have run: "rollback_or_report sha root m out e v1 = (q, w')" using run by simp
    have "older (w_next w) v1 w'" using older.ir_ends(1) run by (rule stepsD)
    then have "\<forall>i < w_next w. w_nodes w' i = w_nodes w i"
      using olderD [OF older.rel_trans [OF o1] le] nodes by simp
    moreover from rollback_runs [OF run] out(2) consider
        (undone) "q = Inl e" "me_kind e \<noteq> RecoveryRequired"
          "w_links w' = (clear_temps out (fold undo_links (filter pp_published (rev out)) (w_links v1)))(?marker := None)"
      | (stuck) e' where "w_links w' ?marker = w_links v1 ?marker" "q = Inl e'" "me_kind e' \<in> {RecoveryRequired, RollbackIncomplete}"
      by blast
    then have "ends ?r (finished sha ?r t plan w w') w q (length plan) w'"
    proof cases
      case undone
      have "w_links w' l = w_links w l" for l
      proof (cases "l \<in> insert ?marker ?temps")
        case True
        then have "l \<in> own_entries ?r t" using readyD(5) [OF ready] marker_own by blast
        then have "w_links w l = None" using unused by (simp add: unused_def)
        then show ?thesis using True undone(3) out(1) by (auto simp: clear_temps_def)
      next
        case False
        then have "w_links w' l = w_links v l"
          using undone(3) out(1) err [OF Inl undone(2)] by (simp add: clear_temps_def)
        then show ?thesis using readyD(4) [OF ready, of l] False by (simp split: if_splits)
      qed
      then show ?thesis using undone(1) by (intro ends_untouched) (auto simp: fun_eq_iff)
    next
      case stuck
      then show ?thesis using m1 by (intro ends_stopped) (simp_all add: marker_present_def)
    qed
    ultimately show ?thesis by blast
  next
    case (Inr u)
    then have res: "res = Inr ()" by simp
    have run: "finish_publication root m (map mark ps) v1 = (q, w')" using run res ok(1) by simp
    have "older (w_next w) v1 w'" using older.ir_finish run by (rule stepsD)
    then have nodes': "\<forall>i < w_next w. w_nodes w' i = w_nodes w i"
      using olderD [OF older.rel_trans [OF o1] le] nodes by simp
    have "contents_kept (w_next v) v1 w'" using contents.ir_finish run by (rule stepsD)
    with c1 have kept: "contents_kept (w_next v) v w'" by (rule contents.rel_trans)
    have miss: "\<forall>p \<in> set ps. misses ?marker p" using misses_marker [OF ready] by blast
    have fin: "finished sha ?r t plan w w'"
      if "\<And>l. l \<noteq> ?marker \<Longrightarrow> w_links w' l = clear_temps ps (w_links v1) l"
      using finished_applied [OF ready unused ok(2) [OF res] that kept nodes'] readyD(1,5) [OF ready]
      unfolding finished_def by blast
    have len: "length ps = length plan" using readyD(2) [OF ready] by (simp add: list_all2_lengthD)
    note f = finish_runs [OF run ok(3) [OF res] miss, unfolded len]
    from f consider
        (clean) "w_links w' = (clear_temps ps (w_links v1))(?marker := None)" "\<And>n. q = Inr n \<Longrightarrow> n = length plan"
          "\<And>e. q = Inl e \<Longrightarrow> me_kind e = RecoveryRequired"
      | (unsynced) e where "q = Inl e" "me_kind e \<in> {PublicationFailed, UnsafeRoot}" "w_links w' ?marker = Some m"
          "w_links w' = clear_temps ps (w_links v1)"
      | (stuck) e where "q = Inl e" "me_kind e = RecoveryRequired" "w_links w' ?marker = Some m"
      using m1 by (cases q) auto
    then have "ends ?r (finished sha ?r t plan w w') w q (length plan) w'"
    proof cases
      case clean
      have "finished sha ?r t plan w w'" by (rule fin) (simp add: clean(1))
      moreover have "q = Inr (length plan) \<or> (\<exists>e. q = Inl e \<and> me_kind e = RecoveryRequired)" using clean(2,3) by (cases q) auto
      ultimately show ?thesis using clean(1) by (intro ends_clean) (auto simp: marker_present_def)
    next
      case unsynced
      have "finished sha ?r t plan w w'" by (rule fin) (simp add: unsynced(4))
      then show ?thesis using unsynced by (intro ends_unsynced) (auto simp: marker_present_def)
    next
      case stuck
      then show ?thesis by (intro ends_stopped) (auto simp: marker_present_def)
    qed
    then show ?thesis using nodes' by blast
  qed
qed

text \<open>The part of \<^verbatim>\<open>publish_with\<close> that writes.\<close>

definition transaction ::
    "(content \<Rightarrow> content_digest) \<Rightarrow> root \<Rightarrow> change_plan \<Rightarrow> string \<Rightarrow> nat mutation" where
  "transaction sha root plan t =
     bindE (create_marker root plan t) (\<lambda>marker.
      bindE (prepare_changes sha root plan t) (\<lambda>(r, prepared).
      case r of
        Inl error \<Rightarrow> cleanup_before_publication root marker prepared error
      | Inr _ \<Rightarrow>
          bindE (publish_changes sha root marker (\<lambda>_. ret ()) t prepared) (\<lambda>(r, prepared).
          case r of
            Inl error \<Rightarrow> rollback_or_report sha root marker prepared error
          | Inr _ \<Rightarrow> finish_publication root marker prepared)))"

lemma transaction_ends:
  assumes run: "transaction sha root plan t w = (q, w')"
    and w: "well_linked w" "unused (rt_fd root) t w" "directory_tree w" "application_root w path = Some (rt_fd root)"
    and plan: "names_apart t plan"
  shows "ends (rt_fd root) (finished sha (rt_fd root) t plan w w') w q (length plan) w' \<and>
    (\<forall>i < w_next w. w_nodes w' i = w_nodes w i)"
proof -
  let ?r = "rt_fd root" and ?marker = "(rt_fd root, MUTATION_MARKER)"
  obtain a w1 where a: "create_marker root plan t w = (a, w1)" by fastforce
  have o1: "older (w_next w) w w1" using older_create_marker a by (rule stepsD)
  show ?thesis
  proof (cases a)
    case (Inl e)
    then have q: "q = Inl e" "w' = w1" using run a by (simp_all add: transaction_def bindE_def)
    from create_marker_Inl [OF a [unfolded Inl]] have "ends ?r (finished sha ?r t plan w w') w q (length plan) w'"
      using q by (auto simp: marker_present_def intro: ends_untouched ends_stopped)
    with olderD [OF o1] q show ?thesis by blast
  next
    case (Inr m)
    note m = create_marker_Inr [OF a [unfolded Inr]]
    obtain b w2 where b: "prepare_changes sha root plan t w1 = (b, w2)" by fastforce
    from prepare_changes_runs [OF b] obtain res ps where p: "b = Inr (res, ps)"
      "\<forall>p \<in> set ps. \<exists>i. pp_temp_name p = temp_name t i"
      "\<And>e l. res = Inl e \<Longrightarrow> me_kind e \<noteq> RecoveryRequired \<Longrightarrow> l \<notin> temp_at ` set ps \<Longrightarrow> w_links w2 l = w_links w1 l"
      by auto
    have "older (w_next w) w1 w2" using older_prepare_changes b by (rule stepsD)
    with o1 have o2: "older (w_next w) w w2" by (rule older.rel_trans)
    have own: "temp_at p \<in> own_entries ?r t" "?marker \<noteq> temp_at p" if "p \<in> set ps" for p
      using p(2) that not_probe(2) by (auto intro: temp_own)
    have m2: "w_links w2 ?marker = Some m"
      using fixes_run [OF spares_prepare(2) b] m by simp
    show ?thesis
    proof (cases res)
      case Inl': (Inl e)
      then have run: "cleanup_before_publication root m ps e w2 = (q, w')"
        using run a b Inr p(1) by (simp add: transaction_def bindE_def)
      have "older (w_next w) w2 w'" using older.ir_ends(2) run by (rule stepsD)
      with o2 have "older (w_next w) w w'" by (rule older.rel_trans)
      moreover from cleanup_runs [OF run own(2)] consider
          (undone) "q = Inl e" "me_kind e \<noteq> RecoveryRequired" "w_links w' = (clear_temps ps (w_links w2))(?marker := None)"
        | (stuck) e' where "w_links w' ?marker = w_links w2 ?marker" "q = Inl e'" "me_kind e' = RecoveryRequired"
        by blast
      then have "ends ?r (finished sha ?r t plan w w') w q (length plan) w'"
      proof cases
        case undone
        have "w_links w' l = w_links w l" for l
        proof (cases "l \<in> insert ?marker (temp_at ` set ps)")
          case True
          then have "l \<in> own_entries ?r t" using own(1) marker_own by blast
          then have "w_links w l = None" using w(2) by (simp add: unused_def)
          then show ?thesis using True undone(3) by (auto simp: clear_temps_def)
        next
          case False
          then show ?thesis using undone(3) p(3) [OF Inl' undone(2)] m by (simp add: clear_temps_def)
        qed
        then show ?thesis using undone(1) by (intro ends_untouched) (auto simp: fun_eq_iff)
      next
        case stuck
        then show ?thesis using m2 by (intro ends_stopped [where e = e']) (auto simp: marker_present_def)
      qed
      ultimately show ?thesis using olderD by blast
    next
      case Inr': (Inr u)
      have b': "prepare_changes sha root plan t w1 = (Inr (Inr (), ps), w2)" using b p(1) Inr' by simp
      have ready: "ready sha ?r t m plan w ps w2"
        using becomes_ready [OF a [unfolded Inr] b' w plan] .
      obtain c w3 where c: "publish_changes sha root m (\<lambda>_. ret ()) t ps w2 = (c, w3)" by fastforce
      obtain res' out where c': "c = Inr (res', out)" using publish_changes_runs [OF ready c] by blast
      have "(case res' of Inl e \<Rightarrow> rollback_or_report sha root m out e | Inr _ \<Rightarrow> finish_publication root m out) w3 = (q, w')"
        using run a Inr b' c c' by (simp add: transaction_def bindE_def)
      from prepared_end [OF ready w(2) c [unfolded c'] this] olderD [OF o2] show ?thesis by blast
    qed
  qed
qed


text \<open>The hypotheses of the guarantees: the root exists, directories form a tree, no entry points to an unused
  inode, and the names the transaction will use are free and not those of the plan.\<close>

definition fresh_transaction :: "string \<Rightarrow> change_plan \<Rightarrow> inode \<Rightarrow> string \<Rightarrow> world \<Rightarrow> bool" where
  "fresh_transaction path plan r t w \<longleftrightarrow>
     application_root w path = Some r \<and> transaction_of w = Some t \<and> directory_tree w \<and> well_linked w \<and>
     unused r t w \<and> (\<forall>c \<in> set plan. last (segments (pc_path c)) \<notin> temp_names t)"

lemma root_path_cong: "w_cwd w1 = w_cwd w \<Longrightarrow> root_path w1 p = root_path w p"
  by (simp add: root_path_def)

lemma fresh_cong:
  assumes "disk w1 = disk w" "origin w1 = origin w"
  shows "fresh_transaction path plan r t w1 \<longleftrightarrow> fresh_transaction path plan r t w"
    and "files_below w1 r = files_below w r"
proof -
  have d: "w_links w1 = w_links w" "w_nodes w1 = w_nodes w" "w_next w1 = w_next w" using disk_eqD [OF assms(1)] by auto
  have o: "w_pid w1 = w_pid w" "w_nanos w1 = w_nanos w" "w_slash w1 = w_slash w" "w_cwd w1 = w_cwd w"
    using assms(2) by (simp_all add: origin_def)
  have res: "resolve w1 e ns = resolve w e ns" for e ns by (rule resolve_disk [OF assms(1)])
  have "application_root w1 path = application_root w path"
    unfolding application_root_def root_path_cong [OF o(4)] res o(3) ..
  moreover have "transaction_of w1 = transaction_of w" by (simp add: transaction_of_def o)
  moreover have "directory_tree w1 = directory_tree w" unfolding directory_tree_def d o ..
  moreover have "well_linked w1 = well_linked w" unfolding well_linked_def d ..
  moreover have "unused r t w1 = unused r t w" unfolding unused_def d ..
  ultimately show "fresh_transaction path plan r t w1 \<longleftrightarrow> fresh_transaction path plan r t w"
    unfolding fresh_transaction_def by simp
  have "place w1 r p = place w r p" for p unfolding place_def res ..
  then show "files_below w1 r = files_below w r" unfolding files_below_def d by simp
qed

definition elsewhere_same :: "inode \<Rightarrow> change_plan \<Rightarrow> world \<Rightarrow> world \<Rightarrow> bool" where
  "elsewhere_same r plan w w' \<longleftrightarrow>
     (\<forall>l. l \<notin> {l. \<exists>c \<in> set plan. place w r (pc_path c) = Some l} \<longrightarrow> w_links w' l = w_links w l)"

lemma finished_files:
  assumes "finished sha r t plan w w'" "fresh_transaction path plan r t w" "plan_ok sha plan"
  shows "run_changes sha plan (files_below w r) = Some (files_below (without_marker r w') r)"
    and "elsewhere_same r plan w (without_marker r w')"
proof -
  obtain ps where ps: "prepared_all sha r t plan w ps" "applied r t plan ps w (without_marker r w')"
    "\<And>p. p \<in> set ps \<Longrightarrow> target_at p \<notin> own_entries r t"
    using assms(1) by (auto simp: finished_def)
  note f = assms(2) [unfolded fresh_transaction_def]
  show "run_changes sha plan (files_below w r) = Some (files_below (without_marker r w') r)"
    using f by (intro applied_files(1) [OF ps(2,1) assms(3) _ _ _ _ ps(3)]) blast+
  have "w_links (without_marker r w') l = w_links w l" if "\<nexists>c. c \<in> set plan \<and> place w r (pc_path c) = Some l" for l
  proof (cases "l \<in> own_entries r t")
    case True
    then show ?thesis using appliedD(2) [OF ps(2)] f by (simp add: unused_def)
  next
    case False
    have "l \<notin> target_at ` set ps"
    proof
      assume "l \<in> target_at ` set ps"
      from prepared_target [OF ps(1) this] that show False using prepared_place by metis
    qed
    then show ?thesis using appliedD(1) [OF ps(2) False] apply_elsewhere by simp
  qed
  then show "elsewhere_same r plan w (without_marker r w')" unfolding elsewhere_same_def by blast
qed

lemma publish_with_transaction:
  assumes "publish_with sha path plan (\<lambda>_. ret ()) w = (q, w')"
  shows "(isl q \<and> disk w' = disk w) \<or>
    (\<exists>root t w1. disk w1 = disk w \<and> origin w1 = origin w \<and> application_root w path = Some (rt_fd root) \<and>
       transaction_of w = Some t \<and> (\<forall>c \<in> set plan. pc_path c \<noteq> MUTATION_MARKER) \<and> transaction sha root plan t w1 = (q, w'))"
proof -
  obtain a w1 where a: "root_open path w = (a, w1)" by fastforce
  note o = root_open_runs [OF a]
  show ?thesis
  proof (cases a)
    case (Inl e)
    then show ?thesis using assms a o by (auto simp: publish_with_def bindE_def)
  next
    case (Inr root)
    let ?bad = "list_ex (\<lambda>change. pc_path change = MUTATION_MARKER) plan"
    obtain b where b: "transaction_id w1 = (b, w1)" "\<And>t. b = Inr t \<Longrightarrow> transaction_of w1 = Some t"
      using transaction_id_run [of w1] by (metis surj_pair)
    have "transaction_of w1 = transaction_of w" using o by (simp add: transaction_of_def origin_def)
    then have t: "b = Inr t \<Longrightarrow> transaction_of w = Some t" for t using b(2) by simp
    have "(isl q \<and> w' = w1) \<or> (\<exists>t. b = Inr t \<and> \<not> ?bad \<and> transaction sha root plan t w1 = (q, w'))"
      using assms a b(1) Inr
      by (cases b) (auto simp: publish_with_def transaction_def bindE_def seqE_def ensure_def throw_def split: if_splits)
    then show ?thesis using o Inr t by (auto simp: list_ex_iff)
  qed
qed

lemma publish_valid:
  assumes "plan_validate sha plan = Inr v"
  shows "publish_change_plan sha path plan = (if plan = [] then ret 0 else publish_with sha path plan (\<lambda>_. ret ()))"
proof -
  have valid: "map_error of_plan_error (plan_validate sha plan) = Inr v" unfolding assms map_error_def by simp
  show ?thesis unfolding publish_change_plan_def valid by (rule ext) (simp add: seqE_def bindE_def)
qed

text \<open>The possible outcomes of a publication.\<close>

inductive outcome ::
    "(content \<Rightarrow> content_digest) \<Rightarrow> inode \<Rightarrow> change_plan \<Rightarrow> world \<Rightarrow> mutation_error + nat \<Rightarrow> world \<Rightarrow> bool"
  for sha r plan w q w' where
  ended_refused: "isl q \<Longrightarrow> untouched w w' \<Longrightarrow> outcome sha r plan w q w'"
| ended_stopped: "q = Inl e \<Longrightarrow> me_kind e \<in> {RecoveryRequired, RollbackIncomplete} \<Longrightarrow> marker_present r w' \<Longrightarrow> outcome sha r plan w q w'"
| ended_complete: "run_changes sha plan (files_below w r) = Some (files_below w' r) \<Longrightarrow> elsewhere_same r plan w w' \<Longrightarrow>
    \<not> marker_present r w' \<Longrightarrow> q = Inr (length plan) \<or> (\<exists>e. q = Inl e \<and> me_kind e = RecoveryRequired) \<Longrightarrow> outcome sha r plan w q w'"
| ended_unsynced: "run_changes sha plan (files_below w r) = Some (files_below (without_marker r w') r) \<Longrightarrow>
    elsewhere_same r plan w (without_marker r w') \<Longrightarrow> marker_present r w' \<Longrightarrow> q = Inl e \<Longrightarrow>
    me_kind e \<in> {PublicationFailed, UnsafeRoot} \<Longrightarrow> outcome sha r plan w q w'"

lemma publish_outcome:
  assumes run: "publish_change_plan sha path plan w = (q, w')" and fresh: "fresh_transaction path plan r t w"
  shows "outcome sha r plan w q w'"
proof -
  have u: "untouched w w''" if "disk w'' = disk w" for w''
    using disk_eqD [OF that] by (simp add: untouched_def)
  show ?thesis
  proof (cases "plan_validate sha plan")
    case (Inl e)
    then have "isl q \<and> w' = w"
      using run by (auto simp: publish_change_plan_def seqE_def bindE_def map_error_def)
    then show ?thesis using u by (intro ended_refused) auto
  next
    case (Inr v)
    then have ok: "plan_ok sha plan" by simp
    show ?thesis
    proof (cases "plan = []")
      case True
      then have "q = Inr 0" "w' = w"
        using run unfolding publish_valid [OF Inr] by (auto simp: ret_def)
      moreover have "\<not> marker_present r w"
        using fresh marker_own [of r t] by (simp add: fresh_transaction_def unused_def marker_present_def)
      ultimately show ?thesis using True by (intro ended_complete) (auto simp: elsewhere_same_def)
    next
      case False
      then have "publish_with sha path plan (\<lambda>_. ret ()) w = (q, w')"
        using run unfolding publish_valid [OF Inr] by simp
      from publish_with_transaction [OF this] consider (early) "isl q" "disk w' = disk w"
        | (late) root s w1 where "disk w1 = disk w" "origin w1 = origin w" "application_root w path = Some (rt_fd root)"
            "transaction_of w = Some s" "\<forall>c \<in> set plan. pc_path c \<noteq> MUTATION_MARKER" "transaction sha root plan s w1 = (q, w')"
        by blast
      then show ?thesis
      proof cases
        case early
        then show ?thesis using u by (intro ended_refused)
      next
        case late
        have r: "rt_fd root = r" "s = t" using late fresh by (simp_all add: fresh_transaction_def)
        have f1: "fresh_transaction path plan r t w1" using fresh_cong(1) [OF late(1,2)] fresh by simp
        have apart: "names_apart t plan" using late(5) fresh by (simp add: names_apart_def fresh_transaction_def)
        note d = disk_eqD [OF late(1)]
        have ends: "ends r (finished sha r t plan w1 w') w1 q (length plan) w'" "\<forall>i < w_next w1. w_nodes w' i = w_nodes w1 i"
          using transaction_ends [OF late(6), unfolded r, of path] f1 apart by (auto simp: fresh_transaction_def)
        have files: "run_changes sha plan (files_below w r) = Some (files_below (without_marker r w') r)"
          "elsewhere_same r plan w (without_marker r w')" if "finished sha r t plan w1 w'"
          using finished_files [OF that f1 ok] fresh_cong(2) [OF late(1,2)] d resolve_disk [OF late(1)]
          by (auto simp: elsewhere_same_def place_def)
        from ends(1) show ?thesis
        proof cases
          case ends_untouched
          then show ?thesis using ends(2) d by (intro ended_refused) (simp_all add: untouched_def)
        next
          case (ends_stopped e)
          then show ?thesis by (intro ended_stopped)
        next
          case ends_clean
          then show ?thesis using files without_marker_absent by (intro ended_complete) auto
        next
          case (ends_unsynced e)
          then show ?thesis using files by (intro ended_unsynced)
        qed
      qed
    qed
  qed
qed

section \<open>Properties\<close>

definition sample_disk :: "(nat \<Rightarrow> nat option) \<Rightarrow> world" where
  "sample_disk faults =
     \<lparr> w_links = [(0, ''app'') \<mapsto> 1, (1, ''a'') \<mapsto> 2],
       w_nodes = [0 \<mapsto> Directory, 1 \<mapsto> Directory, 2 \<mapsto> Regular ''x'' 0x81A4],
       w_next = 3, w_clock = 0, w_faults = faults, w_slash = 0, w_cwd = None, w_umask = 0, w_pid = 7, w_nanos = Some 9 \<rparr>"

definition sample_plan :: change_plan where
  "sample_plan =
     [PEdit \<lparr> fe_path = ''a'', fe_original_digest = ''x'', fe_content = ''y'', fe_result_digest = ''y'' \<rparr>]"

abbreviation sample_run :: "(nat \<Rightarrow> nat option) \<Rightarrow> (mutation_error + nat) \<times> world" where
  "sample_run faults \<equiv> publish_change_plan sample_sha ''/app'' sample_plan (sample_disk faults)"

lemma sample_links: "w_links (sample_disk faults) (d, n) = (if d = 1 \<and> n = ''a'' then Some 2 else if d = 0 \<and> n = ''app'' then Some 1 else None)"
  by (simp add: sample_disk_def)

lemma sample_fresh: "fresh_transaction ''/app'' sample_plan 1 ''7-9'' (sample_disk faults)"
proof -
  let ?w = "sample_disk faults"
  have root: "application_root ?w ''/app'' = Some 1" and digits: "transaction_of ?w = Some ''7-9''"
  proof -
    have "application_root ?w ''/app'' = resolve ?w 0 (normal_names (path_components ''/app''))"
      by (simp add: application_root_def root_path_def is_absolute_def sample_disk_def)
    moreover have "normal_names (path_components ''/app'') = [''app'']" by code_simp
    ultimately show "application_root ?w ''/app'' = Some 1" by (simp add: sample_disk_def)
    have "nat_digits 7 @ ''-'' @ nat_digits 9 = ''7-9''" by code_simp
    then show "transaction_of ?w = Some ''7-9''" by (simp add: transaction_of_def sample_disk_def)
  qed
  have hidden: "''a'' \<notin> temp_names t" for t by (auto simp: temp_names_def temp_name_def)
  have app: "''app'' \<notin> temp_names t" for t by (auto simp: temp_names_def temp_name_def)
  have names: "last (segments ''a'') = ''a''" by code_simp
  have "directory_tree ?w"
    unfolding directory_tree_def by (auto simp: sample_links) (auto simp: sample_disk_def split: if_splits)
  moreover have "well_linked ?w" unfolding well_linked_def by (auto simp: sample_links) (auto simp: sample_disk_def split: if_splits)
  moreover have "unused 1 ''7-9'' ?w"
    using hidden app by (auto simp: unused_def own_entries_def sample_links MUTATION_MARKER_def)
  ultimately show ?thesis
    using root digits hidden names by (simp add: fresh_transaction_def sample_plan_def)
qed

lemma sample_published:
  "\<exists>w'. sample_run Map.empty = (Inr 1, w')" "\<exists>e w'. sample_run [13 \<mapsto> 0] = (Inl e, w') \<and> me_kind e = PublicationFailed"
proof -
  have "(case fst (sample_run Map.empty) of Inr n \<Rightarrow> n = 1 | _ \<Rightarrow> False)" by code_simp
  then show "\<exists>w'. sample_run Map.empty = (Inr 1, w')" by (cases "sample_run Map.empty") (auto split: sum.splits)
  have "(case fst (sample_run [13 \<mapsto> 0]) of Inl e \<Rightarrow> me_kind e = PublicationFailed | _ \<Rightarrow> False)" by code_simp
  then show "\<exists>e w'. sample_run [13 \<mapsto> 0] = (Inl e, w') \<and> me_kind e = PublicationFailed"
    by (cases "sample_run [13 \<mapsto> 0]") (auto split: sum.splits)
qed

text \<open>C2. Whatever system calls fail, a publication is all or nothing: at the end either every directory entry and
  every file is as before, or the marker stands at the root of the application and asks for an inspection, or
  the marker is gone and the files of the application are exactly what the plan makes of them, with no other
  entry changed.\<close>

theorem publish_all_or_nothing:
  assumes "publish_change_plan sha path plan w = (q, w')" "fresh_transaction path plan r t w"
  shows "untouched w w' \<or> marker_present r w' \<or>
    run_changes sha plan (files_below w r) = Some (files_below w' r) \<and> elsewhere_same r plan w w'"
  using publish_outcome [OF assms] by cases auto

theorem publish_all_or_nothing_witness:
  "\<exists>q w'. sample_run [60 \<mapsto> 0] = (q, w') \<and> (untouched (sample_disk [60 \<mapsto> 0]) w' \<or> marker_present 1 w' \<or>
    run_changes sample_sha sample_plan (files_below (sample_disk [60 \<mapsto> 0]) 1) = Some (files_below w' 1) \<and>
    elsewhere_same 1 sample_plan (sample_disk [60 \<mapsto> 0]) w')"
  using publish_all_or_nothing [OF prod.collapse [symmetric] sample_fresh] by (metis prod.collapse)

lemma published_run:
  assumes "publish_change_plan sha path plan w = (Inr n, w')" "fresh_transaction path plan r t w"
  shows "run_changes sha plan (files_below w r) = Some (files_below w' r) \<and> n = length plan \<and>
    \<not> marker_present r w' \<and> elsewhere_same r plan w w'"
  using publish_outcome [OF assms] by cases auto

text \<open>C3. A publication that reports success has applied the plan: all its preconditions held, the files of the
  application are what the plan makes of them, the receipt counts the changes, the marker and the temporary
  files are gone, and no entry but those of the plan has changed.\<close>

theorem publish_success_applies:
  assumes "publish_change_plan sha path plan w = (Inr n, w')" "fresh_transaction path plan r t w"
  shows "run_changes sha plan (files_below w r) = Some (files_below w' r) \<and> n = length plan \<and>
    \<not> marker_present r w' \<and> elsewhere_same r plan w w'"
  using assms by (rule published_run)

theorem publish_success_applies_witness:
  "\<exists>w'. sample_run Map.empty = (Inr 1, w') \<and>
    run_changes sample_sha sample_plan (files_below (sample_disk Map.empty) 1) = Some (files_below w' 1) \<and>
    elsewhere_same 1 sample_plan (sample_disk Map.empty) w'"
  using sample_published(1) publish_success_applies [OF _ sample_fresh] by blast

text \<open>C27. What an error of a publication tells: unless its kind asks for an inspection, no entry and no file has
  changed; the only exception are the kinds of a failed synchronisation, which are also reported when the whole
  plan is applied and only the marker remains.\<close>

theorem publish_error_report:
  assumes "publish_change_plan sha path plan w = (Inl e, w')" "fresh_transaction path plan r t w"
    and "me_kind e \<notin> {RecoveryRequired, RollbackIncomplete}"
  shows "untouched w w' \<or>
    me_kind e \<in> {PublicationFailed, UnsafeRoot} \<and> marker_present r w' \<and>
      run_changes sha plan (files_below w r) = Some (files_below (without_marker r w') r)"
  using publish_outcome [OF assms(1,2)] assms(3) by cases auto

theorem publish_error_report_witness:
  "\<exists>e w'. sample_run [13 \<mapsto> 0] = (Inl e, w') \<and> (untouched (sample_disk [13 \<mapsto> 0]) w' \<or>
    me_kind e \<in> {PublicationFailed, UnsafeRoot} \<and> marker_present 1 w' \<and>
      run_changes sample_sha sample_plan (files_below (sample_disk [13 \<mapsto> 0]) 1) = Some (files_below (without_marker 1 w') 1))"
  using sample_published(2) publish_error_report [OF _ sample_fresh] by fastforce

text \<open>A marker left by an interrupted publication blocks the next one: it fails and changes nothing.\<close>

theorem marker_blocks_publication:
  assumes "publish_change_plan sha path plan w = (q, w')" "application_root w path = Some r"
    and "marker_present r w" "plan \<noteq> []"
  shows "isl q \<and> untouched w w'"
proof -
  have blocked: "isl x \<and> disk v' = disk v"
    if "transaction sha root plan t v = (x, v')" "disk v = disk w" "rt_fd root = r" for root t v x v'
  proof -
    obtain a v1 where a: "sys_create r MUTATION_MARKER PRIVATE_MODE v = (a, v1)" by fastforce
    have "w_links v (r, MUTATION_MARKER) \<noteq> None"
      using assms(3) disk_eqD [OF that(2)] by (simp add: marker_present_def)
    then have "a \<noteq> Inr i" for i using create_Inr [of r MUTATION_MARKER PRIVATE_MODE v i v1] a by auto
    then obtain e where e: "a = Inl e" by (cases a) blast+
    then have "isl x" "v' = v1"
      using that(1,3) a by (auto simp: transaction_def create_marker_def bindE_def map_err_def)
    with refused(4) a e show ?thesis by blast
  qed
  have same: "untouched w w'" if "disk w' = disk w" using disk_eqD [OF that] by (simp add: untouched_def)
  show ?thesis
  proof (cases "plan_validate sha plan")
    case (Inl e)
    then have "isl q \<and> w' = w"
      using assms(1) by (auto simp: publish_change_plan_def seqE_def bindE_def map_error_def)
    then show ?thesis using same by simp
  next
    case (Inr v)
    then have run: "publish_with sha path plan (\<lambda>_. ret ()) w = (q, w')"
      using assms(1,4) unfolding publish_valid [OF Inr] by simp
    from publish_with_transaction [OF this] show ?thesis
    proof
      assume "isl q \<and> disk w' = disk w"
      then show ?thesis using same by blast
    next
      assume "\<exists>root t w1. disk w1 = disk w \<and> origin w1 = origin w \<and> application_root w path = Some (rt_fd root) \<and>
       transaction_of w = Some t \<and> (\<forall>c \<in> set plan. pc_path c \<noteq> MUTATION_MARKER) \<and> transaction sha root plan t w1 = (q, w')"
      then obtain root t w1 where s: "disk w1 = disk w" "rt_fd root = r" "transaction sha root plan t w1 = (q, w')"
        using assms(2) by auto
      from blocked [OF s(3,1,2)] s(1) same show ?thesis by simp
    qed
  qed
qed

theorem marker_blocks_publication_witness:
  "\<exists>q w'. publish_change_plan sample_sha ''/app'' sample_plan
      (sample_disk Map.empty\<lparr> w_links := (w_links (sample_disk Map.empty))((1, MUTATION_MARKER) \<mapsto> 2) \<rparr>) = (q, w') \<and> isl q"
proof -
  let ?w = "sample_disk Map.empty\<lparr> w_links := (w_links (sample_disk Map.empty))((1, MUTATION_MARKER) \<mapsto> 2) \<rparr>"
  have n: "normal_names (path_components ''/app'') = [''app'']" by code_simp
  have "application_root ?w ''/app'' = Some 1"
    by (simp add: application_root_def root_path_def is_absolute_def n) (simp add: sample_disk_def MUTATION_MARKER_def)
  moreover have "marker_present 1 ?w" by (simp add: marker_present_def)
  moreover have "sample_plan \<noteq> []" by (simp add: sample_plan_def)
  ultimately show ?thesis using marker_blocks_publication [OF prod.collapse [symmetric]] by (metis prod.collapse)
qed

text \<open>A publication that fails only when it synchronises the directory after the last change: it reports
  \<^const>\<open>PublicationFailed\<close>, but the file has its new content and the marker remains.\<close>

lemma unsynced_publication:
  "\<exists>e w'. sample_run [92 \<mapsto> 0] = (Inl e, w') \<and> me_kind e = PublicationFailed \<and> marker_present 1 w' \<and>
     files_below w' 1 ''a'' = Some ''y''"
proof -
  have "(case sample_run [92 \<mapsto> 0] of (q, w') \<Rightarrow> (case q of Inl e \<Rightarrow> me_kind e = PublicationFailed | _ \<Rightarrow> False) \<and>
     marker_present 1 w' \<and> files_below w' 1 ''a'' = Some ''y'')" by code_simp
  then show ?thesis by (cases "sample_run [92 \<mapsto> 0]") (auto split: sum.splits)
qed

end
