(* ===== verification/Source_Text.thy ===== *)
theory Source_Text
  imports Rust_Text
begin

text \<open>
  The text functions of the standard library that the source editor uses: UTF-8 validity, lines and line
  endings, sorting and comparing neighbours, with the lemmas that a text is rebuilt from its lines.
\<close>

section \<open>Bytes and substrings\<close>

abbreviation LF :: char where "LF \<equiv> CHR 0x0A"
abbreviation CR :: char where "CR \<equiv> CHR 0x0D"

text \<open>\<^verbatim>\<open>str::from_utf8\<close> accepts the well-formed sequences of the Unicode standard: no overlong forms, no surrogates,
  nothing above U+10FFFF.\<close>

definition utf8_char :: "string \<Rightarrow> bool" where
  "utf8_char ch =
     (case map of_char ch :: nat list of
        [a] \<Rightarrow> a < 128
      | [a, b] \<Rightarrow> 194 \<le> a \<and> a \<le> 223
      | [a, b, c] \<Rightarrow> a = 224 \<and> 160 \<le> b \<or> 225 \<le> a \<and> a \<le> 236 \<or> a = 237 \<and> b \<le> 159 \<or> 238 \<le> a \<and> a \<le> 239
      | [a, b, c, d] \<Rightarrow> a = 240 \<and> 144 \<le> b \<or> 241 \<le> a \<and> a \<le> 243 \<or> a = 244 \<and> b \<le> 143
      | _ \<Rightarrow> False)"

definition is_utf8 :: "string \<Rightarrow> bool" where
  "is_utf8 s \<longleftrightarrow> list_all utf8_char (utf8_chars s)"

definition contains_str :: "string \<Rightarrow> string \<Rightarrow> bool" where
  "contains_str p s \<longleftrightarrow> list_ex (prefix p) (suffixes s)"

definition strip_suffix :: "string \<Rightarrow> string \<Rightarrow> string option" where
  "strip_suffix p s = (if suffix p s then Some (take (length s - length p) s) else None)"

section \<open>Lines\<close>

text \<open>\<^verbatim>\<open>str::lines\<close>: a final line without line feed is a line unless it is empty, and only a line that ends in a line
  feed loses a carriage return. \<open>replace_crlf\<close> is \<^verbatim>\<open>str::replace("\r\n", to)\<close>.\<close>

definition strip_cr :: "string \<Rightarrow> string" where
  "strip_cr line = (case strip_suffix [CR] line of None \<Rightarrow> line | Some l \<Rightarrow> l)"

definition text_lines :: "string \<Rightarrow> string list" where
  "text_lines s = (let ps = split_on LF s in map strip_cr (butlast ps) @ (if last ps = [] then [] else [last ps]))"

fun replace_crlf :: "string \<Rightarrow> string \<Rightarrow> string" where
  "replace_crlf to [] = []"
| "replace_crlf to [c] = [c]"
| "replace_crlf to (c # d # s) = (if c = CR \<and> d = LF then to @ replace_crlf to s else c # replace_crlf to (d # s))"

definition windows2 :: "'a list \<Rightarrow> ('a \<times> 'a) list" where
  "windows2 xs = zip xs (tl xs)"

section \<open>Lemmas\<close>

lemma strip_prefix_Some [simp]: "strip_prefix p s = Some t \<longleftrightarrow> s = p @ t"
  by (auto simp: strip_prefix_def prefix_def)

lemma strip_suffix_Some [simp]: "strip_suffix p s = Some t \<longleftrightarrow> s = t @ p"
  by (auto simp: strip_suffix_def suffix_def)

lemma strip_prefix_None: "strip_prefix p s = None \<longleftrightarrow> \<not> prefix p s"
  by (simp add: strip_prefix_def)

lemma strip_suffix_None: "strip_suffix p s = None \<longleftrightarrow> \<not> suffix p s"
  by (simp add: strip_suffix_def)

lemma contains_str_iff: "contains_str p s \<longleftrightarrow> (\<exists>a b. s = a @ p @ b)"
proof
  show "contains_str p s \<Longrightarrow> \<exists>a b. s = a @ p @ b" by (fastforce simp: contains_str_def list_ex_iff suffix_def prefix_def)
  assume "\<exists>a b. s = a @ p @ b"
  then obtain a b where "s = a @ p @ b" by blast
  then have "p @ b \<in> set (suffixes s)" by (simp add: suffix_def)
  then show "contains_str p s" unfolding contains_str_def list_ex_iff by (intro bexI [of _ "p @ b"]) simp_all
qed

lemma windows2_sorted: "(\<forall>(a, b) \<in> set (windows2 xs). a < b) \<longleftrightarrow> sorted_wrt (<) (xs :: 'a::linorder list)"
proof (induction xs)
  case (Cons x xs)
  show ?case
  proof (cases xs)
    case (Cons y ys)
    then have "set (windows2 (x # xs)) = insert (x, y) (set (windows2 xs))" by (simp add: windows2_def)
    have "(\<forall>(a, b) \<in> set (windows2 (x # xs)). a < b) \<longleftrightarrow> x < y \<and> sorted_wrt (<) xs"
      unfolding \<open>set (windows2 (x # xs)) = insert (x, y) (set (windows2 xs))\<close> using Cons.IH by auto
    then show ?thesis using Cons by (auto dest: less_trans)
  qed (simp add: windows2_def)
qed (simp add: windows2_def)

subsection \<open>UTF-8\<close>

lemma utf8_chars_append:
  "b = [] \<or> \<not> is_continuation (hd b) \<Longrightarrow> utf8_chars (a @ b) = utf8_chars a @ utf8_chars b"
proof (induction a rule: utf8_chars.induct)
  case (2 c cs)
  have t: "takeWhile is_continuation (cs @ b) = takeWhile is_continuation cs"
  proof (cases "\<forall>x \<in> set cs. is_continuation x")
    case True
    then have tw: "takeWhile is_continuation cs = cs" by (simp add: takeWhile_eq_all_conv)
    show ?thesis using True 2(2) by (cases b) (simp_all add: takeWhile_append2 tw)
  next
    case False
    then obtain x where "x \<in> set cs" "\<not> is_continuation x" by blast
    then show ?thesis by (rule takeWhile_append1)
  qed
  have d: "dropWhile is_continuation (cs @ b) = dropWhile is_continuation cs @ b"
    using 2(2) by (cases b) (auto simp: dropWhile_append)
  show ?case using 2 by (simp add: t d)
qed simp

lemma utf8_head: "is_utf8 b \<Longrightarrow> b = [] \<or> \<not> is_continuation (hd b)"
  by (cases b) (auto simp: is_utf8_def utf8_char_def is_continuation_def split: list.splits)

lemma is_utf8_append: "is_utf8 a \<Longrightarrow> is_utf8 b \<Longrightarrow> is_utf8 (a @ b)"
  using utf8_chars_append [OF utf8_head, of b a] by (simp add: is_utf8_def)

lemma is_utf8_ascii: "(\<And>c. c \<in> set s \<Longrightarrow> (of_char c :: nat) < 128) \<Longrightarrow> is_utf8 s"
proof (induction s rule: utf8_chars.induct)
  case (2 c cs)
  have n: "\<not> is_continuation d" if "d \<in> set cs" for d using 2(2) [of d] that by (auto simp: is_continuation_def)
  then have "takeWhile is_continuation cs = []" "dropWhile is_continuation cs = cs" by (cases cs; simp)+
  with 2 show ?case by (simp add: is_utf8_def utf8_char_def)
qed (simp add: is_utf8_def)

lemma is_utf8_split:
  assumes "(of_char c :: nat) < 128"
  shows "is_utf8 (a @ c # b) \<longleftrightarrow> is_utf8 a \<and> is_utf8 b"
proof -
  have n: "\<not> is_continuation c" using assms by (simp add: is_continuation_def)
  then have s: "is_utf8 (a @ c # b) \<longleftrightarrow> is_utf8 a \<and> is_utf8 (c # b)"
    using utf8_chars_append [of "c # b" a] by (simp add: is_utf8_def)
  have "is_utf8 (c # b) \<longleftrightarrow> is_utf8 b"
  proof
    assume u: "is_utf8 b"
    have "is_utf8 [c]" by (rule is_utf8_ascii) (simp add: assms)
    from is_utf8_append [OF this u] show "is_utf8 (c # b)" by simp
  next
    assume u: "is_utf8 (c # b)"
    then have "utf8_char (c # takeWhile is_continuation b)" by (simp add: is_utf8_def)
    then have "takeWhile is_continuation b = []"
      using assms by (cases "takeWhile is_continuation b") (auto simp: utf8_char_def split: list.splits)
    then have "dropWhile is_continuation b = b" by (cases b) (auto split: if_splits)
    with u show "is_utf8 b" by (simp add: is_utf8_def)
  qed
  with s show ?thesis by simp
qed

lemma is_utf8_Nil [simp]: "is_utf8 []"
  by (simp add: is_utf8_def)

lemma is_utf8_Cons: "(of_char c :: nat) < 128 \<Longrightarrow> is_utf8 (c # b) \<longleftrightarrow> is_utf8 b"
  using is_utf8_split [of c "[]" b] by simp

lemma is_utf8_join:
  assumes "\<And>c. c \<in> set sep \<Longrightarrow> (of_char c :: nat) < 128" "sep \<noteq> []"
  shows "is_utf8 (join sep ls) \<longleftrightarrow> (\<forall>l \<in> set ls. is_utf8 l)"
proof -
  have a: "is_utf8 (sep' @ b) \<longleftrightarrow> is_utf8 b" if "set sep' \<subseteq> set sep" for sep' b
    using that assms(1) by (induction sep') (auto simp: is_utf8_Cons)
  obtain c sep' where c: "sep = c # sep'" using assms(2) by (cases sep) auto
  then have two: "is_utf8 (l @ sep @ b) \<longleftrightarrow> is_utf8 l \<and> is_utf8 b" for l b
    using is_utf8_split [of c l "sep' @ b"] a [of sep'] assms(1) by auto
  show ?thesis
  proof (induction ls)
    case (Cons l ls)
    then show ?case by (cases ls) (auto simp: two)
  qed simp
qed

subsection \<open>Texts with line feeds only\<close>

lemma strip_cr_free: "CR \<notin> set l \<Longrightarrow> strip_cr l = l"
  by (auto simp: strip_cr_def split: option.split)

text \<open>A source is the text of its pieces between line endings; the last piece is empty when the last line is
  terminated.\<close>

definition pieces :: "string list \<Rightarrow> bool \<Rightarrow> string list" where
  "pieces ls terminated = (if terminated then ls @ [[]] else if ls = [] then [[]] else ls)"

abbreviation plain :: "string list \<Rightarrow> bool" where
  "plain ls \<equiv> \<forall>l \<in> set ls. CR \<notin> set l \<and> LF \<notin> set l"

lemma text_lines_join:
  assumes "plain ps" "ps \<noteq> []"
  shows "text_lines (join [LF] ps) = (if last ps = [] then butlast ps else ps)"
proof -
  have "split_on LF (join [LF] ps) = ps" using assms by (intro split_on_join) auto
  moreover have "map strip_cr (butlast ps) = butlast ps"
    using assms(1) by (auto intro!: map_idI strip_cr_free dest: in_set_butlastD)
  ultimately show ?thesis using assms(2) by (simp add: text_lines_def)
qed

lemma join_snoc: "ls \<noteq> [] \<Longrightarrow> join sep (ls @ [l]) = join sep ls @ sep @ l"
  by (induction ls rule: join.induct [of _ sep]) auto

text \<open>Replacing the line ending.\<close>

definition with_ending :: "string \<Rightarrow> string \<Rightarrow> string" where
  "with_ending nl s = concat (map (\<lambda>c. if c = LF then nl else [c]) s)"

lemma with_ending_free: "LF \<notin> set p \<Longrightarrow> with_ending nl p = p"
  by (induction p) (auto simp: with_ending_def)

lemma with_ending_append [simp]: "with_ending nl (a @ b) = with_ending nl a @ with_ending nl b"
  by (simp add: with_ending_def)

lemma with_ending_join: "plain ps \<Longrightarrow> with_ending nl (join [LF] ps) = join nl ps"
proof (induction ps)
  case (Cons p ps)
  then show ?case by (cases ps) (auto simp: with_ending_free, simp add: with_ending_def)
qed (simp add: with_ending_def)

lemma with_ending_LF: "with_ending [LF] s = s"
  by (induction s) (auto simp: with_ending_def)

lemma replace_crlf_inverse:
  "CR \<notin> set (replace_crlf [] s) \<Longrightarrow> LF \<notin> set (replace_crlf [] s) \<Longrightarrow>
     CR \<notin> set (replace_crlf [LF] s) \<and> with_ending [CR, LF] (replace_crlf [LF] s) = s"
proof (induction "[] :: string" s rule: replace_crlf.induct)
  case (3 c d s)
  then show ?case by (auto simp: with_ending_def split: if_splits)
qed (auto simp: with_ending_def)

lemma replace_crlf_with_ending:
  "CR \<notin> set t \<Longrightarrow> replace_crlf r (with_ending [CR, LF] t) = with_ending r t"
proof (induction t)
  case (Cons c t)
  show ?case
  proof (cases "c = LF")
    case False
    then have "replace_crlf r (c # s) = c # replace_crlf r s" for s using Cons.prems by (cases s) auto
    with False Cons show ?thesis by (simp add: with_ending_def)
  qed (use Cons in \<open>simp add: with_ending_def\<close>)
qed (simp add: with_ending_def)

lemma suffix_with_ending: "CR \<notin> set t \<Longrightarrow> suffix [CR, LF] (with_ending [CR, LF] t) \<longleftrightarrow> suffix [LF] t"
  by (cases t rule: rev_cases) (auto simp: with_ending_def suffix_def)

lemma suffix_join:
  assumes "plain ps" "ps \<noteq> []"
  shows "suffix [LF] (join [LF] ps) \<longleftrightarrow> last ps = [] \<and> 2 \<le> length ps"
proof (cases ps rule: rev_cases)
  case (snoc qs q)
  show ?thesis
  proof (cases "qs = []")
    case True
    with snoc assms show ?thesis by (auto simp: suffix_def)
  next
    case False
    then have "length ps \<ge> 2" using snoc by (cases qs) auto
    moreover have "LF \<notin> set q" using assms(1) snoc by simp
    ultimately show ?thesis using snoc False by (cases q rule: rev_cases) (auto simp: join_snoc suffix_def)
  qed
qed (use assms in simp)

section \<open>Indentation\<close>

definition whitespace :: "string \<Rightarrow> bool" where
  "whitespace s \<longleftrightarrow> (\<exists>ws. set ws \<subseteq> set whitespace_encodings \<and> s = concat ws)"

lemma encodings_prefix_free: "list_all (\<lambda>v. list_all (\<lambda>w. prefix w v \<longrightarrow> w = v) whitespace_encodings) whitespace_encodings"
  by code_simp

lemma find_encoding:
  assumes "w \<in> set whitespace_encodings"
  shows "find (\<lambda>v. prefix v (w @ s)) whitespace_encodings = Some w"
proof -
  have u: "v = w" if "v \<in> set whitespace_encodings" "prefix v (w @ s)" for v
    using that(2) assms that(1) encodings_prefix_free
    by (auto simp: list_all_iff dest: prefix_same_cases [OF _ prefixI [of "w @ s" w s]])
  show ?thesis
  proof (cases "find (\<lambda>v. prefix v (w @ s)) whitespace_encodings")
    case None
    then show ?thesis using assms by (auto simp: find_None_iff)
  next
    case (Some v)
    then have "v \<in> set whitespace_encodings" "prefix v (w @ s)" by (auto simp: find_Some_iff in_set_conv_nth)
    then show ?thesis using u Some by blast
  qed
qed

lemma trim_start_fuel_Nil [simp]: "trim_start_fuel n [] = []"
  using trim_start_fuel_length [of n "[]"] by simp

lemma trim_start_fuel_enough: "length s \<le> n \<Longrightarrow> trim_start_fuel n s = trim_start s"
proof -
  have "trim_start_fuel n s = trim_start_fuel m s" if "length s \<le> n" "length s \<le> m" for n m
    using that
  proof (induction n arbitrary: m s)
    case (Suc n)
    show ?case
    proof (cases "find (\<lambda>w. prefix w s) whitespace_encodings")
      case (Some w)
      then have w: "w \<noteq> []" "prefix w s" using whitespace_nonempty by (auto simp: find_Some_iff in_set_conv_nth)
      then obtain m' where m: "m = Suc m'" using Suc.prems(2) by (cases m) auto
      have "0 < length w" using w(1) by simp
      then have "length (drop (length w) s) \<le> n" "length (drop (length w) s) \<le> m'"
        using Suc.prems m prefix_length_le [OF w(2)] unfolding length_drop by linarith+
      then have "trim_start_fuel n (drop (length w) s) = trim_start_fuel m' (drop (length w) s)" by (rule Suc.IH)
      then show ?thesis using Some m by simp
    qed (cases m; simp)
  qed simp
  then show "length s \<le> n \<Longrightarrow> trim_start_fuel n s = trim_start s" unfolding trim_start_def by blast
qed

lemma trim_start_encoding: "w \<in> set whitespace_encodings \<Longrightarrow> trim_start (w @ s) = trim_start s"
proof -
  assume w: "w \<in> set whitespace_encodings"
  then have "w \<noteq> []" by (rule whitespace_nonempty)
  then obtain n where n: "length (w @ s) = Suc n" by (cases "w @ s") auto
  then have "trim_start (w @ s) = trim_start_fuel n s" unfolding trim_start_def n using find_encoding [OF w] by simp
  moreover have "length s \<le> n" using n \<open>w \<noteq> []\<close> by (cases w) auto
  ultimately show ?thesis by (simp add: trim_start_fuel_enough)
qed

lemma trim_start_whitespace: "whitespace ind \<Longrightarrow> trim_start (ind @ s) = trim_start s"
proof -
  have "set ws \<subseteq> set whitespace_encodings \<Longrightarrow> trim_start (concat ws @ s) = trim_start s" for ws
    by (induction ws) (auto simp: trim_start_encoding)
  then show "whitespace ind \<Longrightarrow> trim_start (ind @ s) = trim_start s" by (auto simp: whitespace_def)
qed

lemma trim_whitespace: "whitespace ind \<Longrightarrow> trim (ind @ s) = trim s"
  by (simp add: trim_def trim_start_whitespace)

lemma trim_start_split: "\<exists>ind. whitespace ind \<and> s = ind @ trim_start s"
proof -
  have "\<exists>ind. whitespace ind \<and> s = ind @ trim_start_fuel n s" for n
  proof (induction n arbitrary: s)
    case (Suc n)
    show ?case
    proof (cases "find (\<lambda>w. prefix w s) whitespace_encodings")
      case None
      then show ?thesis by (auto simp: whitespace_def intro: exI [of _ "[]"])
    next
      case (Some w)
      then have w: "w \<in> set whitespace_encodings" "prefix w s" by (auto simp: find_Some_iff)
      then obtain r where r: "s = w @ r" by (auto simp: prefix_def)
      obtain ind where "whitespace ind" "r = ind @ trim_start_fuel n r" using Suc.IH by blast
      then obtain ws where "set ws \<subseteq> set whitespace_encodings" "r = concat ws @ trim_start_fuel n r"
        by (auto simp: whitespace_def)
      then have "set (w # ws) \<subseteq> set whitespace_encodings" "s = concat (w # ws) @ trim_start_fuel (Suc n) s"
        using w Some r by simp_all
      then show ?thesis unfolding whitespace_def by blast
    qed
  qed (auto simp: whitespace_def intro: exI [of _ "[]"])
  then show ?thesis by (simp add: trim_start_def)
qed

lemma trim_end_prefix: "prefix (trim_end s) s"
proof -
  have "prefix (trim_end_fuel n s) s" for n
    by (induction n arbitrary: s) (auto split: option.split intro: prefix_order.trans take_is_prefix)
  then show ?thesis by (simp add: trim_end_def)
qed

lemma trim_infix: "\<exists>a b. s = a @ trim s @ b"
  using trim_start_split [of s] trim_end_prefix [of "trim_start s"] by (auto simp: trim_def prefix_def) metis

lemma whitespace_utf8: "whitespace ind \<Longrightarrow> is_utf8 ind"
proof -
  have e: "list_all is_utf8 whitespace_encodings" by code_simp
  have "set ws \<subseteq> set whitespace_encodings \<Longrightarrow> is_utf8 (concat ws)" for ws
    using e by (induction ws) (auto simp: list_all_iff is_utf8_append)
  then show "whitespace ind \<Longrightarrow> is_utf8 ind" by (auto simp: whitespace_def)
qed

end
