(* ===== verification/Source_Editor.thy ===== *)
theory Source_Editor
  imports Change_Plan Source_Text
begin

text \<open>
  Structured edits of Rust sources (\<^verbatim>\<open>tools/application_mutator/src/editor.rs\<close>): registering a module in the block
  of generated modules, and adding a keyed entry to a managed block. An edit is planned on an observed source
  and never guesses: a source that does not have the expected shape is refused with the kind of its defect.
\<close>

section \<open>Outcomes and errors\<close>

definition RUST_MODULES_START :: string where "RUST_MODULES_START = ''// hegira:generated-modules:start''"
definition RUST_MODULES_END :: string where "RUST_MODULES_END = ''// hegira:generated-modules:end''"

datatype structured_edit_kind =
    RustModule | RustManagedEntry | CargoDependency | TomlArrayString | TomlArrayTable | TomlTableString

datatype structured_edit_outcome =
    Planned structured_edit_kind structured_file_edit
  | AlreadyPresent structured_edit_kind change_path

datatype structured_edit_error_kind =
    EditInvalidPath | InvalidInput | InvalidSource | MissingIntegrationPoint | AmbiguousIntegrationPoint
  | DuplicateRegistration | ReorderedRegistrations | ExistingOutsideManagedBlock | TomlConflict

record structured_edit_error =
  se_kind :: structured_edit_error_kind
  se_path :: "change_path option"
  se_message :: string

definition edit_error_at :: "structured_edit_error_kind \<Rightarrow> change_path \<Rightarrow> string \<Rightarrow> structured_edit_error" where
  "edit_error_at kind path message = \<lparr> se_kind = kind, se_path = Some path, se_message = message \<rparr>"

definition of_change_plan_error :: "change_plan_error \<Rightarrow> structured_edit_error" where
  "of_change_plan_error e = \<lparr> se_kind = EditInvalidPath, se_path = ce_path e, se_message = ce_message e \<rparr>"

definition planned ::
    "(content \<Rightarrow> content_digest) \<Rightarrow> structured_edit_kind \<Rightarrow> change_path \<Rightarrow> content \<Rightarrow> content
      \<Rightarrow> structured_edit_error + structured_edit_outcome" where
  "planned sha kind path observed_source resulting_source =
     and_then (map_error of_change_plan_error (structured_file_edit_new sha path observed_source resulting_source))
       (\<lambda>edit. Inr (Planned kind edit))"

section \<open>Identifiers\<close>

definition valid_marker_identifier :: "string \<Rightarrow> bool" where
  "valid_marker_identifier value \<longleftrightarrow>
     value \<noteq> [] \<and> length value \<le> 128 \<and>
     list_all (\<lambda>byte. is_ascii_lowercase byte \<or> is_ascii_digit byte \<or> byte = CHR ''-'' \<or> byte = CHR ''_'') value"

definition rust_keywords :: "string list" where
  "rust_keywords =
     [''as'', ''async'', ''await'', ''break'', ''const'', ''continue'', ''crate'', ''dyn'', ''else'', ''enum'', ''extern'',
      ''false'', ''fn'', ''for'', ''if'', ''impl'', ''in'', ''let'', ''loop'', ''match'', ''mod'', ''move'', ''mut'', ''pub'',
      ''ref'', ''return'', ''self'', ''Self'', ''static'', ''struct'', ''super'', ''trait'', ''true'', ''type'', ''unsafe'',
      ''use'', ''where'', ''while'']"

definition validate_rust_identifier :: "string \<Rightarrow> unit + unit" where
  "validate_rust_identifier identifier =
     (if identifier \<noteq> [] \<and> length identifier \<le> 128 \<and>
         list_all (\<lambda>(index, byte). is_ascii_lowercase byte \<or>
             byte = CHR ''_'' \<and> 0 < index \<and> index + 1 < length identifier \<or>
             is_ascii_digit byte \<and> 0 < index) (enumerate 0 identifier) \<and>
         \<not> contains_str ''__'' identifier \<and> identifier \<notin> set rust_keywords
      then Inr () else Inl ())"

section \<open>Lines of a source\<close>

definition normalize_newlines :: "string \<Rightarrow> unit + string \<times> string \<times> bool" where
  "normalize_newlines source =
     (if CR \<in> set source
      then (if CR \<in> set (replace_crlf [] source) \<or> LF \<in> set (replace_crlf [] source) then Inl ()
            else Inr (replace_crlf [LF] source, [CR, LF], suffix [CR, LF] source))
      else Inr (source, [LF], suffix [LF] source))"

definition restore_newlines :: "string list \<Rightarrow> string \<Rightarrow> bool \<Rightarrow> string" where
  "restore_newlines lines newline final_newline = join newline lines @ (if final_newline then newline else [])"

definition marker_positions :: "string list \<Rightarrow> string \<Rightarrow> nat list" where
  "marker_positions lines marker = map fst (filter (\<lambda>(index, line). line = marker) (enumerate 0 lines))"

definition trimmed_marker_positions :: "string list \<Rightarrow> string \<Rightarrow> nat list" where
  "trimmed_marker_positions lines marker = map fst (filter (\<lambda>(index, line). trim line = marker) (enumerate 0 lines))"

text \<open>The source as both editors read it: its lines, its line ending, and whether the last line is terminated.\<close>

definition source_lines :: "change_path \<Rightarrow> content \<Rightarrow> structured_edit_error + string list \<times> string \<times> bool" where
  "source_lines path observed_source =
     then_check (reject_if (\<not> is_utf8 observed_source)
       (edit_error_at InvalidSource path ''Rust integration source must be UTF-8''))
     (and_then (map_error (\<lambda>_. edit_error_at InvalidSource path ''Rust integration source must use consistent LF or CRLF newlines'')
         (normalize_newlines observed_source)) (\<lambda>(normalized, newline, final_newline).
      Inr (text_lines normalized, newline, final_newline)))"

text \<open>The single block between two markers.\<close>

definition block_bounds ::
    "nat list \<Rightarrow> nat list \<Rightarrow> structured_edit_error \<Rightarrow> structured_edit_error \<Rightarrow> structured_edit_error + nat \<times> nat" where
  "block_bounds starts ends missing ambiguous =
     then_check (reject_if (starts = [] \<or> ends = []) missing)
     (then_check (reject_if (length starts \<noteq> 1 \<or> length ends \<noteq> 1 \<or> starts ! 0 \<ge> ends ! 0) ambiguous)
      (Inr (starts ! 0, ends ! 0)))"

section \<open>Rust modules\<close>

fun registered_modules :: "change_path \<Rightarrow> string list \<Rightarrow> structured_edit_error + string list" where
  "registered_modules path [] = Inr []"
| "registered_modules path (line # lines) =
     (case Option.bind (strip_prefix ''pub mod '' line) (strip_suffix '';'') of
        None \<Rightarrow> Inl (edit_error_at AmbiguousIntegrationPoint path ''managed Rust module block contains an unsupported registration'')
      | Some m \<Rightarrow>
          then_check (map_error (\<lambda>_. edit_error_at AmbiguousIntegrationPoint path
             ''managed Rust module block contains an invalid registration'') (validate_rust_identifier m))
          (and_then (registered_modules path lines) (\<lambda>modules. Inr (m # modules))))"

definition module_line :: "string \<Rightarrow> string" where
  "module_line m = ''pub mod '' @ m @ '';''"

definition plan_rust_module ::
    "(content \<Rightarrow> content_digest) \<Rightarrow> string \<Rightarrow> content \<Rightarrow> string \<Rightarrow> structured_edit_error + structured_edit_outcome" where
  "plan_rust_module sha path observed_source m =
     and_then (map_error of_change_plan_error (change_path_new path)) (\<lambda>path.
     then_check (map_error (\<lambda>_. edit_error_at InvalidInput path
         ''Rust module identifiers must be non-keyword lowercase ASCII snake_case'') (validate_rust_identifier m))
     (and_then (source_lines path observed_source) (\<lambda>(lines, newline, final_newline).
      and_then (block_bounds (marker_positions lines RUST_MODULES_START) (marker_positions lines RUST_MODULES_END)
         (edit_error_at MissingIntegrationPoint path ''Rust source is missing the generated-module integration block'')
         (edit_error_at AmbiguousIntegrationPoint path ''Rust source has an ambiguous generated-module integration block''))
         (\<lambda>(start, stop).
      then_check (reject_if (list_ex (\<lambda>line. trim line = module_line m) (take start lines @ drop (stop + 1) lines))
         (edit_error_at ExistingOutsideManagedBlock path
            ''Rust module is already registered outside the managed integration block''))
      (and_then (registered_modules path (take (stop - (start + 1)) (drop (start + 1) lines))) (\<lambda>modules.
       then_check (reject_if (card (set modules) \<noteq> length modules)
         (edit_error_at DuplicateRegistration path ''managed Rust module block contains duplicate registrations''))
       (then_check (reject_if (\<not> list_all (\<lambda>(a, b). a < b) (windows2 modules))
         (edit_error_at ReorderedRegistrations path ''managed Rust module registrations are not in deterministic order''))
       (if m \<in> set modules then Inr (AlreadyPresent RustModule path)
        else let lines = take (start + 1) lines @ map module_line (sort (modules @ [m])) @ drop stop lines
             in planned sha RustModule path observed_source (restore_newlines lines newline final_newline)))))))))"

section \<open>Managed entries\<close>

text \<open>The loop over the lines of a managed block; \<open>at\<close> is the cursor. It goes on after the end of each entry.\<close>

function scan_entries ::
    "change_path \<Rightarrow> string \<Rightarrow> string \<Rightarrow> nat \<Rightarrow> string list \<Rightarrow> structured_edit_error + (string \<times> nat \<times> nat) list" where
  "scan_entries path block entry_prefix at [] = Inr []"
| "scan_entries path block entry_prefix at (line # lines) =
     (if trim line = [] then scan_entries path block entry_prefix (at + 1) lines
      else case Option.bind (strip_prefix entry_prefix (trim line)) (strip_suffix '':start'') of
        None \<Rightarrow> Inl (edit_error_at AmbiguousIntegrationPoint path
          (''managed `'' @ block @ ''` block contains source outside a keyed entry''))
      | Some existing_key \<Rightarrow>
          if \<not> valid_marker_identifier existing_key
          then Inl (edit_error_at AmbiguousIntegrationPoint path
            (''managed `'' @ block @ ''` block contains an invalid entry key''))
          else
            (let expected_end = entry_prefix @ existing_key @ '':end'';
                 relative_end = length (takeWhile (\<lambda>l. trim l \<noteq> expected_end) lines)
             in if relative_end = length lines
                then Inl (edit_error_at AmbiguousIntegrationPoint path
                  (''managed `'' @ block @ ''` entry `'' @ existing_key @ ''` is not terminated''))
                else if list_ex (\<lambda>l. prefix entry_prefix (trim l)) (take relative_end lines)
                then Inl (edit_error_at AmbiguousIntegrationPoint path
                  (''managed `'' @ block @ ''` entries cannot be nested''))
                else and_then (scan_entries path block entry_prefix (at + 2 + relative_end) (drop (relative_end + 1) lines))
                  (\<lambda>entries. Inr ((existing_key, at, at + 1 + relative_end) # entries))))"
  by pat_completeness auto
termination
  by (relation "measure (\<lambda>(_, _, _, _, lines). length lines)") auto

definition indented :: "string \<Rightarrow> string \<Rightarrow> string" where
  "indented indentation line = (if line = [] then [] else indentation @ line)"

text \<open>The markers of a block and of an entry, the index at which an entry goes, and its lines.\<close>

definition block_start :: "string \<Rightarrow> string" where "block_start block = ''// hegira:'' @ block"
definition block_end :: "string \<Rightarrow> string" where "block_end block = ''// hegira:'' @ block @ '':end''"
definition entry_marks :: "string \<Rightarrow> string" where "entry_marks block = ''// hegira:'' @ block @ '':''"
definition entry_start :: "string \<Rightarrow> string \<Rightarrow> string" where "entry_start block key = entry_marks block @ key @ '':start''"
definition entry_end :: "string \<Rightarrow> string \<Rightarrow> string" where "entry_end block key = entry_marks block @ key @ '':end''"

definition insertion_point :: "string \<Rightarrow> nat \<Rightarrow> (string \<times> nat \<times> nat) list \<Rightarrow> nat" where
  "insertion_point key stop entries =
     (case find (\<lambda>existing. fst existing > key) entries of None \<Rightarrow> stop | Some existing \<Rightarrow> fst (snd existing))"

definition indentation_of :: "string \<Rightarrow> string" where
  "indentation_of line = (case strip_suffix (trim_start line) line of None \<Rightarrow> [] | Some spaces \<Rightarrow> spaces)"

definition entry_lines :: "string \<Rightarrow> string \<Rightarrow> string \<Rightarrow> string \<Rightarrow> string list" where
  "entry_lines indentation block key entry =
     [indentation @ entry_start block key] @ map (indented indentation) (text_lines entry) @ [indentation @ entry_end block key]"

definition plan_rust_managed_entry ::
    "(content \<Rightarrow> content_digest) \<Rightarrow> string \<Rightarrow> content \<Rightarrow> string \<Rightarrow> string \<Rightarrow> string
      \<Rightarrow> structured_edit_error + structured_edit_outcome" where
  "plan_rust_managed_entry sha path observed_source block key entry =
     and_then (map_error of_change_plan_error (change_path_new path)) (\<lambda>path.
     then_check (reject_if (\<not> valid_marker_identifier block \<or> \<not> valid_marker_identifier key \<or> trim entry = [])
       (edit_error_at InvalidInput path ''managed Rust block, key, and entry must use validated non-empty values''))
     (then_check (reject_if (contains_str ''// hegira:'' entry \<or> CR \<in> set entry)
       (edit_error_at InvalidInput path ''managed Rust entries cannot contain integration markers or carriage returns''))
     (and_then (source_lines path observed_source) (\<lambda>(lines, newline, final_newline).
      and_then (block_bounds (trimmed_marker_positions lines (block_start block)) (trimmed_marker_positions lines (block_end block))
           (edit_error_at MissingIntegrationPoint path (''Rust source is missing the `'' @ block @ ''` integration block''))
           (edit_error_at AmbiguousIntegrationPoint path (''Rust source has an ambiguous `'' @ block @ ''` integration block'')))
           (\<lambda>(start, stop).
         then_check (reject_if (list_ex (\<lambda>line. trim line = entry_start block key \<or> trim line = entry_end block key)
                (take start lines @ drop (stop + 1) lines))
              (edit_error_at ExistingOutsideManagedBlock path
                 ''managed Rust entry markers exist outside their declared integration block''))
            (and_then (scan_entries path block (entry_marks block) (start + 1) (take (stop - (start + 1)) (drop (start + 1) lines)))
              (\<lambda>entries.
             then_check (reject_if (card (fst ` set entries) \<noteq> length entries)
               (edit_error_at DuplicateRegistration path (''managed `'' @ block @ ''` block contains duplicate entry keys'')))
             (then_check (reject_if (\<not> list_all (\<lambda>(a, b). fst a < fst b) (windows2 entries))
               (edit_error_at ReorderedRegistrations path (''managed `'' @ block @ ''` entries are not in deterministic order'')))
             (if key \<in> fst ` set entries then Inr (AlreadyPresent RustManagedEntry path)
              else
                let insertion = insertion_point key stop entries;
                    generated = entry_lines (indentation_of (lines ! start)) block key entry
                in planned sha RustManagedEntry path observed_source
                     (restore_newlines (take insertion lines @ generated @ drop insertion lines) newline final_newline))))))))))"

section \<open>Reading a source and writing it back\<close>

text \<open>The results of \<^const>\<open>source_lines\<close>.\<close>

definition text_form :: "string list \<Rightarrow> string \<Rightarrow> bool \<Rightarrow> bool" where
  "text_form ls nl fin \<longleftrightarrow> nl \<in> {[LF], [CR, LF]} \<and> plain ls \<and> (\<forall>l \<in> set ls. is_utf8 l) \<and>
     (\<not> fin \<longrightarrow> ls \<noteq> [] \<longrightarrow> last ls \<noteq> []) \<and> (fin \<longrightarrow> ls \<noteq> []) \<and> (nl = [CR, LF] \<longrightarrow> fin \<or> 2 \<le> length ls)"

lemma restore_pieces: "(fin \<longrightarrow> ls \<noteq> []) \<Longrightarrow> restore_newlines ls nl fin = join nl (pieces ls fin)"
  by (auto simp: restore_newlines_def pieces_def join_snoc)

lemma pieces_plain: "plain ls \<Longrightarrow> plain (pieces ls fin) \<and> pieces ls fin \<noteq> []"
  by (auto simp: pieces_def)

lemma pieces_lines:
  "(\<not> fin \<longrightarrow> ls \<noteq> [] \<longrightarrow> last ls \<noteq> []) \<Longrightarrow>
     (if last (pieces ls fin) = [] then butlast (pieces ls fin) else pieces ls fin) = ls"
  by (auto simp: pieces_def)

lemma join_pieces_suffix:
  assumes "text_form ls nl fin"
  shows "suffix [LF] (join [LF] (pieces ls fin)) \<longleftrightarrow> fin"
proof -
  note f = assms [unfolded text_form_def]
  have "plain ls" using f by (elim conjE)
  note p = pieces_plain [OF this, THEN conjunct1, of fin] pieces_plain [OF this, THEN conjunct2, of fin]
  have "last (pieces ls fin) = [] \<and> 2 \<le> length (pieces ls fin) \<longleftrightarrow> fin"
  proof (cases fin)
    case True
    then have "ls \<noteq> []" using f by blast
    then have "1 \<le> length ls" by (simp add: Suc_le_eq)
    with True show ?thesis by (simp add: pieces_def)
  next
    case False
    then have "ls \<noteq> [] \<longrightarrow> last ls \<noteq> []" using f by blast
    with False show ?thesis by (simp add: pieces_def)
  qed
  then show ?thesis unfolding suffix_join [OF p] .
qed

lemma join_set: "c \<in> set (join sep ps) \<longleftrightarrow> (\<exists>p \<in> set ps. c \<in> set p) \<or> 2 \<le> length ps \<and> c \<in> set sep"
  by (induction sep ps rule: join.induct) auto

lemma is_utf8_endings: "nl \<in> {[LF], [CR, LF]} \<Longrightarrow> is_utf8 (join nl ps) \<longleftrightarrow> (\<forall>l \<in> set ps. is_utf8 l)"
  by (rule is_utf8_join) auto

lemma source_lines_restore:
  assumes "text_form ls nl fin"
  shows "source_lines path (restore_newlines ls nl fin) = Inr (ls, nl, fin)"
proof -
  let ?ps = "pieces ls fin" and ?t = "join [LF] (pieces ls fin)"
  note f = assms [unfolded text_form_def]
  have r: "restore_newlines ls nl fin = join nl ?ps" using f by (intro restore_pieces) blast
  have p: "plain ?ps" "?ps \<noteq> []" using f pieces_plain by auto
  have t: "text_lines ?t = ls" unfolding text_lines_join [OF p] using f by (intro pieces_lines) blast
  have cr: "CR \<notin> set ?t" using p(1) by (auto simp: join_set)
  have "\<forall>l \<in> set ?ps. is_utf8 l" using f by (auto simp: pieces_def)
  then have u: "is_utf8 (join nl ?ps)"
    using is_utf8_endings f by blast
  note suf = join_pieces_suffix [OF assms]
  have n: "normalize_newlines (join nl ?ps) = Inr (?t, nl, fin)"
  proof (cases "nl = [LF]")
    case True
    show ?thesis unfolding True normalize_newlines_def suf using cr by (simp only: if_False)
  next
    case False
    then have nl: "nl = [CR, LF]" using f by blast
    have e: "join [CR, LF] ?ps = with_ending [CR, LF] ?t" by (rule with_ending_join [OF p(1), symmetric])
    have "2 \<le> length ?ps" using f nl by (cases ls) (auto simp: pieces_def)
    then have c: "CR \<in> set (with_ending [CR, LF] ?t)" unfolding e [symmetric] by (simp add: join_set)
    have "LF \<notin> set (with_ending [] ?t)" "CR \<notin> set (with_ending [] ?t)"
      using cr by (auto simp: with_ending_def split: if_splits)
    then show ?thesis
      unfolding nl e normalize_newlines_def replace_crlf_with_ending [OF cr] suffix_with_ending [OF cr] suf with_ending_LF
      using c by (simp only: if_True if_False simp_thms)
  qed
  show ?thesis using u n t by (simp add: source_lines_def r map_error_def)
qed

lemma source_lines_form:
  assumes "source_lines path source = Inr (ls, nl, fin)"
  shows "text_form ls nl fin \<and> source = restore_newlines ls nl fin"
proof -
  obtain t where u: "is_utf8 source" and n: "normalize_newlines source = Inr (t, nl, fin)" and ls: "ls = text_lines t"
    using assms by (auto simp: source_lines_def)
  have t: "CR \<notin> set t \<and> source = with_ending nl t \<and> nl \<in> {[LF], [CR, LF]} \<and> (fin \<longleftrightarrow> suffix [LF] t) \<and>
      (nl = [CR, LF] \<longrightarrow> CR \<in> set source)"
  proof (cases "CR \<in> set source")
    case True
    then have r: "CR \<notin> set (replace_crlf [] source)" "LF \<notin> set (replace_crlf [] source)"
        "t = replace_crlf [LF] source" "nl = [CR, LF]" "fin = suffix [CR, LF] source"
      using n by (auto simp: normalize_newlines_def split: if_splits)
    have i: "CR \<notin> set t" "with_ending [CR, LF] t = source" using replace_crlf_inverse [OF r(1,2)] r(3) by simp_all
    have "fin \<longleftrightarrow> suffix [LF] t" using suffix_with_ending [OF i(1)] i(2) r(5) by simp
    then show ?thesis using i r(4) True by simp
  next
    case False
    then show ?thesis using n by (auto simp: normalize_newlines_def with_ending_LF)
  qed
  let ?ps = "split_on LF t"
  have j: "join [LF] ?ps = t" by (rule join_split_on)
  have p: "plain ?ps" "?ps \<noteq> []"
  proof -
    have "CR \<notin> set q" if "q \<in> set ?ps" for q using that t j join_set [of CR "[LF]" ?ps] by auto
    then show "plain ?ps" using split_on_free by blast
  qed simp
  have l: "ls = (if last ?ps = [] then butlast ?ps else ?ps)" using ls text_lines_join [OF p] j by simp
  have s: "source = join nl ?ps" using t with_ending_join [OF p(1), of nl] j by simp
  have fin: "fin \<longleftrightarrow> last ?ps = [] \<and> 2 \<le> length ?ps" using t suffix_join [OF p] j by simp
  have ps: "?ps = pieces ls fin"
  proof (cases "last ?ps = []")
    case True
    then have e: "?ps = ls @ [[]]" using l p(2) by (metis append_butlast_last_id)
    then have "fin \<longleftrightarrow> ls \<noteq> []" using fin by (simp add: Suc_le_eq)
    then show ?thesis using e by (simp add: pieces_def)
  next
    case False
    then show ?thesis using l fin p(2) by (simp add: pieces_def)
  qed
  have "2 \<le> length ?ps" if "nl = [CR, LF]" using t s p(1) that join_set [of CR nl ?ps] by auto
  then have two: "nl = [CR, LF] \<longrightarrow> fin \<or> 2 \<le> length ls" using l fin by auto
  have ne: "fin \<longrightarrow> ls \<noteq> []" using fin l by (cases ?ps) auto
  have "is_utf8 q" if "q \<in> set ?ps" for q
    using u s is_utf8_endings t that by blast
  then have "\<forall>q \<in> set ls. is_utf8 q" using l by (auto dest: in_set_butlastD)
  moreover have "plain ls" using l p(1) by (auto dest: in_set_butlastD)
  moreover have "\<not> fin \<longrightarrow> ls \<noteq> [] \<longrightarrow> last ls \<noteq> []"
  proof (intro impI notI)
    assume a: "\<not> fin" "ls \<noteq> []" "last ls = []"
    then have "?ps = ls" using ps by (simp add: pieces_def)
    then have n: "last ?ps = []" "length ?ps = length ls" using a(3) by simp_all
    from arg_cong [OF l, of length] have "length ls = length ?ps - 1" using n(1) by simp
    with a(2) n(2) show False by (cases ls) auto
  qed
  ultimately have "text_form ls nl fin" using t two ne by (simp add: text_form_def)
  moreover have "source = restore_newlines ls nl fin" using restore_pieces [OF ne] s ps by simp
  ultimately show ?thesis by blast
qed

section \<open>The integration block\<close>

abbreviation positions :: "nat \<Rightarrow> ('a \<Rightarrow> bool) \<Rightarrow> 'a list \<Rightarrow> nat list" where
  "positions n P ls \<equiv> map fst (filter (\<lambda>(index, line). P line) (enumerate n ls))"

lemma positions_Nil: "positions n P ls = [] \<longleftrightarrow> (\<forall>l \<in> set ls. \<not> P l)"
  by (induction ls arbitrary: n) auto

lemma positions_single:
  "positions n P ls = [k] \<longleftrightarrow> (\<exists>a x b. ls = a @ x # b \<and> k = n + length a \<and> P x \<and> (\<forall>y \<in> set a \<union> set b. \<not> P y))"
proof (induction ls arbitrary: n)
  case (Cons l ls)
  show ?case
  proof (cases "P l")
    case True
    then have "positions n P (l # ls) = [k] \<longleftrightarrow> k = n \<and> (\<forall>y \<in> set ls. \<not> P y)" using positions_Nil [of P "Suc n" ls] by auto
    also have "\<dots> \<longleftrightarrow> (\<exists>a x b. l # ls = a @ x # b \<and> k = n + length a \<and> P x \<and> (\<forall>y \<in> set a \<union> set b. \<not> P y))"
      using True by (auto simp: Cons_eq_append_conv)
    finally show ?thesis .
  next
    case False
    then have "positions n P (l # ls) = [k] \<longleftrightarrow> positions (Suc n) P ls = [k]" by simp
    also have "\<dots> \<longleftrightarrow> (\<exists>a x b. ls = a @ x # b \<and> k = n + length (l # a) \<and> P x \<and> (\<forall>y \<in> set (l # a) \<union> set b. \<not> P y))"
      unfolding Cons.IH using False by simp
    also have "\<dots> \<longleftrightarrow> (\<exists>a x b. l # ls = a @ x # b \<and> k = n + length a \<and> P x \<and> (\<forall>y \<in> set a \<union> set b. \<not> P y))" (is "_ \<longleftrightarrow> ?R")
    proof
      assume ?R
      then obtain a x b where r: "l # ls = a @ x # b" "k = n + length a" "P x" "\<forall>y \<in> set a \<union> set b. \<not> P y" by blast
      then obtain a' where "a = l # a'" using False by (cases a) auto
      with r show "\<exists>a x b. ls = a @ x # b \<and> k = n + length (l # a) \<and> P x \<and> (\<forall>y \<in> set (l # a) \<union> set b. \<not> P y)" by auto
    next
      assume "\<exists>a x b. ls = a @ x # b \<and> k = n + length (l # a) \<and> P x \<and> (\<forall>y \<in> set (l # a) \<union> set b. \<not> P y)"
      then show ?R by (metis append_Cons)
    qed
    finally show ?thesis .
  qed
qed simp

lemma block_bounds_Inr:
  "block_bounds starts ends missing ambiguous = Inr (i, j) \<longleftrightarrow> starts = [i] \<and> ends = [j] \<and> i < j"
proof (cases "length starts = 1 \<and> length ends = 1")
  case True
  then obtain s e where "starts = [s]" "ends = [e]" by (auto simp: length_Suc_conv)
  then show ?thesis by (auto simp: block_bounds_def not_le)
qed (auto simp: block_bounds_def)

lemma block_bounds_split:
  assumes "\<And>l. \<not> (P l \<and> Q l)"
  shows "block_bounds (positions 0 P ls) (positions 0 Q ls) missing ambiguous = Inr (i, j) \<longleftrightarrow>
     (\<exists>a s m t b. ls = a @ s # m @ t # b \<and> i = length a \<and> j = length a + 1 + length m \<and> P s \<and> Q t \<and>
        (\<forall>l \<in> set a \<union> set m \<union> set b. \<not> P l \<and> \<not> Q l))" (is "?L \<longleftrightarrow> ?R")
proof
  assume ?L
  then have s: "positions 0 P ls = [i]" "positions 0 Q ls = [j]" "i < j" by (auto simp: block_bounds_Inr)
  obtain a s c where a: "ls = a @ s # c" "i = length a" "P s" "\<forall>l \<in> set a \<union> set c. \<not> P l"
    using positions_single [of P 0 ls i] s(1) by auto
  obtain d t b where d: "ls = d @ t # b" "j = length d" "Q t" "\<forall>l \<in> set d \<union> set b. \<not> Q l"
    using positions_single [of Q 0 ls j] s(2) by auto
  have "length a < length d" using s(3) a(2) d(2) by simp
  moreover have "a @ s # c = d @ t # b" using a(1) d(1) by simp
  ultimately obtain m where "d = a @ s # m" "c = m @ t # b"
    by (auto simp: append_eq_append_conv2 append_eq_Cons_conv Cons_eq_append_conv)
  then show ?R using a d by (intro exI [of _ a] exI [of _ s] exI [of _ m] exI [of _ t] exI [of _ b]) auto
next
  assume ?R
  then obtain a s m t b where r: "ls = a @ s # m @ t # b" "i = length a" "j = length a + 1 + length m" "P s" "Q t"
    "\<forall>l \<in> set a \<union> set m \<union> set b. \<not> P l \<and> \<not> Q l" by blast
  have "positions 0 P ls = [i]" unfolding positions_single
    using r assms by (intro exI [of _ a] exI [of _ s] exI [of _ "m @ t # b"]) auto
  moreover have "positions 0 Q ls = [j]" unfolding positions_single
    using r assms by (intro exI [of _ "a @ s # m"] exI [of _ t] exI [of _ b]) auto
  ultimately show ?L using r(2,3) by (simp add: block_bounds_Inr)
qed

lemma strictly_sorted: "card (set ms) = length ms \<and> list_all (\<lambda>(a, b). a < b) (windows2 ms) \<longleftrightarrow> sorted_wrt (<) ms"
  for ms :: "'a::linorder list"
  using windows2_sorted [of ms] strict_sorted_iff [of ms] by (auto simp: list_all_iff distinct_card)

lemma planned_Inr:
  "planned sha kind path observed result = Inr out \<longleftrightarrow> owned_path path \<and> sha observed \<noteq> sha result \<and>
     out = Planned kind \<lparr> fe_path = path, fe_original_digest = sha observed, fe_content = result, fe_result_digest = sha result \<rparr>"
  by (auto simp: planned_def structured_file_edit_new_def change_path_new_iff Let_def)

lemma planned_eq:
  "planned sha kind path observed result = Inr (Planned k e) \<longleftrightarrow> k = kind \<and> owned_path path \<and> sha observed \<noteq> sha result \<and>
     e = \<lparr> fe_path = path, fe_original_digest = sha observed, fe_content = result, fe_result_digest = sha result \<rparr>"
  unfolding planned_Inr by auto

end
