(* ===== verification/Toml_Editor.thy ===== *)
theory Toml_Editor
  imports Source_Editor
begin

text \<open>
  Structured edits of TOML files (\<^verbatim>\<open>tools/application_mutator/src/editor.rs\<close>): Cargo dependencies, entries of string
  arrays, keyed strings and versioned identities. The crate \<^verbatim>\<open>toml_edit\<close>, which parses a document, changes it in place
  and prints it with its formatting kept, is a parameter; what a document holds is the tree its interface shows.
\<close>

section \<open>Documents\<close>

text \<open>\<^verbatim>\<open>Item\<close> and \<^verbatim>\<open>Value\<close> with the accessors that the editor uses. \<open>TomlScalar\<close> stands for numbers and dates.\<close>

datatype toml_item =
    TomlString string | TomlBoolean bool | TomlScalar | TomlArray "toml_item list"
  | TomlInlineTable "(string \<times> toml_item) list" | TomlTable "(string \<times> toml_item) list"
  | TomlArrayOfTables "(string \<times> toml_item) list list"

type_synonym toml_table = "(string \<times> toml_item) list"

fun toml_as_str :: "toml_item \<Rightarrow> string option" where
  "toml_as_str (TomlString s) = Some s" | "toml_as_str _ = None"

fun toml_as_bool :: "toml_item \<Rightarrow> bool option" where
  "toml_as_bool (TomlBoolean b) = Some b" | "toml_as_bool _ = None"

fun toml_as_array :: "toml_item \<Rightarrow> toml_item list option" where
  "toml_as_array (TomlArray xs) = Some xs" | "toml_as_array _ = None"

fun toml_as_table_like :: "toml_item \<Rightarrow> toml_table option" where
  "toml_as_table_like (TomlTable t) = Some t" | "toml_as_table_like (TomlInlineTable t) = Some t"
| "toml_as_table_like _ = None"

fun toml_as_array_of_tables :: "toml_item \<Rightarrow> toml_table list option" where
  "toml_as_array_of_tables (TomlArrayOfTables ts) = Some ts" | "toml_as_array_of_tables _ = None"

text \<open>The library: parsing, the root table, the changes the editor makes at a table path, and printing.
  \<open>toml_insert\<close> is \<^verbatim>\<open>TableLike::insert\<close>, \<open>toml_push\<close> is \<^verbatim>\<open>Array::push\<close> and \<open>toml_insert_table\<close> is
  \<^verbatim>\<open>ArrayOfTables::insert\<close>, each through a mutable reference into the document.\<close>

record 'd toml_library =
  toml_parse :: "string \<Rightarrow> 'd option"
  toml_root :: "'d \<Rightarrow> toml_table"
  toml_insert :: "string list \<Rightarrow> string \<Rightarrow> toml_item \<Rightarrow> 'd \<Rightarrow> 'd"
  toml_push :: "string list \<Rightarrow> string \<Rightarrow> string \<Rightarrow> 'd \<Rightarrow> 'd"
  toml_insert_table :: "string list \<Rightarrow> string \<Rightarrow> nat \<Rightarrow> toml_table \<Rightarrow> 'd \<Rightarrow> 'd"
  toml_to_string :: "'d \<Rightarrow> string"

section \<open>Validation\<close>

definition valid_toml_key :: "string \<Rightarrow> bool" where
  "valid_toml_key value \<longleftrightarrow> value \<noteq> [] \<and> length value \<le> 128 \<and>
     list_all (\<lambda>byte. is_ascii_alphanumeric byte \<or> byte = CHR ''-'' \<or> byte = CHR ''_'') value"

definition validate_toml_address ::
    "string list \<Rightarrow> string \<Rightarrow> string \<Rightarrow> change_path \<Rightarrow> structured_edit_error + unit" where
  "validate_toml_address table_path key entry path =
     reject_if (list_ex (\<lambda>part. \<not> valid_toml_key part) (table_path @ [key]) \<or> entry = [] \<or> list_ex is_control (utf8_chars entry))
       (edit_error_at InvalidInput path ''TOML integration addresses and string entries must use validated non-empty values'')"

definition toml_source :: "'d toml_library \<Rightarrow> change_path \<Rightarrow> content \<Rightarrow> string \<Rightarrow> structured_edit_error + 'd" where
  "toml_source T path observed_source not_utf8 =
     then_check (reject_if (\<not> is_utf8 observed_source) (edit_error_at InvalidSource path not_utf8))
       (required (toml_parse T observed_source)
         (edit_error_at InvalidSource path ''TOML integration source is not a supported document''))"

definition find_table :: "toml_table \<Rightarrow> string list \<Rightarrow> change_path \<Rightarrow> structured_edit_error + toml_table" where
  "find_table root table_path path =
     required (foldl (\<lambda>table segment. Option.bind table (\<lambda>t. Option.bind (map_of t segment) toml_as_table_like))
         (Some root) table_path)
       (edit_error_at MissingIntegrationPoint path ''declared TOML table integration point is missing or ambiguous'')"

definition three_numbers :: "string list \<Rightarrow> bool" where
  "three_numbers parts \<longleftrightarrow> length parts = 3 \<and>
     list_all (\<lambda>part. part \<noteq> [] \<and> list_all is_ascii_digit part \<and> (part = ''0'' \<or> \<not> prefix ''0'' part)) parts"

definition valid_release_version :: "string \<Rightarrow> bool" where
  "valid_release_version value =
     (case strip_prefix ''v'' value of None \<Rightarrow> False | Some version \<Rightarrow> three_numbers (split_on (CHR ''.'') version))"

definition valid_registry_version :: "string \<Rightarrow> bool" where
  "valid_registry_version value = three_numbers (split_on (CHR ''.'') value)"

section \<open>Cargo dependencies\<close>

datatype cargo_dependency_section = WorkspaceDependencies | Dependencies | DevDependencies | BuildDependencies

fun section_table_path :: "cargo_dependency_section \<Rightarrow> string list" where
  "section_table_path WorkspaceDependencies = [''workspace'', ''dependencies'']"
| "section_table_path Dependencies = [''dependencies'']"
| "section_table_path DevDependencies = [''dev-dependencies'']"
| "section_table_path BuildDependencies = [''build-dependencies'']"

text \<open>\<open>FrameworkRelease repository version default_features\<close>.\<close>

datatype cargo_dependency_source = WorkspaceSource | Registry string | FrameworkRelease string string bool

text \<open>The \<^verbatim>\<open>BTreeSet\<close> of features is their list in increasing order.\<close>

record cargo_dependency =
  cd_name :: string
  cd_source :: cargo_dependency_source
  cd_optional :: bool
  cd_features :: "string list"

definition dependency_workspace :: "string \<Rightarrow> bool \<Rightarrow> string list \<Rightarrow> cargo_dependency" where
  "dependency_workspace name optional features =
     \<lparr> cd_name = name, cd_source = WorkspaceSource, cd_optional = optional, cd_features = remdups (sort features) \<rparr>"

definition dependency_framework_release ::
    "string \<Rightarrow> string \<Rightarrow> string \<Rightarrow> bool \<Rightarrow> bool \<Rightarrow> string list \<Rightarrow> cargo_dependency" where
  "dependency_framework_release name repository version default_features optional features =
     \<lparr> cd_name = name, cd_source = FrameworkRelease repository version default_features, cd_optional = optional,
       cd_features = remdups (sort features) \<rparr>"

definition dependency_registry :: "string \<Rightarrow> string \<Rightarrow> bool \<Rightarrow> string list \<Rightarrow> cargo_dependency" where
  "dependency_registry name version optional features =
     \<lparr> cd_name = name, cd_source = Registry version, cd_optional = optional, cd_features = remdups (sort features) \<rparr>"

definition valid_cargo_name :: "string \<Rightarrow> bool" where
  "valid_cargo_name value \<longleftrightarrow> value \<noteq> [] \<and> length value \<le> 128 \<and>
     list_all (\<lambda>(index, byte). is_ascii_lowercase byte \<or> is_ascii_digit byte \<or>
       0 < index \<and> (byte = CHR ''-'' \<or> byte = CHR ''_'')) (enumerate 0 value)"

definition valid_cargo_feature :: "string \<Rightarrow> bool" where
  "valid_cargo_feature value \<longleftrightarrow> value \<noteq> [] \<and> length value \<le> 256 \<and>
     \<not> list_ex (\<lambda>ch. ch \<in> set whitespace_encodings) (utf8_chars value) \<and>
     list_all (\<lambda>byte. is_ascii_alphanumeric byte \<or> byte \<in> set ''-_:/?.'') value"

definition is_ascii_whitespace :: "char \<Rightarrow> bool" where
  "is_ascii_whitespace c \<longleftrightarrow> (of_char c :: nat) \<in> {9, 10, 12, 13, 32}"

definition is_ascii_control :: "char \<Rightarrow> bool" where
  "is_ascii_control c \<longleftrightarrow> (of_char c :: nat) < 32 \<or> (of_char c :: nat) = 127"

definition valid_https_repository :: "string \<Rightarrow> bool" where
  "valid_https_repository value =
     (case strip_prefix ''https://'' value of
        None \<Rightarrow> False
      | Some location \<Rightarrow>
          location \<noteq> [] \<and> CHR ''/'' \<in> set location \<and>
          \<not> list_ex (\<lambda>byte. is_ascii_whitespace byte \<or> is_ascii_control byte) location \<and>
          \<not> list_ex (\<lambda>c. c \<in> {CHR ''@'', CHR ''?'', CHR ''#'', CHR 0x5C}) location)"

definition validate_cargo_dependency ::
    "cargo_dependency_section \<Rightarrow> cargo_dependency \<Rightarrow> change_path \<Rightarrow> structured_edit_error + unit" where
  "validate_cargo_dependency section dependency path =
     then_check (reject_if (\<not> valid_cargo_name (cd_name dependency) \<or> list_ex (\<lambda>f. \<not> valid_cargo_feature f) (cd_features dependency))
       (edit_error_at InvalidInput path ''Cargo dependency names and feature selections must use validated Cargo identifiers''))
     (case (cd_source dependency, section) of
        (FrameworkRelease repository version _, WorkspaceDependencies) \<Rightarrow>
          reject_if (\<not> (\<not> cd_optional dependency \<and> valid_https_repository repository \<and> valid_release_version version))
            (edit_error_at InvalidInput path ''framework dependencies require a credential-free HTTPS repository and stable SemVer tag'')
      | (WorkspaceSource, WorkspaceDependencies) \<Rightarrow>
          Inl (edit_error_at InvalidInput path ''workspace dependency declarations require an immutable framework release source'')
      | (Registry version, WorkspaceDependencies) \<Rightarrow>
          reject_if (\<not> (\<not> cd_optional dependency \<and> valid_registry_version version))
            (edit_error_at InvalidInput path ''registry workspace dependencies require an exact stable SemVer version'')
      | (WorkspaceSource, _) \<Rightarrow> Inr ()
      | (_, _) \<Rightarrow>
          Inl (edit_error_at InvalidInput path ''application package dependencies must consume the workspace declaration''))"

text \<open>Whether an existing declaration is the dependency.\<close>

definition source_matches :: "toml_table \<Rightarrow> cargo_dependency_source \<Rightarrow> bool" where
  "source_matches declaration source =
     (let get = map_of declaration;
          str = (\<lambda>key. Option.bind (get key) toml_as_str);
          flag = (\<lambda>key. Option.bind (get key) toml_as_bool)
      in case source of
           WorkspaceSource \<Rightarrow>
             flag ''workspace'' = Some True \<and> get ''git'' = None \<and> get ''tag'' = None \<and> get ''default-features'' = None
         | Registry version \<Rightarrow>
             get ''workspace'' = None \<and> get ''git'' = None \<and> get ''tag'' = None \<and> str ''version'' = Some version \<and>
             get ''default-features'' = None
         | FrameworkRelease repository version default_features \<Rightarrow>
             get ''workspace'' = None \<and> str ''git'' = Some repository \<and> str ''tag'' = Some version \<and>
             (case flag ''default-features'' of Some value \<Rightarrow> value = default_features | None \<Rightarrow> default_features))"

definition optional_matches :: "toml_table \<Rightarrow> bool \<Rightarrow> bool" where
  "optional_matches declaration optional =
     (case Option.bind (map_of declaration ''optional'') toml_as_bool of Some value \<Rightarrow> value = optional | None \<Rightarrow> \<not> optional)"

definition all_strings :: "toml_item list \<Rightarrow> string list option" where
  "all_strings items =
     (if list_all (\<lambda>item. toml_as_str item \<noteq> None) items then Some (map (the \<circ> toml_as_str) items) else None)"

definition features_match :: "toml_table \<Rightarrow> string list \<Rightarrow> bool" where
  "features_match declaration features =
     (case Option.bind (map_of declaration ''features'') toml_as_array of
        Some items \<Rightarrow>
          (case all_strings items of
             None \<Rightarrow> False
           | Some entries \<Rightarrow> length entries = length features \<and> set entries = set features)
      | None \<Rightarrow> map_of declaration ''features'' = None \<and> features = [])"

definition cargo_dependency_matches :: "toml_item \<Rightarrow> cargo_dependency \<Rightarrow> bool" where
  "cargo_dependency_matches existing dependency =
     (case toml_as_table_like existing of
        None \<Rightarrow> False
      | Some declaration \<Rightarrow>
          list_all (\<lambda>(key, _). key \<in> set [''workspace'', ''git'', ''tag'', ''version'', ''default-features'', ''optional'', ''features''])
            declaration \<and>
          source_matches declaration (cd_source dependency) \<and> optional_matches declaration (cd_optional dependency) \<and>
          features_match declaration (cd_features dependency))"

definition source_entries :: "cargo_dependency_source \<Rightarrow> toml_table" where
  "source_entries source =
     (case source of
        WorkspaceSource \<Rightarrow> [(''workspace'', TomlBoolean True)]
      | Registry version \<Rightarrow> [(''version'', TomlString version)]
      | FrameworkRelease repository version default_features \<Rightarrow>
          [(''git'', TomlString repository), (''tag'', TomlString version)] @
          (if \<not> default_features then [(''default-features'', TomlBoolean False)] else []))"

definition cargo_dependency_value :: "cargo_dependency \<Rightarrow> toml_item" where
  "cargo_dependency_value dependency =
     TomlInlineTable (source_entries (cd_source dependency) @
       (if cd_optional dependency then [(''optional'', TomlBoolean True)] else []) @
       (if cd_features dependency \<noteq> [] then [(''features'', TomlArray (map TomlString (cd_features dependency)))] else []))"

definition plan_cargo_dependency ::
    "'d toml_library \<Rightarrow> (content \<Rightarrow> content_digest) \<Rightarrow> string \<Rightarrow> content \<Rightarrow> cargo_dependency_section \<Rightarrow> cargo_dependency
      \<Rightarrow> structured_edit_error + structured_edit_outcome" where
  "plan_cargo_dependency T sha path observed_source section dependency =
     and_then (map_error of_change_plan_error (change_path_new path)) (\<lambda>path.
     then_check (validate_cargo_dependency section dependency path)
     (and_then (toml_source T path observed_source ''Cargo integration source must be UTF-8'') (\<lambda>document.
      and_then (find_table (toml_root T document) (section_table_path section) path) (\<lambda>table.
      case map_of table (cd_name dependency) of
        Some existing \<Rightarrow>
          if cargo_dependency_matches existing dependency then Inr (AlreadyPresent CargoDependency path)
          else Inl (edit_error_at TomlConflict path ''Cargo dependency already exists with a different declaration'')
      | None \<Rightarrow>
          planned sha CargoDependency path observed_source
            (toml_to_string T (toml_insert T (section_table_path section) (cd_name dependency)
               (cargo_dependency_value dependency) document))))))"

definition plan_cargo_dependency_transition ::
    "'d toml_library \<Rightarrow> (content \<Rightarrow> content_digest) \<Rightarrow> string \<Rightarrow> content \<Rightarrow> cargo_dependency_section \<Rightarrow> cargo_dependency
      \<Rightarrow> cargo_dependency \<Rightarrow> structured_edit_error + structured_edit_outcome" where
  "plan_cargo_dependency_transition T sha path observed_source section source target =
     and_then (map_error of_change_plan_error (change_path_new path)) (\<lambda>path.
     then_check (validate_cargo_dependency section source path)
     (then_check (validate_cargo_dependency section target path)
     (case (cd_source source, cd_source target) of
        (FrameworkRelease source_repository source_version source_default_features,
         FrameworkRelease target_repository target_version target_default_features) \<Rightarrow>
          then_check (reject_if (cd_name source \<noteq> cd_name target \<or> cd_optional source \<noteq> cd_optional target \<or>
              cd_features source \<noteq> cd_features target \<or> source_repository \<noteq> target_repository \<or>
              source_default_features \<noteq> target_default_features \<or> source_version = target_version)
            (edit_error_at InvalidInput path ''framework dependency transitions may change only the authenticated release version''))
          (and_then (toml_source T path observed_source ''Cargo integration source must be UTF-8'') (\<lambda>document.
           and_then (find_table (toml_root T document) (section_table_path section) path) (\<lambda>table.
           and_then (required (map_of table (cd_name source))
             (edit_error_at TomlConflict path ''framework dependency required by the target composition is missing'')) (\<lambda>existing.
           then_check (reject_if (\<not> cargo_dependency_matches existing source)
             (edit_error_at TomlConflict path ''framework dependency does not match the authenticated source release''))
           (planned sha CargoDependency path observed_source
             (toml_to_string T (toml_insert T (section_table_path section) (cd_name target)
                (cargo_dependency_value target) document)))))))
      | _ \<Rightarrow>
          Inl (edit_error_at InvalidInput path ''framework dependency transitions may change only the authenticated release source''))))"

section \<open>Strings and identities\<close>

definition plan_toml_array_string ::
    "'d toml_library \<Rightarrow> (content \<Rightarrow> content_digest) \<Rightarrow> string \<Rightarrow> content \<Rightarrow> string list \<Rightarrow> string \<Rightarrow> string
      \<Rightarrow> structured_edit_error + structured_edit_outcome" where
  "plan_toml_array_string T sha path observed_source table_path key entry =
     and_then (map_error of_change_plan_error (change_path_new path)) (\<lambda>path.
     then_check (validate_toml_address table_path key entry path)
     (and_then (toml_source T path observed_source ''TOML integration source must be UTF-8'') (\<lambda>document.
      and_then (find_table (toml_root T document) table_path path) (\<lambda>table.
      and_then (required (Option.bind (map_of table key) toml_as_array)
        (edit_error_at MissingIntegrationPoint path ''declared TOML array integration point is missing or has another type'')) (\<lambda>array.
      and_then (required (all_strings array)
        (edit_error_at TomlConflict path ''declared TOML array integration point contains a non-string entry'')) (\<lambda>entries.
      then_check (reject_if (card (set entries) \<noteq> length entries)
        (edit_error_at DuplicateRegistration path ''declared TOML array integration point contains duplicate entries''))
      (if entry \<in> set entries then Inr (AlreadyPresent TomlArrayString path)
       else planned sha TomlArrayString path observed_source
              (toml_to_string T (toml_push T table_path key entry document)))))))))"

text \<open>The loop over the existing identities: it returns early at the entry with the given id.\<close>

fun scan_identities ::
    "change_path \<Rightarrow> string \<Rightarrow> string \<Rightarrow> toml_table list \<Rightarrow> structured_edit_error + (structured_edit_outcome + string list)" where
  "scan_identities path ident version [] = Inr (Inr [])"
| "scan_identities path ident version (entry # entries) =
     and_then (required (Option.bind (map_of entry ''id'') toml_as_str)
       (edit_error_at TomlConflict path ''TOML identity entry has no string `id`'')) (\<lambda>entry_id.
     and_then (required (Option.bind (map_of entry ''version'') toml_as_str)
       (edit_error_at TomlConflict path ''TOML identity entry has no string `version`'')) (\<lambda>entry_version.
     if entry_id = ident
     then (if entry_version = version then Inr (Inl (AlreadyPresent TomlArrayTable path))
           else Inl (edit_error_at TomlConflict path
             (''TOML identity `'' @ ident @ ''` already uses version `'' @ entry_version @ ''`'')))
     else and_then (scan_identities path ident version entries) (\<lambda>r.
       case r of Inl outcome \<Rightarrow> Inr (Inl outcome) | Inr identities \<Rightarrow> Inr (Inr (entry_id # identities)))))"

definition plan_toml_identity_entry ::
    "'d toml_library \<Rightarrow> (content \<Rightarrow> content_digest) \<Rightarrow> string \<Rightarrow> content \<Rightarrow> string list \<Rightarrow> string \<Rightarrow> string \<Rightarrow> string
      \<Rightarrow> structured_edit_error + structured_edit_outcome" where
  "plan_toml_identity_entry T sha path observed_source table_path key ident version =
     and_then (map_error of_change_plan_error (change_path_new path)) (\<lambda>path.
     then_check (reject_if (table_path = [] \<or> list_ex (\<lambda>part. \<not> valid_toml_key part) table_path \<or> \<not> valid_toml_key key \<or>
         \<not> valid_marker_identifier ident \<or> \<not> valid_release_version version)
       (edit_error_at InvalidInput path ''TOML identity entries require validated table, key, id, and release version values''))
     (and_then (toml_source T path observed_source ''TOML integration source must be UTF-8'') (\<lambda>document.
      and_then (find_table (toml_root T document) table_path path) (\<lambda>table.
      let missing = map_of table key = None;
          document = (if missing then toml_insert T table_path key (TomlArrayOfTables []) document else document);
          item = (if missing then Some (TomlArrayOfTables []) else map_of table key)
      in and_then (required (Option.bind item toml_as_array_of_tables)
        (edit_error_at MissingIntegrationPoint path ''declared TOML array-of-tables integration point has another type'')) (\<lambda>entries.
      and_then (scan_identities path ident version entries) (\<lambda>r.
      case r of
        Inl outcome \<Rightarrow> Inr outcome
      | Inr identities \<Rightarrow>
          then_check (reject_if (\<not> sorted identities \<or> card (set identities) \<noteq> length identities)
            (edit_error_at TomlConflict path ''TOML identity entries must be unique and sorted by id''))
          (let position = length (takeWhile (\<lambda>existing. existing < ident) identities)
           in planned sha TomlArrayTable path observed_source
                (toml_to_string T (toml_insert_table T table_path key position
                   [(''id'', TomlString ident), (''version'', TomlString version)] document)))))))))"

definition plan_toml_table_string ::
    "'d toml_library \<Rightarrow> (content \<Rightarrow> content_digest) \<Rightarrow> string \<Rightarrow> content \<Rightarrow> string list \<Rightarrow> string \<Rightarrow> string
      \<Rightarrow> structured_edit_error + structured_edit_outcome" where
  "plan_toml_table_string T sha path observed_source table_path key entry =
     and_then (map_error of_change_plan_error (change_path_new path)) (\<lambda>path.
     then_check (validate_toml_address table_path key entry path)
     (and_then (toml_source T path observed_source ''TOML integration source must be UTF-8'') (\<lambda>document.
      and_then (find_table (toml_root T document) table_path path) (\<lambda>table.
      case map_of table key of
        Some existing \<Rightarrow>
          if toml_as_str existing = Some entry then Inr (AlreadyPresent TomlTableString path)
          else Inl (edit_error_at TomlConflict path ''declared TOML key already exists with a different value or type'')
      | None \<Rightarrow>
          planned sha TomlTableString path observed_source
            (toml_to_string T (toml_insert T table_path key (TomlString entry) document))))))"

section \<open>Declarations\<close>

text \<open>The constructors give the features in increasing order.\<close>

definition canonical :: "cargo_dependency \<Rightarrow> bool" where
  "canonical dependency \<longleftrightarrow> sorted_wrt (<) (cd_features dependency)"

lemma constructors_canonical:
  "canonical (dependency_workspace n opt fs)" "canonical (dependency_registry n v opt fs)"
  "canonical (dependency_framework_release n r v df opt fs)"
  by (simp_all add: canonical_def dependency_workspace_def dependency_registry_def dependency_framework_release_def
      strict_sorted_iff sorted_remdups)

lemma all_strings_map [simp]: "all_strings (map TomlString xs) = Some xs"
  by (auto simp: all_strings_def list_all_iff comp_def)

lemma canonical_features: "canonical a \<Longrightarrow> canonical b \<Longrightarrow>
    length (cd_features a) = length (cd_features b) \<and> set (cd_features a) = set (cd_features b) \<longleftrightarrow> cd_features a = cd_features b"
  unfolding canonical_def using strict_sorted_equal by metis

lemma features_match_unique:
  assumes "features_match t (cd_features a)" "features_match t (cd_features b)" "canonical a" "canonical b"
  shows "cd_features a = cd_features b"
proof (cases "Option.bind (map_of t ''features'') toml_as_array")
  case None
  then show ?thesis using assms(1,2) by (simp add: features_match_def)
next
  case (Some items)
  then obtain entries where "length entries = length (cd_features a)" "set entries = set (cd_features a)"
    "length entries = length (cd_features b)" "set entries = set (cd_features b)"
    using assms(1,2) by (auto simp: features_match_def split: option.splits)
  then show ?thesis using canonical_features [OF assms(3,4)] by simp
qed

lemma source_matches_unique: "source_matches t s \<Longrightarrow> source_matches t s' \<Longrightarrow> s = s'"
  by (cases s; cases s') (auto simp: source_matches_def Let_def split: option.splits)

lemma optional_matches_unique: "optional_matches t x \<Longrightarrow> optional_matches t y \<Longrightarrow> x = y"
  by (auto simp: optional_matches_def split: option.splits)

lemma cargo_dependency_matches_unique:
  assumes "cargo_dependency_matches item a" "cargo_dependency_matches item b" "canonical a" "canonical b" "cd_name a = cd_name b"
  shows "a = b"
proof -
  obtain t where t: "toml_as_table_like item = Some t" using assms(1) by (auto simp: cargo_dependency_matches_def split: option.splits)
  then have "source_matches t (cd_source d) \<and> optional_matches t (cd_optional d) \<and> features_match t (cd_features d)"
    if "cargo_dependency_matches item d" for d using that by (simp add: cargo_dependency_matches_def)
  note m = this [OF assms(1)] this [OF assms(2)]
  have "cd_source a = cd_source b" "cd_optional a = cd_optional b" using m source_matches_unique optional_matches_unique by blast+
  moreover have "cd_features a = cd_features b" using m assms(3,4) features_match_unique by blast
  ultimately show ?thesis using assms(5) by (cases a; cases b) simp
qed

lemma cargo_dependency_value_matches: "cargo_dependency_matches (cargo_dependency_value d) d"
  by (cases "cd_source d"; cases "cd_optional d"; cases "cd_features d = []")
     (simp_all add: cargo_dependency_matches_def cargo_dependency_value_def source_entries_def source_matches_def
        optional_matches_def features_match_def Let_def)

text \<open>The declaration written for a dependency is recognised as that dependency and as no other of its name.\<close>

theorem cargo_declaration_exact:
  assumes "canonical a" "canonical b" "cd_name a = cd_name b"
  shows "cargo_dependency_matches (cargo_dependency_value a) b \<longleftrightarrow> a = b"
  using cargo_dependency_value_matches cargo_dependency_matches_unique assms by blast


definition sample_dependency :: "string \<Rightarrow> cargo_dependency" where
  "sample_dependency version = dependency_framework_release ''hegira-cache'' ''https://example.org/hegira'' version False False [''redis'', ''memory'']"

lemma cargo_declaration_exact_witness:
  "\<not> cargo_dependency_matches (cargo_dependency_value (sample_dependency ''v1.2.3'')) (sample_dependency ''v1.2.4'')"
proof -
  have "canonical (sample_dependency v)" for v unfolding sample_dependency_def by (rule constructors_canonical)
  then show ?thesis
    using cargo_declaration_exact [of "sample_dependency ''v1.2.3''" "sample_dependency ''v1.2.4''"]
    by (simp add: sample_dependency_def dependency_framework_release_def)
qed

end
