(* ===== verification/Installation.thy ===== *)
theory Installation
  imports Toml_Editor
begin

text \<open>
  Installation of components (\<^verbatim>\<open>tools/application_mutator/src/installation.rs\<close>): the closed set of places of an
  application that a component may contribute to, the edits planned there, and the composition of contributions into
  one change plan. The constructors of the enumerations are renamed where two of them would clash; their order is that
  of the source.
\<close>

section \<open>Errors\<close>

datatype component_installation_error_kind =
    InvalidComponent | DuplicateInstalledComponent | AlreadyInstalled | InvalidContributionOwnership | HistoricalMigrationEdit
  | ConflictingContribution | EmptyInstallation | InvalidChangePlan

record component_installation_error =
  ie_kind :: component_installation_error_kind
  ie_path :: "change_path option"
  ie_message :: string

definition installation_error_at ::
    "component_installation_error_kind \<Rightarrow> change_path \<Rightarrow> string \<Rightarrow> component_installation_error" where
  "installation_error_at kind path message = \<lparr> ie_kind = kind, ie_path = Some path, ie_message = message \<rparr>"

definition installation_error_plan :: "change_plan_error \<Rightarrow> component_installation_error" where
  "installation_error_plan e = \<lparr> ie_kind = InvalidChangePlan, ie_path = ce_path e, ie_message = ce_message e \<rparr>"

section \<open>Owners\<close>

datatype application_file_owner =
    WorkspaceManifest | ManifestFile | ConfigurationFiles | ServerCrate | WebCrate | DomainSharedCrate | DomainCrate
  | ApplicationContractsCrate | ApplicationCrate | InfrastructureCrate | PresentationCrate

definition below :: "string \<Rightarrow> string \<Rightarrow> bool" where
  "below path root = (case strip_prefix root path of None \<Rightarrow> False | Some remainder \<Rightarrow> prefix ''/'' remainder)"

fun owns :: "application_file_owner \<Rightarrow> change_path \<Rightarrow> bool" where
  "owns WorkspaceManifest path = (path = ''Cargo.toml'')"
| "owns ManifestFile path = (path = ''hegira.toml'')"
| "owns ConfigurationFiles path = below path ''config''"
| "owns ServerCrate path = below path ''apps/server''"
| "owns WebCrate path = below path ''apps/web''"
| "owns DomainSharedCrate path = below path ''crates/domain_shared''"
| "owns DomainCrate path = below path ''crates/domain''"
| "owns ApplicationContractsCrate path = below path ''crates/application_contracts''"
| "owns ApplicationCrate path = below path ''crates/application''"
| "owns InfrastructureCrate path = below path ''crates/infrastructure''"
| "owns PresentationCrate path = below path ''crates/presentation''"

definition validate_contribution_ownership ::
    "application_file_owner \<Rightarrow> change_path \<Rightarrow> component_installation_error + unit" where
  "validate_contribution_ownership owner path =
     (if owns owner path then Inr ()
      else Inl (installation_error_at InvalidContributionOwnership path
        ''component contribution path is outside its canonical application owner''))"

definition is_historical_migration :: "change_path \<Rightarrow> bool" where
  "is_historical_migration path = prefix ''crates/infrastructure/migrations/'' path"

section \<open>Contributions\<close>

record component_artifact =
  ca_owner :: application_file_owner
  ca_creation :: file_creation

record component_integration =
  ci_owner :: application_file_owner
  ci_edit :: structured_file_edit

datatype component_contribution = Artifact component_artifact | Integration component_integration

definition component_artifact_new ::
    "(content \<Rightarrow> content_digest) \<Rightarrow> application_file_owner \<Rightarrow> string \<Rightarrow> content
      \<Rightarrow> component_installation_error + component_artifact" where
  "component_artifact_new sha owner path content =
     and_then (map_error installation_error_plan (file_creation_new sha path content)) (\<lambda>creation.
     then_check (validate_contribution_ownership owner (fn_path creation))
       (Inr \<lparr> ca_owner = owner, ca_creation = creation \<rparr>))"

definition component_integration_new ::
    "application_file_owner \<Rightarrow> structured_file_edit \<Rightarrow> component_installation_error + component_integration" where
  "component_integration_new owner edit =
     then_check (validate_contribution_ownership owner (fe_path edit))
     (then_check (reject_if (is_historical_migration (fe_path edit))
        (installation_error_at HistoricalMigrationEdit (fe_path edit)
          ''component installation cannot edit historical application migrations''))
       (Inr \<lparr> ci_owner = owner, ci_edit = edit \<rparr>))"

fun contribution_owner :: "component_contribution \<Rightarrow> application_file_owner" where
  "contribution_owner (Artifact a) = ca_owner a"
| "contribution_owner (Integration i) = ci_owner i"

fun contribution_path :: "component_contribution \<Rightarrow> change_path" where
  "contribution_path (Artifact a) = fn_path (ca_creation a)"
| "contribution_path (Integration i) = fe_path (ci_edit i)"

fun contribution_resulting_content :: "component_contribution \<Rightarrow> content" where
  "contribution_resulting_content (Artifact a) = fn_content (ca_creation a)"
| "contribution_resulting_content (Integration i) = fe_content (ci_edit i)"

fun into_parts :: "component_contribution \<Rightarrow> application_file_owner \<times> planned_file_change" where
  "into_parts (Artifact a) = (ca_owner a, PCreate (ca_creation a))"
| "into_parts (Integration i) = (ci_owner i, PEdit (ci_edit i))"

text \<open>The \<^verbatim>\<open>match (previous, contribution)\<close> with its guards; \<open>None\<close> is its last arm.\<close>

fun chain_contributions :: "component_contribution \<Rightarrow> component_contribution \<Rightarrow> component_contribution option" where
  "chain_contributions (Artifact a) (Integration i) =
     (if fe_original_digest (ci_edit i) = fn_result_digest (ca_creation a)
      then Some (Artifact (a\<lparr> ca_creation := (ca_creation a)\<lparr> fn_content := fe_content (ci_edit i),
        fn_result_digest := fe_result_digest (ci_edit i) \<rparr> \<rparr>))
      else None)"
| "chain_contributions (Integration p) (Integration n) =
     (if fe_original_digest (ci_edit n) = fe_result_digest (ci_edit p)
      then Some (Integration (p\<lparr> ci_edit := (ci_edit p)\<lparr> fe_content := fe_content (ci_edit n),
        fe_result_digest := fe_result_digest (ci_edit n) \<rparr> \<rparr>))
      else None)"
| "chain_contributions _ _ = None"

fun compose_contributions ::
    "(change_path, component_contribution) btree \<Rightarrow> component_contribution list
      \<Rightarrow> component_installation_error + (change_path, component_contribution) btree" where
  "compose_contributions composed [] = Inr composed"
| "compose_contributions composed (contribution # rest) =
     (let path = contribution_path contribution
      in case bt_get composed path of
           None \<Rightarrow> compose_contributions (bt_insert path contribution composed) rest
         | Some previous \<Rightarrow>
             (let removed = bt_remove path composed
              in if contribution_owner previous \<noteq> contribution_owner contribution
                 then Inl (installation_error_at InvalidContributionOwnership path
                   ''component contribution sequence changes the canonical owner of one path'')
                 else case chain_contributions previous contribution of
                        None \<Rightarrow> Inl (installation_error_at ConflictingContribution path
                          ''component contribution sequence does not preserve the preceding result digest'')
                      | Some chained \<Rightarrow> compose_contributions (bt_insert path chained removed) rest))"

definition compose_component_contributions ::
    "component_contribution list \<Rightarrow> component_installation_error + component_contribution list" where
  "compose_component_contributions contributions =
     and_then (compose_contributions [] contributions) (\<lambda>composed. Inr (bt_values composed))"

section \<open>Targets\<close>

datatype component_rust_module_target =
    ModuleDomainShared | ModuleDomain | ModuleApplicationContracts | ModuleApplication | ModuleInfrastructure
    | ModulePresentation | ModuleServer | ModuleWeb

fun module_owner_and_path :: "component_rust_module_target \<Rightarrow> application_file_owner \<times> string" where
  "module_owner_and_path ModuleDomainShared = (DomainSharedCrate, ''crates/domain_shared/src/lib.rs'')"
| "module_owner_and_path ModuleDomain = (DomainCrate, ''crates/domain/src/lib.rs'')"
| "module_owner_and_path ModuleApplicationContracts = (ApplicationContractsCrate, ''crates/application_contracts/src/lib.rs'')"
| "module_owner_and_path ModuleApplication = (ApplicationCrate, ''crates/application/src/lib.rs'')"
| "module_owner_and_path ModuleInfrastructure = (InfrastructureCrate, ''crates/infrastructure/src/lib.rs'')"
| "module_owner_and_path ModulePresentation = (PresentationCrate, ''crates/presentation/src/lib.rs'')"
| "module_owner_and_path ModuleServer = (ServerCrate, ''apps/server/src/lib.rs'')"
| "module_owner_and_path ModuleWeb = (WebCrate, ''apps/web/src/lib.rs'')"

datatype component_cargo_manifest =
    ManifestWorkspace | ManifestDomainShared | ManifestDomain | ManifestApplicationContracts |
    ManifestApplication | ManifestInfrastructure | ManifestPresentation | ManifestServer | ManifestWeb

fun manifest_owner_and_path :: "component_cargo_manifest \<Rightarrow> application_file_owner \<times> string" where
  "manifest_owner_and_path ManifestWorkspace = (WorkspaceManifest, ''Cargo.toml'')"
| "manifest_owner_and_path ManifestDomainShared = (DomainSharedCrate, ''crates/domain_shared/Cargo.toml'')"
| "manifest_owner_and_path ManifestDomain = (DomainCrate, ''crates/domain/Cargo.toml'')"
| "manifest_owner_and_path ManifestApplicationContracts = (ApplicationContractsCrate, ''crates/application_contracts/Cargo.toml'')"
| "manifest_owner_and_path ManifestApplication = (ApplicationCrate, ''crates/application/Cargo.toml'')"
| "manifest_owner_and_path ManifestInfrastructure = (InfrastructureCrate, ''crates/infrastructure/Cargo.toml'')"
| "manifest_owner_and_path ManifestPresentation = (PresentationCrate, ''crates/presentation/Cargo.toml'')"
| "manifest_owner_and_path ManifestServer = (ServerCrate, ''apps/server/Cargo.toml'')"
| "manifest_owner_and_path ManifestWeb = (WebCrate, ''apps/web/Cargo.toml'')"

datatype component_managed_rust_target =
    InfrastructureConfigurationFields | InfrastructurePostgresMigrationSources |
    InfrastructureSqliteMigrationSources | ServerInitialization | ServerPreflight | ServerRateLimit |
    ServerModules | ServerBearerRoutes | ServerCookieBffPolicy | ServerOpenApiDocuments |
    ServerLeptosContexts | WebDashboardNavigation | WebProviders | WebNativeRoutes | WebSplitRoutes |
    WebNavigationItems

fun managed_integration :: "component_managed_rust_target \<Rightarrow> application_file_owner \<times> string \<times> string" where
  "managed_integration InfrastructureConfigurationFields = (InfrastructureCrate, ''crates/infrastructure/src/config.rs'', ''module-config-fields'')"
| "managed_integration InfrastructurePostgresMigrationSources = (InfrastructureCrate, ''crates/infrastructure/src/operations.rs'', ''module-migrations-postgres'')"
| "managed_integration InfrastructureSqliteMigrationSources = (InfrastructureCrate, ''crates/infrastructure/src/operations.rs'', ''module-migrations-sqlite'')"
| "managed_integration ServerBearerRoutes = (ServerCrate, ''apps/server/src/server.rs'', ''resource-bearer-routes'')"
| "managed_integration ServerInitialization = (ServerCrate, ''apps/server/src/server.rs'', ''module-initialization'')"
| "managed_integration ServerPreflight = (ServerCrate, ''apps/server/src/server.rs'', ''module-preflight'')"
| "managed_integration ServerRateLimit = (ServerCrate, ''apps/server/src/server.rs'', ''module-rate-limit'')"
| "managed_integration ServerModules = (ServerCrate, ''apps/server/src/lib.rs'', ''module-server-modules'')"
| "managed_integration ServerCookieBffPolicy = (ServerCrate, ''apps/server/src/server.rs'', ''cookie-bff-policy'')"
| "managed_integration ServerOpenApiDocuments = (ServerCrate, ''apps/server/src/server.rs'', ''resource-openapi-documents'')"
| "managed_integration ServerLeptosContexts = (ServerCrate, ''apps/server/src/server.rs'', ''resource-leptos-contexts'')"
| "managed_integration WebDashboardNavigation = (WebCrate, ''apps/web/src/dashboard.rs'', ''module-navigation'')"
| "managed_integration WebProviders = (WebCrate, ''apps/web/src/root.rs'', ''module-web-providers'')"
| "managed_integration WebNativeRoutes = (WebCrate, ''apps/web/src/routes.rs'', ''resource-routes-native'')"
| "managed_integration WebSplitRoutes = (WebCrate, ''apps/web/src/routes.rs'', ''resource-routes-split'')"
| "managed_integration WebNavigationItems = (WebCrate, ''apps/web/src/app/navigation.rs'', ''nav-items'')"

datatype component_configuration_target = Capabilities | Components | Modules

fun configuration_integration ::
    "component_configuration_target \<Rightarrow> application_file_owner \<times> string \<times> string list \<times> string" where
  "configuration_integration Capabilities = (ManifestFile, ''hegira.toml'', [''composition''], ''capabilities'')"
| "configuration_integration Components = (ManifestFile, ''hegira.toml'', [], [])"
| "configuration_integration Modules = (ManifestFile, ''hegira.toml'', [], [])"

section \<open>Edits of a component\<close>

datatype component_edit_result =
    PlannedContribution component_contribution
  | ContributionPresent application_file_owner change_path structured_edit_kind

datatype component_edit_error =
    Structured structured_edit_error
  | InstallationError component_installation_error
  | UnsupportedCargoSection
  | UnsupportedConfigurationTarget

fun structured_kind :: "component_edit_error \<Rightarrow> structured_edit_error_kind option" where
  "structured_kind (Structured e) = Some (se_kind e)"
| "structured_kind _ = None"

definition component_edit_outcome ::
    "application_file_owner \<Rightarrow> structured_edit_outcome \<Rightarrow> component_edit_error + component_edit_result" where
  "component_edit_outcome owner outcome =
     (case outcome of
        Planned _ edit \<Rightarrow>
          and_then (map_error InstallationError (component_integration_new owner edit)) (\<lambda>i.
            Inr (PlannedContribution (Integration i)))
      | AlreadyPresent kind path \<Rightarrow> Inr (ContributionPresent owner path kind))"

definition plan_component_composition_identity ::
    "'d toml_library \<Rightarrow> (content \<Rightarrow> content_digest) \<Rightarrow> component_configuration_target \<Rightarrow> content \<Rightarrow> string \<Rightarrow> string
      \<Rightarrow> component_edit_error + component_edit_result" where
  "plan_component_composition_identity T sha target observed_source ident version =
     and_then (case target of
         Components \<Rightarrow> Inr ''components'' | Modules \<Rightarrow> Inr ''modules'' | Capabilities \<Rightarrow> Inl UnsupportedConfigurationTarget)
       (\<lambda>key.
     and_then (map_error Structured (plan_toml_identity_entry T sha ''hegira.toml'' observed_source [''composition''] key ident version))
       (component_edit_outcome ManifestFile))"

definition plan_component_rust_module ::
    "(content \<Rightarrow> content_digest) \<Rightarrow> component_rust_module_target \<Rightarrow> content \<Rightarrow> string
      \<Rightarrow> component_edit_error + component_edit_result" where
  "plan_component_rust_module sha target observed_source m =
     (case module_owner_and_path target of (owner, path) \<Rightarrow>
       and_then (map_error Structured (plan_rust_module sha path observed_source m)) (component_edit_outcome owner))"

definition plan_component_managed_rust_entry ::
    "(content \<Rightarrow> content_digest) \<Rightarrow> component_managed_rust_target \<Rightarrow> content \<Rightarrow> string \<Rightarrow> string
      \<Rightarrow> component_edit_error + component_edit_result" where
  "plan_component_managed_rust_entry sha target observed_source key entry =
     (case managed_integration target of (owner, path, block) \<Rightarrow>
       and_then (map_error Structured (plan_rust_managed_entry sha path observed_source block key entry))
         (component_edit_outcome owner))"

definition plan_component_cargo_dependency ::
    "'d toml_library \<Rightarrow> (content \<Rightarrow> content_digest) \<Rightarrow> component_cargo_manifest \<Rightarrow> content \<Rightarrow> cargo_dependency_section
      \<Rightarrow> cargo_dependency \<Rightarrow> component_edit_error + component_edit_result" where
  "plan_component_cargo_dependency T sha manifest observed_source section dependency =
     (case manifest_owner_and_path manifest of (owner, path) \<Rightarrow>
       then_check (reject_if ((manifest = ManifestWorkspace) \<noteq> (section = WorkspaceDependencies)) UnsupportedCargoSection)
       (and_then (map_error Structured (plan_cargo_dependency T sha path observed_source section dependency))
         (component_edit_outcome owner)))"

definition plan_component_cargo_feature ::
    "'d toml_library \<Rightarrow> (content \<Rightarrow> content_digest) \<Rightarrow> component_cargo_manifest \<Rightarrow> content \<Rightarrow> string \<Rightarrow> string
      \<Rightarrow> component_edit_error + component_edit_result" where
  "plan_component_cargo_feature T sha manifest observed_source feature selection =
     then_check (reject_if (manifest = ManifestWorkspace) UnsupportedCargoSection)
     (case manifest_owner_and_path manifest of (owner, path) \<Rightarrow>
       and_then (map_error Structured (plan_toml_array_string T sha path observed_source [''features''] feature selection))
         (component_edit_outcome owner))"

definition plan_component_configuration_entry ::
    "'d toml_library \<Rightarrow> (content \<Rightarrow> content_digest) \<Rightarrow> component_configuration_target \<Rightarrow> content \<Rightarrow> string
      \<Rightarrow> component_edit_error + component_edit_result" where
  "plan_component_configuration_entry T sha target observed_source entry =
     (case configuration_integration target of (owner, path, table, key) \<Rightarrow>
       and_then (map_error Structured (plan_toml_array_string T sha path observed_source table key entry))
         (component_edit_outcome owner))"

section \<open>Installation plans\<close>

record component_installation_plan =
  ip_component :: string
  ip_owners :: "(change_path, application_file_owner) btree"
  ip_changes :: change_plan

definition COMPONENT_INSTALLATION_SUMMARY_SCHEMA :: "32 word" where "COMPONENT_INSTALLATION_SUMMARY_SCHEMA = 1"

record owned_change_summary =
  oc_owner :: application_file_owner
  oc_path :: string
  oc_operation :: change_operation
  oc_precondition :: precondition_summary
  oc_result_sha256 :: string

record component_installation_summary =
  cs_schema :: "32 word"
  cs_component :: string
  cs_changes :: "owned_change_summary list"

text \<open>The indexing of \<open>owners\<close> and both \<^verbatim>\<open>expect\<close>s panic when they fail: then the result is \<open>None\<close>.\<close>

fun owned_summaries ::
    "(change_path, application_file_owner) btree \<Rightarrow> planned_change_summary list \<Rightarrow> owned_change_summary list option" where
  "owned_summaries owners [] = Some []"
| "owned_summaries owners (change # changes) =
     (case change_path_new (ps_path change) of
        Inl _ \<Rightarrow> None
      | Inr path \<Rightarrow>
          Option.bind (bt_get owners path) (\<lambda>owner.
          Option.bind (ps_result_sha256 change) (\<lambda>sha256.
          Option.bind (owned_summaries owners changes) (\<lambda>rest.
            Some (\<lparr> oc_owner = owner, oc_path = ps_path change, oc_operation = ps_operation change,
                    oc_precondition = ps_precondition change, oc_result_sha256 = sha256 \<rparr> # rest)))))"

definition installation_summary :: "component_installation_plan \<Rightarrow> component_installation_summary option" where
  "installation_summary plan =
     map_option (\<lambda>changes. \<lparr> cs_schema = COMPONENT_INSTALLATION_SUMMARY_SCHEMA, cs_component = ip_component plan, cs_changes = changes \<rparr>)
       (owned_summaries (ip_owners plan) (ss_changes (plan_summary (ip_changes plan))))"

definition validate_component_id :: "string \<Rightarrow> component_installation_error + string" where
  "validate_component_id component =
     (if \<not> (component \<noteq> [] \<and>
            list_all (\<lambda>(index, byte). is_ascii_lowercase byte \<or> is_ascii_digit byte \<or>
               0 < index \<and> (byte = CHR ''-'' \<or> byte = CHR ''_'')) (enumerate 0 component) \<and>
            (case component of [] \<Rightarrow> False | byte # _ \<Rightarrow> is_ascii_alphanumeric byte))
      then Inl \<lparr> ie_kind = InvalidComponent, ie_path = None,
        ie_message = ''component identities must start with a lowercase ASCII letter or digit and contain only lowercase ASCII letters, digits, hyphens, or underscores'' \<rparr>
      else Inr component)"

fun installed_set :: "string set \<Rightarrow> string list \<Rightarrow> component_installation_error + string set" where
  "installed_set installed [] = Inr installed"
| "installed_set installed (c # cs) =
     and_then (validate_component_id c) (\<lambda>c.
       if c \<in> installed
       then Inl \<lparr> ie_kind = DuplicateInstalledComponent, ie_path = None,
         ie_message = ''installed component `'' @ c @ ''` is declared more than once'' \<rparr>
       else installed_set (insert c installed) cs)"

fun collect_contributions ::
    "(change_path, application_file_owner) btree \<Rightarrow> component_contribution list
      \<Rightarrow> component_installation_error + (change_path, application_file_owner) btree \<times> planned_file_change list" where
  "collect_contributions owners [] = Inr (owners, [])"
| "collect_contributions owners (contribution # rest) =
     (case into_parts contribution of (owner, change) \<Rightarrow>
       let path = pc_path change
       in if bt_get owners path \<noteq> None
          then Inl (installation_error_at ConflictingContribution path ''component installation contains multiple contributions for one path'')
          else and_then (collect_contributions (bt_insert path owner owners) rest) (\<lambda>(owners, changes).
            Inr (owners, change # changes)))"

definition plan_component_installation ::
    "(content \<Rightarrow> content_digest) \<Rightarrow> string \<Rightarrow> string list \<Rightarrow> component_contribution list
      \<Rightarrow> component_installation_error + component_installation_plan" where
  "plan_component_installation sha component installed_components contributions =
     and_then (validate_component_id component) (\<lambda>component.
     and_then (installed_set {} installed_components) (\<lambda>installed.
     then_check (reject_if (component \<in> installed)
       \<lparr> ie_kind = AlreadyInstalled, ie_path = None, ie_message = ''component `'' @ component @ ''` is already installed'' \<rparr>)
     (and_then (collect_contributions [] contributions) (\<lambda>(owners, changes).
      then_check (reject_if (changes = [])
        \<lparr> ie_kind = EmptyInstallation, ie_path = None, ie_message = ''component installation must contain at least one contribution'' \<rparr>)
      (and_then (map_error installation_error_plan (plan_new sha changes)) (\<lambda>changes.
       Inr \<lparr> ip_component = component, ip_owners = owners, ip_changes = changes \<rparr>))))))"

end
