(* ===== verification/Module_Registration.thy ===== *)
theory Module_Registration
  imports Source_Editor
begin

text \<open>
  The registration of Rust modules in the managed block of a source (\<^const>\<open>plan_rust_module\<close>): the source as its
  parts, the exact effect of a planned registration on them, and that registrations converge.
\<close>

section \<open>Registered modules\<close>

definition rust_identifier :: "string \<Rightarrow> bool" where
  "rust_identifier m \<longleftrightarrow> validate_rust_identifier m = Inr ()"

definition module_lines :: "string list \<Rightarrow> string list \<Rightarrow> string list \<Rightarrow> string list" where
  "module_lines before ms after = before @ RUST_MODULES_START # map module_line ms @ RUST_MODULES_END # after"

definition module_block :: "string list \<Rightarrow> string list \<Rightarrow> string list \<Rightarrow> bool" where
  "module_block before ms after \<longleftrightarrow> sorted_wrt (<) ms \<and> (\<forall>m \<in> set ms. rust_identifier m) \<and>
     (\<forall>l \<in> set before \<union> set after. l \<noteq> RUST_MODULES_START \<and> l \<noteq> RUST_MODULES_END)"

lemma inj_module_line: "inj module_line"
  by (simp add: module_line_def inj_def)

lemma module_line_marker: "module_line m \<noteq> RUST_MODULES_START" "module_line m \<noteq> RUST_MODULES_END"
    "RUST_MODULES_START \<noteq> RUST_MODULES_END"
  by (simp_all add: module_line_def RUST_MODULES_START_def RUST_MODULES_END_def)

lemma strip_module_line: "Option.bind (strip_prefix ''pub mod '' line) (strip_suffix '';'') = Some m \<longleftrightarrow> line = module_line m"
proof -
  have "Option.bind (strip_prefix ''pub mod '' line) (strip_suffix '';'') = Some m \<longleftrightarrow>
      (\<exists>t. strip_prefix ''pub mod '' line = Some t \<and> strip_suffix '';'' t = Some m)" by (simp only: bind_eq_Some_conv)
  then show ?thesis unfolding strip_prefix_Some strip_suffix_Some module_line_def by simp
qed

lemma registered_modules_Inr:
  "registered_modules path ls = Inr ms \<longleftrightarrow> ls = map module_line ms \<and> (\<forall>m \<in> set ms. rust_identifier m)"
proof (induction ls arbitrary: ms)
  case (Cons l ls)
  show ?case
  proof (cases "Option.bind (strip_prefix ''pub mod '' l) (strip_suffix '';'')")
    case None
    then have "l \<noteq> module_line m" for m using strip_module_line [of l m] by simp
    then show ?thesis using None by (cases ms) simp_all
  next
    case (Some m)
    then have l: "l = module_line m" using strip_module_line by blast
    have "registered_modules path (l # ls) = Inr ms \<longleftrightarrow>
        rust_identifier m \<and> (\<exists>ns. registered_modules path ls = Inr ns \<and> ms = m # ns)"
      using Some by (auto simp: rust_identifier_def)
    then show ?thesis unfolding l Cons.IH using inj_module_line by (auto simp: Cons_eq_map_conv inj_eq)
  qed
qed auto

lemma module_positions:
  "block_bounds (marker_positions ls RUST_MODULES_START) (marker_positions ls RUST_MODULES_END) missing ambiguous = Inr (i, j)
    \<longleftrightarrow> (\<exists>a m b. ls = a @ RUST_MODULES_START # m @ RUST_MODULES_END # b \<and> i = length a \<and> j = length a + 1 + length m \<and>
        (\<forall>l \<in> set a \<union> set m \<union> set b. l \<noteq> RUST_MODULES_START \<and> l \<noteq> RUST_MODULES_END))"
proof -
  have d: "\<not> (l = RUST_MODULES_START \<and> l = RUST_MODULES_END)" for l using module_line_marker(3) by blast
  show ?thesis unfolding marker_positions_def block_bounds_split [OF d] by blast
qed

lemma sort_snoc: "sorted_wrt (<) ms \<Longrightarrow> sort (ms @ [m]) = insort m ms" for ms :: "'a::linorder list"
  by (rule properties_for_sort) (simp_all add: sorted_insort strict_sorted_iff)

text \<open>A source with a block of registered modules, and the outcome on it.\<close>

definition module_source :: "content \<Rightarrow> string list \<Rightarrow> string list \<Rightarrow> string list \<Rightarrow> string \<Rightarrow> bool \<Rightarrow> bool" where
  "module_source source before ms after nl fin \<longleftrightarrow> module_block before ms after \<and>
     text_form (module_lines before ms after) nl fin \<and> source = restore_newlines (module_lines before ms after) nl fin"

definition listed_outside :: "string list \<Rightarrow> string list \<Rightarrow> string \<Rightarrow> bool" where
  "listed_outside before after m \<longleftrightarrow> (\<exists>l \<in> set before \<union> set after. trim l = module_line m)"

lemma plan_rust_module_Inr:
  "plan_rust_module sha path source m = Inr out \<longleftrightarrow>
     owned_path path \<and> rust_identifier m \<and>
     (\<exists>before ms after nl fin. module_source source before ms after nl fin \<and> \<not> listed_outside before after m \<and>
        (if m \<in> set ms then out = AlreadyPresent RustModule path
         else planned sha RustModule path source (restore_newlines (module_lines before (insort m ms) after) nl fin) = Inr out))"
  (is "?L \<longleftrightarrow> ?R")
proof
  assume ?L
  then obtain ls nl fin i j ms where o: "owned_path path" and m: "rust_identifier m"
    and s: "source_lines path source = Inr (ls, nl, fin)"
    and b: "block_bounds (marker_positions ls RUST_MODULES_START) (marker_positions ls RUST_MODULES_END)
       (edit_error_at MissingIntegrationPoint path ''Rust source is missing the generated-module integration block'')
       (edit_error_at AmbiguousIntegrationPoint path ''Rust source has an ambiguous generated-module integration block'') = Inr (i, j)"
    and x: "\<not> list_ex (\<lambda>line. trim line = module_line m) (take i ls @ drop (j + 1) ls)"
    and r: "registered_modules path (take (j - (i + 1)) (drop (i + 1) ls)) = Inr ms"
    and d: "card (set ms) = length ms" "list_all (\<lambda>(a, b). a < b) (windows2 ms)"
    and e: "(if m \<in> set ms then Inr (AlreadyPresent RustModule path)
        else let lines = take (i + 1) ls @ map module_line (sort (ms @ [m])) @ drop j ls
             in planned sha RustModule path source (restore_newlines lines nl fin)) = Inr out"
    unfolding plan_rust_module_def and_then_Inr then_check_Inr map_error_Inr change_path_new_iff reject_if_Inr
    by (auto simp: rust_identifier_def simp del: One_nat_def split: prod.splits)
  obtain before mid after where l: "ls = before @ RUST_MODULES_START # mid @ RUST_MODULES_END # after"
    and ij: "i = length before" "j = length before + 1 + length mid"
    and f: "\<forall>l \<in> set before \<union> set mid \<union> set after. l \<noteq> RUST_MODULES_START \<and> l \<noteq> RUST_MODULES_END"
    using b unfolding module_positions by blast
  have "take (j - (i + 1)) (drop (i + 1) ls) = mid" using l ij by simp
  then have mid: "mid = map module_line ms" "\<forall>m \<in> set ms. rust_identifier m" using r registered_modules_Inr by auto
  have parts: "take i ls @ drop (j + 1) ls = before @ after" "take (i + 1) ls = before @ [RUST_MODULES_START]"
      "drop j ls = RUST_MODULES_END # after" using l ij by simp_all
  have sorted: "sorted_wrt (<) ms" using d strictly_sorted by blast
  have ins: "sort (ms @ [m]) = insort m ms" using sorted by (rule sort_snoc)
  have "module_source source before ms after nl fin"
    using source_lines_form [OF s] l mid f sorted by (auto simp: module_source_def module_block_def module_lines_def)
  moreover have "\<not> listed_outside before after m" using x unfolding parts by (auto simp: listed_outside_def list_ex_iff)
  ultimately show ?R using o m e unfolding parts ins
    by (intro conjI exI [of _ before] exI [of _ ms] exI [of _ after] exI [of _ nl] exI [of _ fin])
       (auto simp: module_lines_def split: if_splits)
next
  assume ?R
  then obtain before ms after nl fin where o: "owned_path path" and m: "rust_identifier m"
    and s: "module_source source before ms after nl fin" and x: "\<not> listed_outside before after m"
    and e: "if m \<in> set ms then out = AlreadyPresent RustModule path
        else planned sha RustModule path source (restore_newlines (module_lines before (insort m ms) after) nl fin) = Inr out"
    by blast
  let ?ls = "module_lines before ms after"
  note b = s [unfolded module_source_def module_block_def]
  have sl: "source_lines path source = Inr (?ls, nl, fin)" using b source_lines_restore by blast
  have bb: "block_bounds (marker_positions ?ls RUST_MODULES_START) (marker_positions ?ls RUST_MODULES_END) missing ambiguous =
      Inr (length before, length before + 1 + length ms)" for missing ambiguous
    unfolding module_positions using b module_line_marker
    by (intro exI [of _ before] exI [of _ "map module_line ms"] exI [of _ after]) (auto simp: module_lines_def)
  have parts: "take (length before) ?ls @ drop (length before + 1 + length ms + 1) ?ls = before @ after"
      "take (length before + 1) ?ls = before @ [RUST_MODULES_START]"
      "drop (length before + 1 + length ms) ?ls = RUST_MODULES_END # after"
      "take (length ms) (drop (length before + 1) ?ls) = map module_line ms"
    by (simp_all add: module_lines_def)
  have "\<not> list_ex (\<lambda>line. trim line = module_line m) (before @ after)"
    using x by (auto simp: listed_outside_def list_ex_iff)
  moreover have "registered_modules path (map module_line ms) = Inr ms" using b by (simp add: registered_modules_Inr)
  moreover have "card (set ms) = length ms" "list_all (\<lambda>(a, b). a < b) (windows2 ms)" using b strictly_sorted by blast+
  moreover have "change_path_new path = Inr path" using o by (simp add: change_path_new_iff)
  moreover have "sort (ms @ [m]) = insort m ms" using b by (intro sort_snoc) blast
  moreover have "before @ RUST_MODULES_START # map module_line (insort m ms) @ RUST_MODULES_END # after =
      module_lines before (insort m ms) after" by (simp add: module_lines_def)
  ultimately show ?L using m e sl
    by (simp add: plan_rust_module_def map_error_def rust_identifier_def bb parts del: One_nat_def list_ex_append)
qed


lemma module_line_free: "rust_identifier m \<Longrightarrow> CR \<notin> set (module_line m) \<and> LF \<notin> set (module_line m) \<and> is_utf8 (module_line m)"
proof -
  assume m: "rust_identifier m"
  have "c = CHR ''_'' \<or> is_ascii_lowercase c \<or> is_ascii_digit c" if "c \<in> set m" for c
  proof -
    obtain i where "i < length m" "c = m ! i" using \<open>c \<in> set m\<close> by (auto simp: in_set_conv_nth)
    then have "(i, c) \<in> set (enumerate 0 m)" by (auto simp: in_set_enumerate_eq)
    then show ?thesis using m by (auto simp: rust_identifier_def validate_rust_identifier_def list_all_iff split: if_splits)
  qed
  then have "(of_char c :: nat) < 128 \<and> c \<noteq> CR \<and> c \<noteq> LF" if "c \<in> set m" for c
    using that by (fastforce simp: is_ascii_lowercase_def is_ascii_digit_def less_eq_char_def)
  then have "c \<in> set (module_line m) \<Longrightarrow> (of_char c :: nat) < 128 \<and> c \<noteq> CR \<and> c \<noteq> LF" for c
    by (auto simp: module_line_def)
  then show ?thesis using is_utf8_ascii by blast
qed

lemma text_form_lines:
  assumes "text_form (a @ x # b @ y # c) nl fin" "\<forall>l \<in> set b'. CR \<notin> set l \<and> LF \<notin> set l \<and> is_utf8 l" "y \<noteq> []"
  shows "text_form (a @ x # b' @ y # c) nl fin"
  using assms by (auto simp: text_form_def)

lemma module_source_insort:
  assumes "module_source source before ms after nl fin" "rust_identifier m" "m \<notin> set ms"
  shows "module_source (restore_newlines (module_lines before (insort m ms) after) nl fin) before (insort m ms) after nl fin"
proof -
  have s: "sorted_wrt (<) ms" "\<forall>m \<in> set ms. rust_identifier m" using assms(1) by (auto simp: module_source_def module_block_def)
  have "sorted_wrt (<) (insort m ms)" using s(1) assms(3) by (simp add: strict_sorted_iff sorted_insort distinct_insort)
  moreover have "text_form (module_lines before (insort m ms) after) nl fin" unfolding module_lines_def
  proof (rule text_form_lines [where b = "map module_line ms"])
    show "text_form (before @ RUST_MODULES_START # map module_line ms @ RUST_MODULES_END # after) nl fin"
      using assms(1) by (simp add: module_source_def module_lines_def)
    show "\<forall>l \<in> set (map module_line (insort m ms)). CR \<notin> set l \<and> LF \<notin> set l \<and> is_utf8 l"
      using s(2) assms(2) module_line_free by (auto simp: set_insort_key)
  qed (simp add: RUST_MODULES_END_def)
  ultimately show ?thesis using assms s by (auto simp: module_source_def module_block_def set_insort_key)
qed


lemma module_source_unique:
  assumes "module_source source a ms b nl fin" "module_source source a' ms' b' nl' fin'"
  shows "a' = a \<and> ms' = ms \<and> b' = b \<and> nl' = nl \<and> fin' = fin"
proof -
  have "source_lines [] source = Inr (module_lines a ms b, nl, fin)" "source_lines [] source = Inr (module_lines a' ms' b', nl', fin')"
    using assms unfolding module_source_def by (metis source_lines_restore)+
  then have e: "module_lines a ms b = module_lines a' ms' b'" "nl' = nl" "fin' = fin" by simp_all
  have n: "l \<noteq> RUST_MODULES_START" "l \<noteq> RUST_MODULES_END"
    if "l \<in> set a \<union> set b \<union> set a' \<union> set b' \<union> set (map module_line ms) \<union> set (map module_line ms')" for l
    using that assms module_line_marker module_line_marker [symmetric]
    unfolding module_source_def module_block_def by auto
  have "takeWhile (\<lambda>l. l \<noteq> RUST_MODULES_START) (module_lines c ns d) = c" if "RUST_MODULES_START \<notin> set c" for c ns d
    using that by (induction c) (auto simp: module_lines_def)
  then have a: "a' = a" using e(1) n(1) by (metis UnI1 UnI2)
  then have r: "map module_line ms @ RUST_MODULES_END # b = map module_line ms' @ RUST_MODULES_END # b'"
    using e(1) by (simp add: module_lines_def)
  have "RUST_MODULES_END \<notin> set (map module_line ms)" "RUST_MODULES_END \<notin> set (map module_line ms')" using n(2) by blast+
  then have "map module_line ms = map module_line ms' \<and> b = b'"
    using r append_Cons_eq_iff [of "RUST_MODULES_END" "map module_line ms" b "map module_line ms'" b']
      n(2) [of RUST_MODULES_END] by blast
  then show ?thesis using a e inj_map_eq_map [OF inj_module_line] by auto
qed

text \<open>C32. Planning the registration of a module gives an edit exactly when the source has one block of registered
  modules in increasing order and the module is neither registered there nor outside; the edit inserts the
  module's line at its place, keeps every other line, the line ending and the end of the file, and carries the
  digests of both sources.\<close>

theorem rust_module_planned_exact:
  "plan_rust_module sha path source m = Inr (Planned kind edit) \<longleftrightarrow>
     owned_path path \<and> rust_identifier m \<and> kind = RustModule \<and>
     (\<exists>before ms after nl fin. module_source source before ms after nl fin \<and> \<not> listed_outside before after m \<and> m \<notin> set ms \<and>
        fe_content edit = restore_newlines (module_lines before (insort m ms) after) nl fin) \<and>
     fe_path edit = path \<and> fe_original_digest edit = sha source \<and> fe_result_digest edit = sha (fe_content edit) \<and>
     fe_original_digest edit \<noteq> fe_result_digest edit"
proof -
  have p: "planned sha RustModule path source r = Inr (Planned kind edit) \<longleftrightarrow> kind = RustModule \<and> owned_path path \<and>
      fe_content edit = r \<and> fe_path edit = path \<and> fe_original_digest edit = sha source \<and>
      fe_result_digest edit = sha (fe_content edit) \<and> fe_original_digest edit \<noteq> fe_result_digest edit" for r
    unfolding planned_eq by (cases edit) auto
  have "(if m \<in> set ms then Planned kind edit = AlreadyPresent RustModule path
      else planned sha RustModule path source r = Inr (Planned kind edit)) \<longleftrightarrow>
      m \<notin> set ms \<and> planned sha RustModule path source r = Inr (Planned kind edit)" for ms r by simp
  then show ?thesis unfolding plan_rust_module_Inr p by blast
qed

lemma planned_moduleE:
  assumes "plan_rust_module sha path source m = Inr (Planned kind edit)"
  obtains before ms after nl fin where "owned_path path" "rust_identifier m" "module_source source before ms after nl fin"
    "\<not> listed_outside before after m" "m \<notin> set ms"
    "fe_content edit = restore_newlines (module_lines before (insort m ms) after) nl fin"
    "module_source (fe_content edit) before (insort m ms) after nl fin"
proof -
  from assms obtain before ms after nl fin where p: "owned_path path" "rust_identifier m" "module_source source before ms after nl fin"
    "\<not> listed_outside before after m" "m \<notin> set ms"
    "planned sha RustModule path source (restore_newlines (module_lines before (insort m ms) after) nl fin) = Inr (Planned kind edit)"
    unfolding plan_rust_module_Inr by (auto split: if_splits)
  then have c: "fe_content edit = restore_newlines (module_lines before (insort m ms) after) nl fin" unfolding planned_eq by simp
  then have "module_source (fe_content edit) before (insort m ms) after nl fin"
    using module_source_insort [OF p(3,2,5)] by simp
  with p c show ?thesis by (intro that)
qed

lemma planned_module_on:
  assumes "plan_rust_module sha path source m = Inr (Planned kind edit)" "module_source source a ms b nl fin"
  shows "module_source (fe_content edit) a (insort m ms) b nl fin"
proof -
  obtain a' ms' b' nl' fin' where p: "module_source source a' ms' b' nl' fin'"
    "module_source (fe_content edit) a' (insort m ms') b' nl' fin'"
    by (rule planned_moduleE [OF assms(1)])
  with module_source_unique [OF assms(2) p(1)] show ?thesis by simp
qed

text \<open>Registering modules converges: planning a registration again on its result finds it present, and two
  registrations give the same source in both orders.\<close>

theorem rust_modules_converge:
  assumes "plan_rust_module sha path source m = Inr (Planned k1 e1)"
    and "plan_rust_module sha path (fe_content e1) n = Inr (Planned k2 e2)"
    and "plan_rust_module sha path source n = Inr (Planned k3 e3)"
    and "plan_rust_module sha path (fe_content e3) m = Inr (Planned k4 e4)"
  shows "fe_content e2 = fe_content e4 \<and>
     plan_rust_module sha path (fe_content e1) m = Inr (AlreadyPresent RustModule path) \<and>
     plan_rust_module sha path (fe_content e2) m = Inr (AlreadyPresent RustModule path)"
proof -
  obtain a ms b nl fin where 1: "owned_path path" "rust_identifier m" "module_source source a ms b nl fin"
    "\<not> listed_outside a b m" "m \<notin> set ms" "module_source (fe_content e1) a (insort m ms) b nl fin"
    by (rule planned_moduleE [OF assms(1)])
  note 2 = planned_module_on [OF assms(2) 1(6)]
  note 3 = planned_module_on [OF assms(3) 1(3)]
  note 4 = planned_module_on [OF assms(4) 3]
  from 2 4 have "fe_content e2 = fe_content e4" by (simp add: module_source_def insort_left_comm)
  have "plan_rust_module sha path s m = Inr (AlreadyPresent RustModule path)"
    if "module_source s a ns b nl fin" "m \<in> set ns" for s ns
    unfolding plan_rust_module_Inr
    by (intro conjI exI [of _ a] exI [of _ ns] exI [of _ b] exI [of _ nl] exI [of _ fin]) (simp_all add: 1(1,2,4) that)
  note present = this
  have "plan_rust_module sha path (fe_content e1) m = Inr (AlreadyPresent RustModule path)"
    by (rule present [OF 1(6)]) (simp add: set_insort_key)
  moreover have "plan_rust_module sha path (fe_content e2) m = Inr (AlreadyPresent RustModule path)"
    by (rule present [OF 2]) (simp add: set_insort_key)
  ultimately show ?thesis using \<open>fe_content e2 = fe_content e4\<close> by blast
qed

definition sample_modules :: "string list \<Rightarrow> content" where
  "sample_modules ms = restore_newlines (module_lines [''//! Modules.''] ms []) [CR, LF] True"

definition sample_edit :: "string list \<Rightarrow> string list \<Rightarrow> structured_file_edit" where
  "sample_edit ms ns = \<lparr> fe_path = ''src/lib.rs'', fe_original_digest = sample_modules ms,
     fe_content = sample_modules ns, fe_result_digest = sample_modules ns \<rparr>"

lemma sample_registrations:
  "plan_rust_module id ''src/lib.rs'' (sample_modules [''billing'']) ''audit'' =
     Inr (Planned RustModule (sample_edit [''billing''] [''audit'', ''billing'']))"
  "plan_rust_module id ''src/lib.rs'' (sample_modules [''audit'', ''billing'']) ''mail'' =
     Inr (Planned RustModule (sample_edit [''audit'', ''billing''] [''audit'', ''billing'', ''mail'']))"
  "plan_rust_module id ''src/lib.rs'' (sample_modules [''billing'']) ''mail'' =
     Inr (Planned RustModule (sample_edit [''billing''] [''billing'', ''mail'']))"
  "plan_rust_module id ''src/lib.rs'' (sample_modules [''billing'', ''mail'']) ''audit'' =
     Inr (Planned RustModule (sample_edit [''billing'', ''mail''] [''audit'', ''billing'', ''mail'']))"
  by code_simp+

lemma sample_edit_content: "fe_content (sample_edit ms ns) = sample_modules ns"
  by (simp add: sample_edit_def)

lemma rust_modules_converge_witness:
  "plan_rust_module id ''src/lib.rs'' (sample_modules [''audit'', ''billing'', ''mail'']) ''audit'' =
     Inr (AlreadyPresent RustModule ''src/lib.rs'')"
proof -
  note c = rust_modules_converge [where sha = id and path = "''src/lib.rs''" and source = "sample_modules [''billing'']"
      and m = "''audit''" and n = "''mail''" and ?e1.0 = "sample_edit [''billing''] [''audit'', ''billing'']"
      and ?e2.0 = "sample_edit [''audit'', ''billing''] [''audit'', ''billing'', ''mail'']"
      and ?e3.0 = "sample_edit [''billing''] [''billing'', ''mail'']"
      and ?e4.0 = "sample_edit [''billing'', ''mail''] [''audit'', ''billing'', ''mail'']", unfolded sample_edit_content]
  from c [OF sample_registrations] show ?thesis by blast
qed

end
