(* ===== verification/Managed_Entry.thy ===== *)
theory Managed_Entry
  imports Source_Editor
begin

text \<open>
  Keyed entries in a managed block of a Rust source (\<^const>\<open>plan_rust_managed_entry\<close>): the lines that the scan of a
  block accepts, the exact effect of a planned entry, and that an entry is planned once only.
\<close>

section \<open>The entries of a block\<close>

text \<open>What the scan accepts: blank lines and keyed entries, one after the other. \<open>at\<close> is the index of the first line.\<close>

inductive entry_block :: "string \<Rightarrow> nat \<Rightarrow> string list \<Rightarrow> (string \<times> nat \<times> nat) list \<Rightarrow> bool" for ep where
  Nil: "entry_block ep at [] []"
| Blank: "trim l = [] \<Longrightarrow> entry_block ep (at + 1) ls es \<Longrightarrow> entry_block ep at (l # ls) es"
| Entry: "trim s = ep @ key @ '':start'' \<Longrightarrow> valid_marker_identifier key \<Longrightarrow> trim e = ep @ key @ '':end'' \<Longrightarrow>
    (\<forall>l \<in> set body. \<not> prefix ep (trim l)) \<Longrightarrow> entry_block ep (at + 2 + length body) ls es \<Longrightarrow>
    entry_block ep at (s # body @ e # ls) ((key, at, at + 1 + length body) # es)"

lemma strip_marker: "Option.bind (strip_prefix ep l) (strip_suffix suf) = Some key \<longleftrightarrow> l = ep @ key @ suf"
proof -
  have "Option.bind (strip_prefix ep l) (strip_suffix suf) = Some key \<longleftrightarrow>
      (\<exists>t. strip_prefix ep l = Some t \<and> strip_suffix suf t = Some key)" by (simp only: bind_eq_Some_conv)
  then show ?thesis unfolding strip_prefix_Some strip_suffix_Some by simp
qed

lemma scan_entries_block:
  assumes "ep \<noteq> []"
  shows "scan_entries path block ep at ls = Inr es \<longleftrightarrow> entry_block ep at ls es"
proof
  show "scan_entries path block ep at ls = Inr es \<Longrightarrow> entry_block ep at ls es"
  proof (induction path block ep at ls arbitrary: es rule: scan_entries.induct)
    case (1 path block ep at)
    then show ?case by (simp add: entry_block.Nil)
  next
    case (2 path block ep at l ls)
    show ?case
    proof (cases "trim l = []")
      case True
      then show ?thesis using 2 by (intro entry_block.Blank) simp_all
    next
      case False
      then obtain key where k: "Option.bind (strip_prefix ep (trim l)) (strip_suffix '':start'') = Some key"
        "valid_marker_identifier key"
        using 2(3) by (auto split: option.splits if_splits)
      let ?n = "length (takeWhile (\<lambda>l. trim l \<noteq> ep @ key @ '':end'') ls)"
      have n: "?n \<noteq> length ls" "\<not> list_ex (\<lambda>l. prefix ep (trim l)) (take ?n ls)"
        using 2(3) False k by (auto simp: Let_def split: if_splits)
      then obtain fs where fs: "scan_entries path block ep (at + 2 + ?n) (drop (?n + 1) ls) = Inr fs"
        "es = (key, at, at + 1 + ?n) # fs"
        using 2(3) False k by (auto simp: Let_def)
      have "?n < length ls" using n(1) length_takeWhile_le [of _ ls] by (simp add: le_neq_implies_less)
      then have sp: "ls = take ?n ls @ ls ! ?n # drop (?n + 1) ls" using id_take_nth_drop [of ?n ls] by simp
      have e: "trim (ls ! ?n) = ep @ key @ '':end''" using nth_length_takeWhile [OF \<open>?n < length ls\<close>] by simp
      have "entry_block ep (at + 2 + ?n) (drop (?n + 1) ls) fs"
        using 2(2) [OF False k(1)] n k(2) fs(1) by simp
      then have "entry_block ep at (l # take ?n ls @ ls ! ?n # drop (?n + 1) ls) ((key, at, at + 1 + length (take ?n ls)) # fs)"
        using k e n(2) strip_marker [of ep "trim l" "'':start''" key] \<open>?n < length ls\<close>
        by (intro entry_block.Entry) (auto simp: list_ex_iff)
      then show ?thesis using sp fs(2) \<open>?n < length ls\<close> by simp
    qed
  qed
next
  show "entry_block ep at ls es \<Longrightarrow> scan_entries path block ep at ls = Inr es"
  proof (induction rule: entry_block.induct)
    case (Entry s key e body at ls es)
    have t: "takeWhile (\<lambda>l. trim l \<noteq> ep @ key @ '':end'') (body @ e # ls) = body"
      using Entry(3,4) by (auto simp: takeWhile_append2 prefix_def)
    have "\<not> list_ex (\<lambda>l. prefix ep (trim l)) body" using Entry(4) by (simp add: list_ex_iff)
    moreover have "trim s \<noteq> []" using assms Entry(1) by simp
    moreover have "Option.bind (strip_prefix ep (trim s)) (strip_suffix '':start'') = Some key"
      using Entry(1) strip_marker by blast
    ultimately show ?case using Entry by (simp add: t)
  qed simp_all
qed

lemma entry_block_append:
  "entry_block ep at ls es \<Longrightarrow> entry_block ep (at + length ls) ms fs \<Longrightarrow> entry_block ep at (ls @ ms) (es @ fs)"
proof (induction rule: entry_block.induct)
  case (Blank l at ls es)
  then show ?case by (simp add: entry_block.Blank)
next
  case (Entry s key e body at ls es)
  then have "entry_block ep at (s # body @ e # (ls @ ms)) ((key, at, at + 1 + length body) # (es @ fs))"
    by (intro entry_block.Entry) (simp_all add: ac_simps)
  then show ?case by simp
qed simp

definition shift_entries :: "nat \<Rightarrow> (string \<times> nat \<times> nat) list \<Rightarrow> (string \<times> nat \<times> nat) list" where
  "shift_entries d = map (\<lambda>(k, i, j). (k, i + d, j + d))"

lemma shift_entries_keys [simp]: "map fst (shift_entries d es) = map fst es"
  by (auto simp: shift_entries_def)

lemma entry_block_shift: "entry_block ep at ls es \<Longrightarrow> entry_block ep (at + d) ls (shift_entries d es)"
proof (induction rule: entry_block.induct)
  case (Blank l at ls es)
  then show ?case by (intro entry_block.Blank) simp_all
next
  case (Entry s key e body at ls es)
  then have "entry_block ep (at + d) (s # body @ e # ls) ((key, at + d, (at + d) + 1 + length body) # shift_entries d es)"
    by (intro entry_block.Entry) (simp_all add: ac_simps)
  then show ?case by (simp add: shift_entries_def ac_simps)
qed (simp add: shift_entries_def entry_block.Nil)

text \<open>A block splits in front of each of its entries.\<close>

lemma entry_block_split:
  "entry_block ep at ls (es @ (k, i, j) # fs) \<Longrightarrow>
     at \<le> i \<and> i < at + length ls \<and> entry_block ep at (take (i - at) ls) es \<and> entry_block ep i (drop (i - at) ls) ((k, i, j) # fs)"
proof (induction at ls "es @ (k, i, j) # fs" arbitrary: es rule: entry_block.induct)
  case (Blank l at ls)
  from Blank(3) have h: "at + 1 \<le> i" "i < at + 1 + length ls" "entry_block ep (at + 1) (take (i - (at + 1)) ls) es"
    "entry_block ep i (drop (i - (at + 1)) ls) ((k, i, j) # fs)" by auto
  then have "i - at = Suc (i - (at + 1))" by simp
  then show ?case using h Blank(1) by (auto intro: entry_block.Blank)
next
  case (Entry s key e body at ls fs')
  show ?case
  proof (cases es)
    case Nil
    then have "at = i" using Entry(7) by simp
    moreover have "entry_block ep at (s # body @ e # ls) ((key, at, at + 1 + length body) # fs')"
      using Entry by (intro entry_block.Entry) simp_all
    ultimately show ?thesis using Entry(7) Nil by (auto intro: entry_block.Nil)
  next
    case (Cons x es')
    then have x: "x = (key, at, at + 1 + length body)" "fs' = es' @ (k, i, j) # fs" using Entry(7) by simp_all
    let ?at = "at + 2 + length body"
    have h: "?at \<le> i" "i < ?at + length ls" "entry_block ep ?at (take (i - ?at) ls) es'"
      "entry_block ep i (drop (i - ?at) ls) ((k, i, j) # fs)" using Entry(6) [OF x(2)] by auto
    have n: "i - at = length (s # body @ [e]) + (i - ?at)" using h(1) by simp
    have l: "s # body @ e # ls = (s # body @ [e]) @ ls" by simp
    have "entry_block ep at (s # body @ e # take (i - ?at) ls) es" unfolding Cons x(1)
      using Entry h(3) by (intro entry_block.Entry) simp_all
    moreover have "take (i - at) (s # body @ e # ls) = s # body @ e # take (i - ?at) ls"
      "drop (i - at) (s # body @ e # ls) = drop (i - ?at) ls" unfolding l n by simp_all
    ultimately show ?thesis using h by simp
  qed
qed simp


section \<open>A source with a managed block\<close>

definition not_outer :: "string \<Rightarrow> string \<Rightarrow> bool" where
  "not_outer block l \<longleftrightarrow> trim l \<noteq> block_start block \<and> trim l \<noteq> block_end block"

definition managed_source ::
    "string \<Rightarrow> content \<Rightarrow> string list \<Rightarrow> string \<Rightarrow> string list \<Rightarrow> string \<Rightarrow> string list \<Rightarrow> string \<Rightarrow> bool
      \<Rightarrow> (string \<times> nat \<times> nat) list \<Rightarrow> bool" where
  "managed_source block source a s m t b nl fin es \<longleftrightarrow>
     text_form (a @ s # m @ t # b) nl fin \<and> source = restore_newlines (a @ s # m @ t # b) nl fin \<and>
     trim s = block_start block \<and> trim t = block_end block \<and> (\<forall>l \<in> set a \<union> set m \<union> set b. not_outer block l) \<and>
     entry_block (entry_marks block) (length a + 1) m es \<and> sorted_wrt (<) (map fst es)"

definition entry_outside :: "string \<Rightarrow> string \<Rightarrow> string list \<Rightarrow> string list \<Rightarrow> bool" where
  "entry_outside block key a b \<longleftrightarrow>
     (\<exists>l \<in> set a \<union> set b. trim l = entry_start block key \<or> trim l = entry_end block key)"

definition entry_input :: "string \<Rightarrow> string \<Rightarrow> string \<Rightarrow> bool" where
  "entry_input block key entry \<longleftrightarrow> valid_marker_identifier block \<and> valid_marker_identifier key \<and> trim entry \<noteq> [] \<and>
     \<not> contains_str ''// hegira:'' entry \<and> CR \<notin> set entry"

lemma indentation_of: "whitespace (indentation_of line) \<and> line = indentation_of line @ trim_start line"
proof -
  obtain ind where i: "whitespace ind" "line = ind @ trim_start line" using trim_start_split by blast
  then have "strip_suffix (trim_start line) line = Some ind" unfolding strip_suffix_Some by blast
  then have "indentation_of line = ind" by (simp only: indentation_of_def option.case)
  with i show ?thesis by simp
qed

lemma outer_distinct: "\<not> (trim l = block_start block \<and> trim l = block_end block)"
  by (simp add: block_start_def block_end_def)

lemma managed_positions:
  "block_bounds (trimmed_marker_positions ls (block_start block)) (trimmed_marker_positions ls (block_end block)) missing ambiguous = Inr (i, j)
    \<longleftrightarrow> (\<exists>a s m t b. ls = a @ s # m @ t # b \<and> i = length a \<and> j = length a + 1 + length m \<and>
        trim s = block_start block \<and> trim t = block_end block \<and> (\<forall>l \<in> set a \<union> set m \<union> set b. not_outer block l))"
  unfolding trimmed_marker_positions_def block_bounds_split [OF outer_distinct] not_outer_def ..

lemma sorted_entries:
  "card (fst ` set es) = length es \<and> list_all (\<lambda>(a, b). fst a < fst b) (windows2 es) \<longleftrightarrow> sorted_wrt (<) (map fst es)"
  for es :: "('a::linorder \<times> 'b) list"
proof -
  have "windows2 (map fst es) = map (\<lambda>(a, b). (fst a, fst b)) (windows2 es)"
    by (simp add: windows2_def map_tl [symmetric] zip_map_map split_beta)
  then have "list_all (\<lambda>(a, b). a < b) (windows2 (map fst es)) = list_all (\<lambda>(a, b). fst a < fst b) (windows2 es)"
    by (simp add: list_all_iff split_beta)
  then show ?thesis using strictly_sorted [of "map fst es"] by simp
qed

lemma entry_marks_nonempty: "entry_marks block \<noteq> []"
  by (simp add: entry_marks_def)

lemma plan_rust_managed_entry_Inr:
  "plan_rust_managed_entry sha path source block key entry = Inr out \<longleftrightarrow>
     owned_path path \<and> entry_input block key entry \<and>
     (\<exists>a s m t b nl fin es. managed_source block source a s m t b nl fin es \<and> \<not> entry_outside block key a b \<and>
        (if key \<in> fst ` set es then out = AlreadyPresent RustManagedEntry path
         else let ls = a @ s # m @ t # b; ins = insertion_point key (length a + 1 + length m) es
              in planned sha RustManagedEntry path source
                (restore_newlines (take ins ls @ entry_lines (indentation_of s) block key entry @ drop ins ls) nl fin) = Inr out))"
  (is "?L \<longleftrightarrow> ?R")
proof
  assume ?L
  then obtain ls nl fin a s m t b es where o: "owned_path path" and v: "entry_input block key entry"
    and s: "source_lines path source = Inr (ls, nl, fin)"
    and ls: "ls = a @ s # m @ t # b" "trim s = block_start block" "trim t = block_end block"
      "\<forall>l \<in> set a \<union> set m \<union> set b. not_outer block l"
    and x: "\<not> list_ex (\<lambda>line. trim line = entry_start block key \<or> trim line = entry_end block key)
       (take (length a) ls @ drop (length a + 1 + length m + 1) ls)"
    and r: "scan_entries path block (entry_marks block) (length a + 1)
       (take (length a + 1 + length m - (length a + 1)) (drop (length a + 1) ls)) = Inr es"
    and d: "card (fst ` set es) = length es" "list_all (\<lambda>(a, b). fst a < fst b) (windows2 es)"
    and e: "(if key \<in> fst ` set es then Inr (AlreadyPresent RustManagedEntry path)
        else planned sha RustManagedEntry path source
          (restore_newlines (take (insertion_point key (length a + 1 + length m) es) ls @
             entry_lines (indentation_of (ls ! length a)) block key entry @
             drop (insertion_point key (length a + 1 + length m) es) ls) nl fin)) = Inr out"
    unfolding plan_rust_managed_entry_def and_then_Inr then_check_Inr map_error_Inr change_path_new_iff reject_if_Inr
      Let_def split_paired_Ex prod.case managed_positions not_not de_Morgan_disj entry_input_def
    by blast
  have "take (length a + 1 + length m - (length a + 1)) (drop (length a + 1) ls) = m" using ls(1) by simp
  then have "entry_block (entry_marks block) (length a + 1) m es" using r scan_entries_block [OF entry_marks_nonempty] by simp
  moreover have "sorted_wrt (<) (map fst es)" using d sorted_entries by blast
  ultimately have "managed_source block source a s m t b nl fin es"
    using source_lines_form [OF s] ls by (simp add: managed_source_def)
  moreover have "take (length a) ls @ drop (length a + 1 + length m + 1) ls = a @ b" "ls ! length a = s" using ls(1) by simp_all
  then have "\<not> entry_outside block key a b" using x by (auto simp: entry_outside_def list_ex_iff)
  ultimately show ?R using o v e ls(1) \<open>ls ! length a = s\<close>
    by (intro conjI exI [of _ a] exI [of _ s] exI [of _ m] exI [of _ t] exI [of _ b] exI [of _ nl] exI [of _ fin] exI [of _ es])
       (simp_all add: Let_def split: if_splits)
next
  assume ?R
  then obtain a s m t b nl fin es where o: "owned_path path" and v: "entry_input block key entry"
    and ms: "managed_source block source a s m t b nl fin es" and x: "\<not> entry_outside block key a b"
    and e: "if key \<in> fst ` set es then out = AlreadyPresent RustManagedEntry path
        else let ls = a @ s # m @ t # b; ins = insertion_point key (length a + 1 + length m) es
          in planned sha RustManagedEntry path source
            (restore_newlines (take ins ls @ entry_lines (indentation_of s) block key entry @ drop ins ls) nl fin) = Inr out"
    by blast
  define ls where ls: "ls = a @ s # m @ t # b"
  note f = ms [unfolded managed_source_def, folded ls]
  have sl: "source_lines path source = Inr (ls, nl, fin)" using f source_lines_restore by blast
  have bb: "block_bounds (trimmed_marker_positions ls (block_start block)) (trimmed_marker_positions ls (block_end block))
      missing ambiguous = Inr (length a, length a + 1 + length m)" for missing ambiguous
    unfolding managed_positions using f ls by blast
  have parts: "take (length a) ls @ drop (length a + 1 + length m + 1) ls = a @ b" "ls ! length a = s"
    "take (length a + 1 + length m - (length a + 1)) (drop (length a + 1) ls) = m" by (simp_all add: ls)
  have "scan_entries path block (entry_marks block) (length a + 1) m = Inr es"
    using f scan_entries_block [OF entry_marks_nonempty] by blast
  moreover have "card (fst ` set es) = length es" "list_all (\<lambda>(a, b). fst a < fst b) (windows2 es)"
    using f sorted_entries by blast+
  moreover have "\<not> list_ex (\<lambda>line. trim line = entry_start block key \<or> trim line = entry_end block key) (a @ b)"
    using x by (auto simp: entry_outside_def list_ex_iff)
  moreover have "change_path_new path = Inr path" using o by (simp add: change_path_new_iff)
  moreover have "(if key \<in> fst ` set es then Inr (AlreadyPresent RustManagedEntry path)
      else let insertion = insertion_point key (length a + 1 + length m) es;
               generated = entry_lines (indentation_of (ls ! length a)) block key entry
           in planned sha RustManagedEntry path source
             (restore_newlines (take insertion ls @ generated @ drop insertion ls) nl fin)) = Inr out"
    using e unfolding parts ls [symmetric] by (simp add: Let_def split: if_splits)
  ultimately show ?L using v unfolding plan_rust_managed_entry_def entry_input_def
    by (simp only: map_error_def sum.case and_then_Inr_left then_check_Inr_left reject_if_simps sl prod.case bb parts
        de_Morgan_disj not_not simp_thms if_False)
qed


lemma insertion_split:
  assumes "entry_block ep at m es" "sorted_wrt (<) (map fst es)" "key \<notin> fst ` set es"
  obtains m1 m2 es1 es2 where "m = m1 @ m2" "es = es1 @ es2" "insertion_point key (at + length m) es = at + length m1"
    "entry_block ep at m1 es1" "entry_block ep (at + length m1) m2 es2"
    "\<forall>k \<in> fst ` set es1. k < key" "\<forall>k \<in> fst ` set es2. key < k"
proof (cases "find (\<lambda>existing. fst existing > key) es")
  case None
  have "k < key" if "k \<in> fst ` set es" for k
  proof -
    obtain e where "e \<in> set es" "k = fst e" using \<open>k \<in> fst ` set es\<close> by blast
    then have "\<not> key < k" using None unfolding find_None_iff by blast
    moreover have "k \<noteq> key" using that assms(3) by blast
    ultimately show ?thesis by simp
  qed
  then show ?thesis using None assms
    by (intro that [of m "[]" es "[]"]) (simp_all add: insertion_point_def entry_block.Nil)
next
  case (Some x)
  obtain k i j where x: "x = (k, i, j)" by (cases x)
  define es1 where "es1 = takeWhile (\<lambda>existing. \<not> fst existing > key) es"
  have "find (\<lambda>existing. fst existing > key) es = (case dropWhile (\<lambda>existing. \<not> fst existing > key) es of [] \<Rightarrow> None | y # ys \<Rightarrow> Some y)"
    by (simp add: find_dropWhile comp_def)
  then obtain fs where "dropWhile (\<lambda>existing. \<not> fst existing > key) es = x # fs" using Some by (auto split: list.splits)
  then have es: "es = es1 @ (k, i, j) # fs" unfolding es1_def x [symmetric] by (metis takeWhile_dropWhile_id)
  note sp = entry_block_split [OF assms(1) [unfolded es]]
  have l: "length (take (i - at) m) = i - at" using sp by auto
  have "k' < key" if "k' \<in> fst ` set es1" for k'
  proof -
    have "\<not> key < k'" using that by (auto simp: es1_def dest: set_takeWhileD)
    moreover have "k' \<noteq> key" using that assms(3) es by auto
    ultimately show ?thesis by simp
  qed
  moreover have "key < fst x" using Some by (auto simp: find_Some_iff)
  then have "key < k" by (simp add: x)
  then have "\<forall>k' \<in> fst ` set ((k, i, j) # fs). key < k'"
    using assms(2) unfolding es by (auto simp: sorted_wrt_append)
  moreover have "insertion_point key (at + length m) es = at + length (take (i - at) m)"
    using Some x sp l by (simp add: insertion_point_def)
  ultimately show ?thesis using sp l es by (intro that [of "take (i - at) m" "drop (i - at) m" es1 "(k, i, j) # fs"]) simp_all
qed

section \<open>The generated entry\<close>

lemma marker_identifier_visible: "valid_marker_identifier k \<Longrightarrow> c \<in> set k \<Longrightarrow> visible c"
  by (auto simp: valid_marker_identifier_def list_all_iff visible_def is_ascii_lowercase_def is_ascii_digit_def less_eq_char_def)

lemma contains_infix: "contains_str p s \<Longrightarrow> contains_str p (a @ s @ b)"
proof -
  assume "contains_str p s"
  then obtain x y where "s = x @ p @ y" by (auto simp: contains_str_iff)
  then have "a @ s @ b = (a @ x) @ p @ (y @ b)" by simp
  then show ?thesis unfolding contains_str_iff by blast
qed

lemma join_infix: "p \<in> set ps \<Longrightarrow> \<exists>x y. join sep ps = x @ p @ y"
proof (induction ps)
  case (Cons q ps)
  show ?case
  proof (cases ps)
    case (Cons r rs)
    then have j: "join sep (q # ps) = q @ sep @ join sep ps" by simp
    show ?thesis
    proof (cases "p = q")
      case True
      then show ?thesis using j by (intro exI [of _ "[]"] exI [of _ "sep @ join sep ps"]) simp
    next
      case False
      then obtain x y where "join sep ps = x @ p @ y" using Cons.IH Cons.prems by auto
      then show ?thesis using j by (intro exI [of _ "q @ sep @ x"] exI [of _ y]) simp
    qed
  qed (use Cons.prems in \<open>auto intro: exI [of _ "[]"]\<close>)
qed simp

lemma text_lines_free:
  assumes "CR \<notin> set s" "l \<in> set (text_lines s)"
  shows "CR \<notin> set l \<and> LF \<notin> set l \<and> (\<exists>x y. s = x @ l @ y) \<and> (is_utf8 s \<longrightarrow> is_utf8 l)"
proof -
  let ?ps = "split_on LF s"
  have j: "join [LF] ?ps = s" by (rule join_split_on)
  have "CR \<notin> set q" if "q \<in> set ?ps" for q using that assms(1) j join_set [of CR "[LF]" ?ps] by auto
  then have p: "plain ?ps" using split_on_free by blast
  then have "text_lines s = (if last ?ps = [] then butlast ?ps else ?ps)" using text_lines_join [of ?ps] j by simp
  then have l: "l \<in> set ?ps" using assms(2) by (auto dest: in_set_butlastD split: if_splits)
  have "is_utf8 s \<longleftrightarrow> (\<forall>q \<in> set ?ps. is_utf8 q)" using is_utf8_endings [of "[LF]" ?ps] j by simp
  then show ?thesis using p l join_infix [OF l, of "[LF]"] j by auto
qed

lemma text_lines_contains: "CR \<notin> set s \<Longrightarrow> l \<in> set (text_lines s) \<Longrightarrow> contains_str p l \<Longrightarrow> contains_str p s"
  using text_lines_free contains_infix by metis

lemma generated_line:
  assumes "whitespace ind" "l \<in> set (text_lines entry)" "entry_input block key entry"
  shows "\<not> prefix ''// hegira:'' (trim (indented ind l))"
proof
  assume a: "prefix ''// hegira:'' (trim (indented ind l))"
  have "trim (indented ind l) = trim l" using trim_whitespace [OF assms(1)] by (simp add: indented_def)
  then have "contains_str ''// hegira:'' (trim l)" using a unfolding contains_str_iff by (metis prefix_def append_Nil)
  then have "contains_str ''// hegira:'' l" using trim_infix [of l] contains_infix by metis
  then show False using text_lines_contains assms(2,3) unfolding entry_input_def by blast
qed


lemma trim_entry_marker:
  assumes "whitespace ind"
  shows "trim (ind @ entry_start block key) = entry_start block key" "trim (ind @ entry_end block key) = entry_end block key"
  unfolding trim_whitespace [OF assms]
  by (rule trim_visible; simp add: entry_start_def entry_end_def entry_marks_def visible_def)+

lemma entry_marker_outer: "valid_marker_identifier key \<Longrightarrow> entry_start block key \<noteq> block_start block \<and> entry_start block key \<noteq> block_end block \<and>
    entry_end block key \<noteq> block_start block \<and> entry_end block key \<noteq> block_end block"
proof -
  assume "valid_marker_identifier key"
  then have k: "CHR '':'' \<notin> set key" "key \<noteq> []"
    by (auto simp: valid_marker_identifier_def list_all_iff is_ascii_lowercase_def is_ascii_digit_def less_eq_char_def)
  have "'':'' @ key @ '':start'' \<noteq> '':end''" "'':'' @ key @ '':end'' \<noteq> '':end''" using k by (cases key; auto)+
  then show ?thesis unfolding entry_start_def entry_end_def block_start_def block_end_def entry_marks_def by auto
qed

lemma generated_entry:
  assumes "whitespace ind" "entry_input block key entry"
  shows "entry_block (entry_marks block) at (entry_lines ind block key entry) [(key, at, at + 1 + length (text_lines entry))]"
    and "\<forall>l \<in> set (entry_lines ind block key entry). not_outer block l"
proof -
  have v: "valid_marker_identifier key" using assms(2) by (simp add: entry_input_def)
  have g: "\<not> prefix ''// hegira:'' (trim (indented ind l))" if "l \<in> set (text_lines entry)" for l
    using generated_line [OF assms(1) that assms(2)] .
  have pm: "prefix ''// hegira:'' (entry_marks block)" by (simp add: entry_marks_def)
  have b: "\<forall>l \<in> set (map (indented ind) (text_lines entry)). \<not> prefix (entry_marks block) (trim l)"
    using g prefix_order.trans [OF pm] by auto
  have "entry_block (entry_marks block) at
      ((ind @ entry_start block key) # map (indented ind) (text_lines entry) @ (ind @ entry_end block key) # [])
      ((key, at, at + 1 + length (map (indented ind) (text_lines entry))) # [])"
    using v b trim_entry_marker [OF assms(1), of block key]
    by (intro entry_block.Entry entry_block.Nil) (simp_all add: entry_start_def entry_end_def)
  then show "entry_block (entry_marks block) at (entry_lines ind block key entry) [(key, at, at + 1 + length (text_lines entry))]"
    by (simp add: entry_lines_def)
  have "prefix ''// hegira:'' (block_start block)" "prefix ''// hegira:'' (block_end block)"
    by (simp_all add: block_start_def block_end_def)
  then have "not_outer block (indented ind l)" if "l \<in> set (text_lines entry)" for l
    using g [OF that] by (auto simp: not_outer_def)
  then show "\<forall>l \<in> set (entry_lines ind block key entry). not_outer block l"
    using trim_entry_marker [OF assms(1), of block key] entry_marker_outer [OF v, of block]
    unfolding entry_lines_def not_outer_def by auto
qed

definition clean_line :: "string \<Rightarrow> bool" where
  "clean_line l \<longleftrightarrow> CR \<notin> set l \<and> LF \<notin> set l \<and> is_utf8 l"

lemma generated_text:
  assumes "whitespace ind" "clean_line ind" "entry_input block key entry" "is_utf8 entry"
  shows "\<forall>l \<in> set (entry_lines ind block key entry). clean_line l"
proof -
  define ok where "ok c \<longleftrightarrow> (of_char c :: nat) < 128 \<and> c \<noteq> CR \<and> c \<noteq> LF" for c
  have "list_all ok k" if "valid_marker_identifier k" for k
  proof -
    have "visible c \<Longrightarrow> ok c" for c by (auto simp: ok_def visible_def)
    then show ?thesis using marker_identifier_visible [OF that] unfolding list_all_iff by blast
  qed
  then have "list_all ok block" "list_all ok key" using assms(3) by (simp_all add: entry_input_def)
  then have "list_all ok (entry_start block key)" "list_all ok (entry_end block key)"
    by (simp_all add: entry_start_def entry_end_def entry_marks_def ok_def)
  then have "\<forall>c \<in> set (entry_start block key) \<union> set (entry_end block key). (of_char c :: nat) < 128 \<and> c \<noteq> CR \<and> c \<noteq> LF"
    unfolding list_all_iff ok_def by blast
  then have "clean_line (entry_start block key)" "clean_line (entry_end block key)"
    unfolding clean_line_def using is_utf8_ascii by blast+
  moreover have "clean_line l" if "l \<in> set (text_lines entry)" for l
    using text_lines_free [OF _ that] assms(3,4) unfolding entry_input_def clean_line_def by blast
  moreover have "clean_line (ind @ l)" if "clean_line l" for l
    using assms(2) that is_utf8_append by (simp add: clean_line_def)
  moreover have "clean_line []" by (simp add: clean_line_def)
  ultimately show ?thesis unfolding entry_lines_def indented_def by auto
qed

section \<open>The effect of an entry\<close>

lemma indentation_clean:
  assumes "clean_line s"
  shows "whitespace (indentation_of s) \<and> clean_line (indentation_of s)"
proof -
  have "s = indentation_of s @ trim_start s" using indentation_of by blast
  then have "set (indentation_of s) \<subseteq> set s" by (metis set_append Un_upper1)
  then show ?thesis using indentation_of [of s] whitespace_utf8 assms unfolding clean_line_def by blast
qed

lemma text_form_clean: "text_form ls nl fin \<Longrightarrow> l \<in> set ls \<Longrightarrow> clean_line l"
  unfolding text_form_def clean_line_def by blast

lemma text_form_insert:
  assumes "text_form (a @ b) nl fin" "b \<noteq> []" "\<forall>l \<in> set x. clean_line l"
  shows "text_form (a @ x @ b) nl fin"
  using assms by (auto simp: text_form_def clean_line_def)

lemma managed_source_insert:
  assumes "managed_source block source a s (m1 @ m2) t b nl fin (es1 @ es2)"
    and "entry_input block key entry" "is_utf8 entry"
    and "entry_block (entry_marks block) (length a + 1) m1 es1"
    and "entry_block (entry_marks block) (length a + 1 + length m1) m2 es2"
    and "\<forall>k \<in> fst ` set es1. k < key" "\<forall>k \<in> fst ` set es2. key < k"
  defines "gen \<equiv> entry_lines (indentation_of s) block key entry"
  shows "\<exists>es. managed_source block (restore_newlines (a @ s # m1 @ gen @ m2 @ t # b) nl fin) a s (m1 @ gen @ m2) t b nl fin es \<and>
     fst ` set es = insert key (fst ` set (es1 @ es2))"
proof -
  note f = assms(1) [unfolded managed_source_def]
  have "clean_line s" by (rule text_form_clean [of "a @ s # (m1 @ m2) @ t # b"]) (use f in auto)
  then have i: "whitespace (indentation_of s) \<and> clean_line (indentation_of s)" by (rule indentation_clean)
  let ?at = "length a + 1 + length m1"
  have g: "entry_block (entry_marks block) ?at gen [(key, ?at, ?at + 1 + length (text_lines entry))]"
    "\<forall>l \<in> set gen. not_outer block l" "\<forall>l \<in> set gen. clean_line l"
    using generated_entry [of "indentation_of s" block key entry] generated_text [of "indentation_of s" block key entry] i assms(2,3)
    unfolding gen_def by blast+
  define es where "es = es1 @ [(key, ?at, ?at + 1 + length (text_lines entry))] @ shift_entries (length gen) es2"
  have "entry_block (entry_marks block) (length a + 1) (m1 @ gen @ m2) es" unfolding es_def
    using assms(4) g(1) entry_block_shift [OF assms(5)] by (intro entry_block_append)
  moreover have t: "text_form ((a @ s # m1) @ gen @ (m2 @ t # b)) nl fin"
    by (rule text_form_insert) (use f g(3) in simp_all)
  have "text_form (a @ s # (m1 @ gen @ m2) @ t # b) nl fin" using t by simp
  moreover have "sorted_wrt (<) (map fst es)" unfolding es_def
    using f assms(6,7) by (auto simp: sorted_wrt_append)
  moreover have "\<forall>l \<in> set a \<union> set (m1 @ gen @ m2) \<union> set b. not_outer block l" using f g(2) by auto
  moreover have "trim s = block_start block" "trim t = block_end block" using f by blast+
  moreover have "a @ s # m1 @ gen @ m2 @ t # b = a @ s # (m1 @ gen @ m2) @ t # b" by simp
  ultimately have "managed_source block (restore_newlines (a @ s # m1 @ gen @ m2 @ t # b) nl fin) a s (m1 @ gen @ m2) t b nl fin es"
    unfolding managed_source_def by (simp only: simp_thms)
  moreover have "set (map fst es) = insert key (set (map fst (es1 @ es2)))" unfolding es_def map_append shift_entries_keys by auto
  then have "fst ` set es = insert key (fst ` set (es1 @ es2))" by (simp only: list.set_map)
  ultimately show ?thesis by blast
qed

lemma planned_entryE:
  assumes "plan_rust_managed_entry sha path source block key entry = Inr (Planned kind edit)"
  obtains a s m1 m2 t b nl fin es1 es2 where "owned_path path" "entry_input block key entry" "\<not> entry_outside block key a b"
    "managed_source block source a s (m1 @ m2) t b nl fin (es1 @ es2)"
    "entry_block (entry_marks block) (length a + 1) m1 es1" "entry_block (entry_marks block) (length a + 1 + length m1) m2 es2"
    "\<forall>k \<in> fst ` set es1. k < key" "\<forall>k \<in> fst ` set es2. key < k"
    "planned sha RustManagedEntry path source
       (restore_newlines (a @ s # m1 @ entry_lines (indentation_of s) block key entry @ m2 @ t # b) nl fin) = Inr (Planned kind edit)"
proof -
  obtain a s m t b nl fin es where io: "owned_path path" "entry_input block key entry" "\<not> entry_outside block key a b"
    and ms: "managed_source block source a s m t b nl fin es"
    and o: "if key \<in> fst ` set es then Planned kind edit = AlreadyPresent RustManagedEntry path
         else let ls = a @ s # m @ t # b; ins = insertion_point key (length a + 1 + length m) es
              in planned sha RustManagedEntry path source
                (restore_newlines (take ins ls @ entry_lines (indentation_of s) block key entry @ drop ins ls) nl fin) = Inr (Planned kind edit)"
    using assms unfolding plan_rust_managed_entry_Inr by blast
  have k: "key \<notin> fst ` set es"
  proof
    assume "key \<in> fst ` set es"
    with o show False by (simp only: if_True structured_edit_outcome.distinct)
  qed
  obtain m1 m2 es1 es2 where sp: "m = m1 @ m2" "es = es1 @ es2"
      "insertion_point key (length a + 1 + length m) es = length a + 1 + length m1"
      "entry_block (entry_marks block) (length a + 1) m1 es1" "entry_block (entry_marks block) (length a + 1 + length m1) m2 es2"
      "\<forall>k \<in> fst ` set es1. k < key" "\<forall>k \<in> fst ` set es2. key < k"
    using insertion_split [of "entry_marks block" "length a + 1" m es key] ms k unfolding managed_source_def by blast
  have "take (length a + 1 + length m1) (a @ s # (m1 @ m2) @ t # b) @ g @ drop (length a + 1 + length m1) (a @ s # (m1 @ m2) @ t # b) =
      a @ s # m1 @ g @ m2 @ t # b" for g by simp
  then have "planned sha RustManagedEntry path source
      (restore_newlines (a @ s # m1 @ entry_lines (indentation_of s) block key entry @ m2 @ t # b) nl fin) = Inr (Planned kind edit)"
    using o k sp(1,3) by (simp add: Let_def)
  then show ?thesis using io ms sp by (intro that) simp_all
qed

text \<open>Planning an entry changes nothing but the block: the edit keeps every line of the source, its line ending and
  the end of the file, and inserts the marked, indented lines of the entry between the entries with smaller and those
  with greater keys.\<close>

theorem managed_entry_inserted:
  assumes "plan_rust_managed_entry sha path source block key entry = Inr (Planned kind edit)"
  shows "\<exists>a s m1 m2 t b nl fin es1 es2.
     managed_source block source a s (m1 @ m2) t b nl fin (es1 @ es2) \<and>
     entry_block (entry_marks block) (length a + 1) m1 es1 \<and> entry_block (entry_marks block) (length a + 1 + length m1) m2 es2 \<and>
     list_all (\<lambda>e. fst e < key) es1 \<and> list_all (\<lambda>e. key < fst e) es2 \<and>
     fe_content edit = restore_newlines (a @ s # m1 @ entry_lines (indentation_of s) block key entry @ m2 @ t # b) nl fin \<and>
     kind = RustManagedEntry \<and> fe_path edit = path \<and> fe_original_digest edit = sha source \<and>
     fe_result_digest edit = sha (fe_content edit)"
proof (rule planned_entryE [OF assms], goal_cases)
  case (1 a s m1 m2 t b nl fin es1 es2)
  then show ?case unfolding planned_eq list_all_iff
    by (intro exI [of _ a] exI [of _ s] exI [of _ m1] exI [of _ m2] exI [of _ t] exI [of _ b] exI [of _ nl] exI [of _ fin]
        exI [of _ es1] exI [of _ es2]) simp
qed

text \<open>Planning an entry is idempotent: on the result of the edit the entry is found present, whatever text is
  given for it.\<close>

theorem managed_entry_idempotent:
  assumes "plan_rust_managed_entry sha path source block key entry = Inr (Planned kind edit)" "is_utf8 entry"
    and "entry_input block key other"
  shows "plan_rust_managed_entry sha path (fe_content edit) block key other = Inr (AlreadyPresent RustManagedEntry path)"
proof (rule planned_entryE [OF assms(1)], goal_cases)
  case (1 a s m1 m2 t b nl fin es1 es2)
  then have "fe_content edit = restore_newlines (a @ s # m1 @ entry_lines (indentation_of s) block key entry @ m2 @ t # b) nl fin"
    by (simp add: planned_eq)
  with managed_source_insert [OF 1(4,2) assms(2) 1(5-8)] obtain m es where
    "managed_source block (fe_content edit) a s m t b nl fin es" "key \<in> fst ` set es" by auto
  then show ?case unfolding plan_rust_managed_entry_Inr using 1(1,3) assms(3)
    by (intro conjI exI [of _ a] exI [of _ s] exI [of _ m] exI [of _ t] exI [of _ b] exI [of _ nl] exI [of _ fin] exI [of _ es])
       simp_all
qed

definition sample_block :: "string list \<Rightarrow> content" where
  "sample_block ls = restore_newlines ([''fn routes() {'', ''  // hegira:routes''] @ ls @ [''  // hegira:routes:end'', ''}'']) [LF] True"

definition sample_entry :: "structured_file_edit" where
  "sample_entry = (let source = sample_block []; result = sample_block (entry_lines ''  '' ''routes'' ''billing'' ''billing::mount();'')
     in \<lparr> fe_path = ''src/lib.rs'', fe_original_digest = source, fe_content = result, fe_result_digest = result \<rparr>)"

lemma sample_entry_planned:
  "plan_rust_managed_entry id ''src/lib.rs'' (sample_block []) ''routes'' ''billing'' ''billing::mount();'' =
     Inr (Planned RustManagedEntry sample_entry)"
  by code_simp

lemma managed_entry_idempotent_witness:
  "plan_rust_managed_entry id ''src/lib.rs'' (fe_content sample_entry) ''routes'' ''billing'' ''pay();'' =
     Inr (AlreadyPresent RustManagedEntry ''src/lib.rs'')"
proof -
  have "entry_input ''routes'' ''billing'' ''pay();''" "is_utf8 ''billing::mount();''" by code_simp+
  then show ?thesis using managed_entry_idempotent [OF sample_entry_planned] by blast
qed

lemma managed_entry_inserted_witness: "fe_result_digest sample_entry = fe_content sample_entry"
  using managed_entry_inserted [OF sample_entry_planned] by auto

end
