(* ===== verification/Component_Plans.thy ===== *)
theory Component_Plans
  imports Installation Module_Registration Managed_Entry
begin

text \<open>
  Properties of the installation of components: every edit of a closed target is well formed, and composing
  contributions and planning their installation refines running them one after the other.
\<close>

section \<open>Edits of the closed targets\<close>

definition edit_ok :: "(content \<Rightarrow> content_digest) \<Rightarrow> change_path \<Rightarrow> structured_edit_error + structured_edit_outcome \<Rightarrow> bool" where
  "edit_ok sha path r \<longleftrightarrow> (\<forall>kind edit. r = Inr (Planned kind edit) \<longrightarrow>
     fe_path edit = path \<and> owned_path path \<and> fe_result_digest edit = sha (fe_content edit)) \<and>
     (\<forall>kind p. r = Inr (AlreadyPresent kind p) \<longrightarrow> p = path)"

named_theorems edits_ok "the planners of structured edits give edits of their path"

lemma edit_ok_planned [edits_ok]: "edit_ok sha path (planned sha kind path source result)"
  unfolding edit_ok_def planned_Inr by simp

lemma edit_ok_simps [simp]: "edit_ok sha path (Inl e)" "edit_ok sha path (Inr (AlreadyPresent k p)) \<longleftrightarrow> p = path"
  by (simp_all add: edit_ok_def)

lemma edit_ok_and_then: "(\<And>x. a = Inr x \<Longrightarrow> edit_ok sha path (f x)) \<Longrightarrow> edit_ok sha path (and_then a f)"
  by (cases a) simp_all

lemma edit_ok_then_check: "edit_ok sha path b \<Longrightarrow> edit_ok sha path (then_check a b)"
  by (cases a) simp_all

lemma edit_ok_path: "(owned_path path \<Longrightarrow> edit_ok sha path (f path)) \<Longrightarrow>
    edit_ok sha path (and_then (map_error of_change_plan_error (change_path_new path)) f)"
  by (rule edit_ok_and_then) (auto simp: change_path_new_iff)

lemma module_edit_ok [edits_ok]: "edit_ok sha path (plan_rust_module sha path source m)"
  unfolding edit_ok_def plan_rust_module_Inr by (auto simp: planned_Inr split: if_splits)

lemma entry_edit_ok [edits_ok]: "edit_ok sha path (plan_rust_managed_entry sha path source block key entry)"
  unfolding edit_ok_def plan_rust_managed_entry_Inr by (auto simp: planned_Inr Let_def split: if_splits)

lemma dependency_edit_ok [edits_ok]: "edit_ok sha path (plan_cargo_dependency L sha path source sec dependency)"
  unfolding plan_cargo_dependency_def
  by (intro edit_ok_path edit_ok_and_then edit_ok_then_check) (auto intro: edits_ok split: option.split)

lemma array_edit_ok [edits_ok]: "edit_ok sha path (plan_toml_array_string L sha path source table key entry)"
  unfolding plan_toml_array_string_def
  by (intro edit_ok_path edit_ok_and_then edit_ok_then_check) (auto intro: edits_ok)

lemma scan_identities_outcome: "scan_identities path ident version es = Inr (Inl out) \<Longrightarrow> out = AlreadyPresent TomlArrayTable path"
proof (induction es)
  case (Cons e es)
  have n: "(case r of Inl outcome \<Rightarrow> Inr (Inl outcome) | Inr identities \<Rightarrow> Inr (Inr (i # identities))) = Inr (Inl out) \<longleftrightarrow> r = Inl out" for r i
    by (cases r) auto
  show ?case using Cons.prems Cons.IH by (auto simp: n split: if_splits)
qed simp

lemma identity_edit_ok [edits_ok]: "edit_ok sha path (plan_toml_identity_entry L sha path source table key ident version)"
  unfolding plan_toml_identity_entry_def Let_def
  by (intro edit_ok_path edit_ok_and_then edit_ok_then_check)
     (auto dest!: scan_identities_outcome intro!: edit_ok_then_check edits_ok split: sum.split)

lemma closed_targets:
  "case module_owner_and_path target of (owner, path) \<Rightarrow> owns owner path \<and> \<not> is_historical_migration path"
  "case manifest_owner_and_path manifest of (owner, path) \<Rightarrow> owns owner path \<and> \<not> is_historical_migration path"
  "case managed_integration managed of (owner, path, block) \<Rightarrow> owns owner path \<and> \<not> is_historical_migration path"
  "case configuration_integration configuration of (owner, path, table, key) \<Rightarrow> owns owner path \<and> \<not> is_historical_migration path"
  by ((cases target, auto simp: below_def is_historical_migration_def strip_prefix_def) [1],
      (cases manifest, auto simp: below_def is_historical_migration_def strip_prefix_def) [1],
      (cases managed, auto simp: below_def is_historical_migration_def strip_prefix_def) [1],
      (cases configuration, auto simp: below_def is_historical_migration_def strip_prefix_def) [1])

text \<open>A contribution is well formed: its path is canonical, belongs to its owner, is not a historical migration when it
  is edited, and its digest is that of its content.\<close>

fun contribution_ok :: "(content \<Rightarrow> content_digest) \<Rightarrow> component_contribution \<Rightarrow> bool" where
  "contribution_ok sha (Artifact a) \<longleftrightarrow>
     owned_path (fn_path (ca_creation a)) \<and> owns (ca_owner a) (fn_path (ca_creation a)) \<and>
     fn_result_digest (ca_creation a) = sha (fn_content (ca_creation a))"
| "contribution_ok sha (Integration i) \<longleftrightarrow>
     owned_path (fe_path (ci_edit i)) \<and> owns (ci_owner i) (fe_path (ci_edit i)) \<and> \<not> is_historical_migration (fe_path (ci_edit i)) \<and>
     fe_result_digest (ci_edit i) = sha (fe_content (ci_edit i))"

fun component_edit_ok :: "(content \<Rightarrow> content_digest) \<Rightarrow> component_edit_error + component_edit_result \<Rightarrow> bool" where
  "component_edit_ok sha (Inl (InstallationError _)) = False"
| "component_edit_ok sha (Inl _) = True"
| "component_edit_ok sha (Inr (PlannedContribution c)) = contribution_ok sha c"
| "component_edit_ok sha (Inr (ContributionPresent owner path kind)) \<longleftrightarrow> owns owner path \<and> \<not> is_historical_migration path"

lemma component_edit:
  assumes "edit_ok sha path r" "owns owner path \<and> \<not> is_historical_migration path"
  shows "component_edit_ok sha (and_then (map_error Structured r) (component_edit_outcome owner))"
proof (cases r)
  case (Inl e)
  then show ?thesis by (simp add: map_error_def)
next
  case (Inr out)
  show ?thesis
  proof (cases out)
    case (Planned kind edit)
    then have "fe_path edit = path" "owned_path path" "fe_result_digest edit = sha (fe_content edit)"
      using assms(1) Inr by (simp_all add: edit_ok_def)
    with Inr Planned assms(2) show ?thesis
      by (simp add: map_error_def component_edit_outcome_def component_integration_new_def validate_contribution_ownership_def)
  next
    case (AlreadyPresent kind p)
    then show ?thesis using assms Inr by (simp add: map_error_def component_edit_outcome_def)
  qed
qed

text \<open>C33. Every edit of a component is well formed: whatever target, source and entry are given, a planned contribution has
  a canonical path inside its owner's part of the application, is no historical migration and carries the digest of
  its content; an edit never fails because of its place.\<close>

theorem component_edits_well_formed:
  "list_all (component_edit_ok sha)
     [plan_component_composition_identity L sha configuration source ident version,
      plan_component_rust_module sha target source m,
      plan_component_managed_rust_entry sha managed source key entry,
      plan_component_cargo_dependency L sha manifest source section dependency,
      plan_component_cargo_feature L sha manifest source feature selection,
      plan_component_configuration_entry L sha configuration source entry]"
proof -
  have h: "owns ManifestFile ''hegira.toml'' \<and> \<not> is_historical_migration ''hegira.toml''"
    by (simp add: is_historical_migration_def)
  have "component_edit_ok sha (plan_component_composition_identity L sha configuration source ident version)"
    using component_edit [OF identity_edit_ok [where L = L] h] by (cases configuration) (simp_all add: plan_component_composition_identity_def)
  moreover have "component_edit_ok sha (plan_component_rust_module sha target source m)"
    using closed_targets(1) [of target] component_edit [OF module_edit_ok]
    by (auto simp: plan_component_rust_module_def split: prod.splits)
  moreover have "component_edit_ok sha (plan_component_managed_rust_entry sha managed source key entry)"
    using closed_targets(3) [of managed] component_edit [OF entry_edit_ok]
    by (auto simp: plan_component_managed_rust_entry_def split: prod.splits)
  moreover have "component_edit_ok sha (plan_component_cargo_dependency L sha manifest source section dependency)"
  proof (cases "manifest_owner_and_path manifest")
    case (Pair owner path)
    then have "owns owner path \<and> \<not> is_historical_migration path" using closed_targets(2) [of manifest] by simp
    from component_edit [OF dependency_edit_ok [where L = L and source = source and sec = "section" and dependency = dependency] this] Pair show ?thesis by (simp add: plan_component_cargo_dependency_def reject_if_def)
  qed
  moreover have "component_edit_ok sha (plan_component_cargo_feature L sha manifest source feature selection)"
  proof (cases "manifest_owner_and_path manifest")
    case (Pair owner path)
    then have "owns owner path \<and> \<not> is_historical_migration path" using closed_targets(2) [of manifest] by simp
    from component_edit [OF array_edit_ok [where L = L and source = source and table = "[''features'']" and key = feature and entry = selection] this] Pair show ?thesis by (simp add: plan_component_cargo_feature_def reject_if_def)
  qed
  moreover have "component_edit_ok sha (plan_component_configuration_entry L sha configuration source entry)"
    using closed_targets(4) [of configuration] component_edit [OF array_edit_ok [where L = L]]
    by (auto simp: plan_component_configuration_entry_def split: prod.splits)
  ultimately show ?thesis by simp
qed

lemma constructed_artifact_ok: "component_artifact_new sha owner path content = Inr a \<Longrightarrow> contribution_ok sha (Artifact a)"
  by (auto simp: component_artifact_new_def file_creation_new_def change_path_new_iff validate_contribution_ownership_def
      split: if_splits)

lemma hegira_toml_path: "change_path_new ''hegira.toml'' = Inr ''hegira.toml''"
  by code_simp

text \<open>The entry point for arrays of the manifest can only be used for capabilities: for components and modules every
  call is rejected as invalid input.\<close>

theorem configuration_entry_targets:
  "configuration \<noteq> Capabilities \<Longrightarrow>
     \<exists>e. plan_component_configuration_entry L sha configuration source entry = Inl (Structured e) \<and> se_kind e = InvalidInput"
  by (cases configuration) (simp_all add: plan_component_configuration_entry_def plan_toml_array_string_def hegira_toml_path
      validate_toml_address_def valid_toml_key_def edit_error_at_def map_error_def)


section \<open>Composition of contributions\<close>

abbreviation contribution_change :: "component_contribution \<Rightarrow> planned_file_change" where
  "contribution_change c \<equiv> snd (into_parts c)"

lemma into_parts_simps [simp]:
  "fst (into_parts c) = contribution_owner c" "pc_path (contribution_change c) = contribution_path c"
  by (cases c; simp)+

lemma contribution_digest: "contribution_ok sha c \<Longrightarrow> digest_ok sha (contribution_change c)"
  by (cases c) (auto simp: digest_ok_def)

text \<open>The tree of contributions as the tree of their changes.\<close>

definition changes_of :: "(change_path, component_contribution) btree \<Rightarrow> (change_path, planned_file_change) btree" where
  "changes_of t = map (\<lambda>(k, c). (k, contribution_change c)) t"

lemma changes_of_get: "bt_get (changes_of t) k = map_option contribution_change (bt_get t k)"
  by (simp add: bt_get_def changes_of_def map_of_map)

lemma changes_of_insert: "changes_of (bt_insert k c t) = bt_insert k (contribution_change c) (changes_of t)"
  by (induction t) (auto simp: changes_of_def)

lemma changes_of_remove: "changes_of (bt_remove k t) = bt_remove k (changes_of t)"
  by (induction t) (auto simp: changes_of_def bt_remove_def)

lemma changes_of_values: "bt_values (changes_of t) = map contribution_change (bt_values t)"
  by (simp add: changes_of_def bt_values_def split_beta)

lemma changes_of_ok: "bt_ok (changes_of t) \<longleftrightarrow> bt_ok t"
  by (simp add: changes_of_def bt_ok_def comp_def split_beta)

text \<open>Where the changes chain, the contributions chain, to the contribution of the chained change; it is well formed again.\<close>

lemma chain_contributions_changes:
  assumes "chain_changes (contribution_change p) (contribution_change c) = Some r"
    and "pc_precondition (contribution_change c) = pc_result_precondition (contribution_change p)"
  shows "\<exists>d. chain_contributions p c = Some d \<and> r = Some (contribution_change d) \<and> contribution_owner d = contribution_owner p \<and>
     contribution_path d = contribution_path p"
  using assms by (cases p; cases c) (auto simp: pc_result_precondition_def)

lemma chain_contributions_ok:
  assumes "chain_contributions p c = Some d" "contribution_ok sha p" "contribution_ok sha c"
  shows "contribution_ok sha d"
  using assms by (cases p; cases c) (auto split: if_splits)

definition owners_agree :: "component_contribution list \<Rightarrow> bool" where
  "owners_agree cs \<longleftrightarrow> (\<forall>c \<in> set cs. \<forall>d \<in> set cs. contribution_path c = contribution_path d \<longrightarrow> contribution_owner c = contribution_owner d)"

definition owned_by :: "(change_path, component_contribution) btree \<Rightarrow> (change_path \<Rightarrow> application_file_owner) \<Rightarrow> bool" where
  "owned_by t own \<longleftrightarrow> (\<forall>k c. bt_get t k = Some c \<longrightarrow> contribution_owner c = own k)"

lemma compose_contributions_changes:
  assumes "compose_changes (changes_of t) (map contribution_change cs) = Inr t'"
    and "owned_by t own" "\<forall>c \<in> set cs. contribution_owner c = own (contribution_path c)"
    and "\<forall>k c. bt_get t k = Some c \<longrightarrow> contribution_ok sha c" "\<forall>c \<in> set cs. contribution_ok sha c"
  shows "\<exists>u. compose_contributions t cs = Inr u \<and> changes_of u = t' \<and> owned_by u own \<and>
     (\<forall>k c. bt_get u k = Some c \<longrightarrow> contribution_ok sha c)"
  using assms
proof (induction cs arbitrary: t)
  case (Cons c cs)
  let ?k = "contribution_path c"
  obtain v where v: "compose_change (changes_of t) (contribution_change c) = Inr v"
      "compose_changes v (map contribution_change cs) = Inr t'" using Cons.prems(1) by auto
  show ?case
  proof (cases "bt_get t ?k")
    case None
    then have "v = changes_of (bt_insert ?k c t)"
      using v(1) by (simp add: compose_change_def changes_of_get changes_of_insert)
    moreover have "owned_by (bt_insert ?k c t) own" "\<forall>k d. bt_get (bt_insert ?k c t) k = Some d \<longrightarrow> contribution_ok sha d"
      using Cons.prems(2-5) by (auto simp: owned_by_def bt.get_insert)
    ultimately show ?thesis using Cons.IH [of "bt_insert ?k c t"] v(2) Cons.prems(3,5) None by simp
  next
    case (Some p)
    then have pre: "pc_precondition (contribution_change c) = pc_result_precondition (contribution_change p)"
      using v(1) by (auto simp: compose_change_def changes_of_get Let_def split: if_splits)
    then obtain r where r: "chain_changes (contribution_change p) (contribution_change c) = Some r"
      "v = (case r of None \<Rightarrow> bt_remove ?k (changes_of t) | Some d \<Rightarrow> bt_insert ?k d (bt_remove ?k (changes_of t)))"
      using v(1) Some by (auto simp: compose_change_def changes_of_get Let_def split: option.splits)
    obtain d where d: "chain_contributions p c = Some d" "r = Some (contribution_change d)" "contribution_owner d = contribution_owner p"
      using chain_contributions_changes [OF r(1) pre] by blast
    let ?t = "bt_insert ?k d (bt_remove ?k t)"
    have own: "contribution_owner p = own ?k" "contribution_owner c = own ?k"
      using Cons.prems(2,3) Some by (auto simp: owned_by_def)
    have "contribution_ok sha d" using chain_contributions_ok [OF d(1)] Cons.prems(4,5) Some by auto
    then have "owned_by ?t own" "\<forall>k d. bt_get ?t k = Some d \<longrightarrow> contribution_ok sha d"
      using Cons.prems(2,4) d(3) own by (auto simp: owned_by_def bt.get_insert bt.get_remove)
    moreover have "v = changes_of ?t" using r(2) d(2) by (simp add: changes_of_insert changes_of_remove)
    ultimately show ?thesis using Cons.IH [of ?t] v(2) Cons.prems(3,5) Some d(1) own by (simp add: Let_def)
  qed
qed simp


lemma compose_contributions_paths:
  "compose_contributions t cs = Inr u \<Longrightarrow> dom (bt_get u) = dom (bt_get t) \<union> contribution_path ` set cs"
  by (induction cs arbitrary: t)
     (auto simp: Let_def bt.get_insert bt.get_remove split: option.splits if_splits)

section \<open>Installation\<close>

definition own_all :: "component_contribution list \<Rightarrow> (change_path, application_file_owner) btree \<Rightarrow> (change_path, application_file_owner) btree" where
  "own_all cs t = fold (\<lambda>c. bt_insert (contribution_path c) (contribution_owner c)) cs t"

lemma collect_contributions_Inr:
  "collect_contributions t cs = Inr (owners, changes) \<longleftrightarrow>
     distinct (map contribution_path cs) \<and> (\<forall>c \<in> set cs. bt_get t (contribution_path c) = None) \<and>
     changes = map contribution_change cs \<and> owners = own_all cs t"
proof (induction cs arbitrary: t changes)
  case (Cons c cs)
  obtain owner change where ip: "into_parts c = (owner, change)" by (cases "into_parts c")
  have o: "owner = contribution_owner c" "pc_path change = contribution_path c" "contribution_change c = change"
    using ip into_parts_simps [of c] by auto
  let ?t = "bt_insert (contribution_path c) (contribution_owner c) t"
  have "collect_contributions t (c # cs) = Inr (owners, changes) \<longleftrightarrow>
      bt_get t (contribution_path c) = None \<and>
      (\<exists>rest. collect_contributions ?t cs = Inr (owners, rest) \<and> changes = contribution_change c # rest)"
    unfolding collect_contributions.simps ip prod.case Let_def o by (auto simp: o(1) [symmetric] ip)
  also have "\<dots> \<longleftrightarrow> bt_get t (contribution_path c) = None \<and> distinct (map contribution_path cs) \<and>
      (\<forall>d \<in> set cs. bt_get ?t (contribution_path d) = None) \<and> changes = contribution_change c # map contribution_change cs \<and>
      owners = own_all cs ?t"
    unfolding Cons.IH by blast
  also have "(\<forall>d \<in> set cs. bt_get ?t (contribution_path d) = None) \<longleftrightarrow>
      contribution_path c \<notin> contribution_path ` set cs \<and> (\<forall>d \<in> set cs. bt_get t (contribution_path d) = None)"
    by (auto simp: bt.get_insert) (metis image_eqI)
  finally show ?case by (auto simp: own_all_def)
qed (auto simp: own_all_def)

lemma own_all_get:
  "distinct (map contribution_path cs) \<Longrightarrow> c \<in> set cs \<Longrightarrow> bt_get (own_all cs t) (contribution_path c) = Some (contribution_owner c)"
proof (induction cs arbitrary: t)
  case (Cons d cs)
  have other: "bt_get (own_all cs t) k = bt_get t k" if "k \<notin> contribution_path ` set cs" for cs t k
    using that by (induction cs arbitrary: t) (auto simp: own_all_def bt.get_insert)
  show ?case
  proof (cases "c = d")
    case True
    then show ?thesis using Cons.prems(1) other [of "contribution_path d" cs] by (simp add: own_all_def bt.get_insert)
  next
    case False
    then show ?thesis using Cons by (simp add: own_all_def)
  qed
qed simp

definition component_id :: "string \<Rightarrow> bool" where
  "component_id c \<longleftrightarrow> validate_component_id c = Inr c"

lemma validate_component_id_Inr: "validate_component_id c = Inr d \<longleftrightarrow> d = c \<and> component_id c"
  by (auto simp: validate_component_id_def component_id_def)

lemma installed_set_Inr:
  "installed_set t cs = Inr u \<longleftrightarrow> (\<forall>c \<in> set cs. component_id c) \<and> distinct cs \<and> set cs \<inter> t = {} \<and> u = t \<union> set cs"
proof (induction cs arbitrary: t)
  case (Cons c cs)
  have "installed_set t (c # cs) = Inr u \<longleftrightarrow> component_id c \<and> c \<notin> t \<and> installed_set (insert c t) cs = Inr u"
    unfolding installed_set.simps and_then_Inr validate_component_id_Inr by auto
  also have "\<dots> \<longleftrightarrow> (\<forall>d \<in> set (c # cs). component_id d) \<and> distinct (c # cs) \<and> set (c # cs) \<inter> t = {} \<and> u = t \<union> set (c # cs)"
    unfolding Cons.IH by auto
  finally show ?case .
qed auto

lemma plan_component_installation_Inr:
  "plan_component_installation sha component installed cs = Inr plan \<longleftrightarrow>
     component_id component \<and> (\<forall>c \<in> set installed. component_id c) \<and>
     distinct installed \<and> component \<notin> set installed \<and> cs \<noteq> [] \<and> distinct (map contribution_path cs) \<and>
     ip_component plan = component \<and> ip_owners plan = own_all cs [] \<and>
     plan_new sha (map contribution_change cs) = Inr (ip_changes plan)"
  unfolding plan_component_installation_def and_then_Inr then_check_Inr map_error_Inr reject_if_Inr split_paired_Ex prod.case
    collect_contributions_Inr installed_set_Inr validate_component_id_Inr
  by (cases plan) (auto simp: bt.get_empty)

text \<open>The summary of a plan whose changes are owned and never retire a file does not panic.\<close>

lemma owned_summaries_total:
  assumes "\<forall>c \<in> set changes. owned_path (ps_path c) \<and> bt_get owners (ps_path c) \<noteq> None \<and> ps_result_sha256 c \<noteq> None"
  shows "\<exists>r. owned_summaries owners changes = Some r"
  using assms
proof (induction changes)
  case (Cons c cs)
  then obtain r where "owned_summaries owners cs = Some r" by auto
  moreover have "change_path_new (ps_path c) = Inr (ps_path c)" using Cons.prems by (simp add: change_path_new_iff)
  ultimately show ?case using Cons.prems by auto
qed simp


lemma summary_total:
  assumes "plan_component_installation sha component installed cs = Inr plan" "\<forall>c \<in> set cs. contribution_ok sha c"
  shows "installation_summary plan \<noteq> None \<and>
     (\<forall>c \<in> set cs. bt_get (ip_owners plan) (contribution_path c) = Some (contribution_owner c))"
proof -
  note p = assms(1) [unfolded plan_component_installation_Inr]
  have own: "bt_get (ip_owners plan) (contribution_path c) = Some (contribution_owner c)" if "c \<in> set cs" for c
    using p own_all_get that by simp
  have "owned_path (ps_path s) \<and> bt_get (ip_owners plan) (ps_path s) \<noteq> None \<and> ps_result_sha256 s \<noteq> None"
    if "s \<in> set (ss_changes (plan_summary (ip_changes plan)))" for s
  proof -
    note summarised = that
    obtain ch where ch: "ch \<in> set (ip_changes plan)" "ps_path s = pc_path ch" "ps_result_sha256 s = map_option to_hex (pc_result_digest ch)"
      using summarised by (auto simp: plan_summary_def)
    have "set (ip_changes plan) = set (map contribution_change cs)" using p plan_new_iff by blast
    then obtain c where c: "c \<in> set cs" "ch = contribution_change c" using ch(1) unfolding list.set_map by blast
    have "owned_path (contribution_path c)" using assms(2) c(1) by (cases c) auto
    moreover have "pc_result_digest (contribution_change c) \<noteq> None" by (cases c) simp_all
    ultimately show ?thesis using c(2) ch own [OF c(1)] by simp
  qed
  then obtain r where "owned_summaries (ip_owners plan) (ss_changes (plan_summary (ip_changes plan))) = Some r"
    using owned_summaries_total by blast
  with own show ?thesis by (simp add: installation_summary_def)
qed

text \<open>Contributions that run in sequence compose to contributions on the same paths, with the same owners and effect.\<close>

lemma composed_contributions:
  assumes "\<forall>c \<in> set cs. contribution_ok sha c" "owners_agree cs"
    and "run_changes sha (map contribution_change cs) files = Some files'"
  obtains ds where "compose_component_contributions cs = Inr ds" "plan_ok sha (map contribution_change ds)"
    "run_changes sha (map contribution_change ds) files = Some files'" "\<forall>d \<in> set ds. contribution_ok sha d"
    "\<forall>c \<in> set cs. \<exists>d \<in> set ds. contribution_path d = contribution_path c \<and> contribution_owner d = contribution_owner c"
proof -
  obtain t where t: "compose_changes [] (map contribution_change cs) = Inr t" "composes sha files t files'"
    using compose_changes_run [OF composes_empty, of "map contribution_change cs" sha files files'] assms(1,3) contribution_digest
    by auto
  define own where "own p = contribution_owner (SOME c. c \<in> set cs \<and> contribution_path c = p)" for p
  have own: "contribution_owner c = own (contribution_path c)" if "c \<in> set cs" for c
  proof -
    have "(SOME d. d \<in> set cs \<and> contribution_path d = contribution_path c) \<in> set cs \<and>
        contribution_path (SOME d. d \<in> set cs \<and> contribution_path d = contribution_path c) = contribution_path c"
      by (rule someI [of _ c]) (use that in simp)
    then show ?thesis using assms(2) that unfolding own_def owners_agree_def by metis
  qed
  obtain u where u: "compose_contributions [] cs = Inr u" "changes_of u = t" "owned_by u own"
    "\<forall>k c. bt_get u k = Some c \<longrightarrow> contribution_ok sha c"
    using compose_contributions_changes [of "[]" cs t own sha] t(1) own assms(1)
    by (auto simp: changes_of_def owned_by_def bt.get_empty)
  have okt: "bt_ok u" and at: "composed_at sha files files' p (bt_get t p)" for p
    using t(2) u(2) changes_of_ok by (auto simp: composes_def)
  have key: "contribution_path c = k" if "bt_get u k = Some c" for k c
    using at [of k] that u(2) changes_of_get [of u k] by auto
  have mem: "c \<in> set (bt_values u) \<longleftrightarrow> bt_get u (contribution_path c) = Some c" for c
    unfolding bt_values_def by (rule bt.values_set [OF okt]) (rule key)
  have "\<exists>d \<in> set (bt_values u). contribution_path d = contribution_path c \<and> contribution_owner d = contribution_owner c"
    if "c \<in> set cs" for c
  proof -
    have "contribution_path c \<in> dom (bt_get u)" using compose_contributions_paths [OF u(1)] that by blast
    then obtain d where d: "bt_get u (contribution_path c) = Some d" by blast
    then have "contribution_path d = contribution_path c" "d \<in> set (bt_values u)" using key mem by metis+
    moreover have "contribution_owner d = contribution_owner c" using d u(3) own [OF that] by (simp add: owned_by_def)
    ultimately show ?thesis by blast
  qed
  moreover have "bt_values t = map contribution_change (bt_values u)" using u(2) changes_of_values [of u] by simp
  then have "plan_ok sha (map contribution_change (bt_values u))" "run_changes sha (map contribution_change (bt_values u)) files = Some files'"
    using composed_plan [OF t(2)] by simp_all
  moreover have "\<forall>d \<in> set (bt_values u). contribution_ok sha d" using u(4) mem by blast
  moreover have "compose_component_contributions cs = Inr (bt_values u)" using u(1) by (simp add: compose_component_contributions_def)
  ultimately show ?thesis by (intro that) blast+
qed

text \<open>C4. Installing a component refines running its contributions one after the other: if well-formed contributions
  with one owner per path run in sequence from some files, they compose, the composition is accepted as installation
  of a new component, running its plan gives the same files, every path keeps its owner, and the summary exists.\<close>

theorem installation_refines_contributions:
  assumes "\<forall>c \<in> set cs. contribution_ok sha c" "owners_agree cs" "cs \<noteq> []"
    and "run_changes sha (map (\<lambda>c. snd (into_parts c)) cs) files = Some files'"
    and "component_id component" "\<forall>c \<in> set installed. component_id c" "distinct installed" "component \<notin> set installed"
  shows "\<exists>ds plan. compose_component_contributions cs = Inr ds \<and>
     plan_component_installation sha component installed ds = Inr plan \<and>
     plan_validate sha (ip_changes plan) = Inr () \<and> run_changes sha (ip_changes plan) files = Some files' \<and>
     (\<forall>c \<in> set cs. bt_get (ip_owners plan) (contribution_path c) = Some (contribution_owner c)) \<and>
     installation_summary plan \<noteq> None"
proof -
  obtain ds where ds: "compose_component_contributions cs = Inr ds" "plan_ok sha (map contribution_change ds)"
    "run_changes sha (map contribution_change ds) files = Some files'" "\<forall>d \<in> set ds. contribution_ok sha d"
    "\<forall>c \<in> set cs. \<exists>d \<in> set ds. contribution_path d = contribution_path c \<and> contribution_owner d = contribution_owner c"
    by (rule composed_contributions [OF assms(1,2,4)])
  have "distinct (map pc_path (map contribution_change ds))" using plan_ok_distinct [OF ds(2)] .
  then have dist: "distinct (map contribution_path ds)" by (simp add: comp_def)
  have new: "plan_new sha (map contribution_change ds) = Inr (map contribution_change ds)"
    unfolding plan_new_iff using ds(2) plan_ok_distinct [OF ds(2)] by (simp add: plan_ok_def)
  have "ds \<noteq> []" using ds(5) assms(3) by (cases cs) auto
  then obtain plan where plan: "plan_component_installation sha component installed ds = Inr plan"
      "ip_changes plan = map contribution_change ds"
    using plan_component_installation_Inr [of sha component installed ds
        "\<lparr> ip_component = component, ip_owners = own_all ds [], ip_changes = map contribution_change ds \<rparr>"] new dist assms(5-8) by auto
  note total = summary_total [OF plan(1) ds(4)]
  have "bt_get (ip_owners plan) (contribution_path c) = Some (contribution_owner c)" if "c \<in> set cs" for c
    using ds(5) that total by metis
  then show ?thesis using ds(1-3) plan total by auto
qed

definition sample_contributions :: "component_contribution list" where
  "sample_contributions =
     [Artifact \<lparr> ca_owner = DomainCrate, ca_creation = \<lparr> fn_path = ''crates/domain/src/tax.rs'', fn_content = ''a'', fn_result_digest = ''a'' \<rparr> \<rparr>,
      Integration \<lparr> ci_owner = WorkspaceManifest, ci_edit = \<lparr> fe_path = ''Cargo.toml'', fe_original_digest = ''x'', fe_content = ''y'', fe_result_digest = ''y'' \<rparr> \<rparr>,
      Integration \<lparr> ci_owner = WorkspaceManifest, ci_edit = \<lparr> fe_path = ''Cargo.toml'', fe_original_digest = ''y'', fe_content = ''z'', fe_result_digest = ''z'' \<rparr> \<rparr>]"

lemma installation_refines_contributions_witness:
  "\<exists>ds plan. compose_component_contributions sample_contributions = Inr ds \<and>
     plan_component_installation sample_sha ''tax'' [''billing''] ds = Inr plan \<and>
     run_changes sample_sha (ip_changes plan) [''Cargo.toml'' \<mapsto> ''x''] =
       Some [''Cargo.toml'' \<mapsto> ''z'', ''crates/domain/src/tax.rs'' \<mapsto> ''a'']"
proof -
  have "owned_path ''crates/domain/src/tax.rs''" "owned_path ''Cargo.toml''"
    using change_path_new_iff [of "''crates/domain/src/tax.rs''" "''crates/domain/src/tax.rs''"]
      change_path_new_iff [of "''Cargo.toml''" "''Cargo.toml''"] by (code_simp, code_simp)
  then have ok: "\<forall>c \<in> set sample_contributions. contribution_ok sample_sha c"
    by (simp add: sample_contributions_def sample_sha_def below_def strip_prefix_def is_historical_migration_def)
  have run: "run_changes sample_sha (map (\<lambda>c. snd (into_parts c)) sample_contributions) [''Cargo.toml'' \<mapsto> ''x''] =
      Some [''Cargo.toml'' \<mapsto> ''z'', ''crates/domain/src/tax.rs'' \<mapsto> ''a'']"
    by (simp add: sample_contributions_def sample_sha_def meets_def fun_eq_iff)
  have "owners_agree sample_contributions" by (simp add: owners_agree_def sample_contributions_def)
  moreover have "component_id ''tax''" "\<forall>c \<in> set [''billing'']. component_id c" by code_simp+
  ultimately show ?thesis
    using installation_refines_contributions [OF ok _ _ run, of "''tax''" "[''billing'']"] by (auto simp: sample_contributions_def)
qed

end
