(* ===== verification/Rust_Path.thy ===== *)
theory Rust_Path
  imports Ordered_Map "HOL-Library.Product_Lexorder"
begin

text \<open>
  More of \<^verbatim>\<open>std::path::Path\<close>: comparison, parent, extension, join and prefix. Rust compares paths component by
  component, so a path used as a key of a map or a set is the list of its components. Also the conversion of a byte
  string to UTF-8 text, and the neighbouring pairs of a list (\<^verbatim>\<open>windows(2)\<close>).
\<close>

section \<open>The order of paths\<close>

fun component_rank :: "path_component \<Rightarrow> nat" where
  "component_rank RootDir = 0"
| "component_rank CurDir = 1"
| "component_rank ParentDir = 2"
| "component_rank (Normal _) = 3"

fun component_text :: "path_component \<Rightarrow> string" where
  "component_text (Normal segment) = segment"
| "component_text _ = []"

lemma component_key_inj:
  "component_rank a = component_rank b \<Longrightarrow> component_text a = component_text b \<Longrightarrow> a = b"
  by (cases a; cases b) simp_all

instantiation path_component :: linorder
begin

definition less_eq_path_component :: "path_component \<Rightarrow> path_component \<Rightarrow> bool" where
  "less_eq_path_component a b \<longleftrightarrow> (component_rank a, component_text a) \<le> (component_rank b, component_text b)"

definition less_path_component :: "path_component \<Rightarrow> path_component \<Rightarrow> bool" where
  "less_path_component a b \<longleftrightarrow> (component_rank a, component_text a) < (component_rank b, component_text b)"

instance
proof
  show "a = b" if "a \<le> b" "b \<le> a" for a b :: path_component
    using order.antisym [OF that [unfolded less_eq_path_component_def]] component_key_inj by blast
  show "x < y \<longleftrightarrow> x \<le> y \<and> \<not> y \<le> x" for x y :: path_component
    unfolding less_eq_path_component_def less_path_component_def by (rule less_le_not_le)
  show "x \<le> z" if "x \<le> y" "y \<le> z" for x y z :: path_component
    using that unfolding less_eq_path_component_def by (rule order.trans)
  show "x \<le> y \<or> y \<le> x" for x y :: path_component
    unfolding less_eq_path_component_def by (rule linear)
qed (simp add: less_eq_path_component_def)
end

type_synonym path_key = "path_component list"

section \<open>Parts of a path\<close>

definition path_parent :: "path_key \<Rightarrow> path_key option" where
  "path_parent p = (if p = [] \<or> p = [RootDir] then None else Some (butlast p))"

definition path_file_name :: "path_key \<Rightarrow> string option" where
  "path_file_name p = (if p = [] then None else case last p of Normal name \<Rightarrow> Some name | _ \<Rightarrow> None)"

text \<open>The part after the last dot, unless the only dot is the first character or there is none.\<close>

definition path_extension :: "path_key \<Rightarrow> string option" where
  "path_extension p =
     (case path_file_name p of
        None \<Rightarrow> None
      | Some name \<Rightarrow>
          (let pieces = split_on (CHR ''.'') name
           in if length pieces < 2 \<or> (length pieces = 2 \<and> hd pieces = []) then None else Some (last pieces)))"

definition path_join :: "path_key \<Rightarrow> path_key \<Rightarrow> path_key" where
  "path_join p q =
     (if prefix [RootDir] q then q else if p = [] then q else p @ filter (\<lambda>c. c \<noteq> CurDir) q)"

definition path_strip_prefix :: "path_key \<Rightarrow> path_key \<Rightarrow> path_key option" where
  "path_strip_prefix root p = (if prefix root p then Some (drop (length root) p) else None)"

lemma path_strip_prefix_Some: "path_strip_prefix root p = Some q \<longleftrightarrow> p = root @ q"
  by (auto simp: path_strip_prefix_def prefix_def)

section \<open>UTF-8\<close>

text \<open>
  The bytes after a first byte that belong to the same character, and whether the character is complete: the byte
  ranges of the Unicode standard. An incomplete character is replaced as a whole by U+FFFD (\<^verbatim>\<open>to_string_lossy\<close>).
\<close>

definition byte_between :: "nat \<Rightarrow> nat \<Rightarrow> string \<Rightarrow> bool" where
  "byte_between low high s = (case s of [] \<Rightarrow> False | c # _ \<Rightarrow> low \<le> (of_char c :: nat) \<and> (of_char c :: nat) \<le> high)"

fun utf8_tail :: "(nat \<times> nat) list \<Rightarrow> string \<Rightarrow> nat \<times> bool" where
  "utf8_tail [] s = (0, True)"
| "utf8_tail ((low, high) # ranges) s =
     (if byte_between low high s then (case utf8_tail ranges (tl s) of (n, complete) \<Rightarrow> (Suc n, complete)) else (0, False))"

definition utf8_ranges :: "nat \<Rightarrow> (nat \<times> nat) list option" where
  "utf8_ranges b =
     (if b < 128 then Some []
      else if 194 \<le> b \<and> b \<le> 223 then Some [(128, 191)]
      else if b = 224 then Some [(160, 191), (128, 191)]
      else if b = 237 then Some [(128, 159), (128, 191)]
      else if 225 \<le> b \<and> b \<le> 239 then Some [(128, 191), (128, 191)]
      else if b = 240 then Some [(144, 191), (128, 191), (128, 191)]
      else if b = 244 then Some [(128, 143), (128, 191), (128, 191)]
      else if 241 \<le> b \<and> b \<le> 243 then Some [(128, 191), (128, 191), (128, 191)]
      else None)"

definition utf8_first :: "char \<Rightarrow> string \<Rightarrow> nat \<times> bool" where
  "utf8_first c s = (case utf8_ranges (of_char c) of None \<Rightarrow> (0, False) | Some ranges \<Rightarrow> utf8_tail ranges s)"

fun to_string_lossy :: "string \<Rightarrow> string" where
  "to_string_lossy [] = []"
| "to_string_lossy (c # s) =
     (case utf8_first c s of (n, complete) \<Rightarrow>
        (if complete then c # take n s else bytes [239, 191, 189]) @ to_string_lossy (drop n s))"

fun from_utf8 :: "string \<Rightarrow> bool" where
  "from_utf8 [] = True"
| "from_utf8 (c # s) = (case utf8_first c s of (n, complete) \<Rightarrow> complete \<and> from_utf8 (drop n s))"

lemma to_string_lossy_utf8: "from_utf8 s \<Longrightarrow> to_string_lossy s = s"
  by (induction s rule: to_string_lossy.induct) (auto split: prod.splits)

section \<open>Neighbouring pairs\<close>

definition windows_any :: "('a \<Rightarrow> 'a \<Rightarrow> bool) \<Rightarrow> 'a list \<Rightarrow> bool" where
  "windows_any P xs = list_ex (\<lambda>(a, b). P a b) (zip xs (tl xs))"

lemma windows_any_simps [simp]:
  "windows_any P []  \<longleftrightarrow> False"
  "windows_any P [x] \<longleftrightarrow> False"
  "windows_any P (x # y # xs) \<longleftrightarrow> P x y \<or> windows_any P (y # xs)"
  by (simp_all add: windows_any_def)

lemma windows_any_sorted: "windows_any (\<ge>) xs \<longleftrightarrow> \<not> sorted_wrt (<) (xs :: 'a::linorder list)"
proof (induction xs rule: induct_list012)
  case (3 x y xs)
  then show ?case by (auto simp: not_le intro: order.strict_trans)
qed simp_all

lemma windows_any_key: "windows_any (\<lambda>a b. f b \<le> f a) xs \<longleftrightarrow> \<not> sorted_wrt (<) (map f (xs :: 'a list) :: 'b::linorder list)"
proof -
  have "windows_any (\<lambda>a b. f b \<le> f a) xs = windows_any (\<ge>) (map f xs)"
    by (induction xs rule: induct_list012) simp_all
  then show ?thesis by (simp add: windows_any_sorted)
qed

end
