(* ===== verification/Component_Package.thy ===== *)
theory Component_Package
  imports Application_Manifest Rust_Path
begin

text \<open>
  Component packages (\<^verbatim>\<open>tools/template_renderer/src/manifest.rs\<close>, the errors of \<^verbatim>\<open>lib.rs\<close>): the manifests of a
  package, its components and its template, and their validation. A path of a manifest is the text it is written as;
  where the code compares paths, so does the model, by their components (theory Rust_Path).
\<close>

section \<open>Errors\<close>

datatype upgrade_graph_diagnostic_kind =
    InvalidManifest | InvalidSchema | InvalidIdentifier | InvalidReleaseIdentity | InvalidReleaseVersion
  | TargetReleaseMismatch | NonDirectRelease | DuplicateEdge | DuplicateReleaseEdge | EmptyCompositionSet
  | DuplicateComposition | NonCanonicalComposition | UndeclaredComponent | UndeclaredModule | UndeclaredCapability
  | UnsupportedAdapter | TargetCompositionMismatch | AdapterChange | AmbiguousSourceComposition
  | DuplicateManifestTransition | InvalidManagedPath | InvalidDigest | InvalidOwnership | UndeclaredManagedPath
  | ConflictingManagedTransition | LimitExceeded

record upgrade_graph_diagnostic =
  ud_kind :: upgrade_graph_diagnostic_kind
  ud_subject :: string

datatype renderer_error_kind =
    Catalog | ComponentResolution | Variables | Collision | Safety | Rendering | ApplicationManifestError | Output | Conflict
  | RepositoryValidation

record renderer_error =
  re_kind :: renderer_error_kind
  re_message :: string
  re_upgrade_graph :: "upgrade_graph_diagnostic option"

fun graph_diagnostic_kind_name :: "upgrade_graph_diagnostic_kind \<Rightarrow> string" where
  "graph_diagnostic_kind_name InvalidManifest = ''invalid-manifest''"
| "graph_diagnostic_kind_name InvalidSchema = ''invalid-schema''"
| "graph_diagnostic_kind_name InvalidIdentifier = ''invalid-identifier''"
| "graph_diagnostic_kind_name InvalidReleaseIdentity = ''invalid-release-identity''"
| "graph_diagnostic_kind_name InvalidReleaseVersion = ''invalid-release-version''"
| "graph_diagnostic_kind_name TargetReleaseMismatch = ''target-release-mismatch''"
| "graph_diagnostic_kind_name NonDirectRelease = ''non-direct-release''"
| "graph_diagnostic_kind_name DuplicateEdge = ''duplicate-edge''"
| "graph_diagnostic_kind_name DuplicateReleaseEdge = ''duplicate-release-edge''"
| "graph_diagnostic_kind_name EmptyCompositionSet = ''empty-composition-set''"
| "graph_diagnostic_kind_name DuplicateComposition = ''duplicate-composition''"
| "graph_diagnostic_kind_name NonCanonicalComposition = ''non-canonical-composition''"
| "graph_diagnostic_kind_name UndeclaredComponent = ''undeclared-component''"
| "graph_diagnostic_kind_name UndeclaredModule = ''undeclared-module''"
| "graph_diagnostic_kind_name UndeclaredCapability = ''undeclared-capability''"
| "graph_diagnostic_kind_name UnsupportedAdapter = ''unsupported-adapter''"
| "graph_diagnostic_kind_name TargetCompositionMismatch = ''target-composition-mismatch''"
| "graph_diagnostic_kind_name AdapterChange = ''adapter-change''"
| "graph_diagnostic_kind_name AmbiguousSourceComposition = ''ambiguous-source-composition''"
| "graph_diagnostic_kind_name DuplicateManifestTransition = ''duplicate-manifest-transition''"
| "graph_diagnostic_kind_name InvalidManagedPath = ''invalid-managed-path''"
| "graph_diagnostic_kind_name InvalidDigest = ''invalid-digest''"
| "graph_diagnostic_kind_name InvalidOwnership = ''invalid-ownership''"
| "graph_diagnostic_kind_name UndeclaredManagedPath = ''undeclared-managed-path''"
| "graph_diagnostic_kind_name ConflictingManagedTransition = ''conflicting-managed-transition''"
| "graph_diagnostic_kind_name LimitExceeded = ''limit-exceeded''"

definition upgrade_diagnostic_text :: "upgrade_graph_diagnostic \<Rightarrow> string" where
  "upgrade_diagnostic_text d = graph_diagnostic_kind_name (ud_kind d) @ '': '' @ ud_subject d"

definition renderer_error_new :: "string \<Rightarrow> renderer_error" where
  "renderer_error_new message = \<lparr> re_kind = Rendering, re_message = message, re_upgrade_graph = None \<rparr>"

definition renderer_error_with_upgrade_graph :: "upgrade_graph_diagnostic \<Rightarrow> renderer_error" where
  "renderer_error_with_upgrade_graph diagnostic =
     \<lparr> re_kind = Rendering, re_message = upgrade_diagnostic_text diagnostic, re_upgrade_graph = Some diagnostic \<rparr>"

definition classified :: "renderer_error_kind \<Rightarrow> renderer_error \<Rightarrow> renderer_error" where
  "classified kind e = (if re_kind e = Rendering then e\<lparr> re_kind := kind \<rparr> else e)"

definition graph_error :: "upgrade_graph_diagnostic_kind \<Rightarrow> string \<Rightarrow> renderer_error" where
  "graph_error kind subject = renderer_error_with_upgrade_graph \<lparr> ud_kind = kind, ud_subject = subject \<rparr>"

section \<open>Manifests\<close>

definition TEMPLATE_MANIFEST_SCHEMA :: "32 word" where "TEMPLATE_MANIFEST_SCHEMA = 1"
definition COMPONENT_PACKAGE_MANIFEST_SCHEMA :: "32 word" where "COMPONENT_PACKAGE_MANIFEST_SCHEMA = 3"
definition COMPONENT_MANIFEST_SCHEMA :: "32 word" where "COMPONENT_MANIFEST_SCHEMA = 3"
definition LEGACY_COMPONENT_MANIFEST_SCHEMA :: "32 word" where "LEGACY_COMPONENT_MANIFEST_SCHEMA = 1"

text \<open>\<^verbatim>\<open>env!("CARGO_PKG_VERSION")\<close>: the version of the crate (\<^verbatim>\<open>tools/template_renderer/Cargo.toml\<close>).\<close>

definition CARGO_PKG_VERSION :: string where "CARGO_PKG_VERSION = ''0.8.0''"

record template_manifest =
  tm_schema :: "32 word"
  tm_id :: string
  tm_components :: "string list"
  tm_variables :: "(string, string) btree"

record component_package_manifest =
  cm_schema :: "32 word"
  cm_id :: string
  cm_version :: string
  cm_framework :: framework_contract
  cm_templates :: "string list"
  cm_components :: "string list"
  cm_modules :: "string list"
  cm_upgrade_edges :: "string list"
  cm_upgrade_lockfiles :: "string list"
  cm_content_digest :: string

record framework_dependency =
  fd_manifest :: string
  fd_name :: string
  fd_path :: string
  fd_default_features :: "bool option"

datatype component_installation_contribution =
    AuthenticationSeed | BackgroundJobs | BearerApiRoutes | CapabilityPreflight | Configuration | CookieBffRoutes
  | LeptosNavigation | LeptosRoutes | Openapi | PostgresMigrationSource | SqliteMigrationSource

fun contribution_rank :: "component_installation_contribution \<Rightarrow> nat" where
  "contribution_rank AuthenticationSeed = 0"
| "contribution_rank BackgroundJobs = 1"
| "contribution_rank BearerApiRoutes = 2"
| "contribution_rank CapabilityPreflight = 3"
| "contribution_rank Configuration = 4"
| "contribution_rank CookieBffRoutes = 5"
| "contribution_rank LeptosNavigation = 6"
| "contribution_rank LeptosRoutes = 7"
| "contribution_rank Openapi = 8"
| "contribution_rank PostgresMigrationSource = 9"
| "contribution_rank SqliteMigrationSource = 10"

instantiation component_installation_contribution :: linorder
begin

definition less_eq_component_installation_contribution ::
    "component_installation_contribution \<Rightarrow> component_installation_contribution \<Rightarrow> bool" where
  "less_eq_component_installation_contribution a b \<longleftrightarrow> contribution_rank a \<le> contribution_rank b"

definition less_component_installation_contribution ::
    "component_installation_contribution \<Rightarrow> component_installation_contribution \<Rightarrow> bool" where
  "less_component_installation_contribution a b \<longleftrightarrow> contribution_rank a < contribution_rank b"

instance
proof
  show "a = b" if "a \<le> b" "b \<le> a" for a b :: component_installation_contribution
    using that by (cases a; cases b) (simp_all add: less_eq_component_installation_contribution_def)
qed (auto simp: less_eq_component_installation_contribution_def less_component_installation_contribution_def)
end

record component_installation_manifest =
  ci_module :: string
  ci_databases :: "database_adapter list"
  ci_clients :: "client_adapter list"
  ci_contributions :: "component_installation_contribution list"
  ci_framework_dependencies :: "framework_dependency list"

record component_manifest =
  co_schema :: "32 word"
  co_id :: string
  co_version :: "string option"
  co_source :: string
  co_include :: "string list"
  co_requires :: "string list"
  co_conflicts :: "string list"
  co_optional_dependencies :: "string list"
  co_modules :: "string list"
  co_provides_capabilities :: "application_capability list"
  co_requires_capabilities :: "application_capability list"
  co_framework_dependencies :: "framework_dependency list"
  co_installation :: "component_installation_manifest option"
  co_manifest_path :: path_key

section \<open>Identifiers and paths\<close>

definition identifier_byte :: "nat \<times> char \<Rightarrow> bool" where
  "identifier_byte entry \<longleftrightarrow> (case entry of (index, character) \<Rightarrow>
     is_ascii_lowercase character \<or> is_ascii_digit character \<or>
     (index > 0 \<and> (character = CHR ''-'' \<or> character = CHR ''_'')))"

definition valid_identifier :: "string \<Rightarrow> bool" where
  "valid_identifier value \<longleftrightarrow>
     value \<noteq> [] \<and> list_all identifier_byte (enumerate 0 value) \<and>
     (case value of [] \<Rightarrow> False | first # _ \<Rightarrow> is_ascii_alphanumeric first)"

definition validate_identifier :: "string \<Rightarrow> string \<Rightarrow> renderer_error + unit" where
  "validate_identifier value kind =
     reject_if (\<not> valid_identifier value) (renderer_error_new (''invalid '' @ kind @ '' identifier: '' @ value))"

definition validate_variable :: "string \<Rightarrow> renderer_error + unit" where
  "validate_variable value = validate_identifier value ''template variable''"

definition relative_component :: "path_component \<Rightarrow> bool" where
  "relative_component c = (case c of Normal _ \<Rightarrow> True | CurDir \<Rightarrow> True | _ \<Rightarrow> False)"

definition validate_relative_path :: "string \<Rightarrow> string \<Rightarrow> renderer_error + unit" where
  "validate_relative_path path kind =
     reject_if (\<not> (path \<noteq> [] \<and> \<not> is_absolute path \<and> list_all relative_component (path_components path)))
       (renderer_error_new (kind @ '' must be a non-traversing relative path: '' @ path))"

definition validate_schema :: "32 word \<Rightarrow> 32 word \<Rightarrow> string \<Rightarrow> renderer_error + unit" where
  "validate_schema schema expected path =
     reject_if (schema \<noteq> expected)
       (renderer_error_new (''unsupported manifest schema '' @ nat_digits (unat schema) @ '' in '' @ path @
          ''; expected '' @ nat_digits (unat expected)))"

section \<open>Sorted lists\<close>

definition validate_sorted_identifiers :: "string list \<Rightarrow> string \<Rightarrow> bool \<Rightarrow> renderer_error + unit" where
  "validate_sorted_identifiers values kind allow_empty =
     then_check (reject_if (values = [] \<and> \<not> allow_empty)
       (renderer_error_new (''component package declares no '' @ kind @ ''s'')))
     (then_check (check_all (\<lambda>value. validate_identifier value kind) values)
     (reject_if (windows_any (\<ge>) values)
       (renderer_error_new (''component package '' @ kind @ ''s must be sorted and unique''))))"

definition validate_sorted_values :: "('a::linorder) list \<Rightarrow> string \<Rightarrow> renderer_error + unit" where
  "validate_sorted_values values kind =
     then_check (reject_if (values = []) (renderer_error_new (''component declares no '' @ kind @ ''s'')))
     (reject_if (windows_any (\<ge>) values)
       (renderer_error_new (''component '' @ kind @ ''s must be sorted and unique'')))"

definition validate_sorted_capabilities :: "application_capability list \<Rightarrow> string \<Rightarrow> renderer_error + unit" where
  "validate_sorted_capabilities values kind =
     reject_if (windows_any (\<ge>) values)
       (renderer_error_new (''component '' @ kind @ ''s must be sorted and unique''))"

section \<open>The package manifest\<close>

definition validate_upgrade_path :: "string \<Rightarrow> renderer_error + unit" where
  "validate_upgrade_path path =
     then_check (map_error (\<lambda>_. graph_error InvalidManagedPath ''component-package.upgrade-edge-path'')
       (validate_relative_path path ''upgrade edge''))
     (reject_if
       (path_parent (path_components path) \<noteq> Some (path_components ''upgrades'') \<or>
        path_extension (path_components path) \<noteq> Some ''toml'')
       (graph_error InvalidManagedPath ''component-package.upgrade-edge-path''))"

definition validate_upgrade_paths :: "string list \<Rightarrow> renderer_error + unit" where
  "validate_upgrade_paths paths =
     then_check (reject_if (windows_any (\<lambda>a b. path_components b \<le> path_components a) paths)
       (graph_error InvalidManifest ''component-package.upgrade-edges''))
     (check_all validate_upgrade_path paths)"

definition validate_lockfile_path :: "string \<Rightarrow> renderer_error + unit" where
  "validate_lockfile_path path =
     then_check (map_error (\<lambda>_. graph_error InvalidManagedPath ''component-package.upgrade-lockfile-path'')
       (validate_relative_path path ''upgrade lockfile''))
     (reject_if
       (path_parent (path_components path) \<noteq> Some (path_components ''upgrades/locks'') \<or>
        normal_segments (path_components path) = None \<or>
        path_extension (path_components path) \<noteq> Some ''lock'')
       (renderer_error_new ''invalid upgrade lockfile path''))"

definition lowercase_hex :: "char \<Rightarrow> bool" where
  "lowercase_hex c \<longleftrightarrow> is_ascii_digit c \<or> (CHR ''a'' \<le> c \<and> c \<le> CHR ''f'')"

definition package_digest_form :: "string \<Rightarrow> bool" where
  "package_digest_form value \<longleftrightarrow>
     (let digest = (case strip_prefix ''sha256:'' value of None \<Rightarrow> [] | Some rest \<Rightarrow> rest)
      in length digest = 64 \<and> list_all lowercase_hex digest)"

definition validate_package :: "manifest_codec \<Rightarrow> component_package_manifest \<Rightarrow> string \<Rightarrow> renderer_error + unit" where
  "validate_package C package path =
     then_check (validate_schema (cm_schema package) COMPONENT_PACKAGE_MANIFEST_SCHEMA path)
     (then_check (validate_identifier (cm_id package) ''component package'')
     (then_check (reject_if (cm_id package \<noteq> HEGIRA_COMPONENT_PACKAGE)
        (renderer_error_new ''component package identity does not match the bundled package''))
     (then_check (map_error (\<lambda>_. renderer_error_new ''invalid framework repository in component package'')
        (validate_framework_contract C (cm_framework package)))
     (then_check (reject_if (fc_repository (cm_framework package) \<noteq> HEGIRA_FRAMEWORK_REPOSITORY)
        (renderer_error_new ''component package framework source does not match the bundled release source''))
     (then_check (reject_if (cm_version package \<noteq> fc_version (cm_framework package))
        (renderer_error_new ''component package version does not match framework version''))
     (then_check (reject_if (cm_version package \<noteq> ''v'' @ CARGO_PKG_VERSION)
        (renderer_error_new ''component package version does not match the bundled framework release''))
     (then_check (validate_sorted_identifiers (cm_templates package) ''package template'' False)
     (then_check (validate_sorted_identifiers (cm_components package) ''package component'' False)
     (then_check (validate_sorted_identifiers (cm_modules package) ''package module'' True)
     (then_check (validate_upgrade_paths (cm_upgrade_edges package))
     (then_check (reject_if (windows_any (\<lambda>a b. path_components b \<le> path_components a) (cm_upgrade_lockfiles package))
        (renderer_error_new ''upgrade lockfile paths must be sorted and unique''))
     (then_check (check_all validate_lockfile_path (cm_upgrade_lockfiles package))
     (reject_if (\<not> package_digest_form (cm_content_digest package))
        (renderer_error_new ''component package content digest must be lowercase sha256''))))))))))))))"

section \<open>Component manifests\<close>

definition validate_dependency :: "string \<Rightarrow> framework_dependency \<Rightarrow> renderer_error + unit" where
  "validate_dependency kind dependency =
     then_check (validate_identifier (fd_name dependency) kind)
     (then_check (validate_relative_path (fd_manifest dependency) (kind @ '' manifest''))
     (validate_relative_path (fd_path dependency) (kind @ '' path'')))"

definition installable :: "component_manifest \<Rightarrow> string \<Rightarrow> renderer_error" where
  "installable component reason = renderer_error_new (''installable component '' @ co_id component @ reason)"

text \<open>The two database adapters with the contribution that each of them needs.\<close>

definition migration_contributions :: "(database_adapter \<times> component_installation_contribution) list" where
  "migration_contributions = [(Postgres, PostgresMigrationSource), (Sqlite, SqliteMigrationSource)]"

definition validate_installation ::
    "component_manifest \<Rightarrow> component_installation_manifest \<Rightarrow> renderer_error + unit" where
  "validate_installation component installation =
     then_check (validate_identifier (ci_module installation) ''installation module'')
     (then_check (reject_if (co_modules component \<noteq> [ci_module installation])
        (installable component '' must own exactly its declared module''))
     (then_check (reject_if (co_include component \<noteq> [])
        (installable component '' cannot render or vendor application source''))
     (then_check (reject_if (co_requires component = [])
        (installable component '' declares no compatible application base''))
     (then_check (validate_sorted_values (ci_databases installation) ''installation database adapter'')
     (then_check (validate_sorted_values (ci_clients installation) ''installation client adapter'')
     (then_check (validate_sorted_values (ci_contributions installation) ''installation contribution'')
     (then_check (reject_if (ci_framework_dependencies installation = [])
        (installable component '' declares no framework dependencies''))
     (then_check (check_all (validate_dependency ''installation framework dependency'') (ci_framework_dependencies installation))
     (then_check (reject_if (windows_any (\<lambda>a b. fd_name b \<le> fd_name a) (ci_framework_dependencies installation))
        (renderer_error_new ''installation framework dependencies must be sorted and unique''))
     (then_check (reject_if (list_ex (\<lambda>d. path_components (fd_manifest d) \<noteq> path_components ''Cargo.toml'') (ci_framework_dependencies installation))
        (renderer_error_new ''installation framework dependencies must target the workspace manifest''))
     (then_check (reject_if
          (card (set (map (\<lambda>d. path_components (fd_path d)) (ci_framework_dependencies installation))) \<noteq>
           length (ci_framework_dependencies installation))
        (renderer_error_new ''installation framework dependency paths must be unique''))
     (check_all (\<lambda>(database, contribution).
          reject_if ((database \<in> set (ci_databases installation)) \<noteq> (contribution \<in> set (ci_contributions installation)))
            (renderer_error_new ''installation database adapters and migration-source contributions must match''))
        migration_contributions))))))))))))"

definition validate_component_version ::
    "component_manifest \<Rightarrow> component_package_manifest option \<Rightarrow> renderer_error + unit" where
  "validate_component_version component package =
     (case (package, co_version component) of
        (Some _, Some _) \<Rightarrow> Inr ()
      | (Some _, None) \<Rightarrow>
          Inl (renderer_error_new (''packaged component '' @ co_id component @ '' declares no version''))
      | (None, None) \<Rightarrow> Inr ()
      | (None, Some _) \<Rightarrow>
          Inl (renderer_error_new (''unpackaged legacy component '' @ co_id component @ '' cannot declare a version'')))"

definition validate_component ::
    "component_manifest \<Rightarrow> component_package_manifest option \<Rightarrow> renderer_error + unit" where
  "validate_component component package =
     then_check (validate_identifier (co_id component) ''component'')
     (then_check (validate_component_version component package)
     (then_check (validate_relative_path (co_source component) ''component source'')
     (then_check (reject_if (co_include component = [] \<and> co_installation component = None)
        (renderer_error_new (''rendered component '' @ co_id component @ '' includes no files'')))
     (then_check (check_all (\<lambda>include. validate_relative_path include ''component include'') (co_include component))
     (then_check (validate_sorted_identifiers (co_requires component) ''component requirement'' True)
     (then_check (validate_sorted_identifiers (co_conflicts component) ''component conflict'' True)
     (then_check (validate_sorted_identifiers (co_optional_dependencies component) ''component optional dependency'' True)
     (then_check (validate_sorted_identifiers (co_modules component) ''component module'' True)
     (then_check (validate_sorted_capabilities (co_provides_capabilities component) ''provided component capability'')
     (then_check (validate_sorted_capabilities (co_requires_capabilities component) ''required component capability'')
     (then_check (reject_if
          (co_id component \<in> set (co_requires component @ co_optional_dependencies component @ co_conflicts component))
        (renderer_error_new (''component '' @ co_id component @ '' cannot reference itself'')))
     (then_check (reject_if
          (list_ex (\<lambda>d. d \<in> set (co_conflicts component)) (co_requires component @ co_optional_dependencies component))
        (renderer_error_new (''component '' @ co_id component @
           '' cannot both depend on and conflict with the same component'')))
     (then_check (check_all (validate_dependency ''framework dependency'') (co_framework_dependencies component))
     (case co_installation component of None \<Rightarrow> Inr () | Some installation \<Rightarrow> validate_installation component installation))))))))))))))"

end
