(* ===== verification/Composition.thy ===== *)
theory Composition
  imports Component_Package
begin

text \<open>
  Resolution of a composition (\<^verbatim>\<open>tools/template_renderer/src/composition.rs\<close>): from the requested root components to
  the ordered list of components to install, or to the sorted list of everything that is wrong. The depth-first walk
  recurses on the graph of requirements, which may be cyclic; here it takes fuel, and \<^verbatim>\<open>None\<close> says that the fuel ran
  out or that the code panics. Also the older walk of \<^verbatim>\<open>manifest.rs\<close> over unpackaged components, which stops at the
  first error.
\<close>

section \<open>Diagnostics\<close>

definition COMPOSITION_GRAPH_SCHEMA :: "32 word" where "COMPOSITION_GRAPH_SCHEMA = 1"

datatype composition_diagnostic_kind =
    PackageUnavailable | InvalidComponent | DuplicateComponent | MissingComponent | MissingOptionalDependency
  | DependencyCycle | ComponentConflict | FrameworkRepositoryMismatch | FrameworkVersionMismatch
  | PackageIdentityMismatch | PackageVersionMismatch | ComponentVersionMismatch | UndeclaredModule
  | DuplicateModuleOwner | DuplicateRecordedModule | MissingRecordedModule | UnexpectedRecordedModule
  | ModuleVersionMismatch | MissingCapability | RecordedCapabilityMismatch | Serialization

text \<open>The position of a variant, which is what the derived order compares.\<close>

fun diagnostic_rank :: "composition_diagnostic_kind \<Rightarrow> nat" where
  "diagnostic_rank PackageUnavailable = 0"
| "diagnostic_rank InvalidComponent = 1"
| "diagnostic_rank DuplicateComponent = 2"
| "diagnostic_rank MissingComponent = 3"
| "diagnostic_rank MissingOptionalDependency = 4"
| "diagnostic_rank DependencyCycle = 5"
| "diagnostic_rank ComponentConflict = 6"
| "diagnostic_rank FrameworkRepositoryMismatch = 7"
| "diagnostic_rank FrameworkVersionMismatch = 8"
| "diagnostic_rank PackageIdentityMismatch = 9"
| "diagnostic_rank PackageVersionMismatch = 10"
| "diagnostic_rank ComponentVersionMismatch = 11"
| "diagnostic_rank UndeclaredModule = 12"
| "diagnostic_rank DuplicateModuleOwner = 13"
| "diagnostic_rank DuplicateRecordedModule = 14"
| "diagnostic_rank MissingRecordedModule = 15"
| "diagnostic_rank UnexpectedRecordedModule = 16"
| "diagnostic_rank ModuleVersionMismatch = 17"
| "diagnostic_rank MissingCapability = 18"
| "diagnostic_rank RecordedCapabilityMismatch = 19"
| "diagnostic_rank Serialization = 20"

fun diagnostic_kind_name :: "composition_diagnostic_kind \<Rightarrow> string" where
  "diagnostic_kind_name PackageUnavailable = ''package-unavailable''"
| "diagnostic_kind_name InvalidComponent = ''invalid-component''"
| "diagnostic_kind_name DuplicateComponent = ''duplicate-component''"
| "diagnostic_kind_name MissingComponent = ''missing-component''"
| "diagnostic_kind_name MissingOptionalDependency = ''missing-optional-dependency''"
| "diagnostic_kind_name DependencyCycle = ''dependency-cycle''"
| "diagnostic_kind_name ComponentConflict = ''component-conflict''"
| "diagnostic_kind_name FrameworkRepositoryMismatch = ''framework-repository-mismatch''"
| "diagnostic_kind_name FrameworkVersionMismatch = ''framework-version-mismatch''"
| "diagnostic_kind_name PackageIdentityMismatch = ''package-identity-mismatch''"
| "diagnostic_kind_name PackageVersionMismatch = ''package-version-mismatch''"
| "diagnostic_kind_name ComponentVersionMismatch = ''component-version-mismatch''"
| "diagnostic_kind_name UndeclaredModule = ''undeclared-module''"
| "diagnostic_kind_name DuplicateModuleOwner = ''duplicate-module-owner''"
| "diagnostic_kind_name DuplicateRecordedModule = ''duplicate-recorded-module''"
| "diagnostic_kind_name MissingRecordedModule = ''missing-recorded-module''"
| "diagnostic_kind_name UnexpectedRecordedModule = ''unexpected-recorded-module''"
| "diagnostic_kind_name ModuleVersionMismatch = ''module-version-mismatch''"
| "diagnostic_kind_name MissingCapability = ''missing-capability''"
| "diagnostic_kind_name RecordedCapabilityMismatch = ''recorded-capability-mismatch''"
| "diagnostic_kind_name Serialization = ''serialization''"

record composition_diagnostic =
  di_kind :: composition_diagnostic_kind
  di_subject :: string
  di_related :: "string option"
  di_expected :: "string option"
  di_actual :: "string option"

definition diagnostic ::
    "composition_diagnostic_kind \<Rightarrow> string \<Rightarrow> string option \<Rightarrow> string option \<Rightarrow> string option \<Rightarrow> composition_diagnostic" where
  "diagnostic kind subject related expected actual =
     \<lparr> di_kind = kind, di_subject = subject, di_related = related, di_expected = expected, di_actual = actual \<rparr>"

definition diagnostic_text :: "composition_diagnostic \<Rightarrow> string" where
  "diagnostic_text d =
     diagnostic_kind_name (di_kind d) @ '': '' @ di_subject d @
     (case di_related d of None \<Rightarrow> [] | Some related \<Rightarrow> '' ('' @ related @ '')'') @
     (case di_expected d of None \<Rightarrow> [] | Some expected \<Rightarrow> ''; expected '' @ expected) @
     (case di_actual d of None \<Rightarrow> [] | Some actual \<Rightarrow> ''; found '' @ actual)"

text \<open>A \<^verbatim>\<open>CompositionError\<close> is its list of diagnostics, sorted by the derived order and without repetition.\<close>

type_synonym composition_error = "composition_diagnostic list"

definition diagnostic_key ::
    "composition_diagnostic \<Rightarrow> nat \<times> string \<times> string option \<times> string option \<times> string option" where
  "diagnostic_key d = (diagnostic_rank (di_kind d), di_subject d, di_related d, di_expected d, di_actual d)"

definition from_diagnostics :: "composition_diagnostic list \<Rightarrow> composition_error" where
  "from_diagnostics diagnostics = remdups_adj (sort_key diagnostic_key diagnostics)"

definition composition_error_text :: "composition_error \<Rightarrow> string" where
  "composition_error_text e = join ''; '' (map diagnostic_text e)"

definition missing_package :: composition_error where
  "missing_package = [diagnostic PackageUnavailable ''component package'' None None None]"

section \<open>Requests and results\<close>

record composition_request =
  cq_framework :: framework_contract
  cq_package :: package_identity
  cq_components :: "string list"
  cq_recorded_modules :: "installed_module list option"
  cq_recorded_capabilities :: "application_capability set option"

definition composition_request_new ::
    "framework_contract \<Rightarrow> package_identity \<Rightarrow> string list \<Rightarrow> composition_request" where
  "composition_request_new framework package components =
     \<lparr> cq_framework = framework, cq_package = package, cq_components = components,
       cq_recorded_modules = None, cq_recorded_capabilities = None \<rparr>"

definition with_recorded_state ::
    "composition_request \<Rightarrow> installed_module list \<Rightarrow> application_capability list \<Rightarrow> composition_request" where
  "with_recorded_state request modules capabilities =
     request\<lparr> cq_recorded_modules := Some modules, cq_recorded_capabilities := Some (set capabilities) \<rparr>"

record resolved_component =
  rc_id :: string
  rc_version :: string
  rc_required_dependencies :: "string list"
  rc_optional_dependencies :: "string list"
  rc_modules :: "string list"
  rc_provides_capabilities :: "application_capability list"
  rc_requires_capabilities :: "application_capability list"
  rc_installation :: "component_installation_manifest option"

record resolved_composition =
  rs_schema :: "32 word"
  rs_framework :: framework_contract
  rs_package :: package_identity
  rs_components :: "resolved_component list"
  rs_modules :: "installed_module list"
  rs_capabilities :: "application_capability set"

definition installed_components :: "resolved_composition \<Rightarrow> installed_component list" where
  "installed_components graph =
     map (\<lambda>c. \<lparr> ic_id = rc_id c, ic_version = rc_version c \<rparr>) (rs_components graph)"

section \<open>Compatibility\<close>

definition compatibility_diagnostics ::
    "component_package_manifest \<Rightarrow> composition_request \<Rightarrow> composition_diagnostic list" where
  "compatibility_diagnostics package request =
     map (\<lambda>(kind, subject, expected, actual). diagnostic kind subject None (Some expected) (Some actual))
       (filter (\<lambda>(kind, subject, expected, actual). expected \<noteq> actual)
         [(FrameworkRepositoryMismatch, ''framework.repository'',
             fc_repository (cm_framework package), fc_repository (cq_framework request)),
          (FrameworkVersionMismatch, ''framework.version'',
             fc_version (cm_framework package), fc_version (cq_framework request)),
          (PackageIdentityMismatch, ''package.id'', cm_id package, pk_id (cq_package request)),
          (PackageVersionMismatch, ''package.version'', cm_version package, pk_version (cq_package request))])"

text \<open>The loop over the requested components: the set of roots and the diagnostics.\<close>

fun collect_roots ::
    "string list \<Rightarrow> string set \<Rightarrow> composition_diagnostic list \<Rightarrow> string set \<times> composition_diagnostic list" where
  "collect_roots [] roots diagnostics = (roots, diagnostics)"
| "collect_roots (component # rest) roots diagnostics =
     (if \<not> valid_identifier component
      then collect_roots rest roots (diagnostics @ [diagnostic InvalidComponent component None None None])
      else if component \<in> roots
      then collect_roots rest roots (diagnostics @ [diagnostic DuplicateComponent component None None None])
      else collect_roots rest (insert component roots) diagnostics)"

section \<open>The walk\<close>

datatype visit_state = Visiting | Resolved

record walk =
  wk_state :: "(string, visit_state) btree"
  wk_stack :: "string list"
  wk_ordered :: "string list"
  wk_diagnostics :: "composition_diagnostic list"

definition report :: "composition_diagnostic \<Rightarrow> walk \<Rightarrow> walk" where
  "report d w = w\<lparr> wk_diagnostics := wk_diagnostics w @ [d] \<rparr>"

text \<open>The index of an element, or 0 (\<^verbatim>\<open>position(..).unwrap_or(0)\<close>).\<close>

definition position_or_0 :: "string \<Rightarrow> string list \<Rightarrow> nat" where
  "position_or_0 x xs = (case find (\<lambda>i. xs ! i = x) [0..<length xs] of None \<Rightarrow> 0 | Some i \<Rightarrow> i)"

definition report_cycle :: "string \<Rightarrow> walk \<Rightarrow> walk" where
  "report_cycle i w =
     (let cycle = drop (position_or_0 i (wk_stack w)) (wk_stack w) @ [i]
      in report (diagnostic DependencyCycle i (Some (join '' -> '' cycle)) None None) w)"

definition enter :: "string \<Rightarrow> walk \<Rightarrow> walk" where
  "enter i w = w\<lparr> wk_state := bt_insert i Visiting (wk_state w), wk_stack := wk_stack w @ [i] \<rparr>"

definition leave :: "string \<Rightarrow> walk \<Rightarrow> walk" where
  "leave i w =
     w\<lparr> wk_stack := butlast (wk_stack w), wk_state := bt_insert i Resolved (wk_state w),
        wk_ordered := (if i \<in> set (wk_ordered w) then wk_ordered w else wk_ordered w @ [i]) \<rparr>"

fun visit :: "nat \<Rightarrow> (string, component_manifest) btree \<Rightarrow> string option \<Rightarrow> string \<Rightarrow> walk \<Rightarrow> walk option"
  and visit_all :: "nat \<Rightarrow> (string, component_manifest) btree \<Rightarrow> string option \<Rightarrow> string list \<Rightarrow> walk \<Rightarrow> walk option"
where
  "visit 0 components required_by i w = None"
| "visit (Suc n) components required_by i w =
     (case bt_get (wk_state w) i of
        Some Resolved \<Rightarrow> Some w
      | Some Visiting \<Rightarrow> Some (report_cycle i w)
      | None \<Rightarrow>
          (case bt_get components i of
             None \<Rightarrow> Some (report (diagnostic MissingComponent i required_by None None) w)
           | Some component \<Rightarrow>
               map_option (leave i) (visit_all n components (Some i) (co_requires component) (enter i w))))"
| "visit_all n components required_by [] w = Some w"
| "visit_all n components required_by (i # rest) w =
     (case visit n components required_by i w of
        None \<Rightarrow> None
      | Some w' \<Rightarrow> visit_all n components required_by rest w')"

text \<open>The walk from every root, in order, with fuel for one more level than there are components.\<close>

definition walk_start :: "composition_diagnostic list \<Rightarrow> walk" where
  "walk_start diagnostics = \<lparr> wk_state = [], wk_stack = [], wk_ordered = [], wk_diagnostics = diagnostics \<rparr>"

definition walk_roots ::
    "(string, component_manifest) btree \<Rightarrow> string set \<Rightarrow> composition_diagnostic list \<Rightarrow> walk option" where
  "walk_roots components roots diagnostics =
     visit_all (Suc (length components)) components None (sorted_list_of_set roots) (walk_start diagnostics)"

section \<open>Checks of the selected components\<close>

definition component_at :: "(string, component_manifest) btree \<Rightarrow> string \<Rightarrow> component_manifest" where
  "component_at components i = the (bt_get components i)"

definition version_diagnostics ::
    "component_package_manifest \<Rightarrow> string \<Rightarrow> component_manifest \<Rightarrow> composition_diagnostic list" where
  "version_diagnostics package i component =
     (let version = (case co_version component of None \<Rightarrow> [] | Some v \<Rightarrow> v)
      in if version \<noteq> cm_version package
         then [diagnostic ComponentVersionMismatch i None (Some (cm_version package)) (Some version)] else [])"

definition optional_diagnostics ::
    "(string, component_manifest) btree \<Rightarrow> string \<Rightarrow> component_manifest \<Rightarrow> composition_diagnostic list" where
  "optional_diagnostics components i component =
     map (\<lambda>optional. diagnostic MissingOptionalDependency optional (Some i) None None)
       (filter (\<lambda>optional. bt_get components optional = None) (co_optional_dependencies component))"

definition conflict_diagnostics :: "string set \<Rightarrow> string \<Rightarrow> component_manifest \<Rightarrow> composition_diagnostic list" where
  "conflict_diagnostics selected i component =
     map (\<lambda>conflict. if i < conflict
            then diagnostic ComponentConflict i (Some conflict) None None
            else diagnostic ComponentConflict conflict (Some i) None None)
       (filter (\<lambda>conflict. conflict \<in> selected) (co_conflicts component))"

definition module_diagnostics ::
    "component_package_manifest \<Rightarrow> string \<Rightarrow> component_manifest \<Rightarrow> composition_diagnostic list" where
  "module_diagnostics package i component =
     map (\<lambda>module. diagnostic UndeclaredModule module (Some i) None None)
       (filter (\<lambda>module. module \<notin> set (cm_modules package)) (co_modules component))"

definition component_diagnostics ::
    "component_package_manifest \<Rightarrow> (string, component_manifest) btree \<Rightarrow> string set \<Rightarrow> string \<Rightarrow> composition_diagnostic list" where
  "component_diagnostics package components selected i =
     (let component = component_at components i
      in version_diagnostics package i component @ optional_diagnostics components i component @
         conflict_diagnostics selected i component @ module_diagnostics package i component)"

definition provided_by :: "(string, component_manifest) btree \<Rightarrow> string list \<Rightarrow> application_capability set" where
  "provided_by components ordered =
     (\<Union>i \<in> set ordered. set (co_provides_capabilities (component_at components i)))"

fun own_modules :: "string \<Rightarrow> string list \<Rightarrow> (string, string list) btree \<Rightarrow> (string, string list) btree" where
  "own_modules i [] owners = owners"
| "own_modules i (module # rest) owners =
     own_modules i rest
       (bt_insert module ((case bt_get owners module of None \<Rightarrow> [] | Some ids \<Rightarrow> ids) @ [i]) owners)"

definition module_owners :: "(string, component_manifest) btree \<Rightarrow> string list \<Rightarrow> (string, string list) btree" where
  "module_owners components ordered =
     fold (\<lambda>i. own_modules i (co_modules (component_at components i))) ordered []"

definition composition_capability_name :: "application_capability \<Rightarrow> string" where
  "composition_capability_name capability =
     (case capability of Authentication \<Rightarrow> ''authentication'' | Authorization \<Rightarrow> ''authorization'')"

definition capability_diagnostics ::
    "(string, component_manifest) btree \<Rightarrow> application_capability set \<Rightarrow> string \<Rightarrow> composition_diagnostic list" where
  "capability_diagnostics components provided i =
     map (\<lambda>capability. diagnostic MissingCapability (composition_capability_name capability) (Some i) None None)
       (filter (\<lambda>capability. capability \<notin> provided) (co_requires_capabilities (component_at components i)))"

definition owner_diagnostics :: "(string, string list) btree \<Rightarrow> composition_diagnostic list" where
  "owner_diagnostics owners =
     map (\<lambda>(module, ids). diagnostic DuplicateModuleOwner module (Some (join '','' ids)) None None)
       (filter (\<lambda>(module, ids). length ids > 1) owners)"

section \<open>Recorded state\<close>

fun record_modules ::
    "installed_module list \<Rightarrow> (string, string) btree \<Rightarrow> (string, string) btree \<times> composition_diagnostic list" where
  "record_modules [] actual = (actual, [])"
| "record_modules (module # rest) actual =
     (case record_modules rest (bt_insert (im_id module) (im_version module) actual) of
        (final, diagnostics) \<Rightarrow>
          (final,
           (if bt_get actual (im_id module) \<noteq> None
            then diagnostic DuplicateRecordedModule (im_id module) None None None # diagnostics else diagnostics)))"

definition expected_modules :: "installed_module list \<Rightarrow> (string, string) btree" where
  "expected_modules modules = fold (\<lambda>module. bt_insert (im_id module) (im_version module)) modules []"

definition expected_diagnostics :: "(string, string) btree \<Rightarrow> (string \<times> string) \<Rightarrow> composition_diagnostic list" where
  "expected_diagnostics actual entry =
     (case entry of (i, version) \<Rightarrow>
       (case bt_get actual i of
          None \<Rightarrow> [diagnostic MissingRecordedModule i None (Some version) None]
        | Some actual_version \<Rightarrow>
            if actual_version \<noteq> version
            then [diagnostic ModuleVersionMismatch i None (Some version) (Some actual_version)] else []))"

definition unexpected_diagnostics :: "(string, string) btree \<Rightarrow> (string \<times> string) \<Rightarrow> composition_diagnostic list" where
  "unexpected_diagnostics expected entry =
     (case entry of (i, version) \<Rightarrow>
        if bt_get expected i = None then [diagnostic UnexpectedRecordedModule i None None (Some version)] else [])"

definition format_capabilities :: "application_capability set \<Rightarrow> string" where
  "format_capabilities capabilities = join '','' (map composition_capability_name (sorted_list_of_set capabilities))"

definition recorded_module_diagnostics ::
    "installed_module list \<Rightarrow> installed_module list \<Rightarrow> composition_diagnostic list" where
  "recorded_module_diagnostics modules recorded =
     (let expected = expected_modules modules; (actual, duplicates) = record_modules recorded []
      in duplicates @ concat (map (expected_diagnostics actual) expected) @
         concat (map (unexpected_diagnostics expected) actual))"

definition validate_recorded_state ::
    "installed_module list \<Rightarrow> application_capability set \<Rightarrow> composition_request \<Rightarrow> composition_diagnostic list" where
  "validate_recorded_state modules capabilities request =
     (case cq_recorded_modules request of None \<Rightarrow> [] | Some recorded \<Rightarrow> recorded_module_diagnostics modules recorded) @
     (case cq_recorded_capabilities request of
        None \<Rightarrow> []
      | Some recorded \<Rightarrow>
          if recorded \<noteq> capabilities
          then [diagnostic RecordedCapabilityMismatch ''capabilities'' None
                  (Some (format_capabilities capabilities)) (Some (format_capabilities recorded))] else [])"

section \<open>Resolution\<close>

text \<open>The expected version of a packaged component: \<^verbatim>\<open>None\<close> is the panic of \<^verbatim>\<open>expect\<close>.\<close>

definition resolve_component :: "(string, component_manifest) btree \<Rightarrow> string \<Rightarrow> resolved_component option" where
  "resolve_component components i =
     (let component = component_at components i
      in map_option (\<lambda>version.
           \<lparr> rc_id = i, rc_version = version, rc_required_dependencies = co_requires component,
             rc_optional_dependencies = co_optional_dependencies component, rc_modules = co_modules component,
             rc_provides_capabilities = co_provides_capabilities component,
             rc_requires_capabilities = co_requires_capabilities component,
             rc_installation = co_installation component \<rparr>) (co_version component))"

definition selection_diagnostics ::
    "component_package_manifest \<Rightarrow> (string, component_manifest) btree \<Rightarrow> string list \<Rightarrow> composition_diagnostic list" where
  "selection_diagnostics package components ordered =
     concat (map (component_diagnostics package components (set ordered)) ordered) @
     concat (map (capability_diagnostics components (provided_by components ordered)) ordered) @
     owner_diagnostics (module_owners components ordered)"

definition selected_modules ::
    "component_package_manifest \<Rightarrow> (string, component_manifest) btree \<Rightarrow> string list \<Rightarrow> installed_module list" where
  "selected_modules package components ordered =
     map (\<lambda>(i, _). \<lparr> im_id = i, im_version = cm_version package \<rparr>) (module_owners components ordered)"

definition composition_resolve ::
    "component_package_manifest \<Rightarrow> (string, component_manifest) btree \<Rightarrow> composition_request
      \<Rightarrow> (composition_error + resolved_composition) option" where
  "composition_resolve package components request =
     (case collect_roots (cq_components request) {} (compatibility_diagnostics package request) of (roots, checked) \<Rightarrow>
      (case walk_roots components roots checked of
         None \<Rightarrow> None
       | Some w \<Rightarrow>
           (let ordered = wk_ordered w; modules = selected_modules package components ordered;
                provided = provided_by components ordered;
                diagnostics = wk_diagnostics w @ selection_diagnostics package components ordered @
                  validate_recorded_state modules provided request
            in if diagnostics \<noteq> [] then Some (Inl (from_diagnostics diagnostics))
               else map_option (\<lambda>resolved. Inr
                 \<lparr> rs_schema = COMPOSITION_GRAPH_SCHEMA, rs_framework = cm_framework package,
                   rs_package = \<lparr> pk_id = cm_id package, pk_version = cm_version package \<rparr>,
                   rs_components = resolved, rs_modules = modules, rs_capabilities = provided \<rparr>)
                 (those (map (resolve_component components) ordered)))))"

section \<open>Unpackaged components\<close>

type_synonym legacy_walk = "string set \<times> string set \<times> component_manifest list"

fun legacy_visit :: "nat \<Rightarrow> (string, component_manifest) btree \<Rightarrow> string \<Rightarrow> legacy_walk \<Rightarrow> (renderer_error + legacy_walk) option"
  and legacy_visit_all ::
    "nat \<Rightarrow> (string, component_manifest) btree \<Rightarrow> string list \<Rightarrow> legacy_walk \<Rightarrow> (renderer_error + legacy_walk) option"
where
  "legacy_visit 0 components i w = None"
| "legacy_visit (Suc n) components i (temporary, selected, resolved) =
     (if i \<in> selected then Some (Inr (temporary, selected, resolved))
      else if i \<in> temporary then Some (Inl (renderer_error_new (''component requirement cycle includes '' @ i)))
      else case bt_get components i of
        None \<Rightarrow> Some (Inl (renderer_error_new (''selected component does not exist: '' @ i)))
      | Some component \<Rightarrow>
          map_option (\<lambda>r. and_then r (\<lambda>(temporary', selected', resolved').
              Inr (temporary' - {i}, insert i selected', resolved' @ [component])))
            (legacy_visit_all n components (sort (co_requires component)) (insert i temporary, selected, resolved)))"
| "legacy_visit_all n components [] w = Some (Inr w)"
| "legacy_visit_all n components (i # rest) w =
     (case legacy_visit n components i w of
        None \<Rightarrow> None
      | Some (Inl e) \<Rightarrow> Some (Inl e)
      | Some (Inr w') \<Rightarrow> legacy_visit_all n components rest w')"

definition check_legacy_conflicts :: "string set \<Rightarrow> component_manifest \<Rightarrow> renderer_error + unit" where
  "check_legacy_conflicts selected component =
     check_all (\<lambda>conflict. reject_if (conflict \<in> selected)
         (renderer_error_new (''component '' @ co_id component @ '' conflicts with selected component '' @ conflict)))
       (sort (co_conflicts component))"

definition resolve_legacy_components ::
    "(string, component_manifest) btree \<Rightarrow> string list \<Rightarrow> (renderer_error + component_manifest list) option" where
  "resolve_legacy_components components roots =
     map_option (\<lambda>r. and_then r (\<lambda>(_, selected, resolved).
         then_check (check_all (check_legacy_conflicts selected) resolved) (Inr resolved)))
       (legacy_visit_all (Suc (length components)) components (sort roots) ({}, {}, []))"

end
