(* ===== verification/Upgrade_Graph.thy ===== *)
theory Upgrade_Graph
  imports Composition
begin

text \<open>
  The upgrade edges of a component package (\<^verbatim>\<open>tools/template_renderer/src/upgrade.rs\<close>): their data, the validation of
  the whole graph against the package, which also brings every edge into its canonical order, and the choice of the
  edge for an application. The crate \<^verbatim>\<open>semver\<close> is the parameter \<open>parse_version\<close>; a package's files enter by their
  digests, as in the code.
\<close>

section \<open>Data\<close>

definition UPGRADE_EDGE_SCHEMA :: "32 word" where "UPGRADE_EDGE_SCHEMA = 1"
definition MAX_UPGRADE_EDGES :: nat where "MAX_UPGRADE_EDGES = 16"
definition MAX_COMPOSITIONS_PER_EDGE :: nat where "MAX_COMPOSITIONS_PER_EDGE = 64"
definition MAX_MANAGED_INTEGRATIONS_PER_EDGE :: nat where "MAX_MANAGED_INTEGRATIONS_PER_EDGE = 512"
definition MAX_COMPOSITION_MEMBERS :: nat where "MAX_COMPOSITION_MEMBERS = 64"

record semver =
  sv_major :: "64 word"
  sv_minor :: "64 word"
  sv_patch :: "64 word"
  sv_pre_empty :: bool
  sv_build_empty :: bool

record upgrade_release_identity =
  ri_framework :: framework_contract
  ri_package :: package_identity

record upgrade_composition_state =
  us_database :: database_adapter
  us_client :: client_adapter
  us_components :: "string list"
  us_modules :: "string list"
  us_capabilities :: "application_capability list"

datatype upgrade_manifest_transition = Schema | Framework | Package | Components | Modules | Capabilities | Ownership

fun manifest_transition_rank :: "upgrade_manifest_transition \<Rightarrow> nat" where
  "manifest_transition_rank Schema = 0"
| "manifest_transition_rank Framework = 1"
| "manifest_transition_rank Package = 2"
| "manifest_transition_rank Components = 3"
| "manifest_transition_rank Modules = 4"
| "manifest_transition_rank Capabilities = 5"
| "manifest_transition_rank Ownership = 6"

datatype managed_integration_transition_kind = CreateIntegration | EditIntegration | RetireIntegration

fun managed_kind_rank :: "managed_integration_transition_kind \<Rightarrow> nat" where
  "managed_kind_rank CreateIntegration = 0"
| "managed_kind_rank EditIntegration = 1"
| "managed_kind_rank RetireIntegration = 2"

record managed_integration_transition =
  mt_component :: string
  mt_path :: string
  mt_integration :: string
  mt_kind :: managed_integration_transition_kind
  mt_source_sha256 :: "string option"
  mt_target_source_component :: "string option"
  mt_target_lockfile :: "string option"
  mt_target_sha256 :: "string option"

record upgrade_composition_transition =
  ut_id :: string
  ut_source_baseline_digest :: string
  ut_source_ownership :: source_ownership
  ut_target_ownership :: source_ownership
  ut_source :: upgrade_composition_state
  ut_target :: upgrade_composition_state
  ut_manifest_transitions :: "upgrade_manifest_transition list option"
  ut_managed_integrations :: "managed_integration_transition list"

record upgrade_edge_manifest =
  ue_schema :: "32 word"
  ue_id :: string
  ue_source_package_digest :: string
  ue_source :: upgrade_release_identity
  ue_target :: upgrade_release_identity
  ue_compositions :: "upgrade_composition_transition list"
  ue_manifest_transitions :: "upgrade_manifest_transition list"
  ue_managed_integrations :: "managed_integration_transition list"

record upgrade_edge_request =
  uq_source :: upgrade_release_identity
  uq_composition :: upgrade_composition_state

record resolved_upgrade_edge =
  ru_schema :: "32 word"
  ru_id :: string
  ru_source :: upgrade_release_identity
  ru_target :: upgrade_release_identity
  ru_composition :: upgrade_composition_transition
  ru_manifest_transitions :: "upgrade_manifest_transition list"
  ru_managed_integrations :: "managed_integration_transition list"

datatype upgrade_edge_diagnostic_kind = UnsupportedRelease | UnsupportedComposition

record upgrade_edge_error =
  xe_kind :: upgrade_edge_diagnostic_kind
  xe_subject :: string

definition upgrade_edge_error_text :: "upgrade_edge_error \<Rightarrow> string" where
  "upgrade_edge_error_text e =
     (case xe_kind e of UnsupportedRelease \<Rightarrow> ''unsupported-release'' | UnsupportedComposition \<Rightarrow> ''unsupported-composition'') @
     '': '' @ xe_subject e"

section \<open>Parts of an edge\<close>

text \<open>\<^verbatim>\<open>kind.replace(' ', "-")\<close>.\<close>

definition dashed :: "string \<Rightarrow> string" where
  "dashed kind = map (\<lambda>c. if c = CHR '' '' then CHR ''-'' else c) kind"

definition validate_graph_identifier :: "string \<Rightarrow> string \<Rightarrow> renderer_error + unit" where
  "validate_graph_identifier value kind =
     map_error (\<lambda>_. graph_error InvalidIdentifier (''upgrade-graph.'' @ dashed kind)) (validate_identifier value kind)"

definition validate_graph_path :: "string \<Rightarrow> string \<Rightarrow> renderer_error + unit" where
  "validate_graph_path path kind =
     map_error (\<lambda>_. graph_error InvalidManagedPath (''upgrade-graph.'' @ dashed kind)) (validate_relative_path path kind)"

definition validate_sha256 :: "string \<Rightarrow> string \<Rightarrow> renderer_error + unit" where
  "validate_sha256 value subject =
     (case strip_prefix ''sha256:'' value of
        None \<Rightarrow> Inl (graph_error InvalidDigest subject)
      | Some digest \<Rightarrow>
          reject_if (length digest \<noteq> 64 \<or> \<not> list_all lowercase_hex digest) (graph_error InvalidDigest subject))"

definition sort_unique :: "upgrade_manifest_transition list \<Rightarrow> renderer_error + upgrade_manifest_transition list" where
  "sort_unique values =
     (let sorted_values = sort_key manifest_transition_rank values
      in if windows_any (=) sorted_values
         then Inl (graph_error DuplicateManifestTransition ''upgrade-edge.manifest-transitions'') else Inr sorted_values)"

definition sort_claims :: "source_ownership \<Rightarrow> source_ownership" where
  "sort_claims ownership = ownership\<lparr> ow_claims := sort_key claim_key (ow_claims ownership) \<rparr>"

text \<open>The derived order of managed integrations; the lockfile is a path.\<close>

definition managed_key ::
    "managed_integration_transition \<Rightarrow>
      string \<times> string \<times> string \<times> nat \<times> string option \<times> string option \<times> path_key option \<times> string option" where
  "managed_key t =
     (mt_component t, mt_path t, mt_integration t, managed_kind_rank (mt_kind t), mt_source_sha256 t,
      mt_target_source_component t, map_option path_components (mt_target_lockfile t), mt_target_sha256 t)"

definition sort_managed :: "managed_integration_transition list \<Rightarrow> managed_integration_transition list" where
  "sort_managed = sort_key managed_key"

section \<open>Releases\<close>

definition parse_release :: "(string \<Rightarrow> semver option) \<Rightarrow> string \<Rightarrow> renderer_error + semver" where
  "parse_release parse_version value =
     and_then (required (strip_prefix ''v'' value) (graph_error InvalidReleaseVersion ''upgrade-release.version'')) (\<lambda>rest.
     and_then (required (parse_version rest) (graph_error InvalidReleaseVersion ''upgrade-release.version'')) (\<lambda>version.
     then_check (reject_if (\<not> sv_pre_empty version \<or> \<not> sv_build_empty version)
       (graph_error InvalidReleaseVersion ''upgrade-release.version''))
     (Inr version)))"

definition validate_release_identity ::
    "manifest_codec \<Rightarrow> (string \<Rightarrow> semver option) \<Rightarrow> component_package_manifest \<Rightarrow> upgrade_release_identity \<Rightarrow> bool
      \<Rightarrow> renderer_error + unit" where
  "validate_release_identity C parse_version package release target =
     then_check (parse_release parse_version (fc_version (ri_framework release)))
     (then_check (map_error (\<lambda>_. graph_error InvalidReleaseIdentity ''upgrade-release.framework'')
        (validate_framework_contract C (ri_framework release)))
     (then_check (reject_if
          (fc_repository (ri_framework release) \<noteq> fc_repository (cm_framework package) \<or>
           pk_id (ri_package release) \<noteq> cm_id package \<or>
           fc_version (ri_framework release) \<noteq> pk_version (ri_package release))
        (graph_error InvalidReleaseIdentity ''upgrade-release.identity''))
     (reject_if
          (target \<and> (fc_version (ri_framework release) \<noteq> fc_version (cm_framework package) \<or>
             pk_version (ri_package release) \<noteq> cm_version package))
        (graph_error TargetReleaseMismatch ''upgrade-edge.target''))))"

text \<open>\<^verbatim>\<open>u64::checked_add(1)\<close>.\<close>

definition checked_succ :: "64 word \<Rightarrow> 64 word option" where
  "checked_succ x = (if x = - 1 then None else Some (x + 1))"

definition direct_release :: "semver \<Rightarrow> semver \<Rightarrow> bool" where
  "direct_release source target \<longleftrightarrow>
     (sv_major target = sv_major source \<and> sv_minor target = sv_minor source \<and>
        checked_succ (sv_patch source) = Some (sv_patch target)) \<or>
     (sv_major target = sv_major source \<and> checked_succ (sv_minor source) = Some (sv_minor target) \<and> sv_patch target = 0) \<or>
     (checked_succ (sv_major source) = Some (sv_major target) \<and> sv_minor target = 0 \<and> sv_patch target = 0)"

definition validate_direct_release ::
    "(string \<Rightarrow> semver option) \<Rightarrow> upgrade_release_identity \<Rightarrow> upgrade_release_identity \<Rightarrow> renderer_error + unit" where
  "validate_direct_release parse_version source target =
     and_then (parse_release parse_version (fc_version (ri_framework source))) (\<lambda>s.
     and_then (parse_release parse_version (fc_version (ri_framework target))) (\<lambda>t.
     reject_if (\<not> direct_release s t) (graph_error NonDirectRelease ''upgrade-edge.release'')))"

section \<open>Compositions\<close>

definition validate_sorted_members :: "string list \<Rightarrow> string \<Rightarrow> bool \<Rightarrow> renderer_error + unit" where
  "validate_sorted_members values kind allow_empty =
     then_check (reject_if (values = [] \<and> \<not> allow_empty)
       (graph_error NonCanonicalComposition (''upgrade-composition.'' @ kind @ ''s'')))
     (then_check (check_all (\<lambda>value. validate_graph_identifier value kind) values)
     (reject_if (windows_any (\<ge>) values)
       (graph_error NonCanonicalComposition (''upgrade-composition.'' @ kind @ ''s''))))"

definition validate_graph_capabilities :: "application_capability list \<Rightarrow> renderer_error + unit" where
  "validate_graph_capabilities values =
     reject_if (windows_any (\<ge>) values) (graph_error NonCanonicalComposition ''upgrade-composition.capabilities'')"

definition validate_member ::
    "(string, component_manifest) btree \<Rightarrow> upgrade_composition_state \<Rightarrow> bool \<Rightarrow> string \<Rightarrow> renderer_error + unit" where
  "validate_member components state target component =
     and_then (required (bt_get components component)
       (graph_error UndeclaredComponent ''upgrade-composition.components'')) (\<lambda>manifest.
     reject_if (target \<and> (case co_installation manifest of None \<Rightarrow> False | Some installation \<Rightarrow>
         us_database state \<notin> set (ci_databases installation) \<or> us_client state \<notin> set (ci_clients installation)))
       (graph_error UnsupportedAdapter ''upgrade-composition.adapters''))"

text \<open>The comparison with what the package resolves to. On the validated components of a package the resolution always
  returns (theorem \<open>composition_resolution_returns\<close>).\<close>

definition validate_target_composition ::
    "component_package_manifest \<Rightarrow> (string, component_manifest) btree \<Rightarrow> upgrade_composition_state \<Rightarrow> renderer_error + unit" where
  "validate_target_composition package components state =
     (let request = composition_request_new (cm_framework package)
            \<lparr> pk_id = cm_id package, pk_version = cm_version package \<rparr> (us_components state)
      in and_then (map_error (\<lambda>_. graph_error TargetCompositionMismatch ''upgrade-composition.target'')
           (the (composition_resolve package components request))) (\<lambda>resolved.
         reject_if
           (set (map rc_id (rs_components resolved)) \<noteq> set (us_components state) \<or>
            map im_id (rs_modules resolved) \<noteq> us_modules state \<or>
            sorted_list_of_set (rs_capabilities resolved) \<noteq> us_capabilities state)
           (graph_error TargetCompositionMismatch ''upgrade-composition.target'')))"

definition declared_capabilities :: "(string, component_manifest) btree \<Rightarrow> application_capability set" where
  "declared_capabilities components = (\<Union>c \<in> set (bt_values components). set (co_provides_capabilities c))"

definition validate_upgrade_composition ::
    "component_package_manifest \<Rightarrow> (string, component_manifest) btree \<Rightarrow> upgrade_composition_state \<Rightarrow> bool
      \<Rightarrow> renderer_error + unit" where
  "validate_upgrade_composition package components state target =
     then_check (reject_if
         (length (us_components state) > MAX_COMPOSITION_MEMBERS \<or> length (us_modules state) > MAX_COMPOSITION_MEMBERS \<or>
          length (us_capabilities state) > MAX_COMPOSITION_MEMBERS)
       (graph_error LimitExceeded ''upgrade-composition.members''))
     (then_check (validate_sorted_members (us_components state) ''component'' False)
     (then_check (validate_sorted_members (us_modules state) ''module'' True)
     (then_check (validate_graph_capabilities (us_capabilities state))
     (then_check (check_all (validate_member components state target) (us_components state))
     (then_check (reject_if (list_ex (\<lambda>module. module \<notin> set (cm_modules package)) (us_modules state))
        (graph_error upgrade_graph_diagnostic_kind.UndeclaredModule ''upgrade-composition.modules''))
     (then_check (reject_if (list_ex (\<lambda>c. c \<notin> declared_capabilities components) (us_capabilities state))
        (graph_error UndeclaredCapability ''upgrade-composition.capabilities''))
     (if target then validate_target_composition package components state else Inr ())))))))"

section \<open>Managed integrations\<close>

definition ownership_declares :: "source_ownership \<Rightarrow> managed_integration_transition \<Rightarrow> bool" where
  "ownership_declares ownership t \<longleftrightarrow>
     list_ex (\<lambda>claim. cl_path claim = mt_path t \<and> cl_class claim = ManagedIntegration \<and>
        cl_integration claim = Some (mt_integration t)) (ow_claims ownership)"

definition target_digest ::
    "((string \<times> string), string) btree \<Rightarrow> (path_key, string) btree \<Rightarrow> managed_integration_transition \<Rightarrow> string option" where
  "target_digest component_paths lockfiles t =
     (case mt_target_lockfile t of
        Some path \<Rightarrow> bt_get lockfiles (path_components path)
      | None \<Rightarrow> bt_get component_paths
          ((case mt_target_source_component t of None \<Rightarrow> mt_component t | Some c \<Rightarrow> c), mt_path t))"

definition validate_transition_digests ::
    "((string \<times> string), string) btree \<Rightarrow> (path_key, string) btree \<Rightarrow> managed_integration_transition \<Rightarrow> renderer_error + unit" where
  "validate_transition_digests component_paths lockfiles t =
     then_check (reject_if
         ((mt_kind t \<in> {EditIntegration, RetireIntegration}) \<noteq> (mt_source_sha256 t \<noteq> None) \<or>
          (mt_kind t \<in> {CreateIntegration, EditIntegration}) \<noteq> (mt_target_sha256 t \<noteq> None))
       (graph_error InvalidDigest ''managed-integration.digest-contract''))
     (then_check (case mt_source_sha256 t of None \<Rightarrow> Inr () | Some s \<Rightarrow> validate_sha256 s ''managed-integration.source-sha256'')
     (then_check (reject_if (mt_kind t = EditIntegration \<and> mt_source_sha256 t = mt_target_sha256 t)
        (graph_error InvalidDigest ''managed-integration.unchanged-edit''))
     (case mt_target_sha256 t of
        None \<Rightarrow> Inr ()
      | Some target \<Rightarrow>
          then_check (validate_sha256 target ''managed-integration.target-sha256'')
          (and_then (required (target_digest component_paths lockfiles t)
             (graph_error UndeclaredManagedPath ''managed-integration.path'')) (\<lambda>actual.
           reject_if (actual \<noteq> target) (graph_error InvalidDigest ''managed-integration.target-sha256''))))))"

definition validate_target_source ::
    "(string, component_manifest) btree \<Rightarrow> managed_integration_transition \<Rightarrow> renderer_error + unit" where
  "validate_target_source components t =
     (case mt_target_source_component t of
        None \<Rightarrow> Inr ()
      | Some source_component \<Rightarrow>
          then_check (validate_graph_identifier source_component ''target source component'')
          (then_check (reject_if (bt_get components source_component = None)
             (graph_error UndeclaredComponent ''managed-integration.target-source-component''))
          (reject_if (mt_kind t = RetireIntegration)
             (graph_error InvalidDigest ''managed-integration.target-source-component''))))"

definition integration_identity :: "managed_integration_transition \<Rightarrow> string \<times> string \<times> string" where
  "integration_identity t = (mt_component t, mt_path t, mt_integration t)"

definition validate_managed_integration ::
    "(string, component_manifest) btree \<Rightarrow> ((string \<times> string), string) btree \<Rightarrow> (path_key, string) btree
      \<Rightarrow> managed_integration_transition \<Rightarrow> renderer_error + unit" where
  "validate_managed_integration components component_paths lockfiles t =
     then_check (validate_graph_identifier (mt_component t) ''managed integration component'')
     (then_check (validate_graph_identifier (mt_integration t) ''managed integration'')
     (then_check (validate_graph_path (mt_path t) ''managed integration path'')
     (then_check (reject_if (bt_get components (mt_component t) = None)
        (graph_error UndeclaredComponent ''managed-integration.component''))
     (then_check (validate_target_source components t)
     (then_check (reject_if
          (mt_target_lockfile t \<noteq> None \<and>
           (mt_kind t \<noteq> EditIntegration \<or> mt_path t \<noteq> ''Cargo.lock'' \<or> mt_integration t \<noteq> ''framework-lockfile'' \<or>
            mt_target_source_component t \<noteq> None))
        (graph_error InvalidManagedPath ''managed-integration.target-lockfile''))
     (validate_transition_digests component_paths lockfiles t))))))"

fun validate_managed_integrations ::
    "(string, component_manifest) btree \<Rightarrow> ((string \<times> string), string) btree \<Rightarrow> (path_key, string) btree
      \<Rightarrow> (string \<times> string \<times> string) set \<Rightarrow> managed_integration_transition list \<Rightarrow> renderer_error + unit" where
  "validate_managed_integrations components component_paths lockfiles seen [] = Inr ()"
| "validate_managed_integrations components component_paths lockfiles seen (t # rest) =
     then_check (validate_managed_integration components component_paths lockfiles t)
     (then_check (reject_if (integration_identity t \<in> seen) (graph_error ConflictingManagedTransition ''managed-integration''))
     (validate_managed_integrations components component_paths lockfiles (insert (integration_identity t) seen) rest))"

text \<open>The integrations that apply to a composition, and the ownership that must declare each of them.\<close>

definition applicable_components :: "upgrade_composition_transition \<Rightarrow> string set" where
  "applicable_components c = set (us_components (ut_source c)) \<union> set (us_components (ut_target c))"

definition validate_integration_ownership ::
    "upgrade_composition_transition \<Rightarrow> managed_integration_transition \<Rightarrow> renderer_error + unit" where
  "validate_integration_ownership c t =
     (case mt_kind t of
        CreateIntegration \<Rightarrow>
          reject_if (\<not> ownership_declares (ut_target_ownership c) t) (graph_error InvalidOwnership ''managed-integration.ownership'')
      | EditIntegration \<Rightarrow>
          then_check (reject_if (\<not> ownership_declares (ut_source_ownership c) t)
            (graph_error InvalidOwnership ''managed-integration.source-ownership''))
          (reject_if (\<not> ownership_declares (ut_target_ownership c) t) (graph_error InvalidOwnership ''managed-integration.ownership''))
      | RetireIntegration \<Rightarrow>
          reject_if (\<not> ownership_declares (ut_source_ownership c) t) (graph_error InvalidOwnership ''managed-integration.ownership''))"

fun validate_applicable ::
    "upgrade_composition_transition \<Rightarrow> (string \<times> string \<times> string) set \<Rightarrow> managed_integration_transition list
      \<Rightarrow> renderer_error + unit" where
  "validate_applicable c seen [] = Inr ()"
| "validate_applicable c seen (t # rest) =
     then_check (reject_if (integration_identity t \<in> seen) (graph_error ConflictingManagedTransition ''managed-integration''))
     (then_check (validate_integration_ownership c t)
     (validate_applicable c (insert (integration_identity t) seen) rest))"

definition validate_composition_integrations ::
    "(string, component_manifest) btree \<Rightarrow> ((string \<times> string), string) btree \<Rightarrow> (path_key, string) btree
      \<Rightarrow> managed_integration_transition list \<Rightarrow> upgrade_composition_transition \<Rightarrow> renderer_error + unit" where
  "validate_composition_integrations components component_paths lockfiles shared c =
     then_check (validate_managed_integrations components component_paths lockfiles {} (ut_managed_integrations c))
     (then_check (reject_if (list_ex (\<lambda>t. mt_component t \<notin> applicable_components c) (ut_managed_integrations c))
        (graph_error UndeclaredComponent ''upgrade-composition.managed-integration.component''))
     (validate_applicable c {}
        (filter (\<lambda>t. mt_component t \<in> applicable_components c) (shared @ ut_managed_integrations c))))"

section \<open>The graph\<close>

text \<open>\<^verbatim>\<open>SourceCompositionKey\<close>.\<close>

type_synonym source_composition_key =
  "string \<times> string \<times> string \<times> database_adapter \<times> client_adapter \<times> string list \<times> string list \<times> application_capability list"

definition composition_key :: "upgrade_release_identity \<Rightarrow> upgrade_composition_state \<Rightarrow> source_composition_key" where
  "composition_key release state =
     (fc_repository (ri_framework release), fc_version (ri_framework release), pk_id (ri_package release), us_database state,
      us_client state, us_components state, us_modules state, us_capabilities state)"

definition canonical_transition :: "upgrade_composition_transition \<Rightarrow> renderer_error + upgrade_composition_transition" where
  "canonical_transition c =
     (let c' = c\<lparr> ut_source_ownership := sort_claims (ut_source_ownership c),
            ut_target_ownership := sort_claims (ut_target_ownership c),
            ut_managed_integrations := sort_managed (ut_managed_integrations c) \<rparr>
      in case ut_manifest_transitions c of
           None \<Rightarrow> Inr c'
         | Some transitions \<Rightarrow>
             and_then (sort_unique transitions) (\<lambda>sorted_transitions. Inr (c'\<lparr> ut_manifest_transitions := Some sorted_transitions \<rparr>)))"

definition validate_transition ::
    "component_package_manifest \<Rightarrow> (string, component_manifest) btree \<Rightarrow> string set \<Rightarrow> upgrade_composition_transition
      \<Rightarrow> renderer_error + unit" where
  "validate_transition package components ids c =
     then_check (validate_graph_identifier (ut_id c) ''upgrade composition'')
     (then_check (reject_if (ut_id c \<in> ids) (graph_error DuplicateComposition ''upgrade-composition.id''))
     (then_check (validate_upgrade_composition package components (ut_source c) False)
     (then_check (validate_upgrade_composition package components (ut_target c) True)
     (then_check (validate_sha256 (ut_source_baseline_digest c) ''upgrade-composition.source-baseline-digest'')
     (then_check (map_error (\<lambda>_. graph_error InvalidOwnership ''upgrade-composition.source-ownership'')
        (validate_ownership (ut_source_ownership c)))
     (then_check (map_error (\<lambda>_. graph_error InvalidOwnership ''upgrade-composition.target-ownership'')
        (validate_ownership (ut_target_ownership c)))
     (reject_if (us_database (ut_source c) \<noteq> us_database (ut_target c) \<or> us_client (ut_source c) \<noteq> us_client (ut_target c))
        (graph_error AdapterChange ''upgrade-composition.adapters''))))))))"

fun validate_transitions ::
    "component_package_manifest \<Rightarrow> (string, component_manifest) btree \<Rightarrow> upgrade_release_identity \<Rightarrow> string set
      \<Rightarrow> source_composition_key set \<Rightarrow> upgrade_composition_transition list
      \<Rightarrow> renderer_error + (upgrade_composition_transition list \<times> source_composition_key set)" where
  "validate_transitions package components source ids states [] = Inr ([], states)"
| "validate_transitions package components source ids states (c # rest) =
     and_then (canonical_transition c) (\<lambda>c'.
     then_check (validate_transition package components ids c')
     (then_check (reject_if (composition_key source (ut_source c') \<in> states)
        (graph_error AmbiguousSourceComposition ''upgrade-composition.source''))
     (and_then (validate_transitions package components source (insert (ut_id c') ids)
         (insert (composition_key source (ut_source c')) states) rest) (\<lambda>(rest', states').
      Inr (c' # rest', states')))))"

definition integration_count :: "upgrade_edge_manifest \<Rightarrow> nat" where
  "integration_count edge =
     length (ue_managed_integrations edge) + sum_list (map (\<lambda>c. length (ut_managed_integrations c)) (ue_compositions edge))"

definition release_pair :: "upgrade_edge_manifest \<Rightarrow> string \<times> string" where
  "release_pair edge = (fc_version (ri_framework (ue_source edge)), fc_version (ri_framework (ue_target edge)))"

definition validate_edge_header ::
    "manifest_codec \<Rightarrow> (string \<Rightarrow> semver option) \<Rightarrow> component_package_manifest \<Rightarrow> string set \<Rightarrow> (string \<times> string) set
      \<Rightarrow> upgrade_edge_manifest \<Rightarrow> renderer_error + unit" where
  "validate_edge_header C parse_version package ids pairs edge =
     then_check (reject_if (ue_schema edge \<noteq> UPGRADE_EDGE_SCHEMA) (graph_error InvalidSchema ''upgrade-edge.schema''))
     (then_check (validate_graph_identifier (ue_id edge) ''upgrade edge'')
     (then_check (reject_if (ue_id edge \<in> ids) (graph_error DuplicateEdge ''upgrade-edge.id''))
     (then_check (validate_release_identity C parse_version package (ue_source edge) False)
     (then_check (validate_release_identity C parse_version package (ue_target edge) True)
     (then_check (validate_direct_release parse_version (ue_source edge) (ue_target edge))
     (then_check (validate_sha256 (ue_source_package_digest edge) ''upgrade-edge.source-package-digest'')
     (then_check (reject_if (release_pair edge \<in> pairs) (graph_error DuplicateReleaseEdge ''upgrade-edge.release''))
     (then_check (reject_if (ue_compositions edge = []) (graph_error EmptyCompositionSet ''upgrade-edge.compositions''))
     (then_check (reject_if (length (ue_compositions edge) > MAX_COMPOSITIONS_PER_EDGE)
        (graph_error LimitExceeded ''upgrade-edge.compositions''))
     (reject_if (integration_count edge > MAX_MANAGED_INTEGRATIONS_PER_EDGE)
        (graph_error LimitExceeded ''upgrade-edge.managed-integrations'')))))))))))"

definition validate_edge ::
    "manifest_codec \<Rightarrow> (string \<Rightarrow> semver option) \<Rightarrow> component_package_manifest \<Rightarrow> (string, component_manifest) btree
      \<Rightarrow> ((string \<times> string), string) btree \<Rightarrow> (path_key, string) btree \<Rightarrow> string set \<Rightarrow> (string \<times> string) set
      \<Rightarrow> source_composition_key set \<Rightarrow> upgrade_edge_manifest
      \<Rightarrow> renderer_error + (upgrade_edge_manifest \<times> source_composition_key set)" where
  "validate_edge C parse_version package components component_paths lockfiles ids pairs states edge =
     then_check (validate_edge_header C parse_version package ids pairs edge)
     (and_then (validate_transitions package components (ue_source edge) {} states (sort_key ut_id (ue_compositions edge)))
       (\<lambda>(compositions, states').
      and_then (sort_unique (ue_manifest_transitions edge)) (\<lambda>manifest_transitions.
      let integrations = sort_managed (ue_managed_integrations edge)
      in then_check (validate_managed_integrations components component_paths lockfiles {} integrations)
         (then_check (check_all (validate_composition_integrations components component_paths lockfiles integrations) compositions)
         (Inr (edge\<lparr> ue_compositions := compositions, ue_manifest_transitions := manifest_transitions,
                 ue_managed_integrations := integrations \<rparr>, states'))))))"

fun validate_edges ::
    "manifest_codec \<Rightarrow> (string \<Rightarrow> semver option) \<Rightarrow> component_package_manifest \<Rightarrow> (string, component_manifest) btree
      \<Rightarrow> ((string \<times> string), string) btree \<Rightarrow> (path_key, string) btree \<Rightarrow> string set \<Rightarrow> (string \<times> string) set
      \<Rightarrow> source_composition_key set \<Rightarrow> upgrade_edge_manifest list \<Rightarrow> renderer_error + upgrade_edge_manifest list" where
  "validate_edges C parse_version package components component_paths lockfiles ids pairs states [] = Inr []"
| "validate_edges C parse_version package components component_paths lockfiles ids pairs states (edge # rest) =
     and_then (validate_edge C parse_version package components component_paths lockfiles ids pairs states edge) (\<lambda>(edge', states').
     and_then (validate_edges C parse_version package components component_paths lockfiles (insert (ue_id edge) ids)
         (insert (release_pair edge) pairs) states' rest) (\<lambda>rest'.
     Inr (edge' # rest')))"

text \<open>The validated edges, in canonical order: the code sorts them in place.\<close>

definition validate_upgrade_graph ::
    "manifest_codec \<Rightarrow> (string \<Rightarrow> semver option) \<Rightarrow> component_package_manifest \<Rightarrow> (string, component_manifest) btree
      \<Rightarrow> ((string \<times> string), string) btree \<Rightarrow> (path_key, string) btree \<Rightarrow> upgrade_edge_manifest list
      \<Rightarrow> renderer_error + upgrade_edge_manifest list" where
  "validate_upgrade_graph C parse_version package components component_paths lockfiles edges =
     then_check (reject_if (map fst lockfiles \<noteq> map path_components (cm_upgrade_lockfiles package))
       (graph_error UndeclaredManagedPath ''component-package.upgrade-lockfiles''))
     (then_check (reject_if (length edges > MAX_UPGRADE_EDGES) (graph_error LimitExceeded ''upgrade-edges''))
     (validate_edges C parse_version package components component_paths lockfiles {} {} {} (sort_key ue_id edges)))"

definition resolve_upgrade_edge ::
    "upgrade_edge_manifest list \<Rightarrow> upgrade_edge_request \<Rightarrow> upgrade_edge_error + resolved_upgrade_edge" where
  "resolve_upgrade_edge edges request =
     and_then (required (find (\<lambda>edge. ue_source edge = uq_source request) edges)
       \<lparr> xe_kind = UnsupportedRelease, xe_subject = fc_version (ri_framework (uq_source request)) \<rparr>) (\<lambda>edge.
     and_then (required (find (\<lambda>c. ut_source c = uq_composition request) (ue_compositions edge))
       \<lparr> xe_kind = UnsupportedComposition, xe_subject = ue_id edge \<rparr>) (\<lambda>composition.
     Inr \<lparr> ru_schema = UPGRADE_EDGE_SCHEMA, ru_id = ue_id edge, ru_source = ue_source edge, ru_target = ue_target edge,
           ru_composition = composition,
           ru_manifest_transitions =
             (case ut_manifest_transitions composition of None \<Rightarrow> ue_manifest_transitions edge | Some ts \<Rightarrow> ts),
           ru_managed_integrations = ue_managed_integrations edge @ ut_managed_integrations composition \<rparr>))"

end
