(* ===== verification/Package_Catalog.thy ===== *)
theory Package_Catalog
  imports Upgrade_Graph
begin

text \<open>
  The catalog of a component package (\<^verbatim>\<open>ManifestCatalog\<close> in \<^verbatim>\<open>tools/template_renderer/src/manifest.rs\<close>): loading and
  validating it from the snapshot of its files, the files that belong to each component, the digest over the whole
  content, and the resolutions it offers. The snapshot is a map from paths to bytes (\<^verbatim>\<open>package_source.rs\<close>); how it is
  read from the disk is not modelled, so the catalog has no directories. The TOML parser, SHA-256 and \<^verbatim>\<open>semver\<close> are parameters.
\<close>

section \<open>Parameters\<close>

record package_codec =
  pc_manifest :: manifest_codec
  pc_version :: "string \<Rightarrow> semver option"
  pc_template_toml :: "string \<Rightarrow> string + template_manifest"
  pc_package_toml :: "string \<Rightarrow> string + component_package_manifest"
  pc_component_toml :: "string \<Rightarrow> string + component_manifest"
  pc_edge_toml :: "string \<Rightarrow> string + upgrade_edge_manifest"
  pc_sha256 :: "string \<Rightarrow> string"

text \<open>\<^verbatim>\<open>format!("sha256:{:x}", Sha256::digest(bytes))\<close>, where the parameter gives the digits.\<close>

definition sha256_text :: "package_codec \<Rightarrow> string \<Rightarrow> string" where
  "sha256_text P content = ''sha256:'' @ pc_sha256 P content"

section \<open>The snapshot\<close>

type_synonym package_source = "(path_key, string) btree"

definition source_file :: "package_source \<Rightarrow> path_key \<Rightarrow> string option" where
  "source_file source path = bt_get source path"

definition files_below :: "package_source \<Rightarrow> path_key \<Rightarrow> (path_key \<times> string) list" where
  "files_below source root = filter (\<lambda>(path, _). prefix root path) source"

definition MAX_PACKAGE_FILES :: nat where "MAX_PACKAGE_FILES = 10000"
definition MAX_PACKAGE_BYTES :: nat where "MAX_PACKAGE_BYTES = 256 * 1024 * 1024"

definition safety_error :: "string \<Rightarrow> renderer_error" where
  "safety_error message = \<lparr> re_kind = Safety, re_message = message, re_upgrade_graph = None \<rparr>"

text \<open>One more file of the snapshot, with the bytes counted so far in 64 bits.\<close>

definition insert_file ::
    "package_source \<Rightarrow> 64 word \<Rightarrow> path_key \<Rightarrow> string \<Rightarrow> renderer_error + (package_source \<times> 64 word)" where
  "insert_file files total_bytes path content =
     then_check (reject_if (length files \<ge> MAX_PACKAGE_FILES)
       (safety_error ''component package exceeds the file-count safety limit''))
     (and_then (let total = unat total_bytes + unat (of_nat (length content) :: 64 word)
         in if total < 2 ^ 64 then Inr (of_nat total)
            else Inl (safety_error ''component package exceeds the byte-size safety limit'')) (\<lambda>total :: 64 word.
      then_check (reject_if (unat total > MAX_PACKAGE_BYTES)
        (safety_error ''component package exceeds the byte-size safety limit''))
      (then_check (reject_if (bt_get files path \<noteq> None)
        (safety_error ''component package contains a duplicate source path''))
      (Inr (bt_insert path content files, total)))))"

section \<open>Reading manifests\<close>

definition contains_text :: "string \<Rightarrow> string \<Rightarrow> bool" where
  "contains_text part s \<longleftrightarrow> list_ex (\<lambda>i. prefix part (drop i s)) [0..<Suc (length s)]"

definition read_manifest :: "(string \<Rightarrow> string + 'a) \<Rightarrow> string \<Rightarrow> string \<Rightarrow> renderer_error + 'a" where
  "read_manifest parse content kind =
     then_check (reject_if (\<not> from_utf8 content) (renderer_error_new (''invalid '' @ kind @ '' manifest encoding'')))
     (map_error (\<lambda>message. renderer_error_new (''invalid '' @ kind @ '' manifest'' @
         (if contains_text ''unknown field'' message then '': unknown field'' else []))) (parse content))"

definition read_required_manifest ::
    "package_source \<Rightarrow> (string \<Rightarrow> string + 'a) \<Rightarrow> path_key \<Rightarrow> string \<Rightarrow> renderer_error + 'a" where
  "read_required_manifest source parse path kind =
     and_then (required (source_file source path)
       (renderer_error_new (''component package is missing the '' @ kind @ '' manifest''))) (\<lambda>content.
     read_manifest parse content kind)"

section \<open>Files of a component\<close>

definition package_path :: path_key where "package_path = [Normal ''package.toml'']"

definition template_path :: "string \<Rightarrow> path_key" where
  "template_path template = path_join (path_join [Normal ''applications''] (path_components template)) [Normal ''template.toml'']"

definition component_path :: "string \<Rightarrow> path_key" where
  "component_path i = path_join [Normal ''components''] (path_components (i @ ''.toml''))"

text \<open>\<^verbatim>\<open>Path::display\<close> for the paths that messages name.\<close>

definition display_path :: "path_key \<Rightarrow> string" where
  "display_path path = join ''/'' (map (\<lambda>c. to_string_lossy (component_text c)) path)"

definition path_to_package_key :: "path_key \<Rightarrow> renderer_error + string" where
  "path_to_package_key path =
     (case normal_segments path of
        None \<Rightarrow> Inl (renderer_error_new ''packaged component input contains an invalid path component'')
      | Some parts \<Rightarrow> Inr (join ''/'' (map to_string_lossy parts)))"

definition escapes :: renderer_error where
  "escapes = renderer_error_new ''component source declaration escapes its source root''"

definition relative_path :: "path_key \<Rightarrow> path_key \<Rightarrow> renderer_error + path_key" where
  "relative_path source_root path = required (path_strip_prefix source_root path) escapes"

fun insert_relative ::
    "path_key \<Rightarrow> (path_key \<times> string) list \<Rightarrow> (path_key, string) btree \<Rightarrow> renderer_error + (path_key, string) btree" where
  "insert_relative source_root [] selected = Inr selected"
| "insert_relative source_root ((path, content) # rest) selected =
     and_then (relative_path source_root path) (\<lambda>relative.
     insert_relative source_root rest (bt_insert relative content selected))"

definition include_files ::
    "package_source \<Rightarrow> path_key \<Rightarrow> string \<Rightarrow> (path_key, string) btree \<Rightarrow> renderer_error + (path_key, string) btree" where
  "include_files source source_root include selected =
     (let declared = path_join source_root (path_components include)
      in case source_file source declared of
           Some content \<Rightarrow> insert_relative source_root [(declared, content)] selected
         | None \<Rightarrow>
             (let descendants = filter (\<lambda>(path, _). path \<noteq> declared) (files_below source declared)
              in then_check (reject_if (descendants = [])
                   (renderer_error_new ''component include does not identify a declared package file or directory''))
                 (insert_relative source_root descendants selected)))"

fun include_all ::
    "package_source \<Rightarrow> path_key \<Rightarrow> string list \<Rightarrow> (path_key, string) btree \<Rightarrow> renderer_error + (path_key, string) btree" where
  "include_all source source_root [] selected = Inr selected"
| "include_all source source_root (include # rest) selected =
     and_then (include_files source source_root include selected) (include_all source source_root rest)"

definition component_files :: "package_source \<Rightarrow> component_manifest \<Rightarrow> renderer_error + (path_key \<times> string) list" where
  "component_files source component =
     include_all source (path_components (co_source component)) (co_include component) []"

section \<open>The catalog\<close>

record manifest_catalog =
  ct_source :: package_source
  ct_template :: template_manifest
  ct_components :: "(string, component_manifest) btree"
  ct_package :: "component_package_manifest option"
  ct_upgrade_edges :: "upgrade_edge_manifest list"

definition required_file :: "manifest_catalog \<Rightarrow> path_key \<Rightarrow> string \<Rightarrow> renderer_error + string" where
  "required_file catalog path kind =
     required (source_file (ct_source catalog) path)
       (renderer_error_new (''component package is missing the declared '' @ kind))"

definition upgrade_lockfile :: "manifest_catalog \<Rightarrow> path_key \<Rightarrow> renderer_error + string" where
  "upgrade_lockfile catalog path =
     then_check (reject_if (\<not> (case ct_package catalog of None \<Rightarrow> False
          | Some package \<Rightarrow> path \<in> set (map path_components (cm_upgrade_lockfiles package))))
       (renderer_error_new ''undeclared upgrade lockfile''))
     (required_file catalog path ''upgrade lockfile'')"

definition component_file :: "manifest_catalog \<Rightarrow> string \<Rightarrow> path_key \<Rightarrow> renderer_error + string" where
  "component_file catalog component path =
     and_then (required (bt_get (ct_components catalog) component)
       (renderer_error_new ''upgrade component is not in the package graph'')) (\<lambda>component.
     and_then (component_files (ct_source catalog) component) (\<lambda>files.
     required (map_option snd (find (\<lambda>(candidate, _). candidate = path) files))
       (renderer_error_new ''upgrade target is not in the package graph'')))"

section \<open>The content digest\<close>

definition insert_package_entry ::
    "(string, string) btree \<Rightarrow> string \<Rightarrow> string \<Rightarrow> renderer_error + (string, string) btree" where
  "insert_package_entry entries path content =
     then_check (reject_if (bt_get entries path \<noteq> None)
       (renderer_error_new (''duplicate component package entry: '' @ path)))
     (Inr (bt_insert path content entries))"

text \<open>A loop that adds entries; each step yields the key and the bytes.\<close>

fun insert_entries ::
    "('a \<Rightarrow> renderer_error + (string \<times> string)) \<Rightarrow> 'a list \<Rightarrow> (string, string) btree \<Rightarrow> renderer_error + (string, string) btree" where
  "insert_entries entry [] entries = Inr entries"
| "insert_entries entry (x # rest) entries =
     and_then (entry x) (\<lambda>(path, content).
     and_then (insert_package_entry entries path content) (insert_entries entry rest))"

definition declared_entry :: "manifest_catalog \<Rightarrow> string \<Rightarrow> path_key \<Rightarrow> renderer_error + (string \<times> string)" where
  "declared_entry catalog kind path =
     and_then (path_to_package_key path) (\<lambda>key.
     and_then (required_file catalog path kind) (\<lambda>content. Inr (key, content)))"

definition component_entry :: "component_manifest \<Rightarrow> path_key \<times> string \<Rightarrow> renderer_error + (string \<times> string)" where
  "component_entry component file =
     (case file of (relative, content) \<Rightarrow>
        and_then (path_to_package_key relative) (\<lambda>key.
        Inr (''sources/'' @ co_id component @ ''/'' @ key, content)))"

definition insert_component ::
    "manifest_catalog \<Rightarrow> component_manifest \<Rightarrow> (string, string) btree \<Rightarrow> renderer_error + (string, string) btree" where
  "insert_component catalog component entries =
     and_then (required_file catalog (component_path (co_id component)) ''packaged component manifest'') (\<lambda>manifest.
     and_then (insert_package_entry entries (''components/'' @ co_id component @ ''.toml'') manifest) (\<lambda>entries'.
     and_then (component_files (ct_source catalog) component) (\<lambda>files.
     insert_entries (component_entry component) files entries')))"

fun insert_components ::
    "manifest_catalog \<Rightarrow> component_manifest list \<Rightarrow> (string, string) btree \<Rightarrow> renderer_error + (string, string) btree" where
  "insert_components catalog [] entries = Inr entries"
| "insert_components catalog (component # rest) entries =
     and_then (insert_component catalog component entries) (insert_components catalog rest)"

definition package_entries :: "manifest_catalog \<Rightarrow> component_package_manifest \<Rightarrow> renderer_error + (string, string) btree" where
  "package_entries catalog package =
     and_then (insert_entries (declared_entry catalog ''packaged template manifest'')
       (map template_path (cm_templates package)) []) (\<lambda>entries.
     and_then (insert_entries (declared_entry catalog ''upgrade edge'')
       (map path_components (cm_upgrade_edges package @ cm_upgrade_lockfiles package)) entries)
     (insert_components catalog (bt_values (ct_components catalog))))"

text \<open>\<^verbatim>\<open>(n as u64).to_be_bytes()\<close>.\<close>

definition to_be_bytes :: "64 word \<Rightarrow> string" where
  "to_be_bytes n = map (\<lambda>i. char_of (unat n div 256 ^ (7 - i) mod 256)) [0..<8]"

definition encode_bytes :: "string \<Rightarrow> string" where
  "encode_bytes content = to_be_bytes (of_nat (length content)) @ content"

definition encode_entries :: "(string, string) btree \<Rightarrow> string" where
  "encode_entries entries = concat (map (\<lambda>(path, content). encode_bytes path @ encode_bytes content) entries)"

definition package_digest :: "package_codec \<Rightarrow> (string, string) btree \<Rightarrow> string" where
  "package_digest P entries = sha256_text P (encode_entries entries)"

definition calculate_package_content_digest :: "package_codec \<Rightarrow> manifest_catalog \<Rightarrow> renderer_error + string option" where
  "calculate_package_content_digest P catalog =
     (case ct_package catalog of
        None \<Rightarrow> Inr None
      | Some package \<Rightarrow> and_then (package_entries catalog package) (\<lambda>entries. Inr (Some (package_digest P entries))))"

definition validate_package_content :: "package_codec \<Rightarrow> manifest_catalog \<Rightarrow> renderer_error + unit" where
  "validate_package_content P catalog =
     (case ct_package catalog of
        None \<Rightarrow> Inr ()
      | Some package \<Rightarrow>
          and_then (package_entries catalog package) (\<lambda>entries.
          reject_if (package_digest P entries \<noteq> cm_content_digest package)
            (renderer_error_new (''component package content digest mismatch: expected '' @ cm_content_digest package @
               '', calculated '' @ package_digest P entries))))"

section \<open>Declared files\<close>

fun component_source_paths :: "package_source \<Rightarrow> component_manifest list \<Rightarrow> renderer_error + path_key set" where
  "component_source_paths source [] = Inr {}"
| "component_source_paths source (component # rest) =
     and_then (component_files source component) (\<lambda>files.
     and_then (component_source_paths source rest) (\<lambda>paths.
     Inr (insert (component_path (co_id component))
       (set (map (\<lambda>(relative, _). path_join (path_components (co_source component)) relative) files) \<union> paths))))"

definition validate_declared_package_files :: "manifest_catalog \<Rightarrow> renderer_error + unit" where
  "validate_declared_package_files catalog =
     (case ct_package catalog of
        None \<Rightarrow> Inr ()
      | Some package \<Rightarrow>
          and_then (component_source_paths (ct_source catalog) (bt_values (ct_components catalog))) (\<lambda>sources.
          reject_if
            ({package_path} \<union> set (map template_path (cm_templates package)) \<union>
               set (map path_components (cm_upgrade_edges package)) \<union>
               set (map path_components (cm_upgrade_lockfiles package)) \<union> sources
             \<noteq> set (map fst (ct_source catalog)))
            (renderer_error_new ''component package contains missing or undeclared files'')))"

section \<open>The upgrade graph\<close>

fun digest_files ::
    "package_codec \<Rightarrow> string \<Rightarrow> (path_key \<times> string) list \<Rightarrow> ((string \<times> string), string) btree
      \<Rightarrow> renderer_error + ((string \<times> string), string) btree" where
  "digest_files P i [] digests = Inr digests"
| "digest_files P i ((path, content) # rest) digests =
     and_then (path_to_package_key path) (\<lambda>key.
     digest_files P i rest (bt_insert (i, key) (sha256_text P content) digests))"

fun digest_components ::
    "package_codec \<Rightarrow> package_source \<Rightarrow> component_manifest list \<Rightarrow> ((string \<times> string), string) btree
      \<Rightarrow> renderer_error + ((string \<times> string), string) btree" where
  "digest_components P source [] digests = Inr digests"
| "digest_components P source (component # rest) digests =
     and_then (component_files source component) (\<lambda>files.
     and_then (digest_files P (co_id component) files digests) (digest_components P source rest))"

fun digest_lockfiles ::
    "package_codec \<Rightarrow> manifest_catalog \<Rightarrow> path_key list \<Rightarrow> (path_key, string) btree \<Rightarrow> renderer_error + (path_key, string) btree" where
  "digest_lockfiles P catalog [] digests = Inr digests"
| "digest_lockfiles P catalog (path # rest) digests =
     and_then (upgrade_lockfile catalog path) (\<lambda>content.
     digest_lockfiles P catalog rest (bt_insert path (sha256_text P content) digests))"

definition catalog_validate_upgrade_graph :: "package_codec \<Rightarrow> manifest_catalog \<Rightarrow> renderer_error + manifest_catalog" where
  "catalog_validate_upgrade_graph P catalog =
     (case ct_package catalog of
        None \<Rightarrow> Inr catalog
      | Some package \<Rightarrow>
          and_then (digest_components P (ct_source catalog) (bt_values (ct_components catalog)) []) (\<lambda>component_paths.
          and_then (digest_lockfiles P catalog (map path_components (cm_upgrade_lockfiles package)) []) (\<lambda>lockfiles.
          and_then (validate_upgrade_graph (pc_manifest P) (pc_version P) package (ct_components catalog) component_paths
              lockfiles (ct_upgrade_edges catalog)) (\<lambda>edges.
          Inr (catalog\<lparr> ct_upgrade_edges := edges \<rparr>)))))"

section \<open>Loading\<close>

definition load_package :: "package_codec \<Rightarrow> package_source \<Rightarrow> string \<Rightarrow> renderer_error + component_package_manifest option" where
  "load_package P source template_id =
     (case source_file source package_path of
        None \<Rightarrow> Inr None
      | Some content \<Rightarrow>
          and_then (read_manifest (pc_package_toml P) content ''component package'') (\<lambda>package.
          then_check (validate_package (pc_manifest P) package ''package.toml'')
          (then_check (reject_if (template_id \<notin> set (cm_templates package))
            (renderer_error_new (''component package does not contain template '' @ template_id)))
          (Inr (Some package)))))"

definition load_template :: "package_codec \<Rightarrow> package_source \<Rightarrow> string \<Rightarrow> renderer_error + template_manifest" where
  "load_template P source template_id =
     and_then (read_required_manifest source (pc_template_toml P) (template_path template_id) ''template'') (\<lambda>template.
     then_check (validate_schema (tm_schema template) TEMPLATE_MANIFEST_SCHEMA (display_path (template_path template_id)))
     (then_check (validate_identifier (tm_id template) ''template'')
     (then_check (reject_if (tm_id template \<noteq> template_id)
        (renderer_error_new (''template id mismatch in '' @ display_path (template_path template_id) @ '': expected '' @
           template_id @ '', found '' @ tm_id template)))
     (then_check (reject_if (tm_components template = [])
        (renderer_error_new (''template '' @ tm_id template @ '' selects no components'')))
     (then_check (check_all (\<lambda>component. validate_identifier component ''component'') (tm_components template))
     (then_check (check_all validate_variable (map fst (tm_variables template)))
     (Inr template)))))))"

fun load_components ::
    "package_codec \<Rightarrow> package_source \<Rightarrow> component_package_manifest option \<Rightarrow> path_key list
      \<Rightarrow> (string, component_manifest) btree \<Rightarrow> renderer_error + (string, component_manifest) btree" where
  "load_components P source package [] components = Inr components"
| "load_components P source package (path # rest) components =
     then_check (reject_if (path_parent path \<noteq> Some [Normal ''components''] \<or> path_extension path \<noteq> Some ''toml'')
       (renderer_error_new ''component package contains an undeclared component manifest entry''))
     (and_then (read_required_manifest source (pc_component_toml P) path ''component'') (\<lambda>component.
      then_check (validate_schema (co_schema component)
          (if package = None then LEGACY_COMPONENT_MANIFEST_SCHEMA else COMPONENT_MANIFEST_SCHEMA) (display_path path))
      (then_check (validate_component component package)
      (then_check (reject_if (bt_get components (co_id component) \<noteq> None)
          (renderer_error_new (''duplicate component id in '' @ display_path path)))
      (load_components P source package rest
        (bt_insert (co_id component) (component\<lparr> co_manifest_path := path \<rparr>) components))))))"

text \<open>\<^verbatim>\<open>{:?}\<close> of a set of identifiers, which need no escapes.\<close>

definition debug_identifiers :: "string set \<Rightarrow> string" where
  "debug_identifiers ids =
     ''{'' @ join '', '' (map (\<lambda>i. [CHR 0x22] @ i @ [CHR 0x22]) (sorted_list_of_set ids)) @ ''}''"

definition check_discovered ::
    "component_package_manifest option \<Rightarrow> (string, component_manifest) btree \<Rightarrow> renderer_error + unit" where
  "check_discovered package components =
     (case package of
        None \<Rightarrow> Inr ()
      | Some package \<Rightarrow>
          reject_if (set (cm_components package) \<noteq> set (map fst components))
            (renderer_error_new (''component package declares '' @ debug_identifiers (set (cm_components package)) @
               '', but contains '' @ debug_identifiers (set (map fst components)))))"

fun load_edges :: "package_codec \<Rightarrow> package_source \<Rightarrow> path_key list \<Rightarrow> renderer_error + upgrade_edge_manifest list" where
  "load_edges P source [] = Inr []"
| "load_edges P source (path # rest) =
     and_then (map_error (\<lambda>_. graph_error InvalidManifest ''upgrade-edge.manifest'')
       (read_required_manifest source (pc_edge_toml P) path ''upgrade edge'')) (\<lambda>edge.
     and_then (load_edges P source rest) (\<lambda>edges. Inr (edge # edges)))"

definition load_internal :: "package_codec \<Rightarrow> package_source \<Rightarrow> string \<Rightarrow> bool \<Rightarrow> renderer_error + manifest_catalog" where
  "load_internal P source template_id validate_content_digest =
     then_check (validate_identifier template_id ''template'')
     (and_then (load_package P source template_id) (\<lambda>package.
      and_then (load_template P source template_id) (\<lambda>template.
      and_then (load_components P source package (map fst (files_below source [Normal ''components''])) []) (\<lambda>components.
      then_check (check_discovered package components)
      (and_then (case package of None \<Rightarrow> Inr []
          | Some package \<Rightarrow> load_edges P source (map path_components (cm_upgrade_edges package))) (\<lambda>edges.
       and_then (catalog_validate_upgrade_graph P
           \<lparr> ct_source = source, ct_template = template, ct_components = components, ct_package = package,
             ct_upgrade_edges = edges \<rparr>) (\<lambda>catalog.
       then_check (validate_declared_package_files catalog)
       (then_check (if validate_content_digest then validate_package_content P catalog else Inr ())
       (Inr catalog)))))))))"

definition calculate_package_digest :: "package_codec \<Rightarrow> package_source \<Rightarrow> string \<Rightarrow> renderer_error + string" where
  "calculate_package_digest P source template_id =
     and_then (load_internal P source template_id False) (\<lambda>catalog.
     and_then (calculate_package_content_digest P catalog) (\<lambda>digest.
     required digest (renderer_error_new ''templates root does not contain a component package manifest'')))"

section \<open>Resolutions\<close>

definition resolve_composition ::
    "manifest_catalog \<Rightarrow> composition_request \<Rightarrow> (composition_error + resolved_composition) option" where
  "resolve_composition catalog request =
     (case ct_package catalog of
        None \<Rightarrow> Some (Inl missing_package)
      | Some package \<Rightarrow> composition_resolve package (ct_components catalog) request)"

definition resolve_component_roots ::
    "manifest_catalog \<Rightarrow> string list option \<Rightarrow> (composition_error + resolved_composition) option" where
  "resolve_component_roots catalog roots =
     (case ct_package catalog of
        None \<Rightarrow> Some (Inl missing_package)
      | Some package \<Rightarrow> composition_resolve package (ct_components catalog)
          (composition_request_new (cm_framework package) \<lparr> pk_id = cm_id package, pk_version = cm_version package \<rparr>
            (case roots of None \<Rightarrow> tm_components (ct_template catalog) | Some ids \<Rightarrow> ids)))"

definition resolve_template_composition :: "manifest_catalog \<Rightarrow> (composition_error + resolved_composition) option" where
  "resolve_template_composition catalog = resolve_component_roots catalog None"

fun components_for ::
    "(string, component_manifest) btree \<Rightarrow> resolved_component list \<Rightarrow> renderer_error + component_manifest list" where
  "components_for components [] = Inr []"
| "components_for components (component # rest) =
     and_then (required (bt_get components (rc_id component))
       (renderer_error_new (''resolved component does not exist: '' @ rc_id component))) (\<lambda>manifest.
     and_then (components_for components rest) (\<lambda>manifests. Inr (manifest # manifests)))"

definition resolve_components :: "manifest_catalog \<Rightarrow> (renderer_error + component_manifest list) option" where
  "resolve_components catalog =
     (if ct_package catalog \<noteq> None
      then map_option (\<lambda>r. and_then (map_error (\<lambda>e. renderer_error_new (composition_error_text e)) r)
             (\<lambda>graph. components_for (ct_components catalog) (rs_components graph)))
           (resolve_component_roots catalog None)
      else resolve_legacy_components (ct_components catalog) (tm_components (ct_template catalog)))"

definition catalog_resolve_upgrade_edge ::
    "manifest_catalog \<Rightarrow> upgrade_edge_request \<Rightarrow> upgrade_edge_error + resolved_upgrade_edge" where
  "catalog_resolve_upgrade_edge catalog = resolve_upgrade_edge (ct_upgrade_edges catalog)"

end
