(* ===== verification/Resolution.thy ===== *)
theory Resolution
  imports Composition
begin

text \<open>
  What the resolution of a composition guarantees: the walk over the requirements ends on every graph, cyclic ones
  included; it reports something exactly if something needed is missing or needs itself; and a composition resolves
  exactly if it is admissible, to the needed components in an order of installation.
\<close>

section \<open>The graph of requirements\<close>

definition requires_edge :: "(string, component_manifest) btree \<Rightarrow> (string \<times> string) set" where
  "requires_edge components =
     {(a, b). \<exists>component. bt_get components a = Some component \<and> b \<in> set (co_requires component)}"

text \<open>What the requested roots need, directly or through other components.\<close>

definition needed :: "(string, component_manifest) btree \<Rightarrow> string set \<Rightarrow> string set" where
  "needed components roots = (requires_edge components)\<^sup>* `` roots"

text \<open>Every component comes after the components that it requires.\<close>

definition requirements_first :: "(string \<times> string) set \<Rightarrow> string list \<Rightarrow> bool" where
  "requirements_first E xs \<longleftrightarrow> (\<forall>i < length xs. E `` {xs ! i} \<subseteq> set (take i xs))"

lemma requirements_first_Nil [simp]: "requirements_first E []"
  by (simp add: requirements_first_def)

lemma requirements_first_snoc:
  "requirements_first E (xs @ [x]) \<longleftrightarrow> requirements_first E xs \<and> E `` {x} \<subseteq> set xs"
  by (auto simp: requirements_first_def nth_append less_Suc_eq)

lemma requirements_first_closed: "requirements_first E xs \<Longrightarrow> a \<in> set xs \<Longrightarrow> (a, b) \<in> E \<Longrightarrow> b \<in> set xs"
  unfolding requirements_first_def in_set_conv_nth by (metis Image_singleton_iff in_set_conv_nth in_set_takeD subsetD)

lemma requirements_first_reach:
  assumes "requirements_first E xs" "(a, b) \<in> E\<^sup>*" "a \<in> set xs"
  shows "b \<in> set xs"
  using assms(2,3) by (induction rule: rtrancl_induct) (auto intro: requirements_first_closed [OF assms(1)])

lemma requirements_first_acyclic:
  assumes "requirements_first E xs" "distinct xs" "(a, b) \<in> E\<^sup>+" "a = xs ! i" "i < length xs"
  shows "\<exists>j < i. b = xs ! j"
  using assms(3-5)
proof (induction arbitrary: rule: trancl_induct)
  case (base y)
  with assms(1) have "y \<in> set (take i xs)" unfolding requirements_first_def by auto
  then show ?case by (auto simp: in_set_conv_nth)
next
  case (step y z)
  then obtain j where j: "j < i" "y = xs ! j" by blast
  with step.prems(2) have "j < length xs" by simp
  with j(2) step.hyps(2) assms(1) have "z \<in> set (take j xs)" unfolding requirements_first_def by auto
  then obtain k where "k < j" "z = xs ! k" by (auto simp: in_set_conv_nth)
  with j(1) show ?case by (blast intro: order.strict_trans)
qed

lemma requirements_first_no_cycle:
  assumes "requirements_first E xs" "distinct xs" "a \<in> set xs"
  shows "(a, a) \<notin> E\<^sup>+"
proof
  assume c: "(a, a) \<in> E\<^sup>+"
  obtain i where i: "i < length xs" "a = xs ! i" using assms(3) by (auto simp: in_set_conv_nth)
  from requirements_first_acyclic [OF assms(1,2) c i(2,1)] obtain j where j: "j < i" "a = xs ! j" by blast
  with i assms(2) show False by (simp add: nth_eq_iff_index_eq)
qed

section \<open>The walk ends\<close>

text \<open>Every level of the recursion enters a component that no level above has entered.\<close>

definition unvisited :: "(string, component_manifest) btree \<Rightarrow> walk \<Rightarrow> string set" where
  "unvisited components w = {i. bt_get components i \<noteq> None \<and> bt_get (wk_state w) i = None}"

lemma unvisited_finite [simp]: "finite (unvisited components w)"
proof (rule finite_subset)
  show "unvisited components w \<subseteq> fst ` set components"
    by (auto simp: unvisited_def bt_get_def dest: map_of_SomeD intro: rev_image_eqI)
qed simp

lemma walk_state_simps [simp]:
  "wk_state (report d w) = wk_state w" "wk_stack (report d w) = wk_stack w" "wk_ordered (report d w) = wk_ordered w"
  "wk_diagnostics (report d w) = wk_diagnostics w @ [d]"
  "wk_state (enter i w) = bt_insert i Visiting (wk_state w)" "wk_stack (enter i w) = wk_stack w @ [i]"
  "wk_ordered (enter i w) = wk_ordered w" "wk_diagnostics (enter i w) = wk_diagnostics w"
  "wk_state (leave i w) = bt_insert i Resolved (wk_state w)" "wk_stack (leave i w) = butlast (wk_stack w)"
  "wk_diagnostics (leave i w) = wk_diagnostics w"
  by (simp_all add: report_def enter_def leave_def)

lemma report_cycle_simps [simp]:
  "wk_state (report_cycle i w) = wk_state w" "wk_stack (report_cycle i w) = wk_stack w"
  "wk_ordered (report_cycle i w) = wk_ordered w"
  "\<exists>d. wk_diagnostics (report_cycle i w) = wk_diagnostics w @ [d]"
  by (simp_all add: report_cycle_def Let_def)

lemma visit_state_grows:
  "visit n components rb i w = Some w' \<Longrightarrow> dom (bt_get (wk_state w)) \<subseteq> dom (bt_get (wk_state w'))"
  "visit_all n components rb is w = Some w' \<Longrightarrow> dom (bt_get (wk_state w)) \<subseteq> dom (bt_get (wk_state w'))"
proof (induction n components rb i w and n components rb "is" w arbitrary: w' and w' rule: visit_visit_all.induct)
  case (2 n components rb i w)
  then show ?case
    by (fastforce simp: bt_get_insert split: option.splits visit_state.splits)
next
  case (4 n components rb i rest w)
  then obtain w1 where w1: "visit n components rb i w = Some w1" "visit_all n components rb rest w1 = Some w'"
    by (auto split: option.splits)
  from 4(1) [OF w1(1)] 4(2) [OF w1] show ?case by (rule order.trans)
qed auto

lemma unvisited_mono:
  "visit n components rb i w = Some w' \<Longrightarrow> card (unvisited components w') \<le> card (unvisited components w)"
  by (rule card_mono [OF unvisited_finite]) (use visit_state_grows(1) in \<open>fastforce simp: unvisited_def\<close>)

lemma unvisited_enter:
  assumes "bt_get (wk_state w) i = None" "bt_get components i = Some component"
  shows "card (unvisited components (enter i w)) < card (unvisited components w)"
proof (rule psubset_card_mono [OF unvisited_finite])
  have "i \<in> unvisited components w - unvisited components (enter i w)"
    using assms by (simp add: unvisited_def bt_get_insert)
  moreover have "unvisited components (enter i w) \<subseteq> unvisited components w"
    by (auto simp: unvisited_def bt_get_insert split: if_splits)
  ultimately show "unvisited components (enter i w) \<subset> unvisited components w" by blast
qed

lemma visit_ends:
  "card (unvisited components w) < n \<Longrightarrow> \<exists>w'. visit n components rb i w = Some w'"
  "card (unvisited components w) < n \<Longrightarrow> \<exists>w'. visit_all n components rb is w = Some w'"
proof (induction n components rb i w and n components rb "is" w rule: visit_visit_all.induct)
  case (2 n components rb i w)
  then show ?case
    using unvisited_enter [of w i components]
    by (fastforce split: option.splits visit_state.splits)
next
  case (4 n components rb i rest w)
  then obtain w' where w': "visit n components rb i w = Some w'" by blast
  with 4 unvisited_mono [OF w'] show ?case by simp
qed simp_all

lemma unvisited_bound: "card (unvisited components (walk_start diagnostics)) \<le> length components"
proof -
  have "unvisited components (walk_start diagnostics) \<subseteq> fst ` set components"
    by (auto simp: unvisited_def bt_get_def dest: map_of_SomeD intro: rev_image_eqI)
  then have "card (unvisited components (walk_start diagnostics)) \<le> card (fst ` set components)"
    by (rule card_mono [rotated]) simp
  also have "\<dots> \<le> length components" using card_image_le [of "set components" fst] card_length [of components] by simp
  finally show ?thesis .
qed

lemma walk_roots_ends: "\<exists>w. walk_roots components roots diagnostics = Some w"
  unfolding walk_roots_def using unvisited_bound [of components diagnostics] by (intro visit_ends(2)) simp

section \<open>What the walk finds\<close>

text \<open>Something needed is missing, or needs itself.\<close>

definition broken :: "(string, component_manifest) btree \<Rightarrow> string set \<Rightarrow> bool" where
  "broken components roots \<longleftrightarrow>
     (\<exists>i \<in> needed components roots. bt_get components i = None \<or> (i, i) \<in> (requires_edge components)\<^sup>+)"

text \<open>
  The invariant: the state says which components are on the stack and which are done, the stack is a path of the
  graph, and as long as nothing was reported the finished components come in an order of installation.
\<close>

definition walk_inv ::
    "(string, component_manifest) btree \<Rightarrow> string set \<Rightarrow> composition_diagnostic list \<Rightarrow> walk \<Rightarrow> bool" where
  "walk_inv components roots reported w \<longleftrightarrow>
     distinct (wk_ordered w @ wk_stack w) \<and>
     bt_get (wk_state w) = (\<lambda>i. if i \<in> set (wk_ordered w) then Some Resolved
       else if i \<in> set (wk_stack w) then Some Visiting else None) \<and>
     (\<forall>i \<in> set (wk_ordered w @ wk_stack w). i \<in> needed components roots \<and> bt_get components i \<noteq> None) \<and>
     successively (\<lambda>a b. (a, b) \<in> requires_edge components) (wk_stack w) \<and>
     prefix reported (wk_diagnostics w) \<and>
     (wk_diagnostics w = reported \<longrightarrow> requirements_first (requires_edge components) (wk_ordered w)) \<and>
     (wk_diagnostics w \<noteq> reported \<longrightarrow> broken components roots)"

text \<open>A component may be visited next: it is needed, and the top of the stack requires it.\<close>

definition next_ok :: "(string, component_manifest) btree \<Rightarrow> string set \<Rightarrow> walk \<Rightarrow> string \<Rightarrow> bool" where
  "next_ok components roots w i \<longleftrightarrow> i \<in> needed components roots \<and>
     (wk_stack w \<noteq> [] \<longrightarrow> (last (wk_stack w), i) \<in> requires_edge components)"

text \<open>What a visit of some components keeps and achieves.\<close>

definition visited_ok ::
    "(string, component_manifest) btree \<Rightarrow> string set \<Rightarrow> composition_diagnostic list \<Rightarrow> walk \<Rightarrow> string set \<Rightarrow> walk \<Rightarrow> bool" where
  "visited_ok components roots reported w is w' \<longleftrightarrow>
     walk_inv components roots reported w' \<and> wk_stack w' = wk_stack w \<and> prefix (wk_ordered w) (wk_ordered w') \<and>
     prefix (wk_diagnostics w) (wk_diagnostics w') \<and>
     (wk_diagnostics w' = reported \<longrightarrow> is \<subseteq> set (wk_ordered w'))"

lemma path_reaches:
  assumes "successively (\<lambda>a b. (a, b) \<in> E) xs" "x \<in> set xs"
  shows "(x, last xs) \<in> E\<^sup>*"
  using assms
proof (induction xs arbitrary: x rule: induct_list012)
  case (3 a b xs)
  show ?case
  proof (cases "x = a")
    case True
    have "(b, last (b # xs)) \<in> E\<^sup>*" by (rule "3.IH"(2)) (use 3(3) in auto)
    moreover have "(a, b) \<in> E" using 3(3) by simp
    ultimately have "(a, b) \<in> E" "(b, last (b # xs)) \<in> E\<^sup>*" by blast+
    with True show ?thesis by (simp add: converse_rtrancl_into_rtrancl)
  qed (use 3 in auto)
qed auto

lemma needed_step: "i \<in> needed components roots \<Longrightarrow> (i, j) \<in> requires_edge components \<Longrightarrow> j \<in> needed components roots"
  unfolding needed_def by (auto intro: rtrancl.rtrancl_into_rtrancl)

lemma visited_reported:
  assumes "walk_inv components roots reported w" "broken components roots"
    "wk_state w' = wk_state w" "wk_stack w' = wk_stack w" "wk_ordered w' = wk_ordered w"
    "wk_diagnostics w' = wk_diagnostics w @ [d]"
  shows "visited_ok components roots reported w is w'"
proof -
  have "prefix reported (wk_diagnostics w)" using assms(1) by (simp add: walk_inv_def)
  then have "wk_diagnostics w' \<noteq> reported" "prefix reported (wk_diagnostics w')"
    using assms(6) by (auto simp: prefix_def)
  with assms(1,2) show ?thesis unfolding visited_ok_def walk_inv_def assms(3-6) by simp
qed

lemma enter_inv:
  assumes "walk_inv components roots reported w" "next_ok components roots w i"
    "bt_get (wk_state w) i = None" "bt_get components i = Some component"
  shows "walk_inv components roots reported (enter i w)"
proof -
  have "i \<notin> set (wk_ordered w @ wk_stack w)" using assms(1,3) by (auto simp: walk_inv_def split: if_splits)
  with assms show ?thesis
    unfolding walk_inv_def by (auto simp: bt_get_insert next_ok_def successively_append_iff fun_eq_iff)
qed

lemma leave_visited:
  assumes inv: "walk_inv components roots reported w" and next_i: "next_ok components roots w i"
    and free: "bt_get (wk_state w) i = None" and there: "bt_get components i = Some component"
    and inner: "visited_ok components roots reported (enter i w) (set (co_requires component)) w1"
  shows "visited_ok components roots reported w {i} (leave i w1)"
proof -
  have i: "i \<notin> set (wk_ordered w1)" "wk_stack w1 = wk_stack w @ [i]"
    using inner by (auto simp: visited_ok_def walk_inv_def)
  have edges: "requires_edge components `` {i} = set (co_requires component)"
    using there by (auto simp: requires_edge_def)
  have w1: "walk_inv components roots reported w1" using inner by (simp add: visited_ok_def)
  have fin: "wk_ordered (leave i w1) = wk_ordered w1 @ [i]" using i(1) by (simp add: leave_def)
  have "walk_inv components roots reported (leave i w1)"
    using w1 inner i edges
    unfolding walk_inv_def fin visited_ok_def
    by (auto simp: requirements_first_snoc bt_get_insert fun_eq_iff successively_append_iff)
  with inner i fin show ?thesis
    unfolding visited_ok_def by (auto simp: prefix_def)
qed

lemma visited_trans:
  assumes "visited_ok components roots reported w is w1" "visited_ok components roots reported w1 js w2"
  shows "visited_ok components roots reported w (is \<union> js) w2"
proof -
  have "wk_diagnostics w2 = reported \<Longrightarrow> wk_diagnostics w1 = reported"
    using assms unfolding visited_ok_def walk_inv_def
    by (metis prefix_order.antisym)
  moreover have "set (wk_ordered w1) \<subseteq> set (wk_ordered w2)"
    using assms(2) by (auto simp: visited_ok_def dest: set_mono_prefix)
  ultimately show ?thesis
    using assms unfolding visited_ok_def by (auto intro: prefix_order.trans)
qed

lemma visit_correct:
  "visit n components rb i w = Some w' \<Longrightarrow> walk_inv components roots reported w \<Longrightarrow> next_ok components roots w i \<Longrightarrow>
     visited_ok components roots reported w {i} w'"
  "visit_all n components rb is w = Some w' \<Longrightarrow> walk_inv components roots reported w \<Longrightarrow>
     (\<And>i. i \<in> set is \<Longrightarrow> next_ok components roots w i) \<Longrightarrow> visited_ok components roots reported w (set is) w'"
proof (induction n components rb i w and n components rb "is" w arbitrary: w' and w' rule: visit_visit_all.induct)
  case (2 n components rb i w)
  note inv = 2(3) and next_i = 2(4)
  show ?case
  proof (cases "bt_get (wk_state w) i")
    case None
    show ?thesis
    proof (cases "bt_get components i")
      case missing: None
      then have "broken components roots" using next_i by (auto simp: broken_def next_ok_def)
      with 2(2) None missing show ?thesis by (auto intro: visited_reported [OF inv])
    next
      case (Some component)
      with 2(2) None obtain w1 where w1: "visit_all n components (Some i) (co_requires component) (enter i w) = Some w1"
        "w' = leave i w1" by auto
      have "next_ok components roots (enter i w) j" if "j \<in> set (co_requires component)" for j
      proof -
        have e: "(i, j) \<in> requires_edge components" using that Some by (auto simp: requires_edge_def)
        with next_i show ?thesis by (auto simp: next_ok_def intro: needed_step)
      qed
      from 2(1) [OF None Some w1(1) enter_inv [OF inv next_i None Some] this] w1(2)
      show ?thesis using leave_visited [OF inv next_i None Some] by blast
    qed
  next
    case (Some s)
    show ?thesis
    proof (cases s)
      case Visiting
      then have on: "i \<in> set (wk_stack w)" using Some inv by (auto simp: walk_inv_def split: if_splits)
      have "(i, last (wk_stack w)) \<in> (requires_edge components)\<^sup>*"
        using inv on by (intro path_reaches) (auto simp: walk_inv_def)
      moreover have "(last (wk_stack w), i) \<in> requires_edge components" using next_i on by (auto simp: next_ok_def)
      ultimately have "broken components roots"
        using next_i by (auto simp: broken_def next_ok_def intro: rtrancl_into_trancl1)
      with 2(2) Some Visiting show ?thesis
        using report_cycle_simps(4) [of i w] by (auto intro: visited_reported [OF inv])
    next
      case Resolved
      then have "i \<in> set (wk_ordered w)" using Some inv by (auto simp: walk_inv_def split: if_splits)
      with 2(2) Some Resolved inv show ?thesis by (simp add: visited_ok_def)
    qed
  qed
next
  case (4 n components rb i rest w)
  then obtain w1 where w1: "visit n components rb i w = Some w1" "visit_all n components rb rest w1 = Some w'"
    by (auto split: option.splits)
  have first: "visited_ok components roots reported w {i} w1" using 4(1) [OF w1(1) 4(4)] 4(5) by simp
  then have "visited_ok components roots reported w1 (set rest) w'"
    using 4(5) by (intro 4(2) [OF w1]) (auto simp: visited_ok_def next_ok_def)
  from visited_trans [OF first this] show ?case by simp
qed (simp_all add: visited_ok_def)

text \<open>The walk from the roots reports something exactly if something needed is missing or needs itself, and otherwise
  finds what is needed, every component after its requirements.\<close>

theorem walk_finds:
  assumes "walk_roots components roots reported = Some w" "finite roots"
  shows "wk_diagnostics w = reported \<longleftrightarrow> \<not> broken components roots"
    and "\<not> broken components roots \<Longrightarrow> distinct (wk_ordered w) \<and> set (wk_ordered w) = needed components roots \<and>
      requirements_first (requires_edge components) (wk_ordered w)"
    and "\<forall>i \<in> set (wk_ordered w). bt_get components i \<noteq> None"
    and "prefix reported (wk_diagnostics w)"
    and "distinct (wk_ordered w)"
proof -
  let ?E = "requires_edge components"
  have "walk_inv components roots reported (walk_start reported)"
    by (simp add: walk_inv_def walk_start_def bt_get_def fun_eq_iff)
  from visit_correct(2) [OF assms(1) [unfolded walk_roots_def] this]
  have v: "visited_ok components roots reported (walk_start reported) (set (sorted_list_of_set roots)) w"
    using assms(2) by (auto simp: next_ok_def needed_def walk_start_def)
  then have inv: "walk_inv components roots reported w" and stack: "wk_stack w = []"
    and roots: "wk_diagnostics w = reported \<Longrightarrow> roots \<subseteq> set (wk_ordered w)"
    using assms(2) by (auto simp: visited_ok_def walk_start_def)
  show dist: "distinct (wk_ordered w)" and there: "\<forall>i \<in> set (wk_ordered w). bt_get components i \<noteq> None"
    and "prefix reported (wk_diagnostics w)" using inv by (auto simp: walk_inv_def)
  have found: "set (wk_ordered w) = needed components roots \<and> requirements_first ?E (wk_ordered w)"
    if q: "wk_diagnostics w = reported"
  proof -
    have first: "requirements_first ?E (wk_ordered w)" and sub: "set (wk_ordered w) \<subseteq> needed components roots"
      using inv q by (auto simp: walk_inv_def)
    have "needed components roots \<subseteq> set (wk_ordered w)"
      using roots [OF q] requirements_first_reach [OF first] by (auto simp: needed_def)
    with first sub show ?thesis by blast
  qed
  have "\<not> broken components roots" if "wk_diagnostics w = reported"
    using found [OF that] requirements_first_no_cycle [OF _ dist] there by (auto simp: broken_def)
  with inv show iff: "wk_diagnostics w = reported \<longleftrightarrow> \<not> broken components roots" by (auto simp: walk_inv_def)
  show "distinct (wk_ordered w) \<and> set (wk_ordered w) = needed components roots \<and>
      requirements_first (requires_edge components) (wk_ordered w)" if "\<not> broken components roots"
    using found iff that dist by blast
qed

section \<open>Requests\<close>

lemma compatibility_diagnostics_Nil:
  "compatibility_diagnostics package request = [] \<longleftrightarrow>
     cq_framework request = cm_framework package \<and>
     cq_package request = \<lparr> pk_id = cm_id package, pk_version = cm_version package \<rparr>"
  by (cases "cq_framework request"; cases "cm_framework package"; cases "cq_package request")
    (auto simp: compatibility_diagnostics_def)

lemma collect_roots_found: "fst (collect_roots cs roots ds) = roots \<union> {c \<in> set cs. valid_identifier c}"
  by (induction cs roots ds rule: collect_roots.induct) auto

lemma collect_roots_diagnostics:
  "set (snd (collect_roots cs roots ds)) = set ds \<union>
     (\<lambda>c. diagnostic InvalidComponent c None None None) ` {c. c \<in> set cs \<and> \<not> valid_identifier c} \<union>
     (\<lambda>c. diagnostic DuplicateComponent c None None None) `
       {c. c \<in> set cs \<and> valid_identifier c \<and> (c \<in> roots \<or> 2 \<le> count_list cs c)}"
proof (induction cs roots ds rule: collect_roots.induct)
  case (2 c cs roots ds)
  note IH1 = 2(1) and IH2 = 2(2) and IH3 = 2(3)
  have *: "2 \<le> Suc (count_list cs c) \<longleftrightarrow> c \<in> set cs" using count_list_0_iff [of cs c] by (cases "count_list cs c") auto
  consider "\<not> valid_identifier c" | "valid_identifier c" "c \<in> roots" | "valid_identifier c" "c \<notin> roots" by blast
  then show ?case
  proof cases
    case 1
    then have "{x. x \<in> set (c # cs) \<and> \<not> valid_identifier x} = insert c {x. x \<in> set cs \<and> \<not> valid_identifier x}"
      and "{x. x \<in> set (c # cs) \<and> valid_identifier x \<and> (x \<in> roots \<or> 2 \<le> count_list (c # cs) x)} =
        {x. x \<in> set cs \<and> valid_identifier x \<and> (x \<in> roots \<or> 2 \<le> count_list cs x)}" by auto
    with 1 IH1 show ?thesis by auto
  next
    case 2
    then have "{x. x \<in> set (c # cs) \<and> \<not> valid_identifier x} = {x. x \<in> set cs \<and> \<not> valid_identifier x}"
      and "{x. x \<in> set (c # cs) \<and> valid_identifier x \<and> (x \<in> roots \<or> 2 \<le> count_list (c # cs) x)} =
        insert c {x. x \<in> set cs \<and> valid_identifier x \<and> (x \<in> roots \<or> 2 \<le> count_list cs x)}" by auto
    with 2 IH2 show ?thesis by auto
  next
    case 3
    then have "{x. x \<in> set (c # cs) \<and> \<not> valid_identifier x} = {x. x \<in> set cs \<and> \<not> valid_identifier x}"
      and "{x. x \<in> set (c # cs) \<and> valid_identifier x \<and> (x \<in> roots \<or> 2 \<le> count_list (c # cs) x)} =
        {x. x \<in> set cs \<and> valid_identifier x \<and> (x \<in> insert c roots \<or> 2 \<le> count_list cs x)}" using * by auto
    with 3 IH3 show ?thesis by auto
  qed
qed simp

lemma collect_roots_Nil:
  "snd (collect_roots cs {} ds) = [] \<longleftrightarrow> ds = [] \<and> (\<forall>c \<in> set cs. valid_identifier c) \<and> distinct cs"
proof -
  have "distinct cs \<longleftrightarrow> (\<forall>c \<in> set cs. \<not> 2 \<le> count_list cs c)"
  proof (induction cs)
    case (Cons c cs)
    then show ?case using count_list_0_iff [of cs c] by (cases "count_list cs c") (auto simp: not_le)
  qed simp
  then show ?thesis
    unfolding set_empty [symmetric] collect_roots_diagnostics by auto
qed

section \<open>Modules and their owners\<close>

lemma own_modules_ok: "bt_ok owners \<Longrightarrow> bt_ok (own_modules i ms owners)"
  by (induction i ms owners rule: own_modules.induct) (auto intro: bt_insert_ok)

lemma own_modules_get:
  "bt_get (own_modules i ms owners) m =
     (if count_list ms m = 0 then bt_get owners m
      else Some ((case bt_get owners m of None \<Rightarrow> [] | Some ids \<Rightarrow> ids) @ replicate (count_list ms m) i))"
  by (induction i ms owners rule: own_modules.induct)
    (auto simp: bt_get_insert replicate_app_Cons_same split: option.splits)

definition owner_list :: "(string, component_manifest) btree \<Rightarrow> string list \<Rightarrow> string \<Rightarrow> string list" where
  "owner_list components ordered m =
     concat (map (\<lambda>i. replicate (count_list (co_modules (component_at components i)) m) i) ordered)"

lemma module_owners_ok: "bt_ok (module_owners components ordered)"
proof -
  have "bt_ok owners \<Longrightarrow> bt_ok (fold (\<lambda>i. own_modules i (co_modules (component_at components i))) ordered owners)" for owners
    by (induction ordered arbitrary: owners) (auto intro: own_modules_ok)
  then show ?thesis by (simp add: module_owners_def bt_ok_def)
qed

lemma module_owners_get:
  "bt_get (module_owners components ordered) m =
     (if owner_list components ordered m = [] then None else Some (owner_list components ordered m))"
proof -
  have "bt_get (fold (\<lambda>i. own_modules i (co_modules (component_at components i))) ordered owners) m =
      (if owner_list components ordered m = [] then bt_get owners m
       else Some ((case bt_get owners m of None \<Rightarrow> [] | Some ids \<Rightarrow> ids) @ owner_list components ordered m))" for owners
    by (induction ordered arbitrary: owners) (auto simp: own_modules_get owner_list_def split: option.splits)
  then show ?thesis by (simp add: module_owners_def bt_get_def)
qed

lemma owner_list_length:
  "length (owner_list components ordered m) =
     count_list (concat (map (\<lambda>i. co_modules (component_at components i)) ordered)) m"
  by (induction ordered) (auto simp: owner_list_def)

lemma distinct_count: "distinct xs \<longleftrightarrow> (\<forall>x. count_list xs x \<le> Suc 0)"
proof (induction xs)
  case (Cons y xs)
  have "(\<forall>x. count_list (y # xs) x \<le> Suc 0) \<longleftrightarrow> count_list xs y = 0 \<and> (\<forall>x. count_list xs x \<le> Suc 0)"
  proof
    assume a: "\<forall>x. count_list (y # xs) x \<le> Suc 0"
    have "count_list xs x \<le> Suc 0" for x using a [rule_format, of x] by (simp split: if_splits)
    with a [rule_format, of y] show "count_list xs y = 0 \<and> (\<forall>x. count_list xs x \<le> Suc 0)" by simp
  qed simp
  with Cons show ?case using count_list_0_iff [of xs y] by simp
qed simp

lemma owner_diagnostics_Nil:
  "owner_diagnostics (module_owners components ordered) = [] \<longleftrightarrow>
     distinct (concat (map (\<lambda>i. co_modules (component_at components i)) ordered))"
proof -
  have "owner_diagnostics (module_owners components ordered) = [] \<longleftrightarrow>
      (\<forall>m ids. (m, ids) \<in> set (module_owners components ordered) \<longrightarrow> length ids \<le> Suc 0)"
    by (fastforce simp: owner_diagnostics_def filter_empty_conv not_less)
  also have "\<dots> \<longleftrightarrow> (\<forall>m. length (owner_list components ordered m) \<le> Suc 0)"
    by (auto simp: bt.entries_get [OF module_owners_ok] module_owners_get) (metis le0 list.size(3))
  finally show ?thesis unfolding owner_list_length distinct_count .
qed

text \<open>The modules of the selected components.\<close>

definition modules_of :: "(string, component_manifest) btree \<Rightarrow> string set \<Rightarrow> string set" where
  "modules_of components selected = (\<Union>i \<in> selected. set (co_modules (component_at components i)))"

lemma modules_of_finite [simp]: "finite selected \<Longrightarrow> finite (modules_of components selected)"
  by (simp add: modules_of_def)

lemma selected_modules_sorted:
  "selected_modules package components ordered =
     map (\<lambda>m. \<lparr> im_id = m, im_version = cm_version package \<rparr>) (sorted_list_of_set (modules_of components (set ordered)))"
proof -
  have "set (map fst (module_owners components ordered)) = modules_of components (set ordered)"
  proof -
    have "m \<in> set (map fst (module_owners components ordered)) \<longleftrightarrow> owner_list components ordered m \<noteq> []" for m
      using bt.entries_get [OF module_owners_ok [of components ordered]]
      by (force simp: module_owners_get image_iff)
    also have "owner_list components ordered m \<noteq> [] \<longleftrightarrow> m \<in> modules_of components (set ordered)" for m
      by (auto simp: owner_list_def modules_of_def count_list_0_iff)
    finally show ?thesis by blast
  qed
  moreover have "sorted_wrt (<) (map fst (module_owners components ordered))"
    using module_owners_ok [of components ordered] by (simp add: bt_ok_def)
  ultimately have "map fst (module_owners components ordered) = sorted_list_of_set (modules_of components (set ordered))"
    by (metis sorted_list_of_set.idem_if_sorted_distinct strict_sorted_iff)
  then show ?thesis
    unfolding selected_modules_def by (metis (no_types, lifting) case_prod_beta' comp_apply list.map_comp map_eq_conv)
qed

section \<open>Recorded state\<close>

lemma record_modules_Cons:
  "fst (record_modules (m # rest) actual) = fst (record_modules rest (bt_insert (im_id m) (im_version m) actual))"
  "snd (record_modules (m # rest) actual) =
     (if bt_get actual (im_id m) \<noteq> None then [diagnostic DuplicateRecordedModule (im_id m) None None None] else []) @
     snd (record_modules rest (bt_insert (im_id m) (im_version m) actual))"
  by (simp_all split: prod.split)

lemma record_modules_get:
  "bt_get (fst (record_modules recorded actual)) =
     bt_get actual ++ map_of (rev (map (\<lambda>m. (im_id m, im_version m)) recorded))"
proof (induction recorded arbitrary: actual)
  case (Cons m rest)
  show ?case unfolding record_modules_Cons Cons bt_get_insert by (auto simp: map_add_def fun_eq_iff split: option.split)
qed simp

lemma record_modules_ok: "bt_ok actual \<Longrightarrow> bt_ok (fst (record_modules recorded actual))"
  by (induction recorded arbitrary: actual) (auto simp: record_modules_Cons bt_insert_ok simp del: record_modules.simps(2))

lemma record_modules_Nil:
  "snd (record_modules recorded actual) = [] \<longleftrightarrow>
     distinct (map im_id recorded) \<and> (\<forall>m \<in> set recorded. bt_get actual (im_id m) = None)"
proof (induction recorded arbitrary: actual)
  case (Cons m rest)
  show ?case unfolding record_modules_Cons append_is_Nil_conv Cons by (auto simp: bt_get_insert image_iff)
qed simp

lemma expected_modules_get:
  "bt_get (expected_modules modules) = map_of (rev (map (\<lambda>m. (im_id m, im_version m)) modules))"
proof -
  have "bt_get (fold (\<lambda>m. bt_insert (im_id m) (im_version m)) modules t) =
      bt_get t ++ map_of (rev (map (\<lambda>m. (im_id m, im_version m)) modules))" for t
    by (induction modules arbitrary: t) (auto simp: bt_get_insert map_add_def fun_eq_iff split: option.split)
  from this [of "[]"] show ?thesis by (simp add: expected_modules_def bt_get_def fun_eq_iff map_add_def split: option.split)
qed

lemma expected_modules_ok: "bt_ok (expected_modules modules)"
proof -
  have "bt_ok t \<Longrightarrow> bt_ok (fold (\<lambda>m. bt_insert (im_id m) (im_version m)) modules t)" for t
    by (induction modules arbitrary: t) (auto intro: bt_insert_ok)
  then show ?thesis by (simp add: expected_modules_def bt_ok_def)
qed

lemma expected_unexpected_Nil:
  assumes "bt_ok expected" "bt_ok actual"
  shows "concat (map (expected_diagnostics actual) expected) = [] \<and> concat (map (unexpected_diagnostics expected) actual) = []
    \<longleftrightarrow> bt_get actual = bt_get expected"
proof -
  have expected_iff: "expected_diagnostics actual (k, v) = [] \<longleftrightarrow> bt_get actual k = Some v" for k v
    by (simp add: expected_diagnostics_def split: option.split)
  have unexpected_iff: "unexpected_diagnostics expected (k, v) = [] \<longleftrightarrow> bt_get expected k \<noteq> None" for k v
    by (simp add: unexpected_diagnostics_def)
  have each: "concat (map f t) = [] \<longleftrightarrow> (\<forall>k v. bt_get t k = Some v \<longrightarrow> f (k, v) = [])"
    if "bt_ok t" for t :: "(string, string) btree" and f :: "string \<times> string \<Rightarrow> composition_diagnostic list"
    unfolding concat_eq_Nil_conv set_map ball_simps split_paired_Ball_Sigma
    by (simp add: Ball_def bt.entries_get [OF that])
  have "(\<forall>k v. bt_get expected k = Some v \<longrightarrow> bt_get actual k = Some v) \<and>
      (\<forall>k v. bt_get actual k = Some v \<longrightarrow> bt_get expected k \<noteq> None) \<longleftrightarrow> bt_get actual = bt_get expected"
  proof
    assume a: "(\<forall>k v. bt_get expected k = Some v \<longrightarrow> bt_get actual k = Some v) \<and>
      (\<forall>k v. bt_get actual k = Some v \<longrightarrow> bt_get expected k \<noteq> None)"
    show "bt_get actual = bt_get expected"
    proof
      fix k
      show "bt_get actual k = bt_get expected k"
        using a by (cases "bt_get expected k"; cases "bt_get actual k") force+
    qed
  qed simp
  then show ?thesis unfolding each [OF assms(1)] each [OF assms(2)] expected_iff unexpected_iff by blast
qed

lemma module_maps:
  fixes xs ys :: "installed_module list"
  assumes "distinct (map im_id xs)" "distinct (map im_id ys)"
  shows "map_of (rev (map (\<lambda>m. (im_id m, im_version m)) xs)) = map_of (rev (map (\<lambda>m. (im_id m, im_version m)) ys)) \<longleftrightarrow>
    set xs = set ys"
proof -
  let ?f = "\<lambda>m :: installed_module. (im_id m, im_version m)"
  have inj: "inj ?f" by (rule injI) simp
  have d: "distinct (map fst (rev (map ?f zs)))" if "distinct (map im_id zs)" for zs
    using that by (simp add: rev_map [symmetric] comp_def)
  have "map_of (rev (map ?f xs)) = map_of (rev (map ?f ys)) \<longleftrightarrow> set (rev (map ?f xs)) = set (rev (map ?f ys))"
    using map_of_inject_set [OF d [OF assms(1)] d [OF assms(2)]] .
  also have "\<dots> \<longleftrightarrow> set xs = set ys" using inj_image_eq_iff [OF inj] by auto
  finally show ?thesis .
qed

lemma recorded_module_diagnostics_Nil:
  assumes "distinct (map im_id modules)"
  shows "recorded_module_diagnostics modules recorded = [] \<longleftrightarrow> distinct (map im_id recorded) \<and> set recorded = set modules"
proof -
  obtain actual dups where r: "record_modules recorded [] = (actual, dups)" by fastforce
  have dups: "dups = [] \<longleftrightarrow> distinct (map im_id recorded)"
    using record_modules_Nil [of recorded "[]"] r by (simp add: bt_get_def)
  have ok: "bt_ok actual" using record_modules_ok [of "[]" recorded] r by (simp add: bt_ok_def)
  have get: "bt_get actual = map_of (rev (map (\<lambda>m. (im_id m, im_version m)) recorded))"
    using record_modules_get [of recorded "[]"] r by (simp add: bt_get_def fun_eq_iff map_add_def split: option.split)
  have "recorded_module_diagnostics modules recorded = [] \<longleftrightarrow> dups = [] \<and>
      concat (map (expected_diagnostics actual) (expected_modules modules)) = [] \<and>
      concat (map (unexpected_diagnostics (expected_modules modules)) actual) = []"
    unfolding recorded_module_diagnostics_def Let_def r prod.case append_is_Nil_conv by blast
  also have "\<dots> \<longleftrightarrow> distinct (map im_id recorded) \<and> bt_get actual = bt_get (expected_modules modules)"
    unfolding expected_unexpected_Nil [OF expected_modules_ok ok] dups ..
  also have "\<dots> \<longleftrightarrow> distinct (map im_id recorded) \<and> set recorded = set modules"
    using module_maps [OF _ assms, of recorded] unfolding get expected_modules_get by blast
  finally show ?thesis .
qed

section \<open>Admissible compositions\<close>

text \<open>What a component of the selection must satisfy, and what two of them.\<close>

definition capabilities_of :: "(string, component_manifest) btree \<Rightarrow> string set \<Rightarrow> application_capability set" where
  "capabilities_of components selected = (\<Union>i \<in> selected. set (co_provides_capabilities (component_at components i)))"

definition component_fits ::
    "component_package_manifest \<Rightarrow> (string, component_manifest) btree \<Rightarrow> string set \<Rightarrow> component_manifest \<Rightarrow> bool" where
  "component_fits package components selected c \<longleftrightarrow>
     co_version c = Some (cm_version package) \<and>
     (\<forall>optional \<in> set (co_optional_dependencies c). bt_get components optional \<noteq> None) \<and>
     set (co_conflicts c) \<inter> selected = {} \<and>
     set (co_modules c) \<subseteq> set (cm_modules package) \<and> distinct (co_modules c) \<and>
     set (co_requires_capabilities c) \<subseteq> capabilities_of components selected"

definition selection_fits ::
    "component_package_manifest \<Rightarrow> (string, component_manifest) btree \<Rightarrow> string set \<Rightarrow> bool" where
  "selection_fits package components selected \<longleftrightarrow>
     (\<forall>i \<in> selected. component_fits package components selected (component_at components i)) \<and>
     (\<forall>i \<in> selected. \<forall>j \<in> selected. i \<noteq> j \<longrightarrow>
        set (co_modules (component_at components i)) \<inter> set (co_modules (component_at components j)) = {})"

definition modules_at :: "component_package_manifest \<Rightarrow> string set \<Rightarrow> installed_module set" where
  "modules_at package ms = (\<lambda>m. \<lparr> im_id = m, im_version = cm_version package \<rparr>) ` ms"

definition recorded_fits ::
    "component_package_manifest \<Rightarrow> (string, component_manifest) btree \<Rightarrow> string set \<Rightarrow> composition_request \<Rightarrow> bool" where
  "recorded_fits package components selected request \<longleftrightarrow>
     (\<forall>recorded. cq_recorded_modules request = Some recorded \<longrightarrow>
        distinct (map im_id recorded) \<and> set recorded = modules_at package (modules_of components selected)) \<and>
     (\<forall>recorded. cq_recorded_capabilities request = Some recorded \<longrightarrow> recorded = capabilities_of components selected)"

text \<open>The request names the package and distinct components, nothing needed is missing or needs itself, and what is
  needed fits together and fits what the application has recorded.\<close>

definition admissible ::
    "component_package_manifest \<Rightarrow> (string, component_manifest) btree \<Rightarrow> composition_request \<Rightarrow> bool" where
  "admissible package components request \<longleftrightarrow>
     (let roots = set (cq_components request); selected = needed components roots
      in cq_framework request = cm_framework package \<and>
         cq_package request = \<lparr> pk_id = cm_id package, pk_version = cm_version package \<rparr> \<and>
         (\<forall>c \<in> roots. valid_identifier c) \<and> distinct (cq_components request) \<and>
         \<not> broken components roots \<and>
         selection_fits package components selected \<and> recorded_fits package components selected request)"

text \<open>The components of a package whose manifests were validated (\<^const>\<open>validate_component\<close>).\<close>

definition validated_components ::
    "component_package_manifest \<Rightarrow> (string, component_manifest) btree \<Rightarrow> bool" where
  "validated_components package components \<longleftrightarrow>
     (\<forall>(i, c) \<in> set components. validate_component c (Some package) = Inr () \<and> co_id c = i)"

lemma validated_version:
  assumes "validated_components package components" "bt_get components i \<noteq> None"
  shows "co_version (component_at components i) \<noteq> None"
proof -
  obtain c where c: "bt_get components i = Some c" using assms(2) by blast
  then have "(i, c) \<in> set components" by (simp add: bt_get_def map_of_SomeD)
  with assms(1) have "validate_component_version c (Some package) = Inr ()"
    unfolding validated_components_def validate_component_def by auto
  with c show ?thesis by (auto simp: validate_component_version_def component_at_def split: option.splits)
qed

lemma component_diagnostics_Nil:
  assumes "co_version (component_at components i) \<noteq> None"
  shows "component_diagnostics package components selected i = [] \<and> distinct (co_modules (component_at components i)) \<and>
      capability_diagnostics components (capabilities_of components selected) i = []
    \<longleftrightarrow> component_fits package components selected (component_at components i)"
  using assms
  by (auto simp: component_diagnostics_def Let_def version_diagnostics_def optional_diagnostics_def
      conflict_diagnostics_def module_diagnostics_def component_fits_def capability_diagnostics_def filter_empty_conv)

lemma distinct_concat_modules:
  "distinct is \<Longrightarrow> distinct (concat (map f is)) \<longleftrightarrow>
     (\<forall>i \<in> set is. distinct (f i)) \<and> (\<forall>i \<in> set is. \<forall>j \<in> set is. i \<noteq> j \<longrightarrow> set (f i) \<inter> set (f j) = {})"
proof (induction "is")
  case (Cons a "is")
  have "distinct (concat (map f (a # is))) \<longleftrightarrow>
      distinct (f a) \<and> distinct (concat (map f is)) \<and> (\<forall>j \<in> set is. set (f a) \<inter> set (f j) = {})" by auto
  also have "\<dots> \<longleftrightarrow> distinct (f a) \<and> ((\<forall>i \<in> set is. distinct (f i)) \<and>
      (\<forall>i \<in> set is. \<forall>j \<in> set is. i \<noteq> j \<longrightarrow> set (f i) \<inter> set (f j) = {})) \<and>
      (\<forall>j \<in> set is. a \<noteq> j \<longrightarrow> set (f a) \<inter> set (f j) = {})"
    using Cons by (metis distinct.simps(2))
  finally show ?case by (simp add: Int_commute) blast
qed simp

lemma selection_diagnostics_Nil:
  assumes "distinct ordered" "\<And>i. i \<in> set ordered \<Longrightarrow> co_version (component_at components i) \<noteq> None"
  shows "selection_diagnostics package components ordered = [] \<longleftrightarrow> selection_fits package components (set ordered)"
proof -
  have provided: "provided_by components ordered = capabilities_of components (set ordered)"
    by (simp add: provided_by_def capabilities_of_def)
  have "selection_diagnostics package components ordered = [] \<longleftrightarrow>
      (\<forall>i \<in> set ordered. component_diagnostics package components (set ordered) i = []) \<and>
      (\<forall>i \<in> set ordered. capability_diagnostics components (capabilities_of components (set ordered)) i = []) \<and>
      distinct (concat (map (\<lambda>i. co_modules (component_at components i)) ordered))"
    unfolding selection_diagnostics_def provided append_is_Nil_conv owner_diagnostics_Nil by simp
  also have "\<dots> \<longleftrightarrow> selection_fits package components (set ordered)"
    unfolding distinct_concat_modules [OF assms(1)] selection_fits_def
    using component_diagnostics_Nil [OF assms(2), of _ package "set ordered"] by blast
  finally show ?thesis .
qed

lemma selected_modules_set:
  "set (selected_modules package components ordered) = modules_at package (modules_of components (set ordered))"
  "distinct (map im_id (selected_modules package components ordered))"
  by (simp_all add: selected_modules_sorted modules_at_def comp_def)

lemma recorded_Nil:
  "validate_recorded_state (selected_modules package components ordered) (provided_by components ordered) request = []
    \<longleftrightarrow> recorded_fits package components (set ordered) request"
proof -
  have "provided_by components ordered = capabilities_of components (set ordered)"
    by (simp add: provided_by_def capabilities_of_def)
  then show ?thesis
    unfolding validate_recorded_state_def recorded_fits_def
    by (auto simp: recorded_module_diagnostics_Nil [OF selected_modules_set(2)] selected_modules_set(1) split: option.splits)
qed

section \<open>Diagnostics in order\<close>

lemma diagnostic_key_inj: "inj diagnostic_key"
proof (rule injI)
  fix x y assume a: "diagnostic_key x = diagnostic_key y"
  then have "diagnostic_rank (di_kind x) = diagnostic_rank (di_kind y)" by (simp add: diagnostic_key_def)
  then have "di_kind x = di_kind y" by (cases "di_kind x"; cases "di_kind y") simp_all
  with a show "x = y" by (simp add: diagnostic_key_def)
qed

lemma distinct_remdups_adj_sorted: "sorted xs \<Longrightarrow> distinct (remdups_adj (xs :: 'a::linorder list))"
  by (induction xs rule: remdups_adj.induct) auto

lemma from_diagnostics_keys: "map diagnostic_key (from_diagnostics ds) = sorted_list_of_set (diagnostic_key ` set ds)"
proof -
  have "map diagnostic_key (from_diagnostics ds) = remdups_adj (map diagnostic_key (sort_key diagnostic_key ds))"
    unfolding from_diagnostics_def using remdups_adj_map_injective [OF diagnostic_key_inj, of "sort_key diagnostic_key ds"]
    by simp
  moreover have "map diagnostic_key (sort_key diagnostic_key ds) = sort (map diagnostic_key ds)"
    by (rule properties_for_sort [symmetric]) (simp_all only: mset_map mset_sort sorted_sort_key)
  moreover have "remdups_adj (sort xs) = sorted_list_of_set (set xs)" for xs :: "(nat \<times> string \<times> string option \<times> string option \<times> string option) list"
    by (rule sorted_distinct_set_unique) (simp_all add: distinct_remdups_adj_sorted)
  ultimately show ?thesis by simp
qed


lemma from_diagnostics_cong: "set ds = set ds' \<Longrightarrow> from_diagnostics ds = from_diagnostics ds'"
  using from_diagnostics_keys [of ds] from_diagnostics_keys [of ds'] inj_map_eq_map [OF diagnostic_key_inj] by metis

lemma from_diagnostics_sorted: "sorted_wrt (<) (map diagnostic_key (from_diagnostics ds))"
  unfolding from_diagnostics_keys by (simp add: strict_sorted_iff)

lemma from_diagnostics_set: "set (from_diagnostics ds) = set ds"
  by (simp add: from_diagnostics_def)

section \<open>Resolution\<close>

text \<open>Earlier diagnostics do not influence the walk.\<close>

definition rebase :: "composition_diagnostic list \<Rightarrow> walk \<Rightarrow> walk" where
  "rebase ds w = w\<lparr> wk_diagnostics := ds @ wk_diagnostics w \<rparr>"

lemma rebase_simps:
  "wk_state (rebase ds w) = wk_state w" "wk_stack (rebase ds w) = wk_stack w" "wk_ordered (rebase ds w) = wk_ordered w"
  "wk_diagnostics (rebase ds w) = ds @ wk_diagnostics w"
  "report d (rebase ds w) = rebase ds (report d w)" "report_cycle i (rebase ds w) = rebase ds (report_cycle i w)"
  "enter i (rebase ds w) = rebase ds (enter i w)" "leave i (rebase ds w) = rebase ds (leave i w)"
  by (simp_all add: rebase_def report_def report_cycle_def enter_def leave_def Let_def)

lemma visit_rebase:
  "visit n components rb i (rebase ds w) = map_option (rebase ds) (visit n components rb i w)"
  "visit_all n components rb is (rebase ds w) = map_option (rebase ds) (visit_all n components rb is w)"
proof (induction n components rb i w and n components rb "is" w rule: visit_visit_all.induct)
  case (2 n components rb i w)
  then show ?case
    by (auto simp: rebase_simps option.map_comp comp_def split: option.split visit_state.split)
qed (auto split: option.split)

lemma walk_roots_rebase:
  "walk_roots components roots ds = map_option (rebase ds) (walk_roots components roots [])"
proof -
  have "walk_start ds = rebase ds (walk_start [])" by (simp add: walk_start_def rebase_def)
  then show ?thesis by (simp add: walk_roots_def visit_rebase)
qed

text \<open>Everything that is reported, and the result, given the order that the walk found.\<close>

definition all_diagnostics ::
    "component_package_manifest \<Rightarrow> (string, component_manifest) btree \<Rightarrow> composition_request \<Rightarrow> walk \<Rightarrow> composition_diagnostic list" where
  "all_diagnostics package components request w =
     snd (collect_roots (cq_components request) {} (compatibility_diagnostics package request)) @ wk_diagnostics w @
     selection_diagnostics package components (wk_ordered w) @
     validate_recorded_state (selected_modules package components (wk_ordered w)) (provided_by components (wk_ordered w)) request"

definition composition_of ::
    "component_package_manifest \<Rightarrow> (string, component_manifest) btree \<Rightarrow> string list \<Rightarrow> resolved_component list \<Rightarrow> resolved_composition" where
  "composition_of package components ordered resolved =
     \<lparr> rs_schema = COMPOSITION_GRAPH_SCHEMA, rs_framework = cm_framework package,
       rs_package = \<lparr> pk_id = cm_id package, pk_version = cm_version package \<rparr>,
       rs_components = resolved, rs_modules = selected_modules package components ordered,
       rs_capabilities = provided_by components ordered \<rparr>"

definition valid_roots :: "composition_request \<Rightarrow> string set" where
  "valid_roots request = {c \<in> set (cq_components request). valid_identifier c}"

lemma valid_roots_finite [simp]: "finite (valid_roots request)"
  by (simp add: valid_roots_def)

lemma resolve_cases:
  obtains w where "walk_roots components (valid_roots request) [] = Some w"
    "composition_resolve package components request =
       (if all_diagnostics package components request w \<noteq> []
        then Some (Inl (from_diagnostics (all_diagnostics package components request w)))
        else map_option (\<lambda>resolved. Inr (composition_of package components (wk_ordered w) resolved))
          (those (map (resolve_component components) (wk_ordered w))))"
proof -
  obtain roots checked where c: "collect_roots (cq_components request) {} (compatibility_diagnostics package request) = (roots, checked)"
    by fastforce
  have roots: "roots = valid_roots request"
    using collect_roots_found [of "cq_components request" "{}" "compatibility_diagnostics package request"] c
    by (simp add: valid_roots_def)
  obtain w where w: "walk_roots components roots [] = Some w" using walk_roots_ends by blast
  then have w': "walk_roots components roots checked = Some (rebase checked w)" by (simp add: walk_roots_rebase [of _ _ checked])
  show ?thesis
    by (rule that [of w])
      (use w in \<open>simp_all add: composition_resolve_def rebase_simps c w' Let_def all_diagnostics_def composition_of_def flip: roots\<close>)
qed

lemma resolve_component_id:
  "resolve_component components i = Some r \<longleftrightarrow>
     (let c = component_at components i in
      \<exists>version. co_version c = Some version \<and> r = \<lparr> rc_id = i, rc_version = version, rc_required_dependencies = co_requires c,
         rc_optional_dependencies = co_optional_dependencies c, rc_modules = co_modules c,
         rc_provides_capabilities = co_provides_capabilities c, rc_requires_capabilities = co_requires_capabilities c,
         rc_installation = co_installation c \<rparr>)"
  by (auto simp: resolve_component_def Let_def)

lemma those_Some: "those xs = Some ys \<longleftrightarrow> xs = map Some ys"
  by (induction xs arbitrary: ys) (auto split: option.splits simp: Cons_eq_map_conv)

lemma those_total: "(\<And>x. x \<in> set xs \<Longrightarrow> f x \<noteq> None) \<Longrightarrow> \<exists>ys. those (map f xs) = Some ys"
  by (induction xs) (auto split: option.split)

lemma all_diagnostics_Nil:
  assumes "validated_components package components" "walk_roots components (valid_roots request) [] = Some w"
  shows "all_diagnostics package components request w = [] \<longleftrightarrow> admissible package components request"
proof (cases "\<forall>c \<in> set (cq_components request). valid_identifier c")
  case True
  then have roots: "valid_roots request = set (cq_components request)" by (auto simp: valid_roots_def)
  note finds = walk_finds [OF assms(2) valid_roots_finite]
  have versions: "co_version (component_at components i) \<noteq> None" if "i \<in> set (wk_ordered w)" for i
    using that finds(3) validated_version [OF assms(1)] by blast
  have sel: "selection_diagnostics package components (wk_ordered w) = [] \<longleftrightarrow> selection_fits package components (set (wk_ordered w))"
    by (rule selection_diagnostics_Nil [OF finds(5)]) (rule versions)
  show ?thesis
    unfolding all_diagnostics_def append_is_Nil_conv collect_roots_Nil compatibility_diagnostics_Nil recorded_Nil
      finds(1) sel admissible_def Let_def
    using finds(2) unfolding roots by metis
qed (auto simp: all_diagnostics_def collect_roots_Nil admissible_def Let_def)

text \<open>The composition of a package whose components were validated.\<close>

lemma resolve_validated:
  assumes "validated_components package components"
  obtains w resolved where
    "walk_roots components (valid_roots request) [] = Some w"
    "map (resolve_component components) (wk_ordered w) = map Some resolved"
    "composition_resolve package components request =
       Some (if admissible package components request
         then Inr (composition_of package components (wk_ordered w) resolved)
         else Inl (from_diagnostics (all_diagnostics package components request w)))"
proof -
  obtain w where w: "walk_roots components (valid_roots request) [] = Some w" and r: "composition_resolve package components request =
       (if all_diagnostics package components request w \<noteq> []
        then Some (Inl (from_diagnostics (all_diagnostics package components request w)))
        else map_option (\<lambda>resolved. Inr (composition_of package components (wk_ordered w) resolved))
          (those (map (resolve_component components) (wk_ordered w))))"
    by (rule resolve_cases)
  have "resolve_component components i \<noteq> None" if "i \<in> set (wk_ordered w)" for i
    using that walk_finds(3) [OF w valid_roots_finite] validated_version [OF assms]
    by (auto simp: resolve_component_def Let_def)
  then obtain resolved where those: "those (map (resolve_component components) (wk_ordered w)) = Some resolved"
    using those_total by blast
  show ?thesis
    by (rule that [OF w those [unfolded those_Some]]) (simp add: r those all_diagnostics_Nil [OF assms w])
qed


lemma composition_resolution_total:
  assumes "validated_components package components"
  shows "\<exists>r. composition_resolve package components request = Some r"
proof -
  obtain w resolved where "composition_resolve package components request = Some (if admissible package components request
         then Inr (composition_of package components (wk_ordered w) resolved)
         else Inl (from_diagnostics (all_diagnostics package components request w)))"
    by (rule resolve_validated [OF assms])
  then show ?thesis by (rule exI)
qed

text \<open>Resolving a composition always returns: whatever the requirements are, circular ones and missing components
  included, the recursion ends and nothing panics, provided that the manifests of the package were validated.\<close>
theorem composition_resolution_returns:
  assumes "validated_components package components"
  shows "\<exists>r. composition_resolve package components request = Some r"
  by (rule composition_resolution_total [OF assms])

text \<open>C34. A composition resolves exactly if it is admissible: the request names the framework and the package and
  distinct valid components; nothing that they need, directly or through others, is missing or needs itself; the needed
  components have the version of the package, their optional dependencies exist, they do not conflict, they own
  different modules of the package and provide every capability they require; and what the application has recorded
  are these modules and capabilities.\<close>
theorem composition_resolves_exactly:
  assumes "validated_components package components"
  shows "(\<exists>graph. composition_resolve package components request = Some (Inr graph)) \<longleftrightarrow> admissible package components request"
proof -
  obtain w resolved where "composition_resolve package components request = Some (if admissible package components request
         then Inr (composition_of package components (wk_ordered w) resolved)
         else Inl (from_diagnostics (all_diagnostics package components request w)))"
    by (rule resolve_validated [OF assms])
  then show ?thesis by (cases "admissible package components request") simp_all
qed

lemma resolved_ids:
  assumes "map (resolve_component components) is = map Some rs"
  shows "map rc_id rs = is"
  using assms
proof (induction "is" arbitrary: rs)
  case (Cons i "is")
  then obtain r rs' where "rs = r # rs'" "resolve_component components i = Some r"
    "map (resolve_component components) is = map Some rs'" by (auto simp: Cons_eq_map_conv)
  with Cons.IH show ?case by (auto simp: resolve_component_id Let_def)
qed simp

text \<open>C35. A resolved composition holds each needed component once, after every component that it requires, at the
  version of the package, and its modules in increasing order, each at that version.\<close>
theorem resolved_composition_ordered:
  assumes "validated_components package components" "composition_resolve package components request = Some (Inr graph)"
  shows "distinct (map rc_id (rs_components graph)) \<and>
    set (map rc_id (rs_components graph)) = needed components (set (cq_components request)) \<and>
    (\<forall>i < length (rs_components graph). \<forall>d \<in> set (rc_required_dependencies (rs_components graph ! i)).
       \<exists>j < i. rc_id (rs_components graph ! j) = d) \<and>
    (\<forall>c \<in> set (rs_components graph). rc_version c = cm_version package) \<and>
    rs_modules graph = map (\<lambda>m. \<lparr> im_id = m, im_version = cm_version package \<rparr>)
      (sorted_list_of_set (\<Union>c \<in> set (rs_components graph). set (rc_modules c)))"
proof -
  obtain w resolved where w: "walk_roots components (valid_roots request) [] = Some w"
    and res: "map (resolve_component components) (wk_ordered w) = map Some resolved"
    and r: "composition_resolve package components request = Some (if admissible package components request
         then Inr (composition_of package components (wk_ordered w) resolved)
         else Inl (from_diagnostics (all_diagnostics package components request w)))"
    by (rule resolve_validated [OF assms(1)])
  from r assms(2) have adm: "admissible package components request"
    and graph: "graph = composition_of package components (wk_ordered w) resolved" by (auto split: if_splits)
  have roots: "valid_roots request = set (cq_components request)" using adm by (auto simp: admissible_def valid_roots_def Let_def)
  have ids: "map rc_id resolved = wk_ordered w" by (rule resolved_ids [OF res])
  have found: "distinct (wk_ordered w)" "set (wk_ordered w) = needed components (set (cq_components request))"
    "requirements_first (requires_edge components) (wk_ordered w)"
    using walk_finds(2) [OF w valid_roots_finite] adm unfolding roots admissible_def Let_def by blast+
  have len: "length resolved = length (wk_ordered w)" using ids by (metis length_map)
  have at: "resolve_component components (wk_ordered w ! i) = Some (resolved ! i)" if "i < length resolved" for i
    using arg_cong [OF res, of "\<lambda>xs. xs ! i"] that len by simp
  have there: "bt_get components i \<noteq> None" if "i \<in> set (wk_ordered w)" for i
    using that walk_finds(3) [OF w valid_roots_finite] by blast
  have comp: "\<exists>i \<in> set (wk_ordered w). resolve_component components i = Some c" if "c \<in> set resolved" for c
    using that at len by (metis in_set_conv_nth)
  have first: "\<exists>j < i. rc_id (resolved ! j) = d"
    if i: "i < length resolved" and d: "d \<in> set (rc_required_dependencies (resolved ! i))" for i d
  proof -
    have "(wk_ordered w ! i, d) \<in> requires_edge components"
      using at [OF i] d there [of "wk_ordered w ! i"] i len
      by (auto simp: resolve_component_id requires_edge_def component_at_def Let_def)
    with found(3) i len have "d \<in> set (take i (wk_ordered w))" unfolding requirements_first_def by auto
    then obtain j where "j < i" "wk_ordered w ! j = d" by (auto simp: in_set_conv_nth)
    with ids i show ?thesis by (metis (no_types) nth_map order.strict_trans)
  qed
  have version: "rc_version c = cm_version package" if "c \<in> set resolved" for c
    using comp [OF that] adm found(2)
    by (auto simp: resolve_component_id admissible_def selection_fits_def component_fits_def Let_def)
  have modules: "modules_of components (set (wk_ordered w)) = (\<Union>c \<in> set resolved. set (rc_modules c))"
  proof -
    have "\<exists>c \<in> set resolved. set (rc_modules c) = set (co_modules (component_at components i))"
      if i: "i \<in> set (wk_ordered w)" for i
    proof -
      obtain k where k: "k < length resolved" "wk_ordered w ! k = i" using i len by (auto simp: in_set_conv_nth)
      with at [OF k(1)] show ?thesis by (intro bexI [of _ "resolved ! k"]) (auto simp: resolve_component_id Let_def)
    qed
    moreover have "\<exists>i \<in> set (wk_ordered w). set (rc_modules c) = set (co_modules (component_at components i))"
      if "c \<in> set resolved" for c
      using comp [OF that] by (auto simp: resolve_component_id Let_def)
    ultimately show ?thesis unfolding modules_of_def by blast
  qed
  show ?thesis
    unfolding graph composition_of_def
    using ids found first version by (simp add: selected_modules_sorted modules [unfolded found(2)])
qed

lemma mset_eq_count_list: "mset xs = mset ys \<Longrightarrow> count_list xs = count_list ys"
  by (rule ext, drule arg_cong [of _ _ "\<lambda>M. count M x" for x]) (simp add: count_mset count_list_eq_length_filter)

text \<open>The order in which the components are requested does not matter: the result is the same composition or the same
  error, and an error lists at least one diagnostic, each once and in increasing order.\<close>
theorem request_order_irrelevant:
  assumes "mset ids = mset ids'"
  shows "composition_resolve package components (request\<lparr> cq_components := ids \<rparr>) = composition_resolve package components (request\<lparr> cq_components := ids' \<rparr>) \<and>
    (\<forall>e. composition_resolve package components (request\<lparr> cq_components := ids \<rparr>) = Some (Inl e) \<longrightarrow>
       e \<noteq> [] \<and> sorted_wrt (<) (map diagnostic_key e))"
proof -
  let ?r = "\<lambda>ids. request\<lparr> cq_components := ids \<rparr>"
  have set: "set ids = set ids'" using assms by (rule mset_eq_setD)
  have "valid_roots (?r ids) = valid_roots (?r ids')" by (simp add: valid_roots_def set)
  moreover obtain w where w: "walk_roots components (valid_roots (?r ids)) [] = Some w"
    "composition_resolve package components (?r ids) =
       (if all_diagnostics package components (?r ids) w \<noteq> []
        then Some (Inl (from_diagnostics (all_diagnostics package components (?r ids) w)))
        else map_option (\<lambda>resolved. Inr (composition_of package components (wk_ordered w) resolved))
          (those (map (resolve_component components) (wk_ordered w))))"
    by (rule resolve_cases)
  moreover obtain w' where "walk_roots components (valid_roots (?r ids')) [] = Some w'"
    "composition_resolve package components (?r ids') =
       (if all_diagnostics package components (?r ids') w' \<noteq> []
        then Some (Inl (from_diagnostics (all_diagnostics package components (?r ids') w')))
        else map_option (\<lambda>resolved. Inr (composition_of package components (wk_ordered w') resolved))
          (those (map (resolve_component components) (wk_ordered w'))))"
    by (rule resolve_cases)
  moreover have diags: "set (all_diagnostics package components (?r ids) w) = set (all_diagnostics package components (?r ids') w)"
    using set mset_eq_count_list [OF assms]
    by (simp add: all_diagnostics_def collect_roots_diagnostics compatibility_diagnostics_def validate_recorded_state_def)
  moreover have "all_diagnostics package components (?r ids) w = [] \<longleftrightarrow> all_diagnostics package components (?r ids') w = []"
    using diags by (metis set_empty)
  ultimately have "composition_resolve package components (?r ids) = composition_resolve package components (?r ids')"
    by (simp add: from_diagnostics_cong [OF diags])
  moreover have "e \<noteq> [] \<and> sorted_wrt (<) (map diagnostic_key e)" if "composition_resolve package components (?r ids) = Some (Inl e)" for e
    using that w(2) from_diagnostics_sorted from_diagnostics_set
    by (auto split: if_splits) (metis set_empty)+
  ultimately show ?thesis by blast
qed

section \<open>The catalog of the tests\<close>

definition sample_component :: "string \<Rightarrow> component_manifest" where
  "sample_component i =
     \<lparr> co_schema = 3, co_id = i, co_version = Some ''v0.8.0'', co_source = ''applications/layered'',
       co_include = [i @ ''.txt''], co_requires = [], co_conflicts = [], co_optional_dependencies = [], co_modules = [],
       co_provides_capabilities = [], co_requires_capabilities = [], co_framework_dependencies = [],
       co_installation = None, co_manifest_path = [] \<rparr>"

definition sample_catalog :: "(string, component_manifest) btree" where
  "sample_catalog =
     [(''base'', sample_component ''base''\<lparr> co_optional_dependencies := [''identity''] \<rparr>),
      (''identity'', sample_component ''identity''\<lparr> co_requires := [''base''], co_modules := [''identity''],
         co_provides_capabilities := [Authentication, Authorization] \<rparr>)]"

definition circular_catalog :: "(string, component_manifest) btree" where
  "circular_catalog =
     [(''base'', sample_component ''base''\<lparr> co_requires := [''identity'', ''missing''] \<rparr>),
      (''identity'', sample_component ''identity''\<lparr> co_requires := [''base''] \<rparr>)]"

definition sample_component_package :: component_package_manifest where
  "sample_component_package =
     \<lparr> cm_schema = 3, cm_id = ''hegira-canonical'', cm_version = ''v0.8.0'',
       cm_framework = \<lparr> fc_repository = HEGIRA_FRAMEWORK_REPOSITORY, fc_version = ''v0.8.0'' \<rparr>,
       cm_templates = [''layered''], cm_components = [''base'', ''identity''], cm_modules = [''identity''],
       cm_upgrade_edges = [], cm_upgrade_lockfiles = [], cm_content_digest = ''sha256:'' @ replicate 64 (CHR ''0'') \<rparr>"

definition sample_request :: "string list \<Rightarrow> composition_request" where
  "sample_request ids = composition_request_new (cm_framework sample_component_package)
     \<lparr> pk_id = ''hegira-canonical'', pk_version = ''v0.8.0'' \<rparr> ids"

lemma sample_catalogs_validated:
  "validated_components sample_component_package sample_catalog"
  "validated_components sample_component_package circular_catalog"
  by code_simp+

theorem composition_resolution_returns_witness:
  "\<exists>r. composition_resolve sample_component_package circular_catalog (sample_request [''identity'']) = Some r"
  by (rule composition_resolution_returns [OF sample_catalogs_validated(2)])

lemma sample_resolves:
  "map_option (map_sum (map di_kind) (map rc_id \<circ> rs_components))
     (composition_resolve sample_component_package sample_catalog (sample_request [''identity''])) = Some (Inr [''base'', ''identity''])"
  "map_option (map_sum (map di_kind) (map rc_id \<circ> rs_components))
     (composition_resolve sample_component_package circular_catalog (sample_request [''identity''])) =
   Some (Inl [MissingComponent, DependencyCycle])"
  by code_simp+


lemma sample_graph:
  obtains graph where "composition_resolve sample_component_package sample_catalog (sample_request [''identity'']) = Some (Inr graph)"
proof -
  from sample_resolves(1) show ?thesis
    by (cases "composition_resolve sample_component_package sample_catalog (sample_request [''identity''])")
      (auto simp: map_sum_def intro: that split: sum.splits)
qed

theorem composition_resolves_exactly_witness:
  "admissible sample_component_package sample_catalog (sample_request [''identity''])"
  using composition_resolves_exactly [OF sample_catalogs_validated(1), of "sample_request [''identity'']"] sample_graph by metis

theorem resolved_composition_ordered_witness:
  "\<exists>graph. composition_resolve sample_component_package sample_catalog (sample_request [''identity'']) = Some (Inr graph) \<and>
     set (map rc_id (rs_components graph)) = needed sample_catalog {''identity''} \<and> distinct (map rc_id (rs_components graph))"
proof -
  obtain graph where g: "composition_resolve sample_component_package sample_catalog (sample_request [''identity'']) = Some (Inr graph)"
    by (rule sample_graph)
  have "cq_components (sample_request [''identity'']) = [''identity'']"
    by (simp add: sample_request_def composition_request_new_def)
  with resolved_composition_ordered [OF sample_catalogs_validated(1) g] g show ?thesis by auto
qed

theorem request_order_irrelevant_witness:
  "composition_resolve sample_component_package sample_catalog (sample_request []\<lparr> cq_components := [''identity'', ''base''] \<rparr>) =
   composition_resolve sample_component_package sample_catalog (sample_request []\<lparr> cq_components := [''base'', ''identity''] \<rparr>)"
  using request_order_irrelevant [of "[''identity'', ''base'']" "[''base'', ''identity'']" sample_component_package sample_catalog
      "sample_request []"] by (simp add: add_mset_commute)

section \<open>The walk over unpackaged components\<close>

definition legacy_state :: "(string, component_manifest) btree \<Rightarrow> walk \<Rightarrow> legacy_walk" where
  "legacy_state components w =
     (set (wk_stack w), set (wk_ordered w), map (component_at components) (wk_ordered w))"

text \<open>The older walk goes on exactly as long as the other one reports nothing.\<close>

definition walks_alike ::
    "(string, component_manifest) btree \<Rightarrow> walk \<Rightarrow> walk \<Rightarrow> (renderer_error + legacy_walk) option \<Rightarrow> bool" where
  "walks_alike components w w' legacy \<longleftrightarrow>
     (if wk_diagnostics w' = wk_diagnostics w then legacy = Some (Inr (legacy_state components w'))
      else \<exists>e. legacy = Some (Inl e))"

definition sorted_requirements :: "(string, component_manifest) btree \<Rightarrow> bool" where
  "sorted_requirements components \<longleftrightarrow> (\<forall>e \<in> set components. sorted (co_requires (snd e)))"

lemma walks_alike_leave:
  assumes "walk_inv components roots reported w1" "wk_stack w1 = wk_stack w @ [i]"
    "bt_get components i = Some component"
    "walks_alike components (enter i w) w1 legacy"
  shows "walks_alike components w (leave i w1)
    (map_option (\<lambda>r. and_then r (\<lambda>(temporary', selected', resolved').
       Inr (temporary' - {i}, insert i selected', resolved' @ [component]))) legacy)"
proof -
  have "i \<notin> set (wk_ordered w1)" "i \<notin> set (wk_stack w)" using assms(1,2) by (auto simp: walk_inv_def)
  with assms(2-4) show ?thesis
    by (auto simp: walks_alike_def legacy_state_def leave_def component_at_def split: if_splits)
qed

lemma walks_alike_trans:
  assumes "walks_alike components w w1 r" "prefix (wk_diagnostics w) (wk_diagnostics w1)"
    "prefix (wk_diagnostics w1) (wk_diagnostics w2)" "\<And>s. r = Some (Inr s) \<Longrightarrow> s = legacy_state components w1 \<Longrightarrow> walks_alike components w1 w2 (f s)"
  shows "walks_alike components w w2 (case r of None \<Rightarrow> None | Some (Inl e) \<Rightarrow> Some (Inl e) | Some (Inr s) \<Rightarrow> f s)"
proof (cases "wk_diagnostics w1 = wk_diagnostics w")
  case True
  with assms(1) have "r = Some (Inr (legacy_state components w1))" by (simp add: walks_alike_def)
  with assms(4) True show ?thesis by (simp add: walks_alike_def)
next
  case False
  with assms(1) obtain e where "r = Some (Inl e)" by (auto simp: walks_alike_def)
  moreover have "wk_diagnostics w2 \<noteq> wk_diagnostics w" using False assms(2,3) by (metis prefix_order.antisym)
  ultimately show ?thesis by (simp add: walks_alike_def)
qed

lemma legacy_visit_alike:
  "visit n components rb i w = Some w' \<Longrightarrow> walk_inv components roots reported w \<Longrightarrow> next_ok components roots w i \<Longrightarrow>
     sorted_requirements components \<Longrightarrow>
     walks_alike components w w' (legacy_visit n components i (legacy_state components w))"
  "visit_all n components rb is w = Some w' \<Longrightarrow> walk_inv components roots reported w \<Longrightarrow>
     (\<And>i. i \<in> set is \<Longrightarrow> next_ok components roots w i) \<Longrightarrow> sorted_requirements components \<Longrightarrow>
     walks_alike components w w' (legacy_visit_all n components is (legacy_state components w))"
proof (induction n components rb i w and n components rb "is" w arbitrary: w' and w' rule: visit_visit_all.induct)
  case (2 n components rb i w)
  note inv = 2(3) and next_i = 2(4) and sorted = 2(5)
  have state: "bt_get (wk_state w) i =
      (if i \<in> set (wk_ordered w) then Some Resolved else if i \<in> set (wk_stack w) then Some Visiting else None)"
    using inv by (simp add: walk_inv_def)
  show ?case
  proof (cases "bt_get (wk_state w) i = None \<and> bt_get components i \<noteq> None")
    case True
    then obtain component where there: "bt_get components i = Some component" and free: "bt_get (wk_state w) i = None" by blast
    with 2(2) obtain w1 where w1: "visit_all n components (Some i) (co_requires component) (enter i w) = Some w1"
      "w' = leave i w1" by auto
    have nexts: "next_ok components roots (enter i w) j" if "j \<in> set (co_requires component)" for j
      using that there next_i by (auto simp: next_ok_def requires_edge_def intro!: needed_step [of i])
    note inv1 = enter_inv [OF inv next_i free there]
    have "(i, component) \<in> set components" using there by (simp add: bt_get_def map_of_SomeD)
    from bspec [OF sorted [unfolded sorted_requirements_def] this] have "sorted (co_requires component)" unfolding snd_conv .
    then have "legacy_visit_all n components (sort (co_requires component)) (legacy_state components (enter i w)) =
        legacy_visit_all n components (co_requires component) (legacy_state components (enter i w))"
      by (simp add: sorted_sort_id)
    moreover have "walks_alike components (enter i w) w1
        (legacy_visit_all n components (co_requires component) (legacy_state components (enter i w)))"
      by (rule 2(1) [OF free there w1(1) inv1 nexts sorted])
    moreover have v: "visited_ok components roots reported (enter i w) (set (co_requires component)) w1"
      by (rule visit_correct(2) [OF w1(1) inv1 nexts])
    ultimately have "walks_alike components w w' (map_option (\<lambda>r. and_then r (\<lambda>(temporary', selected', resolved').
        Inr (temporary' - {i}, insert i selected', resolved' @ [component])))
        (legacy_visit_all n components (sort (co_requires component)) (legacy_state components (enter i w))))"
      unfolding w1(2) by (intro walks_alike_leave) (auto simp: visited_ok_def there)
    moreover have "legacy_state components (enter i w) =
        (insert i (set (wk_stack w)), set (wk_ordered w), map (component_at components) (wk_ordered w))"
      by (simp add: legacy_state_def)
    ultimately show ?thesis using state free there by (simp add: legacy_state_def split: if_splits)
  next
    case False
    moreover have "wk_diagnostics (report_cycle i w) \<noteq> wk_diagnostics w"
      by (simp add: report_cycle_def Let_def)
    ultimately show ?thesis using 2(2) state
      by (auto simp: walks_alike_def legacy_state_def split: if_splits option.splits)
  qed
next
  case (4 n components rb i rest w)
  then obtain w1 where w1: "visit n components rb i w = Some w1" "visit_all n components rb rest w1 = Some w'"
    by (auto split: option.splits)
  have first: "visited_ok components roots reported w {i} w1" using visit_correct(1) [OF w1(1) 4(4)] 4(5) by simp
  have nexts: "next_ok components roots w1 j" if "j \<in> set rest" for j
    using that 4(5) first by (auto simp: visited_ok_def next_ok_def)
  have inv1: "walk_inv components roots reported w1" using first by (simp add: visited_ok_def)
  have second: "visited_ok components roots reported w1 (set rest) w'" by (rule visit_correct(2) [OF w1(2) inv1 nexts])
  show ?case
    unfolding legacy_visit_all.simps
    by (rule walks_alike_trans [OF 4(1) [OF w1(1) 4(4) _ 4(6)]])
      (use 4(2) [OF w1 inv1 nexts 4(6)] 4(5) first second in \<open>auto simp: visited_ok_def\<close>)
qed (simp_all add: walks_alike_def)


lemma validated_sorted_requirements:
  assumes "\<forall>(i, c) \<in> set components. validate_component c package = Inr ()"
  shows "sorted_requirements components"
proof -
  have "sorted (co_requires c)" if "validate_component c package = Inr ()" for c
    using that by (simp add: validate_component_def validate_sorted_identifiers_def windows_any_sorted strict_sorted_iff)
  with assms show ?thesis unfolding sorted_requirements_def by fastforce
qed

text \<open>C36. The older resolution of unpackaged components, which stops at the first error, agrees with the walk that reports
  everything: for validated components and distinct roots it succeeds exactly if that walk reports nothing and no two
  selected components conflict, and it returns the same components in the same order.\<close>
theorem legacy_resolution_agrees:
  assumes "\<forall>(i, c) \<in> set components. validate_component c None = Inr ()" "distinct roots"
    and "walk_roots components (set roots) [] = Some w"
  shows "resolve_legacy_components components roots = Some (Inr resolved) \<longleftrightarrow>
    wk_diagnostics w = [] \<and>
    (\<forall>i \<in> set (wk_ordered w). set (co_conflicts (component_at components i)) \<inter> set (wk_ordered w) = {}) \<and>
    resolved = map (component_at components) (wk_ordered w)"
proof -
  let ?walk = "legacy_visit_all (Suc (length components)) components (sort roots) ({}, {}, [])"
  have roots: "sort roots = sorted_list_of_set (set roots)"
    using assms(2) by (simp add: sorted_list_of_set_sort_remdups distinct_remdups_id)
  have "walk_inv components (set roots) [] (walk_start [])"
    by (simp add: walk_inv_def walk_start_def bt_get_def fun_eq_iff)
  moreover have "next_ok components (set roots) (walk_start []) i" if "i \<in> set (sort roots)" for i
    using that by (auto simp: next_ok_def needed_def walk_start_def)
  ultimately have "walks_alike components (walk_start []) w
      (legacy_visit_all (Suc (length components)) components (sort roots) (legacy_state components (walk_start [])))"
    by (intro legacy_visit_alike(2) [OF assms(3) [unfolded walk_roots_def, folded roots]] validated_sorted_requirements [OF assms(1)])
  then have walk: "if wk_diagnostics w = [] then ?walk = Some (Inr (legacy_state components w)) else \<exists>e. ?walk = Some (Inl e)"
    by (simp add: walks_alike_def legacy_state_def walk_start_def)
  show ?thesis
  proof (cases "wk_diagnostics w = []")
    case True
    have "check_legacy_conflicts (set (wk_ordered w)) c = Inr () \<longleftrightarrow> set (co_conflicts c) \<inter> set (wk_ordered w) = {}" for c
      by (auto simp: check_legacy_conflicts_def)
    then have "check_all (check_legacy_conflicts (set (wk_ordered w))) (map (component_at components) (wk_ordered w)) = Inr () \<longleftrightarrow>
        (\<forall>i \<in> set (wk_ordered w). set (co_conflicts (component_at components i)) \<inter> set (wk_ordered w) = {})" by simp
    with walk True show ?thesis
      by (auto simp: resolve_legacy_components_def legacy_state_def)
  next
    case False
    with walk show ?thesis by (auto simp: resolve_legacy_components_def)
  qed
qed

definition legacy_catalog :: "(string, component_manifest) btree" where
  "legacy_catalog = map (\<lambda>(i, c). (i, c\<lparr> co_version := None \<rparr>)) sample_catalog"

theorem legacy_resolution_agrees_witness:
  "resolve_legacy_components legacy_catalog [''identity''] =
     Some (Inr (map (component_at legacy_catalog) [''base'', ''identity'']))"
proof -
  have valid: "\<forall>(i, c) \<in> set legacy_catalog. validate_component c None = Inr ()" by code_simp
  have w: "walk_roots legacy_catalog (set [''identity'']) [] = Some
      \<lparr> wk_state = [(''base'', Resolved), (''identity'', Resolved)], wk_stack = [], wk_ordered = [''base'', ''identity''],
        wk_diagnostics = [] \<rparr>" by code_simp
  have "\<forall>i \<in> set [''base'', ''identity'']. set (co_conflicts (component_at legacy_catalog i)) \<inter> set [''base'', ''identity''] = {}"
    by code_simp
  with legacy_resolution_agrees [OF valid _ w] show ?thesis by simp
qed

end
