(* ===== verification/Upgrade_Paths.thy ===== *)
theory Upgrade_Paths
  imports Upgrade_Graph Resolution
begin

text \<open>
  What the validation of an upgrade graph guarantees: every declared source state of every edge is found by the
  resolution, and by no other edge or composition; and the edge found leads to the next release, to a composition that
  the package resolves to, with integrations whose digests are those of the packaged files and whose ownership is
  declared.
\<close>

section \<open>Unique matches\<close>

lemma find_sole:
  assumes "distinct (map f xs)"
  shows "find (\<lambda>x. f x = v) xs = Some x \<longleftrightarrow> x \<in> set xs \<and> f x = v"
  using assms by (induction xs) auto

lemma checked_succ_greater: "checked_succ x = Some y \<Longrightarrow> x < y"
proof -
  assume "checked_succ x = Some y"
  then have y: "x \<noteq> - 1" "y = 1 + x" by (auto simp: checked_succ_def split: if_splits)
  from y(1) have "1 + x \<noteq> 0" by (metis add.commute add_eq_0_iff)
  then show "x < y" by (simp add: y(2) word_less_nat_alt unatSuc)
qed

text \<open>A direct release is a later one: the additions do not wrap around.\<close>

lemma direct_release_later:
  "direct_release s t \<Longrightarrow> (sv_major s, sv_minor s, sv_patch s) < (sv_major t, sv_minor t, sv_patch t)"
  using checked_succ_greater by (auto simp: direct_release_def)

section \<open>Validated transitions\<close>

lemma canonical_transition_keeps:
  assumes "canonical_transition c = Inr c'"
  shows "ut_source c' = ut_source c" "ut_target c' = ut_target c" "ut_id c' = ut_id c"
  using assms by (auto simp: canonical_transition_def Let_def split: option.splits)

lemma validate_transitions_Inr:
  assumes "validate_transitions package components source ids states cs = Inr (cs', states')"
  shows "(\<forall>c \<in> set cs'. \<exists>ids. validate_transition package components ids c = Inr ()) \<and>
    distinct (map ut_source cs') \<and> (\<forall>c \<in> set cs'. composition_key source (ut_source c) \<notin> states)"
  using assms
proof (induction cs arbitrary: ids states cs')
  case (Cons c cs)
  then obtain c1 rest where c1: "canonical_transition c = Inr c1" "validate_transition package components ids c1 = Inr ()"
    "composition_key source (ut_source c1) \<notin> states"
    and rest: "validate_transitions package components source (insert (ut_id c1) ids)
      (insert (composition_key source (ut_source c1)) states) cs = Inr (rest, states')"
    and cs': "cs' = c1 # rest"
    by (auto split: prod.splits)
  note IH = Cons.IH [OF rest]
  then have "ut_source c1 \<notin> set (map ut_source rest)" by (metis (no_types, lifting) imageE insertCI list.set_map)
  with IH c1 cs' canonical_transition_keeps [OF c1(1)] show ?case by auto
qed simp

definition edge_facts ::
    "manifest_codec \<Rightarrow> (string \<Rightarrow> semver option) \<Rightarrow> component_package_manifest \<Rightarrow> (string, component_manifest) btree
      \<Rightarrow> ((string \<times> string), string) btree \<Rightarrow> (path_key, string) btree \<Rightarrow> upgrade_edge_manifest \<Rightarrow> bool" where
  "edge_facts C parse_version package components component_paths lockfiles edge \<longleftrightarrow>
     validate_release_identity C parse_version package (ue_source edge) False = Inr () \<and>
     validate_release_identity C parse_version package (ue_target edge) True = Inr () \<and>
     validate_direct_release parse_version (ue_source edge) (ue_target edge) = Inr () \<and>
     (\<forall>c \<in> set (ue_compositions edge). \<exists>ids. validate_transition package components ids c = Inr ()) \<and>
     distinct (map ut_source (ue_compositions edge)) \<and>
     validate_managed_integrations components component_paths lockfiles {} (ue_managed_integrations edge) = Inr () \<and>
     (\<forall>c \<in> set (ue_compositions edge).
        validate_composition_integrations components component_paths lockfiles (ue_managed_integrations edge) c = Inr ())"

lemma validate_edge_Inr:
  assumes "validate_edge C parse_version package components component_paths lockfiles ids pairs states edge = Inr (edge', states')"
  shows "edge_facts C parse_version package components component_paths lockfiles edge'" "release_pair edge' = release_pair edge"
    "release_pair edge \<notin> pairs" "ue_source edge' = ue_source edge" "ue_target edge' = ue_target edge"
proof -
  from assms obtain cs transitions where
    h: "validate_edge_header C parse_version package ids pairs edge = Inr ()"
    and cs: "validate_transitions package components (ue_source edge) {} states (sort_key ut_id (ue_compositions edge)) = Inr (cs, states')"
    and i: "validate_managed_integrations components component_paths lockfiles {} (sort_managed (ue_managed_integrations edge)) = Inr ()"
    and ci: "\<forall>c \<in> set cs. validate_composition_integrations components component_paths lockfiles
      (sort_managed (ue_managed_integrations edge)) c = Inr ()"
    and e: "edge' = edge\<lparr> ue_compositions := cs, ue_manifest_transitions := transitions,
      ue_managed_integrations := sort_managed (ue_managed_integrations edge) \<rparr>"
    unfolding validate_edge_def and_then_Inr then_check_Inr Let_def
    by (auto split: prod.splits)
  from h have header: "validate_release_identity C parse_version package (ue_source edge) False = Inr ()"
    "validate_release_identity C parse_version package (ue_target edge) True = Inr ()"
    "validate_direct_release parse_version (ue_source edge) (ue_target edge) = Inr ()" "release_pair edge \<notin> pairs"
    unfolding validate_edge_header_def then_check_Inr reject_if_Inr by auto
  with validate_transitions_Inr [OF cs] i ci
  show "edge_facts C parse_version package components component_paths lockfiles edge'" by (simp add: edge_facts_def e)
  show "release_pair edge' = release_pair edge" "ue_source edge' = ue_source edge" "ue_target edge' = ue_target edge"
    "release_pair edge \<notin> pairs"
    using header(4) by (simp_all add: e release_pair_def)
qed

lemma validate_edges_Inr:
  assumes "validate_edges C parse_version package components component_paths lockfiles ids pairs states edges = Inr edges'"
  shows "(\<forall>edge \<in> set edges'. edge_facts C parse_version package components component_paths lockfiles edge) \<and>
    distinct (map release_pair edges') \<and> (\<forall>edge \<in> set edges'. release_pair edge \<notin> pairs)"
  using assms
proof (induction edges arbitrary: ids pairs states edges')
  case (Cons edge edges)
  then obtain edge1 states1 rest where
    e: "validate_edge C parse_version package components component_paths lockfiles ids pairs states edge = Inr (edge1, states1)"
    and rest: "validate_edges C parse_version package components component_paths lockfiles (insert (ue_id edge) ids)
      (insert (release_pair edge) pairs) states1 edges = Inr rest" and edges': "edges' = edge1 # rest"
    by (auto split: prod.splits)
  with Cons.IH [OF rest] validate_edge_Inr [OF e] show ?case by auto
qed simp

text \<open>Every edge of a validated graph leads to the release of the package, so its source determines it.\<close>

lemma target_version:
  assumes "validate_release_identity C parse_version package release True = Inr ()"
  shows "fc_version (ri_framework release) = fc_version (cm_framework package)" "pk_version (ri_package release) = cm_version package"
    "fc_repository (ri_framework release) = fc_repository (cm_framework package)" "pk_id (ri_package release) = cm_id package"
  using assms unfolding validate_release_identity_def then_check_Inr reject_if_Inr by blast+

lemma validated_graph:
  assumes "validate_upgrade_graph C parse_version package components component_paths lockfiles edges = Inr edges'"
  shows "\<forall>edge \<in> set edges'. edge_facts C parse_version package components component_paths lockfiles edge"
    "distinct (map ue_source edges')"
proof -
  have v: "validate_edges C parse_version package components component_paths lockfiles {} {} {} (sort_key ue_id edges) = Inr edges'"
    using assms unfolding validate_upgrade_graph_def then_check_Inr by blast
  note facts = validate_edges_Inr [OF v]
  then show valid: "\<forall>edge \<in> set edges'. edge_facts C parse_version package components component_paths lockfiles edge" by blast
  have "release_pair edge = (fc_version (ri_framework (ue_source edge)), fc_version (cm_framework package))" if "edge \<in> set edges'" for edge
    using valid that target_version(1) [of C parse_version package "ue_target edge"] by (auto simp: edge_facts_def release_pair_def)
  then have "map release_pair edges' =
      map (\<lambda>s. (fc_version (ri_framework s), fc_version (cm_framework package))) (map ue_source edges')" by simp
  with facts show "distinct (map ue_source edges')" by (metis distinct_map)
qed

section \<open>Properties\<close>

definition resolved_of :: "upgrade_edge_manifest \<Rightarrow> upgrade_composition_transition \<Rightarrow> resolved_upgrade_edge" where
  "resolved_of edge c =
     \<lparr> ru_schema = UPGRADE_EDGE_SCHEMA, ru_id = ue_id edge, ru_source = ue_source edge, ru_target = ue_target edge,
       ru_composition = c,
       ru_manifest_transitions = (case ut_manifest_transitions c of None \<Rightarrow> ue_manifest_transitions edge | Some ts \<Rightarrow> ts),
       ru_managed_integrations = ue_managed_integrations edge @ ut_managed_integrations c \<rparr>"

lemma resolve_upgrade_edge_iff:
  assumes "validate_upgrade_graph C parse_version package components component_paths lockfiles edges = Inr edges'"
  shows "resolve_upgrade_edge edges' request = Inr r \<longleftrightarrow>
    (\<exists>edge \<in> set edges'. \<exists>c \<in> set (ue_compositions edge).
       ue_source edge = uq_source request \<and> ut_source c = uq_composition request \<and> r = resolved_of edge c)"
proof -
  note graph = validated_graph [OF assms]
  have "find (\<lambda>c. ut_source c = uq_composition request) (ue_compositions edge) = Some c \<longleftrightarrow>
      c \<in> set (ue_compositions edge) \<and> ut_source c = uq_composition request" if "edge \<in> set edges'" for edge c
    using graph(1) that by (intro find_sole) (auto simp: edge_facts_def)
  then show ?thesis
    unfolding resolve_upgrade_edge_def and_then_Inr required_Inr find_sole [OF graph(2)] resolved_of_def sum.inject by blast
qed

text \<open>In a validated upgrade graph a request resolves exactly to the edge and the composition that declare its source
  release and its source composition: every declared source state is supported, and no two declarations compete for it.\<close>
theorem upgrade_edge_resolves_exactly:
  assumes "validate_upgrade_graph C parse_version package components component_paths lockfiles edges = Inr edges'"
  shows "resolve_upgrade_edge edges' request = Inr r \<longleftrightarrow>
    (\<exists>edge \<in> set edges'. \<exists>c \<in> set (ue_compositions edge).
       ue_source edge = uq_source request \<and> ut_source c = uq_composition request \<and> r = resolved_of edge c)"
  by (rule resolve_upgrade_edge_iff [OF assms])

text \<open>The edge and the composition behind a resolution.\<close>

lemma resolved_edge:
  assumes "validate_upgrade_graph C parse_version package components component_paths lockfiles edges = Inr edges'"
    "resolve_upgrade_edge edges' request = Inr r"
  shows "\<exists>edge \<in> set edges'. \<exists>c \<in> set (ue_compositions edge).
    ue_source edge = uq_source request \<and> ut_source c = uq_composition request \<and> r = resolved_of edge c"
  using assms(2) resolve_upgrade_edge_iff [OF assms(1)] by blast

lemma validate_managed_integrations_Inr:
  "validate_managed_integrations components component_paths lockfiles seen ts = Inr () \<longleftrightarrow>
     (\<forall>t \<in> set ts. validate_managed_integration components component_paths lockfiles t = Inr () \<and> integration_identity t \<notin> seen) \<and>
     distinct (map integration_identity ts)"
proof (induction ts arbitrary: seen)
  case (Cons a ts)
  show ?case by (auto simp: Cons.IH image_iff simp flip: not_ex)
qed simp

lemma validate_applicable_Inr:
  "validate_applicable c seen ts = Inr () \<longleftrightarrow>
     (\<forall>t \<in> set ts. validate_integration_ownership c t = Inr () \<and> integration_identity t \<notin> seen) \<and>
     distinct (map integration_identity ts)"
proof (induction ts arbitrary: seen)
  case (Cons a ts)
  show ?case by (auto simp: Cons.IH image_iff simp flip: not_ex)
qed simp

text \<open>The request for the target of a transition, as the validation resolves it.\<close>

definition target_request :: "component_package_manifest \<Rightarrow> upgrade_composition_transition \<Rightarrow> composition_request" where
  "target_request package c = composition_request_new (cm_framework package)
     \<lparr> pk_id = cm_id package, pk_version = cm_version package \<rparr> (us_components (ut_target c))"

lemma validated_target:
  assumes "validated_components package components" "validate_transition package components ids c = Inr ()"
  obtains graph where "composition_resolve package components (target_request package c) = Some (Inr graph)"
    "set (map rc_id (rs_components graph)) = set (us_components (ut_target c))"
    "map im_id (rs_modules graph) = us_modules (ut_target c)"
    "sorted_list_of_set (rs_capabilities graph) = us_capabilities (ut_target c)"
proof -
  have "validate_upgrade_composition package components (ut_target c) True = Inr ()"
    using assms(2) unfolding validate_transition_def then_check_Inr by auto
  then have t: "validate_target_composition package components (ut_target c) = Inr ()"
    unfolding validate_upgrade_composition_def then_check_Inr by simp
  obtain result where r: "composition_resolve package components (target_request package c) = Some result"
    using composition_resolution_total [OF assms(1)] by blast
  from t obtain graph where g: "result = Inr graph" and eqs: "set (map rc_id (rs_components graph)) = set (us_components (ut_target c))"
    "map im_id (rs_modules graph) = us_modules (ut_target c)"
    "sorted_list_of_set (rs_capabilities graph) = us_capabilities (ut_target c)"
    unfolding validate_target_composition_def Let_def target_request_def [symmetric] r option.sel and_then_Inr map_error_Inr reject_if_Inr
    by blast
  show ?thesis by (rule that [OF r [unfolded g] eqs])
qed

text \<open>C39. An upgrade that resolves leads from the requested state directly to a later release, the one of the package, keeps
  the database and the client, and its target composition is what the package resolves the target components to.\<close>
theorem upgrade_target_sound:
  assumes "validated_components package components"
    and "validate_upgrade_graph C parse_version package components component_paths lockfiles edges = Inr edges'"
    and "resolve_upgrade_edge edges' request = Inr r"
  shows "ru_source r = uq_source request \<and> ut_source (ru_composition r) = uq_composition request \<and>
    fc_version (ri_framework (ru_target r)) = fc_version (cm_framework package) \<and>
    pk_version (ri_package (ru_target r)) = cm_version package \<and>
    (\<exists>s t. parse_release parse_version (fc_version (ri_framework (ru_source r))) = Inr s \<and>
       parse_release parse_version (fc_version (ri_framework (ru_target r))) = Inr t \<and> direct_release s t \<and>
       (sv_major s, sv_minor s, sv_patch s) < (sv_major t, sv_minor t, sv_patch t)) \<and>
    us_database (ut_target (ru_composition r)) = us_database (uq_composition request) \<and>
    us_client (ut_target (ru_composition r)) = us_client (uq_composition request) \<and>
    (\<exists>graph. composition_resolve package components (target_request package (ru_composition r)) = Some (Inr graph) \<and>
       set (map rc_id (rs_components graph)) = set (us_components (ut_target (ru_composition r))) \<and>
       map im_id (rs_modules graph) = us_modules (ut_target (ru_composition r)) \<and>
       sorted_list_of_set (rs_capabilities graph) = us_capabilities (ut_target (ru_composition r)))"
proof -
  from resolved_edge [OF assms(2,3)] obtain edge c where e: "edge \<in> set edges'" "c \<in> set (ue_compositions edge)"
    "ue_source edge = uq_source request" "ut_source c = uq_composition request" "r = resolved_of edge c" by blast
  then have facts: "edge_facts C parse_version package components component_paths lockfiles edge"
    using validated_graph(1) [OF assms(2)] by blast
  then obtain ids where c: "validate_transition package components ids c = Inr ()" using e(2) by (auto simp: edge_facts_def)
  then have adapters: "us_database (ut_source c) = us_database (ut_target c)" "us_client (ut_source c) = us_client (ut_target c)"
    unfolding validate_transition_def then_check_Inr reject_if_Inr by auto
  have target: "validate_release_identity C parse_version package (ue_target edge) True = Inr ()"
    and direct: "validate_direct_release parse_version (ue_source edge) (ue_target edge) = Inr ()"
    using facts by (auto simp: edge_facts_def)
  from direct obtain s t where st: "parse_release parse_version (fc_version (ri_framework (ue_source edge))) = Inr s"
    "parse_release parse_version (fc_version (ri_framework (ue_target edge))) = Inr t" "direct_release s t"
    unfolding validate_direct_release_def and_then_Inr reject_if_Inr by blast
  have r: "ru_source r = ue_source edge" "ru_target r = ue_target edge" "ru_composition r = c"
    using e(5) by (simp_all add: resolved_of_def)
  show ?thesis
    unfolding r
    using e(3,4) st direct_release_later [OF st(3)] adapters target_version(1,2) [OF target] validated_target [OF assms(1) c]
    by metis
qed

text \<open>C40. The integrations of an upgrade that resolves are sound: a digest they promise for the target is the digest of the
  packaged file it comes from; those that apply to the composition concern different integration points and are declared
  as managed integrations by the ownership of the state in which they exist, both states for an edit.\<close>
theorem upgrade_integrations_sound:
  assumes "validate_upgrade_graph C parse_version package components component_paths lockfiles edges = Inr edges'"
    and "resolve_upgrade_edge edges' request = Inr r"
  shows "(\<forall>t \<in> set (ru_managed_integrations r). \<forall>d. mt_target_sha256 t = Some d \<longrightarrow> target_digest component_paths lockfiles t = Some d) \<and>
    (let c = ru_composition r;
         applicable = filter (\<lambda>t. mt_component t \<in> applicable_components c) (ru_managed_integrations r)
     in distinct (map integration_identity applicable) \<and>
        (\<forall>t \<in> set applicable.
           (mt_kind t \<noteq> CreateIntegration \<longrightarrow> ownership_declares (ut_source_ownership c) t) \<and>
           (mt_kind t \<noteq> RetireIntegration \<longrightarrow> ownership_declares (ut_target_ownership c) t)))"
proof -
  from resolved_edge [OF assms] obtain edge c where e: "edge \<in> set edges'" "c \<in> set (ue_compositions edge)"
    "r = resolved_of edge c" by blast
  then have facts: "edge_facts C parse_version package components component_paths lockfiles edge"
    using validated_graph(1) [OF assms(1)] by blast
  then have ci: "validate_composition_integrations components component_paths lockfiles (ue_managed_integrations edge) c = Inr ()"
    and shared: "validate_managed_integrations components component_paths lockfiles {} (ue_managed_integrations edge) = Inr ()"
    using e(2) by (auto simp: edge_facts_def)
  then have all: "validate_managed_integration components component_paths lockfiles t = Inr ()"
    if "t \<in> set (ru_managed_integrations r)" for t
    using that e(3)
    unfolding validate_composition_integrations_def
    by (auto simp: resolved_of_def validate_managed_integrations_Inr)
  have digest: "target_digest component_paths lockfiles t = Some d"
    if "t \<in> set (ru_managed_integrations r)" "mt_target_sha256 t = Some d" for t d
    using all [OF that(1)] that(2)
    unfolding validate_managed_integration_def then_check_Inr validate_transition_digests_def by auto
  have applicable: "validate_applicable c {} (filter (\<lambda>t. mt_component t \<in> applicable_components c)
      (ue_managed_integrations edge @ ut_managed_integrations c)) = Inr ()"
    using ci unfolding validate_composition_integrations_def then_check_Inr by blast
  have owned: "(mt_kind t \<noteq> CreateIntegration \<longrightarrow> ownership_declares (ut_source_ownership c) t) \<and>
      (mt_kind t \<noteq> RetireIntegration \<longrightarrow> ownership_declares (ut_target_ownership c) t)"
    if "validate_integration_ownership c t = Inr ()" for t
    using that by (cases "mt_kind t") (auto simp: validate_integration_ownership_def)
  show ?thesis
    using digest applicable owned e(3)
    unfolding validate_applicable_Inr Let_def by (simp add: resolved_of_def)
qed

section \<open>A sample graph\<close>

definition sample_semver :: "string \<Rightarrow> semver option" where
  "sample_semver s =
     (if s = ''0.7.0'' then Some \<lparr> sv_major = 0, sv_minor = 7, sv_patch = 0, sv_pre_empty = True, sv_build_empty = True \<rparr>
      else if s = ''0.8.0'' then Some \<lparr> sv_major = 0, sv_minor = 8, sv_patch = 0, sv_pre_empty = True, sv_build_empty = True \<rparr>
      else None)"

definition upgrade_codec :: manifest_codec where
  "upgrade_codec = sample_codec\<lparr> mc_parse_version := (\<lambda>s. if sample_semver s = None then None
     else Some \<lparr> pv_pre_empty = True, pv_build_empty = True \<rparr>) \<rparr>"

definition sample_digest :: "char \<Rightarrow> string" where
  "sample_digest c = ''sha256:'' @ replicate 64 c"

definition sample_release :: "string \<Rightarrow> upgrade_release_identity" where
  "sample_release version =
     \<lparr> ri_framework = \<lparr> fc_repository = HEGIRA_FRAMEWORK_REPOSITORY, fc_version = version \<rparr>,
       ri_package = \<lparr> pk_id = ''hegira-canonical'', pk_version = version \<rparr> \<rparr>"

definition sample_upgrade_ownership :: source_ownership where
  "sample_upgrade_ownership =
     \<lparr> ow_default = ApplicationOwned,
       ow_claims = [\<lparr> cl_path = ''Cargo.toml'', cl_class = ManagedIntegration, cl_integration = Some ''framework'' \<rparr>] \<rparr>"

definition sample_source_state :: upgrade_composition_state where
  "sample_source_state =
     \<lparr> us_database = Sqlite, us_client = Leptos, us_components = [''base''], us_modules = [], us_capabilities = [] \<rparr>"

definition sample_transition :: upgrade_composition_transition where
  "sample_transition =
     \<lparr> ut_id = ''base'', ut_source_baseline_digest = sample_digest (CHR ''c''),
       ut_source_ownership = sample_upgrade_ownership, ut_target_ownership = sample_upgrade_ownership,
       ut_source = sample_source_state,
       ut_target = sample_source_state\<lparr> us_components := [''base'', ''identity''], us_modules := [''identity''],
         us_capabilities := [Authentication, Authorization] \<rparr>,
       ut_manifest_transitions = None, ut_managed_integrations = [] \<rparr>"

definition sample_edge :: upgrade_edge_manifest where
  "sample_edge =
     \<lparr> ue_schema = 1, ue_id = ''v07-v08'', ue_source_package_digest = sample_digest (CHR ''d''),
       ue_source = sample_release ''v0.7.0'', ue_target = sample_release ''v0.8.0'',
       ue_compositions = [sample_transition], ue_manifest_transitions = [Framework, Package],
       ue_managed_integrations =
         [\<lparr> mt_component = ''base'', mt_path = ''Cargo.toml'', mt_integration = ''framework'', mt_kind = EditIntegration,
            mt_source_sha256 = Some (sample_digest (CHR ''a'')), mt_target_source_component = None,
            mt_target_lockfile = None, mt_target_sha256 = Some (sample_digest (CHR ''b'')) \<rparr>] \<rparr>"

definition sample_paths :: "((string \<times> string), string) btree" where
  "sample_paths = [((''base'', ''Cargo.toml''), sample_digest (CHR ''b''))]"

definition sample_edge_request :: upgrade_edge_request where
  "sample_edge_request = \<lparr> uq_source = sample_release ''v0.7.0'', uq_composition = sample_source_state \<rparr>"

lemma sample_graph_valid:
  "validate_upgrade_graph upgrade_codec sample_semver sample_component_package sample_catalog sample_paths [] [sample_edge] =
     Inr [sample_edge]"
  by code_simp

lemma sample_edge_resolves: "resolve_upgrade_edge [sample_edge] sample_edge_request = Inr (resolved_of sample_edge sample_transition)"
  by (simp add: resolve_upgrade_edge_iff [OF sample_graph_valid])
    (simp add: sample_edge_def sample_edge_request_def sample_transition_def)

theorem upgrade_edge_resolves_exactly_witness:
  "resolve_upgrade_edge [sample_edge] sample_edge_request = Inr (resolved_of sample_edge sample_transition)"
  by (simp add: upgrade_edge_resolves_exactly [OF sample_graph_valid])
    (simp add: sample_edge_def sample_edge_request_def sample_transition_def)

theorem upgrade_target_sound_witness:
  "fc_version (ri_framework (ru_target (resolved_of sample_edge sample_transition))) = ''v0.8.0'' \<and>
   (\<exists>graph. composition_resolve sample_component_package sample_catalog (target_request sample_component_package sample_transition) =
      Some (Inr graph))"
  using upgrade_target_sound [OF sample_catalogs_validated(1) sample_graph_valid sample_edge_resolves]
  by (auto simp: sample_component_package_def resolved_of_def)

theorem upgrade_integrations_sound_witness:
  "target_digest sample_paths [] (hd (ue_managed_integrations sample_edge)) = Some (sample_digest (CHR ''b''))"
  using upgrade_integrations_sound [OF sample_graph_valid sample_edge_resolves]
  by (simp add: resolved_of_def sample_edge_def)

end
