(* ===== verification/Package_Integrity.thy ===== *)
theory Package_Integrity
  imports Package_Catalog Upgrade_Paths
begin

text \<open>
  What loading a catalog guarantees: its components are validated, so that every resolution returns; and the content
  digest of a package covers every file of the snapshot, through an encoding that is injective.
\<close>


section \<open>The encoding of the content\<close>

lemma to_be_bytes_length [simp]: "length (to_be_bytes n) = 8"
  by (simp add: to_be_bytes_def)

text \<open>The digits of a number in base 256 determine it.\<close>

lemma digits_eq:
  fixes a b :: nat
  assumes "\<And>i. i < n \<Longrightarrow> a div 256 ^ i mod 256 = b div 256 ^ i mod 256" "a < 256 ^ n" "b < 256 ^ n"
  shows "a = b"
  using assms
proof (induction n arbitrary: a b)
  case (Suc n)
  have "a div 256 = b div 256"
  proof (rule Suc.IH)
    show "a div 256 div 256 ^ i mod 256 = b div 256 div 256 ^ i mod 256" if "i < n" for i
      using Suc.prems(1) [of "Suc i"] that by (simp add: div_mult2_eq)
  qed (use Suc.prems(2,3) in \<open>simp_all add: less_mult_imp_div_less mult.commute\<close>)
  moreover have "a mod 256 = b mod 256" using Suc.prems(1) [of 0] by simp
  ultimately show ?case by (metis div_mult_mod_eq)
qed simp

lemma to_be_bytes_inj: "to_be_bytes m = to_be_bytes n \<longleftrightarrow> m = n"
proof
  assume eq: "to_be_bytes m = to_be_bytes n"
  have "unat m div 256 ^ i mod 256 = unat n div 256 ^ i mod 256" if "i < 8" for i
  proof -
    have "to_be_bytes m ! (7 - i) = to_be_bytes n ! (7 - i)" using eq by simp
    then have "of_char (to_be_bytes m ! (7 - i)) = (of_char (to_be_bytes n ! (7 - i)) :: nat)" by simp
    moreover have "[0..<8] ! (7 - i) = 7 - i" using that by (subst nth_upt) auto
    ultimately show ?thesis using that by (simp add: to_be_bytes_def)
  qed
  note digits = this
  have bound: "unat x < 256 ^ 8" for x :: "64 word" using unsigned_less [where 'a = nat, of x] by simp
  have "unat m = unat n" by (rule digits_eq [OF digits bound bound])
  then show "m = n" by (rule unsigned_word_eqI)
qed simp

lemma encode_bytes_inj:
  assumes "encode_bytes a @ r = encode_bytes b @ s" "length a < 2 ^ 64" "length b < 2 ^ 64"
  shows "a = b \<and> r = s"
proof -
  have "to_be_bytes (of_nat (length a)) = to_be_bytes (of_nat (length b)) \<and> a @ r = b @ s"
    using assms(1) by (simp add: encode_bytes_def append_eq_append_conv)
  then have "(of_nat (length a) :: 64 word) = of_nat (length b)" and rest: "a @ r = b @ s"
    by (simp_all add: to_be_bytes_inj)
  then have "unat (of_nat (length a) :: 64 word) = unat (of_nat (length b) :: 64 word)" by simp
  then have "length a = length b" using assms(2,3) by (simp add: unat_of_nat)
  with rest show ?thesis by simp
qed

text \<open>Entries whose keys and contents have a length of 64 bits.\<close>

definition encodable :: "(string, string) btree \<Rightarrow> bool" where
  "encodable entries \<longleftrightarrow> (\<forall>(path, content) \<in> set entries. length path < 2 ^ 64 \<and> length content < 2 ^ 64)"

lemma encode_entries_inj:
  "encode_entries a = encode_entries b \<Longrightarrow> encodable a \<Longrightarrow> encodable b \<Longrightarrow> a = b"
proof (induction a arbitrary: b)
  case Nil
  then show ?case by (cases b) (auto simp: encode_entries_def encode_bytes_def split: prod.splits dest: arg_cong [of _ _ length])
next
  case (Cons e a)
  show ?case
  proof (cases b)
    case Nil
    with Cons.prems(1) show ?thesis
      by (cases e) (auto simp: encode_entries_def encode_bytes_def dest: arg_cong [of _ _ length])
  next
    case (Cons f c)
    obtain p x q y where e: "e = (p, x)" and f: "f = (q, y)" by fastforce
    have "encode_bytes p @ encode_bytes x @ encode_entries a = encode_bytes q @ encode_bytes y @ encode_entries c"
      using Cons.prems(1) Cons e f by (simp add: encode_entries_def)
    moreover have "length p < 2 ^ 64" "length x < 2 ^ 64" "length q < 2 ^ 64" "length y < 2 ^ 64"
      using Cons.prems(2,3) Cons e f by (auto simp: encodable_def)
    ultimately have "p = q" "x = y" "encode_entries a = encode_entries c" using encode_bytes_inj by blast+
    with Cons.IH [of c] Cons.prems(2,3) Cons e f show ?thesis by (simp add: encodable_def)
  qed
qed

section \<open>What loading establishes\<close>

lemma bt_insert_set: "set (bt_insert k v t) \<subseteq> insert (k, v) (set t)"
  by (induction k v t rule: bt_insert.induct) auto

lemma validate_component_manifest_path [simp]:
  "validate_component (component\<lparr> co_manifest_path := path \<rparr>) package = validate_component component package"
  by (simp add: validate_component_def validate_component_version_def validate_installation_def installable_def
      cong: option.case_cong)

lemma load_components_valid:
  assumes "load_components P source package paths components = Inr components'"
    and "\<forall>(i, c) \<in> set components. validate_component c package = Inr () \<and> co_id c = i"
  shows "\<forall>(i, c) \<in> set components'. validate_component c package = Inr () \<and> co_id c = i"
  using assms
proof (induction P source package paths components rule: load_components.induct)
  case (2 P source package path rest components)
  from 2(2) obtain component where c: "validate_component component package = Inr ()"
    and rest: "load_components P source package rest
        (bt_insert (co_id component) (component\<lparr> co_manifest_path := path \<rparr>) components) = Inr components'"
    and pre: "reject_if (path_parent path \<noteq> Some [Normal ''components''] \<or> path_extension path \<noteq> Some ''toml'')
       (renderer_error_new ''component package contains an undeclared component manifest entry'') = Inr ()"
      "read_required_manifest source (pc_component_toml P) path ''component'' = Inr component"
    unfolding load_components.simps then_check_Inr and_then_Inr by auto
  have "\<forall>(i, c) \<in> set (bt_insert (co_id component) (component\<lparr> co_manifest_path := path \<rparr>) components).
      validate_component c package = Inr () \<and> co_id c = i"
    using 2(3) c bt_insert_set [of "co_id component" "component\<lparr> co_manifest_path := path \<rparr>" components] by fastforce
  with 2(1) rest show ?case by blast
qed simp

lemma load_internal_Inr:
  assumes "load_internal P source template_id check = Inr catalog"
  shows "ct_source catalog = source"
    "\<forall>(i, c) \<in> set (ct_components catalog). validate_component c (ct_package catalog) = Inr () \<and> co_id c = i"
    "validate_declared_package_files catalog = Inr ()"
    "check \<Longrightarrow> validate_package_content P catalog = Inr ()"
proof -
  from assms obtain package template components edges where
    components: "load_components P source package (map fst (files_below source [Normal ''components''])) [] = Inr components"
    and graph: "catalog_validate_upgrade_graph P
         \<lparr> ct_source = source, ct_template = template, ct_components = components, ct_package = package,
           ct_upgrade_edges = edges \<rparr> = Inr catalog"
    and rest: "validate_declared_package_files catalog = Inr ()" "check \<Longrightarrow> validate_package_content P catalog = Inr ()"
    unfolding load_internal_def then_check_Inr and_then_Inr by (auto split: if_splits)
  from graph have "ct_source catalog = source \<and> ct_components catalog = components \<and> ct_package catalog = package"
    unfolding catalog_validate_upgrade_graph_def by (auto split: option.splits)
  with load_components_valid [OF components] rest
  show "ct_source catalog = source"
    "\<forall>(i, c) \<in> set (ct_components catalog). validate_component c (ct_package catalog) = Inr () \<and> co_id c = i"
    "validate_declared_package_files catalog = Inr ()"
    "check \<Longrightarrow> validate_package_content P catalog = Inr ()" by auto
qed


section \<open>Resolution of a loaded catalog\<close>

lemma resolve_legacy_returns:
  assumes "sorted_requirements components"
  shows "\<exists>r. resolve_legacy_components components roots = Some r"
proof -
  have "walk_inv components (set roots) [] (walk_start [])"
    by (simp add: walk_inv_def walk_start_def bt_get_def fun_eq_iff)
  moreover have "next_ok components (set roots) (walk_start []) i" if "i \<in> set (sort roots)" for i
    using that by (auto simp: next_ok_def needed_def walk_start_def)
  moreover have "card (unvisited components (walk_start [])) < Suc (length components)"
    using unvisited_bound [of components "[]"] by simp
  then obtain w where "visit_all (Suc (length components)) components None (sort roots) (walk_start []) = Some w"
    using visit_ends(2) by blast
  ultimately have "walks_alike components (walk_start []) w
      (legacy_visit_all (Suc (length components)) components (sort roots) (legacy_state components (walk_start [])))"
    using assms by (intro legacy_visit_alike(2))
  then show ?thesis
    by (auto simp: walks_alike_def resolve_legacy_components_def legacy_state_def walk_start_def split: if_splits)
qed

lemma loaded_components_validated:
  assumes "load_internal P source template_id check = Inr catalog" "ct_package catalog = Some package"
  shows "validated_components package (ct_components catalog)"
  using load_internal_Inr(2) [OF assms(1)] assms(2) by (simp add: validated_components_def)

text \<open>C37. Whatever the files of a package are: if its catalog loads, then resolving its template, any roots or any request
  returns, with a composition or with an error; no circular requirement makes it run for ever and no missing data makes
  it panic. This holds for packages and for unpackaged components.\<close>
theorem loaded_catalog_resolves:
  assumes "load_internal P source template_id check = Inr catalog"
  shows "(\<exists>r. resolve_components catalog = Some r) \<and> (\<exists>r. resolve_component_roots catalog roots = Some r) \<and>
    (\<exists>r. resolve_composition catalog request = Some r)"
proof (cases "ct_package catalog")
  case None
  have "sorted_requirements (ct_components catalog)"
    using load_internal_Inr(2) [OF assms] None by (intro validated_sorted_requirements [of _ None]) fastforce
  with None resolve_legacy_returns show ?thesis
    by (simp add: resolve_components_def resolve_component_roots_def resolve_composition_def)
next
  case (Some package)
  note total = composition_resolution_total [OF loaded_components_validated [OF assms Some]]
  have "\<exists>r. resolve_component_roots catalog roots = Some r" for roots
    using total Some by (simp add: resolve_component_roots_def)
  moreover from this obtain r where "resolve_component_roots catalog None = Some r" by blast
  then have "\<exists>r. resolve_components catalog = Some r" using Some by (simp add: resolve_components_def)
  moreover have "\<exists>r. resolve_composition catalog request = Some r" using total Some by (simp add: resolve_composition_def)
  ultimately show ?thesis by blast
qed

section \<open>The digest covers the package\<close>

lemma bt_insert_keeps: "bt_get t k = None \<Longrightarrow> bt_get t k' = Some v' \<Longrightarrow> bt_get (bt_insert k v t) k' = Some v'"
  by (auto simp: bt_get_insert)

lemma insert_package_entry_Inr:
  "insert_package_entry entries path content = Inr entries' \<longleftrightarrow> bt_get entries path = None \<and> entries' = bt_insert path content entries"
  by (auto simp: insert_package_entry_def)

text \<open>Adding entries keeps the entries there are and adds the given ones.\<close>

lemma insert_entries_Inr:
  assumes "insert_entries entry xs entries = Inr entries'"
  shows "(\<forall>k v. bt_get entries k = Some v \<longrightarrow> bt_get entries' k = Some v) \<and>
    (\<forall>x \<in> set xs. \<exists>key content. entry x = Inr (key, content) \<and> bt_get entries' key = Some content)"
  using assms
proof (induction entry xs entries rule: insert_entries.induct)
  case (2 entry x rest entries)
  then obtain key content where e: "entry x = Inr (key, content)" "bt_get entries key = None"
    and rest: "insert_entries entry rest (bt_insert key content entries) = Inr entries'"
    by (auto simp: insert_package_entry_Inr)
  have IH: "(\<forall>k v. bt_get (bt_insert key content entries) k = Some v \<longrightarrow> bt_get entries' k = Some v) \<and>
      (\<forall>x \<in> set rest. \<exists>key content. entry x = Inr (key, content) \<and> bt_get entries' key = Some content)"
    by (rule 2(1) [OF rest])
  then have "bt_get entries' key = Some content" by (simp add: bt_get_insert)
  with IH e bt_insert_keeps [OF e(2)] show ?case by auto
qed simp

lemma insert_component_Inr:
  assumes "insert_component catalog component entries = Inr entries'"
  shows "(\<forall>k v. bt_get entries k = Some v \<longrightarrow> bt_get entries' k = Some v) \<and>
    (\<exists>manifest. source_file (ct_source catalog) (component_path (co_id component)) = Some manifest \<and>
       bt_get entries' (''components/'' @ co_id component @ ''.toml'') = Some manifest) \<and>
    (\<exists>files. component_files (ct_source catalog) component = Inr files \<and>
       (\<forall>(relative, content) \<in> set files. \<exists>key. path_to_package_key relative = Inr key \<and>
          bt_get entries' (''sources/'' @ co_id component @ ''/'' @ key) = Some content))"
proof -
  from assms obtain manifest files where
    m: "source_file (ct_source catalog) (component_path (co_id component)) = Some manifest"
      "bt_get entries (''components/'' @ co_id component @ ''.toml'') = None"
    and f: "component_files (ct_source catalog) component = Inr files"
    and i: "insert_entries (component_entry component) files
      (bt_insert (''components/'' @ co_id component @ ''.toml'') manifest entries) = Inr entries'"
    unfolding insert_component_def and_then_Inr insert_package_entry_Inr required_file_def required_Inr by auto
  note ins = insert_entries_Inr [OF i]
  have "\<exists>key. path_to_package_key relative = Inr key \<and> bt_get entries' (''sources/'' @ co_id component @ ''/'' @ key) = Some content"
    if "(relative, content) \<in> set files" for relative content
    using ins that by (fastforce simp: component_entry_def)
  with ins m f bt_insert_keeps [OF m(2)] show ?thesis by (auto simp: bt_get_insert)
qed

lemma insert_components_Inr:
  assumes "insert_components catalog components entries = Inr entries'"
  shows "(\<forall>k v. bt_get entries k = Some v \<longrightarrow> bt_get entries' k = Some v) \<and>
    (\<forall>component \<in> set components.
      (\<exists>manifest. source_file (ct_source catalog) (component_path (co_id component)) = Some manifest \<and>
         bt_get entries' (''components/'' @ co_id component @ ''.toml'') = Some manifest) \<and>
      (\<exists>files. component_files (ct_source catalog) component = Inr files \<and>
         (\<forall>(relative, content) \<in> set files. \<exists>key. path_to_package_key relative = Inr key \<and>
            bt_get entries' (''sources/'' @ co_id component @ ''/'' @ key) = Some content)))"
  using assms
proof (induction catalog components entries rule: insert_components.induct)
  case (2 catalog component rest entries)
  then obtain entries1 where e1: "insert_component catalog component entries = Inr entries1"
    and rest: "insert_components catalog rest entries1 = Inr entries'" by auto
  note c = insert_component_Inr [OF e1] and IH = 2(1) [OF rest]
  have keeps: "bt_get entries1 k = Some v \<Longrightarrow> bt_get entries' k = Some v" for k v using IH by blast
  have "\<exists>files. component_files (ct_source catalog) component = Inr files \<and>
       (\<forall>(relative, content) \<in> set files. \<exists>key. path_to_package_key relative = Inr key \<and>
          bt_get entries' (''sources/'' @ co_id component @ ''/'' @ key) = Some content)"
    using c keeps by fastforce
  with c IH keeps show ?case by auto
qed simp


text \<open>Where a file of the snapshot appears among the entries.\<close>

definition entry_key :: "manifest_catalog \<Rightarrow> path_key \<Rightarrow> string \<Rightarrow> bool" where
  "entry_key catalog path key \<longleftrightarrow>
     path_to_package_key path = Inr key \<or>
     (\<exists>component \<in> set (bt_values (ct_components catalog)).
        path = component_path (co_id component) \<and> key = ''components/'' @ co_id component @ ''.toml'' \<or>
        (\<exists>relative tail. path = path_join (path_components (co_source component)) relative \<and>
           path_to_package_key relative = Inr tail \<and> key = ''sources/'' @ co_id component @ ''/'' @ tail))"

lemma component_source_paths_Inr:
  assumes "component_source_paths source components = Inr paths" "path \<in> paths"
  shows "\<exists>component \<in> set components. path = component_path (co_id component) \<or>
    (\<exists>files relative content. component_files source component = Inr files \<and> (relative, content) \<in> set files \<and>
       path = path_join (path_components (co_source component)) relative)"
  using assms
proof (induction source components arbitrary: paths rule: component_source_paths.induct)
  case (2 source component rest)
  then obtain files paths' where f: "component_files source component = Inr files"
    and rest: "component_source_paths source rest = Inr paths'"
    and paths: "paths = insert (component_path (co_id component))
       (set (map (\<lambda>(relative, _). path_join (path_components (co_source component)) relative) files) \<union> paths')"
    by auto
  from 2(3) [unfolded paths] show ?case
  proof (elim insertE UnE)
    assume "path \<in> paths'"
    with 2(1) [OF rest] show ?thesis by auto
  qed (use f in auto)
qed simp

text \<open>The content of a component's file is the content of the snapshot at its path.\<close>

lemma insert_relative_Inr:
  assumes "insert_relative source_root files selected = Inr selected'"
    "bt_ok selected" "\<forall>relative content. bt_get selected relative = Some content \<longrightarrow> source_file source (source_root @ relative) = Some content"
    "\<forall>(path, content) \<in> set files. source_file source path = Some content"
  shows "bt_ok selected' \<and>
    (\<forall>relative content. bt_get selected' relative = Some content \<longrightarrow> source_file source (source_root @ relative) = Some content)"
  using assms
proof (induction source_root files selected rule: insert_relative.induct)
  case (2 source_root path content rest selected)
  then obtain relative where r: "path = source_root @ relative"
    and rest: "insert_relative source_root rest (bt_insert relative content selected) = Inr selected'"
    by (auto simp: relative_path_def path_strip_prefix_Some)
  show ?case
    by (rule 2(1) [OF rest])
      (use 2(3-5) r in \<open>auto simp: bt_get_insert bt_insert_ok relative_path_def path_strip_prefix_Some\<close>)
qed simp


lemma include_all_Inr:
  assumes "include_all source source_root declared selected = Inr selected'" "bt_ok source"
    "bt_ok selected" "\<forall>relative content. bt_get selected relative = Some content \<longrightarrow> source_file source (source_root @ relative) = Some content"
  shows "bt_ok selected' \<and>
    (\<forall>relative content. bt_get selected' relative = Some content \<longrightarrow> source_file source (source_root @ relative) = Some content)"
  using assms
proof (induction source source_root declared selected rule: include_all.induct)
  case (2 source source_root included rest selected)
  then obtain selected1 where one: "include_files source source_root included selected = Inr selected1"
    and rest: "include_all source source_root rest selected1 = Inr selected'" by auto
  have entries: "source_file source path = Some content" if "(path, content) \<in> set source" for path content
    using that bt.entries_get [OF 2(3)] by (simp add: source_file_def)
  have "bt_ok selected1 \<and>
    (\<forall>relative content. bt_get selected1 relative = Some content \<longrightarrow> source_file source (source_root @ relative) = Some content)"
  proof (cases "source_file source (path_join source_root (path_components included))")
    case (Some content)
    with one have "insert_relative source_root [(path_join source_root (path_components included), content)] selected = Inr selected1"
      by (simp add: include_files_def Let_def)
    then show ?thesis by (rule insert_relative_Inr) (use 2(4,5) Some in simp_all)
  next
    case None
    with one have "insert_relative source_root (filter (\<lambda>(path, _). path \<noteq> path_join source_root (path_components included))
        (files_below source (path_join source_root (path_components included)))) selected = Inr selected1"
      by (simp add: include_files_def Let_def)
    then show ?thesis by (rule insert_relative_Inr) (use 2(4,5) entries in \<open>auto simp: files_below_def\<close>)
  qed
  with 2(1) [OF rest 2(3)] show ?case by blast
qed simp

lemma component_files_Inr:
  assumes "component_files source component = Inr files" "bt_ok source" "(relative, content) \<in> set files"
  shows "source_file source (path_components (co_source component) @ relative) = Some content"
proof -
  have f: "bt_ok files \<and> (\<forall>relative content. bt_get files relative = Some content \<longrightarrow>
      source_file source (path_components (co_source component) @ relative) = Some content)"
    by (rule include_all_Inr [OF assms(1) [unfolded component_files_def] assms(2)]) (simp_all add: bt_ok_def bt_get_def)
  then have "bt_get files relative = Some content" using assms(3) bt.entries_get [of files relative content] by blast
  with f show ?thesis by blast
qed

text \<open>The snapshot that the code takes: paths of names below the root, each once.\<close>

definition snapshot :: "package_source \<Rightarrow> bool" where
  "snapshot source \<longleftrightarrow> bt_ok source \<and> (\<forall>(path, content) \<in> set source. \<exists>names. path = map Normal names)"

lemma join_of_file:
  assumes "snapshot source" "source_file source (root @ relative) = Some content"
  shows "path_join root relative = root @ relative"
proof -
  have "(root @ relative, content) \<in> set source"
    using assms by (simp add: snapshot_def source_file_def bt.entries_get)
  with assms(1) obtain names where "root @ relative = map Normal names" by (auto simp: snapshot_def)
  then obtain tail where "relative = map Normal tail" by (auto simp: append_eq_map_conv)
  then show ?thesis by (cases tail) (auto simp: path_join_def filter_map comp_def)
qed

lemma declared_entries:
  assumes "insert_entries (declared_entry catalog kind) paths entries = Inr entries'" "path \<in> set paths"
    "source_file (ct_source catalog) path = Some content"
  shows "\<exists>key. path_to_package_key path = Inr key \<and> bt_get entries' key = Some content"
  using insert_entries_Inr [OF assms(1)] assms(2,3) by (fastforce simp: declared_entry_def required_file_def)

text \<open>C38. The content digest of a loaded package authenticates its files. The digest in the manifest is that of the
  entries; every file of the snapshot but the manifest itself is among the entries, with its content; and any other
  entries with the same digest would be a collision of SHA-256, because the encoding is injective.\<close>
theorem package_content_authenticated:
  assumes "load_internal P source template_id True = Inr catalog" "ct_package catalog = Some package" "snapshot source"
  shows "\<exists>entries. package_entries catalog package = Inr entries \<and> package_digest P entries = cm_content_digest package \<and>
    (\<forall>(path, content) \<in> set source. path \<noteq> package_path \<longrightarrow>
       (\<exists>key. entry_key catalog path key \<and> bt_get entries key = Some content)) \<and>
    (\<forall>other. encodable entries \<and> encodable other \<and> package_digest P other = cm_content_digest package \<and>
       inj_on (pc_sha256 P) {encode_entries entries, encode_entries other} \<longrightarrow> other = entries)"
proof -
  note load = load_internal_Inr [OF assms(1)]
  have ok: "bt_ok source" using assms(3) by (simp add: snapshot_def)
  from load(4) [OF TrueI] obtain entries where e: "package_entries catalog package = Inr entries"
    and digest: "package_digest P entries = cm_content_digest package"
    unfolding validate_package_content_def assms(2) option.case and_then_Inr reject_if_Inr by blast
  from e obtain templates edges where
    templates: "insert_entries (declared_entry catalog ''packaged template manifest'') (map template_path (cm_templates package)) [] = Inr templates"
    and edges: "insert_entries (declared_entry catalog ''upgrade edge'')
       (map path_components (cm_upgrade_edges package @ cm_upgrade_lockfiles package)) templates = Inr edges"
    and comps: "insert_components catalog (bt_values (ct_components catalog)) edges = Inr entries"
    unfolding package_entries_def and_then_Inr by blast
  note keeps = insert_entries_Inr [OF edges] and cs = insert_components_Inr [OF comps]
  from load(3) obtain sources where
    src: "component_source_paths source (bt_values (ct_components catalog)) = Inr sources"
    and declared: "{package_path} \<union> set (map template_path (cm_templates package)) \<union>
        set (map path_components (cm_upgrade_edges package)) \<union> set (map path_components (cm_upgrade_lockfiles package)) \<union> sources
      = set (map fst source)"
    unfolding validate_declared_package_files_def assms(2) option.case and_then_Inr reject_if_Inr load(1) by blast
  have "\<exists>key. entry_key catalog path key \<and> bt_get entries key = Some content"
    if entry: "(path, content) \<in> set source" and other: "path \<noteq> package_path" for path content
  proof -
    have get: "source_file source path = Some content" using entry bt.entries_get [OF ok] by (simp add: source_file_def)
    then have get': "source_file (ct_source catalog) path = Some content" by (simp add: load(1))
    have "path \<in> set (map fst source)" using entry by force
    with declared other consider "path \<in> set (map template_path (cm_templates package))"
      | "path \<in> set (map path_components (cm_upgrade_edges package @ cm_upgrade_lockfiles package))" | "path \<in> sources" by auto
    then show ?thesis
    proof cases
      case 1
      from declared_entries [OF templates this get'] keeps cs show ?thesis unfolding entry_key_def by blast
    next
      case 2
      from declared_entries [OF edges this get'] cs show ?thesis unfolding entry_key_def by blast
    next
      case 3
      from component_source_paths_Inr [OF src this] obtain component where
        c: "component \<in> set (bt_values (ct_components catalog))" and
        which: "path = component_path (co_id component) \<or> (\<exists>files relative content. component_files source component = Inr files \<and>
          (relative, content) \<in> set files \<and> path = path_join (path_components (co_source component)) relative)" by blast
      from which show ?thesis
      proof
        assume path: "path = component_path (co_id component)"
        from cs c obtain manifest where m: "source_file (ct_source catalog) (component_path (co_id component)) = Some manifest"
          "bt_get entries (''components/'' @ co_id component @ ''.toml'') = Some manifest" by blast
        then have "manifest = content" using get' path by simp
        with m c path show ?thesis unfolding entry_key_def by blast
      next
        assume "\<exists>files relative content. component_files source component = Inr files \<and>
          (relative, content) \<in> set files \<and> path = path_join (path_components (co_source component)) relative"
        then obtain files relative content' where f: "component_files source component = Inr files" "(relative, content') \<in> set files"
          "path = path_join (path_components (co_source component)) relative" by blast
        note at = component_files_Inr [OF f(1) ok f(2)]
        then have "content' = content" using get join_of_file [OF assms(3) at] f(3) by simp
        moreover from cs c have "\<exists>files. component_files (ct_source catalog) component = Inr files \<and>
          (\<forall>(relative, content) \<in> set files. \<exists>key. path_to_package_key relative = Inr key \<and>
            bt_get entries (''sources/'' @ co_id component @ ''/'' @ key) = Some content)" by blast
        with f(1,2) load(1) obtain key where "path_to_package_key relative = Inr key"
          "bt_get entries (''sources/'' @ co_id component @ ''/'' @ key) = Some content'" by auto
        ultimately show ?thesis using c f(3) unfolding entry_key_def by blast
      qed
    qed
  qed
  moreover have "other = entries" if "encodable entries" "encodable other" "package_digest P other = cm_content_digest package"
    "inj_on (pc_sha256 P) {encode_entries entries, encode_entries other}" for other
  proof -
    have "pc_sha256 P (encode_entries other) = pc_sha256 P (encode_entries entries)"
      using that(3) digest by (metis append_same_eq package_digest_def same_append_eq sha256_text_def)
    then have "encode_entries other = encode_entries entries" using inj_onD [OF that(4)] by blast
    then show ?thesis by (rule encode_entries_inj [OF _ that(2,1)])
  qed
  ultimately show ?thesis using e digest by blast
qed


text \<open>Names that are not UTF-8 are an exception: the key replaces their invalid bytes, so that renaming such a file
  changes neither its key nor the digest.\<close>

lemma lossy_names_collide:
  "path_to_package_key [Normal [CHR 0xFF]] = path_to_package_key [Normal [CHR 0xFE]]"
  by code_simp

section \<open>A sample package\<close>

definition sample_sha256 :: "string \<Rightarrow> string" where
  "sample_sha256 content = replicate 64 (CHR ''0'')"

definition packaged_catalog :: "(string, component_manifest) btree" where
  "packaged_catalog = map (\<lambda>(i, c). (i, c\<lparr> co_include := [i @ ''.txt''] \<rparr>)) circular_catalog"

definition sample_package_codec :: package_codec where
  "sample_package_codec =
     \<lparr> pc_manifest = upgrade_codec, pc_version = sample_semver,
       pc_template_toml = (\<lambda>s. if s = ''template''
         then Inr \<lparr> tm_schema = 1, tm_id = ''layered'', tm_components = [''identity''], tm_variables = [] \<rparr> else Inl ''error''),
       pc_package_toml = (\<lambda>s. if s = ''package'' then Inr sample_component_package else Inl ''error''),
       pc_component_toml = (\<lambda>s. case bt_get packaged_catalog s of Some c \<Rightarrow> Inr c | None \<Rightarrow> Inl ''error''),
       pc_edge_toml = (\<lambda>s. Inl ''error''), pc_sha256 = sample_sha256 \<rparr>"

definition sample_source :: package_source where
  "sample_source =
     [(map Normal [''applications'', ''layered'', ''base.txt''], ''base source''),
      (map Normal [''applications'', ''layered'', ''identity.txt''], ''identity source''),
      (map Normal [''applications'', ''layered'', ''template.toml''], ''template''),
      (map Normal [''components'', ''base.toml''], ''base''),
      (map Normal [''components'', ''identity.toml''], ''identity''),
      (map Normal [''package.toml''], ''package'')]"

lemma load_then_check:
  "load_internal P source template_id True =
     and_then (load_internal P source template_id False) (\<lambda>catalog. then_check (validate_package_content P catalog) (Inr catalog))"
  by (simp add: load_internal_def and_then_def then_check_def split: sum.split)

definition unchecked_load :: "renderer_error + manifest_catalog" where
  "unchecked_load = load_internal sample_package_codec sample_source ''layered'' False"

lemma sample_loads:
  "case unchecked_load of Inl _ \<Rightarrow> False
     | Inr catalog \<Rightarrow> ct_package catalog = Some sample_component_package \<and>
         (case package_entries catalog sample_component_package of Inl _ \<Rightarrow> False | Inr _ \<Rightarrow> True)"
  by code_simp

lemma sample_snapshot: "snapshot sample_source"
proof -
  have "bt_ok sample_source" by code_simp
  moreover have "\<exists>names. path = map Normal names" if "(path, content) \<in> set sample_source" for path content
    using that unfolding sample_source_def set_simps insert_iff empty_iff prod.inject by blast
  ultimately show ?thesis unfolding snapshot_def by blast
qed

lemma sample_loaded:
  obtains catalog where "load_internal sample_package_codec sample_source ''layered'' True = Inr catalog"
    "ct_package catalog = Some sample_component_package"
proof -
  obtain catalog entries where c: "unchecked_load = Inr catalog" "ct_package catalog = Some sample_component_package"
    "package_entries catalog sample_component_package = Inr entries"
    using sample_loads by (auto split: sum.splits)
  have "package_digest sample_package_codec entries = cm_content_digest sample_component_package"
    by (simp add: package_digest_def sha256_text_def sample_package_codec_def sample_sha256_def sample_component_package_def)
  with c have "validate_package_content sample_package_codec catalog = Inr ()" by (simp add: validate_package_content_def)
  with c have "load_internal sample_package_codec sample_source ''layered'' True = Inr catalog"
    by (simp add: load_then_check unchecked_load_def)
  with c(2) that show ?thesis by blast
qed

theorem loaded_catalog_resolves_witness:
  "\<exists>catalog r. load_internal sample_package_codec sample_source ''layered'' True = Inr catalog \<and> resolve_components catalog = Some r"
proof -
  obtain catalog where c: "load_internal sample_package_codec sample_source ''layered'' True = Inr catalog" by (rule sample_loaded)
  with loaded_catalog_resolves [OF c] show ?thesis by blast
qed

theorem package_content_authenticated_witness:
  "\<exists>catalog entries. package_entries catalog sample_component_package = Inr entries \<and>
     package_digest sample_package_codec entries = cm_content_digest sample_component_package"
proof -
  obtain catalog where c: "load_internal sample_package_codec sample_source ''layered'' True = Inr catalog"
    "ct_package catalog = Some sample_component_package" by (rule sample_loaded)
  from package_content_authenticated [OF c sample_snapshot] show ?thesis by blast
qed

end
