(* ===== verification/Upgrade_Authentication.thy ===== *)
theory Upgrade_Authentication
  imports Publisher Package_Catalog
begin

text \<open>
  Authentication of an application against an upgrade edge (\<^verbatim>\<open>tools/template_renderer/src/upgrade_authentication.rs\<close>):
  the anchored reads of an application's files that follow no symbolic link, the edge an application asks for, and the
  comparison of every managed file with the digests and the ownership that the edge declares. The file system is that of
  the publisher.
\<close>

section \<open>Diagnostics\<close>

definition UPGRADE_AUTHENTICATION_SCHEMA :: "32 word" where "UPGRADE_AUTHENTICATION_SCHEMA = 1"
definition MAX_MANAGED_SOURCE_BYTES :: nat where "MAX_MANAGED_SOURCE_BYTES = 64 * 1024 * 1024"

datatype upgrade_authentication_diagnostic_kind =
    UnsafeApplicationRoot | InvalidManifest | UnsupportedRelease | UnsupportedComposition | OwnershipMismatch
  | MissingManagedSource | UnexpectedManagedSource | UnsupportedSourceType | SourceDigestMismatch
  | SourceLimitExceeded | PackageContract

record upgrade_authentication_error =
  ua_schema :: "32 word"
  ua_kind :: upgrade_authentication_diagnostic_kind
  ua_subject :: string

definition auth_error :: "upgrade_authentication_diagnostic_kind \<Rightarrow> string \<Rightarrow> upgrade_authentication_error" where
  "auth_error kind subject = \<lparr> ua_schema = UPGRADE_AUTHENTICATION_SCHEMA, ua_kind = kind, ua_subject = subject \<rparr>"

fun auth_diagnostic_name :: "upgrade_authentication_diagnostic_kind \<Rightarrow> string" where
  "auth_diagnostic_name UnsafeApplicationRoot = ''unsafe-application-root''"
| "auth_diagnostic_name InvalidManifest = ''invalid-manifest''"
| "auth_diagnostic_name UnsupportedRelease = ''unsupported-release''"
| "auth_diagnostic_name UnsupportedComposition = ''unsupported-composition''"
| "auth_diagnostic_name OwnershipMismatch = ''ownership-mismatch''"
| "auth_diagnostic_name MissingManagedSource = ''missing-managed-source''"
| "auth_diagnostic_name UnexpectedManagedSource = ''unexpected-managed-source''"
| "auth_diagnostic_name UnsupportedSourceType = ''unsupported-source-type''"
| "auth_diagnostic_name SourceDigestMismatch = ''source-digest-mismatch''"
| "auth_diagnostic_name SourceLimitExceeded = ''source-limit-exceeded''"
| "auth_diagnostic_name PackageContract = ''package-contract''"

definition auth_error_text :: "upgrade_authentication_error \<Rightarrow> string" where
  "auth_error_text e = auth_diagnostic_name (ua_kind e) @ '': '' @ ua_subject e"

type_synonym 'a authentication = "(world, upgrade_authentication_error, 'a) exec"

section \<open>Anchored reads\<close>

text \<open>\<^verbatim>\<open>statat\<close> with \<^verbatim>\<open>AT_SYMLINK_NOFOLLOW\<close>: whether the entry is a regular file; \<^verbatim>\<open>fstat\<close>: the same of an open file, and
  its size.\<close>

definition sys_stat_regular :: "inode \<Rightarrow> string \<Rightarrow> bool sys" where
  "sys_stat_regular d name = syscall (\<lambda>w.
     (case w_links w (d, name) of
        None \<Rightarrow> Inl NOENT
      | Some i \<Rightarrow> Inr (case w_nodes w i of Some (Regular _ _) \<Rightarrow> True | _ \<Rightarrow> False), w))"

definition sys_fstat :: "inode \<Rightarrow> (bool \<times> nat) sys" where
  "sys_fstat i = syscall (\<lambda>w.
     (Inr (case w_nodes w i of Some (Regular content _) \<Rightarrow> (True, length content) | _ \<Rightarrow> (False, 0)), w))"

record application_source =
  so_root_path :: string
  so_root :: inode
  so_identity :: identity

definition unsafe_application :: upgrade_authentication_error where
  "unsafe_application = auth_error UnsafeApplicationRoot ''application-root''"

text \<open>\<^verbatim>\<open>PathBuf::push\<close> of a name, and the loop that pushes the components one by one.\<close>

definition push_name :: "string \<Rightarrow> string \<Rightarrow> string" where
  "push_name resolved part = (if resolved = [] then part else joined resolved part)"

fun push_components :: "string \<Rightarrow> path_component list \<Rightarrow> upgrade_authentication_error + string" where
  "push_components resolved [] = Inr resolved"
| "push_components resolved (component # rest) =
     (case component of
        RootDir \<Rightarrow> push_components ''/'' rest
      | CurDir \<Rightarrow> push_components resolved rest
      | Normal part \<Rightarrow> push_components (push_name resolved part) rest
      | ParentDir \<Rightarrow> Inl unsafe_application)"

definition absolute_lexical :: "string \<Rightarrow> string authentication" where
  "absolute_lexical path =
     bindE (if is_absolute path then ret path
            else bindE (gets w_cwd) (\<lambda>cwd. bindE (ok_or cwd unsafe_application) (\<lambda>cwd. ret (joined cwd path))))
       (\<lambda>absolute. of_result (push_components [] (path_components absolute)))"

text \<open>The loops that open one directory after the other. Other components than names are skipped at the root; below it
  the path has been validated and has none.\<close>

fun open_below :: "upgrade_authentication_error \<Rightarrow> inode \<Rightarrow> path_component list \<Rightarrow> inode authentication" where
  "open_below e directory [] = ret directory"
| "open_below e directory (component # rest) =
     (case component of
        Normal name \<Rightarrow> bindE (map_err (\<lambda>_. e) (sys_open_dir directory name)) (\<lambda>next_dir. open_below e next_dir rest)
      | _ \<Rightarrow> open_below e directory rest)"

definition source_open :: "string \<Rightarrow> application_source authentication" where
  "source_open root =
     bindE (absolute_lexical root) (\<lambda>root_path.
     bindE (map_err (\<lambda>_. unsafe_application) sys_open_slash) (\<lambda>slash.
     bindE (open_below unsafe_application slash (path_components root_path)) (\<lambda>directory.
     bindE (map_err (\<lambda>_. unsafe_application) (sys_metadata directory)) (\<lambda>stat.
     ret \<lparr> so_root_path = root_path, so_root = directory, so_identity = fst stat \<rparr>))))"

definition validate_relative :: "string \<Rightarrow> upgrade_authentication_error + unit" where
  "validate_relative path =
     reject_if (path = [] \<or> is_absolute path \<or>
         list_ex (\<lambda>component. case component of Normal _ \<Rightarrow> False | _ \<Rightarrow> True) (path_components path))
       (auth_error PackageContract ''managed-integration.path'')"

definition relative_subject :: "string \<Rightarrow> string" where
  "relative_subject path = (if from_utf8 path then path else ''managed-source'')"

definition source_parent :: "application_source \<Rightarrow> string \<Rightarrow> (inode \<times> string) authentication" where
  "source_parent source path =
     (let unsafe = auth_error UnsafeApplicationRoot (relative_subject path); components = path_components path
      in seqE (of_result (validate_relative path))
         (bindE (map_err (\<lambda>_. unsafe) (sys_dup_dir (so_root source))) (\<lambda>directory.
          bindE (open_below unsafe directory (case path_parent components of None \<Rightarrow> [] | Some parent \<Rightarrow> parent)) (\<lambda>directory.
          ret (directory, the (path_file_name components))))))"

definition source_read_required :: "application_source \<Rightarrow> string \<Rightarrow> string authentication" where
  "source_read_required source path =
     (let failed = (\<lambda>kind. auth_error kind (relative_subject path))
      in bindE (source_parent source path) (\<lambda>(parent, name).
         bindE (map_err (\<lambda>errno. failed (if errno = NOENT then MissingManagedSource else UnsafeApplicationRoot))
           (sys_stat_regular parent name)) (\<lambda>regular.
         seqE (ensure regular (failed UnsupportedSourceType))
         (bindE (map_err (\<lambda>_. failed UnsafeApplicationRoot) (sys_open_read parent name)) (\<lambda>descriptor.
          bindE (map_err (\<lambda>_. failed UnsupportedSourceType) (sys_fstat descriptor)) (\<lambda>(regular, size).
          seqE (ensure regular (failed UnsupportedSourceType))
          (seqE (ensure (size \<le> MAX_MANAGED_SOURCE_BYTES) (failed SourceLimitExceeded))
          (bindE (map_err (\<lambda>_. failed UnsupportedSourceType) (sys_read descriptor)) (\<lambda>content.
           let bytes_read = take (MAX_MANAGED_SOURCE_BYTES + 1) content
           in seqE (ensure (length bytes_read \<le> MAX_MANAGED_SOURCE_BYTES) (failed SourceLimitExceeded))
              (ret bytes_read))))))))))"

definition source_ensure_absent :: "application_source \<Rightarrow> string \<Rightarrow> unit authentication" where
  "source_ensure_absent source path =
     bindE (source_parent source path) (\<lambda>(parent, name).
     bindE (attempt (sys_stat_regular parent name)) (\<lambda>observed.
     case observed of
       Inl NOENT \<Rightarrow> ret ()
     | Inr _ \<Rightarrow> throw (auth_error UnexpectedManagedSource (relative_subject path))
     | Inl _ \<Rightarrow> throw (auth_error UnsafeApplicationRoot (relative_subject path))))"

definition source_verify_root :: "application_source \<Rightarrow> unit authentication" where
  "source_verify_root source =
     bindE (source_open (so_root_path source)) (\<lambda>current.
     ensure (so_identity current = so_identity source) unsafe_application)"

definition upgrade_recovery_pending :: "string \<Rightarrow> bool authentication" where
  "upgrade_recovery_pending application_root =
     bindE (source_open application_root) (\<lambda>source.
     bindE (attempt (source_ensure_absent source MUTATION_MARKER)) (\<lambda>absent.
     bindE (case absent of
         Inr _ \<Rightarrow> ret False
       | Inl e \<Rightarrow> if ua_kind e = UnexpectedManagedSource then ret True else throw e) (\<lambda>pending.
     seqE (source_verify_root source) (ret pending))))"

section \<open>The edge an application asks for\<close>

definition one_value :: "'a::linorder set \<Rightarrow> string \<Rightarrow> upgrade_authentication_error + 'a" where
  "one_value values subject =
     (case sorted_list_of_set values of [x] \<Rightarrow> Inr x | _ \<Rightarrow> Inl (auth_error InvalidManifest subject))"

definition edge_request :: "application_manifest \<Rightarrow> upgrade_authentication_error + upgrade_edge_request" where
  "edge_request manifest =
     and_then (required (am_composition manifest) (auth_error InvalidManifest ''composition'')) (\<lambda>composition.
     and_then (one_value (sl_databases (am_selection manifest)) ''selection.databases'') (\<lambda>database.
     and_then (one_value (sl_clients (am_selection manifest)) ''selection.clients'') (\<lambda>client.
     Inr \<lparr> uq_source = \<lparr> ri_framework = am_framework manifest, ri_package = cp_package composition \<rparr>,
           uq_composition = \<lparr> us_database = database, us_client = client,
             us_components = map ic_id (cp_components composition), us_modules = map im_id (cp_modules composition),
             us_capabilities = sorted_list_of_set (cp_capabilities composition) \<rparr> \<rparr>)))"

definition of_edge_error :: "upgrade_edge_error \<Rightarrow> upgrade_authentication_error" where
  "of_edge_error e =
     auth_error (case xe_kind e of
         upgrade_edge_diagnostic_kind.UnsupportedRelease \<Rightarrow> UnsupportedRelease
       | upgrade_edge_diagnostic_kind.UnsupportedComposition \<Rightarrow> UnsupportedComposition) (xe_subject e)"

section \<open>Managed sources\<close>

record authenticated_managed_source =
  ms_transition :: managed_integration_transition
  ms_source :: "string option"
  ms_target :: "string option"

record authenticated_upgrade_boundary =
  ab_application :: application_manifest
  ab_manifest_source :: string
  ab_edge :: resolved_upgrade_edge
  ab_source_package_digest :: string
  ab_source_baseline_digest :: string
  ab_managed_sources :: "authenticated_managed_source list"

definition require_ownership ::
    "resolved_upgrade_edge \<Rightarrow> source_ownership option \<Rightarrow> managed_integration_transition \<Rightarrow> upgrade_authentication_error + unit" where
  "require_ownership edge local_ownership t =
     (let composition = ru_composition edge;
          edge_matches = (case mt_kind t of
             CreateIntegration \<Rightarrow> ownership_declares (ut_target_ownership composition) t
           | EditIntegration \<Rightarrow> ownership_declares (ut_source_ownership composition) t \<and>
               ownership_declares (ut_target_ownership composition) t
           | RetireIntegration \<Rightarrow> ownership_declares (ut_source_ownership composition) t);
          local_matches = (mt_kind t = CreateIntegration \<or>
             (case local_ownership of None \<Rightarrow> True | Some ownership \<Rightarrow> ownership_declares ownership t))
      in reject_if (\<not> edge_matches \<or> \<not> local_matches) (auth_error OwnershipMismatch (mt_path t)))"

definition verify_source_digest ::
    "package_codec \<Rightarrow> managed_integration_transition \<Rightarrow> string \<Rightarrow> upgrade_authentication_error + unit" where
  "verify_source_digest P t content =
     and_then (required (mt_source_sha256 t) (auth_error PackageContract ''managed-integration.source-sha256'')) (\<lambda>expected.
     reject_if (sha256_text P content \<noteq> expected) (auth_error SourceDigestMismatch (mt_path t)))"

text \<open>The body of the loop over the managed integrations.\<close>

definition observe_source ::
    "package_codec \<Rightarrow> application_source \<Rightarrow> managed_integration_transition \<Rightarrow> string option authentication" where
  "observe_source P source t =
     (case mt_kind t of
        CreateIntegration \<Rightarrow> seqE (source_ensure_absent source (mt_path t)) (ret None)
      | _ \<Rightarrow>
          bindE (source_read_required source (mt_path t)) (\<lambda>content.
          seqE (of_result (verify_source_digest P t content)) (ret (Some content))))"

definition target_content ::
    "manifest_catalog \<Rightarrow> managed_integration_transition \<Rightarrow> upgrade_authentication_error + string option" where
  "target_content catalog t =
     (case mt_kind t of
        RetireIntegration \<Rightarrow> Inr None
      | _ \<Rightarrow>
          and_then (map_error (\<lambda>_. auth_error PackageContract ''managed-integration.target'')
            (case mt_target_lockfile t of
               Some lockfile \<Rightarrow> upgrade_lockfile catalog (path_components lockfile)
             | None \<Rightarrow> component_file catalog
                 (case mt_target_source_component t of None \<Rightarrow> mt_component t | Some component \<Rightarrow> component)
                 (path_components (mt_path t)))) (\<lambda>content. Inr (Some content)))"

definition authenticate_managed ::
    "package_codec \<Rightarrow> manifest_catalog \<Rightarrow> application_source \<Rightarrow> resolved_upgrade_edge \<Rightarrow> source_ownership option
      \<Rightarrow> managed_integration_transition \<Rightarrow> authenticated_managed_source authentication" where
  "authenticate_managed P catalog source edge local_ownership t =
     seqE (of_result (require_ownership edge local_ownership t))
     (bindE (observe_source P source t) (\<lambda>observed.
      bindE (of_result (target_content catalog t)) (\<lambda>target.
      ret \<lparr> ms_transition = t, ms_source = observed, ms_target = target \<rparr>)))"

definition read_application :: "package_codec \<Rightarrow> application_source \<Rightarrow> (string \<times> application_manifest) authentication" where
  "read_application P source =
     bindE (source_read_required source ''hegira.toml'') (\<lambda>manifest_bytes.
     seqE (ensure (from_utf8 manifest_bytes) (auth_error InvalidManifest ''hegira.toml''))
     (bindE (of_result (map_error (\<lambda>_. auth_error InvalidManifest ''hegira.toml'')
        (manifest_from_toml (pc_manifest P) manifest_bytes))) (\<lambda>application.
      ret (manifest_bytes, application))))"

definition applicable_integrations :: "resolved_upgrade_edge \<Rightarrow> managed_integration_transition list" where
  "applicable_integrations edge =
     filter (\<lambda>t. mt_component t \<in> applicable_components (ru_composition edge)) (ru_managed_integrations edge)"

definition authenticate_upgrade_source ::
    "package_codec \<Rightarrow> manifest_catalog \<Rightarrow> string \<Rightarrow> authenticated_upgrade_boundary authentication" where
  "authenticate_upgrade_source P catalog application_root =
     bindE (source_open application_root) (\<lambda>source.
     bindE (read_application P source) (\<lambda>(manifest_bytes, application).
     bindE (of_result (edge_request application)) (\<lambda>request.
     bindE (of_result (map_error of_edge_error (catalog_resolve_upgrade_edge catalog request))) (\<lambda>edge.
     bindE (ok_or (find (\<lambda>candidate. ue_id candidate = ru_id edge) (ct_upgrade_edges catalog))
       (auth_error PackageContract ''upgrade-edge'')) (\<lambda>package_edge.
     bindE (collect_each (authenticate_managed P catalog source edge (map_option ug_ownership (am_upgrade application)))
       (applicable_integrations edge)) (\<lambda>managed_sources.
     seqE (source_verify_root source)
       (ret \<lparr> ab_application = application, ab_manifest_source = manifest_bytes, ab_edge = edge,
              ab_source_package_digest = ue_source_package_digest package_edge,
              ab_source_baseline_digest = ut_source_baseline_digest (ru_composition edge),
              ab_managed_sources = managed_sources \<rparr>)))))))"

end
