(* ===== verification/Upgrade_Planning.thy ===== *)
theory Upgrade_Planning
  imports Toml_Editor Upgrade_Authentication
begin

text \<open>
  Plans of upgrades (\<^verbatim>\<open>tools/template_renderer/src/upgrade_planning.rs\<close>): from an authenticated application and the edge
  it follows to the change plan that brings its framework dependencies, its manifest and its managed files to the target
  release. \<open>sha\<close> is SHA-256 as the change plans use it, \<open>toml_edit\<close> and the \<open>toml\<close> crate are parameters. A resolution of the
  composition that would not return is \<open>None\<close>.
\<close>

section \<open>Errors\<close>

definition UPGRADE_PLAN_SUMMARY_SCHEMA :: "32 word" where "UPGRADE_PLAN_SUMMARY_SCHEMA = 1"
definition UPGRADE_PLANNING_DIAGNOSTIC_SCHEMA :: "32 word" where "UPGRADE_PLANNING_DIAGNOSTIC_SCHEMA = 1"
definition HISTORICAL_MIGRATION_ROOT :: string where
  "HISTORICAL_MIGRATION_ROOT = ''crates/infrastructure/migrations/''"
definition APPLICATION_MANIFEST_PATH :: string where "APPLICATION_MANIFEST_PATH = ''hegira.toml''"
definition APPLICATION_MANIFEST_INTEGRATION :: string where "APPLICATION_MANIFEST_INTEGRATION = ''application-manifest''"
definition FRAMEWORK_DEPENDENCIES_INTEGRATION :: string where
  "FRAMEWORK_DEPENDENCIES_INTEGRATION = ''framework-dependencies''"

datatype upgrade_planning_error_kind = Blocked | Unsupported | Incompatible | Conflict

record upgrade_planning_error =
  pn_schema :: "32 word"
  pn_kind :: upgrade_planning_error_kind
  pn_subject :: string

definition planning_error :: "upgrade_planning_error_kind \<Rightarrow> string \<Rightarrow> upgrade_planning_error" where
  "planning_error kind subject =
     \<lparr> pn_schema = UPGRADE_PLANNING_DIAGNOSTIC_SCHEMA, pn_kind = kind, pn_subject = subject \<rparr>"

fun planning_kind_name :: "upgrade_planning_error_kind \<Rightarrow> string" where
  "planning_kind_name Blocked = ''upgrade-blocked''"
| "planning_kind_name Unsupported = ''upgrade-unsupported''"
| "planning_kind_name Incompatible = ''upgrade-incompatible''"
| "planning_kind_name Conflict = ''upgrade-conflict''"

definition planning_error_text :: "upgrade_planning_error \<Rightarrow> string" where
  "planning_error_text e = planning_kind_name (pn_kind e) @ '': '' @ pn_subject e"

definition of_authentication_error :: "upgrade_authentication_error \<Rightarrow> upgrade_planning_error" where
  "of_authentication_error e =
     planning_error
       (if ua_kind e \<in> {UnsupportedRelease, UnsupportedComposition} then Unsupported
        else if ua_kind e \<in> {InvalidManifest, PackageContract} then Incompatible
        else Blocked)
       (ua_subject e)"

definition of_change_plan :: "change_plan_error \<Rightarrow> upgrade_planning_error" where
  "of_change_plan e = planning_error Conflict (case ce_path e of None \<Rightarrow> ''change-plan'' | Some path \<Rightarrow> path)"

definition of_structured_edit :: "structured_edit_error \<Rightarrow> upgrade_planning_error" where
  "of_structured_edit e = planning_error Conflict (case se_path e of None \<Rightarrow> ''structured-edit'' | Some path \<Rightarrow> path)"

section \<open>The target of an upgrade\<close>

definition target_composition_request :: "authenticated_upgrade_boundary \<Rightarrow> composition_request" where
  "target_composition_request boundary =
     (let edge = ab_edge boundary; target = ut_target (ru_composition edge)
      in with_recorded_state
           (composition_request_new (ri_framework (ru_target edge)) (ri_package (ru_target edge)) (us_components target))
           (map (\<lambda>module. \<lparr> im_id = module, im_version = pk_version (ri_package (ru_target edge)) \<rparr>) (us_modules target))
           (us_capabilities target))"

definition resolve_target_composition ::
    "manifest_catalog \<Rightarrow> authenticated_upgrade_boundary \<Rightarrow> (upgrade_planning_error + resolved_composition) option" where
  "resolve_target_composition catalog boundary =
     map_option (map_error (\<lambda>_. planning_error Incompatible ''target-composition''))
       (resolve_composition catalog (target_composition_request boundary))"

definition reject_component_removal ::
    "authenticated_upgrade_boundary \<Rightarrow> resolved_composition \<Rightarrow> upgrade_planning_error + unit" where
  "reject_component_removal boundary graph =
     (let source = ut_source (ru_composition (ab_edge boundary))
      in reject_if
           (list_ex (\<lambda>component. component \<notin> set (map rc_id (rs_components graph))) (us_components source) \<or>
            list_ex (\<lambda>module. module \<notin> set (map im_id (rs_modules graph))) (us_modules source))
           (planning_error Unsupported ''component-removal''))"

text \<open>The derived equality, which compares the paths component by component.\<close>

definition dependency_equal :: "framework_dependency \<Rightarrow> framework_dependency \<Rightarrow> bool" where
  "dependency_equal a b \<longleftrightarrow>
     path_components (fd_manifest a) = path_components (fd_manifest b) \<and> fd_name a = fd_name b \<and>
     path_components (fd_path a) = path_components (fd_path b) \<and> fd_default_features a = fd_default_features b"

fun insert_dependencies ::
    "framework_dependency list \<Rightarrow> ((string \<times> string), framework_dependency) btree
      \<Rightarrow> upgrade_planning_error + ((string \<times> string), framework_dependency) btree" where
  "insert_dependencies [] dependencies = Inr dependencies"
| "insert_dependencies (dependency # rest) dependencies =
     (let key = (to_string_lossy (fd_manifest dependency), fd_name dependency)
      in then_check (reject_if
           (case bt_get dependencies key of None \<Rightarrow> False | Some existing \<Rightarrow> \<not> dependency_equal existing dependency)
           (planning_error Incompatible (''framework-dependency.'' @ fd_name dependency)))
         (insert_dependencies rest (bt_insert key dependency dependencies)))"

definition declared_dependencies :: "component_manifest \<Rightarrow> framework_dependency list" where
  "declared_dependencies component =
     co_framework_dependencies component @
     (case co_installation component of None \<Rightarrow> [] | Some installation \<Rightarrow> ci_framework_dependencies installation)"

definition target_framework_dependencies ::
    "manifest_catalog \<Rightarrow> resolved_composition \<Rightarrow> upgrade_planning_error + framework_dependency list" where
  "target_framework_dependencies catalog graph =
     and_then (map_error (\<lambda>_. planning_error Incompatible ''target-components'')
       (components_for (ct_components catalog) (rs_components graph))) (\<lambda>components.
     and_then (insert_dependencies (concat (map declared_dependencies components)) []) (\<lambda>dependencies.
     Inr (bt_values dependencies)))"

definition upgraded_manifest ::
    "authenticated_upgrade_boundary \<Rightarrow> resolved_composition \<Rightarrow> application_manifest" where
  "upgraded_manifest boundary graph =
     (let edge = ab_edge boundary
      in (ab_application boundary)\<lparr>
           am_schema := APPLICATION_MANIFEST_SCHEMA,
           am_framework := ri_framework (ru_target edge),
           am_composition := Some \<lparr> cp_package = ri_package (ru_target edge), cp_components = installed_components graph,
             cp_modules = rs_modules graph, cp_capabilities = rs_capabilities graph \<rparr>,
           am_upgrade := Some \<lparr> ug_framework = ri_framework (ru_target edge), ug_package = ri_package (ru_target edge),
             ug_ownership = ut_target_ownership (ru_composition edge) \<rparr> \<rparr>)"

definition target_manifest ::
    "manifest_codec \<Rightarrow> authenticated_upgrade_boundary \<Rightarrow> resolved_composition \<Rightarrow> upgrade_planning_error + application_manifest" where
  "target_manifest C boundary graph =
     then_check (map_error (\<lambda>_. planning_error Incompatible ''target-manifest'')
       (manifest_to_toml C (upgraded_manifest boundary graph)))
     (Inr (upgraded_manifest boundary graph))"

definition manifest_transitions :: "application_manifest \<Rightarrow> application_manifest \<Rightarrow> upgrade_manifest_transition list" where
  "manifest_transitions source target =
     sort_key manifest_transition_rank
        ((if am_schema source \<noteq> am_schema target then [Schema] else []) @
         (if am_framework source \<noteq> am_framework target then [Framework] else []) @
         (if map_option cp_package (am_composition source) \<noteq> map_option cp_package (am_composition target)
          then [Package] else []) @
         (if map_option cp_components (am_composition source) \<noteq> map_option cp_components (am_composition target)
          then [upgrade_manifest_transition.Components] else []) @
         (if map_option cp_modules (am_composition source) \<noteq> map_option cp_modules (am_composition target)
          then [upgrade_manifest_transition.Modules] else []) @
         (if map_option cp_capabilities (am_composition source) \<noteq> map_option cp_capabilities (am_composition target)
          then [upgrade_manifest_transition.Capabilities] else []) @
         (if map_option ug_ownership (am_upgrade source) \<noteq> map_option ug_ownership (am_upgrade target)
          then [Ownership] else []))"

definition check_target ::
    "manifest_codec \<Rightarrow> manifest_catalog \<Rightarrow> authenticated_upgrade_boundary \<Rightarrow> resolved_composition
      \<Rightarrow> upgrade_planning_error + (resolved_composition \<times> application_manifest)" where
  "check_target C catalog boundary graph =
     then_check (reject_component_removal boundary graph)
     (then_check (target_framework_dependencies catalog graph)
     (and_then (target_manifest C boundary graph) (\<lambda>target.
      then_check (reject_if
          (manifest_transitions (ab_application boundary) target \<noteq> ru_manifest_transitions (ab_edge boundary))
          (planning_error Incompatible ''manifest-transitions''))
      (Inr (graph, target)))))"

definition validated_target_manifest ::
    "manifest_codec \<Rightarrow> manifest_catalog \<Rightarrow> authenticated_upgrade_boundary
      \<Rightarrow> (upgrade_planning_error + (resolved_composition \<times> application_manifest)) option" where
  "validated_target_manifest C catalog boundary =
     map_option (\<lambda>resolution. and_then resolution (check_target C catalog boundary))
       (resolve_target_composition catalog boundary)"

definition validate_upgrade_transition ::
    "manifest_codec \<Rightarrow> manifest_catalog \<Rightarrow> authenticated_upgrade_boundary \<Rightarrow> (upgrade_planning_error + unit) option" where
  "validate_upgrade_transition C catalog boundary =
     map_option (\<lambda>r. and_then r (\<lambda>_. Inr ())) (validated_target_manifest C catalog boundary)"

section \<open>Changes and their owners\<close>

record upgrade_change_owner =
  wo_component :: string
  wo_integration :: string

text \<open>The three mutable collections that the steps of a plan extend.\<close>

record upgrade_changes =
  uc_changes :: "planned_file_change list"
  uc_owners :: "(string, upgrade_change_owner) btree"
  uc_structured_paths :: "string set"

definition insert_owner ::
    "managed_integration_transition \<Rightarrow> (string, upgrade_change_owner) btree
      \<Rightarrow> upgrade_planning_error + (string, upgrade_change_owner) btree" where
  "insert_owner t owners =
     then_check (reject_if (bt_get owners (mt_path t) \<noteq> None) (planning_error Conflict (mt_path t)))
     (Inr (bt_insert (mt_path t) \<lparr> wo_component = mt_component t, wo_integration = mt_integration t \<rparr> owners))"

definition required_managed_source ::
    "authenticated_upgrade_boundary \<Rightarrow> string \<Rightarrow> string \<Rightarrow> upgrade_planning_error + authenticated_managed_source" where
  "required_managed_source boundary path integration =
     (case filter (\<lambda>managed. mt_path (ms_transition managed) = path \<and> mt_integration (ms_transition managed) = integration)
        (ab_managed_sources boundary) of
        [] \<Rightarrow> Inl (planning_error Incompatible integration)
      | [managed] \<Rightarrow> Inr managed
      | _ \<Rightarrow> Inl (planning_error Conflict integration))"

definition required_source :: "string option \<Rightarrow> upgrade_planning_error + string" where
  "required_source source = required source (planning_error Incompatible ''managed-integration.source'')"

definition required_target :: "string option \<Rightarrow> upgrade_planning_error + string" where
  "required_target target = required target (planning_error Incompatible ''managed-integration.target'')"

text \<open>One more change with its owner, at a path that is marked as structured or not.\<close>

definition push_change ::
    "managed_integration_transition \<Rightarrow> planned_file_change \<Rightarrow> string set \<Rightarrow> upgrade_changes
      \<Rightarrow> upgrade_planning_error + upgrade_changes" where
  "push_change t change structured state =
     and_then (insert_owner t (uc_owners state)) (\<lambda>owners.
     Inr \<lparr> uc_changes = uc_changes state @ [change], uc_owners = owners,
           uc_structured_paths = structured \<union> uc_structured_paths state \<rparr>)"

section \<open>The application manifest\<close>

definition plan_application_manifest ::
    "(content \<Rightarrow> content_digest) \<Rightarrow> manifest_codec \<Rightarrow> authenticated_upgrade_boundary \<Rightarrow> application_manifest \<Rightarrow> upgrade_changes
      \<Rightarrow> upgrade_planning_error + upgrade_changes" where
  "plan_application_manifest sha C boundary target state =
     and_then (required_managed_source boundary APPLICATION_MANIFEST_PATH APPLICATION_MANIFEST_INTEGRATION) (\<lambda>managed.
     then_check (reject_if
         (mt_kind (ms_transition managed) \<noteq> EditIntegration \<or> ms_source managed \<noteq> Some (ab_manifest_source boundary))
         (planning_error Incompatible ''application-manifest''))
     (and_then (map_error (\<lambda>_. planning_error Incompatible ''target-manifest'') (manifest_to_toml C target)) (\<lambda>content.
      and_then (map_error of_change_plan
        (structured_file_edit_new sha APPLICATION_MANIFEST_PATH (ab_manifest_source boundary) content)) (\<lambda>edit.
      push_change (ms_transition managed) (PEdit edit) {APPLICATION_MANIFEST_PATH} state))))"

section \<open>Framework dependencies\<close>

text \<open>The \<^verbatim>\<open>toml\<close> crate as this code uses it: parsing a document into its root table. It shares the tree of items with
  \<^verbatim>\<open>toml_edit\<close>; here inline tables are tables as well, and the entries come in the order of the iteration.\<close>

definition string_entry_is :: "toml_table \<Rightarrow> string \<Rightarrow> string \<Rightarrow> bool" where
  "string_entry_is declaration key expected \<longleftrightarrow> Option.bind (map_of declaration key) toml_as_str = Some expected"

fun framework_names :: "string \<Rightarrow> string \<Rightarrow> toml_table \<Rightarrow> upgrade_planning_error + string set" where
  "framework_names repository version [] = Inr {}"
| "framework_names repository version ((name, item) # rest) =
     (case toml_as_table_like item of
        None \<Rightarrow> framework_names repository version rest
      | Some declaration \<Rightarrow>
          (let repository_matches = string_entry_is declaration ''git'' repository;
               version_matches = string_entry_is declaration ''tag'' version
           in then_check (reject_if (repository_matches \<noteq> version_matches)
                (planning_error Conflict (''framework-dependency.'' @ name)))
              (and_then (framework_names repository version rest) (\<lambda>names.
               Inr (if repository_matches then insert name names else names)))))"

definition reject_removed_framework_dependencies ::
    "(string \<Rightarrow> toml_table option) \<Rightarrow> string \<Rightarrow> string \<Rightarrow> string \<Rightarrow> framework_dependency list
      \<Rightarrow> upgrade_planning_error + unit" where
  "reject_removed_framework_dependencies parse_table source repository version targets =
     (let conflict = planning_error Conflict ''framework-dependencies''
      in then_check (reject_if (\<not> from_utf8 source) conflict)
         (and_then (required (parse_table source) conflict) (\<lambda>document.
          and_then (required (Option.bind (Option.bind (map_of document ''workspace'') toml_as_table_like)
             (\<lambda>workspace. Option.bind (map_of workspace ''dependencies'') toml_as_table_like)) conflict) (\<lambda>dependencies.
          and_then (framework_names repository version dependencies) (\<lambda>source_names.
          reject_if (\<not> source_names \<subseteq> set (map fd_name targets))
            (planning_error Unsupported ''framework-dependency-removal''))))))"

fun group_dependencies ::
    "framework_dependency list \<Rightarrow> (string, framework_dependency list) btree \<Rightarrow> (string, framework_dependency list) btree" where
  "group_dependencies [] groups = groups"
| "group_dependencies (dependency # rest) groups =
     (let key = to_string_lossy (fd_manifest dependency)
      in group_dependencies rest
           (bt_insert key ((case bt_get groups key of None \<Rightarrow> [] | Some members \<Rightarrow> members) @ [dependency]) groups))"

definition release_dependency :: "framework_dependency \<Rightarrow> upgrade_release_identity \<Rightarrow> cargo_dependency" where
  "release_dependency dependency release =
     dependency_framework_release (fd_name dependency) (fc_repository (ri_framework release)) (fc_version (ri_framework release))
       (case fd_default_features dependency of None \<Rightarrow> True | Some b \<Rightarrow> b) False []"

definition move_dependency ::
    "'d toml_library \<Rightarrow> (content \<Rightarrow> content_digest) \<Rightarrow> resolved_upgrade_edge \<Rightarrow> string \<Rightarrow> content \<Rightarrow> framework_dependency
      \<Rightarrow> upgrade_planning_error + content" where
  "move_dependency T sha edge path current dependency =
     (let source = release_dependency dependency (ru_source edge); target = release_dependency dependency (ru_target edge)
      in and_then
           (case plan_cargo_dependency_transition T sha path current WorkspaceDependencies source target of
              Inr outcome \<Rightarrow> Inr outcome
            | Inl e \<Rightarrow>
                if se_kind e = TomlConflict
                then map_error of_structured_edit (plan_cargo_dependency T sha path current WorkspaceDependencies target)
                else Inl (of_structured_edit e)) (\<lambda>outcome.
         case outcome of
           Planned _ edit \<Rightarrow> Inr (fe_content edit)
         | AlreadyPresent _ _ \<Rightarrow> Inl (planning_error Conflict ''framework-dependencies'')))"

fun move_dependencies ::
    "'d toml_library \<Rightarrow> (content \<Rightarrow> content_digest) \<Rightarrow> resolved_upgrade_edge \<Rightarrow> string \<Rightarrow> framework_dependency list \<Rightarrow> content
      \<Rightarrow> upgrade_planning_error + content" where
  "move_dependencies T sha edge path [] current = Inr current"
| "move_dependencies T sha edge path (dependency # rest) current =
     and_then (move_dependency T sha edge path current dependency) (move_dependencies T sha edge path rest)"

definition plan_framework_manifest ::
    "'d toml_library \<Rightarrow> (string \<Rightarrow> toml_table option) \<Rightarrow> (content \<Rightarrow> content_digest) \<Rightarrow> authenticated_upgrade_boundary
      \<Rightarrow> string \<Rightarrow> framework_dependency list \<Rightarrow> upgrade_changes \<Rightarrow> upgrade_planning_error + upgrade_changes" where
  "plan_framework_manifest T parse_table sha boundary path dependencies state =
     and_then (required_managed_source boundary path FRAMEWORK_DEPENDENCIES_INTEGRATION) (\<lambda>managed.
     then_check (reject_if (mt_kind (ms_transition managed) \<noteq> EditIntegration)
       (planning_error Incompatible ''framework-dependencies''))
     (and_then (required_source (ms_source managed)) (\<lambda>original.
      then_check (reject_removed_framework_dependencies parse_table original
          (fc_repository (ri_framework (ru_source (ab_edge boundary)))) (fc_version (ri_framework (ru_source (ab_edge boundary))))
          dependencies)
      (and_then (move_dependencies T sha (ab_edge boundary) path dependencies original) (\<lambda>current.
       and_then (map_error of_change_plan (structured_file_edit_new sha path original current)) (\<lambda>edit.
       push_change (ms_transition managed) (PEdit edit) {path} state))))))"

fun plan_framework_manifests ::
    "'d toml_library \<Rightarrow> (string \<Rightarrow> toml_table option) \<Rightarrow> (content \<Rightarrow> content_digest) \<Rightarrow> authenticated_upgrade_boundary
      \<Rightarrow> (string \<times> framework_dependency list) list \<Rightarrow> upgrade_changes \<Rightarrow> upgrade_planning_error + upgrade_changes" where
  "plan_framework_manifests T parse_table sha boundary [] state = Inr state"
| "plan_framework_manifests T parse_table sha boundary ((path, dependencies) # rest) state =
     and_then (plan_framework_manifest T parse_table sha boundary path dependencies state)
       (plan_framework_manifests T parse_table sha boundary rest)"

definition plan_framework_dependencies ::
    "'d toml_library \<Rightarrow> (string \<Rightarrow> toml_table option) \<Rightarrow> (content \<Rightarrow> content_digest) \<Rightarrow> authenticated_upgrade_boundary
      \<Rightarrow> framework_dependency list \<Rightarrow> upgrade_changes \<Rightarrow> upgrade_planning_error + upgrade_changes" where
  "plan_framework_dependencies T parse_table sha boundary dependencies state =
     plan_framework_manifests T parse_table sha boundary (group_dependencies dependencies []) state"

section \<open>Managed files\<close>

definition plan_transition ::
    "(content \<Rightarrow> content_digest) \<Rightarrow> source_ownership \<Rightarrow> managed_integration_transition \<Rightarrow> string option \<Rightarrow> string option
      \<Rightarrow> upgrade_planning_error + planned_file_change" where
  "plan_transition sha ownership t source target =
     then_check (reject_if
         (mt_kind t \<in> {EditIntegration, RetireIntegration} \<and> prefix HISTORICAL_MIGRATION_ROOT (mt_path t))
         (planning_error Incompatible ''immutable-history''))
     (case mt_kind t of
        CreateIntegration \<Rightarrow>
          and_then (required_target target) (\<lambda>content.
          and_then (map_error of_change_plan (file_creation_new sha (mt_path t) content)) (\<lambda>creation. Inr (PCreate creation)))
      | EditIntegration \<Rightarrow>
          and_then (required_source source) (\<lambda>observed.
          and_then (required_target target) (\<lambda>content.
          and_then (map_error of_change_plan (structured_file_edit_new sha (mt_path t) observed content)) (\<lambda>edit.
          Inr (PEdit edit))))
      | RetireIntegration \<Rightarrow>
          and_then (required_source source) (\<lambda>observed.
          and_then (map_error of_change_plan
            (managed_file_retirement_new sha ownership (mt_path t) (mt_integration t) observed)) (\<lambda>retirement.
          Inr (PRetire retirement))))"

definition transition_ownership :: "upgrade_composition_transition \<Rightarrow> managed_integration_transition \<Rightarrow> source_ownership" where
  "transition_ownership composition t =
     (if mt_kind t = RetireIntegration then ut_source_ownership composition else ut_target_ownership composition)"

fun plan_managed ::
    "(content \<Rightarrow> content_digest) \<Rightarrow> upgrade_composition_transition \<Rightarrow> authenticated_managed_source list \<Rightarrow> upgrade_changes
      \<Rightarrow> upgrade_planning_error + upgrade_changes" where
  "plan_managed sha composition [] state = Inr state"
| "plan_managed sha composition (managed # rest) state =
     (let t = ms_transition managed
      in if mt_path t \<in> uc_structured_paths state then plan_managed sha composition rest state
         else and_then (plan_transition sha (transition_ownership composition t) t (ms_source managed) (ms_target managed)) (\<lambda>change.
              and_then (push_change t change {} state) (plan_managed sha composition rest)))"

section \<open>The plan\<close>

record upgrade_plan =
  up_edge_id :: string
  up_source :: upgrade_release_identity
  up_target :: upgrade_release_identity
  up_source_package_digest :: string
  up_source_baseline_digest :: string
  up_change_plan :: change_plan
  up_owners :: "(string, upgrade_change_owner) btree"
  up_manifest_transitions :: "upgrade_manifest_transition list"
  up_framework_dependencies :: "string list"
  up_target_components :: "string list"
  up_target_modules :: "string list"

definition plan_changes ::
    "'d toml_library \<Rightarrow> (string \<Rightarrow> toml_table option) \<Rightarrow> (content \<Rightarrow> content_digest) \<Rightarrow> manifest_codec
      \<Rightarrow> authenticated_upgrade_boundary \<Rightarrow> framework_dependency list \<Rightarrow> application_manifest
      \<Rightarrow> upgrade_planning_error + upgrade_changes" where
  "plan_changes T parse_table sha C boundary dependencies target =
     and_then (plan_framework_dependencies T parse_table sha boundary dependencies
       \<lparr> uc_changes = [], uc_owners = [], uc_structured_paths = {} \<rparr>) (\<lambda>state.
     and_then (plan_application_manifest sha C boundary target state) (\<lambda>state.
     plan_managed sha (ru_composition (ab_edge boundary)) (ab_managed_sources boundary) state))"

definition plan_from_target ::
    "'d toml_library \<Rightarrow> (string \<Rightarrow> toml_table option) \<Rightarrow> (content \<Rightarrow> content_digest) \<Rightarrow> manifest_codec \<Rightarrow> manifest_catalog
      \<Rightarrow> authenticated_upgrade_boundary \<Rightarrow> resolved_composition \<times> application_manifest
      \<Rightarrow> upgrade_planning_error + upgrade_plan" where
  "plan_from_target T parse_table sha C catalog boundary validated =
     (case validated of (graph, target) \<Rightarrow>
        and_then (target_framework_dependencies catalog graph) (\<lambda>dependencies.
        and_then (plan_changes T parse_table sha C boundary dependencies target) (\<lambda>state.
        and_then (map_error of_change_plan (plan_new sha (uc_changes state))) (\<lambda>plan.
        let edge = ab_edge boundary
        in Inr \<lparr> up_edge_id = ru_id edge, up_source = ru_source edge, up_target = ru_target edge,
                 up_source_package_digest = ab_source_package_digest boundary,
                 up_source_baseline_digest = ab_source_baseline_digest boundary,
                 up_change_plan = plan, up_owners = uc_owners state,
                 up_manifest_transitions = manifest_transitions (ab_application boundary) target,
                 up_framework_dependencies = map fd_name dependencies,
                 up_target_components = map rc_id (rs_components graph),
                 up_target_modules = map im_id (rs_modules graph) \<rparr>))))"

definition from_authenticated ::
    "'d toml_library \<Rightarrow> (string \<Rightarrow> toml_table option) \<Rightarrow> (content \<Rightarrow> content_digest) \<Rightarrow> manifest_codec \<Rightarrow> manifest_catalog
      \<Rightarrow> authenticated_upgrade_boundary \<Rightarrow> (upgrade_planning_error + upgrade_plan) option" where
  "from_authenticated T parse_table sha C catalog boundary =
     map_option (\<lambda>r. and_then r (plan_from_target T parse_table sha C catalog boundary))
       (validated_target_manifest C catalog boundary)"

definition plan_upgrade ::
    "'d toml_library \<Rightarrow> (string \<Rightarrow> toml_table option) \<Rightarrow> (content \<Rightarrow> content_digest) \<Rightarrow> package_codec \<Rightarrow> manifest_catalog
      \<Rightarrow> string \<Rightarrow> world \<Rightarrow> (upgrade_planning_error + upgrade_plan) option \<times> world" where
  "plan_upgrade T parse_table sha P catalog application_root w =
     (case authenticate_upgrade_source P catalog application_root w of
        (Inl e, w') \<Rightarrow> (Some (Inl (of_authentication_error e)), w')
      | (Inr boundary, w') \<Rightarrow> (from_authenticated T parse_table sha (pc_manifest P) catalog boundary, w'))"

section \<open>Summaries\<close>

datatype upgrade_result_summary = AbsentResult | PresentResult string

record upgrade_planned_change_summary =
  uz_path :: string
  uz_operation :: change_operation
  uz_component :: string
  uz_integration :: string
  uz_ownership :: source_ownership_class
  uz_precondition :: precondition_summary
  uz_result :: upgrade_result_summary

record upgrade_release_summary =
  ur_framework_repository :: string
  ur_framework_version :: string
  ur_package :: string
  ur_package_version :: string

record upgrade_plan_summary =
  uy_schema :: "32 word"
  uy_edge :: string
  uy_source :: upgrade_release_summary
  uy_target :: upgrade_release_summary
  uy_source_package_digest :: string
  uy_source_baseline_digest :: string
  uy_manifest_transitions :: "upgrade_manifest_transition list"
  uy_framework_dependencies :: "string list"
  uy_target_components :: "string list"
  uy_target_modules :: "string list"
  uy_changes :: "upgrade_planned_change_summary list"

definition release_summary :: "upgrade_release_identity \<Rightarrow> upgrade_release_summary" where
  "release_summary identity =
     \<lparr> ur_framework_repository = fc_repository (ri_framework identity), ur_framework_version = fc_version (ri_framework identity),
       ur_package = pk_id (ri_package identity), ur_package_version = pk_version (ri_package identity) \<rparr>"

text \<open>\<^verbatim>\<open>expect\<close> on the owner of a change: \<open>None\<close> is the panic.\<close>

fun owned_changes ::
    "(string, upgrade_change_owner) btree \<Rightarrow> planned_change_summary list \<Rightarrow> upgrade_planned_change_summary list option" where
  "owned_changes owners [] = Some []"
| "owned_changes owners (change # rest) =
     Option.bind (bt_get owners (ps_path change)) (\<lambda>owner.
     map_option (\<lambda>summaries.
       \<lparr> uz_path = ps_path change, uz_operation = ps_operation change, uz_component = wo_component owner,
         uz_integration = wo_integration owner, uz_ownership = ManagedIntegration, uz_precondition = ps_precondition change,
         uz_result = (case ps_result_sha256 change of None \<Rightarrow> AbsentResult | Some digest \<Rightarrow> PresentResult digest) \<rparr> # summaries)
       (owned_changes owners rest))"

definition upgrade_summary :: "upgrade_plan \<Rightarrow> upgrade_plan_summary option" where
  "upgrade_summary plan =
     map_option (\<lambda>changes.
       \<lparr> uy_schema = UPGRADE_PLAN_SUMMARY_SCHEMA, uy_edge = up_edge_id plan, uy_source = release_summary (up_source plan),
         uy_target = release_summary (up_target plan), uy_source_package_digest = up_source_package_digest plan,
         uy_source_baseline_digest = up_source_baseline_digest plan,
         uy_manifest_transitions = up_manifest_transitions plan,
         uy_framework_dependencies = up_framework_dependencies plan, uy_target_components = up_target_components plan,
         uy_target_modules = up_target_modules plan, uy_changes = changes \<rparr>)
       (owned_changes (up_owners plan) (ss_changes (plan_summary (up_change_plan plan))))"

end
