(* ===== verification/Upgrade_Plans.thy ===== *)
theory Upgrade_Plans
  imports Transactions Upgrade_Planning Package_Integrity
begin

text \<open>
  What an upgrade plan does. The authentication only reads; what it has read are the files of the application as the
  publisher sees them; so the plan made from it can be run on these files, and leads to the files of the target release.
\<close>

section \<open>Reading\<close>

text \<open>Everything but the count of system calls stays as it is.\<close>

definition still :: "world \<Rightarrow> world" where
  "still w = w\<lparr> w_clock := 0 \<rparr>"

abbreviation only_reads :: "(world, 'e, 'a) exec \<Rightarrow> bool" where
  "only_reads m \<equiv> steps (fixing still) m"

lemma still_tick [simp]: "still (tick w) = still w"
  by (simp add: still_def tick_def)

lemma still_disk: "still w' = still w \<Longrightarrow> disk w' = disk w \<and> origin w' = origin w"
  by (cases w; cases w') (simp add: still_def disk_def origin_def)

lemma still_run: "only_reads m \<Longrightarrow> m w = (r, w') \<Longrightarrow> disk w' = disk w \<and> origin w' = origin w"
  by (rule still_disk) (rule fixes_run)

lemmas still_disk_run = conjunct1 [OF still_run]

lemma reads_calls [steps_intros]:
  "only_reads sys_open_slash" "only_reads (sys_dup_dir d)" "only_reads (sys_open_dir d n)" "only_reads (sys_open_read d n)"
  "only_reads (sys_metadata i)" "only_reads (sys_read i)" "only_reads (sys_stat_regular d n)" "only_reads (sys_fstat i)"
  unfolding sys_open_slash_def sys_dup_dir_def sys_open_dir_def sys_open_read_def sys_metadata_def sys_read_def
    sys_stat_regular_def sys_fstat_def
  by (rule steps_syscall; simp add: fixing_def split: option.split)+

lemma reads_open_below [steps_intros]: "only_reads (open_below e d cs)"
  by (induction e d cs rule: open_below.induct) (auto intro!: steps_intros split: path_component.split)

lemma reads_source [steps_intros]:
  "only_reads (absolute_lexical p)" "only_reads (source_open p)" "only_reads (source_parent s p)"
  unfolding absolute_lexical_def source_open_def source_parent_def Let_def by (intro steps_intros)+

lemma reads_source_files [steps_intros]:
  "only_reads (source_read_required s p)" "only_reads (source_ensure_absent s p)" "only_reads (source_verify_root s)"
  unfolding source_read_required_def source_ensure_absent_def source_verify_root_def Let_def
  by (auto intro!: steps_intros split: sum.split errno.split)

section \<open>What is read\<close>

lemma split_on_middle: "split_on d (a @ d # b) = split_on d a @ split_on d b"
proof (induction a)
  case (Cons c a)
  obtain p ps where "split_on d a = p # ps" by (cases "split_on d a") auto
  with Cons show ?case by auto
qed simp

lemma path_component_names:
  assumes "Normal s \<in> set (path_components p)"
  shows "s \<noteq> []" "s \<noteq> ''.''" "s \<noteq> ''..''" "CHR ''/'' \<notin> set s"
  using assms split_on_free [of s "CHR ''/''" p]
  by (auto simp: path_components_def Let_def segment_component_def split: if_splits)

lemma path_components_joined:
  assumes "r \<noteq> []" "s \<noteq> []" "s \<noteq> ''.''" "s \<noteq> ''..''" "CHR ''/'' \<notin> set s"
  shows "path_components (joined r s) = path_components r @ [Normal s]"
proof -
  have split: "path_components (a @ CHR ''/'' # s) = path_components (a @ x) @ [Normal s]"
    if "x = ''/'' \<or> x = [] \<and> a \<noteq> []" for a x
  proof -
    have hd: "hd (split_on (CHR ''/'') a @ xs) = hd (split_on (CHR ''/'') a)" for xs by simp
    have "prefix ''/'' (a @ CHR ''/'' # s) = prefix ''/'' (a @ x)" using that by (cases a) auto
    moreover have "hd (split_on (CHR ''/'') (a @ x)) = hd (split_on (CHR ''/'') a)"
      using that hd split_on_middle [of "CHR ''/''" a "[]"] by auto
    moreover have "filter (\<lambda>s. s \<noteq> [] \<and> s \<noteq> ''.'') (split_on (CHR ''/'') (a @ x)) =
        filter (\<lambda>s. s \<noteq> [] \<and> s \<noteq> ''.'') (split_on (CHR ''/'') a)"
      using that split_on_middle [of "CHR ''/''" a "[]"] by auto
    ultimately show ?thesis
      using assms(2-5)
      by (simp add: path_components_def Let_def split_on_middle split_on_no_delimiter segment_component_def)
  qed
  show ?thesis
  proof (cases "suffix ''/'' r")
    case True
    then obtain a where "r = a @ ''/''" by (auto simp: suffix_def)
    with True split [of "''/''" a] show ?thesis by (simp add: joined_def)
  qed (use split [of "[]" r] assms(1) in \<open>simp add: joined_def\<close>)
qed

lemma normal_names_simps [simp]:
  "normal_names [] = []" "normal_names (c # cs) = (case c of Normal n \<Rightarrow> [n] | _ \<Rightarrow> []) @ normal_names cs"
  "normal_names (cs @ ds) = normal_names cs @ normal_names ds" "normal_names (map Normal ns) = ns"
  by (simp_all add: normal_names_def) (induction ns, simp_all)

lemma path_components_Nil [simp]: "path_components [] = []"
  by (simp add: path_components_def)

lemma push_components_names:
  assumes "push_components r cs = Inr q" "RootDir \<notin> set cs"
    and "\<And>s. Normal s \<in> set cs \<Longrightarrow> s \<noteq> [] \<and> s \<noteq> ''.'' \<and> s \<noteq> ''..'' \<and> CHR ''/'' \<notin> set s"
  shows "normal_names (path_components q) = normal_names (path_components r) @ normal_names cs"
  using assms
proof (induction r cs rule: push_components.induct)
  case (2 r c cs)
  show ?case
  proof (cases c)
    case (Normal s)
    with 2(6) have s: "s \<noteq> []" "s \<noteq> ''.''" "s \<noteq> ''..''" "CHR ''/'' \<notin> set s" by auto
    have "path_components s = [Normal s]"
      using s by (cases s) (auto simp: path_components_def split_on_no_delimiter segment_component_def)
    then have "path_components (push_name r s) = path_components r @ [Normal s]"
      using path_components_joined [OF _ s] by (simp add: push_name_def)
    with 2 Normal show ?thesis by simp
  qed (use 2 in auto)
qed simp

lemma root_components:
  "\<exists>cs. RootDir \<notin> set cs \<and> (path_components p = RootDir # cs \<or> path_components p = cs)"
proof -
  let ?names = "map segment_component (filter (\<lambda>s. s \<noteq> [] \<and> s \<noteq> ''.'') (segments p))"
  have "RootDir \<notin> set ?names" by (auto simp: segment_component_def)
  moreover have "path_components p = RootDir # ?names \<or> path_components p = CurDir # ?names \<or> path_components p = ?names"
    by (simp add: path_components_def Let_def)
  moreover from calculation(1) have "RootDir \<notin> set (CurDir # ?names)" by simp
  ultimately show ?thesis by blast
qed

lemma push_root_names:
  assumes "push_components [] (path_components p) = Inr q"
  shows "normal_names (path_components q) = normal_names (path_components p)"
proof -
  obtain cs where cs: "RootDir \<notin> set cs" "path_components p = RootDir # cs \<or> path_components p = cs"
    using root_components by blast
  then have names: "s \<noteq> [] \<and> s \<noteq> ''.'' \<and> s \<noteq> ''..'' \<and> CHR ''/'' \<notin> set s" if "Normal s \<in> set cs" for s
    using path_component_names [of s p] that by auto
  have slash: "path_components ''/'' = [RootDir]" by code_simp
  from cs(2) show ?thesis
  proof
    assume c: "path_components p = RootDir # cs"
    with assms have "push_components ''/'' cs = Inr q" by simp
    from push_components_names [OF this cs(1)] names c slash show ?thesis by simp
  next
    assume c: "path_components p = cs"
    with assms have "push_components [] cs = Inr q" by simp
    from push_components_names [OF this cs(1)] names c show ?thesis by simp
  qed
qed

lemma open_below_Inr: "open_below e d cs w = (Inr i, w') \<Longrightarrow> resolve w d (normal_names cs) = Some i"
proof (induction e d cs arbitrary: w rule: open_below.induct)
  case (2 e d c cs)
  show ?case
  proof (cases c)
    case (Normal n)
    then obtain j w1 where j: "sys_open_dir d n w = (Inr j, w1)" "open_below e j cs w1 = (Inr i, w')"
      using 2(5) by (auto simp: exec_simps)
    note step = open_dir_Inr [OF j(1)]
    with 2(4) [OF Normal j(2)] Normal resolve_disk [of w1 w] show ?thesis by auto
  qed (use 2 in auto)
qed simp

lemma absolute_lexical_Inr:
  assumes "absolute_lexical p w = (Inr q, w')"
  shows "w' = w \<and> (\<exists>a. root_path w p = Some a \<and> normal_names (path_components q) = normal_names (path_components a))"
  using assms push_root_names
  by (auto simp: absolute_lexical_def root_path_def exec_simps ok_or_Inr_iff split: if_splits option.splits)

lemma source_open_Inr:
  assumes "source_open p w = (Inr s, w')"
  shows "application_root w p = Some (so_root s)"
proof -
  obtain q w1 slash w2 w3 where
    q: "absolute_lexical p w = (Inr q, w1)" and slash: "sys_open_slash w1 = (Inr slash, w2)"
    and d: "open_below unsafe_application slash (path_components q) w2 = (Inr (so_root s), w3)"
    using assms by (auto simp: source_open_def exec_simps)
  have "slash = w_slash w1" "disk w2 = disk w1" using slash by (auto simp: sys_open_slash_def syscall_Inr)
  with absolute_lexical_Inr [OF q] open_below_Inr [OF d] resolve_disk [of w2 w] show ?thesis
    by (auto simp: application_root_def)
qed

text \<open>The directory and the name that a canonical path leads to.\<close>

lemma source_parent_Inr:
  assumes "source_parent s p w = (Inr (d, n), w')" "owned_path p"
  shows "place w (so_root s) p = Some (d, n)"
proof -
  have c: "path_components p = map Normal (segments p)" using assms(2) by (rule path_components_owned)
  have ne: "segments p \<noteq> []" by simp
  obtain w1 where dup: "sys_dup_dir (so_root s) w = (Inr (so_root s), w1)"
    and d: "open_below (auth_error UnsafeApplicationRoot (relative_subject p)) (so_root s)
      (case path_parent (path_components p) of None \<Rightarrow> [] | Some parent \<Rightarrow> parent) w1 = (Inr d, w')"
    and n: "n = the (path_file_name (path_components p))"
    using assms(1) by (auto simp: source_parent_def Let_def exec_simps sys_dup_dir_def syscall_Inr)
  have "disk w1 = disk w" using reads_calls(2) dup by (rule still_disk_run)
  moreover have "path_parent (path_components p) = Some (map Normal (butlast (segments p)))"
    using ne by (cases "segments p") (auto simp: path_parent_def c map_butlast)
  moreover have "n = last (segments p)" using ne by (simp add: n c path_file_name_def last_map)
  ultimately show ?thesis using open_below_Inr [OF d] resolve_disk [of w1 w] by (simp add: place_def)
qed

lemma source_read_Inr:
  assumes "source_read_required s p w = (Inr content, w')" "owned_path p"
  shows "Transactions.files_below w (so_root s) p = Some content"
proof -
  obtain d n w1 where parent: "source_parent s p w = (Inr (d, n), w1)"
    and rest: "\<exists>i w2 w3 w4 size c. sys_stat_regular d n w1 = (Inr True, w2) \<and> sys_open_read d n w2 = (Inr i, w3) \<and>
      sys_fstat i w3 = (Inr (True, size), w4) \<and> sys_read i w4 = (Inr c, w') \<and>
      content = take (MAX_MANAGED_SOURCE_BYTES + 1) c \<and> length content \<le> MAX_MANAGED_SOURCE_BYTES"
    using assms(1)
    by (auto simp: source_read_required_def Let_def exec_simps ensure_Inr_iff split: prod.splits)
  then obtain i w2 w3 w4 size c where r: "sys_stat_regular d n w1 = (Inr True, w2)" "sys_open_read d n w2 = (Inr i, w3)"
    "sys_fstat i w3 = (Inr (True, size), w4)" "sys_read i w4 = (Inr c, w')"
    "content = take (MAX_MANAGED_SOURCE_BYTES + 1) c" "length content \<le> MAX_MANAGED_SOURCE_BYTES" by blast
  have "content = c" using r(5,6) by (cases "length c \<le> MAX_MANAGED_SOURCE_BYTES + 1") auto
  moreover have "disk w1 = disk w" using reads_source(3) parent by (rule still_disk_run)
  moreover have "disk w2 = disk w1" using reads_calls(7) r(1) by (rule still_disk_run)
  moreover have "disk w4 = disk w3" using reads_calls(8) r(3) by (rule still_disk_run)
  moreover have "w_links w2 (d, n) = Some i" "disk w3 = disk w2" using open_read_Inr [OF r(2)] by auto
  moreover have "\<exists>m. w_nodes w4 i = Some (Regular c m)"
    using r(4) by (auto simp: sys_read_def syscall_Inr split: option.splits node.splits)
  ultimately show ?thesis
    using source_parent_Inr [OF parent assms(2)] by (auto simp: Transactions.files_below_def dest!: disk_eqD)
qed

lemma source_absent_Inr:
  assumes "source_ensure_absent s p w = (Inr u, w')" "owned_path p"
  shows "Transactions.files_below w (so_root s) p = None"
proof -
  obtain d n w1 where parent: "source_parent s p w = (Inr (d, n), w1)"
    and rest: "fst (sys_stat_regular d n w1) = Inl NOENT"
  proof -
    from assms(1) obtain d n w1 where "source_parent s p w = (Inr (d, n), w1)"
      "bindE (attempt (sys_stat_regular d n)) (\<lambda>observed. case observed of
         Inl NOENT \<Rightarrow> ret () | Inr _ \<Rightarrow> throw (auth_error UnexpectedManagedSource (relative_subject p))
       | Inl _ \<Rightarrow> throw (auth_error UnsafeApplicationRoot (relative_subject p))) w1 = (Inr u, w')"
      by (auto simp: source_ensure_absent_def bindE_Inr_iff)
    with that show thesis
      by (cases "fst (sys_stat_regular d n w1)") (auto simp: bindE_def run_attempt split: errno.splits)
  qed
  from rest have "w_links w1 (d, n) = None" by (simp add: sys_stat_regular_def syscall_def split: option.splits)
  moreover have "disk w1 = disk w" using reads_source(3) parent by (rule still_disk_run)
  ultimately show ?thesis
    using source_parent_Inr [OF parent assms(2)] by (auto simp: Transactions.files_below_def dest!: disk_eqD)
qed

section \<open>What an authentication has seen\<close>

definition authentic ::
    "package_codec \<Rightarrow> manifest_catalog \<Rightarrow> resolved_upgrade_edge \<Rightarrow> source_ownership option \<Rightarrow> file_map
      \<Rightarrow> authenticated_managed_source \<Rightarrow> bool" where
  "authentic P catalog edge local_ownership files m \<longleftrightarrow>
     (let t = ms_transition m
      in require_ownership edge local_ownership t = Inr () \<and> target_content catalog t = Inr (ms_target m) \<and>
         (if mt_kind t = CreateIntegration then owned_path (mt_path t) \<longrightarrow> files (mt_path t) = None
          else \<exists>content. ms_source m = Some content \<and> mt_source_sha256 t = Some (sha256_text P content) \<and>
                 (owned_path (mt_path t) \<longrightarrow> files (mt_path t) = Some content)))"

lemma files_below_disk: "disk w' = disk w \<Longrightarrow> Transactions.files_below w' r = Transactions.files_below w r"
proof -
  assume d: "disk w' = disk w"
  then have e: "w_links w' = w_links w" "w_nodes w' = w_nodes w" using disk_eqD [OF d] by blast+
  show ?thesis by (rule ext) (simp only: Transactions.files_below_def place_def resolve_disk [OF d] e cong: option.case_cong)
qed

lemma reads_managed [steps_intros]:
  "only_reads (observe_source P s t)" "only_reads (authenticate_managed P catalog s edge own t)" "only_reads (read_application P s)"
proof -
  show o: "only_reads (observe_source P s t)"
    unfolding observe_source_def by (cases "mt_kind t") (auto intro!: steps_intros)
  show "only_reads (authenticate_managed P catalog s edge own t)" "only_reads (read_application P s)"
    unfolding authenticate_managed_def read_application_def by (intro steps_intros o)+
qed

lemma observe_source_Inr:
  assumes "observe_source P s t w = (Inr observed, w')"
  shows "if mt_kind t = CreateIntegration then owned_path (mt_path t) \<longrightarrow> Transactions.files_below w (so_root s) (mt_path t) = None
    else \<exists>content. observed = Some content \<and> mt_source_sha256 t = Some (sha256_text P content) \<and>
      (owned_path (mt_path t) \<longrightarrow> Transactions.files_below w (so_root s) (mt_path t) = Some content)"
proof (cases "mt_kind t = CreateIntegration")
  case True
  with assms source_absent_Inr show ?thesis by (auto simp: observe_source_def exec_simps)
next
  case False
  then have "observe_source P s t = bindE (source_read_required s (mt_path t)) (\<lambda>content.
      seqE (of_result (verify_source_digest P t content)) (ret (Some content)))"
    by (cases "mt_kind t") (simp_all add: observe_source_def)
  with assms False source_read_Inr show ?thesis by (auto simp: exec_simps verify_source_digest_def)
qed

lemma authenticate_managed_Inr:
  assumes "authenticate_managed P catalog s edge own t w = (Inr m, w')"
  shows "ms_transition m = t \<and> authentic P catalog edge own (Transactions.files_below w (so_root s)) m"
  using assms observe_source_Inr [of P s t w]
  by (fastforce simp: authenticate_managed_def authentic_def Let_def exec_simps)

lemma authenticate_all_Inr:
  assumes "collect_each (authenticate_managed P catalog s edge own) ts w = (Inr ms, w')"
  shows "map ms_transition ms = ts \<and> (\<forall>m \<in> set ms. authentic P catalog edge own (Transactions.files_below w (so_root s)) m)"
  using assms
proof (induction ts arbitrary: w ms)
  case (Cons t ts)
  then obtain m w1 rest where m: "authenticate_managed P catalog s edge own t w = (Inr m, w1)" "ms = m # rest"
    and rest: "collect_each (authenticate_managed P catalog s edge own) ts w1 = (Inr rest, w')"
    by (auto simp: exec_simps)
  have "disk w1 = disk w" using reads_managed(2) m(1) by (rule still_disk_run)
  from Cons.IH [OF rest] authenticate_managed_Inr [OF m(1)] m(2) files_below_disk [OF this] show ?case by simp
qed (simp add: exec_simps)

lemma reads_authentication: "only_reads (authenticate_upgrade_source P catalog path)"
  unfolding authenticate_upgrade_source_def by (intro steps_intros)

lemma hegira_toml_owned: "owned_path ''hegira.toml''"
  by code_simp

lemma authenticated:
  assumes "authenticate_upgrade_source P catalog path w = (Inr b, w')"
  shows "\<exists>r. application_root w path = Some r \<and>
    Transactions.files_below w r ''hegira.toml'' = Some (ab_manifest_source b) \<and>
    manifest_from_toml (pc_manifest P) (ab_manifest_source b) = Inr (ab_application b) \<and>
    (\<exists>request. edge_request (ab_application b) = Inr request \<and> catalog_resolve_upgrade_edge catalog request = Inr (ab_edge b)) \<and>
    map ms_transition (ab_managed_sources b) = applicable_integrations (ab_edge b) \<and>
    (\<forall>m \<in> set (ab_managed_sources b). authentic P catalog (ab_edge b) (map_option ug_ownership (am_upgrade (ab_application b)))
       (Transactions.files_below w r) m)"
proof -
  obtain s w1 w2 w3 request where
    open_s: "source_open path w = (Inr s, w1)"
    and app: "read_application P s w1 = (Inr (ab_manifest_source b, ab_application b), w2)"
    and request: "edge_request (ab_application b) = Inr request" "catalog_resolve_upgrade_edge catalog request = Inr (ab_edge b)"
    and ms: "collect_each (authenticate_managed P catalog s (ab_edge b) (map_option ug_ownership (am_upgrade (ab_application b))))
      (applicable_integrations (ab_edge b)) w2 = (Inr (ab_managed_sources b), w3)"
    using assms unfolding authenticate_upgrade_source_def by (auto simp: exec_simps)
  have d1: "disk w1 = disk w" using reads_source(2) open_s by (rule still_disk_run)
  have d2: "disk w2 = disk w1" using reads_managed(3) app by (rule still_disk_run)
  from app obtain w4 where read: "source_read_required s ''hegira.toml'' w1 = (Inr (ab_manifest_source b), w4)"
    and "manifest_from_toml (pc_manifest P) (ab_manifest_source b) = Inr (ab_application b)"
    unfolding read_application_def by (auto simp: exec_simps)
  with source_open_Inr [OF open_s] source_read_Inr [OF read hegira_toml_owned] authenticate_all_Inr [OF ms] request
    files_below_disk [OF d1] files_below_disk [OF d2]
  show ?thesis by auto
qed

section \<open>What a plan accounts for\<close>

text \<open>A change stands for a managed source; its result is the packaged content unless its path is structured.\<close>

definition planned_for :: "(content \<Rightarrow> content_digest) \<Rightarrow> string set \<Rightarrow> authenticated_managed_source \<Rightarrow> planned_file_change \<Rightarrow> bool" where
  "planned_for sha structured m c \<longleftrightarrow>
     (let t = ms_transition m
      in pc_path c = mt_path t \<and> owned_path (mt_path t) \<and>
         (case mt_kind t of
            CreateIntegration \<Rightarrow> pc_operation c = Create
          | EditIntegration \<Rightarrow> pc_operation c = Edit \<and> (\<exists>s. ms_source m = Some s \<and> pc_precondition c = MatchesDigest (sha s))
          | RetireIntegration \<Rightarrow> pc_operation c = Retire \<and> (\<exists>s. ms_source m = Some s \<and> pc_precondition c = MatchesDigest (sha s))) \<and>
         (mt_path t \<notin> structured \<longrightarrow>
            (mt_kind t \<noteq> RetireIntegration \<longrightarrow> pc_resulting_content c = ms_target m) \<and>
            (prefix HISTORICAL_MIGRATION_ROOT (mt_path t) \<longrightarrow> mt_kind t = CreateIntegration)))"

definition owner_of :: "managed_integration_transition \<Rightarrow> upgrade_change_owner" where
  "owner_of t = \<lparr> wo_component = mt_component t, wo_integration = mt_integration t \<rparr>"

text \<open>The state of the planning: every change stands for a managed source and has its owner, every owner has a change,
  and at the structured paths the results satisfy \<open>Q\<close>.\<close>

definition accounted ::
    "(content \<Rightarrow> content_digest) \<Rightarrow> authenticated_managed_source list \<Rightarrow> (string \<Rightarrow> content option \<Rightarrow> bool) \<Rightarrow> upgrade_changes \<Rightarrow> bool" where
  "accounted sha ms Q state \<longleftrightarrow>
     (\<forall>c \<in> set (uc_changes state). \<exists>m \<in> set ms. planned_for sha (uc_structured_paths state) m c \<and>
        bt_get (uc_owners state) (pc_path c) = Some (owner_of (ms_transition m))) \<and>
     (\<forall>p. bt_get (uc_owners state) p \<noteq> None \<longrightarrow> p \<in> pc_path ` set (uc_changes state)) \<and>
     (\<forall>p \<in> uc_structured_paths state. \<exists>c \<in> set (uc_changes state). pc_path c = p \<and> Q p (pc_resulting_content c))"

lemma planned_for_mono: "planned_for sha S m c \<Longrightarrow> S \<subseteq> S' \<Longrightarrow> planned_for sha S' m c"
  by (auto simp: planned_for_def Let_def)

lemma push_change_Inr:
  "push_change t c X state = Inr state' \<longleftrightarrow>
     bt_get (uc_owners state) (mt_path t) = None \<and> uc_changes state' = uc_changes state @ [c] \<and>
     uc_owners state' = bt_insert (mt_path t) (owner_of t) (uc_owners state) \<and>
     uc_structured_paths state' = X \<union> uc_structured_paths state"
  by (cases state') (auto simp: push_change_def insert_owner_def owner_of_def)

lemma push_accounted:
  assumes "accounted sha ms Q state" "push_change (ms_transition m) c X state = Inr state'" "m \<in> set ms"
    and "planned_for sha (X \<union> uc_structured_paths state) m c"
    and "\<And>p. p \<in> X \<Longrightarrow> p = pc_path c \<and> Q p (pc_resulting_content c)"
  shows "accounted sha ms Q state'"
proof -
  note push = assms(2) [unfolded push_change_Inr]
  have path: "pc_path c = mt_path (ms_transition m)" using assms(4) by (simp add: planned_for_def Let_def)
  have "\<exists>m \<in> set ms. planned_for sha (uc_structured_paths state') m d \<and>
      bt_get (uc_owners state') (pc_path d) = Some (owner_of (ms_transition m))" if "d \<in> set (uc_changes state')" for d
  proof (cases "d = c")
    case True
    then show ?thesis using assms(3,4) push path by (auto simp: bt_get_insert)
  next
    case False
    with that push have "d \<in> set (uc_changes state)" by simp
    with assms(1) obtain n where "n \<in> set ms" "planned_for sha (uc_structured_paths state) n d"
      "bt_get (uc_owners state) (pc_path d) = Some (owner_of (ms_transition n))"
      unfolding accounted_def by blast
    then show ?thesis using push by (intro bexI [of _ n]) (auto simp: bt_get_insert intro: planned_for_mono)
  qed
  then show ?thesis
    using assms(1,5) push path by (auto simp: accounted_def bt_get_insert split: if_splits)
qed

lemma required_managed_Inr:
  "required_managed_source b path integration = Inr m \<Longrightarrow>
     m \<in> set (ab_managed_sources b) \<and> mt_path (ms_transition m) = path \<and> mt_integration (ms_transition m) = integration"
  unfolding required_managed_source_def
  by (auto split: list.splits dest!: arg_cong [where f = set])

lemma edit_new_Inr:
  "structured_file_edit_new sha path old new = Inr e \<Longrightarrow>
     owned_path path \<and> fe_path e = path \<and> fe_original_digest e = sha old \<and> fe_content e = new \<and> fe_result_digest e = sha new"
  by (auto simp: structured_file_edit_new_def Let_def change_path_new_iff)

text \<open>A structured edit of a managed source that is to be edited.\<close>

lemma push_edit_accounted:
  assumes "accounted sha ms Q state" "m \<in> set ms" "mt_path (ms_transition m) = path" "mt_kind (ms_transition m) = EditIntegration"
    and "ms_source m = Some old" "structured_file_edit_new sha path old new = Inr e" "Q path (Some new)"
    and "push_change (ms_transition m) (PEdit e) {path} state = Inr state'"
  shows "accounted sha ms Q state'"
  using edit_new_Inr [OF assms(6)] assms(2-5,7)
  by (intro push_accounted [OF assms(1,8)]) (auto simp: planned_for_def)

section \<open>The steps of the planning\<close>

lemma plan_application_manifest_accounted:
  assumes "plan_application_manifest sha C b target state = Inr state'" "accounted sha (ab_managed_sources b) Q state"
    and "\<And>written. manifest_to_toml C target = Inr written \<Longrightarrow> Q APPLICATION_MANIFEST_PATH (Some written)"
  shows "accounted sha (ab_managed_sources b) Q state' \<and>
    (\<exists>written. manifest_to_toml C target = Inr written \<and>
       (\<exists>c \<in> set (uc_changes state'). pc_path c = APPLICATION_MANIFEST_PATH \<and> pc_resulting_content c = Some written))"
proof -
  obtain m written e where m: "required_managed_source b APPLICATION_MANIFEST_PATH APPLICATION_MANIFEST_INTEGRATION = Inr m"
    "mt_kind (ms_transition m) = EditIntegration" "ms_source m = Some (ab_manifest_source b)"
    and written: "manifest_to_toml C target = Inr written"
    and e: "structured_file_edit_new sha APPLICATION_MANIFEST_PATH (ab_manifest_source b) written = Inr e"
    and push: "push_change (ms_transition m) (PEdit e) {APPLICATION_MANIFEST_PATH} state = Inr state'"
    using assms(1) by (auto simp: plan_application_manifest_def)
  note managed = required_managed_Inr [OF m(1)]
  with push_edit_accounted [OF assms(2) _ _ m(2,3) e assms(3) [OF written] push] push written edit_new_Inr [OF e]
  show ?thesis by (auto simp: push_change_Inr)
qed

text \<open>What the edit of a manifest with framework dependencies results in.\<close>

definition moved_dependencies ::
    "'d toml_library \<Rightarrow> (content \<Rightarrow> content_digest) \<Rightarrow> authenticated_upgrade_boundary \<Rightarrow> string \<Rightarrow> framework_dependency list
      \<Rightarrow> content option \<Rightarrow> bool" where
  "moved_dependencies T sha b path dependencies result \<longleftrightarrow>
     (\<exists>m \<in> set (ab_managed_sources b). \<exists>source written. mt_path (ms_transition m) = path \<and>
        mt_integration (ms_transition m) = FRAMEWORK_DEPENDENCIES_INTEGRATION \<and> mt_kind (ms_transition m) = EditIntegration \<and>
        ms_source m = Some source \<and>
        move_dependencies T sha (ab_edge b) path dependencies source = Inr written \<and> result = Some written)"

lemma plan_framework_manifest_accounted:
  assumes "plan_framework_manifest T parse_table sha b path dependencies state = Inr state'"
    and "accounted sha (ab_managed_sources b) Q state"
    and "\<And>result. moved_dependencies T sha b path dependencies result \<Longrightarrow> Q path result"
  shows "accounted sha (ab_managed_sources b) Q state'"
proof -
  obtain m source written e where m: "required_managed_source b path FRAMEWORK_DEPENDENCIES_INTEGRATION = Inr m"
    "mt_kind (ms_transition m) = EditIntegration" "ms_source m = Some source"
    and written: "move_dependencies T sha (ab_edge b) path dependencies source = Inr written"
    and e: "structured_file_edit_new sha path source written = Inr e"
    and push: "push_change (ms_transition m) (PEdit e) {path} state = Inr state'"
    using assms(1) by (auto simp: plan_framework_manifest_def required_source_def)
  note managed = required_managed_Inr [OF m(1)]
  with m written have "moved_dependencies T sha b path dependencies (Some written)" by (auto simp: moved_dependencies_def)
  from push_edit_accounted [OF assms(2) _ _ m(2,3) e assms(3) [OF this] push] managed show ?thesis by blast
qed

lemma plan_framework_manifests_accounted:
  assumes "plan_framework_manifests T parse_table sha b groups state = Inr state'"
    and "accounted sha (ab_managed_sources b) Q state"
    and "\<And>path dependencies result. (path, dependencies) \<in> set groups \<Longrightarrow>
      moved_dependencies T sha b path dependencies result \<Longrightarrow> Q path result"
  shows "accounted sha (ab_managed_sources b) Q state'"
  using assms
proof (induction T parse_table sha b groups state rule: plan_framework_manifests.induct)
  case (2 T parse_table sha b path dependencies rest state)
  then obtain state1 where s: "plan_framework_manifest T parse_table sha b path dependencies state = Inr state1"
    "plan_framework_manifests T parse_table sha b rest state1 = Inr state'" by auto
  from plan_framework_manifest_accounted [OF s(1) 2(3) 2(4) [of path dependencies]]
  have "accounted sha (ab_managed_sources b) Q state1" by simp
  then show ?case by (intro 2(1) [OF s(2)] 2(4)) simp_all
qed simp

lemma plan_transition_planned:
  assumes "plan_transition sha ownership (ms_transition m) (ms_source m) (ms_target m) = Inr c"
  shows "planned_for sha S m c"
  using assms
  by (cases "mt_kind (ms_transition m)")
    (auto simp: plan_transition_def planned_for_def Let_def required_source_def required_target_def file_creation_new_def
      managed_file_retirement_new_def change_path_new_iff dest: edit_new_Inr)

lemma plan_managed_accounted:
  assumes "plan_managed sha composition rest state = Inr state'" "accounted sha ms Q state" "set rest \<subseteq> set ms"
  shows "accounted sha ms Q state' \<and> set (uc_changes state) \<subseteq> set (uc_changes state') \<and>
    uc_structured_paths state' = uc_structured_paths state \<and>
    (\<forall>m \<in> set rest. mt_path (ms_transition m) \<in> uc_structured_paths state \<or>
       (\<exists>c \<in> set (uc_changes state'). planned_for sha (uc_structured_paths state) m c))"
  using assms
proof (induction sha composition rest state rule: plan_managed.induct)
  case (2 sha composition m rest state)
  have sub: "m \<in> set ms" "set rest \<subseteq> set ms" using 2(5) by auto
  show ?case
  proof (cases "mt_path (ms_transition m) \<in> uc_structured_paths state")
    case True
    with 2(3) have "plan_managed sha composition rest state = Inr state'" by (simp add: Let_def)
    from 2(1) [OF refl True this 2(4) sub(2)] True show ?thesis by simp
  next
    case False
    then obtain c state1 where c: "plan_transition sha (transition_ownership composition (ms_transition m)) (ms_transition m)
          (ms_source m) (ms_target m) = Inr c" "push_change (ms_transition m) c {} state = Inr state1"
      and rest: "plan_managed sha composition rest state1 = Inr state'"
      using 2(3) by (auto simp: Let_def)
    note planned = plan_transition_planned [OF c(1)]
    have "accounted sha ms Q state1"
      using push_accounted [OF 2(4) c(2) sub(1) planned] by simp
    from 2(2) [OF refl False rest this sub(2)] c(2) planned [of "uc_structured_paths state"]
    show ?thesis unfolding push_change_Inr by auto
  qed
qed simp

section \<open>The whole plan\<close>

text \<open>The results at the structured paths.\<close>

definition structured_result ::
    "'d toml_library \<Rightarrow> (content \<Rightarrow> content_digest) \<Rightarrow> manifest_codec \<Rightarrow> manifest_catalog \<Rightarrow> authenticated_upgrade_boundary
      \<Rightarrow> resolved_composition \<Rightarrow> string \<Rightarrow> content option \<Rightarrow> bool" where
  "structured_result T sha C catalog b graph path result \<longleftrightarrow>
     path = ''hegira.toml'' \<and> (\<exists>written. manifest_to_toml C (upgraded_manifest b graph) = Inr written \<and> result = Some written) \<or>
     (\<exists>required_dependencies dependencies. target_framework_dependencies catalog graph = Inr required_dependencies \<and>
        (path, dependencies) \<in> set (group_dependencies required_dependencies []) \<and>
        moved_dependencies T sha b path dependencies result)"

lemma from_authenticated_Inr:
  assumes "from_authenticated T parse_table sha C catalog b = Some (Inr plan)"
  shows "\<exists>graph state. resolve_composition catalog (target_composition_request b) = Some (Inr graph) \<and>
    reject_component_removal b graph = Inr () \<and>
    manifest_transitions (ab_application b) (upgraded_manifest b graph) = ru_manifest_transitions (ab_edge b) \<and>
    accounted sha (ab_managed_sources b) (structured_result T sha C catalog b graph) state \<and>
    (\<exists>written. manifest_to_toml C (upgraded_manifest b graph) = Inr written \<and>
       (\<exists>c \<in> set (uc_changes state). pc_path c = ''hegira.toml'' \<and> pc_resulting_content c = Some written)) \<and>
    (\<forall>m \<in> set (ab_managed_sources b). mt_path (ms_transition m) \<in> uc_structured_paths state \<or>
       (\<exists>c \<in> set (uc_changes state). planned_for sha (uc_structured_paths state) m c)) \<and>
    plan_new sha (uc_changes state) = Inr (up_change_plan plan) \<and> up_owners plan = uc_owners state"
proof -
  obtain graph target dependencies state where
    graph: "resolve_composition catalog (target_composition_request b) = Some (Inr graph)"
    and target: "check_target C catalog b graph = Inr (graph, target)"
    and dependencies: "target_framework_dependencies catalog graph = Inr dependencies"
    and state: "plan_changes T parse_table sha C b dependencies target = Inr state"
    and plan: "plan_new sha (uc_changes state) = Inr (up_change_plan plan)" "up_owners plan = uc_owners state"
    using assms
    by (auto simp: from_authenticated_def validated_target_manifest_def resolve_target_composition_def plan_from_target_def
        check_target_def Let_def)
  from target have t: "reject_component_removal b graph = Inr ()" "target = upgraded_manifest b graph"
    "manifest_transitions (ab_application b) target = ru_manifest_transitions (ab_edge b)"
    by (auto simp: check_target_def target_manifest_def)
  let ?Q = "structured_result T sha C catalog b graph"
  let ?s0 = "\<lparr> uc_changes = [], uc_owners = [], uc_structured_paths = {} \<rparr>"
  obtain s1 s2 where s: "plan_framework_dependencies T parse_table sha b dependencies ?s0 = Inr s1"
    "plan_application_manifest sha C b target s1 = Inr s2"
    "plan_managed sha (ru_composition (ab_edge b)) (ab_managed_sources b) s2 = Inr state"
    using state by (auto simp: plan_changes_def)
  have "accounted sha (ab_managed_sources b) ?Q ?s0" by (simp add: accounted_def bt_get_def)
  then have a1: "accounted sha (ab_managed_sources b) ?Q s1"
    using dependencies by (intro plan_framework_manifests_accounted [OF s(1) [unfolded plan_framework_dependencies_def]])
      (auto simp: structured_result_def)
  have a2: "accounted sha (ab_managed_sources b) ?Q s2 \<and> (\<exists>written. manifest_to_toml C (upgraded_manifest b graph) = Inr written \<and>
      (\<exists>c \<in> set (uc_changes s2). pc_path c = ''hegira.toml'' \<and> pc_resulting_content c = Some written))"
    using plan_application_manifest_accounted [OF s(2) a1] t(2)
    by (auto simp: structured_result_def APPLICATION_MANIFEST_PATH_def)
  from plan_managed_accounted [OF s(3) conjunct1 [OF a2] subset_refl] a2 graph t plan show ?thesis
    by (intro exI [of _ graph] exI [of _ state]) auto
qed

lemma plan_upgrade_Inr:
  "plan_upgrade T parse_table sha P catalog path w = (Some (Inr plan), w') \<longleftrightarrow>
     (\<exists>b. authenticate_upgrade_source P catalog path w = (Inr b, w') \<and>
        from_authenticated T parse_table sha (pc_manifest P) catalog b = Some (Inr plan))"
  by (auto simp: plan_upgrade_def split: prod.splits sum.splits)

lemma planned_for_path: "planned_for sha S m c \<Longrightarrow> pc_path c = mt_path (ms_transition m)"
  by (simp add: planned_for_def Let_def)

text \<open>A change that stands for an authentic source can be made.\<close>

lemma authentic_meets:
  assumes "planned_for sha S m c" "authentic P catalog edge own files m"
  shows "meets sha files c"
proof -
  let ?t = "ms_transition m"
  have c: "pc_path c = mt_path ?t" "owned_path (mt_path ?t)" using assms(1) by (simp_all add: planned_for_def Let_def)
  show ?thesis
  proof (cases "mt_kind ?t = CreateIntegration")
    case True
    with assms c have "files (pc_path c) = None" "pc_operation c = Create"
      by (auto simp: authentic_def planned_for_def Let_def)
    then show ?thesis by (cases c) (simp_all add: meets_def)
  next
    case False
    then obtain s where "ms_source m = Some s" "pc_precondition c = MatchesDigest (sha s)"
      using assms(1) by (cases "mt_kind ?t") (auto simp: planned_for_def Let_def)
    with False assms(2) c show ?thesis by (auto simp: authentic_def Let_def meets_def)
  qed
qed

text \<open>What the result of a change without structured edit is.\<close>

lemma authentic_result:
  assumes "planned_for sha S m c" "authentic P catalog edge own files m" "pc_path c \<notin> S"
  shows "target_content catalog (ms_transition m) = Inr (pc_resulting_content c)"
proof (cases "mt_kind (ms_transition m)")
  case RetireIntegration
  with assms have "pc_operation c = Retire" "target_content catalog (ms_transition m) = Inr None"
    by (auto simp: planned_for_def Let_def target_content_def)
  then show ?thesis by (cases c) simp_all
qed (use assms in \<open>auto simp: planned_for_def authentic_def Let_def\<close>)

lemma bt_values_set: "plan_new sha cs = Inr plan \<Longrightarrow> set plan = set cs \<and> distinct (map pc_path plan)"
  using plan_new_iff [of sha cs plan] strict_sorted_iff by blast

lemma run_changes_exists:
  assumes "distinct (map pc_path plan)" "\<forall>c \<in> set plan. meets sha files c"
  shows "\<exists>files'. run_changes sha plan files = Some files' \<and> (\<forall>c \<in> set plan. files' (pc_path c) = pc_resulting_content c) \<and>
    (\<forall>p. p \<notin> pc_path ` set plan \<longrightarrow> files' p = files p)"
proof -
  define files' where "files' p = (case map_of (map (\<lambda>c. (pc_path c, pc_resulting_content c)) plan) p of
     Some content \<Rightarrow> content | None \<Rightarrow> files p)" for p
  have at: "files' (pc_path c) = pc_resulting_content c" if "c \<in> set plan" for c
  proof -
    have "map_of (map (\<lambda>c. (pc_path c, pc_resulting_content c)) plan) (pc_path c) = Some (pc_resulting_content c)"
      using that assms(1) by (intro map_of_is_SomeI) (auto simp: comp_def)
    then show ?thesis by (simp add: files'_def)
  qed
  have other: "files' p = files p" if "p \<notin> pc_path ` set plan" for p
    using that map_of_eq_None_iff [of "map (\<lambda>c. (pc_path c, pc_resulting_content c)) plan" p]
    by (simp add: files'_def image_image split: option.splits)
  with at assms run_changes_distinct [of plan sha files files'] show ?thesis by blast
qed

section \<open>Properties\<close>

text \<open>The outcome of an upgrade, in terms of the files before and after it.\<close>

definition upgraded ::
    "'d toml_library \<Rightarrow> (content \<Rightarrow> content_digest) \<Rightarrow> package_codec \<Rightarrow> manifest_catalog \<Rightarrow> authenticated_upgrade_boundary
      \<Rightarrow> resolved_composition \<Rightarrow> file_map \<Rightarrow> file_map \<Rightarrow> bool" where
  "upgraded T sha P catalog b graph files files' \<longleftrightarrow>
     (\<exists>written. manifest_to_toml (pc_manifest P) (upgraded_manifest b graph) = Inr written \<and> files' ''hegira.toml'' = Some written) \<and>
     (\<forall>t \<in> set (applicable_integrations (ab_edge b)).
        target_content catalog t = Inr (files' (mt_path t)) \<or>
        structured_result T sha (pc_manifest P) catalog b graph (mt_path t) (files' (mt_path t))) \<and>
     (\<forall>p. p \<notin> mt_path ` set (applicable_integrations (ab_edge b)) \<longrightarrow> files' p = files p)"

lemma planned_upgrade_runs:
  assumes "authenticate_upgrade_source P catalog path w = (Inr b, w')"
    and "from_authenticated T parse_table sha (pc_manifest P) catalog b = Some (Inr plan)"
    and "application_root w path = Some r"
  shows "\<exists>graph files'. resolve_composition catalog (target_composition_request b) = Some (Inr graph) \<and>
    run_changes sha (up_change_plan plan) (Transactions.files_below w r) = Some files' \<and>
    upgraded T sha P catalog b graph (Transactions.files_below w r) files'"
proof -
  let ?files = "Transactions.files_below w r" and ?own = "map_option ug_ownership (am_upgrade (ab_application b))"
  obtain graph state where
    graph: "resolve_composition catalog (target_composition_request b) = Some (Inr graph)"
    and acc: "accounted sha (ab_managed_sources b) (structured_result T sha (pc_manifest P) catalog b graph) state"
    and manifest: "\<exists>written. manifest_to_toml (pc_manifest P) (upgraded_manifest b graph) = Inr written \<and>
       (\<exists>c \<in> set (uc_changes state). pc_path c = ''hegira.toml'' \<and> pc_resulting_content c = Some written)"
    and covered: "\<And>m. m \<in> set (ab_managed_sources b) \<Longrightarrow> mt_path (ms_transition m) \<in> uc_structured_paths state \<or>
       (\<exists>c \<in> set (uc_changes state). planned_for sha (uc_structured_paths state) m c)"
    and plan: "plan_new sha (uc_changes state) = Inr (up_change_plan plan)"
    using from_authenticated_Inr [OF assms(2)] by blast
  have ts: "map ms_transition (ab_managed_sources b) = applicable_integrations (ab_edge b)"
    and auth: "\<And>m. m \<in> set (ab_managed_sources b) \<Longrightarrow> authentic P catalog (ab_edge b) ?own ?files m"
    using authenticated [OF assms(1)] assms(3) by auto
  have ts_set: "set (applicable_integrations (ab_edge b)) = ms_transition ` set (ab_managed_sources b)"
    by (simp add: ts [symmetric])
  note p = bt_values_set [OF plan]
  have planned: "\<exists>m \<in> set (ab_managed_sources b). planned_for sha (uc_structured_paths state) m c" if "c \<in> set (uc_changes state)" for c
    using acc that unfolding accounted_def by blast
  then have meet: "\<forall>c \<in> set (up_change_plan plan). meets sha ?files c" using authentic_meets auth p by blast
  obtain files' where f: "run_changes sha (up_change_plan plan) ?files = Some files'"
    "\<And>c. c \<in> set (uc_changes state) \<Longrightarrow> files' (pc_path c) = pc_resulting_content c"
    "\<And>q. q \<notin> pc_path ` set (uc_changes state) \<Longrightarrow> files' q = ?files q"
    using run_changes_exists [OF conjunct2 [OF p] meet] p by auto
  have structured: "\<exists>c \<in> set (uc_changes state). pc_path c = q \<and> structured_result T sha (pc_manifest P) catalog b graph q (pc_resulting_content c)"
    if "q \<in> uc_structured_paths state" for q
    using acc that unfolding accounted_def by blast
  have "target_content catalog t = Inr (files' (mt_path t)) \<or>
      structured_result T sha (pc_manifest P) catalog b graph (mt_path t) (files' (mt_path t))"
    if "t \<in> set (applicable_integrations (ab_edge b))" for t
  proof -
    from that ts_set obtain m where m: "m \<in> set (ab_managed_sources b)" "t = ms_transition m" by blast
    show ?thesis
    proof (cases "mt_path t \<in> uc_structured_paths state")
      case True
      with structured f(2) show ?thesis by metis
    next
      case False
      with covered m obtain c where c: "c \<in> set (uc_changes state)" "planned_for sha (uc_structured_paths state) m c" by blast
      then have path: "pc_path c = mt_path t" by (simp add: planned_for_def m(2) Let_def)
      with authentic_result [OF c(2) auth [OF m(1)]] False f(2) [OF c(1)] m(2) show ?thesis by simp
    qed
  qed
  moreover have "mt_path ` set (applicable_integrations (ab_edge b)) \<supseteq> pc_path ` set (uc_changes state)"
    using planned ts_set planned_for_path by fastforce
  then have "files' q = ?files q" if "q \<notin> mt_path ` set (applicable_integrations (ab_edge b))" for q
    using that f(3) by blast
  moreover from manifest f(2)
  have "\<exists>written. manifest_to_toml (pc_manifest P) (upgraded_manifest b graph) = Inr written \<and> files' ''hegira.toml'' = Some written"
    by metis
  ultimately show ?thesis using graph f(1) unfolding upgraded_def by blast
qed

text \<open>C5. A plan that the tool makes for an application can be run on its files as they were read: all its preconditions
  hold. It leads to the target of the authenticated edge: \<open>hegira.toml\<close> is the manifest of the target release with the resolved
  composition and the declared ownership, the manifests with framework dependencies have them moved to the target release,
  every other managed path has exactly the packaged content or is gone, and nothing else changes. Planning only reads.\<close>
theorem upgrade_plan_reaches_target:
  assumes "plan_upgrade T parse_table sha P catalog path w = (Some (Inr plan), w')"
  shows "disk w' = disk w \<and>
    (\<exists>r b graph files'. application_root w path = Some r \<and> authenticate_upgrade_source P catalog path w = (Inr b, w') \<and>
       resolve_composition catalog (target_composition_request b) = Some (Inr graph) \<and>
       run_changes sha (up_change_plan plan) (Transactions.files_below w r) = Some files' \<and>
       upgraded T sha P catalog b graph (Transactions.files_below w r) files')"
proof -
  from assms obtain b where b: "authenticate_upgrade_source P catalog path w = (Inr b, w')"
    "from_authenticated T parse_table sha (pc_manifest P) catalog b = Some (Inr plan)"
    by (auto simp: plan_upgrade_Inr)
  from authenticated [OF b(1)] obtain r where "application_root w path = Some r" by blast
  with planned_upgrade_runs [OF b] still_disk_run [OF reads_authentication b(1)] b(1) show ?thesis by blast
qed

text \<open>C6. Publishing the plan of an upgrade right after it was made, when the publication reports success, brings the
  application to the target of the authenticated edge, and touches no directory entry but those of the plan.\<close>
theorem published_upgrade_reaches_target:
  assumes "plan_upgrade T parse_table sha P catalog path w = (Some (Inr plan), w1)"
    and "publish_change_plan sha path (up_change_plan plan) w1 = (Inr n, w2)"
    and "fresh_transaction path (up_change_plan plan) r t w1"
  shows "\<exists>b graph. authenticate_upgrade_source P catalog path w = (Inr b, w1) \<and>
    resolve_composition catalog (target_composition_request b) = Some (Inr graph) \<and>
    upgraded T sha P catalog b graph (Transactions.files_below w r) (Transactions.files_below w2 r) \<and>
    \<not> marker_present r w2 \<and> elsewhere_same r (up_change_plan plan) w1 w2"
proof -
  from assms(1) obtain b where b: "authenticate_upgrade_source P catalog path w = (Inr b, w1)"
    "from_authenticated T parse_table sha (pc_manifest P) catalog b = Some (Inr plan)"
    by (auto simp: plan_upgrade_Inr)
  note same = still_run [OF reads_authentication b(1)]
  then have "fresh_transaction path (up_change_plan plan) r t w"
    using assms(3) fresh_cong(1) [of w1 w] by blast
  then have "application_root w path = Some r" by (simp add: fresh_transaction_def)
  from planned_upgrade_runs [OF b this] obtain graph files' where g:
    "resolve_composition catalog (target_composition_request b) = Some (Inr graph)"
    "run_changes sha (up_change_plan plan) (Transactions.files_below w r) = Some files'"
    "upgraded T sha P catalog b graph (Transactions.files_below w r) files'" by blast
  note published = published_run [OF assms(2,3)]
  moreover have "Transactions.files_below w1 r = Transactions.files_below w r" using same fresh_cong(2) by blast
  ultimately show ?thesis using b(1) g by auto
qed

text \<open>What entitles a plan to a change: a managed integration of the edge of the same kind, declared by the ownership of
  the states in which the file exists, also by the one the application recorded, on a file with the declared digest.\<close>

definition entitled ::
    "package_codec \<Rightarrow> authenticated_upgrade_boundary \<Rightarrow> file_map \<Rightarrow> managed_integration_transition \<Rightarrow> planned_file_change \<Rightarrow> bool" where
  "entitled P b files t c \<longleftrightarrow>
     (let composition = ru_composition (ab_edge b);
          source = ownership_declares (ut_source_ownership composition) t;
          target = ownership_declares (ut_target_ownership composition) t;
          recorded = (\<forall>u. am_upgrade (ab_application b) = Some u \<longrightarrow> ownership_declares (ug_ownership u) t);
          unchanged = (\<exists>content. files (pc_path c) = Some content \<and> mt_source_sha256 t = Some (sha256_text P content))
      in mt_path t = pc_path c \<and>
         (case pc_operation c of
            Create \<Rightarrow> mt_kind t = CreateIntegration \<and> files (pc_path c) = None \<and> target
          | Edit \<Rightarrow> mt_kind t = EditIntegration \<and> unchanged \<and> source \<and> target \<and> recorded
          | Retire \<Rightarrow> mt_kind t = RetireIntegration \<and> unchanged \<and> source \<and> recorded))"

lemma planned_entitled:
  assumes "planned_for sha S m c"
    and "authentic P catalog (ab_edge b) (map_option ug_ownership (am_upgrade (ab_application b))) files m"
  shows "entitled P b files (ms_transition m) c"
  using assms
  by (cases "mt_kind (ms_transition m)")
    (auto simp: entitled_def planned_for_def authentic_def require_ownership_def Let_def split: option.splits)

lemma owned_changes_total:
  assumes "\<forall>c \<in> set plan. bt_get owners (pc_path c) \<noteq> None"
  shows "\<exists>summaries. owned_changes owners (ss_changes (plan_summary plan)) = Some summaries \<and>
    map uz_path summaries = map pc_path plan"
  using assms by (induction plan) (auto simp: plan_summary_def)

text \<open>C7. An upgrade changes nothing it is not entitled to. Every change of a plan belongs to a managed integration of the
  authenticated edge, which its owner in the plan names; the file has the digest the edge declares and the ownerships, the recorded
  one of the application included, declare the integration. A migration in the history is only ever created, unless it is a manifest
  with framework dependencies. The summary of the plan exists and names an owner for every change.\<close>
theorem upgrade_changes_entitled:
  assumes "plan_upgrade T parse_table sha P catalog path w = (Some (Inr plan), w')"
  shows "\<exists>r b. application_root w path = Some r \<and> authenticate_upgrade_source P catalog path w = (Inr b, w') \<and>
    (\<forall>c \<in> set (up_change_plan plan). \<exists>t \<in> set (applicable_integrations (ab_edge b)).
       entitled P b (Transactions.files_below w r) t c \<and> bt_get (up_owners plan) (pc_path c) = Some (owner_of t) \<and>
       (prefix HISTORICAL_MIGRATION_ROOT (pc_path c) \<longrightarrow> pc_operation c = Create \<or>
          (\<exists>t' \<in> set (applicable_integrations (ab_edge b)).
             mt_path t' = pc_path c \<and> mt_integration t' = FRAMEWORK_DEPENDENCIES_INTEGRATION))) \<and>
    (\<exists>summary. upgrade_summary plan = Some summary \<and> map uz_path (uy_changes summary) = map pc_path (up_change_plan plan))"
proof -
  from assms obtain b where b: "authenticate_upgrade_source P catalog path w = (Inr b, w')"
    "from_authenticated T parse_table sha (pc_manifest P) catalog b = Some (Inr plan)"
    by (auto simp: plan_upgrade_Inr)
  from authenticated [OF b(1)] obtain r where r: "application_root w path = Some r"
    and ts: "map ms_transition (ab_managed_sources b) = applicable_integrations (ab_edge b)"
    and auth: "\<And>m. m \<in> set (ab_managed_sources b) \<Longrightarrow> authentic P catalog (ab_edge b)
      (map_option ug_ownership (am_upgrade (ab_application b))) (Transactions.files_below w r) m" by blast
  obtain graph state where
    acc: "accounted sha (ab_managed_sources b) (structured_result T sha (pc_manifest P) catalog b graph) state"
    and plan: "plan_new sha (uc_changes state) = Inr (up_change_plan plan)" "up_owners plan = uc_owners state"
    using from_authenticated_Inr [OF b(2)] by blast
  have ts_set: "set (applicable_integrations (ab_edge b)) = ms_transition ` set (ab_managed_sources b)"
    by (simp add: ts [symmetric])
  have change: "\<exists>t \<in> set (applicable_integrations (ab_edge b)).
      entitled P b (Transactions.files_below w r) t c \<and> bt_get (up_owners plan) (pc_path c) = Some (owner_of t) \<and>
      (prefix HISTORICAL_MIGRATION_ROOT (pc_path c) \<longrightarrow> pc_operation c = Create \<or>
         (\<exists>t' \<in> set (applicable_integrations (ab_edge b)).
            mt_path t' = pc_path c \<and> mt_integration t' = FRAMEWORK_DEPENDENCIES_INTEGRATION))"
    if "c \<in> set (up_change_plan plan)" for c
  proof -
    have "c \<in> set (uc_changes state)" using that bt_values_set [OF plan(1)] by simp
    with acc obtain m where m: "m \<in> set (ab_managed_sources b)" "planned_for sha (uc_structured_paths state) m c"
      "bt_get (uc_owners state) (pc_path c) = Some (owner_of (ms_transition m))"
      unfolding accounted_def by blast
    note path = planned_for_path [OF m(2)]
    have "pc_operation c = Create \<or> (\<exists>t' \<in> set (applicable_integrations (ab_edge b)).
        mt_path t' = pc_path c \<and> mt_integration t' = FRAMEWORK_DEPENDENCIES_INTEGRATION)"
      if migration: "prefix HISTORICAL_MIGRATION_ROOT (pc_path c)"
    proof (cases "pc_path c \<in> uc_structured_paths state")
      case True
      then obtain result where "structured_result T sha (pc_manifest P) catalog b graph (pc_path c) result"
        using acc unfolding accounted_def by blast
      moreover have "pc_path c \<noteq> ''hegira.toml''" using migration by (auto simp: HISTORICAL_MIGRATION_ROOT_def)
      ultimately show ?thesis by (auto simp: structured_result_def moved_dependencies_def ts_set)
    next
      case False
      with m(2) migration show ?thesis by (auto simp: planned_for_def Let_def path)
    qed
    with planned_entitled [OF m(2) auth [OF m(1)]] m(1,3) plan(2) ts_set show ?thesis by auto
  qed
  then have "\<forall>c \<in> set (up_change_plan plan). bt_get (up_owners plan) (pc_path c) \<noteq> None" by fastforce
  from owned_changes_total [OF this] change r b(1) show ?thesis
    by (auto simp: upgrade_summary_def)
qed

section \<open>A sample upgrade\<close>

text \<open>Code equations that compare sizes as binary integers, so that the bound on reads can be evaluated.\<close>

definition take_within :: "string \<Rightarrow> string" where
  "take_within content = take (MAX_MANAGED_SOURCE_BYTES + 1) content"

lemma within_limit_code [code_unfold]: "n \<le> MAX_MANAGED_SOURCE_BYTES \<longleftrightarrow> int n \<le> 67108864"
  by (simp add: MAX_MANAGED_SOURCE_BYTES_def)

lemma take_within_code [code_unfold]: "take (MAX_MANAGED_SOURCE_BYTES + 1) content = take_within content"
  by (simp add: take_within_def)

lemma take_within_unfold [code]: "take_within content = (if int (length content) \<le> 67108864 then content else take (nat 67108865) content)"
  by (simp add: take_within_def MAX_MANAGED_SOURCE_BYTES_def)

definition sample_claim :: "string \<Rightarrow> string \<Rightarrow> source_ownership_claim" where
  "sample_claim path integration = \<lparr> cl_path = path, cl_class = ManagedIntegration, cl_integration = Some integration \<rparr>"

definition application_ownership :: "source_ownership_claim list \<Rightarrow> source_ownership" where
  "application_ownership claims =
     \<lparr> ow_default = ApplicationOwned,
       ow_claims = sample_claim ''Cargo.toml'' ''framework-dependencies'' # sample_claim ''hegira.toml'' ''application-manifest'' # claims \<rparr>"

definition old_application :: application_manifest where
  "old_application =
     (let release = sample_release ''v0.7.0''
      in \<lparr> am_schema = 3, am_application = ''demo-app'', am_framework = ri_framework release,
           am_selection = \<lparr> sl_components = {}, sl_databases = {Sqlite}, sl_clients = {Leptos} \<rparr>,
           am_composition = Some \<lparr> cp_package = ri_package release,
             cp_components = [\<lparr> ic_id = LAYERED_BASE_COMPONENT, ic_version = ''v0.7.0'' \<rparr>], cp_modules = [], cp_capabilities = {} \<rparr>,
           am_upgrade = Some \<lparr> ug_framework = ri_framework release, ug_package = ri_package release,
             ug_ownership = application_ownership [] \<rparr> \<rparr>)"

definition application_codec :: package_codec where
  "application_codec = sample_package_codec\<lparr> pc_manifest := upgrade_codec\<lparr>
     mc_from_toml := (\<lambda>s. if s = ''old'' then Inr old_application else Inl ''error''),
     mc_to_toml := (\<lambda>m. if fc_version (am_framework m) = ''v0.8.0'' then Inr ''new'' else Inl ''error'') \<rparr> \<rparr>"

definition sample_integration ::
    "string \<Rightarrow> string \<Rightarrow> managed_integration_transition_kind \<Rightarrow> managed_integration_transition" where
  "sample_integration path integration kind =
     \<lparr> mt_component = LAYERED_BASE_COMPONENT, mt_path = path, mt_integration = integration, mt_kind = kind,
       mt_source_sha256 = (if kind = CreateIntegration then None else Some (sample_digest (CHR ''0''))),
       mt_target_source_component = None, mt_target_lockfile = None, mt_target_sha256 = Some (sample_digest (CHR ''0'')) \<rparr>"

definition application_edge :: upgrade_edge_manifest where
  "application_edge =
     (let state = \<lparr> us_database = Sqlite, us_client = Leptos, us_components = [LAYERED_BASE_COMPONENT], us_modules = [],
          us_capabilities = [] \<rparr>
      in \<lparr> ue_schema = 1, ue_id = ''v07-v08'', ue_source_package_digest = sample_digest (CHR ''d''),
           ue_source = sample_release ''v0.7.0'', ue_target = sample_release ''v0.8.0'',
           ue_compositions = [\<lparr> ut_id = ''base'', ut_source_baseline_digest = sample_digest (CHR ''c''),
             ut_source_ownership = application_ownership [],
             ut_target_ownership = application_ownership [sample_claim ''new.rs'' ''sources''],
             ut_source = state, ut_target = state, ut_manifest_transitions = None, ut_managed_integrations = [] \<rparr>],
           ue_manifest_transitions = [Framework, Package, upgrade_manifest_transition.Components, Ownership],
           ue_managed_integrations =
             [sample_integration ''Cargo.toml'' ''framework-dependencies'' EditIntegration,
              sample_integration ''hegira.toml'' ''application-manifest'' EditIntegration,
              sample_integration ''new.rs'' ''sources'' CreateIntegration] \<rparr>)"

definition application_catalog :: manifest_catalog where
  "application_catalog =
     (let component = (sample_component LAYERED_BASE_COMPONENT)
            \<lparr> co_include := [''Cargo.toml'', ''hegira.toml'', ''new.rs''],
              co_framework_dependencies := [\<lparr> fd_manifest = ''Cargo.toml'', fd_name = ''hegira-core'', fd_path = ''crates/core'',
                fd_default_features = None \<rparr>] \<rparr>;
          file = (\<lambda>name. (map Normal [''applications'', ''layered'', name], name @ '' of v0.8.0''))
      in \<lparr> ct_source = map file [''Cargo.toml'', ''hegira.toml'', ''new.rs''],
           ct_template = \<lparr> tm_schema = 1, tm_id = ''layered'', tm_components = [LAYERED_BASE_COMPONENT], tm_variables = [] \<rparr>,
           ct_components = [(LAYERED_BASE_COMPONENT, component)],
           ct_package = Some (sample_component_package\<lparr> cm_components := [LAYERED_BASE_COMPONENT], cm_modules := [] \<rparr>),
           ct_upgrade_edges = [application_edge] \<rparr>)"

definition cargo_document :: "string \<Rightarrow> toml_table" where
  "cargo_document version =
     [(''workspace'', TomlTable [(''dependencies'', TomlTable
        [(''hegira-core'', cargo_dependency_value (dependency_framework_release ''hegira-core'' HEGIRA_FRAMEWORK_REPOSITORY version True False []))])])]"

text \<open>A library that knows the manifest before and after the move.\<close>

definition application_toml :: "string toml_library" where
  "application_toml =
     \<lparr> toml_parse = (\<lambda>s. if s = ''cargo'' then Some ''v0.7.0'' else None), toml_root = cargo_document,
       toml_insert = (\<lambda>_ _ _ _. ''v0.8.0''), toml_push = (\<lambda>_ _ _ d. d), toml_insert_table = (\<lambda>_ _ _ _ d. d),
       toml_to_string = (\<lambda>d. ''cargo '' @ d) \<rparr>"

definition application_disk :: world where
  "application_disk =
     \<lparr> w_links = [(0, ''app'') \<mapsto> 1, (1, ''hegira.toml'') \<mapsto> 2, (1, ''Cargo.toml'') \<mapsto> 3],
       w_nodes = [0 \<mapsto> Directory, 1 \<mapsto> Directory, 2 \<mapsto> Regular ''old'' 0x81A4, 3 \<mapsto> Regular ''cargo'' 0x81A4],
       w_next = 4, w_clock = 0, w_faults = Map.empty, w_slash = 0, w_cwd = None, w_umask = 0, w_pid = 7, w_nanos = Some 9 \<rparr>"

definition sample_upgrade :: "(upgrade_planning_error + upgrade_plan) option \<times> world" where
  "sample_upgrade =
     plan_upgrade application_toml (\<lambda>_. Some (cargo_document ''v0.7.0'')) sample_sha application_codec application_catalog ''/app''
       application_disk"

text \<open>What the steps of this upgrade yield, written out: the boundary, the plan, and the world after the planning.\<close>

definition sample_boundary :: authenticated_upgrade_boundary where
  "sample_boundary =
     \<lparr> ab_application = old_application, ab_manifest_source = ''old'',
       ab_edge = resolved_of application_edge (hd (ue_compositions application_edge)),
       ab_source_package_digest = sample_digest (CHR ''d''), ab_source_baseline_digest = sample_digest (CHR ''c''),
       ab_managed_sources =
         [\<lparr> ms_transition = sample_integration ''Cargo.toml'' ''framework-dependencies'' EditIntegration,
            ms_source = Some ''cargo'', ms_target = Some ''Cargo.toml of v0.8.0'' \<rparr>,
          \<lparr> ms_transition = sample_integration ''hegira.toml'' ''application-manifest'' EditIntegration,
            ms_source = Some ''old'', ms_target = Some ''hegira.toml of v0.8.0'' \<rparr>,
          \<lparr> ms_transition = sample_integration ''new.rs'' ''sources'' CreateIntegration,
            ms_source = None, ms_target = Some ''new.rs of v0.8.0'' \<rparr>] \<rparr>"

definition sample_change_plan :: change_plan where
  "sample_change_plan =
     [PEdit \<lparr> fe_path = ''Cargo.toml'', fe_original_digest = ''cargo'', fe_content = ''cargo v0.8.0'', fe_result_digest = ''cargo v0.8.0'' \<rparr>,
      PEdit \<lparr> fe_path = ''hegira.toml'', fe_original_digest = ''old'', fe_content = ''new'' @ [CHR 0x0A], fe_result_digest = ''new'' @ [CHR 0x0A] \<rparr>,
      PCreate \<lparr> fn_path = ''new.rs'', fn_content = ''new.rs of v0.8.0'', fn_result_digest = ''new.rs of v0.8.0'' \<rparr>]"

abbreviation planned_disk :: world where
  "planned_disk \<equiv> application_disk\<lparr> w_clock := 23 \<rparr>"

lemma sample_authenticated:
  "authenticate_upgrade_source application_codec application_catalog ''/app'' application_disk = (Inr sample_boundary, planned_disk)"
proof -
  have "case authenticate_upgrade_source application_codec application_catalog ''/app'' application_disk of
      (Inr b, w) \<Rightarrow> b = sample_boundary \<and> w_clock w = 23 | _ \<Rightarrow> False"
    by code_simp
  then obtain w where w: "authenticate_upgrade_source application_codec application_catalog ''/app'' application_disk = (Inr sample_boundary, w)"
    "w_clock w = 23" by (auto split: prod.splits sum.splits)
  from fixes_run [OF reads_authentication w(1)] w(2) have "w = planned_disk"
    by (cases w) (simp add: still_def application_disk_def)
  with w(1) show ?thesis by simp
qed

lemma sample_from_authenticated:
  obtains plan where "from_authenticated application_toml (\<lambda>_. Some (cargo_document ''v0.7.0'')) sample_sha (pc_manifest application_codec)
      application_catalog sample_boundary = Some (Inr plan)" "up_change_plan plan = sample_change_plan"
proof -
  have "case from_authenticated application_toml (\<lambda>_. Some (cargo_document ''v0.7.0'')) sample_sha (pc_manifest application_codec)
      application_catalog sample_boundary of Some (Inr plan) \<Rightarrow> up_change_plan plan = sample_change_plan | _ \<Rightarrow> False"
    by code_simp
  with that show ?thesis by (auto split: option.splits sum.splits)
qed

lemma sample_upgrade_planned:
  obtains plan where "sample_upgrade = (Some (Inr plan), planned_disk)" "up_change_plan plan = sample_change_plan"
  using sample_from_authenticated by (auto simp: sample_upgrade_def plan_upgrade_def sample_authenticated)

lemma sample_change_plan_published:
  "\<exists>w. publish_change_plan sample_sha ''/app'' sample_change_plan planned_disk = (Inr 3, w)"
proof -
  have "case publish_change_plan sample_sha ''/app'' sample_change_plan planned_disk of (Inr n, _) \<Rightarrow> n = 3 | _ \<Rightarrow> False"
    by code_simp
  then show ?thesis by (auto split: prod.splits sum.splits)
qed

lemma application_links:
  "w_links application_disk (d, n) =
     (if d = 1 \<and> n = ''Cargo.toml'' then Some 3 else if d = 1 \<and> n = ''hegira.toml'' then Some 2
      else if d = 0 \<and> n = ''app'' then Some 1 else None)"
  by (simp add: application_disk_def)

lemma application_root_1: "application_root application_disk ''/app'' = Some 1"
proof -
  have "application_root application_disk ''/app'' = resolve application_disk 0 (normal_names (path_components ''/app''))"
    by (simp add: application_root_def root_path_def is_absolute_def application_disk_def)
  moreover have "normal_names (path_components ''/app'') = [''app'']" by code_simp
  ultimately show ?thesis by (simp add: application_disk_def)
qed

lemma application_fresh: "fresh_transaction ''/app'' sample_change_plan 1 ''7-9'' planned_disk"
proof -
  have "nat_digits 7 @ ''-'' @ nat_digits 9 = ''7-9''" by code_simp
  then have digits: "transaction_of application_disk = Some ''7-9''" by (simp add: transaction_of_def application_disk_def)
  have hidden: "''Cargo.toml'' \<notin> temp_names t" "''hegira.toml'' \<notin> temp_names t" "''new.rs'' \<notin> temp_names t" "''app'' \<notin> temp_names t" for t
    by (auto simp: temp_names_def temp_name_def)
  have "list_all (\<lambda>c. last (segments (pc_path c)) \<in> {''Cargo.toml'', ''hegira.toml'', ''new.rs''}) sample_change_plan" by code_simp
  then have names: "last (segments (pc_path c)) \<in> {''Cargo.toml'', ''hegira.toml'', ''new.rs''}" if "c \<in> set sample_change_plan" for c
    using that unfolding list_all_iff by blast
  have "directory_tree application_disk"
    unfolding directory_tree_def by (auto simp: application_links) (auto simp: application_disk_def split: if_splits)
  moreover have "well_linked application_disk"
    unfolding well_linked_def by (auto simp: application_links) (auto simp: application_disk_def split: if_splits)
  moreover have "unused 1 ''7-9'' application_disk"
    using hidden by (auto simp: unused_def own_entries_def application_links MUTATION_MARKER_def)
  moreover have "last (segments (pc_path c)) \<notin> temp_names ''7-9''" if "c \<in> set sample_change_plan" for c
    using names [OF that] hidden by auto
  ultimately have "fresh_transaction ''/app'' sample_change_plan 1 ''7-9'' application_disk"
    using application_root_1 digits by (simp add: fresh_transaction_def)
  then show ?thesis using fresh_cong(1) [of planned_disk application_disk] by (simp add: disk_def origin_def)
qed

theorem upgrade_plan_reaches_target_witness:
  "\<exists>plan graph files'. sample_upgrade = (Some (Inr plan), planned_disk) \<and>
     run_changes sample_sha (up_change_plan plan) (Transactions.files_below application_disk 1) = Some files' \<and>
     upgraded application_toml sample_sha application_codec application_catalog sample_boundary graph
       (Transactions.files_below application_disk 1) files'"
proof -
  obtain plan where p: "sample_upgrade = (Some (Inr plan), planned_disk)" by (rule sample_upgrade_planned)
  from upgrade_plan_reaches_target [OF this [unfolded sample_upgrade_def]] p application_root_1
  show ?thesis by (auto simp: sample_authenticated)
qed

theorem published_upgrade_reaches_target_witness:
  "\<exists>plan w graph. sample_upgrade = (Some (Inr plan), planned_disk) \<and>
     publish_change_plan sample_sha ''/app'' (up_change_plan plan) planned_disk = (Inr 3, w) \<and>
     upgraded application_toml sample_sha application_codec application_catalog sample_boundary graph
       (Transactions.files_below application_disk 1) (Transactions.files_below w 1)"
proof -
  obtain plan where p: "sample_upgrade = (Some (Inr plan), planned_disk)" "up_change_plan plan = sample_change_plan"
    by (rule sample_upgrade_planned)
  obtain w where w: "publish_change_plan sample_sha ''/app'' (up_change_plan plan) planned_disk = (Inr 3, w)"
    using sample_change_plan_published p(2) by auto
  from published_upgrade_reaches_target [OF p(1) [unfolded sample_upgrade_def] w application_fresh [folded p(2)]]
  have "\<exists>graph. upgraded application_toml sample_sha application_codec application_catalog sample_boundary graph
      (Transactions.files_below application_disk 1) (Transactions.files_below w 1)"
    unfolding sample_authenticated prod.inject sum.inject by blast
  with p(1) w show ?thesis by blast
qed

theorem upgrade_changes_entitled_witness:
  "\<exists>plan summary. sample_upgrade = (Some (Inr plan), planned_disk) \<and> upgrade_summary plan = Some summary \<and>
     map uz_path (uy_changes summary) = [''Cargo.toml'', ''hegira.toml'', ''new.rs'']"
proof -
  obtain plan where p: "sample_upgrade = (Some (Inr plan), planned_disk)" "up_change_plan plan = sample_change_plan"
    by (rule sample_upgrade_planned)
  from upgrade_changes_entitled [OF p(1) [unfolded sample_upgrade_def]] p
  show ?thesis by (auto simp: sample_change_plan_def)
qed

end
