(* ===== verification/Spec2Isabelle.thy ===== *)
theory Spec2Isabelle
  imports User_Flows Permission_Cache Transactions Component_Plans Package_Integrity Upgrade_Plans
begin

text \<open>
  \<^bold>\<open>Hegira: a verification library.\<close> The repository holds a framework for layered web applications: reusable
  crates (\<^verbatim>\<open>src/crates\<close>), a module for identities (\<^verbatim>\<open>src/modules/identity\<close>), templates of applications
  (\<^verbatim>\<open>src/templates\<close>) and tools that render, change and upgrade applications (\<^verbatim>\<open>src/tools\<close>). Four parts are
  modelled, each definition translated from the Rust function of the same name.

  \<^bold>\<open>1. The identity module.\<close> Its services run over repositories, a cache and a durable outbox.
  \<^item> \<^verbatim>\<open>Prelude\<close>: computations over a state that stop at the first error (\<^verbatim>\<open>?\<close> is \<open>bindE\<close>), relations all of whose
    parts respect them (locale \<open>run_relation\<close>, collection \<open>steps_intros\<close>), statements on lists of rows.
  \<^item> \<^verbatim>\<open>Rust_Std\<close>, \<^verbatim>\<open>Rust_Text\<close>: the used parts of the standard library; a \<^verbatim>\<open>String\<close> is the list of its UTF-8 bytes.
    \<open>trim\<close> recurses with the length of the string as fuel, which is enough because every white space has a byte.
  \<^item> \<^verbatim>\<open>Identity_Domain\<close>: entities, errors, messages, permissions, validation (\<^verbatim>\<open>domain\<close>, \<^verbatim>\<open>domain_shared\<close>,
    \<^verbatim>\<open>application_contracts\<close>, \<^verbatim>\<open>application/src/identity/validation.rs\<close>).
  \<^item> \<^verbatim>\<open>Store\<close>: the record \<open>env\<close> of what comes from outside (clock, random numbers, driver failures, signatures,
    password hashes, mail transport, OAuth providers), the tables of the migrations as lists of rows with their keys and
    checks (\<open>schema_ok\<close>), SQL statements that may fail at any call, transactions. A query may meet the rows in any order
    (\<open>env_scan\<close>), so rows tied in an \<^verbatim>\<open>ORDER BY\<close> come in any order. \<^verbatim>\<open>Sample_World\<close> instantiates it.
  \<^item> \<^verbatim>\<open>Session_Repository\<close>, \<^verbatim>\<open>User_Repository\<close>, \<^verbatim>\<open>Managed_User_Writer\<close>, \<^verbatim>\<open>Two_Factor_Repository\<close>,
    \<^verbatim>\<open>Authorization_Repository\<close>, \<^verbatim>\<open>OAuth_Repository\<close>: the adapters of \<^verbatim>\<open>sqlx/src/identity\<close> for SQLite; sessions and the
    removal of expired rows for Postgres too, where times are whole microseconds; the two adapters are proved to agree up to that rounding.
  \<^item> \<^verbatim>\<open>Security\<close>, \<^verbatim>\<open>Cache\<close>, \<^verbatim>\<open>Authorization\<close>: tokens and passwords, \<^verbatim>\<open>crates/cache\<close>, and the current-user and
    authorization services with their versioned cache entries.
  \<^item> \<^verbatim>\<open>Auth_Service\<close>, \<^verbatim>\<open>User_Service\<close>, \<^verbatim>\<open>OAuth_Service\<close>: every operation of the application services.
  \<^item> \<^verbatim>\<open>Durable_Jobs\<close>, \<^verbatim>\<open>Job_Delivery\<close>: the SQLite outbox worker of \<^verbatim>\<open>crates/background_jobs\<close> and its delivery
    guarantees.
  \<^item> \<^verbatim>\<open>Identity_Api\<close>, \<^verbatim>\<open>Identity_Invariants\<close>, \<^verbatim>\<open>OAuth_Flows\<close>, \<^verbatim>\<open>User_Flows\<close>: the four service contracts as one type of
    calls, the step relation over calls, worker runs, cleanups, seedings and restarts, its reachable states, and the
    properties that follow a request through several components. A call that the cached authorization service lets through
    is granted by the tables or by an entry of the cache, which may be stale.
  \<^item> \<^verbatim>\<open>Permission_Cache\<close>: a successful change of roles makes the cache agree with the tables, whatever it held; a change
    of address does not.

  \<^bold>\<open>2. The application manifest\<close> (\<^verbatim>\<open>crates/application_manifest/src/lib.rs\<close>). \<^verbatim>\<open>Application_Manifest\<close> models
  the manifest and every validation step in the code's order, so the first error reported is the code's. The reference
  is \<open>well_formed\<close>, a declarative description; \<open>manifest_validation_exact\<close> proves them equivalent. TOML is a
  parameter that reads back what it writes.

  \<^bold>\<open>3. Changing applications\<close> (\<^verbatim>\<open>tools/application_mutator\<close>).
  \<^item> \<^verbatim>\<open>Change_Plan\<close> (\<^verbatim>\<open>lib.rs\<close>) has paths, changes, plans and their composition over \<^verbatim>\<open>Ordered_Map\<close>, the \<^verbatim>\<open>BTreeMap\<close>
    as a sorted list behind the locale \<open>ordered_map\<close>. The abstract specification is \<open>run_changes\<close>, the effect of a list
    of changes on a map from paths to contents; composition refines running one plan after the other. SHA-256 is the
    parameter \<open>sha\<close>; no property assumes that it has no collisions.
  \<^item> \<^verbatim>\<open>File_System\<close> is a POSIX file system of directory entries and inodes. The n-th system call fails when
    \<open>w_faults n\<close> says so, and a failed write may leave any prefix; so a theorem for every \<open>w_faults\<close> covers every
    pattern of failing calls, also all calls from some point on, which is a crash. Other processes do not interfere:
    the world changes by the publisher's calls only. \<^verbatim>\<open>fsync\<close> has no other effect than that it may fail.
  \<^item> \<^verbatim>\<open>Publisher\<close> (\<^verbatim>\<open>publisher.rs\<close>) is the publisher of plans, function by function: staging beside the targets, probing the
    file system, atomic renames, checks between them, rollback, clean-up, the recovery marker.
    The flag \<open>published\<close> is not reset by \<open>rollback_one\<close>, because nothing reads it afterwards.
  \<^item> \<^verbatim>\<open>Publication\<close> has the exact effect of each step on the entries, and three calculi over whole runs: computations
    that only \<open>reads\<close>, errors after which nothing changed (\<open>tidy\<close>, \<open>neutral\<close>), and entries and inodes that a run leaves
    alone (\<open>spares\<close>, locale \<open>inode_relation\<close>).
  \<^item> \<^verbatim>\<open>Transactions\<close> puts them together: \<open>publish_outcome\<close> lists the possible outcomes of a publication, from which the
    all-or-nothing guarantee, the refinement of \<open>run_changes\<close> and the meaning of the error kinds follow.
    The hypotheses (\<open>fresh_transaction\<close>) are facts of POSIX and the choice of fresh temporary names.
  \<^item> \<^verbatim>\<open>Source_Text\<close> and \<^verbatim>\<open>Source_Editor\<close> (\<^verbatim>\<open>editor.rs\<close>) plan edits of Rust sources on the bytes of the file: UTF-8,
    line endings, markers, identifiers. \<open>source_lines_restore\<close> and \<open>source_lines_form\<close> make reading and writing a source
    inverse to each other. \<^verbatim>\<open>Module_Registration\<close> and \<^verbatim>\<open>Managed_Entry\<close> have the exact effect of the two edits: they insert
    their lines at one place and keep all others, and planning again finds the registration present. \<^verbatim>\<open>Toml_Editor\<close>
    has the edits of TOML files over the crate \<^verbatim>\<open>toml_edit\<close> as a parameter: documents are abstract, what they hold is a tree.
  \<^item> \<^verbatim>\<open>Installation\<close> (\<^verbatim>\<open>installation.rs\<close>) has the owners and closed targets of an application, the contributions of a component
    and installation plans. \<^verbatim>\<open>Component_Plans\<close> relates it to change plans: a contribution is a change with an owner
    (\<open>into_parts\<close>), composing contributions simulates composing changes (\<open>changes_of\<close>), so that an installation refines
    running its contributions in sequence.

  \<^bold>\<open>4. Component packages\<close> (\<^verbatim>\<open>tools/template_renderer\<close>).
  \<^item> \<^verbatim>\<open>Rust_Path\<close>: paths compared by their components, \<^verbatim>\<open>parent\<close>, \<^verbatim>\<open>extension\<close>, \<^verbatim>\<open>join\<close>, UTF-8.
  \<^item> \<^verbatim>\<open>Component_Package\<close> (\<^verbatim>\<open>manifest.rs\<close>, errors of \<^verbatim>\<open>lib.rs\<close>): the manifests of a package and of its components
    and their validation, in the order of the code.
  \<^item> \<^verbatim>\<open>Composition\<close> (\<^verbatim>\<open>composition.rs\<close>): the walk over the requirements, all diagnostics, the resolved composition; and
    the older walk of \<^verbatim>\<open>manifest.rs\<close>. The walk has fuel for one level more than there are components; \<open>visit_ends\<close> shows that
    this is enough on every graph, because every level enters a component that no level above has entered.
  \<^item> \<^verbatim>\<open>Resolution\<close>: the invariant \<open>walk_inv\<close> of the walk, what it finds (\<open>walk_finds\<close>), the declarative description
    \<open>admissible\<close> of the compositions that resolve, and the agreement of the two walks.
  \<^item> \<^verbatim>\<open>Upgrade_Graph\<close> (\<^verbatim>\<open>upgrade.rs\<close>): upgrade edges, their validation and canonical order, the choice of an edge;
    \<^verbatim>\<open>Upgrade_Paths\<close>: what the validation guarantees for every edge that is chosen.
  \<^item> \<^verbatim>\<open>Package_Catalog\<close> (\<^verbatim>\<open>manifest.rs\<close>, \<^verbatim>\<open>package_source.rs\<close>): loading a catalog from the snapshot of a package's files,
    the files of a component, the content digest; \<^verbatim>\<open>Package_Integrity\<close>: the injective encoding behind the digest, which files
    it covers, and that every resolution of a loaded catalog returns.
  \<^item> \<^verbatim>\<open>Upgrade_Authentication\<close> and \<^verbatim>\<open>Upgrade_Planning\<close> (the files of the same names): reading an application through
    handles that follow no link, comparing its managed files with the chosen edge, and the change plan of the upgrade.
    \<^verbatim>\<open>Upgrade_Plans\<close> shows what a plan does to the files of the application it was made for, in the terms of \<^verbatim>\<open>Change_Plan\<close>
    and of the publisher's file system.

  \<^bold>\<open>Kinds of lemmas.\<close> For every component there are lemmas \<open>..._Inr\<close> (what a success implies), frame lemmas (what is left
  alone, on every branch), and totality lemmas where a property says that a call succeeds. Error kinds and messages are
  those of the code.

  \<^bold>\<open>Not modelled.\<close> HTTP routing, rendering and the front ends; network clients (Redis, search, object storage, SMTP);
  logging and metrics; reading configuration; the Postgres adapters other than sessions and cleanup; the tools' argument
  parsing and text templates; formatting of TOML documents. Real concurrency is not modelled: database
  transactions run one after the other, and interleavings are sequences of whole operations.
\<close>

end
